(* ===== verification/Prelude.thy ===== *)
theory Prelude
  imports Main "HOL-Library.Word"
begin

text \<open>
  Shared vocabulary of the development: machine integers, C strings, the error type and its
  bind, decimal printing and reading of integers (the \<open>%ld\<close> of snprintf and atoi), and the
  collections of rewrite rules the components extend.

  A C string is an Isabelle string (a list of 8-bit characters) without the terminating NUL; a
  pointer into a string is the suffix it points at, so that \<open>p < q\<close> for two pointers into one
  string reads \<open>length q < length p\<close> on the suffixes.  The target is the MIPS32 little
  endian ABI: char is signed, int, long and pointers have 32 bits.
\<close>

unbundle bit_operations_syntax

named_theorems model_defs \<open>definitions a proof by evaluation unfolds\<close>
named_theorems res_simps \<open>rewriting of results (error or value)\<close>

section \<open>Machine integers\<close>

type_synonym byte = "8 word"
type_synonym dword = "32 word"
type_synonym ddword = "64 word"

text \<open>Two bytes are equal when their eight bits are: turns a bitwise identity into eight goals.\<close>

lemma byte_eqI:
  fixes a b :: byte
  assumes "bit a 0 = bit b 0" "bit a 1 = bit b 1" "bit a 2 = bit b 2" "bit a 3 = bit b 3"
    "bit a 4 = bit b 4" "bit a 5 = bit b 5" "bit a 6 = bit b 6" "bit a 7 = bit b 7"
  shows "a = b"
proof (rule bit_word_eqI)
  fix k assume "k < LENGTH(8)"
  then have "k \<in> {0, 1, 2, 3, 4, 5, 6, 7}" by auto
  with assms show "bit a k = bit b k" by auto
qed

lemma byte_bit_high [simp]: "8 \<le> k \<Longrightarrow> \<not> bit (b :: byte) k"
  by (auto dest: bit_imp_le_length)

lemma unat_word_of_nat_byte: "n < 256 \<Longrightarrow> unat (word_of_nat n :: byte) = n"
  by (simp add: unat_of_nat)

lemma unat_word_of_nat_dword: "n < 2 ^ 32 \<Longrightarrow> unat (word_of_nat n :: dword) = n"
  by (simp add: unat_of_nat)

lemma word_of_nat_byte_nonzero: "0 < n \<Longrightarrow> n < 256 \<Longrightarrow> (word_of_nat n :: byte) \<noteq> 0"
  using unat_word_of_nat_byte [of n] by auto

lemma sint_byte_bounds: "- 128 \<le> sint (b :: byte)" "sint (b :: byte) < 128"
  using sint_ge [of b] sint_lt [of b] by simp_all

text \<open>The value of a sum or product kept in an int of 32 bits.\<close>

definition int32 :: "int \<Rightarrow> int" where
  "int32 i = sint (word_of_int i :: dword)"

lemma int32_id: "- (2 ^ 31) \<le> i \<Longrightarrow> i < 2 ^ 31 \<Longrightarrow> int32 i = i"
  unfolding int32_def sint_sbintrunc' by (simp add: signed_take_bit_int_eq_self)

text \<open>/ and % of C: the quotient is rounded to zero.\<close>

definition c_div :: "int \<Rightarrow> int \<Rightarrow> int" where
  "c_div a b = sgn a * sgn b * (\<bar>a\<bar> div \<bar>b\<bar>)"

definition c_mod :: "int \<Rightarrow> int \<Rightarrow> int" where
  "c_mod a b = sgn a * (\<bar>a\<bar> mod \<bar>b\<bar>)"

section \<open>Error values\<close>

text \<open>
  RETCODE_ERR of hert_app.h, and the undefined behaviour a call can run into: a copy past the
  end of a destination buffer, a read past the end of a source, a \<open>%\<close> directive in text used as
  a format, free of storage malloc did not return, a NULL file or pointer used, text the shell
  expands in a command, and a wait that never ends.
\<close>

datatype retcode =
    RETCODE_SUCCESS
  | RETCODE_INVALID_PARAM
  | RETCODE_INVALID_MSGDATA
  | RETCODE_NO_MEMORY
  | RETCODE_NO_RESOURCE
  | RETCODE_INTERNEAL_ERROR
  | RETCODE_TCPSOCKET_ERROR
  | RETCODE_UNREACHABLE_ERROR
  | RETCODE_NOIMPORTMENT_ERROR
  | RETCODE_MINUS int

datatype fault = WriteOverflow | ReadOverrun | FormatDirective | BadFree | NullDeref
  | ShellExpansion | Blocked

datatype cerr = Ret retcode | Fault fault

definition rbind :: "'e + 'a \<Rightarrow> ('a \<Rightarrow> 'e + 'b) \<Rightarrow> 'e + 'b" where
  "rbind m f = (case m of Inl e \<Rightarrow> Inl e | Inr x \<Rightarrow> f x)"

lemma rbind_Inl [simp, res_simps]: "rbind (Inl e) f = Inl e"
  by (simp add: rbind_def)

lemma rbind_Inr [simp, res_simps]: "rbind (Inr x) f = f x"
  by (simp add: rbind_def)

lemma rbind_eq_Inr [res_simps]: "rbind m f = Inr y \<longleftrightarrow> (\<exists>x. m = Inr x \<and> f x = Inr y)"
  by (cases m) auto

text \<open>A pointer argument that the callee tests against NULL.\<close>

definition nonnull :: "'a option \<Rightarrow> ('a \<Rightarrow> cerr + 'b) \<Rightarrow> cerr + 'b" where
  "nonnull p f = (case p of None \<Rightarrow> Inl (Ret RETCODE_INVALID_PARAM) | Some x \<Rightarrow> f x)"

lemma nonnull_None [simp, res_simps]: "nonnull None f = Inl (Ret RETCODE_INVALID_PARAM)"
  by (simp add: nonnull_def)

lemma nonnull_Some [simp, res_simps]: "nonnull (Some x) f = f x"
  by (simp add: nonnull_def)

lemma nonnull_eq_Inr [res_simps]: "nonnull p f = Inr y \<longleftrightarrow> (\<exists>x. p = Some x \<and> f x = Inr y)"
  by (cases p) auto

section \<open>C strings\<close>

text \<open>strcpy of \<open>v\<close> into an array of \<open>n\<close> chars: the NUL has to fit too.\<close>

definition strcpy_into :: "nat \<Rightarrow> string \<Rightarrow> cerr + string" where
  "strcpy_into n v = (if length v < n then Inr v else Inl (Fault WriteOverflow))"

lemma strcpy_into_Inr [simp, res_simps]:
  "strcpy_into n v = Inr w \<longleftrightarrow> length v < n \<and> w = v"
  by (auto simp: strcpy_into_def)

lemma strcpy_into_fits [simp]: "length v < n \<Longrightarrow> strcpy_into n v = Inr v"
  by simp

text \<open>snprintf into an array of \<open>n\<close> chars keeps the first \<open>n - 1\<close>.\<close>

definition snprintf_into :: "nat \<Rightarrow> string \<Rightarrow> string" where
  "snprintf_into n v = take (n - 1) v"

lemma snprintf_into_fits [simp]: "length v < n \<Longrightarrow> snprintf_into n v = v"
  by (simp add: snprintf_into_def)

lemma length_snprintf_into: "0 < n \<Longrightarrow> length (snprintf_into n v) < n"
  by (simp add: snprintf_into_def)

text \<open>strchr, and strstr with a one-character needle: the suffix from the first hit on.\<close>

fun strchr :: "char \<Rightarrow> string \<Rightarrow> string option" where
  "strchr c [] = None"
| "strchr c (x # xs) = (if x = c then Some (x # xs) else strchr c xs)"

lemma strchr_None_iff [simp]: "strchr c s = None \<longleftrightarrow> c \<notin> set s"
  by (induction s) auto

lemma strchr_SomeD: "strchr c s = Some t \<Longrightarrow> \<exists>u. s = u @ t \<and> c \<notin> set u \<and> (\<exists>t'. t = c # t')"
proof (induction s)
  case Nil
  then show ?case by simp
next
  case (Cons x xs)
  show ?case
  proof (cases "x = c")
    case True
    with Cons.prems show ?thesis by (intro exI [where x = "[]"]) auto
  next
    case False
    with Cons obtain u where "xs = u @ t \<and> c \<notin> set u \<and> (\<exists>t'. t = c # t')" by auto
    with False show ?thesis by (intro exI [where x = "x # u"]) auto
  qed
qed

lemma strchr_append [simp]: "c \<notin> set u \<Longrightarrow> strchr c (u @ c # v) = Some (c # v)"
  by (induction u) auto

lemma strchr_append_skip: "c \<notin> set u \<Longrightarrow> strchr c (u @ v) = strchr c v"
  by (induction u) auto

lemma strchr_length: "strchr c s = Some t \<Longrightarrow> length t \<le> length s"
  by (auto dest!: strchr_SomeD)

lemma strchr_Some_nonempty: "strchr c s = Some t \<Longrightarrow> 0 < length t"
  by (auto dest!: strchr_SomeD)

text \<open>strstr: the suffix from the first occurrence of the needle on.\<close>

fun strstr :: "string \<Rightarrow> string \<Rightarrow> string option" where
  "strstr [] p = (if p = [] then Some [] else None)"
| "strstr (x # xs) p = (if take (length p) (x # xs) = p then Some (x # xs) else strstr xs p)"

lemma strstr_SomeD: "strstr s p = Some t \<Longrightarrow> \<exists>u v. s = u @ p @ v \<and> t = p @ v"
proof (induction s)
  case Nil
  then show ?case by (auto split: if_splits)
next
  case (Cons x xs)
  show ?case
  proof (cases "take (length p) (x # xs) = p")
    case True
    then have "x # xs = p @ drop (length p) (x # xs)"
      by (metis append_take_drop_id)
    moreover from True Cons.prems have "t = x # xs" by simp
    ultimately show ?thesis
      by (intro exI [where x = "[]"] exI [where x = "drop (length p) (x # xs)"]) simp
  next
    case False
    with Cons obtain u v where "xs = u @ p @ v" "t = p @ v" by auto
    then show ?thesis by (intro exI [where x = "x # u"] exI [where x = v]) simp
  qed
qed

section \<open>Bytes and characters\<close>

definition byte_of :: "char \<Rightarrow> byte" where
  "byte_of c = word_of_nat (of_char c)"

definition char_at :: "byte \<Rightarrow> char" where
  "char_at b = char_of (unat b)"

definition bytes_of :: "string \<Rightarrow> byte list" where
  "bytes_of = map byte_of"

lemma length_bytes_of [simp]: "length (bytes_of s) = length s"
  by (simp add: bytes_of_def)

lemma bytes_of_append [simp]: "bytes_of (s @ t) = bytes_of s @ bytes_of t"
  by (simp add: bytes_of_def)

lemma of_char_lt_256: "(of_char c :: nat) < 256"
  by (metis mod_less_divisor of_char_mod_256 zero_less_numeral)

lemma unat_byte_of: "unat (byte_of c) = of_char c"
  using of_char_lt_256 [of c] by (simp add: byte_of_def unat_of_nat)

lemma char_at_byte_of [simp]: "char_at (byte_of c) = c"
  by (simp add: char_at_def unat_byte_of)

lemma char_at_0: "char_at 0 = CHR 0x00"
  by (simp add: char_at_def char_of_def)

lemma byte_of_eq_0_iff: "byte_of c = 0 \<longleftrightarrow> c = CHR 0x00"
proof
  assume "byte_of c = 0"
  then have "char_at (byte_of c) = char_at 0" by simp
  then show "c = CHR 0x00" by (simp only: char_at_byte_of char_at_0)
next
  assume "c = CHR 0x00"
  then show "byte_of c = 0" by (simp add: byte_of_def)
qed

lemma map_char_at_bytes_of [simp]: "map char_at (bytes_of s) = s"
  by (induction s) (simp_all add: bytes_of_def)

text \<open>The C string that starts at an address: None when no NUL ends it inside the object.\<close>

definition cstr :: "byte list \<Rightarrow> string option" where
  "cstr m = (if 0 \<in> set m then Some (map char_at (takeWhile (\<lambda>b. b \<noteq> 0) m)) else None)"

lemma cstr_bytes_of:
  assumes "CHR 0x00 \<notin> set s"
  shows "cstr (bytes_of s @ 0 # r) = Some s"
proof -
  have "takeWhile (\<lambda>b. b \<noteq> 0) (bytes_of s @ 0 # r) = bytes_of s"
    using assms by (subst takeWhile_append2) (auto simp: bytes_of_def byte_of_eq_0_iff)
  then show ?thesis by (simp add: cstr_def)
qed

end
