(* ===== verification/Decimal.thy ===== *)
theory Decimal
  imports Prelude
begin

text \<open>
  Decimal text of integers: what snprintf prints for \<open>%d\<close>, \<open>%ld\<close> and \<open>%lld\<close>
  (\<open>show_int\<close>) and what atoi reads back (\<open>atoi\<close>: leading white space, an optional sign,
  digits up to the first other character, saturated to the 32 bit long of the target as
  strtol does).  The library theorem of this file is that atoi undoes show_int.
\<close>

definition digit_char :: "nat \<Rightarrow> char" where
  "digit_char d = char_of (48 + d)"

definition is_digit :: "char \<Rightarrow> bool" where
  "is_digit c = (48 \<le> (of_char c :: nat) \<and> (of_char c :: nat) \<le> 57)"

definition digit_val :: "char \<Rightarrow> nat" where
  "digit_val c = of_char c - 48"

definition is_space :: "char \<Rightarrow> bool" where
  "is_space c = ((of_char c :: nat) = 32 \<or> 9 \<le> (of_char c :: nat) \<and> (of_char c :: nat) \<le> 13)"

fun show_nat :: "nat \<Rightarrow> string" where
  "show_nat n = (if n < 10 then [digit_char n] else show_nat (n div 10) @ [digit_char (n mod 10)])"

declare show_nat.simps [simp del]

definition show_int :: "int \<Rightarrow> string" where
  "show_int i = (if i < 0 then CHR ''-'' # show_nat (nat (- i)) else show_nat (nat i))"

fun scan_digits :: "nat \<Rightarrow> string \<Rightarrow> nat" where
  "scan_digits acc [] = acc"
| "scan_digits acc (c # cs) =
     (if is_digit c then scan_digits (acc * 10 + digit_val c) cs else acc)"

definition clamp_long :: "int \<Rightarrow> int" where
  "clamp_long i = max (- (2 ^ 31)) (min (2 ^ 31 - 1) i)"

definition atoi :: "string \<Rightarrow> int" where
  "atoi s = (case dropWhile is_space s of
       [] \<Rightarrow> 0
     | c # cs \<Rightarrow>
         if c = CHR ''-'' then clamp_long (- int (scan_digits 0 cs))
         else if c = CHR ''+'' then clamp_long (int (scan_digits 0 cs))
         else clamp_long (int (scan_digits 0 (c # cs))))"

text \<open>"%02X" of a byte.\<close>

definition hex2 :: "byte \<Rightarrow> string" where
  "hex2 b = map (\<lambda>d. if d < 10 then char_of (48 + d) else char_of (55 + d)) [unat b div 16, unat b mod 16]"

text \<open>"%x".\<close>

fun show_hex :: "nat \<Rightarrow> string" where
  "show_hex n = (let d = n mod 16; c = (if d < 10 then char_of (48 + d) else char_of (87 + d))
     in if n < 16 then [c] else show_hex (n div 16) @ [c])"

declare show_hex.simps [simp del]

section \<open>Digits\<close>

lemma of_char_digit_char: "d < 10 \<Longrightarrow> (of_char (digit_char d) :: nat) = 48 + d"
  by (simp add: digit_char_def)

lemma is_digit_digit_char [simp]: "d < 10 \<Longrightarrow> is_digit (digit_char d)"
  by (simp add: is_digit_def of_char_digit_char)

lemma digit_val_digit_char [simp]: "d < 10 \<Longrightarrow> digit_val (digit_char d) = d"
  by (simp add: digit_val_def of_char_digit_char)

lemma is_digit_not_space: "is_digit c \<Longrightarrow> \<not> is_space c"
  by (auto simp: is_digit_def is_space_def)

lemma is_digit_not_sign: "is_digit c \<Longrightarrow> c \<noteq> CHR ''-'' \<and> c \<noteq> CHR ''+''"
  by (auto simp: is_digit_def)

lemma show_nat_digits: "c \<in> set (show_nat n) \<Longrightarrow> is_digit c"
proof (induction n rule: show_nat.induct)
  case (1 n)
  then show ?case by (subst (asm) (2) show_nat.simps) (auto split: if_splits)
qed

lemma show_nat_nonempty [simp]: "show_nat n \<noteq> []"
  by (subst show_nat.simps) simp

lemma scan_digits_append:
  "(\<And>c. c \<in> set s \<Longrightarrow> is_digit c) \<Longrightarrow> scan_digits acc (s @ t) = scan_digits (scan_digits acc s) t"
  by (induction s arbitrary: acc) auto

lemma scan_digits_show_nat: "scan_digits 0 (show_nat n) = n"
proof (induction n rule: show_nat.induct)
  case (1 n)
  show ?case
  proof (cases "n < 10")
    case True
    then show ?thesis by (subst show_nat.simps) simp
  next
    case False
    with 1 have "scan_digits 0 (show_nat (n div 10) @ [digit_char (n mod 10)]) = n"
      by (subst scan_digits_append) (auto dest: show_nat_digits)
    with False show ?thesis by (subst show_nat.simps) simp
  qed
qed

lemma scan_digits_stop: "t = [] \<or> \<not> is_digit (hd t) \<Longrightarrow> scan_digits acc t = acc"
  by (cases t) auto

lemma scan_digits_show_nat_rest:
  "t = [] \<or> \<not> is_digit (hd t) \<Longrightarrow> scan_digits 0 (show_nat n @ t) = n"
  by (simp add: scan_digits_append [OF show_nat_digits] scan_digits_show_nat scan_digits_stop)

section \<open>Reading back what was printed\<close>

lemma clamp_long_id: "- (2 ^ 31) \<le> i \<Longrightarrow> i < 2 ^ 31 \<Longrightarrow> clamp_long i = i"
  by (simp add: clamp_long_def)

lemma dropWhile_space_digit: "is_digit c \<Longrightarrow> dropWhile is_space (c # s) = c # s"
  by (simp add: is_digit_not_space)

lemma atoi_show_nat:
  assumes "t = [] \<or> \<not> is_digit (hd t)" and "int n < 2 ^ 31"
  shows "atoi (show_nat n @ t) = int n"
proof -
  obtain c cs where s: "show_nat n = c # cs" by (cases "show_nat n") auto
  then have "is_digit c" using show_nat_digits [of c n] by simp
  then have "atoi (show_nat n @ t) = clamp_long (int (scan_digits 0 (show_nat n @ t)))"
    by (simp add: atoi_def s is_digit_not_space is_digit_not_sign)
  then show ?thesis
    using assms by (simp add: scan_digits_show_nat_rest clamp_long_id)
qed

lemma atoi_show_int:
  assumes "t = [] \<or> \<not> is_digit (hd t)" and "- (2 ^ 31) \<le> i" and "i < 2 ^ 31"
  shows "atoi (show_int i @ t) = i"
proof (cases "i < 0")
  case True
  have "\<not> is_space (CHR ''-'')" by (simp add: is_space_def)
  with True have "atoi (show_int i @ t) = clamp_long (- int (scan_digits 0 (show_nat (nat (- i)) @ t)))"
    by (simp add: atoi_def show_int_def)
  then show ?thesis using assms True
    by (simp add: scan_digits_show_nat_rest clamp_long_id)
next
  case False
  then show ?thesis using assms atoi_show_nat [of t "nat i"] by (simp add: show_int_def)
qed

text \<open>The characters of a printed integer: a sign or digits, so none of the JSON separators.\<close>

lemma show_int_chars: "c \<in> set (show_int i) \<Longrightarrow> is_digit c \<or> c = CHR ''-''"
  by (auto simp: show_int_def split: if_splits dest: show_nat_digits)

lemma show_nat_length: "n < 10 ^ k \<Longrightarrow> 0 < k \<Longrightarrow> length (show_nat n) \<le> k"
proof (induction k arbitrary: n)
  case 0
  then show ?case by simp
next
  case (Suc k)
  show ?case
  proof (cases "n < 10")
    case True
    then show ?thesis by (subst show_nat.simps) simp
  next
    case False
    with Suc.prems have k: "0 < k" by (cases k) auto
    from Suc.prems have "n div 10 < 10 ^ k"
      by (simp add: div_less_iff_less_mult mult.commute)
    with Suc.IH k have "length (show_nat (n div 10)) \<le> k" by simp
    with False show ?thesis by (subst show_nat.simps) simp
  qed
qed

lemma show_int_length:
  assumes "- (10 ^ k) < i" and "i < 10 ^ k" and "0 < k"
  shows "length (show_int i) \<le> Suc k"
proof -
  have "nat \<bar>i\<bar> < 10 ^ k" using assms(1,2) by (simp add: nat_less_iff)
  then have "length (show_nat (nat \<bar>i\<bar>)) \<le> k" using assms(3) by (rule show_nat_length)
  then show ?thesis by (auto simp: show_int_def abs_if split: if_splits)
qed

end
