(* ===== verification/JsonParse.thy ===== *)
theory JsonParse
  imports Decimal
begin

text \<open>
  ParseJsonString of herouteapp/hert_msg.c (lines 311-407), the only JSON reader of the
  platform client, and the loop every Parse_Msg_* function runs over it.  A call takes the text
  from the current position, finds the next item name between quotation marks, the colon, the
  end of the value (the next comma, or else the next closing brace) and returns name, value and
  the position behind that end; None is the NULL the loop stops at.
\<close>

section \<open>Separators\<close>

abbreviation STR_QUOTATION :: char where "STR_QUOTATION \<equiv> CHR 0x22"
abbreviation STR_SEPRATION :: char where "STR_SEPRATION \<equiv> CHR '':''"
abbreviation STR_END1 :: char where "STR_END1 \<equiv> CHR '',''"
abbreviation STR_END2 :: char where "STR_END2 \<equiv> CHR ''}''"

section \<open>The item parser\<close>

text \<open>The text between two positions, cut to what fits an array of \<open>n\<close> chars with its NUL.\<close>

definition span_text :: "nat \<Rightarrow> string \<Rightarrow> string \<Rightarrow> string" where
  "span_text n l r = take (min (n - 1) (length l - length r)) l"

lemma span_text_append [simp]: "span_text n (u @ r) r = take (n - 1) u"
  by (simp add: span_text_def min_def)

text \<open>Step 2 of the source: the end of the value, and the position behind it.\<close>

definition value_end :: "string \<Rightarrow> (string \<times> string) option" where
  "value_end l = (case strchr STR_END1 l of
       Some r \<Rightarrow> Some (r, tl r)
     | None \<Rightarrow> (case strchr STR_END2 l of Some r \<Rightarrow> Some (r, tl r) | None \<Rightarrow> None))"

text \<open>Step 3: a quotation mark before the end makes the value the text between two marks.\<close>

definition value_span :: "string \<Rightarrow> string \<Rightarrow> string \<Rightarrow> (string \<times> string) option" where
  "value_span l r e = (case strchr STR_QUOTATION l of
       None \<Rightarrow> Some (l, r)
     | Some t \<Rightarrow>
         if length e < length t then
           (case strchr STR_QUOTATION (tl t) of
              None \<Rightarrow> None
            | Some t2 \<Rightarrow> if length e < length t2 then Some (tl t, t2) else None)
         else Some (l, r))"

definition ParseJsonString :: "string \<Rightarrow> (string \<times> string \<times> string) option" where
  "ParseJsonString pData = (case strchr STR_QUOTATION pData of
       None \<Rightarrow> None
     | Some q \<Rightarrow> (case strchr STR_QUOTATION (tl q) of
         None \<Rightarrow> None
       | Some r \<Rightarrow> (case strchr STR_SEPRATION r of
           None \<Rightarrow> None
         | Some c \<Rightarrow> (case value_end (tl c) of
             None \<Rightarrow> None
           | Some (vr, e) \<Rightarrow> (case value_span (tl c) vr e of
               None \<Rightarrow> None
             | Some (vl, vr') \<Rightarrow> Some (span_text 128 (tl q) r, span_text 256 vl vr', e))))))"

lemmas parse_json_defs = ParseJsonString_def value_end_def value_span_def span_text_def

declare parse_json_defs [model_defs]

text \<open>Every call that returns an item moves the position forward.\<close>

lemma value_end_shorter: "value_end l = Some (r, e) \<Longrightarrow> length e < length l"
  by (auto simp: value_end_def split: option.splits dest!: strchr_SomeD)

lemma ParseJsonString_shorter:
  assumes "ParseJsonString s = Some (n, v, e)"
  shows "length e < length s"
proof -
  from assms obtain q r c vr where
    "strchr STR_QUOTATION s = Some q" "strchr STR_QUOTATION (tl q) = Some r"
    "strchr STR_SEPRATION r = Some c" "value_end (tl c) = Some (vr, e)"
    by (auto simp: ParseJsonString_def split: option.splits prod.splits)
  then have "length q \<le> length s" "length r \<le> length (tl q)" "length c \<le> length r"
      "length e < length (tl c)"
    by (auto dest: strchr_length value_end_shorter)
  then show ?thesis by simp
qed

text \<open>Name and value fit the local arrays szName[128] and szValue[256].\<close>

lemma ParseJsonString_bounds:
  assumes "ParseJsonString s = Some (n, v, e)"
  shows "length n \<le> 127" and "length v \<le> 255"
  using assms by (auto simp: ParseJsonString_def span_text_def split: option.splits prod.splits)

section \<open>The parse loop\<close>

lemma rbind_cong [fundef_cong]:
  "m = m' \<Longrightarrow> (\<And>x. m' = Inr x \<Longrightarrow> f x = g x) \<Longrightarrow> rbind m f = rbind m' g"
  by (auto simp: rbind_def split: sum.splits)

text \<open>
  \<open>while (NULL != (pData = ParseJsonString(pData, szItemName, szItemValue)))\<close>: the value is
  copied by strcpy into the caller's szItemValue, whose size is \<open>vsize\<close>, and then handed to the
  chain of strcmp tests, \<open>step\<close>.
\<close>

function json_loop :: "nat \<Rightarrow> (string \<Rightarrow> string \<Rightarrow> 'a \<Rightarrow> cerr + 'a) \<Rightarrow> string \<Rightarrow> 'a \<Rightarrow> cerr + 'a" where
  "json_loop vsize step pData st = (case ParseJsonString pData of
       None \<Rightarrow> Inr st
     | Some (szItemName, szItemValue, rest) \<Rightarrow>
         rbind (strcpy_into vsize szItemValue) (\<lambda>v.
         rbind (step szItemName v st) (\<lambda>st'. json_loop vsize step rest st')))"
  by pat_completeness auto
termination
  by (relation "measure (\<lambda>(vsize, step, s, st). length s)")
     (auto dest: ParseJsonString_shorter)

declare json_loop.simps [simp del]

text \<open>All items a text yields, in order.\<close>

function json_items :: "string \<Rightarrow> (string \<times> string) list" where
  "json_items s = (case ParseJsonString s of
       None \<Rightarrow> []
     | Some (n, v, rest) \<Rightarrow> (n, v) # json_items rest)"
  by pat_completeness auto
termination
  by (relation "measure length") (auto dest: ParseJsonString_shorter)

declare json_items.simps [simp del]

fun items_fold ::
  "nat \<Rightarrow> (string \<Rightarrow> string \<Rightarrow> 'a \<Rightarrow> cerr + 'a) \<Rightarrow> (string \<times> string) list \<Rightarrow> 'a \<Rightarrow> cerr + 'a" where
  "items_fold vsize step [] st = Inr st"
| "items_fold vsize step ((n, v) # xs) st =
     rbind (strcpy_into vsize v) (\<lambda>v'. rbind (step n v' st) (items_fold vsize step xs))"

lemma json_loop_items: "json_loop vsize step s st = items_fold vsize step (json_items s) st"
proof (induction s arbitrary: st rule: json_items.induct)
  case (1 s)
  show ?case
  proof (cases "ParseJsonString s")
    case None
    then show ?thesis by (simp add: json_loop.simps [of vsize step s] json_items.simps [of s])
  next
    case (Some p)
    obtain n v e where p: "p = (n, v, e)" by (cases p)
    with Some 1 have "json_loop vsize step e = items_fold vsize step (json_items e)"
      by (auto intro!: ext)
    with Some p show ?thesis
      by (simp add: json_loop.simps [of vsize step s] json_items.simps [of s])
  qed
qed

text \<open>An invariant of the step is an invariant of the loop.\<close>

lemma items_fold_inv:
  assumes "items_fold vsize step xs st = Inr st'" and "P st"
    and "\<And>n v s s'. P s \<Longrightarrow> length v < vsize \<Longrightarrow> step n v s = Inr s' \<Longrightarrow> P s'"
  shows "P st'"
  using assms(1,2)
proof (induction xs arbitrary: st)
  case Nil
  then show ?case by simp
next
  case (Cons x xs)
  obtain n v where x: "x = (n, v)" by (cases x)
  with Cons.prems obtain s1 where "length v < vsize" "step n v st = Inr s1"
      "items_fold vsize step xs s1 = Inr st'"
    by (auto simp: rbind_eq_Inr)
  with Cons.IH Cons.prems(2) assms(3) show ?case by blast
qed

text \<open>The loop copies without overflow when every value fits the caller's array.\<close>

lemma json_items_value_bound: "(n, v) \<in> set (json_items s) \<Longrightarrow> length n \<le> 127 \<and> length v \<le> 255"
proof (induction s rule: json_items.induct)
  case (1 s)
  show ?case
  proof (cases "ParseJsonString s")
    case None
    with 1 show ?thesis by (simp add: json_items.simps [of s])
  next
    case (Some p)
    obtain a b e where p: "p = (a, b, e)" by (cases p)
    with Some 1 show ?thesis
      by (auto simp: json_items.simps [of s] dest: ParseJsonString_bounds)
  qed
qed

section \<open>Reading back one item\<close>

text \<open>
  What a value must not contain for the reader to find its end: a quotation mark, and the two
  characters that end a value, which the reader looks for without regard to quotation.
\<close>

definition plain_text :: "string \<Rightarrow> bool" where
  "plain_text v = (STR_QUOTATION \<notin> set v \<and> STR_END1 \<notin> set v \<and> STR_END2 \<notin> set v)"

definition str_item :: "string \<Rightarrow> string \<Rightarrow> string" where
  "str_item n v =
     STR_QUOTATION # n @ STR_QUOTATION # STR_SEPRATION # STR_QUOTATION # v @ [STR_QUOTATION]"

definition num_item :: "string \<Rightarrow> int \<Rightarrow> string" where
  "num_item n i = STR_QUOTATION # n @ STR_QUOTATION # STR_SEPRATION # show_int i"

lemma value_end_sep:
  assumes "STR_END1 \<notin> set v" and "STR_END2 \<notin> set v"
    and "sep = STR_END1 \<or> sep = STR_END2 \<and> STR_END1 \<notin> set rest"
  shows "value_end (v @ sep # rest) = Some (sep # rest, rest)"
proof (cases "sep = STR_END1")
  case True
  with assms(1) show ?thesis by (simp add: value_end_def)
next
  case False
  with assms have "strchr STR_END1 (v @ sep # rest) = None" by auto
  with False assms(2,3) show ?thesis by (simp only: value_end_def option.case) simp
qed

lemma ParseJsonString_head:
  assumes "STR_QUOTATION \<notin> set pre" and "STR_QUOTATION \<notin> set n"
    and "value_end l = Some (vr, e)" and "value_span l vr e = Some (vl, vr')"
  shows "ParseJsonString (pre @ STR_QUOTATION # n @ STR_QUOTATION # STR_SEPRATION # l) =
    Some (take 127 n, span_text 256 vl vr', e)"
  using assms by (simp add: ParseJsonString_def)

lemma ParseJsonString_str_item:
  assumes "STR_QUOTATION \<notin> set pre" and "STR_QUOTATION \<notin> set n" and "plain_text v"
    and "sep = STR_END1 \<or> sep = STR_END2 \<and> STR_END1 \<notin> set rest"
  shows "ParseJsonString (pre @ str_item n v @ sep # rest) = Some (take 127 n, take 255 v, rest)"
proof -
  let ?l = "STR_QUOTATION # v @ STR_QUOTATION # sep # rest"
  from assms(3,4) have "value_end ((STR_QUOTATION # v @ [STR_QUOTATION]) @ sep # rest) =
      Some (sep # rest, rest)"
    by (intro value_end_sep) (auto simp: plain_text_def)
  then have e: "value_end ?l = Some (sep # rest, rest)" by simp
  moreover have "value_span ?l (sep # rest) rest = Some (v @ STR_QUOTATION # sep # rest, STR_QUOTATION # sep # rest)"
    using assms(3) by (simp add: value_span_def plain_text_def)
  ultimately show ?thesis
    using ParseJsonString_head [OF assms(1,2) e] by (simp add: str_item_def)
qed

lemma show_int_plain: "plain_text (show_int i)"
  unfolding plain_text_def by (auto dest!: show_int_chars simp: is_digit_def)

lemma ParseJsonString_num_item:
  assumes "STR_QUOTATION \<notin> set pre" and "STR_QUOTATION \<notin> set n"
    and "sep = STR_END1 \<or> sep = STR_END2 \<and> STR_END1 \<notin> set rest"
  shows "ParseJsonString (pre @ num_item n i @ sep # rest) =
    Some (take 127 n, take 255 (show_int i), rest)"
proof -
  let ?l = "show_int i @ sep # rest"
  have p: "STR_QUOTATION \<notin> set (show_int i)" "STR_END1 \<notin> set (show_int i)"
      "STR_END2 \<notin> set (show_int i)"
    using show_int_plain [of i] by (auto simp: plain_text_def)
  from p(2,3) assms(3) have e: "value_end ?l = Some (sep # rest, rest)"
    by (rule value_end_sep)
  have "strchr STR_QUOTATION ?l = strchr STR_QUOTATION rest"
    using p(1) assms(3) by (auto simp: strchr_append_skip)
  then have "value_span ?l (sep # rest) rest = Some (?l, sep # rest)"
    by (auto simp: value_span_def not_less split: option.splits dest: strchr_length)
  then show ?thesis
    using ParseJsonString_head [OF assms(1,2) e] by (simp add: num_item_def)
qed

lemma ParseJsonString_no_quote: "STR_QUOTATION \<notin> set s \<Longrightarrow> ParseJsonString s = None"
  by (simp add: ParseJsonString_def strchr_None_iff [THEN iffD2])

end
