(* ===== verification/JsonBuild.thy ===== *)
theory JsonBuild
  imports JsonParse
begin

text \<open>
  The JSON writer of herouteapp/hert_msg.c: the macros FORMAT_JSON_ITEM_*, ADD_ITEM_TO_JSON and
  ADD_STR_TO_JSON (lines 57-108) that every Build_Msg_* function is a sequence of.  A builder's
  macro calls are a list of \<open>jstep\<close> values in source order; \<open>json_steps\<close> runs them over the
  malloc'ed text szJson of nJsonSize chars.  The theorems: the text never outgrows its buffer,
  and the items written are the items ParseJsonString reads back.
\<close>

section \<open>The macros\<close>

text \<open>FORMAT_JSON_ITEM_STR and the three integer variants: snprintf into szItem[128].\<close>

definition FORMAT_JSON_ITEM_STR :: "string \<Rightarrow> string \<Rightarrow> string" where
  "FORMAT_JSON_ITEM_STR a ptv = snprintf_into 128 (str_item a ptv)"

definition FORMAT_JSON_ITEM_INT :: "string \<Rightarrow> byte \<Rightarrow> string" where
  "FORMAT_JSON_ITEM_INT a ptv = snprintf_into 128 (num_item a (sint ptv))"

definition FORMAT_JSON_ITEM_LNG :: "string \<Rightarrow> dword \<Rightarrow> string" where
  "FORMAT_JSON_ITEM_LNG a ptv = snprintf_into 128 (num_item a (sint ptv))"

definition FORMAT_JSON_ITEM_LNGLNG :: "string \<Rightarrow> ddword \<Rightarrow> string" where
  "FORMAT_JSON_ITEM_LNGLNG a ptv = snprintf_into 128 (num_item a (sint ptv))"

text \<open>
  ADD_ITEM_TO_JSON tests the size before the separating comma (or the opening brace) is counted,
  so an item that leaves no room for it loses its last character to snprintf.
\<close>

definition ADD_ITEM_TO_JSON :: "nat \<Rightarrow> string \<Rightarrow> string \<Rightarrow> cerr + string" where
  "ADD_ITEM_TO_JSON nJsonSize Json Item =
     (if length Json + length Item < nJsonSize then
        Inr (Json @ snprintf_into (nJsonSize - length Json)
               ((if 0 < length Json then STR_END1 else CHR ''{'') # Item))
      else Inl (Ret RETCODE_NO_MEMORY))"

text \<open>ADD_STR_TO_JSON with a constant text (no \<open>%\<close> in it).\<close>

definition ADD_STR_TO_JSON :: "nat \<Rightarrow> string \<Rightarrow> string \<Rightarrow> cerr + string" where
  "ADD_STR_TO_JSON nJsonSize Json str =
     (if length Json + length str < nJsonSize then
        Inr (Json @ snprintf_into (nJsonSize - length Json) str)
      else Inl (Ret RETCODE_NO_MEMORY))"

text \<open>
  ADD_STR_TO_JSON with a computed text, which snprintf takes as its format: a \<open>%\<close> in it is a
  directive without an argument.
\<close>

definition ADD_FMT_TO_JSON :: "nat \<Rightarrow> string \<Rightarrow> string \<Rightarrow> cerr + string" where
  "ADD_FMT_TO_JSON nJsonSize Json str =
     (if length Json + length str < nJsonSize then
        if CHR ''%'' \<in> set str then Inl (Fault FormatDirective)
        else Inr (Json @ snprintf_into (nJsonSize - length Json) str)
      else Inl (Ret RETCODE_NO_MEMORY))"

datatype jstep = AddItem string | AddStr string | AddFmt string

fun json_step :: "nat \<Rightarrow> jstep \<Rightarrow> string \<Rightarrow> cerr + string" where
  "json_step n (AddItem i) J = ADD_ITEM_TO_JSON n J i"
| "json_step n (AddStr s) J = ADD_STR_TO_JSON n J s"
| "json_step n (AddFmt s) J = ADD_FMT_TO_JSON n J s"

fun json_steps :: "nat \<Rightarrow> jstep list \<Rightarrow> string \<Rightarrow> cerr + string" where
  "json_steps n [] J = Inr J"
| "json_steps n (x # xs) J = rbind (json_step n x J) (json_steps n xs)"

lemmas json_build_defs =
  FORMAT_JSON_ITEM_STR_def FORMAT_JSON_ITEM_INT_def FORMAT_JSON_ITEM_LNG_def
  FORMAT_JSON_ITEM_LNGLNG_def ADD_ITEM_TO_JSON_def ADD_STR_TO_JSON_def ADD_FMT_TO_JSON_def

declare json_build_defs [model_defs]

lemma json_steps_append:
  "json_steps n (xs @ ys) J = rbind (json_steps n xs J) (json_steps n ys)"
proof (induction xs arbitrary: J)
  case Nil
  then show ?case by simp
next
  case (Cons x xs)
  then show ?case by (cases "json_step n x J") simp_all
qed

section \<open>The text stays inside its buffer\<close>

lemma json_step_bound:
  assumes "json_step n x J = Inr J'" and "length J < n"
  shows "length J' < n"
proof -
  have "length (J @ snprintf_into (n - length J) s) < n" for s
    using length_snprintf_into [of "n - length J" s] assms(2) by simp
  with assms(1) show ?thesis
    by (cases x) (auto simp: json_build_defs split: if_splits)
qed

lemma json_steps_bound: "json_steps n xs J = Inr J' \<Longrightarrow> length J < n \<Longrightarrow> length J' < n"
proof (induction xs arbitrary: J)
  case Nil
  then show ?case by simp
next
  case (Cons x xs)
  then obtain J1 where J1: "json_step n x J = Inr J1" "json_steps n xs J1 = Inr J'"
    by (auto simp: rbind_eq_Inr)
  with Cons.prems(2) have "length J1 < n" by (blast intro: json_step_bound)
  with J1(2) show ?case by (rule Cons.IH)
qed

text \<open>Steps fail only for want of room, unless a format is computed.\<close>

lemma json_steps_error:
  "json_steps n xs J = Inl e \<Longrightarrow> (\<And>s. AddFmt s \<notin> set xs) \<Longrightarrow> e = Ret RETCODE_NO_MEMORY"
proof (induction xs arbitrary: J)
  case Nil
  then show ?case by simp
next
  case (Cons x xs)
  show ?case
  proof (cases "json_step n x J")
    case (Inl a)
    with Cons.prems show ?thesis
      by (cases x) (auto simp: json_build_defs split: if_splits)
  next
    case (Inr b)
    with Cons show ?thesis by simp
  qed
qed

section \<open>Fields and the round trip\<close>

text \<open>The abstract view of an item: its name and the text its reader gets for it.\<close>

datatype jfield = FStr string string | FNum string int

fun field_item :: "jfield \<Rightarrow> string" where
  "field_item (FStr n v) = str_item n v"
| "field_item (FNum n i) = num_item n i"

fun field_pair :: "jfield \<Rightarrow> string \<times> string" where
  "field_pair (FStr n v) = (n, v)"
| "field_pair (FNum n i) = (n, show_int i)"

text \<open>A field its reader gets back: a name without quotation mark, a plain value, 127 chars in all.\<close>

fun readable :: "jfield \<Rightarrow> bool" where
  "readable (FStr n v) = (STR_QUOTATION \<notin> set n \<and> plain_text v \<and> length n + length v \<le> 122)"
| "readable (FNum n i) = (STR_QUOTATION \<notin> set n \<and> length n + length (show_int i) \<le> 124)"

lemma readable_item_length: "readable f \<Longrightarrow> length (field_item f) < 128"
  by (cases f) (auto simp: str_item_def num_item_def)

lemma snprintf_field_item [simp]: "readable f \<Longrightarrow> snprintf_into 128 (field_item f) = field_item f"
  by (simp add: readable_item_length)

text \<open>The object text of a list of fields.\<close>

fun fields_text :: "jfield list \<Rightarrow> string" where
  "fields_text [] = ''''"
| "fields_text [f] = field_item f"
| "fields_text (f # g # fs) = field_item f @ STR_END1 # fields_text (g # fs)"

lemma fields_text_snoc:
  "fs \<noteq> [] \<Longrightarrow> fields_text (fs @ [g]) = fields_text fs @ STR_END1 # field_item g"
  by (induction fs rule: fields_text.induct) auto

lemma ParseJsonString_field:
  assumes "readable f" and "STR_QUOTATION \<notin> set pre"
    and "sep = STR_END1 \<or> sep = STR_END2 \<and> STR_END1 \<notin> set rest"
  shows "ParseJsonString (pre @ field_item f @ sep # rest) =
    Some (fst (field_pair f), snd (field_pair f), rest)"
proof (cases f)
  case (FStr n v)
  with assms show ?thesis by (simp add: ParseJsonString_str_item)
next
  case (FNum n i)
  with assms show ?thesis by (simp add: ParseJsonString_num_item)
qed

lemma json_items_fields:
  assumes "fs \<noteq> []" and "\<forall>f \<in> set fs. readable f" and "STR_QUOTATION \<notin> set pre"
    and "STR_QUOTATION \<notin> set post" and "STR_END1 \<notin> set post"
  shows "json_items (pre @ fields_text fs @ STR_END2 # post) = map field_pair fs"
  using assms
proof (induction fs arbitrary: pre rule: fields_text.induct)
  case 1
  then show ?case by simp
next
  case (2 f)
  then show ?case
    by (simp add: json_items.simps [of "pre @ field_item f @ STR_END2 # post"]
        json_items.simps [of post] ParseJsonString_field ParseJsonString_no_quote)
next
  case (3 f g fs)
  let ?t = "fields_text (g # fs) @ STR_END2 # post"
  have "json_items ?t = map field_pair (g # fs)"
    using 3 by (metis append_Nil list.distinct(1) list.set_intros(2) empty_iff list.set(1))
  moreover have "ParseJsonString (pre @ field_item f @ STR_END1 # ?t) =
      Some (fst (field_pair f), snd (field_pair f), ?t)"
    using 3 by (intro ParseJsonString_field) auto
  ultimately show ?case
    by (simp add: json_items.simps [of "pre @ field_item f @ STR_END1 # ?t"])
qed

text \<open>
  Running the item steps of a builder, as long as there is room for all of them, produces the
  object text of the fields.
\<close>

definition object_text :: "jfield list \<Rightarrow> string" where
  "object_text fs = CHR ''{'' # fields_text fs"

lemma add_items_text:
  assumes "fs \<noteq> []" and "\<forall>f \<in> set (fs @ gs). readable f"
    and "length (object_text (fs @ gs)) < n"
  shows "json_steps n (map (\<lambda>f. AddItem (snprintf_into 128 (field_item f))) gs) (object_text fs)
    = Inr (object_text (fs @ gs))"
  using assms
proof (induction gs arbitrary: fs)
  case Nil
  then show ?case by simp
next
  case (Cons g gs)
  have r: "readable g" using Cons.prems(2) by simp
  have fit: "length (object_text (fs @ [g])) < n"
  proof (cases gs)
    case Nil
    with Cons.prems(3) show ?thesis by simp
  next
    case (Cons h hs)
    have "length (fields_text (xs @ ys)) \<le> length (fields_text (xs @ ys @ zs))"
      if "xs \<noteq> []" for xs ys zs :: "jfield list"
    proof (induction zs rule: rev_induct)
      case Nil
      then show ?case by simp
    next
      case (snoc z zs)
      with that show ?case using fields_text_snoc [of "xs @ ys @ zs" z] by simp
    qed
    from this [of fs "[g]" gs] Cons.prems(1,3) show ?thesis by (simp add: object_text_def)
  qed
  have "json_step n (AddItem (snprintf_into 128 (field_item g))) (object_text fs)
      = Inr (object_text (fs @ [g]))"
    using fit Cons.prems(1) r
    by (simp add: ADD_ITEM_TO_JSON_def object_text_def fields_text_snoc)
  moreover have "json_steps n (map (\<lambda>f. AddItem (snprintf_into 128 (field_item f))) gs)
      (object_text (fs @ [g])) = Inr (object_text ((fs @ [g]) @ gs))"
    using Cons.prems by (intro Cons.IH) simp_all
  ultimately show ?case by (simp only: list.map json_steps.simps rbind_Inr append_assoc append.simps)
qed

text \<open>A whole flat object: the items from an empty text, then the closing brace.\<close>

definition flat_steps :: "jfield list \<Rightarrow> jstep list" where
  "flat_steps fs = map (\<lambda>f. AddItem (snprintf_into 128 (field_item f))) fs @ [AddStr ''}'']"

lemma flat_steps_text:
  assumes "fs \<noteq> []" and "\<forall>f \<in> set fs. readable f" and "length (fields_text fs) + 2 < n"
  shows "json_steps n (flat_steps fs) [] = Inr (CHR ''{'' # fields_text fs @ ''}'')"
proof -
  obtain f gs where fs: "fs = f # gs" using assms(1) by (cases fs) auto
  have "length (fields_text [f]) \<le> length (fields_text (f # gs))"
    by (cases gs) auto
  then have first: "json_step n (AddItem (snprintf_into 128 (field_item f))) [] = Inr (object_text [f])"
    using assms fs by (simp add: ADD_ITEM_TO_JSON_def object_text_def)
  have "json_steps n (map (\<lambda>f. AddItem (snprintf_into 128 (field_item f))) gs) (object_text [f])
      = Inr (object_text ([f] @ gs))"
    using assms fs by (intro add_items_text) (simp_all add: object_text_def)
  then have "json_steps n (map (\<lambda>f. AddItem (snprintf_into 128 (field_item f))) fs) []
      = Inr (object_text fs)"
    by (simp only: fs list.map json_steps.simps first rbind_Inr append.simps)
  then show ?thesis
    using assms(3) by (simp add: flat_steps_def json_steps_append ADD_STR_TO_JSON_def
        object_text_def)
qed

lemma flat_steps_items:
  assumes "fs \<noteq> []" and "\<forall>f \<in> set fs. readable f" and "length (fields_text fs) + 2 < n"
    and "json_steps n (flat_steps fs) [] = Inr J"
  shows "json_items J = map field_pair fs"
proof -
  have "J = ''{'' @ fields_text fs @ STR_END2 # ''''"
    using flat_steps_text [OF assms(1-3)] assms(4) by simp
  moreover have "json_items (''{'' @ fields_text fs @ STR_END2 # '''') = map field_pair fs"
    using assms(1,2) by (intro json_items_fields) simp_all
  ultimately show ?thesis by (simp only:)
qed

end
