(* ===== verification/WireLength.thy ===== *)
theory WireLength
  imports Prelude
begin

text \<open>
  The binary header of a platform message (herouteapp/hert_msg.c lines 119-198, 200-212,
  280-308; hert_msg.h line 32): message type in the high nibble of the first byte, then the
  remaining length in 7 bit groups (SetMsgLengthItem writes them, Parse_Msg_Data reads them),
  and the two length bytes of an option string (GetHighLowFromString, GetLengthFromTwoBytes).
  \<open>varint\<close> is the reference encoding; SetMsgLengthItem is proved equal to it, and the result of
  Parse_Msg_Data is characterised on it.
\<close>

section \<open>Reading memory\<close>

definition rd :: "byte list \<Rightarrow> nat \<Rightarrow> cerr + byte" where
  "rd m i = (if i < length m then Inr (m ! i) else Inl (Fault ReadOverrun))"

lemma rd_append_left [simp]: "i < length xs \<Longrightarrow> rd (xs @ ys) i = Inr (xs ! i)"
  by (simp add: rd_def nth_append)

lemma rd_Cons_0 [simp]: "rd (x # xs) 0 = Inr x"
  by (simp add: rd_def)

lemma rd_Cons_Suc [simp]: "rd (x # xs) (Suc i) = rd xs i"
  by (simp add: rd_def)

section \<open>Message types\<close>

definition CONN_REQ :: byte where "CONN_REQ = 1"
definition CONN_RESP :: byte where "CONN_RESP = 2"
definition PUSH_DATA :: byte where "PUSH_DATA = 3"
definition PING_REQ :: byte where "PING_REQ = 12"
definition PING_RESP :: byte where "PING_RESP = 13"

lemmas msg_type_defs = CONN_REQ_def CONN_RESP_def PUSH_DATA_def PING_REQ_def PING_RESP_def

declare msg_type_defs [model_defs]

definition SET_MSG_HEADER_TYPE :: "byte \<Rightarrow> byte" where
  "SET_MSG_HEADER_TYPE ty = push_bit 4 ty"

text \<open>The shift works on the sign extended char; the mask removes the copies of the sign.\<close>

definition GET_MSG_TYPE :: "byte \<Rightarrow> byte" where
  "GET_MSG_TYPE a = 0x0f AND signed_drop_bit 4 a"

lemma bit_below_4: "t < 16 \<Longrightarrow> bit (t :: byte) k \<Longrightarrow> k < 4"
proof -
  assume "t < 16" "bit t k"
  then have "unat t < 2 ^ 4" by (simp add: word_less_nat_alt)
  then have "take_bit 4 (unat t) = unat t" by (simp add: take_bit_nat_eq_self)
  then have "take_bit 4 t = t" by (metis unsigned_take_bit_eq word_unat_eq_iff)
  with \<open>bit t k\<close> show "k < 4" by (metis bit_take_bit_iff)
qed

lemma GET_SET_MSG_TYPE: "t < 16 \<Longrightarrow> GET_MSG_TYPE (SET_MSG_HEADER_TYPE t) = t"
proof (rule bit_word_eqI)
  fix k assume t: "t < 16" and "k < LENGTH(8)"
  then have "k \<in> {0, 1, 2, 3, 4, 5, 6, 7}" by auto
  then show "bit (GET_MSG_TYPE (SET_MSG_HEADER_TYPE t)) k = bit t k"
    using bit_below_4 [OF t, of 4] bit_below_4 [OF t, of 5] bit_below_4 [OF t, of 6] bit_below_4 [OF t, of 7]
    by (auto simp: GET_MSG_TYPE_def SET_MSG_HEADER_TYPE_def bit_simps)
qed

section \<open>Option lengths\<close>

text \<open>\<open>(int)((nHighLength << 8) | nLowLength)\<close> on signed chars.\<close>

definition GetLengthFromTwoBytes :: "byte \<Rightarrow> byte \<Rightarrow> int" where
  "GetLengthFromTwoBytes nHighLength nLowLength =
     sint (push_bit 8 (scast nHighLength :: dword) OR scast nLowLength)"

text \<open>A short takes the strlen; its two bytes are the result (high, low).\<close>

definition GetHighLowFromString :: "string \<Rightarrow> byte \<times> byte" where
  "GetHighLowFromString pdata =
     (let nLength = (word_of_nat (length pdata) :: 16 word)
      in (ucast (drop_bit 8 nLength), ucast nLength))"

text \<open>Both shifts and the disjunction happen on sign extended integers.\<close>

lemma GetLength_int:
  "GetLengthFromTwoBytes h l = push_bit 8 (sint h) OR sint l"
proof -
  have "sint (scast l :: dword) = sint l" by (rule sint_up_scast) (simp add: is_up)
  moreover have "sint (push_bit 8 (scast h :: dword)) = push_bit 8 (sint h)"
  proof -
    have "push_bit 8 (scast h :: dword) = word_of_int (push_bit 8 (sint h))"
      by (rule bit_word_eqI) (auto simp: bit_simps)
    then have "sint (push_bit 8 (scast h :: dword)) = signed_take_bit 31 (push_bit 8 (sint h))"
      by (simp add: signed_of_int)
    also have "\<dots> = push_bit 8 (sint h)"
      using sint_byte_bounds [of h]
      by (intro signed_take_bit_int_eq_self) (simp_all add: push_bit_eq_mult)
    finally show ?thesis .
  qed
  ultimately show ?thesis by (simp add: GetLengthFromTwoBytes_def signed_or_eq)
qed

lemma or_low: "0 \<le> (l::int) \<Longrightarrow> l < 256 \<Longrightarrow> push_bit 8 a OR l = a * 256 + l"
proof -
  assume l: "0 \<le> l" "l < 256"
  then have t: "take_bit 8 l = l" by (simp add: take_bit_int_eq_self)
  have "push_bit 8 a OR l = push_bit 8 a + l"
  proof (rule disjunctive_add_eq_or [symmetric])
    show "push_bit 8 a AND l = 0"
      by (subst t [symmetric]) (rule bit_eqI, auto simp: bit_simps)
  qed
  then show ?thesis by (simp add: push_bit_eq_mult)
qed

lemma or_negative: "l < 0 \<Longrightarrow> - 128 \<le> (l::int) \<Longrightarrow> push_bit 8 a OR l = l"
proof -
  assume l: "l < 0" "- 128 \<le> l"
  have "signed_take_bit 7 l = l" using l by (simp add: signed_take_bit_int_eq_self)
  have "bit l k = bit l (min 7 k)" for k
    using bit_signed_take_bit_iff [of 7 l k] \<open>signed_take_bit 7 l = l\<close> by simp
  moreover have "bit l 7"
  proof (rule ccontr)
    assume "\<not> bit l 7"
    then have "signed_take_bit 7 l = take_bit 7 l" by (simp add: signed_take_bit_eq_if_positive)
    with \<open>signed_take_bit 7 l = l\<close> l(1) show False by (metis not_less take_bit_nonnegative)
  qed
  ultimately have hi: "7 \<le> k \<Longrightarrow> bit l k" for k by (metis min.absorb1)
  show ?thesis by (rule bit_eqI) (auto simp: bit_simps hi)
qed

lemma GetHighLow_bytes:
  assumes "GetHighLowFromString s = (h, l)"
  shows "unat h = length s div 256 mod 256" and "unat l = length s mod 256"
proof -
  have "unat (word_of_nat n :: 16 word) = take_bit 16 n" for n
    by (simp add: unsigned_of_nat)
  moreover have "take_bit 8 (drop_bit 8 (take_bit 16 n)) = take_bit 8 (drop_bit 8 n)"
      "take_bit 8 (take_bit 16 n) = take_bit 8 n" for n :: nat
    by (rule bit_eqI, auto simp: bit_simps)+
  ultimately have "unat h = take_bit 8 (drop_bit 8 (length s))" "unat l = take_bit 8 (length s)"
    using assms by (auto simp: GetHighLowFromString_def Let_def unsigned_ucast_eq unat_drop_bit_eq)
  then show "unat h = length s div 256 mod 256" "unat l = length s mod 256"
    by (simp_all add: take_bit_eq_mod drop_bit_eq_div)
qed

text \<open>
  The value read back from the two bytes of a string of length n below 32768: n itself when the
  low byte is below 128, and otherwise the low byte as a negative number.
\<close>

lemma signed7: "(a::nat) < 256 \<Longrightarrow> signed_take_bit 7 (int a) = (if a < 128 then int a else int a - 256)"
proof -
  assume a: "a < 256"
  show ?thesis
  proof (cases "a < 128")
    case True then show ?thesis by (simp add: signed_take_bit_int_eq_self)
  next
    case False
    have "signed_take_bit 7 (int a) = take_bit 8 (int a + 128) - 128"
      by (simp add: signed_take_bit_eq_take_bit_shift)
    also have "take_bit 8 (int a + 128) = int a - 128"
    proof -
      have "int a + 128 = (int a - 128) + 256" by simp
      then have "(int a + 128) mod 256 = (int a - 128) mod 256" by (metis mod_add_self2)
      then show ?thesis using a False by (simp add: take_bit_eq_mod)
    qed
    finally show ?thesis using False by simp
  qed
qed
lemma sint_byte_nat:
  "sint (b :: byte) = (if unat b < 128 then int (unat b) else int (unat b) - 256)"
proof -
  have "unat b < 256" using unsigned_less [of b] by simp
  moreover have "sint b = signed_take_bit 7 (int (unat b))"
    by (simp add: sint_uint)
  ultimately show ?thesis by (simp only: signed7)
qed

lemma GetLength_GetHighLow:
  assumes "GetHighLowFromString s = (h, l)" and "length s < 32768"
  shows "GetLengthFromTwoBytes h l =
    (if length s mod 256 < 128 then int (length s) else int (length s mod 256) - 256)"
proof -
  have h: "unat h = length s div 256" and l: "unat l = length s mod 256"
    using GetHighLow_bytes [OF assms(1)] assms(2) by (simp_all add: mod_less less_mult_imp_div_less)
  have sh: "sint h = int (length s div 256)"
    using assms(2) h by (simp add: sint_byte_nat less_mult_imp_div_less)
  show ?thesis
  proof (cases "length s mod 256 < 128")
    case True
    then have "sint l = int (length s mod 256)" by (simp add: sint_byte_nat l)
    then have "GetLengthFromTwoBytes h l = int (length s div 256) * 256 + int (length s mod 256)"
      by (simp add: GetLength_int sh or_low)
    also have "\<dots> = int (length s)"
    proof -
      have "int a * 256 + int b = int (a * 256 + b)" for a b :: nat by simp
      then show ?thesis by (simp only: div_mult_mod_eq)
    qed
    finally show ?thesis using True by simp
  next
    case False
    then have "sint l = int (length s mod 256) - 256" by (simp add: sint_byte_nat l)
    moreover have "int (length s mod 256) < 256" by simp
    ultimately show ?thesis using False by (simp add: GetLength_int or_negative)
  qed
qed

section \<open>The remaining length\<close>

function varint :: "nat \<Rightarrow> byte list" where
  "varint n = (if n < 128 then [word_of_nat n] else word_of_nat (128 + n mod 128) # varint (n div 128))"
  by pat_completeness auto
termination by (relation "measure id") auto

declare varint.simps [simp del]

lemma varint_length: "n \<le> 16383 \<Longrightarrow> length (varint n) \<le> 2"
proof -
  assume n: "n \<le> 16383"
  then have "n div 128 < 128" by (simp add: less_mult_imp_div_less)
  then show ?thesis by (simp add: varint.simps [of n] varint.simps [of "n div 128"])
qed

fun varint_decode :: "byte list \<Rightarrow> (nat \<times> byte list) option" where
  "varint_decode [] = None"
| "varint_decode (b # bs) =
     (if unat b < 128 then Some (unat b, bs)
      else (case varint_decode bs of None \<Rightarrow> None
            | Some (n, r) \<Rightarrow> Some (unat b - 128 + 128 * n, r)))"

lemma varint_roundtrip: "varint_decode (varint n @ r) = Some (n, r)"
proof (induction n rule: varint.induct)
  case (1 n)
  show ?case
  proof (cases "n < 128")
    case True
    then show ?thesis by (subst varint.simps) (simp add: unat_of_nat)
  next
    case False
    have u: "unat (word_of_nat (128 + n mod 128) :: byte) = 128 + n mod 128"
      by (rule unat_word_of_nat_byte) simp
    from False have "varint n = word_of_nat (128 + n mod 128) # varint (n div 128)"
      by (subst varint.simps) simp
    moreover have "128 + n mod 128 - 128 + 128 * (n div 128) = n" by simp
    ultimately show ?thesis
      using 1 False by (simp only: append_Cons varint_decode.simps u) simp
  qed
qed

definition SetMsgLengthItem :: "dword \<Rightarrow> byte list" where
  "SetMsgLengthItem nMsgLen =
     (let p0 = (ucast nMsgLen :: byte); p1 = ucast (drop_bit 8 nMsgLen);
          p2 = ucast (drop_bit 16 nMsgLen); p3 = ucast (drop_bit 24 nMsgLen);
          t1 = drop_bit 7 (0x80 AND p0) OR push_bit 1 p1;
          t2 = drop_bit 7 (0x80 AND p1) OR push_bit 1 p2;
          t3 = drop_bit 7 (0x80 AND p2) OR push_bit 1 p3
      in if nMsgLen \<le> 127 then [p0]
         else if nMsgLen \<le> 16383 then [(0x7f AND p0) OR 0x80, t1]
         else if nMsgLen \<le> 2097151 then [(0x7f AND p0) OR 0x80, (0x7f AND t1) OR 0x80, t2]
         else if nMsgLen \<le> 268435455 then
           [(0x7f AND p0) OR 0x80, (0x7f AND t1) OR 0x80, (0x7f AND t2) OR 0x80, t3]
         else [])"

section \<open>SetMsgLengthItem is the reference encoding\<close>

text \<open>The shifted and joined halves are the 7 bit groups of the length.\<close>

lemma msg_length_groups:
  fixes n :: dword
  shows "drop_bit 7 (0x80 AND (ucast n :: byte)) OR push_bit 1 (ucast (drop_bit 8 n)) =
      ucast (drop_bit 7 n)"
    and "drop_bit 7 (0x80 AND (ucast (drop_bit 8 n) :: byte)) OR push_bit 1 (ucast (drop_bit 16 n)) =
      ucast (drop_bit 15 n)"
    and "drop_bit 7 (0x80 AND (ucast (drop_bit 16 n) :: byte)) OR push_bit 1 (ucast (drop_bit 24 n)) =
      ucast (drop_bit 23 n)"
  by (rule byte_eqI; simp add: bit_simps del: push_bit_Suc)+

lemma unat_drop: "unat (drop_bit k (n :: dword)) = unat n div 2 ^ k"
  by (subst unat_drop_bit_eq) (rule drop_bit_eq_div)

lemma unat_ucast_drop: "unat (ucast (drop_bit k (n :: dword)) :: byte) = unat n div 2 ^ k mod 256"
proof -
  have "unat (ucast w :: byte) = unat w mod 256" for w :: dword
    by (simp add: unsigned_ucast_eq take_bit_eq_mod)
  then show ?thesis by (simp only: unat_drop)
qed

lemma continued_group: "(0x7f AND (ucast (drop_bit k (n :: dword)) :: byte)) OR 0x80 =
    word_of_nat (128 + unat n div 2 ^ k mod 128)"
proof -
  let ?w = "ucast (drop_bit k n) :: byte"
  have "(0x7f :: byte) = mask 7" by (simp add: mask_eq_exp_minus_1)
  then have "0x7f AND ?w = take_bit 7 ?w" by (simp add: take_bit_eq_mask and.commute)
  moreover have "take_bit 7 ?w OR 0x80 = take_bit 7 ?w + 0x80"
    by (rule disjunctive_add_eq_or [symmetric], rule byte_eqI) (simp_all add: bit_simps)
  moreover have "take_bit 7 ?w = word_of_nat (unat n div 2 ^ k mod 128)"
  proof (rule word_unat_eq_iff [THEN iffD2])
    have "unat (take_bit 7 ?w) = unat n div 2 ^ k mod 256 mod 128"
      by (simp only: unsigned_take_bit_eq unat_ucast_drop) (simp add: take_bit_eq_mod)
    also have "\<dots> = unat n div 2 ^ k mod 128" by (simp add: mod_mod_cancel)
    finally show "unat (take_bit 7 ?w) = unat (word_of_nat (unat n div 2 ^ k mod 128) :: byte)"
      by (simp add: unat_of_nat)
  qed
  ultimately show ?thesis by (simp add: add.commute)
qed

lemma last_group:
  "unat n div 2 ^ k < 256 \<Longrightarrow> (ucast (drop_bit k (n :: dword)) :: byte) = word_of_nat (unat n div 2 ^ k)"
  by (rule word_unat_eq_iff [THEN iffD2]) (simp only: unat_ucast_drop, simp add: unat_of_nat)

text \<open>The same for the first byte, which is not shifted.\<close>

lemma first_group:
  fixes n :: dword
  shows "(0x7f AND (ucast n :: byte)) OR 0x80 = word_of_nat (128 + unat n mod 128)"
    and "unat n < 256 \<Longrightarrow> (ucast n :: byte) = word_of_nat (unat n)"
  using continued_group [where n = n and k = 0] last_group [where n = n and k = 0]
  by (simp_all only: drop_bit_0 id_apply power_0 div_by_1)

lemma SetMsgLengthItem_one: "unat n \<le> 127 \<Longrightarrow> SetMsgLengthItem n = varint (unat n)"
  using first_group(2) [where n = n]
  by (simp add: SetMsgLengthItem_def Let_def word_le_nat_alt varint.simps [of "unat n"])

lemma SetMsgLengthItem_two:
  assumes "128 \<le> unat n" and "unat n \<le> 16383"
  shows "SetMsgLengthItem n = varint (unat n)"
proof -
  have d: "unat n div 128 < 128" using assms(2) by (simp add: less_mult_imp_div_less)
  then have "varint (unat n) = [word_of_nat (128 + unat n mod 128), word_of_nat (unat n div 128)]"
    using assms(1) by (simp add: varint.simps [of "unat n"] varint.simps [of "unat n div 128"])
  moreover have "SetMsgLengthItem n = [(0x7f AND ucast n) OR 0x80, ucast (drop_bit 7 n)]"
    using assms msg_length_groups(1) [of n] by (simp add: SetMsgLengthItem_def Let_def word_le_nat_alt)
  ultimately show ?thesis
    using first_group(1) [where n = n] last_group [where n = n and k = 7] d by simp
qed

text \<open>
  With three groups the third is taken one bit too high: bit 14 of the length is lost and the
  bits from 15 on move down by one.
\<close>

lemma SetMsgLengthItem_three:
  assumes "16384 \<le> unat n" and "unat n \<le> 2097151"
  shows "SetMsgLengthItem n = [word_of_nat (128 + unat n mod 128),
    word_of_nat (128 + unat n div 128 mod 128), word_of_nat (unat n div 32768)]"
proof -
  have d: "unat n div 32768 < 256" using assms(2) by (simp add: less_mult_imp_div_less)
  have "SetMsgLengthItem n = [(0x7f AND ucast n) OR 0x80,
      (0x7f AND ucast (drop_bit 7 n)) OR 0x80, ucast (drop_bit 15 n)]"
    using assms msg_length_groups [of n] by (simp add: SetMsgLengthItem_def Let_def word_le_nat_alt)
  then show ?thesis
    using first_group(1) [where n = n] continued_group [where n = n and k = 7]
      last_group [where n = n and k = 15] d
    by simp
qed

text \<open>C33: up to 16383 SetMsgLengthItem writes the reference encoding of the length.\<close>

theorem SetMsgLengthItem_varint:
  "unat n \<le> 16383 \<Longrightarrow> SetMsgLengthItem n = varint (unat n)"
  using SetMsgLengthItem_one [of n] SetMsgLengthItem_two [of n] by (cases "unat n \<le> 127") auto

theorem SetMsgLengthItem_varint_witness: "SetMsgLengthItem 300 = varint (unat (300 :: dword))"
  by (rule SetMsgLengthItem_varint) simp

text \<open>
  From 16384 to 2097151 a peer that decodes the length SetMsgLengthItem wrote gets the
  length with bit 14 removed and the bits above it shifted down, so never the length itself
  unless bits 14 and up agree by chance; 16384 decodes as 0.
\<close>

theorem SetMsgLengthItem_three_decode:
  assumes "16384 \<le> unat n" and "unat n \<le> 2097151"
  shows "varint_decode (SetMsgLengthItem n @ r) =
    Some (unat n mod 16384 + 16384 * (unat n div 32768), r)"
proof -
  have "unat (word_of_nat (128 + a mod 128) :: byte) = 128 + a mod 128" for a
    by (rule unat_word_of_nat_byte) simp
  moreover have d: "unat n div 32768 < 128" using assms(2) by (simp add: less_mult_imp_div_less)
  moreover have "unat (word_of_nat (unat n div 32768) :: byte) = unat n div 32768"
    using d by (intro unat_word_of_nat_byte) simp
  moreover have "unat n mod 128 + 128 * (unat n div 128 mod 128) = unat n mod 16384"
    using mod_mult2_eq [of "unat n" 128 128] by simp
  ultimately show ?thesis
    by (simp only: SetMsgLengthItem_three [OF assms] append_Cons append_Nil varint_decode.simps)
       (simp add: add.assoc)
qed

theorem SetMsgLengthItem_three_decode_witness:
  "varint_decode (SetMsgLengthItem 16384 @ []) = Some (0, [])"
  using SetMsgLengthItem_three_decode [of 16384 "[]"] by simp

section \<open>Reading the remaining length\<close>

text \<open>
  The loop of Parse_Msg_Data over positions of the received bytes.  It tests
  \<open>((*ptData) && 0x80) == 0\<close>, that is whether the byte is 0, and adds
  \<open>((*ptData) && 0x7F) << (7 * i)\<close>, that is one bit per further byte.
\<close>

fun pmd_loop :: "nat \<Rightarrow> nat \<Rightarrow> byte list \<Rightarrow> nat \<Rightarrow> dword \<Rightarrow> cerr + nat \<times> dword" where
  "pmd_loop 0 i m p len = Inr (p, len)"
| "pmd_loop (Suc k) i m p len =
     rbind (rd m p) (\<lambda>b. if b = 0 then Inr (p, len)
       else rbind (rd m (Suc p)) (\<lambda>c.
         pmd_loop k (Suc i) m (Suc p) (len OR push_bit (7 * i) (if c \<noteq> 0 then 1 else 0))))"

definition Parse_Msg_Data :: "byte list option \<Rightarrow> cerr + nat \<times> dword" where
  "Parse_Msg_Data ptMsg = (case ptMsg of
       None \<Rightarrow> Inl (Ret RETCODE_NO_MEMORY)
     | Some m \<Rightarrow> rbind (rd m 1) (\<lambda>b. pmd_loop 4 1 m 1 (ucast (b AND 0x7F))))"

lemma low7: "n < 256 \<Longrightarrow> ucast ((word_of_nat n :: byte) AND 0x7F) = (word_of_nat (n mod 128) :: dword)"
proof -
  assume "n < 256"
  have "(0x7F :: byte) = mask 7" by (simp add: mask_eq_exp_minus_1)
  then have e: "(word_of_nat n :: byte) AND 0x7F = take_bit 7 (word_of_nat n)"
    by (simp add: take_bit_eq_mask)
  have "unat (ucast (take_bit 7 (word_of_nat n :: byte)) :: dword) = n mod 128"
  proof -
    have "unat (take_bit 7 (word_of_nat n :: byte)) = n mod 128"
      using \<open>n < 256\<close> by (simp only: unsigned_take_bit_eq unat_word_of_nat_byte) (simp add: take_bit_eq_mod)
    then show ?thesis by (simp only: unsigned_ucast_eq) (simp add: take_bit_eq_mod)
  qed
  moreover have "unat (word_of_nat (n mod 128) :: dword) = n mod 128" by (simp add: unat_of_nat)
  ultimately show ?thesis unfolding e by (intro word_unat_eq_iff [THEN iffD2]) (simp only:)
qed

lemma or_exp: "y < 2 ^ k \<Longrightarrow> k < 32 \<Longrightarrow>
    (word_of_nat y :: dword) OR push_bit k 1 = word_of_nat (y + 2 ^ k)"
proof -
  assume y: "y < 2 ^ k" and k: "k < 32"
  have t: "take_bit k y = y" using y by (simp add: take_bit_nat_eq_self)
  have "(word_of_nat y :: dword) AND push_bit k 1 = 0"
  proof (rule bit_word_eqI)
    fix i assume "i < LENGTH(32)"
    have "bit y k = False" using t by (metis bit_take_bit_iff less_irrefl)
    then show "bit ((word_of_nat y :: dword) AND push_bit k 1) i = bit (0 :: dword) i"
      by (auto simp: bit_simps bit_1_iff bit_push_bit_iff)
  qed
  then have "(word_of_nat y :: dword) OR push_bit k 1 = word_of_nat y + push_bit k 1"
    by (rule disjunctive_add_eq_or [symmetric])
  then show ?thesis by (simp add: push_bit_eq_mult)
qed

lemma rd_1 [simp]: "rd (x # y # ys) 1 = Inr y"
  by (simp only: One_nat_def rd_Cons_Suc rd_Cons_0)

lemma pmd_loop_4: "pmd_loop 4 = pmd_loop (Suc (Suc (Suc (Suc 0))))"
  by (rule arg_cong [where f = pmd_loop]) simp

text \<open>
  On a frame whose length field is the reference encoding of \<open>n\<close> and whose option is
  shorter than 256 bytes (its high length byte is 0), Parse_Msg_Data finds the option, but of a
  two byte length it keeps only the low seven bits and sets bit 7: the length is right below 256
  and \<open>n mod 128 + 128\<close> for every longer message.
\<close>

theorem Parse_Msg_Data_frame:
  assumes "0 < n" and "n < 16384"
  shows "Parse_Msg_Data (Some (ty # varint n @ 0 # rest)) =
    Inr (1 + length (varint n), word_of_nat (if n < 128 then n else n mod 128 + 128))"
proof (cases "n < 128")
  case True
  then have v: "varint n = [word_of_nat n]" by (simp add: varint.simps)
  have "(word_of_nat n :: byte) \<noteq> 0" using assms True by (intro word_of_nat_byte_nonzero) simp_all
  with True v show ?thesis
    by (simp add: Parse_Msg_Data_def low7 pmd_loop_4)
next
  case False
  have d: "n div 128 < 128" "0 < n div 128"
    using assms(2) False by (simp_all add: less_mult_imp_div_less div_greater_zero_iff)
  then have v: "varint n = [word_of_nat (128 + n mod 128), word_of_nat (n div 128)]"
    using False by (simp add: varint.simps [of n] varint.simps [of "n div 128"])
  have nz: "(word_of_nat (128 + n mod 128) :: byte) \<noteq> 0" "(word_of_nat (n div 128) :: byte) \<noteq> 0"
    using d by (intro word_of_nat_byte_nonzero, simp_all)+
  have l: "(ucast ((word_of_nat (128 + n mod 128) :: byte) AND 0x7F) :: dword) = word_of_nat (n mod 128)"
    by (subst low7) simp_all
  have "(word_of_nat (n mod 128) :: dword) OR push_bit 7 1 = word_of_nat (n mod 128 + 2 ^ 7)"
    by (rule or_exp) simp_all
  then show ?thesis
    unfolding v Parse_Msg_Data_def using nz l False by (simp add: pmd_loop_4 del: push_bit_Suc)
qed

theorem Parse_Msg_Data_frame_witness:
  "Parse_Msg_Data (Some (0x30 # varint 300 @ 0 # [])) = Inr (3, 172)"
  using Parse_Msg_Data_frame [of 300 "0x30" "[]"] by (simp add: varint.simps)

end
