(* ===== verification/Base64.thy ===== *)
theory Base64
  imports Prelude
begin

text \<open>
  The Base64 coders of herouteapp/hert_com.c: base64encoder (lines 196-256), base64decoder
  (lines 260-322) and hertUtil_base64_encode (lines 1772-1825), which the domain report uses.
  Lengths are naturals, with the 32 bit wrap-around of base64encoder written out.  The theorems:
  the two encoders agree, and the decoder undoes them.
\<close>

section \<open>The code table\<close>

definition codes :: string where
  "codes = ''ABCDEFGHIJKLMNOPQRSTUVWXYZabcdefghijklmnopqrstuvwxyz0123456789+/''"

definition code_char :: "byte \<Rightarrow> char" where
  "code_char i = codes ! unat i"

text \<open>The chain of range tests in base64decoder.\<close>

definition decode_char :: "char \<Rightarrow> byte option" where
  "decode_char car = (let c = (of_char car :: nat) in
     if 65 \<le> c \<and> c \<le> 90 then Some (word_of_nat (c - 65))
     else if 97 \<le> c \<and> c \<le> 122 then Some (word_of_nat (c + 26 - 97))
     else if 48 \<le> c \<and> c \<le> 57 then Some (word_of_nat (c + 52 - 48))
     else if c = 43 then Some 62
     else if c = 47 then Some 63
     else None)"

lemma decode_codes: "map decode_char codes = map (\<lambda>n. Some (word_of_nat n)) [0..<64]"
  by code_simp

lemma length_codes: "length codes = 64"
  by (simp add: codes_def)

lemma decode_code_char: "i < 64 \<Longrightarrow> decode_char (code_char i) = Some i"
proof -
  assume "i < 64"
  then have i: "unat i < 64" by (simp add: word_less_nat_alt)
  then have "map decode_char codes ! unat i = Some (word_of_nat (unat i))"
    unfolding decode_codes by simp
  with i show ?thesis by (simp add: code_char_def length_codes)
qed

lemma code_char_not_pad: "i < 64 \<Longrightarrow> code_char i \<noteq> CHR ''=''"
  using decode_code_char [of i] by (auto simp: decode_char_def)

section \<open>hertUtil_base64_encode\<close>

text \<open>The loop over whole groups of three bytes, then the padded rest.\<close>

fun base64_groups :: "byte list \<Rightarrow> string" where
  "base64_groups (x # y # z # in') =
     code_char (drop_bit 2 x AND 0x3F)
     # code_char ((push_bit 4 (x AND 3) + drop_bit 4 y) AND 0x3F)
     # code_char ((push_bit 2 (y AND 0xf) + drop_bit 6 z) AND 0x3F)
     # code_char (z AND 0x3F)
     # base64_groups in'"
| "base64_groups [x, y] =
     [code_char (drop_bit 2 x AND 0x3F), code_char ((push_bit 4 (x AND 3) + drop_bit 4 y) AND 0x3F),
      code_char (push_bit 2 (y AND 0xf) AND 0x3F), CHR ''='']"
| "base64_groups [x] =
     [code_char (drop_bit 2 x AND 0x3F), code_char ((push_bit 4 (x AND 3) + drop_bit 4 0) AND 0x3F),
      CHR ''='', CHR ''='']"
| "base64_groups [] = []"

text \<open>
  The result code, the text at \<open>out\<close> and the value left in \<open>*outlen\<close>.  Reading \<open>inlen\<close> bytes of
  a shorter object is a fault.
\<close>

definition hertUtil_base64_encode ::
  "byte list option \<Rightarrow> nat \<Rightarrow> string option \<Rightarrow> nat option \<Rightarrow> cerr + int \<times> string option \<times> nat option" where
  "hertUtil_base64_encode in' inlen out outlen = (case in' of
       None \<Rightarrow> Inr (- 1, out, outlen)
     | Some bs \<Rightarrow> (case out of
         None \<Rightarrow> Inr (- 2, out, outlen)
       | Some old \<Rightarrow> (case outlen of
           None \<Rightarrow> Inr (- 3, out, outlen)
         | Some n \<Rightarrow> (let len2 = 4 * ((inlen + 2) div 3) in
             if n < len2 + 1 then Inr (- 4, out, Some (len2 + 1))
             else if length bs < inlen then Inl (Fault ReadOverrun)
             else (let p = base64_groups (take inlen bs) in Inr (0, Some p, Some (length p)))))))"

section \<open>base64encoder\<close>

text \<open>A byte of the input, or 0 behind its end.\<close>

definition next_byte :: "byte list \<Rightarrow> byte \<times> byte list" where
  "next_byte xs = (case xs of [] \<Rightarrow> (0, []) | x # r \<Rightarrow> (x, r))"

lemma next_byte_simps [simp]: "next_byte [] = (0, [])" "next_byte (x # r) = (x, r)"
  by (simp_all add: next_byte_def)

lemma next_byte_length: "length (snd (next_byte xs)) \<le> length xs"
  by (cases xs) auto

function encoder_loop :: "nat \<Rightarrow> nat \<Rightarrow> byte list \<Rightarrow> string" where
  "encoder_loop len_out x_out pData = (case pData of
       [] \<Rightarrow> []
     | i0 # p0 \<Rightarrow>
        (let (i1, p1) = next_byte p0;
             (i2, p2) = next_byte p1;
             o0 = drop_bit 2 i0;
             o1 = push_bit 4 (i0 AND 3) OR drop_bit 4 i1;
             o2 = push_bit 2 (i1 AND 0xf) OR drop_bit 6 i2;
             o3 = i2 AND 0x3F
         in code_char o0 # code_char o1
            # (if x_out + 2 < len_out then code_char o2 else CHR ''='')
            # (if x_out + 3 < len_out then code_char o3 else CHR ''='')
            # encoder_loop len_out (x_out + 4) p2))"
  by pat_completeness auto
termination
proof (relation "measure (\<lambda>(len_out, x_out, p). length p)", goal_cases)
  case 1
  then show ?case by simp
next
  case (2 len_out x_out pData i0 p0 q1 i1 p1 q2 i2 p2)
  then show ?case using next_byte_length [of p0] next_byte_length [of p1]
    by (cases p0; cases p1) auto
qed

declare encoder_loop.simps [simp del]

text \<open>None is the return value 1: the text and its NUL do not fit \<open>max_str_out\<close> chars.\<close>

definition base64encoder :: "byte list \<Rightarrow> nat \<Rightarrow> string option" where
  "base64encoder pData max_str_out =
     (let len_in = length pData;
          len_out = ((len_in * 4 + 2) mod 2 ^ 32) div 3;
          len_out_padd = (((len_in + 2) mod 2 ^ 32) div 3 * 4) mod 2 ^ 32
      in if max_str_out \<le> len_out_padd then None else Some (encoder_loop len_out 0 pData))"

section \<open>base64decoder\<close>

datatype b64_error = TooBig | Invalid | BadRead

definition MAX_EAP_LEN :: nat where "MAX_EAP_LEN = 1265"

text \<open>
  One round of the inner loop: up to four characters go to the array in64, whose other entries
  keep what the round before left there.
\<close>

definition fill_in64 :: "byte list \<Rightarrow> string \<Rightarrow> byte list option" where
  "fill_in64 in64 cs = (case those (map decode_char cs) of
       None \<Rightarrow> None
     | Some vs \<Rightarrow> Some (vs @ drop (length vs) in64))"

definition round_bytes :: "nat \<Rightarrow> nat \<Rightarrow> byte list \<Rightarrow> byte list" where
  "round_bytes len_out x_out v =
     (push_bit 2 (v ! 0) OR drop_bit 4 (v ! 1))
     # (if x_out + 1 < len_out then [push_bit 4 (v ! 1) OR drop_bit 2 (v ! 2)] else [])
     @ (if x_out + 2 < len_out then [push_bit 6 (v ! 2) OR v ! 3] else [])"

function decoder_loop :: "nat \<Rightarrow> nat \<Rightarrow> byte list \<Rightarrow> string \<Rightarrow> b64_error + byte list" where
  "decoder_loop len_out x_out in64 s =
     (if s = [] then Inr []
      else (case fill_in64 in64 (take 4 s) of
          None \<Rightarrow> Inl Invalid
        | Some v \<Rightarrow> (let out = round_bytes len_out x_out v in
            rbind (decoder_loop len_out (x_out + length out) v (drop 4 s)) (\<lambda>r. Inr (out @ r)))))"
  by pat_completeness auto
termination
  by (relation "measure (\<lambda>(len_out, x_out, in64, s). length s)") auto

declare decoder_loop.simps [simp del]

text \<open>
  \<open>in64\<close> is the uninitialised local array.  The result holds the bytes and the caller's string,
  from which the padding has been cut.  A text of \<open>=\<close> only, or none, makes the cutting loop read
  in front of the string.
\<close>

definition base64decoder ::
  "byte list \<Rightarrow> string option \<Rightarrow> unit option \<Rightarrow> b64_error + byte list \<times> string" where
  "base64decoder in64 eapstr pData = (case (eapstr, pData) of
       (Some s, Some _) \<Rightarrow>
         if length s mod 4 \<noteq> 0 then Inl Invalid
         else (let t = rev (dropWhile (\<lambda>c. c = CHR ''='') (rev s)) in
           if t = [] then Inl BadRead
           else (let len_out = length t * 3 div 4 in
             if MAX_EAP_LEN < len_out then Inl TooBig
             else rbind (decoder_loop len_out 0 in64 t) (\<lambda>r. Inr (r, t))))
     | _ \<Rightarrow> Inl TooBig)"

section \<open>The encoders agree\<close>

text \<open>The six bit pieces, as both encoders compute them.\<close>

lemma sextets:
  fixes x y :: byte
  shows "(push_bit 4 (x AND 3) + drop_bit 4 y) AND 0x3F = push_bit 4 (x AND 3) OR drop_bit 4 y"
    and "(push_bit 2 (x AND 0xf) + drop_bit 6 y) AND 0x3F = push_bit 2 (x AND 0xf) OR drop_bit 6 y"
    and "drop_bit 2 x AND 0x3F = drop_bit 2 x"
    and "push_bit 2 (x AND 0xf) AND 0x3F = push_bit 2 (x AND 0xf)"
proof -
  have "push_bit 4 (x AND 3) + drop_bit 4 y = push_bit 4 (x AND 3) OR drop_bit 4 y"
    by (rule disjunctive_add_eq_or, rule byte_eqI) (simp_all add: bit_simps)
  moreover have "push_bit 2 (x AND 0xf) + drop_bit 6 y = push_bit 2 (x AND 0xf) OR drop_bit 6 y"
    by (rule disjunctive_add_eq_or, rule byte_eqI) (simp_all add: bit_simps)
  moreover have "(push_bit 4 (x AND 3) OR drop_bit 4 y) AND 0x3F = push_bit 4 (x AND 3) OR drop_bit 4 y"
    by (rule byte_eqI) (simp_all add: bit_simps)
  moreover have "(push_bit 2 (x AND 0xf) OR drop_bit 6 y) AND 0x3F = push_bit 2 (x AND 0xf) OR drop_bit 6 y"
    by (rule byte_eqI) (simp_all add: bit_simps)
  ultimately show "(push_bit 4 (x AND 3) + drop_bit 4 y) AND 0x3F = push_bit 4 (x AND 3) OR drop_bit 4 y"
    and "(push_bit 2 (x AND 0xf) + drop_bit 6 y) AND 0x3F = push_bit 2 (x AND 0xf) OR drop_bit 6 y"
    by (simp_all only:)
  show "drop_bit 2 x AND 0x3F = drop_bit 2 x"
    and "push_bit 2 (x AND 0xf) AND 0x3F = push_bit 2 (x AND 0xf)"
    by (rule byte_eqI; simp add: bit_simps)+
qed

text \<open>The output in the decoder's terms: whole groups of four sextets and the padded rest.\<close>

lemmas base64_groups_sextets =
  base64_groups.simps(1) [unfolded sextets] base64_groups.simps(2) [unfolded sextets]
  base64_groups.simps(3) [unfolded sextets]

lemma length_base64_groups: "length (base64_groups p) = 4 * ((length p + 2) div 3)"
proof (induction p rule: base64_groups.induct)
  case (1 x y z r)
  have "(length (x # y # z # r) + 2) div 3 = (length r + 2) div 3 + 1" by simp
  with "1" show ?case by simp
qed simp_all

lemma encoder_loop_groups:
  "encoder_loop (x + (4 * length p + 2) div 3) x p = base64_groups p"
proof (induction p arbitrary: x rule: base64_groups.induct)
  case (1 a b c r)
  have "x + (4 * length (a # b # c # r) + 2) div 3 = (x + 4) + (4 * length r + 2) div 3" by simp
  moreover have "4 \<le> (4 * length (a # b # c # r) + 2) div 3" by simp
  ultimately show ?case using "1" [of "x + 4"]
    by (subst encoder_loop.simps)
       (simp add: base64_groups_sextets add.assoc del: base64_groups.simps push_bit_and)
next
  case (2 a b)
  then show ?case
    by (subst encoder_loop.simps)
       (simp add: base64_groups_sextets encoder_loop.simps [of _ _ "[]"] del: base64_groups.simps)
next
  case (3 a)
  then show ?case
    by (subst encoder_loop.simps)
       (simp add: base64_groups_sextets encoder_loop.simps [of _ _ "[]"] del: base64_groups.simps)
next
  case 4
  then show ?case by (simp add: encoder_loop.simps [of _ _ "[]"])
qed

text \<open>
  The two Base64 encoders of the program produce the same text whenever the output buffer
  has room for it and its NUL.
\<close>

theorem base64_encoders_agree:
  assumes "length p < 2 ^ 29" and "4 * ((length p + 2) div 3) < n"
  shows "base64encoder p n = Some t \<longleftrightarrow>
    hertUtil_base64_encode (Some p) (length p) (Some old) (Some n) = Inr (0, Some t, Some (length t))"
proof -
  have "(length p * 4 + 2) mod 2 ^ 32 = 4 * length p + 2" and "(length p + 2) mod 2 ^ 32 = length p + 2"
    using assms(1) by simp_all
  moreover have "(length p + 2) div 3 * 4 mod 2 ^ 32 = 4 * ((length p + 2) div 3)"
    using assms(1) by simp
  ultimately have "base64encoder p n = Some (encoder_loop (0 + (4 * length p + 2) div 3) 0 p)"
    using assms(2) by (simp add: base64encoder_def Let_def)
  then have "base64encoder p n = Some (base64_groups p)" by (simp only: encoder_loop_groups)
  then show ?thesis using assms(2) by (auto simp: hertUtil_base64_encode_def Let_def)
qed

theorem base64_encoders_agree_witness:
  "base64encoder [77, 97] 5 = Some ''TWE='' \<longleftrightarrow>
    hertUtil_base64_encode (Some [77, 97]) (length [77 :: byte, 97]) (Some ''old'') (Some 5) =
      Inr (0, Some ''TWE='', Some (length ''TWE=''))"
  by (rule base64_encoders_agree) simp_all

section \<open>The decoder undoes the encoders\<close>

lemma sextet_lt: "(w :: byte) AND 0x3F = w \<Longrightarrow> w < 64"
proof -
  assume w: "w AND 0x3F = w"
  have "(0x3F :: byte) = mask 6" by (simp add: mask_eq_exp_minus_1)
  with w have "take_bit 6 w = w" by (simp add: take_bit_eq_mask)
  then have "take_bit 6 (unat w) = unat w" by (metis unsigned_take_bit_eq)
  then have "unat w < 2 ^ 6" by (simp add: take_bit_nat_eq_self_iff)
  then show "w < 64" by (simp add: word_less_nat_alt)
qed

lemma sextets_lt:
  fixes x y :: byte
  shows "push_bit 4 (x AND 3) OR drop_bit 4 y < 64" and "push_bit 2 (x AND 0xf) OR drop_bit 6 y < 64"
    and "drop_bit 2 x < 64" and "push_bit 2 (x AND 0xf) < 64" and "x AND 0x3F < 64"
    and "push_bit 4 (x AND 3) < 64"
  by (rule sextet_lt, rule byte_eqI; simp add: bit_simps)+

lemmas decode_sextets = sextets_lt [THEN decode_code_char]
lemmas sextets_not_pad = sextets_lt [THEN code_char_not_pad] sextets_lt [THEN code_char_not_pad, symmetric]

text \<open>Joining the sextets gives the bytes back.\<close>

lemma join_sextets:
  fixes x y z :: byte
  shows "push_bit 2 (drop_bit 2 x) OR drop_bit 4 (push_bit 4 (x AND 3) OR drop_bit 4 y) = x"
    and "push_bit 4 (push_bit 4 (x AND 3) OR drop_bit 4 y) OR
      drop_bit 2 (push_bit 2 (y AND 0xf) OR drop_bit 6 z) = y"
    and "push_bit 6 (push_bit 2 (y AND 0xf) OR drop_bit 6 z) OR (z AND 0x3F) = z"
    and "push_bit 2 (drop_bit 2 x) OR drop_bit 4 (push_bit 4 (x AND 3)) = x"
    and "push_bit 4 (push_bit 4 (x AND 3) OR drop_bit 4 y) OR drop_bit 2 (push_bit 2 (y AND 0xf)) = y"
  by (rule byte_eqI; simp add: bit_simps; blast)+

text \<open>The text without its padding, and the padding.\<close>

fun base64_raw :: "byte list \<Rightarrow> string" where
  "base64_raw (x # y # z # r) =
     code_char (drop_bit 2 x) # code_char (push_bit 4 (x AND 3) OR drop_bit 4 y)
     # code_char (push_bit 2 (y AND 0xf) OR drop_bit 6 z) # code_char (z AND 0x3F) # base64_raw r"
| "base64_raw [x, y] = [code_char (drop_bit 2 x), code_char (push_bit 4 (x AND 3) OR drop_bit 4 y),
     code_char (push_bit 2 (y AND 0xf))]"
| "base64_raw [x] = [code_char (drop_bit 2 x), code_char (push_bit 4 (x AND 3))]"
| "base64_raw [] = []"

lemma base64_groups_raw:
  "base64_groups p = base64_raw p @ replicate (2 - (length p + 2) mod 3) (CHR ''='')"
proof (induction p rule: base64_raw.induct)
  case (1 x y z r)
  have "(length (x # y # z # r) + 2) mod 3 = (length r + 2) mod 3"
    by (simp only: length_Cons) presburger
  with "1" show ?case
    by (simp add: base64_groups_sextets del: base64_groups.simps push_bit_and)
next
  case (2 x y)
  then show ?case by (simp add: base64_groups_sextets del: base64_groups.simps push_bit_and)
next
  case (3 x)
  then show ?case
    by (simp add: base64_groups_sextets numeral_2_eq_2 del: base64_groups.simps push_bit_and)
next
  case 4
  then show ?case by simp
qed

lemma base64_raw_chars: "c \<in> set (base64_raw p) \<Longrightarrow> c \<noteq> CHR ''=''"
  by (induction p rule: base64_raw.induct)
     (auto simp: sextets_not_pad simp del: push_bit_and)

lemma length_base64_raw: "length (base64_raw p) = (4 * length p + 2) div 3"
  by (induction p rule: base64_raw.induct) auto

lemma strip_padding:
  assumes "\<And>c. c \<in> set s \<Longrightarrow> c \<noteq> CHR ''=''"
  shows "rev (dropWhile (\<lambda>c. c = CHR ''='') (rev (s @ replicate k (CHR ''='')))) = s"
proof -
  have "dropWhile (\<lambda>c. c = CHR ''='') (rev s) = rev s"
    using assms by (cases "rev s") (auto dest: arg_cong [where f = set])
  then have "dropWhile (\<lambda>c. c = CHR ''='') (replicate k (CHR ''='') @ rev s) = rev s"
    by (induction k) simp_all
  then show ?thesis by simp
qed

lemma decoder_loop_raw: "decoder_loop (x + length p) x in64 (base64_raw p) = Inr p"
proof (induction p arbitrary: x in64 rule: base64_raw.induct)
  case (1 a b c r)
  have "decoder_loop (Suc (Suc (Suc (x + length r)))) (Suc (Suc (Suc x))) v (base64_raw r) = Inr r" for v
    using "1" [of "Suc (Suc (Suc x))" v] by simp
  then show ?case
    by (subst decoder_loop.simps)
       (simp add: fill_in64_def decode_sextets round_bytes_def join_sextets add.assoc
          del: push_bit_and drop_bit_or push_bit_or)
next
  case (2 a b)
  then show ?case
    by (subst decoder_loop.simps)
       (simp add: fill_in64_def decode_sextets round_bytes_def join_sextets decoder_loop.simps [of _ _ _ "[]"]
          del: push_bit_and drop_bit_or push_bit_or)
next
  case (3 a)
  then show ?case
    by (subst decoder_loop.simps)
       (simp add: fill_in64_def decode_sextets round_bytes_def join_sextets decoder_loop.simps [of _ _ _ "[]"]
          del: push_bit_and drop_bit_or push_bit_or)
next
  case 4
  then show ?case by (simp add: decoder_loop.simps [of _ _ _ "[]"])
qed

text \<open>
  C38: the decoder returns the bytes an encoder was given, for every message of 1 to
  MAX_EAP_LEN bytes, whatever its uninitialised array holds, and leaves the caller's text
  without its padding.
\<close>

theorem base64_roundtrip:
  assumes "base64encoder p n = Some t" and "p \<noteq> []" and "length p \<le> MAX_EAP_LEN"
  shows "base64decoder in64 (Some t) (Some ()) = Inr (p, takeWhile (\<lambda>c. c \<noteq> CHR ''='') t)"
proof -
  have l: "length p \<le> 1265" using assms(3) by (simp add: MAX_EAP_LEN_def)
  then have "(length p * 4 + 2) mod 2 ^ 32 = 4 * length p + 2" by simp
  with assms(1) have t: "t = base64_groups p"
    using encoder_loop_groups [of 0 p] by (auto simp: base64encoder_def Let_def split: if_splits)
  have strip: "rev (dropWhile (\<lambda>c. c = CHR ''='') (rev t)) = base64_raw p"
    unfolding t base64_groups_raw by (rule strip_padding) (rule base64_raw_chars)
  have tw: "takeWhile (\<lambda>c. c \<noteq> CHR ''='') t = base64_raw p"
  proof -
    have "takeWhile (\<lambda>c. c \<noteq> CHR ''='') (replicate k (CHR ''='')) = []" for k by (cases k) auto
    then show ?thesis
      unfolding t base64_groups_raw using base64_raw_chars [of _ p] by (subst takeWhile_append2) auto
  qed
  have "length (base64_raw p) * 3 div 4 = length p"
    unfolding length_base64_raw by presburger
  moreover have "base64_raw p \<noteq> []" using assms(2) by (cases p rule: base64_raw.cases) auto
  moreover have "length t mod 4 = 0" unfolding t length_base64_groups by simp
  ultimately show ?thesis
    using decoder_loop_raw [of 0 p in64] assms(3) unfolding tw
    by (simp add: base64decoder_def strip)
qed

theorem base64_roundtrip_witness:
  "base64decoder [0, 0, 0, 0] (Some ''TWE='') (Some ()) = Inr ([77, 97], ''TWE'')"
proof -
  have "base64encoder [77, 97] 5 = Some ''TWE=''"
    by (simp add: base64encoder_def encoder_loop.simps code_char_def codes_def)
  then show ?thesis
    using base64_roundtrip [of "[77, 97]" 5 "''TWE=''" "[0, 0, 0, 0]"] by (simp add: MAX_EAP_LEN_def)
qed

text \<open>
  On the empty text, and on any text of padding only, the decoder reads in front of its
  argument.
\<close>

theorem base64decoder_padding_only:
  "base64decoder in64 (Some (replicate (4 * k) (CHR ''=''))) (Some ()) = Inl BadRead"
  by (simp add: base64decoder_def)

end
