(* ===== verification/MsgBuild.thy ===== *)
theory MsgBuild
  imports JsonBuild WireLength
begin

text \<open>
  The builders of flat messages (herouteapp/hert_msg.c): a message is the type byte, the
  remaining length, the option (two length bytes and a text) and the body, a JSON object.  The
  records are the structs of hert_msg.h; a char array holds the text in it.  \<open>mem n\<close> says whether
  malloc delivers n bytes, and a pointer the callee tests against NULL is an option: \<open>ptMsg\<close> is
  the caller's buffer, given by its size.  A result is the *nDataLen bytes written at \<open>ptMsg\<close>.
\<close>

section \<open>The structs\<close>

record HERT_MSG_OPTION_PUSH_DATA =
  nHighLength :: byte
  nLowLength :: byte
  pData :: "string option"

record HERT_MSG_REQ_PUSH_DATA_CONSTPART =
  version :: dword
  msgType :: string
  msgSeq :: string

record HERT_MSG_RSP_PUSH_DATA_CONSTPART = HERT_MSG_REQ_PUSH_DATA_CONSTPART +
  errorCode :: dword
  description :: string

record HERT_MSG_REQ_PUSH_DATA_VARPART_INIT =
  init_devID :: string
  init_deviceType :: dword
  init_IP :: string

record HERT_MSG_REQ_PUSH_DATA_VARPART_ABILITY_NOTIFY =
  abi_devID :: string
  abi_devName :: string
  abi_fac :: string
  abi_type :: string
  abi_softVersion :: string

record HERT_MSG_RSP_PUSH_DATA_VARPART_SPACE =
  diskStatus :: byte
  totalSpace :: ddword
  usedSpace :: ddword
  leftSpace :: ddword

record HERT_MSG_REQ_PUSH_DATA_VARPART_DOWNLOAD_COMP =
  comp_contentID :: string

record HERT_MSG_REQ_PUSH_DATA_VARPART_GET_UPDATE =
  upd_devID :: string
  upd_type :: dword
  upd_currentVersion :: string

record HERT_MSG_OPTION_CONN_REQ =
  conn_nHighLength :: byte
  conn_nLowLength :: byte
  conn_pProtocol :: "string option"
  conn_nVer :: byte
  conn_nConnFlag :: byte
  conn_nHighTime :: byte
  conn_nLowTime :: byte

record HERT_MSG_BODY_CONN_REQ =
  nDevHighLength :: byte
  nDevLowLength :: byte
  nUserHighLength :: byte
  nUserLowLength :: byte
  pUserData :: "string option"
  nPassHighLength :: byte
  nPassLowLength :: byte
  pPassData :: "string option"

section \<open>Framing\<close>

text \<open>
  COPY_STR: memcpy of \<open>n\<close> bytes from a text and its NUL, unless the text is absent or empty; a
  negative or longer count reads past the end.
\<close>

definition COPY_STR :: "string option \<Rightarrow> int \<Rightarrow> cerr + byte list" where
  "COPY_STR src n = (case src of
       None \<Rightarrow> Inr []
     | Some s \<Rightarrow>
         if s = [] then Inr []
         else if 0 \<le> n \<and> n \<le> int (length s) + 1 then Inr (take (nat n) (bytes_of s @ [0]))
         else Inl (Fault ReadOverrun))"

text \<open>Writing a message into a buffer of \<open>n\<close> bytes.\<close>

definition write_msg :: "nat \<Rightarrow> byte list \<Rightarrow> cerr + byte list" where
  "write_msg n frame = (if length frame \<le> n then Inr frame else Inl (Fault WriteOverflow))"

text \<open>nOptionLength: the two length bytes and the length they state.\<close>

definition option_length :: "HERT_MSG_OPTION_PUSH_DATA \<Rightarrow> int" where
  "option_length opt = 2 + GetLengthFromTwoBytes (nHighLength opt) (nLowLength opt)"

text \<open>The bytes of a PUSH_DATA message: header, option, body.\<close>

definition push_bytes :: "HERT_MSG_OPTION_PUSH_DATA \<Rightarrow> string \<Rightarrow> cerr + byte list" where
  "push_bytes opt szJson =
     (let nOptDataLen = GetLengthFromTwoBytes (nHighLength opt) (nLowLength opt);
          nBodyLength = int (length szJson)
      in rbind (COPY_STR (pData opt) nOptDataLen) (\<lambda>o'.
         rbind (COPY_STR (Some szJson) nBodyLength) (\<lambda>b.
           Inr (SET_MSG_HEADER_TYPE PUSH_DATA
                # SetMsgLengthItem (word_of_int (option_length opt + nBodyLength))
                @ [nHighLength opt, nLowLength opt] @ o' @ b))))"

text \<open>
  The common end of the builders with a caller's buffer.  The size test adds option and body
  but not the header; the sum is an int compared with an unsigned size.
\<close>

definition push_into :: "nat \<Rightarrow> HERT_MSG_OPTION_PUSH_DATA \<Rightarrow> string \<Rightarrow> cerr + byte list" where
  "push_into buffsize opt szJson =
     (if int buffsize < (option_length opt + int (length szJson)) mod 2 ^ 32
      then Inl (Ret RETCODE_NO_MEMORY)
      else rbind (push_bytes opt szJson) (write_msg buffsize))"

text \<open>malloc of nJsonSize bytes, the macro calls, and what is done with the finished text.\<close>

definition json_message :: "(nat \<Rightarrow> bool) \<Rightarrow> nat \<Rightarrow> jstep list \<Rightarrow> (string \<Rightarrow> cerr + 'a) \<Rightarrow> cerr + 'a" where
  "json_message mem nJsonSize steps k =
     (if \<not> mem nJsonSize then Inl (Ret RETCODE_NO_MEMORY)
      else rbind (json_steps nJsonSize steps []) k)"

definition req_const_steps :: "('a HERT_MSG_REQ_PUSH_DATA_CONSTPART_scheme) \<Rightarrow> jstep list" where
  "req_const_steps c =
     [AddItem (FORMAT_JSON_ITEM_LNG ''version'' (version c)),
      AddItem (FORMAT_JSON_ITEM_STR ''msgType'' (msgType c)),
      AddItem (FORMAT_JSON_ITEM_STR ''msgSeq'' (msgSeq c))]"

definition rsp_const_steps :: "HERT_MSG_RSP_PUSH_DATA_CONSTPART \<Rightarrow> jstep list" where
  "rsp_const_steps c = req_const_steps c @
     [AddItem (FORMAT_JSON_ITEM_LNG ''errorCode'' (errorCode c)),
      AddItem (FORMAT_JSON_ITEM_STR ''description'' (description c))]"

section \<open>Connection and heartbeat\<close>

definition conn_option_length :: "HERT_MSG_OPTION_CONN_REQ \<Rightarrow> int" where
  "conn_option_length opt = 6 + GetLengthFromTwoBytes (conn_nHighLength opt) (conn_nLowLength opt)"

definition conn_body_length :: "HERT_MSG_BODY_CONN_REQ \<Rightarrow> int" where
  "conn_body_length b = 6 + GetLengthFromTwoBytes (nUserHighLength b) (nUserLowLength b)
     + GetLengthFromTwoBytes (nPassHighLength b) (nPassLowLength b)"

definition Build_Msg_ConnReq ::
  "nat option \<Rightarrow> unit option \<Rightarrow> HERT_MSG_OPTION_CONN_REQ option \<Rightarrow> HERT_MSG_BODY_CONN_REQ option
    \<Rightarrow> cerr + byte list" where
  "Build_Msg_ConnReq ptMsg nDataLen ptMsgOption ptMsgBody =
     nonnull ptMsg (\<lambda>buffsize. nonnull nDataLen (\<lambda>_.
     nonnull ptMsgOption (\<lambda>opt. nonnull ptMsgBody (\<lambda>b.
       (let len = conn_option_length opt + conn_body_length b in
        if int buffsize < len mod 2 ^ 32 then Inl (Ret RETCODE_NO_MEMORY)
        else rbind (COPY_STR (conn_pProtocol opt)
                     (GetLengthFromTwoBytes (conn_nHighLength opt) (conn_nLowLength opt))) (\<lambda>prot.
          rbind (COPY_STR (pUserData b)
                  (GetLengthFromTwoBytes (nUserHighLength b) (nUserLowLength b))) (\<lambda>user.
          rbind (COPY_STR (pPassData b)
                  (GetLengthFromTwoBytes (nPassHighLength b) (nPassLowLength b))) (\<lambda>pass.
          write_msg buffsize
            (SET_MSG_HEADER_TYPE CONN_REQ # SetMsgLengthItem (word_of_int len)
             @ [conn_nHighLength opt, conn_nLowLength opt] @ prot
             @ [conn_nVer opt, conn_nConnFlag opt, conn_nHighTime opt, conn_nLowTime opt]
             @ [nDevHighLength b, nDevLowLength b]
             @ [nUserHighLength b, nUserLowLength b] @ user
             @ [nPassHighLength b, nPassLowLength b] @ pass)))))))))"

text \<open>HERT_MSGHEADER has five bytes, of which two are sent.\<close>

definition Build_Msg_PingReq :: "nat option \<Rightarrow> cerr + byte list" where
  "Build_Msg_PingReq ptMsg = (case ptMsg of
       None \<Rightarrow> Inl (Ret RETCODE_NO_MEMORY)
     | Some buffsize \<Rightarrow>
         if buffsize < 5 then Inl (Ret RETCODE_NO_MEMORY)
         else write_msg buffsize (take 2 (SET_MSG_HEADER_TYPE PING_REQ # replicate 4 0)))"

section \<open>Builders of flat messages\<close>

definition Build_Msg_InitInfoReq ::
  "(nat \<Rightarrow> bool) \<Rightarrow> nat option \<Rightarrow> unit option \<Rightarrow> HERT_MSG_OPTION_PUSH_DATA option
    \<Rightarrow> HERT_MSG_REQ_PUSH_DATA_CONSTPART option
    \<Rightarrow> HERT_MSG_REQ_PUSH_DATA_VARPART_INIT option \<Rightarrow> cerr + byte list" where
  "Build_Msg_InitInfoReq mem ptMsg nDataLen ptMsgOption ptMsgConstBody ptMsgVarBody =
     nonnull ptMsg (\<lambda>buffsize. nonnull nDataLen (\<lambda>_. nonnull ptMsgOption (\<lambda>opt.
     nonnull ptMsgConstBody (\<lambda>c. nonnull ptMsgVarBody (\<lambda>v.
       json_message mem 512
         (req_const_steps c @
          [AddItem (FORMAT_JSON_ITEM_STR ''devID'' (init_devID v)),
           AddItem (FORMAT_JSON_ITEM_LNG ''deviceType'' (init_deviceType v)),
           AddItem (FORMAT_JSON_ITEM_STR ''IP'' (init_IP v)),
           AddStr ''}''])
         (push_into buffsize opt))))))"

definition Build_Msg_GetUpgradeInfoReq ::
  "(nat \<Rightarrow> bool) \<Rightarrow> nat option \<Rightarrow> unit option \<Rightarrow> HERT_MSG_OPTION_PUSH_DATA option
    \<Rightarrow> HERT_MSG_REQ_PUSH_DATA_CONSTPART option
    \<Rightarrow> HERT_MSG_REQ_PUSH_DATA_VARPART_GET_UPDATE option \<Rightarrow> cerr + byte list" where
  "Build_Msg_GetUpgradeInfoReq mem ptMsg nDataLen ptMsgOption ptMsgConstBody ptMsgVarBody =
     nonnull ptMsg (\<lambda>buffsize. nonnull nDataLen (\<lambda>_. nonnull ptMsgOption (\<lambda>opt.
     nonnull ptMsgConstBody (\<lambda>c. nonnull ptMsgVarBody (\<lambda>v.
       json_message mem 512
         (req_const_steps c @
          [AddItem (FORMAT_JSON_ITEM_STR ''devID'' (upd_devID v)),
           AddItem (FORMAT_JSON_ITEM_LNG ''type'' (upd_type v)),
           AddItem (FORMAT_JSON_ITEM_STR ''currentVersion'' (upd_currentVersion v)),
           AddStr ''}''])
         (push_into buffsize opt))))))"

definition Build_Msg_AbilityNotifyReq ::
  "(nat \<Rightarrow> bool) \<Rightarrow> nat option \<Rightarrow> unit option \<Rightarrow> HERT_MSG_OPTION_PUSH_DATA option
    \<Rightarrow> HERT_MSG_REQ_PUSH_DATA_CONSTPART option
    \<Rightarrow> HERT_MSG_REQ_PUSH_DATA_VARPART_ABILITY_NOTIFY option \<Rightarrow> cerr + byte list" where
  "Build_Msg_AbilityNotifyReq mem ptMsg nDataLen ptMsgOption ptMsgConstBody ptMsgVarBody =
     nonnull ptMsg (\<lambda>buffsize. nonnull nDataLen (\<lambda>_. nonnull ptMsgOption (\<lambda>opt.
     nonnull ptMsgConstBody (\<lambda>c. nonnull ptMsgVarBody (\<lambda>v.
       json_message mem 512
         (req_const_steps c @
          [AddItem (FORMAT_JSON_ITEM_STR ''devID'' (abi_devID v)),
           AddItem (FORMAT_JSON_ITEM_STR ''devName'' (abi_devName v)),
           AddItem (FORMAT_JSON_ITEM_STR ''fac'' (abi_fac v)),
           AddItem (FORMAT_JSON_ITEM_STR ''type'' (abi_type v)),
           AddItem (FORMAT_JSON_ITEM_STR ''softVersion'' (abi_softVersion v)),
           AddStr ''}''])
         (push_into buffsize opt))))))"

definition Build_Msg_RouteSpaceRsp ::
  "(nat \<Rightarrow> bool) \<Rightarrow> nat option \<Rightarrow> unit option \<Rightarrow> HERT_MSG_OPTION_PUSH_DATA option
    \<Rightarrow> HERT_MSG_RSP_PUSH_DATA_CONSTPART option
    \<Rightarrow> HERT_MSG_RSP_PUSH_DATA_VARPART_SPACE option \<Rightarrow> cerr + byte list" where
  "Build_Msg_RouteSpaceRsp mem ptMsg nDataLen ptMsgOption ptMsgConstBody ptMsgVarBody =
     nonnull ptMsg (\<lambda>buffsize. nonnull nDataLen (\<lambda>_. nonnull ptMsgOption (\<lambda>opt.
     nonnull ptMsgConstBody (\<lambda>c. nonnull ptMsgVarBody (\<lambda>v.
       json_message mem 512
         (rsp_const_steps c @
          [AddItem (FORMAT_JSON_ITEM_INT ''diskStatus'' (diskStatus v)),
           AddItem (FORMAT_JSON_ITEM_LNGLNG ''totalSpace'' (totalSpace v)),
           AddItem (FORMAT_JSON_ITEM_LNGLNG ''usedSpace'' (usedSpace v)),
           AddItem (FORMAT_JSON_ITEM_LNGLNG ''leftSpace'' (leftSpace v)),
           AddStr ''}''])
         (push_into buffsize opt))))))"

definition Build_Msg_DeviceOperateRsp ::
  "(nat \<Rightarrow> bool) \<Rightarrow> nat option \<Rightarrow> unit option \<Rightarrow> HERT_MSG_OPTION_PUSH_DATA option
    \<Rightarrow> HERT_MSG_RSP_PUSH_DATA_CONSTPART option \<Rightarrow> cerr + byte list" where
  "Build_Msg_DeviceOperateRsp mem ptMsg nDataLen ptMsgOption ptMsgConstBody =
     nonnull ptMsg (\<lambda>buffsize. nonnull nDataLen (\<lambda>_. nonnull ptMsgOption (\<lambda>opt.
     nonnull ptMsgConstBody (\<lambda>c.
       json_message mem 512
         (rsp_const_steps c @
          [AddStr ''}''])
         (push_into buffsize opt)))))"

definition Build_Msg_UnknowDataRsp ::
  "(nat \<Rightarrow> bool) \<Rightarrow> nat option \<Rightarrow> unit option \<Rightarrow> HERT_MSG_OPTION_PUSH_DATA option
    \<Rightarrow> HERT_MSG_RSP_PUSH_DATA_CONSTPART option \<Rightarrow> cerr + byte list" where
  "Build_Msg_UnknowDataRsp mem ptMsg nDataLen ptMsgOption ptMsgConstBody =
     nonnull ptMsg (\<lambda>buffsize. nonnull nDataLen (\<lambda>_. nonnull ptMsgOption (\<lambda>opt.
     nonnull ptMsgConstBody (\<lambda>c.
       json_message mem 512
         (rsp_const_steps c @
          [AddStr ''}''])
         (push_into buffsize opt)))))"

definition Build_Msg_DownloadRsq ::
  "(nat \<Rightarrow> bool) \<Rightarrow> nat option \<Rightarrow> unit option \<Rightarrow> HERT_MSG_OPTION_PUSH_DATA option
    \<Rightarrow> HERT_MSG_RSP_PUSH_DATA_CONSTPART option \<Rightarrow> cerr + byte list" where
  "Build_Msg_DownloadRsq mem ptMsg nDataLen ptMsgOption ptMsgConstBody =
     nonnull ptMsg (\<lambda>buffsize. nonnull nDataLen (\<lambda>_. nonnull ptMsgOption (\<lambda>opt.
     nonnull ptMsgConstBody (\<lambda>c.
       json_message mem 512
         (rsp_const_steps c @
          [AddStr ''}''])
         (push_into buffsize opt)))))"

definition Build_Msg_DownloadCompReq ::
  "(nat \<Rightarrow> bool) \<Rightarrow> nat option \<Rightarrow> unit option \<Rightarrow> HERT_MSG_OPTION_PUSH_DATA option
    \<Rightarrow> HERT_MSG_REQ_PUSH_DATA_CONSTPART option
    \<Rightarrow> HERT_MSG_REQ_PUSH_DATA_VARPART_DOWNLOAD_COMP option \<Rightarrow> cerr + byte list" where
  "Build_Msg_DownloadCompReq mem ptMsg nDataLen ptMsgOption ptMsgConstBody ptMsgVarBody =
     nonnull ptMsg (\<lambda>buffsize. nonnull nDataLen (\<lambda>_. nonnull ptMsgOption (\<lambda>opt.
     nonnull ptMsgConstBody (\<lambda>c. nonnull ptMsgVarBody (\<lambda>v.
       json_message mem 512
         (req_const_steps c @
          [AddItem (FORMAT_JSON_ITEM_STR ''contentID'' (comp_contentID v)),
           AddStr ''}''])
         (push_into buffsize opt))))))"

lemmas flat_builder_defs =
  Build_Msg_InitInfoReq_def Build_Msg_GetUpgradeInfoReq_def Build_Msg_AbilityNotifyReq_def
  Build_Msg_RouteSpaceRsp_def Build_Msg_DeviceOperateRsp_def Build_Msg_UnknowDataRsp_def
  Build_Msg_DownloadRsq_def Build_Msg_DownloadCompReq_def

lemmas framing_defs = COPY_STR_def write_msg_def option_length_def push_bytes_def push_into_def
  json_message_def req_const_steps_def rsp_const_steps_def

declare flat_builder_defs [model_defs] framing_defs [model_defs]
  Build_Msg_ConnReq_def [model_defs] Build_Msg_PingReq_def [model_defs]

section \<open>The frame a receiver takes apart\<close>

text \<open>
  How every caller fills the option (GetHighLowFromString on the destination address), and the
  frame a correct receiver expects for an address and a body.
\<close>

definition push_option :: "string \<Rightarrow> HERT_MSG_OPTION_PUSH_DATA" where
  "push_option s = (case GetHighLowFromString s of (h, l) \<Rightarrow>
     \<lparr>nHighLength = h, nLowLength = l, pData = Some s\<rparr>)"

definition push_frame :: "string \<Rightarrow> string \<Rightarrow> byte list" where
  "push_frame s body = SET_MSG_HEADER_TYPE PUSH_DATA # varint (2 + length s + length body)
     @ [fst (GetHighLowFromString s), snd (GetHighLowFromString s)] @ bytes_of s @ bytes_of body"

lemma push_option_fields [simp]:
  "nHighLength (push_option s) = fst (GetHighLowFromString s)"
  "nLowLength (push_option s) = snd (GetHighLowFromString s)"
  "pData (push_option s) = Some s"
  by (simp_all add: push_option_def split: prod.splits)

lemma COPY_STR_exact: "COPY_STR (Some s) (int (length s)) = Inr (bytes_of s)"
  by (auto simp: COPY_STR_def bytes_of_def)

lemma push_option_length:
  assumes "length s < 32768"
  shows "GetLengthFromTwoBytes (fst (GetHighLowFromString s)) (snd (GetHighLowFromString s)) =
    (if length s mod 256 < 128 then int (length s) else int (length s mod 256) - 256)"
  using GetLength_GetHighLow [OF _ assms] by (metis prod.collapse)

text \<open>An address whose length has a low byte below 128: short addresses in particular.\<close>

definition sendable :: "string \<Rightarrow> bool" where
  "sendable s = (length s < 32768 \<and> length s mod 256 < 128)"

lemma sendable_length:
  "sendable s \<Longrightarrow> option_length (push_option s) = 2 + int (length s)"
  by (simp add: sendable_def option_length_def push_option_length)

lemma push_bytes_frame:
  assumes "sendable s" and "2 + length s + length J \<le> 16383"
  shows "push_bytes (push_option s) J = Inr (push_frame s J)"
proof -
  let ?n = "2 + length s + length J"
  have "unat (word_of_nat ?n :: dword) = ?n"
    using assms(2) by (intro unat_word_of_nat_dword) simp
  then have "SetMsgLengthItem (word_of_nat ?n) = varint ?n"
    using SetMsgLengthItem_one [of "word_of_nat ?n"] SetMsgLengthItem_two [of "word_of_nat ?n"] assms(2)
    by (cases "?n \<le> 127") auto
  moreover have "(word_of_int (option_length (push_option s) + int (length J)) :: dword) = word_of_nat ?n"
    using sendable_length [OF assms(1)] by simp
  moreover have "GetLengthFromTwoBytes (nHighLength (push_option s)) (nLowLength (push_option s))
      = int (length s)"
    using assms(1) by (simp add: sendable_def push_option_length)
  ultimately show ?thesis
    by (simp only: push_bytes_def Let_def push_option_fields COPY_STR_exact rbind_Inr push_frame_def)
qed

lemma push_into_cases:
  assumes "sendable s" and "2 + length s + length J \<le> 16383"
  shows "push_into buffsize (push_option s) J =
    (if buffsize < 2 + length s + length J then Inl (Ret RETCODE_NO_MEMORY)
     else if length (push_frame s J) \<le> buffsize then Inr (push_frame s J)
     else Inl (Fault WriteOverflow))"
proof -
  have "(option_length (push_option s) + int (length J)) mod 2 ^ 32 = int (2 + length s + length J)"
    using assms(2) by (simp add: sendable_length [OF assms(1)])
  then show ?thesis
    by (simp only: push_into_def push_bytes_frame [OF assms] rbind_Inr write_msg_def of_nat_less_iff)
qed

lemma length_push_frame:
  "length (push_frame s J) = 1 + length (varint (2 + length s + length J)) + 2 + length s + length J"
  by (simp add: push_frame_def)


text \<open>
  A message that fits its buffer with its header is sent as the frame above.
\<close>

theorem push_into_sends:
  assumes "sendable s" and "2 + length s + length J \<le> 16383"
    and "length (push_frame s J) \<le> buffsize"
  shows "push_into buffsize (push_option s) J = Inr (push_frame s J)"
  using assms push_into_cases [OF assms(1,2)] by (simp add: length_push_frame)

theorem push_into_sends_witness:
  "push_into 20 (push_option ''dev'') ''{}'' = Inr (push_frame ''dev'' ''{}'')"
proof -
  have "length (push_frame ''dev'' ''{}'') \<le> 20"
    unfolding length_push_frame by (simp add: varint.simps)
  then show ?thesis
    using push_into_sends [of "''dev''" "''{}''" 20] by (simp add: sendable_def)
qed

text \<open>
  The size test of the builders does not count the header, so a message whose option and body
  fit the buffer but whose header does not is written past its end.
\<close>

theorem push_into_overflow:
  assumes "sendable s" and "2 + length s + length J \<le> 16383"
    and "2 + length s + length J \<le> buffsize" and "buffsize < length (push_frame s J)"
  shows "push_into buffsize (push_option s) J = Inl (Fault WriteOverflow)"
  using assms(3,4) push_into_cases [OF assms(1,2), of buffsize] by simp

theorem push_into_overflow_witness:
  "push_into 7 (push_option ''dev'') ''{}'' = Inl (Fault WriteOverflow)"
proof -
  have "7 < length (push_frame ''dev'' ''{}'')"
    unfolding length_push_frame by (simp add: varint.simps)
  then show ?thesis
    using push_into_overflow [of "''dev''" "''{}''" 7] by (simp add: sendable_def)
qed

text \<open>
  C35: no message goes out to an address whose length has a low byte of 128 or more: its two
  length bytes read back as a negative number.
\<close>

theorem push_into_unsendable:
  assumes "length s < 32768" and "128 \<le> length s mod 256"
  shows "\<exists>e. push_into buffsize (push_option s) J = Inl e"
proof -
  have "s \<noteq> []" using assms(2) by auto
  moreover have "int (length s mod 256) - 256 < 0" by simp
  ultimately have "COPY_STR (Some s) (int (length s mod 256) - 256) = Inl (Fault ReadOverrun)"
    by (simp add: COPY_STR_def)
  then show ?thesis
    using assms(2) by (simp add: push_into_def push_bytes_def Let_def push_option_length [OF assms(1)])
qed

theorem push_into_unsendable_witness:
  "\<exists>e. push_into 1024 (push_option (replicate 130 (CHR ''a''))) ''{}'' = Inl e"
  by (rule push_into_unsendable) simp_all

section \<open>What the flat messages say\<close>

text \<open>The fields of a message: the constant part, then what the message adds.\<close>

definition req_fields :: "('a HERT_MSG_REQ_PUSH_DATA_CONSTPART_scheme) \<Rightarrow> jfield list" where
  "req_fields c = [FNum ''version'' (sint (version c)), FStr ''msgType'' (msgType c),
     FStr ''msgSeq'' (msgSeq c)]"

definition rsp_fields :: "HERT_MSG_RSP_PUSH_DATA_CONSTPART \<Rightarrow> jfield list" where
  "rsp_fields c = req_fields c @
     [FNum ''errorCode'' (sint (errorCode c)), FStr ''description'' (description c)]"

definition init_fields :: "HERT_MSG_REQ_PUSH_DATA_VARPART_INIT \<Rightarrow> jfield list" where
  "init_fields v = [FStr ''devID'' (init_devID v), FNum ''deviceType'' (sint (init_deviceType v)),
     FStr ''IP'' (init_IP v)]"

definition upd_fields :: "HERT_MSG_REQ_PUSH_DATA_VARPART_GET_UPDATE \<Rightarrow> jfield list" where
  "upd_fields v = [FStr ''devID'' (upd_devID v), FNum ''type'' (sint (upd_type v)),
     FStr ''currentVersion'' (upd_currentVersion v)]"

definition abi_fields :: "HERT_MSG_REQ_PUSH_DATA_VARPART_ABILITY_NOTIFY \<Rightarrow> jfield list" where
  "abi_fields v = [FStr ''devID'' (abi_devID v), FStr ''devName'' (abi_devName v),
     FStr ''fac'' (abi_fac v), FStr ''type'' (abi_type v), FStr ''softVersion'' (abi_softVersion v)]"

definition space_fields :: "HERT_MSG_RSP_PUSH_DATA_VARPART_SPACE \<Rightarrow> jfield list" where
  "space_fields v = [FNum ''diskStatus'' (sint (diskStatus v)), FNum ''totalSpace'' (sint (totalSpace v)),
     FNum ''usedSpace'' (sint (usedSpace v)), FNum ''leftSpace'' (sint (leftSpace v))]"

lemmas fields_defs = req_fields_def rsp_fields_def init_fields_def upd_fields_def abi_fields_def
  space_fields_def

text \<open>The builders' macro calls are the steps of those fields.\<close>

lemma builder_steps:
  "req_const_steps c @ [AddItem (FORMAT_JSON_ITEM_STR ''devID'' (init_devID v)),
      AddItem (FORMAT_JSON_ITEM_LNG ''deviceType'' (init_deviceType v)),
      AddItem (FORMAT_JSON_ITEM_STR ''IP'' (init_IP v)), AddStr ''}'']
    = flat_steps (req_fields c @ init_fields v)"
  "req_const_steps c @ [AddItem (FORMAT_JSON_ITEM_STR ''devID'' (upd_devID u)),
      AddItem (FORMAT_JSON_ITEM_LNG ''type'' (upd_type u)),
      AddItem (FORMAT_JSON_ITEM_STR ''currentVersion'' (upd_currentVersion u)), AddStr ''}'']
    = flat_steps (req_fields c @ upd_fields u)"
  "req_const_steps c @ [AddItem (FORMAT_JSON_ITEM_STR ''devID'' (abi_devID a)),
      AddItem (FORMAT_JSON_ITEM_STR ''devName'' (abi_devName a)),
      AddItem (FORMAT_JSON_ITEM_STR ''fac'' (abi_fac a)),
      AddItem (FORMAT_JSON_ITEM_STR ''type'' (abi_type a)),
      AddItem (FORMAT_JSON_ITEM_STR ''softVersion'' (abi_softVersion a)), AddStr ''}'']
    = flat_steps (req_fields c @ abi_fields a)"
  "rsp_const_steps r @ [AddItem (FORMAT_JSON_ITEM_INT ''diskStatus'' (diskStatus p)),
      AddItem (FORMAT_JSON_ITEM_LNGLNG ''totalSpace'' (totalSpace p)),
      AddItem (FORMAT_JSON_ITEM_LNGLNG ''usedSpace'' (usedSpace p)),
      AddItem (FORMAT_JSON_ITEM_LNGLNG ''leftSpace'' (leftSpace p)), AddStr ''}'']
    = flat_steps (rsp_fields r @ space_fields p)"
  "rsp_const_steps r @ [AddStr ''}''] = flat_steps (rsp_fields r)"
  "req_const_steps c @ [AddItem (FORMAT_JSON_ITEM_STR ''contentID'' (comp_contentID q)), AddStr ''}'']
    = flat_steps (req_fields c @ [FStr ''contentID'' (comp_contentID q)])"
  by (simp_all add: req_const_steps_def rsp_const_steps_def fields_defs flat_steps_def
      FORMAT_JSON_ITEM_STR_def FORMAT_JSON_ITEM_INT_def FORMAT_JSON_ITEM_LNG_def
      FORMAT_JSON_ITEM_LNGLNG_def)

text \<open>A flat message is sent when its text fits 512 chars and its frame the buffer.\<close>

definition object_body :: "jfield list \<Rightarrow> string" where
  "object_body fs = CHR ''{'' # fields_text fs @ ''}''"

definition flat_ready :: "nat \<Rightarrow> string \<Rightarrow> jfield list \<Rightarrow> bool" where
  "flat_ready buffsize s fs = (sendable s \<and> (\<forall>f \<in> set fs. readable f)
     \<and> length (object_body fs) < 512 \<and> 2 + length s + length (object_body fs) \<le> 16383
     \<and> length (push_frame s (object_body fs)) \<le> buffsize)"

lemma flat_message_sends:
  assumes "flat_ready buffsize s fs" and "fs \<noteq> []" and "mem 512"
  shows "json_message mem 512 (flat_steps fs) (push_into buffsize (push_option s)) =
    Inr (push_frame s (object_body fs))"
proof -
  have "json_steps 512 (flat_steps fs) [] = Inr (object_body fs)"
    using flat_steps_text [of fs 512] assms by (simp add: flat_ready_def object_body_def)
  moreover have "push_into buffsize (push_option s) (object_body fs) =
      Inr (push_frame s (object_body fs))"
    using assms(1) push_into_cases [of s "object_body fs" buffsize]
    by (simp add: flat_ready_def length_push_frame)
  ultimately show ?thesis using assms(3) by (simp add: json_message_def)
qed

lemma object_body_items:
  assumes "\<forall>f \<in> set fs. readable f" and "fs \<noteq> []"
  shows "json_items (object_body fs) = map field_pair fs"
proof -
  have "object_body fs = ''{'' @ fields_text fs @ STR_END2 # ''''" by (simp add: object_body_def)
  then show ?thesis using json_items_fields [of fs "''{''" "''''"] assms by simp
qed

text \<open>
  Every flat message goes out as one frame whose body holds its fields, constant part first,
  in order and with their names: a reader of the body gets exactly the values of the structs.
  The three plain responses are the same message.
\<close>

theorem flat_builders_send:
  assumes "mem 512"
  shows "(flat_ready n s (req_fields c @ init_fields v) \<longrightarrow>
      Build_Msg_InitInfoReq mem (Some n) (Some ()) (Some (push_option s)) (Some c) (Some v) =
        Inr (push_frame s (object_body (req_fields c @ init_fields v)))) \<and>
    (flat_ready n s (req_fields c @ upd_fields u) \<longrightarrow>
      Build_Msg_GetUpgradeInfoReq mem (Some n) (Some ()) (Some (push_option s)) (Some c) (Some u) =
        Inr (push_frame s (object_body (req_fields c @ upd_fields u)))) \<and>
    (flat_ready n s (req_fields c @ abi_fields a) \<longrightarrow>
      Build_Msg_AbilityNotifyReq mem (Some n) (Some ()) (Some (push_option s)) (Some c) (Some a) =
        Inr (push_frame s (object_body (req_fields c @ abi_fields a)))) \<and>
    (flat_ready n s (rsp_fields r @ space_fields p) \<longrightarrow>
      Build_Msg_RouteSpaceRsp mem (Some n) (Some ()) (Some (push_option s)) (Some r) (Some p) =
        Inr (push_frame s (object_body (rsp_fields r @ space_fields p)))) \<and>
    (flat_ready n s (rsp_fields r) \<longrightarrow>
      Build_Msg_DeviceOperateRsp mem (Some n) (Some ()) (Some (push_option s)) (Some r) =
        Inr (push_frame s (object_body (rsp_fields r)))) \<and>
    Build_Msg_UnknowDataRsp = Build_Msg_DeviceOperateRsp \<and>
    Build_Msg_DownloadRsq = Build_Msg_DeviceOperateRsp \<and>
    (flat_ready n s (req_fields c @ [FStr ''contentID'' (comp_contentID q)]) \<longrightarrow>
      Build_Msg_DownloadCompReq mem (Some n) (Some ()) (Some (push_option s)) (Some c) (Some q) =
        Inr (push_frame s (object_body (req_fields c @ [FStr ''contentID'' (comp_contentID q)]))))"
proof -
  have ne: "req_fields c @ xs \<noteq> []" "rsp_fields r @ xs \<noteq> []" "rsp_fields r \<noteq> []" for xs
    by (simp_all add: fields_defs)
  have eq: "Build_Msg_UnknowDataRsp = Build_Msg_DeviceOperateRsp"
      "Build_Msg_DownloadRsq = Build_Msg_DeviceOperateRsp"
    by (intro ext, simp only: flat_builder_defs)+
  show ?thesis
    unfolding eq using assms
    by (intro conjI impI refl)
       (simp_all only: flat_builder_defs nonnull_Some builder_steps flat_message_sends ne simp_thms)
qed

theorem flat_builders_send_witness:
  "Build_Msg_InitInfoReq (\<lambda>n. n = 512) (Some 300) (Some ()) (Some (push_option ''dev''))
      (Some \<lparr>version = 16, msgType = ''INIT'', msgSeq = ''1''\<rparr>)
      (Some \<lparr>init_devID = ''d1'', init_deviceType = 2, init_IP = ''10.0.0.1''\<rparr>) =
    Inr (push_frame ''dev'' (object_body [FNum ''version'' 16, FStr ''msgType'' ''INIT'',
      FStr ''msgSeq'' ''1'', FStr ''devID'' ''d1'', FNum ''deviceType'' 2, FStr ''IP'' ''10.0.0.1'']))"
proof -
  let ?c = "\<lparr>version = 16, msgType = ''INIT'', msgSeq = ''1''\<rparr> :: HERT_MSG_REQ_PUSH_DATA_CONSTPART"
  let ?v = "\<lparr>init_devID = ''d1'', init_deviceType = 2, init_IP = ''10.0.0.1''\<rparr>"
  have "flat_ready 300 ''dev'' (req_fields ?c @ init_fields ?v)"
    by (simp add: flat_ready_def sendable_def fields_defs plain_text_def object_body_def str_item_def
        num_item_def show_int_def show_nat.simps length_push_frame varint.simps)
  then show ?thesis
    using flat_builders_send [of "\<lambda>n. n = 512" 300 "''dev''" ?c ?v] by (simp add: fields_defs)
qed

section \<open>Absent arguments and array bounds\<close>

lemma nonnull_const [simp]:
  "nonnull p (\<lambda>_. Inl (Ret RETCODE_INVALID_PARAM)) = Inl (Ret RETCODE_INVALID_PARAM)"
  by (cases p) simp_all

text \<open>
  A builder given a NULL buffer, length, option, constant part or variable part returns
  RETCODE_INVALID_PARAM and writes nothing.
\<close>

theorem flat_builders_null:
  "\<forall>build \<in> {Build_Msg_DeviceOperateRsp mem, Build_Msg_UnknowDataRsp mem, Build_Msg_DownloadRsq mem}.
     build None d opt r = Inl (Ret RETCODE_INVALID_PARAM) \<and>
     build b None opt r = Inl (Ret RETCODE_INVALID_PARAM) \<and>
     build b d None r = Inl (Ret RETCODE_INVALID_PARAM) \<and>
     build b d opt None = Inl (Ret RETCODE_INVALID_PARAM)"
  by (simp add: flat_builder_defs)

theorem flat_builders_null_witness:
  "Build_Msg_DeviceOperateRsp (\<lambda>_. True) (Some 100) (Some ()) None None = Inl (Ret RETCODE_INVALID_PARAM)"
  using flat_builders_null [of "\<lambda>_. True" "Some ()" None None "Some 100"] by blast

lemma show_dword_length: "length (show_int (sint (w :: dword))) \<le> 11"
proof -
  have "- (2 ^ 31) \<le> sint w" "sint w < 2 ^ 31"
    using sint_ge [of w] sint_lt [of w] by simp_all
  then have "length (show_int (sint w)) \<le> Suc 10"
    by (intro show_int_length) simp_all
  then show ?thesis by simp
qed

text \<open>
  The first message after connecting never lacks room: when the strings fit the arrays of
  their structs and have no separator in them, InitInfoReq is sent in every buffer of 275 bytes
  and the address.
\<close>

theorem Build_Msg_InitInfoReq_fits:
  assumes "mem 512" and "sendable s" and "length s \<le> 16000" and "275 + length s \<le> n"
    and "length (msgType c) < 64" and "length (msgSeq c) < 20"
    and "length (init_devID v) < 64" and "length (init_IP v) < 32"
    and "plain_text (msgType c)" and "plain_text (msgSeq c)"
    and "plain_text (init_devID v)" and "plain_text (init_IP v)"
  shows "Build_Msg_InitInfoReq mem (Some n) (Some ()) (Some (push_option s)) (Some c) (Some v) =
    Inr (push_frame s (object_body (req_fields c @ init_fields v)))"
proof -
  let ?fs = "req_fields c @ init_fields v"
  have len: "length (object_body ?fs) \<le> 270"
    using assms(5-8) show_dword_length [of "version c"] show_dword_length [of "init_deviceType v"]
    by (simp add: fields_defs object_body_def str_item_def num_item_def)
  have "\<forall>f \<in> set ?fs. readable f"
    using assms(5-12) show_dword_length [of "version c"] show_dword_length [of "init_deviceType v"]
    by (simp add: fields_defs)
  moreover have "length (varint (2 + length s + length (object_body ?fs))) \<le> 2"
    using len assms(3) by (intro varint_length) simp
  ultimately have "flat_ready n s ?fs"
    using assms(2-4) len by (simp add: flat_ready_def length_push_frame)
  then show ?thesis
    using flat_message_sends [of n s ?fs mem] assms(1)
    by (simp only: flat_builder_defs nonnull_Some builder_steps) (simp add: fields_defs)
qed

theorem Build_Msg_InitInfoReq_fits_witness:
  "Build_Msg_InitInfoReq (\<lambda>_. True) (Some 300) (Some ()) (Some (push_option ''dev''))
      (Some \<lparr>version = 16, msgType = ''INIT'', msgSeq = ''1''\<rparr>)
      (Some \<lparr>init_devID = ''d1'', init_deviceType = 2, init_IP = ''10.0.0.1''\<rparr>) =
    Inr (push_frame ''dev'' (object_body
      (req_fields \<lparr>version = 16, msgType = ''INIT'', msgSeq = ''1''\<rparr>
        @ init_fields \<lparr>init_devID = ''d1'', init_deviceType = 2, init_IP = ''10.0.0.1''\<rparr>)))"
  by (rule Build_Msg_InitInfoReq_fits) (simp_all add: sendable_def plain_text_def)

text \<open>
  An item is cut at 127 chars: a text value for which name and value have 123 chars or more
  loses its closing quotation mark.
\<close>

theorem FORMAT_JSON_ITEM_STR_cut:
  assumes "123 \<le> length a + length v" and "length a < 120" and "STR_QUOTATION \<notin> set v"
  shows "length (FORMAT_JSON_ITEM_STR a v) = 127 \<and> last (FORMAT_JSON_ITEM_STR a v) \<noteq> STR_QUOTATION"
proof -
  let ?p = "STR_QUOTATION # a @ [STR_QUOTATION, STR_SEPRATION, STR_QUOTATION]"
  have v: "v \<noteq> []" using assms(1,2) by auto
  have "FORMAT_JSON_ITEM_STR a v = take 127 (?p @ v @ [STR_QUOTATION])"
    by (simp add: FORMAT_JSON_ITEM_STR_def snprintf_into_def str_item_def)
  also have "\<dots> = take 127 ?p @ take (127 - length ?p) v"
    using assms(1) by (simp only: take_append) simp
  also have "take 127 ?p = ?p" using assms(2) by (intro take_all) simp
  finally have e: "FORMAT_JSON_ITEM_STR a v = ?p @ take (127 - length ?p) v" .
  have "take (127 - length ?p) v \<noteq> []" using v assms(2) by simp
  then have "last (FORMAT_JSON_ITEM_STR a v) \<in> set (take (127 - length ?p) v)"
    unfolding e by (subst last_appendR) (assumption, rule last_in_set)
  then have "last (FORMAT_JSON_ITEM_STR a v) \<in> set v" by (rule in_set_takeD)
  moreover have "length (FORMAT_JSON_ITEM_STR a v) = 127"
    unfolding e using assms(1,2) by simp
  ultimately show ?thesis using assms(3) by auto
qed

theorem FORMAT_JSON_ITEM_STR_cut_witness:
  "length (FORMAT_JSON_ITEM_STR ''softVersion'' (replicate 200 (CHR ''1''))) = 127"
  using FORMAT_JSON_ITEM_STR_cut [of "''softVersion''" "replicate 200 (CHR ''1'')"] by simp

end
