(* ===== verification/MsgParse.thy ===== *)
theory MsgParse
  imports MsgBuild
begin

text \<open>
  The parsers of herouteapp/hert_msg.c: the message type, the connection answer, the msgType
  item of a PUSH_DATA message, and the Parse_Msg_* loops that fill the structs.  An out
  parameter is an argument (its contents before the call) and the result (after it).  A loop
  keeps what the items before it stored; a strcpy of a value that does not fit its array is
  Fault WriteOverflow.
\<close>

section \<open>The structs\<close>

record HERT_MSG_OPTION_CONN_RSP =
  nRever :: byte
  nErrCode :: byte

record HERT_MSG_RSP_PUSH_DATA_VARPART_INIT =
  cycle :: dword
  time :: string
  timeZone :: string
  platformVersion :: string
  password :: string

record HERT_MSG_RSP_PUSH_DATA_VARPART_GET_UPDATE =
  needUpdate :: byte
  updateUrl :: string
  updateDescription :: string

record HERT_MSG_REQ_PUSH_DATA_VARPART_DOWNLOAD =
  contentID :: string
  URL :: string
  contentName :: string

record HERT_MSG_REQ_PUSH_DATA_VARPART_ADD_DOWNLOAD_MISSION =
  dlAddress :: string

record HERT_MSG_REQ_PUSH_DATA_VARPART_DEVICEOPERATE =
  operType :: dword
  operPara :: string

section \<open>Type, connection answer, msgType\<close>

definition Parse_Msg_Type :: "byte list option \<Rightarrow> cerr + byte" where
  "Parse_Msg_Type ptMsg = (case ptMsg of None \<Rightarrow> Inl (Ret RETCODE_NO_MEMORY) | Some m \<Rightarrow> rd m 0)"

text \<open>
  Parse_Msg_ConnRsp hands Parse_Msg_Data the address of its own parameter, so the caller's
  option struct is never written.
\<close>

definition Parse_Msg_ConnRsp ::
  "byte list option \<Rightarrow> HERT_MSG_OPTION_CONN_RSP \<Rightarrow> cerr + HERT_MSG_OPTION_CONN_RSP" where
  "Parse_Msg_ConnRsp ptMsg ptMsgOption = (case Parse_Msg_Data ptMsg of
       Inl (Ret _) \<Rightarrow> Inl (Ret RETCODE_NO_MEMORY)
     | Inl (Fault f) \<Rightarrow> Inl (Fault f)
     | Inr _ \<Rightarrow> Inr ptMsgOption)"

text \<open>The memcmp scan: the position of the needle, or where the loop condition ends it.\<close>

function find_msgtype :: "byte list \<Rightarrow> byte list \<Rightarrow> int \<Rightarrow> nat \<Rightarrow> cerr + nat" where
  "find_msgtype needle m nDataLen i =
     (if int (i + length needle) < nDataLen then
        if length m < i + length needle then Inl (Fault ReadOverrun)
        else if take (length needle) (drop i m) = needle then Inr i
        else find_msgtype needle m nDataLen (Suc i)
      else Inr i)"
  by pat_completeness auto
termination
  by (relation "measure (\<lambda>(needle, m, n, i). nat n - i)") auto

declare find_msgtype.simps [simp del]

text \<open>strstr for a one character needle over the C string from an address.\<close>

definition strstr1 :: "char \<Rightarrow> string \<Rightarrow> cerr + string" where
  "strstr1 c s = (case strchr c s of None \<Rightarrow> Inl (Ret RETCODE_INVALID_MSGDATA) | Some t \<Rightarrow> Inr t)"

text \<open>
  The result is the array pszMsgType: strncpy of the text between the marks over zeros.  A
  longer text is written past its end.
\<close>

definition Parse_Msg_PushData_Type :: "byte list option \<Rightarrow> int \<Rightarrow> nat option \<Rightarrow> cerr + byte list" where
  "Parse_Msg_PushData_Type ptMsg nDataLen pszMsgType = (case (ptMsg, pszMsgType) of
       (Some m, Some nMsgTypeBuf) \<Rightarrow>
         (let needle = bytes_of ''msgType'' in
          rbind (find_msgtype needle m nDataLen 0) (\<lambda>i.
          if int (i + length needle) = nDataLen then Inl (Ret RETCODE_INVALID_MSGDATA)
          else (case cstr (drop (i + length needle) m) of
              None \<Rightarrow> Inl (Fault ReadOverrun)
            | Some s \<Rightarrow>
                rbind (strstr1 (STR_QUOTATION) s) (\<lambda>p1.
                rbind (strstr1 (STR_SEPRATION) (tl p1)) (\<lambda>p2.
                rbind (strstr1 (STR_QUOTATION) (tl p2)) (\<lambda>p3.
                rbind (strstr1 (STR_QUOTATION) (tl p3)) (\<lambda>pEnd.
                  (let txt = take (length (tl p3) - length pEnd) (tl p3) in
                   if length txt \<le> nMsgTypeBuf
                   then Inr (bytes_of txt @ replicate (nMsgTypeBuf - length txt) 0)
                   else Inl (Fault WriteOverflow)))))))))
     | _ \<Rightarrow> Inl (Ret RETCODE_NO_MEMORY))"

section \<open>The item chains\<close>

text \<open>
  One test of an else-if chain: None is a name it does not know.  A value goes to a char array
  of \<open>n\<close> chars by strcpy, or to a number by atoi.
\<close>

type_synonym 's item_test = "string \<Rightarrow> string \<Rightarrow> 's \<Rightarrow> (cerr + 's) option"

definition str_test :: "string \<Rightarrow> nat \<Rightarrow> (string \<Rightarrow> 's \<Rightarrow> 's) \<Rightarrow> 's item_test" where
  "str_test name n upd szItemName szItemValue s =
     (if szItemName = name then Some (rbind (strcpy_into n szItemValue) (\<lambda>x. Inr (upd x s))) else None)"

definition int_test :: "string \<Rightarrow> (int \<Rightarrow> 's \<Rightarrow> 's) \<Rightarrow> 's item_test" where
  "int_test name upd szItemName szItemValue s =
     (if szItemName = name then Some (Inr (upd (atoi szItemValue) s)) else None)"

text \<open>A chain: the first test that knows the name decides; without one nothing happens.\<close>

fun else_if :: "'s item_test list \<Rightarrow> string \<Rightarrow> string \<Rightarrow> 's \<Rightarrow> cerr + 's" where
  "else_if [] n v s = Inr s"
| "else_if (t # ts) n v s = (case t n v s of Some r \<Rightarrow> r | None \<Rightarrow> else_if ts n v s)"

text \<open>Tests on one of the two structs a parser fills.\<close>

definition on_fst :: "'s item_test \<Rightarrow> ('s \<times> 't) item_test" where
  "on_fst t n v p = map_option (\<lambda>r. rbind r (\<lambda>c. Inr (c, snd p))) (t n v (fst p))"

definition on_snd :: "'t item_test \<Rightarrow> ('s \<times> 't) item_test" where
  "on_snd t n v p = map_option (\<lambda>r. rbind r (\<lambda>c. Inr (fst p, c))) (t n v (snd p))"

text \<open>The tests every parser starts with, and those of a response.\<close>

definition const_tests :: "('a HERT_MSG_REQ_PUSH_DATA_CONSTPART_scheme) item_test list" where
  "const_tests =
     [int_test ''version'' (\<lambda>i c. c\<lparr>version := word_of_int i\<rparr>),
      str_test ''msgType'' 64 (\<lambda>x c. c\<lparr>msgType := x\<rparr>),
      str_test ''msgSeq'' 20 (\<lambda>x c. c\<lparr>msgSeq := x\<rparr>)]"

definition error_test :: "HERT_MSG_RSP_PUSH_DATA_CONSTPART item_test" where
  "error_test = int_test ''errorCode'' (\<lambda>i c. c\<lparr>errorCode := word_of_int i\<rparr>)"

definition descr_test :: "HERT_MSG_RSP_PUSH_DATA_CONSTPART item_test" where
  "descr_test = str_test ''description'' 256 (\<lambda>x c. c\<lparr>description := x\<rparr>)"

lemmas item_defs = str_test_def int_test_def on_fst_def on_snd_def const_tests_def
  error_test_def descr_test_def

section \<open>The parsers\<close>

text \<open>The two that clear the struct first.\<close>

definition zero_req :: HERT_MSG_REQ_PUSH_DATA_CONSTPART where
  "zero_req = \<lparr>version = 0, msgType = [], msgSeq = []\<rparr>"

definition zero_rsp :: HERT_MSG_RSP_PUSH_DATA_CONSTPART where
  "zero_rsp = \<lparr>version = 0, msgType = [], msgSeq = [], errorCode = 0, description = []\<rparr>"

definition Parse_Msg_BodyConstPartRsp ::
  "string option \<Rightarrow> HERT_MSG_RSP_PUSH_DATA_CONSTPART option \<Rightarrow> cerr + HERT_MSG_RSP_PUSH_DATA_CONSTPART" where
  "Parse_Msg_BodyConstPartRsp ptMsg ptMsgConstBody =
     nonnull ptMsg (\<lambda>s. nonnull ptMsgConstBody (\<lambda>_.
       json_loop 128 (else_if (const_tests @ [error_test, descr_test])) s zero_rsp))"

definition Parse_Msg_BodyConstPartReq ::
  "string option \<Rightarrow> HERT_MSG_REQ_PUSH_DATA_CONSTPART option \<Rightarrow> cerr + HERT_MSG_REQ_PUSH_DATA_CONSTPART" where
  "Parse_Msg_BodyConstPartReq ptMsg ptMsgConstBody =
     nonnull ptMsg (\<lambda>s. nonnull ptMsgConstBody (\<lambda>_. json_loop 128 (else_if const_tests) s zero_req))"

text \<open>The others work on the structs as the caller left them; szItemValue has 128 or 512 chars.\<close>

definition Parse_Msg_GetUpdateRsp ::
  "string option \<Rightarrow> HERT_MSG_RSP_PUSH_DATA_CONSTPART option
    \<Rightarrow> HERT_MSG_RSP_PUSH_DATA_VARPART_GET_UPDATE option
    \<Rightarrow> cerr + HERT_MSG_RSP_PUSH_DATA_CONSTPART \<times> HERT_MSG_RSP_PUSH_DATA_VARPART_GET_UPDATE" where
  "Parse_Msg_GetUpdateRsp ptMsg ptMsgConstBody ptMsgVarBody =
     nonnull ptMsg (\<lambda>s. nonnull ptMsgConstBody (\<lambda>c. nonnull ptMsgVarBody (\<lambda>v.
       json_loop 128 (else_if (map on_fst (const_tests @ [error_test]) @ map on_snd
         [int_test ''needUpdate'' (\<lambda>i w. w\<lparr>needUpdate := word_of_int i\<rparr>),
          str_test ''updateUrl'' 256 (\<lambda>x w. w\<lparr>updateUrl := x\<rparr>),
          str_test ''updateDescription'' 256 (\<lambda>x w. w\<lparr>updateDescription := x\<rparr>)])) s (c, v))))"

text \<open>The last component is what hertUtil_SetAESPwdFromOnenet stored, if it was called.\<close>

definition Parse_Msg_InitInfoRsp ::
  "string option \<Rightarrow> HERT_MSG_RSP_PUSH_DATA_CONSTPART option
    \<Rightarrow> HERT_MSG_RSP_PUSH_DATA_VARPART_INIT option \<Rightarrow> string option
    \<Rightarrow> cerr + HERT_MSG_RSP_PUSH_DATA_CONSTPART \<times> HERT_MSG_RSP_PUSH_DATA_VARPART_INIT \<times> string option" where
  "Parse_Msg_InitInfoRsp ptMsg ptMsgConstBody ptMsgVarBody aesPwd =
     nonnull ptMsg (\<lambda>s. nonnull ptMsgConstBody (\<lambda>c. nonnull ptMsgVarBody (\<lambda>v.
       json_loop 128 (else_if (map on_fst (const_tests @ [error_test, descr_test]) @ map on_snd
         [int_test ''cycle'' (\<lambda>i (w, p). (w\<lparr>cycle := word_of_int i\<rparr>, p)),
          str_test ''time'' 32 (\<lambda>x (w, p). (w\<lparr>time := x\<rparr>, p)),
          str_test ''timeZone'' 16 (\<lambda>x (w, p). (w\<lparr>timeZone := x\<rparr>, p)),
          str_test ''platformVersion'' 32 (\<lambda>x (w, p). (w\<lparr>platformVersion := x\<rparr>, p)),
          str_test ''password'' 128 (\<lambda>x (w, p). (w\<lparr>password := x\<rparr>, Some x))])) s (c, v, aesPwd))))"

definition Parse_Msg_DeviceOperateReq ::
  "string option \<Rightarrow> HERT_MSG_REQ_PUSH_DATA_CONSTPART option
    \<Rightarrow> HERT_MSG_REQ_PUSH_DATA_VARPART_DEVICEOPERATE option
    \<Rightarrow> cerr + HERT_MSG_REQ_PUSH_DATA_CONSTPART \<times> HERT_MSG_REQ_PUSH_DATA_VARPART_DEVICEOPERATE" where
  "Parse_Msg_DeviceOperateReq ptMsg ptMsgConstBody ptMsgVarBody =
     nonnull ptMsg (\<lambda>s. nonnull ptMsgConstBody (\<lambda>c. nonnull ptMsgVarBody (\<lambda>v.
       json_loop 512 (else_if (map on_fst const_tests @ map on_snd
         [int_test ''operType'' (\<lambda>i w. w\<lparr>operType := word_of_int i\<rparr>),
          str_test ''operPara'' 128 (\<lambda>x w. w\<lparr>operPara := x\<rparr>)])) s (c, v))))"

definition Parse_Msg_UnknowDataReq ::
  "string option \<Rightarrow> HERT_MSG_REQ_PUSH_DATA_CONSTPART option \<Rightarrow> cerr + HERT_MSG_REQ_PUSH_DATA_CONSTPART" where
  "Parse_Msg_UnknowDataReq ptMsg ptMsgConstBody =
     nonnull ptMsg (\<lambda>s. nonnull ptMsgConstBody (\<lambda>c. json_loop 512 (else_if const_tests) s c))"

definition Parse_Msg_AddDownloadMissionReq ::
  "string option \<Rightarrow> HERT_MSG_REQ_PUSH_DATA_CONSTPART option
    \<Rightarrow> HERT_MSG_REQ_PUSH_DATA_VARPART_ADD_DOWNLOAD_MISSION option
    \<Rightarrow> cerr + HERT_MSG_REQ_PUSH_DATA_CONSTPART \<times> HERT_MSG_REQ_PUSH_DATA_VARPART_ADD_DOWNLOAD_MISSION" where
  "Parse_Msg_AddDownloadMissionReq ptMsg ptMsgConstBody ptMsgVarBody =
     nonnull ptMsg (\<lambda>s. nonnull ptMsgConstBody (\<lambda>c. nonnull ptMsgVarBody (\<lambda>v.
       json_loop 512 (else_if (map on_fst const_tests @ map on_snd
         [str_test ''dlAddress'' 256 (\<lambda>x w. w\<lparr>dlAddress := x\<rparr>)])) s (c, v))))"

definition Parse_Msg_DownloadReq ::
  "string option \<Rightarrow> HERT_MSG_REQ_PUSH_DATA_CONSTPART option
    \<Rightarrow> HERT_MSG_REQ_PUSH_DATA_VARPART_DOWNLOAD option
    \<Rightarrow> cerr + HERT_MSG_REQ_PUSH_DATA_CONSTPART \<times> HERT_MSG_REQ_PUSH_DATA_VARPART_DOWNLOAD" where
  "Parse_Msg_DownloadReq ptMsg ptMsgConstBody ptMsgVarBody =
     nonnull ptMsg (\<lambda>s. nonnull ptMsgConstBody (\<lambda>c. nonnull ptMsgVarBody (\<lambda>v.
       json_loop 512 (else_if (map on_fst const_tests @ map on_snd
         [str_test ''contentID'' 128 (\<lambda>x w. w\<lparr>contentID := x\<rparr>),
          str_test ''URL'' 256 (\<lambda>x w. w\<lparr>URL := x\<rparr>),
          str_test ''contentName'' 128 (\<lambda>x w. w\<lparr>contentName := x\<rparr>)])) s (c, v))))"

lemmas parser_defs = Parse_Msg_BodyConstPartRsp_def Parse_Msg_BodyConstPartReq_def
  Parse_Msg_GetUpdateRsp_def Parse_Msg_InitInfoRsp_def Parse_Msg_DeviceOperateReq_def
  Parse_Msg_UnknowDataReq_def Parse_Msg_AddDownloadMissionReq_def Parse_Msg_DownloadReq_def

declare parser_defs [model_defs] item_defs [model_defs] Parse_Msg_Type_def [model_defs]
  Parse_Msg_ConnRsp_def [model_defs] Parse_Msg_PushData_Type_def [model_defs] strstr1_def [model_defs]

section \<open>Reading a message back\<close>

text \<open>What the item loop does on the object text of readable fields.\<close>

lemma json_loop_object:
  assumes "\<forall>f \<in> set fs. readable f" and "fs \<noteq> []"
  shows "json_loop n step (object_body fs) st = items_fold n step (map field_pair fs) st"
  using assms by (simp add: json_loop_items object_body_items)

lemma items_fold_append:
  "items_fold n step (xs @ ys) st = rbind (items_fold n step xs st) (items_fold n step ys)"
proof (induction xs arbitrary: st)
  case Nil
  then show ?case by simp
next
  case (Cons x xs)
  obtain a b where x: "x = (a, b)" by (cases x)
  with Cons show ?case by (cases "length b < n"; cases "step a b st") (simp_all add: strcpy_into_def)
qed

text \<open>Items under names the chain does not know leave the structs as they are.\<close>

definition unknown :: "'s item_test list \<Rightarrow> string \<Rightarrow> bool" where
  "unknown ts n = (\<forall>t \<in> set ts. \<forall>v s. t n v s = None)"

lemma else_if_unknown: "unknown ts n \<Longrightarrow> else_if ts n v s = Inr s"
  by (induction ts) (auto simp: unknown_def)

lemma items_fold_unknown:
  "\<forall>p \<in> set xs. unknown ts (fst p) \<and> length (snd p) < n \<Longrightarrow>
    items_fold n (else_if ts) xs st = Inr st"
  by (induction xs) (auto simp: else_if_unknown)

lemma readable_value_short: "readable f \<Longrightarrow> length (snd (field_pair f)) \<le> 124"
  by (cases f) auto

lemma dword_roundtrip: "word_of_int (atoi (show_int (sint (w :: dword)))) = w"
proof -
  have "- (2 ^ 31) \<le> sint w" "sint w < 2 ^ 31"
    using sint_ge [of w] sint_lt [of w] by simp_all
  then have "atoi (show_int (sint w) @ []) = sint w" by (intro atoi_show_int) simp_all
  then show ?thesis by simp
qed

lemma show_dword_short: "length (show_int (sint (w :: dword))) < 128"
  using show_dword_length [of w] by simp

text \<open>
  The constant part of a response survives the wire: reading the body a builder wrote
  returns the version, msgType, msgSeq, errorCode and description of the sender, whatever
  further fields follow under names of their own.
\<close>

theorem Parse_Msg_BodyConstPartRsp_roundtrip:
  assumes "\<forall>f \<in> set (rsp_fields c @ fs). readable f"
    and "length (msgType c) < 64" and "length (msgSeq c) < 20"
    and "\<forall>f \<in> set fs. fst (field_pair f) \<notin>
      {''version'', ''msgType'', ''msgSeq'', ''errorCode'', ''description''}"
  shows "Parse_Msg_BodyConstPartRsp (Some (object_body (rsp_fields c @ fs))) (Some any) = Inr c"
proof -
  let ?ts = "const_tests @ [error_test, descr_test]"
  have d: "length (description c) < 128"
    using assms(1) by (simp add: fields_defs)
  have "items_fold 128 (else_if ?ts) (map field_pair (rsp_fields c)) zero_rsp = Inr c"
    using assms(2,3) d show_dword_short [of "version c"] show_dword_short [of "errorCode c"]
    by (simp add: fields_defs item_defs zero_rsp_def dword_roundtrip)
  moreover have "items_fold 128 (else_if ?ts) (map field_pair fs) c = Inr c"
  proof (rule items_fold_unknown, rule ballI)
    have unk: "unknown ?ts n" if "n \<notin> {''version'', ''msgType'', ''msgSeq'', ''errorCode'', ''description''}"
      for n using that by (simp add: unknown_def item_defs)
    fix p assume "p \<in> set (map field_pair fs)"
    then obtain f where f: "f \<in> set fs" "p = field_pair f" by auto
    have "unknown ?ts (fst p)" using assms(4) f by (intro unk) simp
    moreover have "readable f" using assms(1) f(1) by simp
    then have "length (snd p) \<le> 124" using f(2) readable_value_short by simp
    ultimately show "unknown ?ts (fst p) \<and> length (snd p) < 128" by simp
  qed
  moreover have "rsp_fields c @ fs \<noteq> []" by (simp add: fields_defs)
  ultimately show ?thesis
    using json_loop_object [OF assms(1), of 128 "else_if ?ts" zero_rsp]
    by (simp add: Parse_Msg_BodyConstPartRsp_def items_fold_append)
qed

theorem Parse_Msg_BodyConstPartRsp_roundtrip_witness:
  "Parse_Msg_BodyConstPartRsp
      (Some (object_body (rsp_fields \<lparr>version = 16, msgType = ''SPACE'', msgSeq = ''7'',
        errorCode = 0, description = ''ok''\<rparr> @ [FNum ''diskStatus'' 1])))
      (Some zero_rsp) =
    Inr \<lparr>version = 16, msgType = ''SPACE'', msgSeq = ''7'', errorCode = 0, description = ''ok''\<rparr>"
  by (rule Parse_Msg_BodyConstPartRsp_roundtrip)
     (simp_all add: fields_defs plain_text_def show_int_def show_nat.simps)

section \<open>The arrays of the structs\<close>

text \<open>Tests that keep an invariant of the structs keep it through the whole loop.\<close>

definition keeps :: "('s \<Rightarrow> bool) \<Rightarrow> 's item_test \<Rightarrow> bool" where
  "keeps P t = (\<forall>n v s r. P s \<longrightarrow> t n v s = Some (Inr r) \<longrightarrow> P r)"

lemma else_if_keeps: "\<forall>t \<in> set ts. keeps P t \<Longrightarrow> P s \<Longrightarrow> else_if ts n v s = Inr r \<Longrightarrow> P r"
proof (induction ts)
  case Nil
  then show ?case by simp
next
  case (Cons t ts)
  show ?case
  proof (cases "t n v s")
    case None
    with Cons show ?thesis by simp
  next
    case (Some x)
    with Cons.prems(3) have "t n v s = Some (Inr r)" by simp
    moreover have "keeps P t" using Cons.prems(1) by simp
    ultimately show ?thesis using Cons.prems(2) unfolding keeps_def by blast
  qed
qed

lemma json_loop_keeps:
  "\<forall>t \<in> set ts. keeps P t \<Longrightarrow> json_loop m (else_if ts) s st = Inr r \<Longrightarrow> P st \<Longrightarrow> P r"
  unfolding json_loop_items by (erule items_fold_inv) (auto intro: else_if_keeps)

definition const_fits :: "('a HERT_MSG_REQ_PUSH_DATA_CONSTPART_scheme) \<Rightarrow> bool" where
  "const_fits c = (length (msgType c) < 64 \<and> length (msgSeq c) < 20)"

definition rsp_fits :: "HERT_MSG_RSP_PUSH_DATA_CONSTPART \<Rightarrow> bool" where
  "rsp_fits c = (const_fits c \<and> length (description c) < 256)"

definition init_fits :: "HERT_MSG_RSP_PUSH_DATA_VARPART_INIT \<Rightarrow> bool" where
  "init_fits v = (length (time v) < 32 \<and> length (timeZone v) < 16 \<and>
     length (platformVersion v) < 32 \<and> length (password v) < 128)"

definition download_fits :: "HERT_MSG_REQ_PUSH_DATA_VARPART_DOWNLOAD \<Rightarrow> bool" where
  "download_fits v = (length (contentID v) < 128 \<and> length (URL v) < 256 \<and> length (contentName v) < 128)"

definition upgrade_fits :: "HERT_MSG_RSP_PUSH_DATA_VARPART_GET_UPDATE \<Rightarrow> bool" where
  "upgrade_fits v = (length (updateUrl v) < 256 \<and> length (updateDescription v) < 256)"

lemmas fits_defs = const_fits_def rsp_fits_def init_fits_def download_fits_def upgrade_fits_def

lemma keeps_req_const: "\<forall>t \<in> set (const_tests :: HERT_MSG_REQ_PUSH_DATA_CONSTPART item_test list).
    keeps const_fits t"
  by (auto simp: keeps_def item_defs const_fits_def rbind_eq_Inr split: if_splits)

lemma keeps_rsp_const: "\<forall>t \<in> set (const_tests @ [error_test, descr_test]). keeps rsp_fits t"
  by (auto simp: keeps_def item_defs fits_defs rbind_eq_Inr split: if_splits)

lemma BodyConstPartRsp_fits:
  "Parse_Msg_BodyConstPartRsp (Some s) (Some c) = Inr c1 \<Longrightarrow> rsp_fits c1"
  using json_loop_keeps [OF keeps_rsp_const] by (simp add: parser_defs zero_rsp_def fits_defs)

lemma BodyConstPartReq_fits:
  "Parse_Msg_BodyConstPartReq (Some s) (Some q) = Inr q1 \<Longrightarrow> const_fits q1"
  using json_loop_keeps [OF keeps_req_const] by (simp add: parser_defs zero_req_def fits_defs)

lemma InitInfoRsp_fits:
  assumes "Parse_Msg_InitInfoRsp (Some s) (Some c) (Some v) p = Inr (c2, v2, p2)"
    and "rsp_fits c" and "init_fits v"
  shows "rsp_fits c2 \<and> init_fits v2"
proof -
  let ?P = "\<lambda>(c, v, p). rsp_fits c \<and> init_fits v"
  have "?P (c2, v2, p2)"
    using assms unfolding parser_defs nonnull_Some
    by (elim json_loop_keeps [where P = ?P, rotated])
       (auto simp: keeps_def item_defs fits_defs rbind_eq_Inr split: if_splits)
  then show ?thesis by simp
qed

lemma DownloadReq_fits:
  assumes "Parse_Msg_DownloadReq (Some s) (Some q) (Some d) = Inr (q3, d3)"
    and "const_fits q" and "download_fits d"
  shows "const_fits q3 \<and> download_fits d3"
proof -
  let ?P = "\<lambda>(c, v). const_fits c \<and> download_fits v"
  have "?P (q3, d3)"
    using assms unfolding parser_defs nonnull_Some
    by (elim json_loop_keeps [where P = ?P, rotated])
       (auto simp: keeps_def item_defs fits_defs rbind_eq_Inr split: if_splits)
  then show ?thesis by simp
qed

lemma GetUpdateRsp_fits:
  assumes "Parse_Msg_GetUpdateRsp (Some s) (Some c) (Some v) = Inr (c2, v2)"
    and "rsp_fits c" and "upgrade_fits v"
  shows "rsp_fits c2 \<and> upgrade_fits v2"
proof -
  let ?P = "\<lambda>(c, v). rsp_fits c \<and> upgrade_fits v"
  have "?P (c2, v2)"
    using assms unfolding parser_defs nonnull_Some
    by (elim json_loop_keeps [where P = ?P, rotated])
       (auto simp: keeps_def item_defs fits_defs rbind_eq_Inr split: if_splits)
  then show ?thesis by simp
qed



section \<open>Values a message must not have\<close>

lemma long_value_loop:
  assumes "STR_QUOTATION \<notin> set n" and "plain_text v" and "128 \<le> length v" and "STR_END1 \<notin> set r"
  shows "json_loop 128 step (CHR ''{'' # str_item n v @ STR_END2 # r) st = Inl (Fault WriteOverflow)"
proof -
  have "ParseJsonString (''{'' @ str_item n v @ STR_END2 # r) = Some (take 127 n, take 255 v, r)"
    using assms by (intro ParseJsonString_str_item) simp_all
  then show ?thesis
    using assms(3) by (subst json_loop.simps) (simp add: strcpy_into_def min_def)
qed

text \<open>
  A value of 128 or more plain characters, under whatever name, overruns the parsers' own
  szItemValue[128]: the platform can overwrite the stack of the router with one long value.
\<close>

theorem long_value_overflows:
  assumes "STR_QUOTATION \<notin> set n" and "plain_text v" and "128 \<le> length v" and "STR_END1 \<notin> set r"
    and "s = CHR ''{'' # str_item n v @ STR_END2 # r"
  shows "Parse_Msg_BodyConstPartRsp (Some s) (Some c) = Inl (Fault WriteOverflow) \<and>
    Parse_Msg_BodyConstPartReq (Some s) (Some q) = Inl (Fault WriteOverflow) \<and>
    Parse_Msg_GetUpdateRsp (Some s) (Some c) (Some u) = Inl (Fault WriteOverflow) \<and>
    Parse_Msg_InitInfoRsp (Some s) (Some c) (Some i) p = Inl (Fault WriteOverflow)"
  by (simp only: parser_defs nonnull_Some assms(5) long_value_loop [OF assms(1-4)] simp_thms)

theorem long_value_overflows_witness:
  "Parse_Msg_BodyConstPartReq
      (Some (CHR ''{'' # str_item ''x'' (replicate 128 (CHR ''a'')) @ ''}'')) (Some zero_req) =
    Inl (Fault WriteOverflow)"
  using long_value_overflows [of "''x''" "replicate 128 (CHR ''a'')" "[]", OF _ _ _ _ refl]
  by (simp add: plain_text_def)

text \<open>
  A string value with a comma ends the parsing: the item and everything behind it are
  ignored, although the message is well-formed JSON.
\<close>

theorem comma_value_stops_parser:
  assumes "STR_QUOTATION \<notin> set pre" and "STR_QUOTATION \<notin> set n"
    and "STR_QUOTATION \<notin> set u" and "STR_END1 \<notin> set u"
  shows "ParseJsonString (pre @ STR_QUOTATION # n @ STR_QUOTATION # STR_SEPRATION
    # STR_QUOTATION # u @ STR_END1 # w) = None"
proof -
  let ?l = "STR_QUOTATION # u @ STR_END1 # w"
  have "value_end ((STR_QUOTATION # u) @ STR_END1 # w) = Some (STR_END1 # w, w)"
    using assms(4) by (simp add: value_end_def)
  then have e: "value_end ?l = Some (STR_END1 # w, w)" by simp
  have "value_span ?l (STR_END1 # w) w = None"
  proof (cases "strchr STR_QUOTATION w")
    case None
    then show ?thesis
      using assms(3) by (simp add: value_span_def strchr_append_skip strchr_None_iff [THEN iffD2])
  next
    case (Some t)
    then have "length t \<le> length w" by (rule strchr_length)
    with Some show ?thesis using assms(3) by (simp add: value_span_def strchr_append_skip)
  qed
  with e show ?thesis using assms(1,2) by (simp add: ParseJsonString_def)
qed

theorem comma_value_stops_parser_witness:
  "ParseJsonString (''{'' @ STR_QUOTATION # ''URL'' @ STR_QUOTATION # STR_SEPRATION
    # STR_QUOTATION # ''http://a/b'' @ STR_END1 # ''c'' @ [STR_QUOTATION] @ ''}'') = None"
  using comma_value_stops_parser [of "''{''" "''URL''" "''http://a/b''"] by simp

section \<open>The msgType of a PUSH_DATA message\<close>

text \<open>The scan stops at the first occurrence of the needle.\<close>

lemma find_msgtype_first:
  assumes "take (length needle) (drop k m) = needle" and "int (k + length needle) < nDataLen"
    and "k + length needle \<le> length m"
    and "\<forall>j. i \<le> j \<and> j < k \<longrightarrow> take (length needle) (drop j m) \<noteq> needle" and "i \<le> k"
  shows "find_msgtype needle m nDataLen i = Inr k"
  using assms(4,5)
proof (induction "k - i" arbitrary: i)
  case 0
  then have "i = k" by simp
  with assms(1-3) show ?case by (subst find_msgtype.simps) simp
next
  case (Suc d)
  then have "i < k" by simp
  with Suc have "find_msgtype needle m nDataLen (Suc i) = Inr k"
    "take (length needle) (drop i m) \<noteq> needle" by simp_all
  then show ?case using assms(2,3) \<open>i < k\<close> by (subst find_msgtype.simps) simp
qed

definition type_item :: "string \<Rightarrow> string" where
  "type_item ty = ''msgType'' @ STR_QUOTATION # STR_SEPRATION # STR_QUOTATION # ty @ [STR_QUOTATION]"

lemma PushData_Type_text:
  assumes "\<forall>j < length h. take 7 (drop j m) \<noteq> bytes_of ''msgType''"
    and "m = h @ bytes_of (type_item ty @ r) @ 0 # z"
    and "STR_QUOTATION \<notin> set ty" and "CHR 0x00 \<notin> set (ty @ r)"
    and "int (length h + 7) < nDataLen"
  shows "Parse_Msg_PushData_Type (Some m) nDataLen (Some n) =
    (if length ty \<le> n then Inr (bytes_of ty @ replicate (n - length ty) 0)
     else Inl (Fault WriteOverflow))"
proof -
  let ?tail = "STR_QUOTATION # STR_SEPRATION # STR_QUOTATION # ty @ STR_QUOTATION # r"
  have m: "m = h @ bytes_of ''msgType'' @ bytes_of ?tail @ 0 # z"
    using assms(2) by (simp add: type_item_def bytes_of_def)
  define N where "N = bytes_of ''msgType''"
  have l: "length N = 7" by (simp add: N_def)
  have m': "m = h @ N @ bytes_of ?tail @ 0 # z" using m by (simp only: N_def)
  have "find_msgtype N m nDataLen 0 = Inr (length h)"
  proof (rule find_msgtype_first)
    show "\<forall>j. 0 \<le> j \<and> j < length h \<longrightarrow> take (length N) (drop j m) \<noteq> N"
      using assms(1) unfolding l unfolding N_def by blast
    show "take (length N) (drop (length h) m) = N" "length h + length N \<le> length m"
      by (simp_all add: m')
    show "int (length h + length N) < nDataLen" using assms(5) by (simp only: l)
  qed simp
  then have f: "find_msgtype (bytes_of ''msgType'') m nDataLen 0 = Inr (length h)"
    by (simp only: N_def)
  have c: "cstr (drop (length h + 7) m) = Some ?tail"
  proof -
    have "drop (length h + 7) m = bytes_of ?tail @ 0 # z"
      unfolding m' l [symmetric] by simp
    moreover have "CHR 0x00 \<notin> set ?tail" using assms(4) by auto
    ultimately show ?thesis by (simp only: cstr_bytes_of not_False_eq_True)
  qed
  have "strstr1 STR_QUOTATION ?tail = Inr ?tail"
    "strstr1 STR_SEPRATION (STR_SEPRATION # STR_QUOTATION # ty @ STR_QUOTATION # r) =
      Inr (STR_SEPRATION # STR_QUOTATION # ty @ STR_QUOTATION # r)"
    "strstr1 STR_QUOTATION (STR_QUOTATION # ty @ STR_QUOTATION # r) =
      Inr (STR_QUOTATION # ty @ STR_QUOTATION # r)"
    "strstr1 STR_QUOTATION (ty @ STR_QUOTATION # r) = Inr (STR_QUOTATION # r)"
    using assms(3) by (simp_all add: strstr1_def)
  moreover have "take (length (ty @ STR_QUOTATION # r) - length (STR_QUOTATION # r)) (ty @ STR_QUOTATION # r) = ty"
    by simp
  moreover have "length (bytes_of ''msgType'') = 7" by simp
  moreover have "int (length h + 7) \<noteq> nDataLen" using assms(5) by simp
  ultimately show ?thesis
    by (simp only: Parse_Msg_PushData_Type_def Let_def f c rbind_Inr list.sel option.case prod.case
        if_False)
qed

text \<open>
  For a message with a msgType item, wherever it stands behind the first occurrence of the
  word msgType, the type is stored with zeros behind it when it fits the caller's array, and is
  written past the array when it is longer: its length comes from the message alone.
\<close>

theorem Parse_Msg_PushData_Type_spec:
  assumes "\<forall>j < length h. take 7 (drop j m) \<noteq> bytes_of ''msgType''"
    and "m = h @ bytes_of (type_item ty @ r) @ 0 # z"
    and "STR_QUOTATION \<notin> set ty" and "CHR 0x00 \<notin> set (ty @ r)"
    and "int (length h + 7) < nDataLen"
  shows "Parse_Msg_PushData_Type (Some m) nDataLen (Some n) =
    (if length ty \<le> n then Inr (bytes_of ty @ replicate (n - length ty) 0)
     else Inl (Fault WriteOverflow))"
  using assms by (rule PushData_Type_text)

theorem Parse_Msg_PushData_Type_spec_witness:
  "Parse_Msg_PushData_Type (Some ([0x30] @ bytes_of (type_item ''PING'' @ ''}'') @ 0 # [])) 30 (Some 6) =
     Inr (bytes_of ''PING'' @ [0, 0]) \<and>
   Parse_Msg_PushData_Type (Some ([0x30] @ bytes_of (type_item ''PING'' @ ''}'') @ 0 # [])) 30 (Some 3) =
     Inl (Fault WriteOverflow)"
proof -
  let ?m = "[0x30] @ bytes_of (type_item ''PING'' @ ''}'') @ 0 # []"
  have "take 7 ?m \<noteq> bytes_of ''msgType''"
    by (simp add: bytes_of_def byte_of_def)
  then have "\<forall>j < length [0x30 :: byte]. take 7 (drop j ?m) \<noteq> bytes_of ''msgType''" by simp
  from Parse_Msg_PushData_Type_spec [OF this refl, where nDataLen = 30 and n = 6]
    Parse_Msg_PushData_Type_spec [OF this refl, where nDataLen = 30 and n = 3]
  show ?thesis by (simp add: replicate_Suc numeral_2_eq_2)
qed

end
