(* ===== verification/MsgList.thy ===== *)
theory MsgList
  imports MsgBuild Base64
begin

text \<open>
  The builders of messages with lists in them (herouteapp/hert_msg.c): Build_Msg_RouteStatusRsp,
  Build_Msg_ConNotifyRsp, Build_Msg_DomainStauteRsp (with hert_des_ecb_crypt of hert_des.c) and
  Build_Msg_AddDownloadMissionRsp.  The first three allocate their output.  The builders write
  the device type into their argument before they print it and free the queues they read; what
  they read back is only what they print, so the model returns the message alone.
\<close>

section \<open>The structs\<close>

record HERT_COM_SUBDEV_BODY =
  devName :: string
  devType :: string
  devID :: string
  mac :: string
  connectTime :: string

record HERT_MSG_RSP_PUSH_DATA_VARPART_STATUS =
  devStatus :: dword
  runStatus :: dword
  downbandwidth :: dword
  broadbandRate :: string
  wifiStatus :: dword
  devNum :: byte
  pDevList :: "HERT_COM_SUBDEV_BODY list"

record FILE_INFO =
  fileID :: string
  fileName :: string
  fileType :: string
  fileStatus :: dword
  fileSize :: dword
  fileAddress :: string
  fileCompleteSize :: dword

record DOWNLOAD_MISSION =
  missionID :: string
  missionName :: string
  missionType :: string
  missionStatus :: dword
  missionSize :: dword
  missionCurSpeed :: dword
  missionCompleteSize :: dword
  missionEndTime :: string
  missionDuration :: string
  dlFileNum :: dword
  pFileList :: "FILE_INFO list"

record HERT_MSG_RSP_PUSH_DATA_VARPART_ADD_DOWNLOAD_MISSION =
  missionNum :: byte
  pMissionInfo :: "DOWNLOAD_MISSION list"

record flow_type_queue =
  flow_length :: ddword
  flow_devinfo :: HERT_COM_SUBDEV_BODY

record domain_info =
  dom_domain :: "byte list"
  dom_time :: int

record dev_index_type =
  num :: int
  ip :: dword
  devinfo :: HERT_COM_SUBDEV_BODY
  domain_queue :: "domain_info list"

section \<open>Loops over lists\<close>

text \<open>
  A counted loop over an array: more rounds than elements read past its end.  The flag is
  \<open>i == 0\<close>.
\<close>

fun loop_steps :: "(bool \<Rightarrow> 'a \<Rightarrow> string \<Rightarrow> cerr + string) \<Rightarrow> bool \<Rightarrow> nat \<Rightarrow> 'a list \<Rightarrow> string
    \<Rightarrow> cerr + string" where
  "loop_steps body first 0 xs J = Inr J"
| "loop_steps body first (Suc k) [] J = Inl (Fault ReadOverrun)"
| "loop_steps body first (Suc k) (x # xs) J =
     rbind (body first x J) (loop_steps body False k xs)"

text \<open>The upper bound of a loop with a DWORD counter over a signed char.\<close>

definition dword_of_char :: "byte \<Rightarrow> nat" where
  "dword_of_char b = unat (scast b :: dword)"

text \<open>The strstr chain that prints a device type from the device name.\<close>

definition devType_of :: "string \<Rightarrow> string" where
  "devType_of n =
     (if strstr n ''android'' \<noteq> None then ''1''
      else if strstr n ''iPhone'' \<noteq> None then ''2''
      else if strstr n ''Mac'' \<noteq> None then ''3''
      else if strstr n ''PC'' \<noteq> None \<or> strstr n ''WINDOWS'' \<noteq> None then ''4''
      else if strstr n ''iPad'' \<noteq> None then ''5''
      else ''0'')"

text \<open>
  The common end of the builders that allocate their output: 256 bytes more than option and body.
\<close>

definition push_alloc :: "(nat \<Rightarrow> bool) \<Rightarrow> HERT_MSG_OPTION_PUSH_DATA \<Rightarrow> string \<Rightarrow> cerr + byte list" where
  "push_alloc mem opt szJson =
     (let buffsize = nat ((option_length opt + int (length szJson) + 256) mod 2 ^ 32) in
      if \<not> mem buffsize then Inl (Ret RETCODE_NO_MEMORY)
      else rbind (push_bytes opt szJson) (write_msg buffsize))"

text \<open>\<open>,"name":[\<close>, in the four pieces of the source.\<close>

definition list_head :: "string \<Rightarrow> jstep list" where
  "list_head name = [AddStr [STR_END1, STR_QUOTATION], AddStr name, AddStr [STR_QUOTATION, STR_SEPRATION],
     AddStr ''['']"

section \<open>Build_Msg_RouteStatusRsp\<close>

text \<open>
  The name of a device is added with a size test and snprintf of "%s", which is ADD_STR_TO_JSON
  of a text without directives.
\<close>

definition status_dev_steps :: "int \<Rightarrow> bool \<Rightarrow> HERT_COM_SUBDEV_BODY \<Rightarrow> jstep list" where
  "status_dev_steps isSendRequest first d =
     [AddStr (if first then ''{'' else '',{''),
      AddStr (FORMAT_JSON_ITEM_STR ''devName'' (devName d)),
      AddItem (FORMAT_JSON_ITEM_STR ''devType'' (devType_of (devName d))),
      AddItem (FORMAT_JSON_ITEM_STR ''devID'' (devID d)),
      AddItem (FORMAT_JSON_ITEM_STR (if isSendRequest = 0 then ''mac'' else ''Mac'') (mac d)),
      AddItem (FORMAT_JSON_ITEM_STR ''ConnectTime'' (connectTime d)),
      AddStr ''}'']"

definition status_head_steps :: "int \<Rightarrow> HERT_MSG_RSP_PUSH_DATA_CONSTPART
    \<Rightarrow> HERT_MSG_RSP_PUSH_DATA_VARPART_STATUS \<Rightarrow> jstep list" where
  "status_head_steps isSendRequest c v =
     (if isSendRequest = 0 then rsp_const_steps c else req_const_steps c) @
     [AddItem (FORMAT_JSON_ITEM_LNG ''devStatus'' (devStatus v)),
      AddItem (FORMAT_JSON_ITEM_LNG ''runStatus'' (runStatus v)),
      AddItem (FORMAT_JSON_ITEM_LNG ''downbandwidth'' (downbandwidth v)),
      AddItem (FORMAT_JSON_ITEM_STR ''broadbandRate'' (broadbandRate v)),
      AddItem (FORMAT_JSON_ITEM_LNG ''wifiStatus'' (wifiStatus v))] @ list_head ''subDevList''"

definition status_size :: "HERT_MSG_RSP_PUSH_DATA_VARPART_STATUS \<Rightarrow> nat" where
  "status_size v = nat ((256 + sint (devNum v) * 160) mod 2 ^ 32)"

definition Build_Msg_RouteStatusRsp ::
  "(nat \<Rightarrow> bool) \<Rightarrow> HERT_MSG_OPTION_PUSH_DATA option \<Rightarrow> HERT_MSG_RSP_PUSH_DATA_CONSTPART option
    \<Rightarrow> HERT_MSG_RSP_PUSH_DATA_VARPART_STATUS option \<Rightarrow> int \<Rightarrow> cerr + byte list" where
  "Build_Msg_RouteStatusRsp mem ptMsgOption ptMsgConstBody ptMsgVarBody isSendRequest =
     nonnull ptMsgOption (\<lambda>opt. nonnull ptMsgConstBody (\<lambda>c. nonnull ptMsgVarBody (\<lambda>v.
       (let nJsonSize = status_size v in
        json_message mem nJsonSize (status_head_steps isSendRequest c v) (\<lambda>J.
          rbind (loop_steps (\<lambda>first d. json_steps nJsonSize (status_dev_steps isSendRequest first d))
                   True (dword_of_char (devNum v)) (pDevList v) J) (\<lambda>J.
          rbind (json_steps nJsonSize [AddStr '']'', AddStr ''}''] J) (push_alloc mem opt)))))))"

section \<open>Build_Msg_ConNotifyRsp\<close>

text \<open>
  The queue behind the head element.  \<open>traffic\<close> is the C library's "%0.3lf" of a number of
  bytes in units of 1024 * 1024.
\<close>

definition flow_steps :: "(ddword \<Rightarrow> string) \<Rightarrow> bool \<Rightarrow> flow_type_queue \<Rightarrow> jstep list" where
  "flow_steps traffic first q = (let d = flow_devinfo q in
     [AddStr (if first then ''{'' else '',{''),
      AddStr (FORMAT_JSON_ITEM_STR ''devName'' (devName d)),
      AddItem (FORMAT_JSON_ITEM_STR ''devType'' (devType_of (devName d))),
      AddItem (FORMAT_JSON_ITEM_STR ''devID'' (devID d)),
      AddItem (FORMAT_JSON_ITEM_STR ''Mac'' (mac d)),
      AddItem (FORMAT_JSON_ITEM_STR ''connectTime'' (connectTime d)),
      AddItem (FORMAT_JSON_ITEM_STR ''dataTraffic'' (traffic (flow_length q))),
      AddStr ''}''])"

definition Build_Msg_ConNotifyRsp ::
  "(nat \<Rightarrow> bool) \<Rightarrow> (ddword \<Rightarrow> string) \<Rightarrow> HERT_MSG_OPTION_PUSH_DATA option
    \<Rightarrow> HERT_MSG_RSP_PUSH_DATA_CONSTPART option \<Rightarrow> flow_type_queue list option \<Rightarrow> cerr + byte list" where
  "Build_Msg_ConNotifyRsp mem traffic ptMsgOption ptMsgConstBody ptMsgVarBody =
     nonnull ptMsgOption (\<lambda>opt. nonnull ptMsgConstBody (\<lambda>c. nonnull ptMsgVarBody (\<lambda>queue.
       json_message mem (256 + 1024) (req_const_steps c @ list_head ''subDevConnectionList'') (\<lambda>J.
         rbind (loop_steps (\<lambda>first q. json_steps (256 + 1024) (flow_steps traffic first q))
                  True (length queue) queue J) (\<lambda>J.
         rbind (json_steps (256 + 1024) [AddStr '']'', AddStr ''}''] J) (push_alloc mem opt))))))"

section \<open>Domain encryption\<close>

text \<open>
  hert_des_ecb_crypt of hert_des.c.  libdes is not part of the program: \<open>key_ok\<close> is whether
  des_key_sched accepts the key, \<open>block\<close> what des_ecb_encrypt makes of eight bytes under it.
\<close>

function des_blocks :: "(byte list \<Rightarrow> byte list) \<Rightarrow> byte list \<Rightarrow> byte list" where
  "des_blocks block xs = (if xs = [] then [] else block (take 8 xs) @ des_blocks block (drop 8 xs))"
  by pat_completeness auto
termination
  by (relation "measure (\<lambda>(block, xs). length xs)") auto

declare des_blocks.simps [simp del]

text \<open>None is the return value -1; the first \<open>size\<close> bytes of the buffer are replaced.\<close>

definition hert_des_ecb_crypt ::
  "bool \<Rightarrow> (byte list \<Rightarrow> byte list) \<Rightarrow> byte list \<Rightarrow> nat \<Rightarrow> byte list option" where
  "hert_des_ecb_crypt key_ok block cbc_in size' =
     (if \<not> key_ok then None
      else if size' mod 8 \<noteq> 0 then None
      else Some (des_blocks block (take size' cbc_in) @ drop size' cbc_in))"

text \<open>\<open>line\<close> is what fgets got from the nvram_get command, None when it failed.\<close>

definition hertUtil_isEncryptoDomin :: "string option \<Rightarrow> int" where
  "hertUtil_isEncryptoDomin line = (case line of
       None \<Rightarrow> - 1
     | Some tmp \<Rightarrow> if strstr tmp ''OPEN'' = None then - 1 else 0)"

section \<open>Build_Msg_DomainStauteRsp\<close>

definition DOMAIN_SIZE :: nat where "DOMAIN_SIZE = 250"

text \<open>
  The text of one domain name.  A nonzero result of hertUtil_isEncryptoDomin leads to
  encryption, over a length rounded up to whole blocks, which may reach behind the array.
\<close>

definition domain_text :: "string option \<Rightarrow> bool \<Rightarrow> (byte list \<Rightarrow> byte list) \<Rightarrow> byte list \<Rightarrow> cerr + string" where
  "domain_text line key_ok block arr = (case cstr arr of
       None \<Rightarrow> Inl (Fault ReadOverrun)
     | Some name \<Rightarrow>
         if hertUtil_isEncryptoDomin line \<noteq> 0 then
           (let len = length name;
                rel_len = (if 0 < len mod 8 then (len div 8 + 1) * 8 else len)
            in if DOMAIN_SIZE < len then Inl (Ret (RETCODE_MINUS 1))
               else if length arr < rel_len then Inl (Fault WriteOverflow)
               else (case hert_des_ecb_crypt key_ok block arr rel_len of
                   None \<Rightarrow> Inl (Ret (RETCODE_MINUS 1))
                 | Some arr' \<Rightarrow>
                     rbind (hertUtil_base64_encode (Some arr') rel_len (Some []) (Some DOMAIN_SIZE))
                       (\<lambda>(ret, buf, outlen). case (buf, outlen) of
                            (Some b, Some n) \<Rightarrow>
                              if n = 0 \<or> DOMAIN_SIZE \<le> n then Inl (Ret (RETCODE_MINUS 1)) else Inr b
                          | _ \<Rightarrow> Inl (Ret (RETCODE_MINUS 1)))))
         else Inr name)"

text \<open>\<open>date\<close> is localtime and "%04d%02d%02d%02d%02d%02d" of a time.\<close>

definition domain_step ::
  "nat \<Rightarrow> (byte list \<Rightarrow> cerr + string) \<Rightarrow> (int \<Rightarrow> string) \<Rightarrow> bool \<Rightarrow> domain_info \<Rightarrow> string \<Rightarrow> cerr + string" where
  "domain_step nJsonSize text_of date first q J =
     rbind (json_steps nJsonSize [AddStr (if first then ''{'' else '',{'')] J) (\<lambda>J.
     rbind (text_of (dom_domain q)) (\<lambda>txt.
       json_steps nJsonSize
         [AddStr (FORMAT_JSON_ITEM_STR ''domain'' txt),
          AddItem (FORMAT_JSON_ITEM_STR ''accessTime'' (date (dom_time q))),
          AddStr ''}''] J))"

text \<open>sizeof(struct domain_info) is 264, sizeof(HERT_COM_SUBDEV_BODY) is 272.\<close>

definition domain_size :: "dev_index_type \<Rightarrow> nat" where
  "domain_size v = nat ((256 + num v * 264 * 2 + 272) mod 2 ^ 32)"

definition domain_head_steps :: "(dword \<Rightarrow> string) \<Rightarrow> ('a HERT_MSG_REQ_PUSH_DATA_CONSTPART_scheme)
    \<Rightarrow> dev_index_type \<Rightarrow> jstep list" where
  "domain_head_steps inet_ntoa c v = (let d = devinfo v in
     req_const_steps c @ list_head ''subDevDomainnameList'' @
     [AddStr ''{'',
      AddFmt (FORMAT_JSON_ITEM_STR ''devName'' (devName d)),
      AddItem (FORMAT_JSON_ITEM_STR ''devType'' (devType_of (devName d))),
      AddItem (FORMAT_JSON_ITEM_STR ''devID'' (devID d)),
      AddItem (FORMAT_JSON_ITEM_STR ''Mac'' (mac d)),
      AddItem (FORMAT_JSON_ITEM_STR ''devIP'' (inet_ntoa (ip v)))] @ list_head ''domainnameList'')"

definition Build_Msg_DomainStauteRsp ::
  "(nat \<Rightarrow> bool) \<Rightarrow> (dword \<Rightarrow> string) \<Rightarrow> (int \<Rightarrow> string) \<Rightarrow> (byte list \<Rightarrow> cerr + string)
    \<Rightarrow> HERT_MSG_OPTION_PUSH_DATA option \<Rightarrow> HERT_MSG_RSP_PUSH_DATA_CONSTPART option
    \<Rightarrow> dev_index_type option \<Rightarrow> cerr + byte list" where
  "Build_Msg_DomainStauteRsp mem inet_ntoa date text_of ptMsgOption ptMsgConstBody ptMsgVarBody =
     nonnull ptMsgOption (\<lambda>opt. nonnull ptMsgConstBody (\<lambda>c. nonnull ptMsgVarBody (\<lambda>v.
       if num v = 0 then Inl (Ret (RETCODE_MINUS 1))
       else (let nJsonSize = domain_size v in
         json_message mem nJsonSize (domain_head_steps inet_ntoa c v) (\<lambda>J.
           rbind (loop_steps (domain_step nJsonSize text_of date) True
                    (length (domain_queue v)) (domain_queue v) J) (\<lambda>J.
           rbind (json_steps nJsonSize [AddStr '']'', AddStr ''}'', AddStr '']'', AddStr ''}''] J)
             (push_alloc mem opt)))))))"

section \<open>Build_Msg_AddDownloadMissionRsp\<close>

definition file_steps :: "bool \<Rightarrow> FILE_INFO \<Rightarrow> jstep list" where
  "file_steps first f =
     (if first then [AddStr ''{''] else []) @
     [AddItem (FORMAT_JSON_ITEM_STR ''fileID'' (fileID f)),
      AddItem (FORMAT_JSON_ITEM_STR ''fileName'' (fileName f)),
      AddItem (FORMAT_JSON_ITEM_STR ''fileType'' (fileType f)),
      AddItem (FORMAT_JSON_ITEM_LNG ''fileStatus'' (fileStatus f)),
      AddItem (FORMAT_JSON_ITEM_LNG ''fileSize'' (fileSize f)),
      AddItem (FORMAT_JSON_ITEM_STR ''fileAddress'' (fileAddress f)),
      AddItem (FORMAT_JSON_ITEM_LNG ''fileStatus'' (fileStatus f))]"

definition mission_step :: "nat \<Rightarrow> bool \<Rightarrow> DOWNLOAD_MISSION \<Rightarrow> string \<Rightarrow> cerr + string" where
  "mission_step nJsonSize first m J =
     rbind (json_steps nJsonSize
       ((if first then [AddStr ''{''] else []) @
        [AddItem (FORMAT_JSON_ITEM_STR ''missionID'' (missionID m)),
         AddItem (FORMAT_JSON_ITEM_STR ''missionName'' (missionName m)),
         AddItem (FORMAT_JSON_ITEM_STR ''missionType'' (missionType m)),
         AddItem (FORMAT_JSON_ITEM_LNG ''missionStatus'' (missionStatus m)),
         AddItem (FORMAT_JSON_ITEM_LNG ''missionSize'' (missionSize m)),
         AddStr ''['',
         AddItem (FORMAT_JSON_ITEM_LNG ''missionCurSpeed'' (missionCurSpeed m)),
         AddItem (FORMAT_JSON_ITEM_LNG ''missionCompleteSize'' (missionCompleteSize m)),
         AddItem (FORMAT_JSON_ITEM_STR ''missionEndTime'' (missionEndTime m)),
         AddItem (FORMAT_JSON_ITEM_STR ''missionDuration'' (missionDuration m)),
         AddItem (FORMAT_JSON_ITEM_LNG ''dlFileNum'' (dlFileNum m))]) J) (\<lambda>J.
     rbind (loop_steps (\<lambda>first f. json_steps nJsonSize (file_steps first f)) True
              (unat (dlFileNum m)) (pFileList m) J)
       (json_steps nJsonSize [AddStr '']'', AddStr ''}'']))"

text \<open>The size counts four bytes, the size of a pointer, per mission.\<close>

definition Build_Msg_AddDownloadMissionRsp ::
  "(nat \<Rightarrow> bool) \<Rightarrow> nat option \<Rightarrow> unit option \<Rightarrow> HERT_MSG_OPTION_PUSH_DATA option
    \<Rightarrow> HERT_MSG_RSP_PUSH_DATA_CONSTPART option
    \<Rightarrow> HERT_MSG_RSP_PUSH_DATA_VARPART_ADD_DOWNLOAD_MISSION option \<Rightarrow> cerr + byte list" where
  "Build_Msg_AddDownloadMissionRsp mem ptMsg nDataLen ptMsgOption ptMsgConstBody ptMsgVarBody =
     nonnull ptMsg (\<lambda>buffsize. nonnull nDataLen (\<lambda>_. nonnull ptMsgOption (\<lambda>opt.
     nonnull ptMsgConstBody (\<lambda>c. nonnull ptMsgVarBody (\<lambda>v.
       (let nJsonSize = nat ((512 + sint (missionNum v) * 4) mod 2 ^ 32) in
        json_message mem nJsonSize
          (rsp_const_steps c @
           [AddStr [STR_END1, STR_QUOTATION], AddStr ''missionInfo'', AddStr [STR_QUOTATION, STR_SEPRATION]])
          (\<lambda>J. rbind (loop_steps (mission_step nJsonSize) True (dword_of_char (missionNum v))
                       (pMissionInfo v) J) (\<lambda>J.
               rbind (json_steps nJsonSize [AddStr ''}''] J) (push_into buffsize opt)))))))))"

lemmas list_builder_defs = Build_Msg_RouteStatusRsp_def Build_Msg_ConNotifyRsp_def
  Build_Msg_DomainStauteRsp_def Build_Msg_AddDownloadMissionRsp_def

declare list_builder_defs [model_defs] push_alloc_def [model_defs] status_dev_steps_def [model_defs]
  status_head_steps_def [model_defs] flow_steps_def [model_defs] domain_text_def [model_defs]
  domain_step_def [model_defs] domain_head_steps_def [model_defs] file_steps_def [model_defs]
  mission_step_def [model_defs] list_head_def [model_defs] devType_of_def [model_defs]

section \<open>The text of a message with a list\<close>

text \<open>What steps append to a text that has begun, when there is room.\<close>

fun step_text :: "jstep \<Rightarrow> string" where
  "step_text (AddItem i) = STR_END1 # i"
| "step_text (AddStr s) = s"
| "step_text (AddFmt s) = s"

definition steps_text :: "jstep list \<Rightarrow> string" where
  "steps_text xs = concat (map step_text xs)"

lemma steps_text_simps [simp]:
  "steps_text [] = []" "steps_text (x # xs) = step_text x @ steps_text xs"
  "steps_text (xs @ ys) = steps_text xs @ steps_text ys"
  by (simp_all add: steps_text_def)

definition no_format :: "jstep list \<Rightarrow> bool" where
  "no_format xs = (\<forall>s. AddFmt s \<notin> set xs)"

lemma json_step_fit:
  assumes "J \<noteq> []" and "length J + length (step_text x) < n" and "\<forall>s. x \<noteq> AddFmt s"
  shows "json_step n x J = Inr (J @ step_text x)"
  using assms by (cases x) (simp_all add: ADD_ITEM_TO_JSON_def ADD_STR_TO_JSON_def)

lemma json_steps_fit:
  "J \<noteq> [] \<Longrightarrow> no_format xs \<Longrightarrow> length J + length (steps_text xs) < n \<Longrightarrow>
    json_steps n xs J = Inr (J @ steps_text xs)"
proof (induction xs arbitrary: J)
  case Nil
  then show ?case by simp
next
  case (Cons x xs)
  have "json_step n x J = Inr (J @ step_text x)"
    using Cons.prems by (intro json_step_fit) (auto simp: no_format_def)
  moreover have "json_steps n xs (J @ step_text x) = Inr ((J @ step_text x) @ steps_text xs)"
    using Cons.prems by (intro Cons.IH) (auto simp: no_format_def)
  ultimately show ?case by simp
qed

text \<open>A loop of such steps over exactly the elements of a list.\<close>

fun loop_text :: "(bool \<Rightarrow> 'a \<Rightarrow> jstep list) \<Rightarrow> bool \<Rightarrow> 'a list \<Rightarrow> string" where
  "loop_text f first [] = []"
| "loop_text f first (x # xs) = steps_text (f first x) @ loop_text f False xs"

lemma loop_steps_fit:
  assumes "\<And>b x. no_format (f b x)"
  shows "J \<noteq> [] \<Longrightarrow> length J + length (loop_text f first xs) < n \<Longrightarrow>
    loop_steps (\<lambda>b x. json_steps n (f b x)) first (length xs) xs J = Inr (J @ loop_text f first xs)"
proof (induction xs arbitrary: J first)
  case Nil
  then show ?case by simp
next
  case (Cons x xs)
  then have "json_steps n (f first x) J = Inr (J @ steps_text (f first x))"
    using assms by (intro json_steps_fit) simp_all
  moreover have "loop_steps (\<lambda>b x. json_steps n (f b x)) False (length xs) xs (J @ steps_text (f first x)) =
      Inr ((J @ steps_text (f first x)) @ loop_text f False xs)"
    using Cons by simp
  ultimately show ?case by simp
qed

text \<open>The first item opens the object.\<close>

lemma json_steps_open:
  assumes "no_format xs" and "length i + length (steps_text xs) + 1 < n"
  shows "json_steps n (AddItem i # xs) [] = Inr (CHR ''{'' # i @ steps_text xs)"
proof -
  have "json_step n (AddItem i) [] = Inr (CHR ''{'' # i)"
    using assms(2) by (simp add: ADD_ITEM_TO_JSON_def)
  moreover have "json_steps n xs (CHR ''{'' # i) = Inr ((CHR ''{'' # i) @ steps_text xs)"
    using assms by (intro json_steps_fit) simp_all
  ultimately show ?thesis by simp
qed

section \<open>Allocated messages do not overflow\<close>

text \<open>
  A message with a list is sent whole or not at all: its buffer is allocated 256 bytes larger
  than option and body, which always has room for the header.
\<close>

theorem push_alloc_sends:
  assumes "sendable s" and "2 + length s + length J \<le> 16383"
  shows "push_alloc mem (push_option s) J =
    (if mem (2 + length s + length J + 256) then Inr (push_frame s J) else Inl (Ret RETCODE_NO_MEMORY))"
proof -
  have "nat ((option_length (push_option s) + int (length J) + 256) mod 2 ^ 32) =
      2 + length s + length J + 256"
    using assms(2) by (simp add: sendable_length [OF assms(1)] nat_add_distrib)
  moreover have "length (push_frame s J) \<le> 2 + length s + length J + 256"
    using varint_length [OF assms(2)] by (simp add: length_push_frame)
  ultimately show ?thesis
    by (simp only: push_alloc_def Let_def push_bytes_frame [OF assms] rbind_Inr write_msg_def) simp
qed

theorem push_alloc_sends_witness:
  "push_alloc (\<lambda>n. n = 263) (push_option ''dev'') ''{}'' = Inr (push_frame ''dev'' ''{}'')"
  using push_alloc_sends [of "''dev''" "''{}''" "\<lambda>n. n = 263"] by (simp add: sendable_def)

section \<open>The status message\<close>

text \<open>The head without its opening item, and the whole body.\<close>

definition status_body :: "int \<Rightarrow> HERT_MSG_RSP_PUSH_DATA_CONSTPART
    \<Rightarrow> HERT_MSG_RSP_PUSH_DATA_VARPART_STATUS \<Rightarrow> string" where
  "status_body r c v = CHR ''{'' # FORMAT_JSON_ITEM_LNG ''version'' (version c)
     @ steps_text (tl (status_head_steps r c v))
     @ loop_text (status_dev_steps r) True (pDevList v) @ '']}''"

lemma status_head_cons:
  "status_head_steps r c v =
    AddItem (FORMAT_JSON_ITEM_LNG ''version'' (version c)) # tl (status_head_steps r c v)"
  by (simp add: status_head_steps_def rsp_const_steps_def req_const_steps_def)

lemma status_no_format: "no_format (tl (status_head_steps r c v))" "no_format (status_dev_steps r b d)"
  by (auto simp: no_format_def status_head_steps_def status_dev_steps_def rsp_const_steps_def
      req_const_steps_def list_head_def)

text \<open>
  The status message lists every device once, in order, each with the type derived from its
  name, between the items of the router and the closing brackets, and is sent whenever the text
  fits the 256 bytes and 160 per device the builder allocates for it; the mac goes under the name
  mac in an answer and Mac in a report, and only an answer has errorCode and description.
\<close>

theorem Build_Msg_RouteStatusRsp_sends:
  assumes "sendable s" and "length (pDevList v) = dword_of_char (devNum v)"
    and "length (status_body r c v) < status_size v"
    and "2 + length s + length (status_body r c v) \<le> 16383" and "\<forall>n. mem n"
  shows "Build_Msg_RouteStatusRsp mem (Some (push_option s)) (Some c) (Some v) r =
    Inr (push_frame s (status_body r c v))"
proof -
  let ?n = "status_size v"
  let ?J1 = "CHR ''{'' # FORMAT_JSON_ITEM_LNG ''version'' (version c) @ steps_text (tl (status_head_steps r c v))"
  let ?J2 = "?J1 @ loop_text (status_dev_steps r) True (pDevList v)"
  have body: "status_body r c v = ?J2 @ '']}''" by (simp add: status_body_def)
  have "json_steps ?n (AddItem (FORMAT_JSON_ITEM_LNG ''version'' (version c))
      # tl (status_head_steps r c v)) [] = Inr ?J1"
    using assms(3) body status_no_format by (intro json_steps_open) simp_all
  then have "json_steps ?n (status_head_steps r c v) [] = Inr ?J1"
    by (simp only: status_head_cons [symmetric])
  moreover have "loop_steps (\<lambda>b d. json_steps ?n (status_dev_steps r b d)) True
      (dword_of_char (devNum v)) (pDevList v) ?J1 = Inr ?J2"
    unfolding assms(2) [symmetric] using assms(3) body status_no_format
    by (intro loop_steps_fit) simp_all
  moreover have "json_steps ?n [AddStr '']'', AddStr ''}''] ?J2 = Inr (status_body r c v)"
    using assms(3) body by (subst json_steps_fit) (simp_all add: no_format_def)
  moreover have "push_alloc mem (push_option s) (status_body r c v) =
      Inr (push_frame s (status_body r c v))"
    using assms(4,5) varint_length [OF assms(4)] length_push_frame [of s "status_body r c v"]
      push_bytes_frame [OF assms(1,4)] sendable_length [OF assms(1)]
    by (simp add: push_alloc_def write_msg_def nat_add_distrib)
  ultimately show ?thesis
    using assms(5)
    by (simp only: Build_Msg_RouteStatusRsp_def nonnull_Some Let_def json_message_def rbind_Inr
        simp_thms if_False)
qed

lemma FORMAT_length: "length (FORMAT_JSON_ITEM_STR a v) \<le> 127" "length (FORMAT_JSON_ITEM_LNG a w) \<le> 127"
  by (simp_all add: FORMAT_JSON_ITEM_STR_def FORMAT_JSON_ITEM_LNG_def snprintf_into_def)

lemma FORMAT_STR_length: "length (FORMAT_JSON_ITEM_STR a v) \<le> length a + length v + 5"
  by (simp add: FORMAT_JSON_ITEM_STR_def snprintf_into_def str_item_def)

lemma FORMAT_LNG_length: "length (FORMAT_JSON_ITEM_LNG a w) \<le> length a + 14"
  using show_dword_length [of w]
  by (simp add: FORMAT_JSON_ITEM_LNG_def snprintf_into_def num_item_def)

lemma devType_length: "length (devType_of n) = 1"
  by (simp add: devType_of_def)

lemma dword_of_char_1: "dword_of_char 1 = 1"
  by (simp add: dword_of_char_def)

theorem Build_Msg_RouteStatusRsp_sends_witness:
  "Build_Msg_RouteStatusRsp (\<lambda>_. True) (Some (push_option ''dev''))
      (Some \<lparr>version = 16, msgType = ''STATUS'', msgSeq = ''9'', errorCode = 0, description = []\<rparr>)
      (Some \<lparr>devStatus = 0, runStatus = 0, downbandwidth = 0, broadbandRate = ''1'', wifiStatus = 1,
        devNum = 1, pDevList = [\<lparr>devName = ''iPad'', devType = [], devID = ''1'', mac = ''00'',
          connectTime = ''5''\<rparr>]\<rparr>) 1 =
    Inr (push_frame ''dev'' (status_body 1
      \<lparr>version = 16, msgType = ''STATUS'', msgSeq = ''9'', errorCode = 0, description = []\<rparr>
      \<lparr>devStatus = 0, runStatus = 0, downbandwidth = 0, broadbandRate = ''1'', wifiStatus = 1,
        devNum = 1, pDevList = [\<lparr>devName = ''iPad'', devType = [], devID = ''1'', mac = ''00'',
          connectTime = ''5''\<rparr>]\<rparr>))"
proof -
  let ?d = "\<lparr>devName = ''iPad'', devType = [], devID = ''1'', mac = ''00'', connectTime = ''5''\<rparr>"
  let ?v = "\<lparr>devStatus = 0, runStatus = 0, downbandwidth = 0, broadbandRate = ''1'', wifiStatus = 1,
        devNum = 1, pDevList = [?d]\<rparr>"
  let ?c = "\<lparr>version = 16, msgType = ''STATUS'', msgSeq = ''9'', errorCode = 0, description = []\<rparr>"
  have "length (status_body 1 ?c ?v) \<le> 400"
    using FORMAT_LNG_length [of "''version''" "16"] FORMAT_STR_length [of "''msgType''" "''STATUS''"]
      FORMAT_STR_length [of "''msgSeq''" "''9''"] FORMAT_LNG_length [of "''devStatus''" 0]
      FORMAT_LNG_length [of "''runStatus''" 0] FORMAT_LNG_length [of "''downbandwidth''" 0]
      FORMAT_STR_length [of "''broadbandRate''" "''1''"] FORMAT_LNG_length [of "''wifiStatus''" 1]
      FORMAT_STR_length [of "''devName''" "''iPad''"] FORMAT_STR_length [of "''devType''" "devType_of ''iPad''"]
      FORMAT_STR_length [of "''devID''" "''1''"] FORMAT_STR_length [of "''Mac''" "''00''"]
      FORMAT_STR_length [of "''ConnectTime''" "''5''"] devType_length [of "''iPad''"]
    by (simp add: status_body_def status_head_steps_def status_dev_steps_def req_const_steps_def
        list_head_def)
  moreover have "status_size ?v = 416" by (simp add: status_size_def)
  ultimately show ?thesis
    by (intro Build_Msg_RouteStatusRsp_sends) (simp_all add: sendable_def dword_of_char_1)
qed

section \<open>Domain names\<close>

lemma des_blocks_length:
  assumes "\<And>b. length b = 8 \<Longrightarrow> length (f b) = 8"
  shows "8 dvd length xs \<Longrightarrow> length (des_blocks f xs) = length xs"
proof (induction "length xs" arbitrary: xs rule: less_induct)
  case less
  show ?case
  proof (cases "xs = []")
    case True
    then show ?thesis by (simp add: des_blocks.simps)
  next
    case False
    with less.prems have "8 \<le> length xs" by (auto dest: dvd_imp_le)
    moreover from this less.prems have "8 dvd length (drop 8 xs)" by simp
    moreover have "length (drop 8 xs) < length xs" using False by simp
    ultimately show ?thesis
      using less.hyps [of "drop 8 xs"] assms by (subst des_blocks.simps) (simp add: False)
  qed
qed

lemma des_blocks_inverse:
  assumes "\<And>b. length b = 8 \<Longrightarrow> length (f b) = 8" and "\<And>b. length b = 8 \<Longrightarrow> g (f b) = b"
  shows "8 dvd length xs \<Longrightarrow> des_blocks g (des_blocks f xs) = xs"
proof (induction "length xs" arbitrary: xs rule: less_induct)
  case less
  show ?case
  proof (cases "xs = []")
    case True
    then show ?thesis by (simp add: des_blocks.simps)
  next
    case False
    with less.prems have l: "8 \<le> length xs" by (auto dest: dvd_imp_le)
    moreover from this less.prems have "8 dvd length (drop 8 xs)" by simp
    moreover have "length (drop 8 xs) < length xs" using False by simp
    ultimately have "des_blocks g (des_blocks f (drop 8 xs)) = drop 8 xs"
      by (intro less.hyps) simp_all
    moreover have "des_blocks f xs = f (take 8 xs) @ des_blocks f (drop 8 xs)"
      using False by (subst des_blocks.simps) simp
    moreover have "length (f (take 8 xs)) = 8" using l by (intro assms(1)) simp
    moreover have "g (f (take 8 xs)) = take 8 xs" using l by (intro assms(2)) simp
    ultimately show ?thesis by (subst des_blocks.simps) auto
  qed
qed



text \<open>
  With encryption of domain names switched to OPEN the names go out in plain text; they are
  encrypted when it is not, because 0 is the answer "encrypt" and the builder tests for nonzero.
\<close>

theorem domain_text_encryption:
  "cstr arr = Some name \<Longrightarrow> domain_text (Some (''OPEN'' @ r)) key_ok block arr = Inr name"
  by (cases r) (simp_all add: domain_text_def hertUtil_isEncryptoDomin_def)

theorem domain_text_encryption_witness:
  "domain_text (Some (''OPEN'' @ [])) True id (bytes_of ''a.b'' @ 0 # []) = Inr ''a.b''"
  by (rule domain_text_encryption, rule cstr_bytes_of) simp

text \<open>
  A device whose name has a percent sign in the part that is printed makes the domain report
  run snprintf over a directive without argument, because the item is used as a format.
\<close>

theorem Build_Msg_DomainStauteRsp_format:
  assumes "CHR ''%'' \<in> set (FORMAT_JSON_ITEM_STR ''devName'' (devName (devinfo v)))"
    and "0 < num v" and "num v < 1000" and "mem (domain_size v)"
  shows "Build_Msg_DomainStauteRsp mem ntoa date text_of (Some opt) (Some c) (Some v) =
    Inl (Fault FormatDirective)"
proof -
  let ?n = "domain_size v"
  let ?i = "FORMAT_JSON_ITEM_LNG ''version'' (version c)"
  let ?xs = "tl (req_const_steps c) @ list_head ''subDevDomainnameList'' @ [AddStr ''{'']"
  let ?J = "CHR ''{'' # ?i @ steps_text ?xs"
  have n: "800 \<le> ?n" using assms(2,3) by (simp add: domain_size_def)
  have "length ?i + length (steps_text ?xs) + 1 \<le> 420"
    using FORMAT_length(2) [of "''version''" "version c"] FORMAT_length(1) [of "''msgType''" "msgType c"]
      FORMAT_length(1) [of "''msgSeq''" "msgSeq c"]
    by (simp add: req_const_steps_def list_head_def)
  then have l: "length ?J \<le> 420" by simp
  have "no_format ?xs" by (auto simp: no_format_def req_const_steps_def list_head_def)
  then have "json_steps ?n (AddItem ?i # ?xs) [] = Inr ?J"
    using n l by (intro json_steps_open) simp_all
  moreover have "json_step ?n (AddFmt (FORMAT_JSON_ITEM_STR ''devName'' (devName (devinfo v)))) ?J =
      Inl (Fault FormatDirective)"
    using assms(1) n l FORMAT_length(1) [of "''devName''" "devName (devinfo v)"]
    by (simp add: ADD_FMT_TO_JSON_def)
  moreover have "\<exists>ys. domain_head_steps ntoa c v = (AddItem ?i # ?xs) @
      AddFmt (FORMAT_JSON_ITEM_STR ''devName'' (devName (devinfo v))) # ys"
    by (simp add: domain_head_steps_def req_const_steps_def Let_def)
  ultimately have "json_steps ?n (domain_head_steps ntoa c v) [] = Inl (Fault FormatDirective)"
    by (auto simp only: json_steps_append json_steps.simps rbind_Inr rbind_Inl)
  then show ?thesis
    using assms(2,4) by (simp add: Build_Msg_DomainStauteRsp_def json_message_def)
qed

theorem Build_Msg_DomainStauteRsp_format_witness:
  "Build_Msg_DomainStauteRsp (\<lambda>_. True) (\<lambda>_. ''10.0.0.2'') (\<lambda>_. ''20150101000000'') (\<lambda>_. Inr [])
      (Some (push_option ''dev''))
      (Some \<lparr>version = 16, msgType = ''D'', msgSeq = ''9'', errorCode = 0, description = []\<rparr>)
      (Some \<lparr>num = 1, ip = 0, devinfo = \<lparr>devName = ''50%'', devType = [], devID = [], mac = [],
        connectTime = []\<rparr>, domain_queue = []\<rparr>) =
    Inl (Fault FormatDirective)"
  by (rule Build_Msg_DomainStauteRsp_format)
     (simp_all add: FORMAT_JSON_ITEM_STR_def str_item_def)

end
