(* ===== verification/Nvram.thy ===== *)
theory Nvram
  imports Prelude
begin

text \<open>
  The configuration store libnvram/nvram_env.c, without CONFIG_KERNEL_NVRAM and
  CONFIG_DUAL_IMAGE: blocks of \<open>name=value\<close> entries kept in a cache and in flash, with a CRC.
  The cache array is modelled by the entries in front of its first free place.  The headers
  nvram.h, nvram_env.h and flash_api.h and the flash device are not part of the tree, so
  MAX_CACHE_ENTRY, crc32, flash_read and flash_write are the fields of \<open>nv_env\<close>, and the locale
  \<open>flash_device\<close> states what the code relies on: a read returns what was last written there.
\<close>

section \<open>State\<close>

record block_t =
  name :: string
  flash_offset :: nat
  flash_max_len :: nat
  valid :: bool
  dirty :: bool
  cache :: "(string \<times> string) list"

record 'm nv_state =
  fb :: "block_t list"
  flash :: 'm

record 'm nv_env =
  MAX_CACHE_ENTRY :: nat
  crc32 :: "byte list \<Rightarrow> dword"
  flash_read :: "'m \<Rightarrow> nat \<Rightarrow> nat \<Rightarrow> byte list"
  flash_write :: "'m \<Rightarrow> nat \<Rightarrow> byte list \<Rightarrow> 'm"

text \<open>The table of blocks; \<open>blk\<close> is ENV_BLK_SIZE.\<close>

definition fb_init :: "nat \<Rightarrow> block_t list" where
  "fb_init blk =
     [\<lparr>name = ''2860'', flash_offset = 0x2000, flash_max_len = blk * 4, valid = False, dirty = False, cache = []\<rparr>,
      \<lparr>name = ''rtdev'', flash_offset = 0x6000, flash_max_len = blk * 2, valid = False, dirty = False, cache = []\<rparr>,
      \<lparr>name = ''cert'', flash_offset = 0x8000, flash_max_len = blk * 2, valid = False, dirty = False, cache = []\<rparr>,
      \<lparr>name = ''wapi'', flash_offset = 0xa000, flash_max_len = blk * 5, valid = False, dirty = False, cache = []\<rparr>]"

text \<open>LIBNV_CHECK_INDEX, and an update of one block.\<close>

definition check_index :: "'m nv_state \<Rightarrow> int \<Rightarrow> bool" where
  "check_index st index = (0 \<le> index \<and> index < int (length (fb st)))"

definition blk :: "'m nv_state \<Rightarrow> int \<Rightarrow> block_t" where
  "blk st index = fb st ! nat index"

definition set_blk :: "'m nv_state \<Rightarrow> int \<Rightarrow> (block_t \<Rightarrow> block_t) \<Rightarrow> 'm nv_state" where
  "set_blk st index f = st\<lparr>fb := (fb st)[nat index := f (blk st index)]\<rparr>"

text \<open>The stored CRC: four bytes, least significant first.\<close>

definition crc_bytes :: "dword \<Rightarrow> byte list" where
  "crc_bytes w = [word_of_nat (unat w), word_of_nat (unat w div 256),
     word_of_nat (unat w div 256 div 256), word_of_nat (unat w div 256 div 256 div 256)]"

definition crc_word :: "byte list \<Rightarrow> dword" where
  "crc_word bs = word_of_nat (unat (bs ! 0) + 256 * (unat (bs ! 1) + 256 * (unat (bs ! 2) + 256 * unat (bs ! 3))))"

section \<open>nvram_init\<close>

abbreviation NUL :: char where "NUL \<equiv> CHR 0x00"
abbreviation EQ :: char where "EQ \<equiv> CHR ''=''"

text \<open>
  The parse loop; its argument is the memory from \<open>p\<close> to the end of the data.  Neither search
  is bounded by that end.
\<close>

fun parse_env :: "nat \<Rightarrow> string \<Rightarrow> fault + (string \<times> string) list" where
  "parse_env 0 p = Inr []"
| "parse_env (Suc k) p =
     (case dropWhile (\<lambda>c. c \<noteq> EQ \<and> c \<noteq> NUL) p of
        [] \<Rightarrow> Inl ReadOverrun
      | q # v \<Rightarrow>
          if q = NUL then Inr []
          else (case dropWhile (\<lambda>c. c \<noteq> NUL) v of
              [] \<Rightarrow> Inl ReadOverrun
            | z # p' \<Rightarrow>
                (let e = (takeWhile (\<lambda>c. c \<noteq> EQ \<and> c \<noteq> NUL) p, takeWhile (\<lambda>c. c \<noteq> NUL) v) in
                 if length p' \<le> 1 then Inr [e]
                 else if hd p' = NUL then Inr [e]
                 else rbind (parse_env k p') (\<lambda>es. Inr (e # es)))))"

definition nvram_init :: "'m nv_env \<Rightarrow> int \<Rightarrow> 'm nv_state \<Rightarrow> fault + 'm nv_state" where
  "nvram_init env index st =
     (if \<not> check_index st index then Inr st
      else if valid (blk st index) then Inr st
      else (let b = blk st index;
                crc = crc_word (flash_read env (flash st) (flash_offset b) 4);
                dat = flash_read env (flash st) (flash_offset b + 4) (flash_max_len b - 4)
            in if crc32 env dat \<noteq> crc then
                 Inr (set_blk st index (\<lambda>b. b\<lparr>valid := True, dirty := False\<rparr>))
               else rbind (parse_env (MAX_CACHE_ENTRY env) (map char_at dat)) (\<lambda>es.
                 Inr (set_blk st index (\<lambda>b. b\<lparr>cache := es @ drop (length es) (cache b),
                   valid := True, dirty := False\<rparr>)))))"

section \<open>nvram_commit\<close>

text \<open>
  The text of the environment: None is the return value -1.  The test against the block size
  does not count the entry that is about to be written.
\<close>

fun env_block :: "nat \<Rightarrow> nat \<Rightarrow> (string \<times> string) list \<Rightarrow> string \<Rightarrow> fault + string option" where
  "env_block max_len len [] acc =
     (if length acc < len then Inr (Some (acc @ replicate (len - length acc) NUL))
      else Inl WriteOverflow)"
| "env_block max_len len ((n, v) # es) acc =
     (if max_len \<le> length acc + 2 then Inr None
      else (let e = n @ EQ # v @ [NUL] in
        if len < length acc + length e then Inl WriteOverflow
        else env_block max_len len es (acc @ e)))"

definition write_block :: "'m nv_env \<Rightarrow> block_t \<Rightarrow> byte list \<Rightarrow> 'm \<Rightarrow> 'm" where
  "write_block env b dat m =
     flash_write env (flash_write env m (flash_offset b) (crc_bytes (crc32 env dat)))
       (flash_offset b + 4) dat"

definition nvram_commit :: "'m nv_env \<Rightarrow> int \<Rightarrow> 'm nv_state \<Rightarrow> fault + int \<times> 'm nv_state" where
  "nvram_commit env index st =
     (if \<not> check_index st index then Inr (- 1, st)
      else rbind (nvram_init env index st) (\<lambda>st.
        (let b = blk st index in
         if \<not> dirty b then Inr (0, st)
         else rbind (env_block (flash_max_len b) (flash_max_len b - 4)
                       (take (MAX_CACHE_ENTRY env) (cache b)) []) (\<lambda>r. case r of
             None \<Rightarrow> Inr (- 1, st)
           | Some t \<Rightarrow> Inr (0, (set_blk st index (\<lambda>b. b\<lparr>dirty := False\<rparr>))
               \<lparr>flash := write_block env b (bytes_of t) (flash st)\<rparr>)))))"

section \<open>nvram_close, nvram_clear\<close>

definition nvram_close :: "'m nv_env \<Rightarrow> int \<Rightarrow> 'm nv_state \<Rightarrow> fault + 'm nv_state" where
  "nvram_close env index st =
     (if \<not> check_index st index then Inr st
      else if \<not> valid (blk st index) then Inr st
      else rbind (if dirty (blk st index) then rbind (nvram_commit env index st) (\<lambda>(r, st). Inr st)
                  else Inr st) (\<lambda>st.
        Inr (set_blk st index (\<lambda>b. b\<lparr>cache := [], valid := False\<rparr>))))"

definition nvram_clear :: "'m nv_env \<Rightarrow> int \<Rightarrow> 'm nv_state \<Rightarrow> fault + int \<times> 'm nv_state" where
  "nvram_clear env index st =
     (if \<not> check_index st index then Inr (- 1, st)
      else rbind (nvram_close env index st) (\<lambda>st.
        (let b = blk st index in
         Inr (0, (set_blk st index (\<lambda>b. b\<lparr>dirty := False\<rparr>))
           \<lparr>flash := write_block env b (replicate (flash_max_len b - 4) 0xFF) (flash st)\<rparr>))))"

section \<open>Reading and writing entries\<close>

fun find_idx :: "string \<Rightarrow> (string \<times> string) list \<Rightarrow> nat \<Rightarrow> nat option" where
  "find_idx n [] i = None"
| "find_idx n (e # es) i = (if n = fst e then Some i else find_idx n es (Suc i))"

definition cache_idx :: "'m nv_env \<Rightarrow> block_t \<Rightarrow> string \<Rightarrow> nat option" where
  "cache_idx env b n = find_idx n (take (MAX_CACHE_ENTRY env) (cache b)) 0"

definition nvram_bufget_mtk :: "'m nv_env \<Rightarrow> int \<Rightarrow> string \<Rightarrow> 'm nv_state \<Rightarrow> fault + string \<times> 'm nv_state" where
  "nvram_bufget_mtk env index n st =
     (if \<not> check_index st index then Inr ('''', st)
      else rbind (nvram_init env index st) (\<lambda>st.
        Inr (case cache_idx env (blk st index) n of
               None \<Rightarrow> ''''
             | Some i \<Rightarrow> snd (cache (blk st index) ! i), st)))"

text \<open>
  The version with four digits of the serial number in it: characters 5, 7, 8 and 9 of
  szRetVer[64] are overwritten, and the result ends at the first NUL.
\<close>

definition patch_version :: "string \<Rightarrow> string \<Rightarrow> string" where
  "patch_version ver sn =
     takeWhile (\<lambda>c. c \<noteq> NUL)
       ((ver @ replicate (64 - length ver) NUL)[5 := sn ! 2, 7 := sn ! 3, 8 := sn ! 4, 9 := sn ! 5])"

definition nvram_get_hertversion ::
  "'m nv_env \<Rightarrow> int \<Rightarrow> string \<Rightarrow> 'm nv_state \<Rightarrow> fault + string \<times> 'm nv_state" where
  "nvram_get_hertversion env index pszOriginVersion st =
     (if 64 \<le> length pszOriginVersion then Inl WriteOverflow
      else rbind (nvram_bufget_mtk env index ''HE_ROUTE_SN'' st) (\<lambda>(sn, st).
        if 128 \<le> length sn then Inl WriteOverflow
        else if length sn \<le> 19 then Inr ('''', st)
        else Inr (patch_version pszOriginVersion sn, st)))"

definition nvram_bufget :: "'m nv_env \<Rightarrow> int \<Rightarrow> string \<Rightarrow> 'm nv_state \<Rightarrow> fault + string \<times> 'm nv_state" where
  "nvram_bufget env index n st =
     (if n = ''HE_ROUTE_VER'' then
        rbind (nvram_bufget_mtk env index n st) (\<lambda>(szOldVer, st).
          if 64 \<le> length szOldVer then Inl WriteOverflow
          else nvram_get_hertversion env index szOldVer st)
      else nvram_bufget_mtk env index n st)"

definition nvram_bufset :: "'m nv_env \<Rightarrow> int \<Rightarrow> string \<Rightarrow> string \<Rightarrow> 'm nv_state \<Rightarrow> fault + int \<times> 'm nv_state" where
  "nvram_bufset env index n v st =
     (if \<not> check_index st index then Inr (- 1, st)
      else rbind (nvram_init env index st) (\<lambda>st.
        (let b = blk st index in
         case cache_idx env b n of
           None \<Rightarrow>
             if MAX_CACHE_ENTRY env \<le> length (cache b) then Inr (- 1, st)
             else Inr (0, set_blk st index (\<lambda>b. b\<lparr>cache := cache b @ [(n, v)], dirty := True\<rparr>))
         | Some i \<Rightarrow>
             Inr (0, set_blk st index (\<lambda>b. b\<lparr>cache := (cache b)[i := (fst (cache b ! i), v)],
               dirty := True\<rparr>)))))"

definition nvram_get :: "'m nv_env \<Rightarrow> int \<Rightarrow> string \<Rightarrow> 'm nv_state \<Rightarrow> fault + string \<times> 'm nv_state" where
  "nvram_get env index n st =
     rbind (nvram_close env index st) (\<lambda>st.
     rbind (nvram_init env index st) (\<lambda>st. nvram_bufget env index n st))"

definition nvram_set :: "'m nv_env \<Rightarrow> int \<Rightarrow> string \<Rightarrow> string \<Rightarrow> 'm nv_state \<Rightarrow> fault + int \<times> 'm nv_state" where
  "nvram_set env index n v st =
     rbind (nvram_bufset env index n v st) (\<lambda>(r, st).
       if r = - 1 then Inr (- 1, st) else nvram_commit env index st)"

text \<open>What nvram_buflist prints.\<close>

definition nvram_buflist :: "'m nv_env \<Rightarrow> int \<Rightarrow> 'm nv_state \<Rightarrow> fault + (string \<times> string) list \<times> 'm nv_state" where
  "nvram_buflist env index st =
     (if \<not> check_index st index then Inr ([], st)
      else rbind (nvram_init env index st) (\<lambda>st.
        Inr (take (MAX_CACHE_ENTRY env) (cache (blk st index)), st)))"

section \<open>The block table\<close>

definition getNvramNum :: "'m nv_state \<Rightarrow> nat" where
  "getNvramNum st = length (fb st)"

definition getNvramOffset :: "int \<Rightarrow> 'm nv_state \<Rightarrow> nat" where
  "getNvramOffset index st = (if check_index st index then flash_offset (blk st index) else 0)"

definition getNvramName :: "int \<Rightarrow> 'm nv_state \<Rightarrow> string option" where
  "getNvramName index st = (if check_index st index then Some (name (blk st index)) else None)"

definition getNvramBlockSize :: "int \<Rightarrow> 'm nv_state \<Rightarrow> nat" where
  "getNvramBlockSize index st = (if check_index st index then flash_max_len (blk st index) else 0)"

text \<open>None is the (unsigned) result -1.\<close>

definition getNvramIndex :: "string \<Rightarrow> 'm nv_state \<Rightarrow> nat option" where
  "getNvramIndex n st = find_idx n (map (\<lambda>b. (name b, '''')) (fb st)) 0"

section \<open>Interfaces\<close>

text \<open>
  A bounded key-value store: what a client of nvram_bufset and nvram_bufget relies on.  A put may
  fail for want of room, but never for a key that is there.
\<close>

locale kv_store =
  fixes get :: "'s \<Rightarrow> 'k \<Rightarrow> 'v option"
    and put :: "'s \<Rightarrow> 'k \<Rightarrow> 'v \<Rightarrow> 's option"
    and inv :: "'s \<Rightarrow> bool"
  assumes put_inv: "inv s \<Longrightarrow> put s k v = Some s' \<Longrightarrow> inv s'"
    and get_put: "inv s \<Longrightarrow> put s k v = Some s' \<Longrightarrow> get s' x = (if x = k then Some v else get s x)"
    and put_known: "inv s \<Longrightarrow> get s k \<noteq> None \<Longrightarrow> put s k v \<noteq> None"
begin

lemma put_again: "inv s \<Longrightarrow> put s k v = Some s' \<Longrightarrow> \<exists>s''. put s' k w = Some s''"
  using get_put [of s k v s' k] put_known [of s' k w] put_inv [of s k v s'] by auto

lemma last_put_wins:
  "inv s \<Longrightarrow> put s k v = Some s1 \<Longrightarrow> put s1 k w = Some s2 \<Longrightarrow>
    get s2 x = (if x = k then Some w else get s x)"
  using get_put [of s k v s1 x] put_inv [of s k v s1] get_put [of s1 k w s2 x] by simp

lemma puts_commute:
  "inv s \<Longrightarrow> k \<noteq> l \<Longrightarrow> put s k v = Some s1 \<Longrightarrow> put s1 l w = Some s2 \<Longrightarrow>
    put s l w = Some s3 \<Longrightarrow> put s3 k v = Some s4 \<Longrightarrow> get s2 x = get s4 x"
  using get_put [of s k v s1 x] get_put [of s1 l w s2 x] get_put [of s l w s3 x]
    get_put [of s3 k v s4 x] put_inv [of s k v s1] put_inv [of s l w s3]
  by (cases "x = k"; cases "x = l") auto

end

text \<open>The flash device.\<close>

locale flash_device =
  fixes env :: "'m nv_env"
  assumes read_len: "length (flash_read env m a n) = n"
    and read_written: "flash_read env (flash_write env m a bs) a (length bs) = bs"
    and read_other: "a + n \<le> b \<or> b + length bs \<le> a \<Longrightarrow>
      flash_read env (flash_write env m b bs) a n = flash_read env m a n"
begin

lemma read_written_eq: "n = length bs \<Longrightarrow> flash_read env (flash_write env m a bs) a n = bs"
  using read_written by simp

end

section \<open>The cache is a key-value store\<close>

definition cache_get :: "nat \<Rightarrow> (string \<times> string) list \<Rightarrow> string \<Rightarrow> string option" where
  "cache_get m c n = (case find_idx n (take m c) 0 of None \<Rightarrow> None | Some i \<Rightarrow> Some (snd (c ! i)))"

definition cache_put :: "nat \<Rightarrow> (string \<times> string) list \<Rightarrow> string \<Rightarrow> string \<Rightarrow> (string \<times> string) list option" where
  "cache_put m c n v = (case find_idx n (take m c) 0 of
       None \<Rightarrow> if m \<le> length c then None else Some (c @ [(n, v)])
     | Some i \<Rightarrow> Some (c[i := (fst (c ! i), v)]))"

lemma find_idx_Some:
  "find_idx n es i = Some j \<Longrightarrow> i \<le> j \<and> j - i < length es \<and> fst (es ! (j - i)) = n
    \<and> (\<forall>k < j - i. fst (es ! k) \<noteq> n)"
proof (induction es arbitrary: i)
  case Nil
  then show ?case by simp
next
  case (Cons e es)
  show ?case
  proof (cases "n = fst e")
    case True
    with Cons.prems show ?thesis by simp
  next
    case False
    with Cons have "Suc i \<le> j" and a: "j - Suc i < length es" "fst (es ! (j - Suc i)) = n"
      "\<forall>k < j - Suc i. fst (es ! k) \<noteq> n" by auto
    then have e: "j - i = Suc (j - Suc i)" by simp
    show ?thesis
    proof (intro conjI allI impI)
      show "i \<le> j" using \<open>Suc i \<le> j\<close> by simp
      show "j - i < length (e # es)" "fst ((e # es) ! (j - i)) = n" using a by (simp_all add: e)
      show "fst ((e # es) ! k) \<noteq> n" if "k < j - i" for k
        using that a(3) False by (cases k) (auto simp: e)
    qed
  qed
qed

lemma find_idx_None: "find_idx n es i = None \<longleftrightarrow> n \<notin> fst ` set es"
  by (induction es arbitrary: i) auto

lemma find_idx_map_of: "(case find_idx n es 0 of None \<Rightarrow> None | Some i \<Rightarrow> Some (snd (es ! i))) = map_of es n"
proof -
  have "(case find_idx n es i of None \<Rightarrow> None | Some j \<Rightarrow> Some (snd (es ! (j - i)))) = map_of es n" for i
  proof (induction es arbitrary: i)
    case Nil
    then show ?case by simp
  next
    case (Cons e es)
    show ?case
    proof (cases "n = fst e")
      case True
      then show ?thesis by simp
    next
      case False
      have "snd ((e # es) ! (j - i)) = snd (es ! (j - Suc i))" if "find_idx n es (Suc i) = Some j" for j
        using find_idx_Some [OF that] by (simp add: nth_Cons')
      with False Cons [of "Suc i"] show ?thesis by (auto split: option.splits)
    qed
  qed
  from this [of 0] show ?thesis by (simp only: minus_nat.diff_0)
qed

lemma cache_get_map_of: "length c \<le> m \<Longrightarrow> cache_get m c n = map_of c n"
  using find_idx_map_of [where n = n and es = c] by (simp add: cache_get_def)

lemma map_of_update_first:
  "find_idx n c 0 = Some i \<Longrightarrow> map_of (c[i := (fst (c ! i), v)]) x = (if x = n then Some v else map_of c x)"
proof -
  assume f: "find_idx n c 0 = Some i"
  from find_idx_Some [OF f] have i: "i < length c" "fst (c ! i) = n" "\<forall>k < i. fst (c ! k) \<noteq> n" by auto
  then have c: "c = take i c @ (c ! i) # drop (Suc i) c" by (simp add: id_take_nth_drop)
  have "n \<notin> fst ` set (take i c)"
    using i(3) by (metis (no_types, lifting) imageE in_set_conv_nth length_take min_less_iff_conj nth_take)
  then have nn: "map_of (take i c) n = None" by (simp add: map_of_eq_None_iff)
  have "c[i := (fst (c ! i), v)] = take i c @ (n, v) # drop (Suc i) c"
    using i by (simp add: upd_conv_take_nth_drop)
  then have "map_of (c[i := (fst (c ! i), v)]) x = ((map_of (drop (Suc i) c))(n \<mapsto> v) ++ map_of (take i c)) x"
    by simp
  moreover have "map_of c x = ((map_of (drop (Suc i) c))(n \<mapsto> snd (c ! i)) ++ map_of (take i c)) x"
    using c i(2) by (metis map_of.simps(2) map_of_append prod.collapse fst_conv snd_conv)
  ultimately show ?thesis using nn by (auto simp: map_add_def split: option.splits)
qed

interpretation cache_store: kv_store "cache_get m" "cache_put m" "\<lambda>c. length c \<le> m" for m :: nat
proof
  fix s s' :: "(string \<times> string) list" and k x v :: string
  assume s: "length s \<le> m" and p: "cache_put m s k v = Some s'"
  show l: "length s' \<le> m" using s p by (auto simp: cache_put_def split: option.splits if_splits)
  show "cache_get m s' x = (if x = k then Some v else cache_get m s x)"
  proof (cases "find_idx k s 0")
    case None
    then have "map_of s k = None" by (simp add: find_idx_None map_of_eq_None_iff)
    with None s p l show ?thesis
      by (auto simp: cache_put_def cache_get_map_of map_add_def split: if_splits option.splits)
  next
    case (Some i)
    with s p l show ?thesis
      by (auto simp: cache_put_def cache_get_map_of map_of_update_first)
  qed
next
  fix s :: "(string \<times> string) list" and k v :: string
  assume "length s \<le> m" and "cache_get m s k \<noteq> None"
  then show "cache_put m s k v \<noteq> None"
    by (auto simp: cache_put_def cache_get_def split: option.splits)
qed

section \<open>The stored form\<close>

text \<open>Entries whose names and values the stored form can hold.\<close>

definition clean :: "(string \<times> string) list \<Rightarrow> bool" where
  "clean es = (\<forall>(n, v) \<in> set es. EQ \<notin> set n \<and> NUL \<notin> set n \<and> NUL \<notin> set v)"

definition env_text :: "(string \<times> string) list \<Rightarrow> string" where
  "env_text es = concat (map (\<lambda>(n, v). n @ EQ # v @ [NUL]) es)"

lemma env_text_simps [simp]: "env_text [] = []" "env_text ((n, v) # es) = n @ EQ # v @ NUL # env_text es"
  by (simp_all add: env_text_def)

lemma env_block_Some:
  "env_block mx len es acc = Inr (Some t) \<Longrightarrow>
    \<exists>k. t = acc @ env_text es @ replicate (Suc k) NUL \<and> length t = len"
proof (induction es arbitrary: acc)
  case Nil
  then have "length acc < len" "t = acc @ replicate (len - length acc) NUL" by (auto split: if_splits)
  moreover then obtain k where "len - length acc = Suc k" by (cases "len - length acc") auto
  ultimately show ?case by auto
next
  case (Cons e es)
  obtain n v where e: "e = (n, v)" by (cases e)
  with Cons.prems have "env_block mx len es (acc @ n @ EQ # v @ [NUL]) = Inr (Some t)"
    by (auto simp: Let_def split: if_splits)
  from Cons.IH [OF this] show ?case by (auto simp: e)
qed

text \<open>It succeeds exactly on what fits with a NUL behind it.\<close>

lemma env_block_fits:
  "length acc + length (env_text es) < len \<Longrightarrow> len + 1 \<le> mx \<Longrightarrow>
    env_block mx len es acc = Inr (Some (acc @ env_text es @ replicate (len - length acc - length (env_text es)) NUL))"
proof (induction es arbitrary: acc)
  case Nil
  then show ?case by simp
next
  case (Cons e es)
  obtain n v where e: "e = (n, v)" by (cases e)
  have "env_block mx len es (acc @ n @ EQ # v @ [NUL]) = Inr (Some ((acc @ n @ EQ # v @ [NUL]) @ env_text es
      @ replicate (len - length (acc @ n @ EQ # v @ [NUL]) - length (env_text es)) NUL))"
    using Cons.prems by (intro Cons.IH) (simp_all add: e)
  then show ?case using Cons.prems by (simp add: e)
qed

lemma parse_env_text:
  "clean es \<Longrightarrow> length es \<le> k \<Longrightarrow> parse_env k (env_text es @ replicate (Suc j) NUL) = Inr es"
proof (induction es arbitrary: k)
  case Nil
  then show ?case by (cases k) simp_all
next
  case (Cons e es)
  obtain n v where e: "e = (n, v)" by (cases e)
  obtain k' where k: "k = Suc k'" using Cons.prems(2) by (cases k) auto
  let ?p = "env_text es @ replicate (Suc j) NUL"
  have c: "EQ \<notin> set n" "NUL \<notin> set n" "NUL \<notin> set v" "clean es"
    using Cons.prems(1) by (auto simp: clean_def e)
  have n: "dropWhile (\<lambda>c. c \<noteq> EQ \<and> c \<noteq> NUL) (n @ EQ # v @ NUL # ?p) = EQ # v @ NUL # ?p"
    "takeWhile (\<lambda>c. c \<noteq> EQ \<and> c \<noteq> NUL) (n @ EQ # v @ NUL # ?p) = n"
    using c(1,2) by (auto simp: dropWhile_append takeWhile_append)
  have v: "dropWhile (\<lambda>c. c \<noteq> NUL) (v @ NUL # ?p) = NUL # ?p"
    "takeWhile (\<lambda>c. c \<noteq> NUL) (v @ NUL # ?p) = v"
    using c(3) by (auto simp: dropWhile_append takeWhile_append)
  have lk: "length es \<le> k'" using Cons.prems(2) k by simp
  note IH = Cons.IH
  have rest: "(if length ?p \<le> 1 then Inr [e] else if hd ?p = NUL then Inr [e]
      else rbind (parse_env k' ?p) (\<lambda>es. Inr (e # es))) = Inr (e # es)"
  proof (cases es)
    case Nil
    then show ?thesis by simp
  next
    case (Cons e' es')
    obtain n' v' where e': "e' = (n', v')" by (cases e')
    have h: "(hd ?p = NUL) = False" using c(4) by (cases n') (auto simp: Cons e' clean_def)
    have l: "(length ?p \<le> 1) = False" by (simp add: Cons e')
    have "parse_env k' ?p = Inr es" using IH [OF c(4) lk] .
    then show ?thesis by (simp only: h l if_False rbind_Inr)
  qed
  have "env_text (e # es) @ replicate (Suc j) NUL = n @ EQ # v @ NUL # ?p" by (simp add: e)
  then show ?case
    using rest by (simp only: k parse_env.simps n list.case v Let_def e) simp
qed

text \<open>What the parser returns fits the cache and can be stored.\<close>

lemma parse_env_ok: "parse_env k p = Inr es \<Longrightarrow> length es \<le> k \<and> clean es"
proof (induction k arbitrary: p es)
  case 0
  then show ?case by (simp add: clean_def)
next
  case (Suc k)
  have sub: "EQ \<notin> set (takeWhile (\<lambda>c. c \<noteq> EQ \<and> c \<noteq> NUL) x)" "NUL \<notin> set (takeWhile (\<lambda>c. c \<noteq> EQ \<and> c \<noteq> NUL) x)"
    "NUL \<notin> set (takeWhile (\<lambda>c. c \<noteq> NUL) x)" for x
    by (auto dest: set_takeWhileD)
  from Suc.prems show ?case
    using sub Suc.IH
    by (fastforce simp: clean_def Let_def rbind_eq_Inr split: list.splits if_splits)
qed

lemma crc_roundtrip: "crc_word (crc_bytes w) = w"
proof -
  let ?n = "unat w"
  have u: "unat (word_of_nat a :: byte) = a mod 256" for a by (simp add: unsigned_of_nat take_bit_eq_mod)
  have "?n < 256 ^ 4" using unsigned_less [of w] by simp
  then have "?n div 256 div 256 div 256 < 256"
    by (simp add: div_mult2_eq [symmetric] less_mult_imp_div_less)
  then have "?n div 256 div 256 div 256 mod 256 = ?n div 256 div 256 div 256" by (rule mod_less)
  then have "?n mod 256 + 256 * (?n div 256 mod 256 + 256 * (?n div 256 div 256 mod 256
      + 256 * (?n div 256 div 256 div 256 mod 256))) = ?n"
    by (simp only: mod_mult_div_eq)
  moreover have "crc_bytes w ! 0 = word_of_nat ?n" "crc_bytes w ! 1 = word_of_nat (?n div 256)"
    "crc_bytes w ! 2 = word_of_nat (?n div 256 div 256)"
    "crc_bytes w ! 3 = word_of_nat (?n div 256 div 256 div 256)"
    by (simp_all only: crc_bytes_def nth_Cons_0 One_nat_def numeral_2_eq_2 numeral_3_eq_3 nth_Cons_Suc)
  ultimately have "unat (crc_bytes w ! 0) + 256 * (unat (crc_bytes w ! 1) + 256 * (unat (crc_bytes w ! 2)
      + 256 * unat (crc_bytes w ! 3))) = ?n"
    by (simp only: u)
  then show ?thesis by (simp only: crc_word_def of_nat_unat ucast_id)
qed

section \<open>Invariant\<close>

text \<open>
  A block's cache has room for its entries, every entry can be stored, and a block that is not
  valid has an empty cache.
\<close>

definition blk_ok :: "'m nv_env \<Rightarrow> block_t \<Rightarrow> bool" where
  "blk_ok env b = (length (cache b) \<le> MAX_CACHE_ENTRY env \<and> clean (cache b) \<and>
     (\<not> valid b \<longrightarrow> cache b = []))"

definition nv_ok :: "'m nv_env \<Rightarrow> 'm nv_state \<Rightarrow> bool" where
  "nv_ok env st = (\<forall>b \<in> set (fb st). blk_ok env b)"

lemma blk_in: "check_index st i \<Longrightarrow> blk st i \<in> set (fb st)"
  by (auto simp: check_index_def blk_def)

lemma nv_ok_blk: "nv_ok env st \<Longrightarrow> check_index st i \<Longrightarrow> blk_ok env (blk st i)"
  using blk_in by (auto simp: nv_ok_def)

lemma set_blk_simps [simp]:
  "check_index (set_blk st i f) j = check_index st j"
  "check_index st i \<Longrightarrow> blk (set_blk st i f) i = f (blk st i)"
  "flash (set_blk st i f) = flash st"
  "blk (st\<lparr>flash := m\<rparr>) i = blk st i" "check_index (st\<lparr>flash := m\<rparr>) j = check_index st j"
  "nv_ok env (st\<lparr>flash := m\<rparr>) = nv_ok env st"
  by (auto simp: check_index_def set_blk_def blk_def nv_ok_def)

lemma nv_ok_set_blk: "nv_ok env st \<Longrightarrow> blk_ok env (f (blk st i)) \<Longrightarrow> nv_ok env (set_blk st i f)"
  by (auto simp: nv_ok_def set_blk_def dest!: set_update_subset_insert [THEN subsetD])

text \<open>The operations.\<close>

datatype nv_op = NInit | NClose | NClear | NCommit | NBufget string | NBufset string string
  | NGet string | NSet string string

fun nv_exec :: "'m nv_env \<Rightarrow> int \<Rightarrow> nv_op \<Rightarrow> 'm nv_state \<Rightarrow> fault + 'm nv_state" where
  "nv_exec env i NInit st = nvram_init env i st"
| "nv_exec env i NClose st = nvram_close env i st"
| "nv_exec env i NClear st = rbind (nvram_clear env i st) (\<lambda>(r, st). Inr st)"
| "nv_exec env i NCommit st = rbind (nvram_commit env i st) (\<lambda>(r, st). Inr st)"
| "nv_exec env i (NBufget n) st = rbind (nvram_bufget env i n st) (\<lambda>(r, st). Inr st)"
| "nv_exec env i (NBufset n v) st = rbind (nvram_bufset env i n v st) (\<lambda>(r, st). Inr st)"
| "nv_exec env i (NGet n) st = rbind (nvram_get env i n st) (\<lambda>(r, st). Inr st)"
| "nv_exec env i (NSet n v) st = rbind (nvram_set env i n v st) (\<lambda>(r, st). Inr st)"

fun op_clean :: "nv_op \<Rightarrow> bool" where
  "op_clean (NBufset n v) = clean [(n, v)]"
| "op_clean (NSet n v) = clean [(n, v)]"
| "op_clean _ = True"

text \<open>States the store can get into from the program's start.\<close>

inductive nv_reach :: "'m nv_env \<Rightarrow> nat \<Rightarrow> 'm nv_state \<Rightarrow> bool" for env k where
  start: "nv_reach env k \<lparr>fb = fb_init k, flash = m\<rparr>"
| step: "nv_reach env k st \<Longrightarrow> op_clean op \<Longrightarrow> nv_exec env i op st = Inr st' \<Longrightarrow> nv_reach env k st'"

inductive_cases nv_reachE: "nv_reach env k st"

lemma init_ok: "nv_ok env st \<Longrightarrow> nvram_init env i st = Inr st' \<Longrightarrow> nv_ok env st'"
proof -
  assume st: "nv_ok env st" and r: "nvram_init env i st = Inr st'"
  show ?thesis
  proof (cases "check_index st i \<and> \<not> valid (blk st i)")
    case True
    then have b: "blk_ok env (blk st i)" using nv_ok_blk [OF st] by simp
    with True have b': "cache (blk st i) = []" by (simp add: blk_ok_def)
    have c: "clean []" by (simp add: clean_def)
    have e: "blk_ok env (blk st i\<lparr>cache := es @ drop (length es) (cache (blk st i)), valid := True, dirty := False\<rparr>)"
      if "parse_env (MAX_CACHE_ENTRY env) p = Inr es" for p es
      using parse_env_ok [OF that] b' by (simp add: blk_ok_def)
    have z: "blk_ok env (blk st i\<lparr>valid := True, dirty := False\<rparr>)"
      using b' c by (simp add: blk_ok_def)
    from True r st e z show ?thesis
      by (auto simp: nvram_init_def Let_def rbind_eq_Inr split: if_splits intro!: nv_ok_set_blk)
  next
    case False
    with r have "st' = st" by (cases "check_index st i") (simp_all add: nvram_init_def)
    with st show ?thesis by simp
  qed
qed

lemma init_index: "nvram_init env i st = Inr st' \<Longrightarrow> check_index st' j = check_index st j"
  by (auto simp: nvram_init_def Let_def rbind_eq_Inr split: if_splits)

lemma init_valid: "nvram_init env i st = Inr st' \<Longrightarrow> check_index st i \<Longrightarrow> valid (blk st' i)"
  by (auto simp: nvram_init_def Let_def rbind_eq_Inr split: if_splits)

lemma commit_cases:
  assumes "nvram_commit env i st = Inr (r, st')"
  obtains (bad_index) "\<not> check_index st i" "r = - 1" "st' = st"
  | (clean_block) s where "check_index st i" "nvram_init env i st = Inr s" "\<not> dirty (blk s i)" "r = 0" "st' = s"
  | (too_big) s where "check_index st i" "nvram_init env i st = Inr s" "dirty (blk s i)" "r = - 1" "st' = s"
  | (written) s t where "check_index st i" "nvram_init env i st = Inr s" "dirty (blk s i)" "r = 0"
      "env_block (flash_max_len (blk s i)) (flash_max_len (blk s i) - 4)
        (take (MAX_CACHE_ENTRY env) (cache (blk s i))) [] = Inr (Some t)"
      "st' = (set_blk s i (\<lambda>b. b\<lparr>dirty := False\<rparr>))
        \<lparr>flash := write_block env (blk s i) (bytes_of t) (flash s)\<rparr>"
proof (cases "check_index st i")
  case False
  then have "r = - 1" "st' = st" using assms by (simp_all add: nvram_commit_def)
  with False show thesis by (rule bad_index)
next
  case True
  then obtain s where s: "nvram_init env i st = Inr s"
    using assms by (auto simp: nvram_commit_def rbind_eq_Inr)
  show thesis
  proof (cases "dirty (blk s i)")
    case False
    then have "r = 0" "st' = s" using assms True s by (simp_all add: nvram_commit_def)
    with True s False show thesis by (intro clean_block)
  next
    case d: True
    obtain t where t: "env_block (flash_max_len (blk s i)) (flash_max_len (blk s i) - 4)
        (take (MAX_CACHE_ENTRY env) (cache (blk s i))) [] = Inr t"
      using assms d True s by (auto simp: nvram_commit_def Let_def rbind_eq_Inr)
    show thesis
    proof (cases t)
      case None
      then have "r = - 1" "st' = s" using assms True s d t by (simp_all add: nvram_commit_def Let_def)
      with True s d show thesis by (intro too_big)
    next
      case (Some x)
      then have "r = 0" "st' = (set_blk s i (\<lambda>b. b\<lparr>dirty := False\<rparr>))
          \<lparr>flash := write_block env (blk s i) (bytes_of x) (flash s)\<rparr>"
        using assms True s d t by (simp_all add: nvram_commit_def Let_def)
      with True s d t [unfolded Some] show thesis by (intro written)
    qed
  qed
qed

lemma commit_index: "nvram_commit env i st = Inr (r, st') \<Longrightarrow> check_index st' j = check_index st j"
  by (erule commit_cases) (simp_all add: init_index)

lemma close_cases:
  assumes "nvram_close env i st = Inr st'"
  obtains (unchanged) "\<not> check_index st i \<or> \<not> valid (blk st i)" "st' = st"
  | (freed) "check_index st i" "valid (blk st i)" "\<not> dirty (blk st i)"
      "st' = set_blk st i (\<lambda>b. b\<lparr>cache := [], valid := False\<rparr>)"
  | (committed) r s where "check_index st i" "valid (blk st i)" "dirty (blk st i)"
      "nvram_commit env i st = Inr (r, s)"
      "st' = set_blk s i (\<lambda>b. b\<lparr>cache := [], valid := False\<rparr>)"
  using assms by (auto simp: nvram_close_def rbind_eq_Inr split: if_splits)

lemma close_index: "nvram_close env i st = Inr st' \<Longrightarrow> check_index st' j = check_index st j"
  by (erule close_cases) (simp_all add: commit_index)

lemma commit_ok: "nv_ok env st \<Longrightarrow> nvram_commit env i st = Inr (r, st') \<Longrightarrow> nv_ok env st' \<and>
    (check_index st i \<longrightarrow> valid (blk st' i) \<and> check_index st' i)"
proof -
  assume st: "nv_ok env st" and r: "nvram_commit env i st = Inr (r, st')"
  have d: "blk_ok env b \<Longrightarrow> blk_ok env (b\<lparr>dirty := False\<rparr>)" for b by (simp add: blk_ok_def)
  have s: "nv_ok env s \<and> (check_index st i \<longrightarrow> valid (blk s i) \<and> check_index s i)"
    if "nvram_init env i st = Inr s" for s
    using init_ok [OF st that] init_index [OF that] init_valid [OF that] by simp
  from r show ?thesis
  proof (cases rule: commit_cases)
    case bad_index
    with st show ?thesis by simp
  next
    case (clean_block x)
    with s show ?thesis by simp
  next
    case (too_big x)
    with s show ?thesis by simp
  next
    case (written x t)
    with s [OF written(2)] show ?thesis
      by (auto intro!: nv_ok_set_blk d nv_ok_blk)
  qed
qed

lemma close_ok: "nv_ok env st \<Longrightarrow> nvram_close env i st = Inr st' \<Longrightarrow> nv_ok env st'"
proof -
  assume st: "nv_ok env st" and r: "nvram_close env i st = Inr st'"
  have e: "blk_ok env (b\<lparr>cache := [], valid := False\<rparr>)" for b by (simp add: blk_ok_def clean_def)
  from r show ?thesis
  proof (cases rule: close_cases)
    case unchanged
    with st show ?thesis by simp
  next
    case freed
    with st e show ?thesis by (auto intro!: nv_ok_set_blk)
  next
    case (committed x s)
    with commit_ok [OF st committed(4)] e show ?thesis by (auto intro!: nv_ok_set_blk)
  qed
qed

lemma clear_ok: "nv_ok env st \<Longrightarrow> nvram_clear env i st = Inr (r, st') \<Longrightarrow> nv_ok env st'"
proof -
  assume st: "nv_ok env st" and r: "nvram_clear env i st = Inr (r, st')"
  show ?thesis
  proof (cases "check_index st i")
    case False
    with st r show ?thesis by (simp add: nvram_clear_def)
  next
    case True
    with r obtain s where s: "nvram_close env i st = Inr s" and
      st': "st' = (set_blk s i (\<lambda>b. b\<lparr>dirty := False\<rparr>))\<lparr>flash := write_block env (blk s i)
        (replicate (flash_max_len (blk s i) - 4) 0xFF) (flash s)\<rparr>"
      by (auto simp: nvram_clear_def Let_def rbind_eq_Inr)
    have ok: "nv_ok env s" using close_ok [OF st s] .
    have "check_index s i" using close_index [OF s] True by simp
    then have "blk_ok env (blk s i\<lparr>dirty := False\<rparr>)"
      using nv_ok_blk [OF ok] by (fastforce simp: blk_ok_def)
    with ok show ?thesis by (auto simp: st' intro!: nv_ok_set_blk)
  qed
qed

lemma mtk_state: "nvram_bufget_mtk env i n st = Inr (r, st') \<Longrightarrow> nv_ok env st \<Longrightarrow> nv_ok env st'"
  by (auto simp: nvram_bufget_mtk_def rbind_eq_Inr intro: init_ok split: if_splits)

lemma bufget_ok: "nvram_bufget env i n st = Inr (r, st') \<Longrightarrow> nv_ok env st \<Longrightarrow> nv_ok env st'"
  by (auto simp: nvram_bufget_def nvram_get_hertversion_def rbind_eq_Inr dest: mtk_state split: if_splits)

text \<open>nvram_bufset is a put of the cache interface.\<close>

lemma bufset_put:
  assumes "check_index st i" and "nvram_init env i st = Inr s" and "length (cache (blk s i)) \<le> MAX_CACHE_ENTRY env"
  shows "nvram_bufset env i n v st = Inr (case cache_put (MAX_CACHE_ENTRY env) (cache (blk s i)) n v of
      None \<Rightarrow> (- 1, s) | Some c \<Rightarrow> (0, set_blk s i (\<lambda>b. b\<lparr>cache := c, dirty := True\<rparr>)))"
  using assms
  by (auto simp: nvram_bufset_def cache_idx_def cache_put_def Let_def set_blk_def split: option.splits)

lemma cache_put_clean:
  assumes "clean c" and "clean [(n, v)]" and "cache_put m c n v = Some c'"
  shows "clean c'"
proof (cases "find_idx n (take m c) 0")
  case None
  with assms show ?thesis by (auto simp: cache_put_def clean_def split: if_splits)
next
  case (Some i)
  from find_idx_Some [OF Some] have i: "i < length c" "fst (c ! i) = n" by auto
  then have "set (c[i := (n, v)]) \<subseteq> insert (n, v) (set c)" by (simp add: set_update_subset_insert)
  with Some i assms show ?thesis by (auto simp: cache_put_def clean_def)
qed

lemma bufset_ok:
  assumes "nv_ok env st" and "clean [(n, v)]" and "nvram_bufset env i n v st = Inr (r, st')"
  shows "nv_ok env st'"
proof (cases "check_index st i")
  case False
  with assms show ?thesis by (simp add: nvram_bufset_def)
next
  case True
  with assms(3) obtain s where s: "nvram_init env i st = Inr s" by (auto simp: nvram_bufset_def rbind_eq_Inr)
  have ok: "nv_ok env s" and ix: "check_index s i" and va: "valid (blk s i)"
    using init_ok [OF assms(1) s] init_index [OF s] init_valid [OF s] True by simp_all
  then have b: "blk_ok env (blk s i)" by (intro nv_ok_blk)
  show ?thesis
  proof (cases "cache_put (MAX_CACHE_ENTRY env) (cache (blk s i)) n v")
    case None
    with bufset_put [OF True s, of n v] b ok assms(3) show ?thesis by (simp add: blk_ok_def)
  next
    case (Some c)
    have "length c \<le> MAX_CACHE_ENTRY env" "clean c"
      using cache_store.put_inv [OF _ Some] cache_put_clean [OF _ assms(2) Some] b by (auto simp: blk_ok_def)
    then have "blk_ok env (blk s i\<lparr>cache := c, dirty := True\<rparr>)" using va by (simp add: blk_ok_def)
    moreover have "st' = set_blk s i (\<lambda>b. b\<lparr>cache := c, dirty := True\<rparr>)"
      using bufset_put [OF True s, of n v] b Some assms(3) by (simp add: blk_ok_def)
    ultimately show ?thesis using ok by (auto intro: nv_ok_set_blk)
  qed
qed

lemma exec_ok: "nv_ok env st \<Longrightarrow> op_clean op \<Longrightarrow> nv_exec env i op st = Inr st' \<Longrightarrow> nv_ok env st'"
proof (cases op)
  case (NGet n)
  assume "nv_ok env st" "nv_exec env i op st = Inr st'"
  with NGet show ?thesis
    by (auto simp: nvram_get_def rbind_eq_Inr dest!: bufget_ok dest: close_ok init_ok)
next
  case (NSet n v)
  assume st: "nv_ok env st" "op_clean op" "nv_exec env i op st = Inr st'"
  with NSet obtain r s where s: "nvram_bufset env i n v st = Inr (r, s)"
    and e: "st' = s \<or> (\<exists>r. nvram_commit env i s = Inr (r, st'))"
    by (auto simp: nvram_set_def rbind_eq_Inr split: if_splits)
  have "nv_ok env s" using bufset_ok [OF st(1) _ s] st(2) NSet by simp
  with e commit_ok show ?thesis by blast
qed (auto simp: rbind_eq_Inr dest: init_ok close_ok clear_ok commit_ok bufget_ok bufset_ok)


section \<open>A memory that is a flash device\<close>

definition ram_read :: "(nat \<Rightarrow> byte) \<Rightarrow> nat \<Rightarrow> nat \<Rightarrow> byte list" where
  "ram_read m a n = map m [a..<a + n]"

definition ram_write :: "(nat \<Rightarrow> byte) \<Rightarrow> nat \<Rightarrow> byte list \<Rightarrow> nat \<Rightarrow> byte" where
  "ram_write m a bs x = (if a \<le> x \<and> x < a + length bs then bs ! (x - a) else m x)"

definition ram_env :: "nat \<Rightarrow> (byte list \<Rightarrow> dword) \<Rightarrow> (nat \<Rightarrow> byte) nv_env" where
  "ram_env k crc = \<lparr>MAX_CACHE_ENTRY = k, crc32 = crc, flash_read = ram_read, flash_write = ram_write\<rparr>"

lemma ram_env_simps [simp]:
  "MAX_CACHE_ENTRY (ram_env k crc) = k" "crc32 (ram_env k crc) = crc"
  "flash_read (ram_env k crc) = ram_read" "flash_write (ram_env k crc) = ram_write"
  by (simp_all add: ram_env_def)

interpretation ram: flash_device "ram_env k crc" for k crc
proof
  fix m :: "nat \<Rightarrow> byte" and a b n :: nat and bs :: "byte list"
  show "length (flash_read (ram_env k crc) m a n) = n" by (simp add: ram_read_def)
  show "flash_read (ram_env k crc) (flash_write (ram_env k crc) m a bs) a (length bs) = bs"
    by (rule nth_equalityI) (simp_all add: ram_read_def ram_write_def)
  show "a + n \<le> b \<or> b + length bs \<le> a \<Longrightarrow> flash_read (ram_env k crc) (flash_write (ram_env k crc) m b bs) a n
      = flash_read (ram_env k crc) m a n"
    by (auto simp: ram_read_def ram_write_def)
qed


section \<open>What was set is there after a restart\<close>

context flash_device
begin

text \<open>A block just written is read back as its cache.\<close>

lemma reload:
  assumes "check_index st i" and "\<not> valid (blk st i)" and "cache (blk st i) = []"
    and "blk_ok env b" and "flash_offset (blk st i) = flash_offset b"
    and "flash_max_len (blk st i) = flash_max_len b"
    and "env_block (flash_max_len b) (flash_max_len b - 4) (cache b) [] = Inr (Some t)"
    and "flash st = write_block env b (bytes_of t) m"
  shows "nvram_init env i st = Inr (set_blk st i (\<lambda>x. x\<lparr>cache := cache b, valid := True, dirty := False\<rparr>))"
proof -
  from env_block_Some [OF assms(7)] obtain k where
    t: "t = env_text (cache b) @ replicate (Suc k) NUL" and l: "length t = flash_max_len b - 4" by auto
  let ?d = "bytes_of t"
  have len: "length (crc_bytes w) = 4" for w by (simp add: crc_bytes_def)
  have "flash_read env (flash st) (flash_offset b + 4) (flash_max_len b - 4) = ?d"
    unfolding assms(8) write_block_def using l by (intro read_written_eq) simp
  moreover have "flash_read env (flash st) (flash_offset b) 4 = crc_bytes (crc32 env ?d)"
    unfolding assms(8) write_block_def using len
    by (subst read_other) (auto intro!: read_written_eq)
  moreover have "parse_env (MAX_CACHE_ENTRY env) t = Inr (cache b)"
    unfolding t using assms(4) by (intro parse_env_text) (auto simp: blk_ok_def)
  ultimately show ?thesis
    using assms(1-3,5,6) by (simp add: nvram_init_def Let_def crc_roundtrip set_blk_def)
qed

lemma set_then_get:
  assumes "nv_ok env st" and "clean [(n, v)]" and "n \<noteq> ''HE_ROUTE_VER''"
    and "nvram_set env i n v st = Inr (0, st')"
  shows "\<exists>st''. nvram_get env i n st' = Inr (v, st'')"
proof -
  let ?m = "MAX_CACHE_ENTRY env"
  from assms(4) obtain r s1 where bs: "nvram_bufset env i n v st = Inr (r, s1)" and r: "r \<noteq> - 1"
    and cm: "nvram_commit env i s1 = Inr (0, st')"
    by (auto simp: nvram_set_def rbind_eq_Inr split: if_splits)
  have ix: "check_index st i" using bs r by (auto simp: nvram_bufset_def split: if_splits)
  with bs obtain s where s: "nvram_init env i st = Inr s" by (auto simp: nvram_bufset_def rbind_eq_Inr)
  have ok: "nv_ok env s" and ixs: "check_index s i" and va: "valid (blk s i)"
    using init_ok [OF assms(1) s] init_index [OF s] init_valid [OF s] ix by simp_all
  have lb: "length (cache (blk s i)) \<le> ?m" using nv_ok_blk [OF ok ixs] by (simp add: blk_ok_def)
  obtain c where c: "cache_put ?m (cache (blk s i)) n v = Some c"
    and s1: "s1 = set_blk s i (\<lambda>b. b\<lparr>cache := c, dirty := True\<rparr>)"
    using bufset_put [OF ix s lb, of n v] bs r by (auto split: option.splits)
  let ?b = "blk s1 i"
  have ix1: "check_index s1 i" and b: "valid ?b" "dirty ?b" "cache ?b = c" using s1 ixs va by auto
  have bok: "blk_ok env ?b" using bufset_ok [OF assms(1,2) bs] ix1 by (intro nv_ok_blk)
  have i1: "nvram_init env i s1 = Inr s1" using ix1 b(1) by (simp add: nvram_init_def)
  from cm obtain t where t: "env_block (flash_max_len ?b) (flash_max_len ?b - 4) c [] = Inr (Some t)"
    and st': "st' = (set_blk s1 i (\<lambda>b. b\<lparr>dirty := False\<rparr>))\<lparr>flash := write_block env ?b (bytes_of t) (flash s1)\<rparr>"
  proof (cases rule: commit_cases)
    case (written x t)
    then show thesis using i1 b(3) bok that by (simp add: blk_ok_def)
  next
    case bad_index
    then show thesis using ix1 by simp
  next
    case (clean_block x)
    then show thesis using i1 b by simp
  next
    case (too_big x)
    then show thesis by simp
  qed
  let ?s2 = "set_blk st' i (\<lambda>b. b\<lparr>cache := [], valid := False\<rparr>)"
  have ix': "check_index st' i" and b': "blk st' i = ?b\<lparr>dirty := False\<rparr>" using st' ix1 by simp_all
  have cl: "nvram_close env i st' = Inr ?s2" using ix' b' b by (simp add: nvram_close_def)
  have b2: "blk ?s2 i = ?b\<lparr>dirty := False, cache := [], valid := False\<rparr>" using ix' b' by simp
  have "nvram_init env i ?s2 = Inr (set_blk ?s2 i (\<lambda>x. x\<lparr>cache := cache ?b, valid := True, dirty := False\<rparr>))"
    using ix' b2 bok t b(3) st' by (intro reload [where b = ?b and t = t and m = "flash s1"]) simp_all
  then obtain s3 where s3: "nvram_init env i ?s2 = Inr s3" "check_index s3 i" "valid (blk s3 i)"
      "cache (blk s3 i) = c"
    using ix' b(3) by auto
  then have i3: "nvram_init env i s3 = Inr s3" by (simp add: nvram_init_def)
  have "cache_get ?m c n = Some v" using cache_store.get_put [OF lb c] by simp
  then have "nvram_bufget env i n s3 = Inr (v, s3)"
    using s3(2,4) i3 assms(3)
    by (auto simp: nvram_bufget_def nvram_bufget_mtk_def cache_idx_def cache_get_def split: option.splits)
  then show ?thesis using cl s3(1) by (simp add: nvram_get_def)
qed

end


lemma ram_start:
  "check_index \<lparr>fb = fb_init 100, flash = (\<lambda>_. 0)\<rparr> 0"
  "blk \<lparr>fb = fb_init 100, flash = (\<lambda>_. 0)\<rparr> 0 =
    \<lparr>name = ''2860'', flash_offset = 0x2000, flash_max_len = 400, valid = False, dirty = False, cache = []\<rparr>"
  "nv_ok env \<lparr>fb = fb_init 100, flash = (\<lambda>_. 0)\<rparr>"
  by (simp_all add: check_index_def blk_def fb_init_def nv_ok_def blk_ok_def clean_def)

lemma ram_start_init:
  "nvram_init (ram_env 5 (\<lambda>_. 1)) 0 \<lparr>fb = fb_init 100, flash = (\<lambda>_. 0)\<rparr> =
    Inr (set_blk \<lparr>fb = fb_init 100, flash = (\<lambda>_. 0)\<rparr> 0 (\<lambda>b. b\<lparr>valid := True, dirty := False\<rparr>))"
proof -
  have "crc_word (ram_read (\<lambda>_. 0) a 4) = 0" for a by (simp add: crc_word_def ram_read_def)
  then show ?thesis by (simp add: nvram_init_def ram_start Let_def)
qed


section \<open>Commit beyond the block\<close>

lemma env_block_prefix:
  "length acc + length (env_text es) \<le> len \<Longrightarrow> length acc + length (env_text es) + 2 < mx \<Longrightarrow>
    env_block mx len (es @ fs) acc = env_block mx len fs (acc @ env_text es)"
proof (induction es arbitrary: acc)
  case Nil
  then show ?case by simp
next
  case (Cons e es)
  obtain n v where e: "e = (n, v)" by (cases e)
  have "env_block mx len (es @ fs) (acc @ n @ EQ # v @ [NUL]) =
      env_block mx len fs ((acc @ n @ EQ # v @ [NUL]) @ env_text es)"
    using Cons.prems by (intro Cons.IH) (simp_all add: e)
  then show ?case using Cons.prems by (simp add: e)
qed

text \<open>
  When the last entry does not fit the block any more, or fills it so that the closing NUL
  does not fit, nvram_commit writes past the buffer it allocated instead of returning -1: its
  test looks at where an entry starts and not at where it ends.
\<close>

theorem nvram_commit_overflow:
  assumes "check_index st i" and "valid (blk st i)" and "dirty (blk st i)"
    and "cache (blk st i) = es @ [(n, v)]" and "length (cache (blk st i)) \<le> MAX_CACHE_ENTRY env"
    and "length (env_text es) \<le> flash_max_len (blk st i) - 4" and "4 \<le> flash_max_len (blk st i)"
    and "flash_max_len (blk st i) - 4 \<le> length (env_text (es @ [(n, v)]))"
  shows "nvram_commit env i st = Inl WriteOverflow"
proof -
  let ?m = "flash_max_len (blk st i)"
  have "env_block ?m (?m - 4) (es @ [(n, v)]) [] = env_block ?m (?m - 4) [(n, v)] (env_text es)"
    using assms(6,7) env_block_prefix [of "[]" es "?m - 4" ?m "[(n, v)]"] by simp
  also have "\<dots> = Inl WriteOverflow"
    using assms(6,7,8) by (auto simp: env_text_def)
  finally show ?thesis
    using assms(1-5) by (simp add: nvram_commit_def nvram_init_def Let_def)
qed

theorem nvram_commit_overflow_witness:
  "nvram_commit (ram_env 5 (\<lambda>_. 1)) 0
    \<lparr>fb = [\<lparr>name = ''b'', flash_offset = 0, flash_max_len = 12, valid = True, dirty = True,
        cache = [(''a'', ''1''), (''b'', ''22'')]\<rparr>], flash = (\<lambda>_. 0)\<rparr> = Inl WriteOverflow"
  by (rule nvram_commit_overflow [where es = "[(''a'', ''1'')]" and n = "''b''" and v = "''22''"])
     (simp_all add: check_index_def blk_def)

lemma close_valid: "nvram_close env i st = Inr st' \<Longrightarrow> check_index st i \<Longrightarrow> \<not> valid (blk st' i)"
  by (erule close_cases) (auto simp: commit_index)

context flash_device
begin

lemma clear_init:
  assumes "check_index st i" and "0 < MAX_CACHE_ENTRY env" and "nvram_clear env i st = Inr (r, st')"
  shows "nvram_init env i st' = Inl ReadOverrun"
proof -
  from assms(1,3) obtain s where s: "nvram_close env i st = Inr s"
    and st': "st' = (set_blk s i (\<lambda>b. b\<lparr>dirty := False\<rparr>))\<lparr>flash := write_block env (blk s i)
      (replicate (flash_max_len (blk s i) - 4) 0xFF) (flash s)\<rparr>"
    by (auto simp: nvram_clear_def Let_def rbind_eq_Inr)
  let ?n = "flash_max_len (blk s i) - 4" and ?a = "flash_offset (blk s i)"
  let ?d = "replicate ?n (0xFF :: byte)"
  have ix: "check_index s i" and nv: "\<not> valid (blk s i)"
    using close_index [OF s] close_valid [OF s] assms(1) by simp_all
  have len: "length (crc_bytes w) = 4" for w by (simp add: crc_bytes_def)
  have d: "flash_read env (flash st') (?a + 4) ?n = ?d"
    unfolding st' write_block_def by (simp add: read_written_eq)
  have c: "flash_read env (flash st') ?a 4 = crc_bytes (crc32 env ?d)"
    unfolding st' write_block_def by (simp add: read_other read_written_eq len)
  obtain k where k: "MAX_CACHE_ENTRY env = Suc k" using assms(2) by (cases "MAX_CACHE_ENTRY env") auto
  have "char_at 0xFF \<noteq> EQ \<and> char_at 0xFF \<noteq> NUL" by (simp add: char_at_def char_of_def)
  then have "parse_env (MAX_CACHE_ENTRY env) (map char_at ?d) = Inl ReadOverrun"
    by (simp add: k dropWhile_replicate)
  moreover have "check_index st' i" "\<not> valid (blk st' i)" "flash_offset (blk st' i) = ?a"
    "flash_max_len (blk st' i) = flash_max_len (blk s i)"
    using st' ix nv by simp_all
  ultimately show ?thesis using d c by (simp add: nvram_init_def Let_def crc_roundtrip)
qed

end

text \<open>
  A block cleared with nvram_clear cannot be loaded again: its CRC is right for the 0xFF
  bytes, and the search for an equals sign runs past the end of the data.
\<close>

theorem nvram_clear_then_init:
  assumes "flash_device env" and "check_index st i" and "0 < MAX_CACHE_ENTRY env"
    and "nvram_clear env i st = Inr (r, st')"
  shows "nvram_init env i st' = Inl ReadOverrun"
  using assms by (rule flash_device.clear_init)

theorem nvram_clear_then_init_witness:
  "\<exists>st'. nvram_clear (ram_env 5 (\<lambda>_. 1)) 0 \<lparr>fb = fb_init 100, flash = (\<lambda>_. 0)\<rparr> = Inr (0, st') \<and>
    nvram_init (ram_env 5 (\<lambda>_. 1)) 0 st' = Inl ReadOverrun"
proof -
  let ?e = "ram_env 5 (\<lambda>_. 1)" and ?s = "\<lparr>fb = fb_init 100, flash = (\<lambda>_. 0)\<rparr> :: (nat \<Rightarrow> byte) nv_state"
  obtain st' where s: "nvram_clear ?e 0 ?s = Inr (0, st')"
    by (simp add: nvram_clear_def nvram_close_def ram_start Let_def)
  have "nvram_init ?e 0 st' = Inl ReadOverrun"
    by (rule nvram_clear_then_init [OF ram.flash_device_axioms ram_start(1) _ s]) simp
  with s show ?thesis by blast
qed

text \<open>
  A cache without room takes no further name: nvram_bufset returns -1 and leaves the store as
  it was after loading the block.
\<close>

theorem nvram_bufset_full:
  assumes "check_index st i" and "valid (blk st i)" and "length (cache (blk st i)) = MAX_CACHE_ENTRY env"
    and "n \<notin> fst ` set (cache (blk st i))"
  shows "nvram_bufset env i n v st = Inr (- 1, st)"
  using assms by (simp add: nvram_bufset_def nvram_init_def cache_idx_def find_idx_None [THEN iffD2] Let_def)

theorem nvram_bufset_full_witness:
  "nvram_bufset (ram_env 1 (\<lambda>_. 1)) 0 ''b'' ''2''
      \<lparr>fb = [\<lparr>name = ''b'', flash_offset = 0, flash_max_len = 12, valid = True, dirty = True,
        cache = [(''a'', ''1'')]\<rparr>], flash = (\<lambda>_. 0)\<rparr> =
    Inr (- 1, \<lparr>fb = [\<lparr>name = ''b'', flash_offset = 0, flash_max_len = 12, valid = True, dirty = True,
        cache = [(''a'', ''1'')]\<rparr>], flash = (\<lambda>_. 0)\<rparr>)"
  by (rule nvram_bufset_full) (simp_all add: check_index_def blk_def)

section \<open>The version\<close>

text \<open>
  In a version of the form 1411-9-001-R619 the product digit and the three digits behind the
  next dash are those of the serial number behind its country code, and nothing else changes.
\<close>

theorem patch_version_digits:
  assumes "length a = 5" and "NUL \<notin> set (a @ [d] @ r)" and "length r < 54"
    and "sn = [c1, c2, s1, s2, s3, s4] @ rest" and "NUL \<notin> set sn"
  shows "patch_version (a @ [x, d, y1, y2, y3] @ r) sn = a @ [s1, d, s2, s3, s4] @ r"
proof -
  have "\<exists>a0 a1 a2 a3 a4. a = [a0, a1, a2, a3, a4]"
    using assms(1) by (auto simp: length_Suc_conv eval_nat_numeral)
  then obtain a0 a1 a2 a3 a4 where a: "a = [a0, a1, a2, a3, a4]" by blast
  obtain k where k: "54 - length r = Suc k" using assms(3) by (cases "54 - length r") auto
  have "patch_version (a @ [x, d, y1, y2, y3] @ r) sn =
      takeWhile (\<lambda>c. c \<noteq> NUL) ((a @ [s1, d, s2, s3, s4] @ r) @ replicate (Suc k) NUL)"
    using k by (simp add: patch_version_def a assms(4) numeral_eq_Suc)
  also have "\<dots> = a @ [s1, d, s2, s3, s4] @ r"
    using assms(2,4,5) by (subst takeWhile_append2) auto
  finally show ?thesis .
qed

theorem patch_version_digits_witness:
  "patch_version ''1411-9-001-R619'' ''86777700000014060000'' = ''1411-7-777-R619''"
  using patch_version_digits [of "''1411-''" "CHR ''-''" "''-R619''" "''86777700000014060000''"
      "CHR ''8''" "CHR ''6''" "CHR ''7''" "CHR ''7''" "CHR ''7''" "CHR ''7''" "''00000014060000''"
      "CHR ''9''" "CHR ''0''" "CHR ''0''" "CHR ''1''"]
  by simp

end
