(* ===== verification/DownloadQueue.thy ===== *)
theory DownloadQueue
  imports MsgParse
begin

text \<open>
  The list of pending downloads (herouteapp/hert_util.c): the file /var/platDownReqList.txt, one
  line per item, rewritten by hertUtil_EditDownReqItemList through shell commands and read by
  hertUtil_GetDownReqItemList.  The state is the text of the file and of its copy (None: no such
  file) and the static variable nRet.  The interface \<open>work_list\<close> states what the producer (the
  message handlers) and the consumer (the download thread) rely on.
\<close>

section \<open>Lines and words\<close>

text \<open>fgets: up to the newline, at most \<open>n - 1\<close> chars; the chars read and the rest.\<close>

definition fgets :: "nat \<Rightarrow> string \<Rightarrow> string \<times> string" where
  "fgets n s = (let m = min (n - 1) (Suc (length (takeWhile (\<lambda>c. c \<noteq> CHR 0x0A) s)))
     in (take m s, drop m s))"

text \<open>The loop \<open>while (fgets(line, sizeof(line), fd))\<close> with line[512].\<close>

function lines_of :: "string \<Rightarrow> string list" where
  "lines_of s = (if s = [] then [] else fst (fgets 512 s) # lines_of (snd (fgets 512 s)))"
  by pat_completeness auto
termination
  by (relation "measure length") (auto simp: fgets_def Let_def)

declare lines_of.simps [simp del]

text \<open>The words \<open>%s\<close> reads.\<close>

function tokens :: "string \<Rightarrow> string list" where
  "tokens s = (let t = dropWhile is_space s in
     if t = [] then []
     else takeWhile (\<lambda>c. \<not> is_space c) t # tokens (dropWhile (\<lambda>c. \<not> is_space c) t))"
  by pat_completeness auto
termination
proof (relation "measure length")
  fix s t :: string
  assume t: "t = dropWhile is_space s" and ne: "t \<noteq> []"
  have "\<not> is_space (hd t)" using t ne hd_dropWhile by blast
  then have "dropWhile (\<lambda>c. \<not> is_space c) t = dropWhile (\<lambda>c. \<not> is_space c) (tl t)"
    using ne by (cases t) simp_all
  then have "length (dropWhile (\<lambda>c. \<not> is_space c) t) \<le> length (tl t)"
    by (simp only: length_dropWhile_le)
  also have "\<dots> < length t" using ne by (cases t) simp_all
  also have "length t \<le> length s" using t by (simp add: length_dropWhile_le)
  finally show "(dropWhile (\<lambda>c. \<not> is_space c) t, s) \<in> measure length" by simp
qed simp

declare tokens.simps [simp del]

text \<open>A word stored in an array of \<open>n\<close> chars.\<close>

definition store_word :: "nat \<Rightarrow> string \<Rightarrow> fault + string" where
  "store_word n s = (if length s < n then Inr s else Inl WriteOverflow)"

definition nth_word :: "string list \<Rightarrow> nat \<Rightarrow> string" where
  "nth_word ws i = (if i < length ws then ws ! i else [])"

text \<open>
  memset, then sscanf of "%s %s %s": a word that is missing leaves its array empty.  REMOVE_CRLN
  has nothing to remove from a word.
\<close>

type_synonym down_item = HERT_MSG_REQ_PUSH_DATA_VARPART_DOWNLOAD

definition scan_item :: "string \<Rightarrow> fault + down_item" where
  "scan_item line = (let ws = tokens line in
     rbind (store_word 128 (nth_word ws 0)) (\<lambda>i.
     rbind (store_word 128 (nth_word ws 1)) (\<lambda>n.
     rbind (store_word 256 (nth_word ws 2)) (\<lambda>u.
       Inr \<lparr>contentID = i, URL = u, contentName = n\<rparr>))))"

section \<open>The operations\<close>

record down_list =
  list_file :: "string option"
  temp_file :: "string option"
  edit_nRet :: int

text \<open>
  system("echo \<open>\"...\"\<close> >> file"): between double quotes the shell leaves every character as it
  is but the four that end the quotation or start an expansion.
\<close>

definition shell_plain :: "string \<Rightarrow> bool" where
  "shell_plain s = (CHR 0x22 \<notin> set s \<and> CHR ''$'' \<notin> set s \<and> CHR 0x60 \<notin> set s \<and> CHR 0x5C \<notin> set s)"

definition item_line :: "down_item \<Rightarrow> string" where
  "item_line d = contentID d @ '' '' @ contentName d @ '' '' @ URL d"

definition echo_item :: "down_item \<Rightarrow> string option \<Rightarrow> fault + string option" where
  "echo_item d f = (if shell_plain (item_line d)
     then Inr (Some ((case f of None \<Rightarrow> [] | Some s \<Rightarrow> s) @ item_line d @ [CHR 0x0A]))
     else Inl ShellExpansion)"

text \<open>The loop that copies the saved items other than \<open>pItem\<close> back to the list.\<close>

fun keep_others :: "down_item \<Rightarrow> string list \<Rightarrow> string option \<Rightarrow> fault + string option" where
  "keep_others p [] f = Inr f"
| "keep_others p (l # ls) f = rbind (scan_item l) (\<lambda>t.
     if contentID p = contentID t \<and> contentName p = contentName t \<and> URL p = URL t
     then keep_others p ls f
     else rbind (echo_item t f) (keep_others p ls))"

definition hertUtil_EditDownReqItemList ::
  "down_item option \<Rightarrow> int \<Rightarrow> down_list \<Rightarrow> fault + int \<times> down_list" where
  "hertUtil_EditDownReqItemList pItem bAddorDel q = (case pItem of
       None \<Rightarrow> Inr (3, q)
     | Some p \<Rightarrow>
         if edit_nRet q = 2 then Inr (2, q)
         else rbind (keep_others p (case list_file q of None \<Rightarrow> [] | Some s \<Rightarrow> lines_of s) None) (\<lambda>f.
              rbind (if bAddorDel \<noteq> 0 then echo_item p f else Inr f) (\<lambda>f.
                Inr (0, q\<lparr>list_file := f, temp_file := list_file q, edit_nRet := 0\<rparr>))))"

text \<open>
  The loop around it waits while another thread is at it: \<open>sleep\<close> is what the other thread does
  to the list in a second.
\<close>

partial_function (option) edit_wait ::
  "(down_list \<Rightarrow> down_list) \<Rightarrow> down_item option \<Rightarrow> int \<Rightarrow> down_list \<Rightarrow> (fault + int \<times> down_list) option" where
  "edit_wait sleep p b q = (case hertUtil_EditDownReqItemList p b q of
       Inl f \<Rightarrow> Some (Inl f)
     | Inr r \<Rightarrow> if fst r = 2 then edit_wait sleep p b (sleep (snd r)) else Some (Inr r))"

declare edit_wait.simps [code]

definition hertUtil_AddDownReqItemList ::
  "(down_list \<Rightarrow> down_list) \<Rightarrow> down_item option \<Rightarrow> down_list \<Rightarrow> (fault + int \<times> down_list) option" where
  "hertUtil_AddDownReqItemList sleep pItem q = edit_wait sleep pItem 1 q"

definition hertUtil_DelDownReqItemList ::
  "(down_list \<Rightarrow> down_list) \<Rightarrow> down_item option \<Rightarrow> down_list \<Rightarrow> (fault + int \<times> down_list) option" where
  "hertUtil_DelDownReqItemList sleep pItem q = edit_wait sleep pItem 0 q"

text \<open>
  The first line with three words.  Without one the result is 1 and *pItem holds the last line
  read.
\<close>

fun first_item :: "string list \<Rightarrow> down_item \<Rightarrow> fault + int \<times> down_item" where
  "first_item [] p = Inr (1, p)"
| "first_item (l # ls) p = rbind (scan_item l) (\<lambda>t.
     if contentID t = [] \<or> contentName t = [] \<or> URL t = [] then first_item ls t else Inr (0, t))"

definition hertUtil_GetDownReqItemList :: "down_item \<Rightarrow> down_list \<Rightarrow> fault + int \<times> down_item" where
  "hertUtil_GetDownReqItemList pItem q = (case list_file q of
       None \<Rightarrow> Inr (1, pItem)
     | Some s \<Rightarrow> first_item (lines_of s) pItem)"

section \<open>The file as a list of items\<close>

text \<open>Items the file can hold: three words that fit their arrays, a line and the shell.\<close>

definition word_ok :: "nat \<Rightarrow> string \<Rightarrow> bool" where
  "word_ok n w = (w \<noteq> [] \<and> length w < n \<and> (\<forall>c \<in> set w. \<not> is_space c) \<and> shell_plain w)"

definition item_ok :: "down_item \<Rightarrow> bool" where
  "item_ok d = (word_ok 128 (contentID d) \<and> word_ok 128 (contentName d) \<and> word_ok 256 (URL d)
     \<and> length (item_line d) < 511)"

definition list_text :: "down_item list \<Rightarrow> string" where
  "list_text ds = concat (map (\<lambda>d. item_line d @ [CHR 0x0A]) ds)"

definition holds_items :: "down_list \<Rightarrow> down_item list \<Rightarrow> bool" where
  "holds_items q ds = (edit_nRet q \<noteq> 2 \<and> (\<forall>d \<in> set ds. item_ok d)
     \<and> (case list_file q of None \<Rightarrow> ds = [] | Some s \<Rightarrow> s = list_text ds))"

lemma list_text_simps [simp]:
  "list_text [] = []" "list_text (d # ds) = item_line d @ CHR 0x0A # list_text ds"
  "list_text (xs @ ys) = list_text xs @ list_text ys"
  by (simp_all add: list_text_def)

lemma lines_of_Nil [simp]: "lines_of [] = []"
  by (simp add: lines_of.simps)

lemma fgets_line:
  assumes nl: "CHR 0x0A \<notin> set l" and len: "length l < n - 1"
  shows "fgets n (l @ CHR 0x0A # s) = (l @ [CHR 0x0A], s)"
proof -
  have "takeWhile (\<lambda>c. c \<noteq> CHR 0x0A) (l @ CHR 0x0A # s) = l"
    using nl by (subst takeWhile_append2) auto
  moreover have "min (n - 1) (Suc (length l)) = Suc (length l)" using len by simp
  ultimately show ?thesis by (simp add: fgets_def Let_def)
qed

lemma word_no_newline: "\<forall>c \<in> set w. \<not> is_space c \<Longrightarrow> CHR 0x0A \<notin> set w"
  by (auto simp: is_space_def)

lemma item_line_no_newline: "item_ok d \<Longrightarrow> CHR 0x0A \<notin> set (item_line d)"
  using word_no_newline by (auto simp: item_ok_def item_line_def word_ok_def)

lemma lines_of_list_text:
  "\<forall>d \<in> set ds. item_ok d \<Longrightarrow> lines_of (list_text ds) = map (\<lambda>d. item_line d @ [CHR 0x0A]) ds"
proof (induction ds)
  case Nil
  then show ?case by (simp add: lines_of.simps)
next
  case (Cons d ds)
  then have "fgets 512 (list_text (d # ds)) = (item_line d @ [CHR 0x0A], list_text ds)"
    using item_line_no_newline [of d] by (simp add: fgets_line item_ok_def)
  then show ?case using Cons by (subst lines_of.simps) simp
qed

lemma tokens_word:
  assumes "w \<noteq> []" and "\<forall>c \<in> set w. \<not> is_space c" and "is_space x"
  shows "tokens (w @ x # s) = w # tokens s"
proof -
  have d: "dropWhile is_space (w @ x # s) = w @ x # s" using assms(1,2) by (cases w) auto
  have t: "takeWhile (\<lambda>c. \<not> is_space c) (w @ x # s) = w"
    "dropWhile (\<lambda>c. \<not> is_space c) (w @ x # s) = x # s"
    using assms(2,3) by (simp_all add: takeWhile_append2 dropWhile_append2)
  have "tokens (x # s) = tokens s"
    using assms(3) by (subst (1 2) tokens.simps) simp
  then show ?thesis by (subst tokens.simps) (simp add: d t Let_def)
qed

lemma is_space_consts [simp]: "is_space (CHR '' '')" "is_space (CHR 0x0A)"
  by (simp_all add: is_space_def)

lemma scan_item_line: "item_ok d \<Longrightarrow> scan_item (item_line d @ [CHR 0x0A]) = Inr d"
proof -
  assume ok: "item_ok d"
  have "tokens [] = []" by (simp add: tokens.simps)
  then have "tokens (item_line d @ [CHR 0x0A]) = [contentID d, contentName d, URL d]"
    using ok by (simp add: item_line_def item_ok_def word_ok_def tokens_word)
  then show ?thesis
    using ok by (simp add: scan_item_def nth_word_def store_word_def item_ok_def word_ok_def)
qed

lemma echo_item_ok: "item_ok d \<Longrightarrow> echo_item d f =
    Inr (Some ((case f of None \<Rightarrow> [] | Some s \<Rightarrow> s) @ list_text [d]))"
  by (simp add: echo_item_def item_ok_def word_ok_def shell_plain_def item_line_def)

lemma same_item: "contentID p = contentID t \<and> contentName p = contentName t \<and> URL p = URL t \<longleftrightarrow> p = (t :: down_item)"
  by (cases p, cases t) auto

text \<open>A list file with the given items, None when there never was one to write.\<close>

definition file_with :: "string option \<Rightarrow> down_item list \<Rightarrow> string option" where
  "file_with f ds = (if ds = [] then f else Some ((case f of None \<Rightarrow> [] | Some s \<Rightarrow> s) @ list_text ds))"

lemma keep_others_list:
  "\<forall>d \<in> set ds. item_ok d \<Longrightarrow> keep_others p (map (\<lambda>d. item_line d @ [CHR 0x0A]) ds) f =
    Inr (file_with f (filter (\<lambda>d. d \<noteq> p) ds))"
proof (induction ds arbitrary: f)
  case Nil
  then show ?case by (simp add: file_with_def)
next
  case (Cons d ds)
  then show ?case
    by (auto simp: scan_item_line same_item echo_item_ok file_with_def split: option.splits)
qed

lemma edit_eq:
  assumes "holds_items q ds"
  shows "hertUtil_EditDownReqItemList (Some p) b q =
    rbind (if b \<noteq> 0 then echo_item p (file_with None (filter (\<lambda>d. d \<noteq> p) ds))
           else Inr (file_with None (filter (\<lambda>d. d \<noteq> p) ds)))
      (\<lambda>f. Inr (0, q\<lparr>list_file := f, temp_file := list_file q, edit_nRet := 0\<rparr>))"
proof -
  have "lines_of (case list_file q of None \<Rightarrow> [] | Some s \<Rightarrow> s) = map (\<lambda>d. item_line d @ [CHR 0x0A]) ds"
    using assms lines_of_list_text [of ds] by (auto simp: holds_items_def split: option.splits)
  moreover have "(case list_file q of None \<Rightarrow> [] | Some s \<Rightarrow> lines_of s) =
      lines_of (case list_file q of None \<Rightarrow> [] | Some s \<Rightarrow> s)"
    by (simp split: option.splits)
  ultimately show ?thesis
    using assms by (simp add: hertUtil_EditDownReqItemList_def holds_items_def keep_others_list)
qed

text \<open>What an edit leaves: the items of the new file.\<close>

lemma holds_file_with:
  "\<forall>d \<in> set ds. item_ok d \<Longrightarrow>
    holds_items (q\<lparr>list_file := file_with None ds, temp_file := t, edit_nRet := 0\<rparr>) ds"
  by (simp add: holds_items_def file_with_def)

lemma edit_del:
  assumes "holds_items q ds"
  shows "\<exists>q'. hertUtil_EditDownReqItemList (Some p) 0 q = Inr (0, q') \<and>
    holds_items q' (filter (\<lambda>d. d \<noteq> p) ds)"
proof -
  have ok: "\<forall>d \<in> set (filter (\<lambda>d. d \<noteq> p) ds). item_ok d" using assms by (simp add: holds_items_def)
  show ?thesis
    unfolding edit_eq [OF assms] if_not_P [OF not_not [THEN iffD2, OF refl]] rbind_Inr
    using holds_file_with [OF ok] by blast
qed

lemma echo_file_with:
  "item_ok p \<Longrightarrow> echo_item p (file_with None ds) = Inr (file_with None (ds @ [p]))"
  by (simp add: echo_item_ok file_with_def)

lemma edit_add:
  assumes "holds_items q ds" and "item_ok p"
  shows "\<exists>q'. hertUtil_EditDownReqItemList (Some p) 1 q = Inr (0, q') \<and>
    holds_items q' (filter (\<lambda>d. d \<noteq> p) ds @ [p])"
proof -
  have ok: "\<forall>d \<in> set (filter (\<lambda>d. d \<noteq> p) ds @ [p]). item_ok d"
    using assms by (simp add: holds_items_def)
  show ?thesis
    unfolding edit_eq [OF assms(1)] if_P [OF one_neq_zero] echo_file_with [OF assms(2)] rbind_Inr
    using holds_file_with [OF ok] by blast
qed

lemma get_holds:
  assumes "holds_items q ds"
  shows "hertUtil_GetDownReqItemList d0 q = Inr (case ds of [] \<Rightarrow> (1, d0) | d # _ \<Rightarrow> (0, d))"
proof (cases "list_file q")
  case None
  then show ?thesis using assms by (simp add: holds_items_def hertUtil_GetDownReqItemList_def)
next
  case (Some s)
  then have s: "lines_of s = map (\<lambda>d. item_line d @ [CHR 0x0A]) ds"
    using assms by (simp add: holds_items_def lines_of_list_text)
  show ?thesis
  proof (cases ds)
    case Nil
    then show ?thesis using Some s by (simp add: hertUtil_GetDownReqItemList_def)
  next
    case (Cons d es)
    then have "item_ok d" using assms by (simp add: holds_items_def)
    then have "scan_item (item_line d @ [CHR 0x0A]) = Inr d" "contentID d \<noteq> []" "contentName d \<noteq> []"
      "URL d \<noteq> []"
      using scan_item_line by (simp_all add: item_ok_def word_ok_def)
    then show ?thesis using Some s Cons by (simp add: hertUtil_GetDownReqItemList_def)
  qed
qed

section \<open>The interface of the list\<close>

text \<open>
  What the two users of the list rely on: adding an item moves it to the end, removing it takes
  it out, reading gives the first.  \<open>rep\<close> relates a state to its items, \<open>ok\<close> says which items
  the list can hold.
\<close>

locale work_list =
  fixes rep :: "'q \<Rightarrow> 'd list \<Rightarrow> bool" and ok :: "'d \<Rightarrow> bool"
    and add :: "'d \<Rightarrow> 'q \<Rightarrow> 'q option" and del :: "'d \<Rightarrow> 'q \<Rightarrow> 'q option"
    and first :: "'q \<Rightarrow> 'd option"
  assumes rep_add: "rep q ds \<Longrightarrow> ok d \<Longrightarrow>
      \<exists>q'. add d q = Some q' \<and> rep q' (filter (\<lambda>e. e \<noteq> d) ds @ [d])"
    and rep_del: "rep q ds \<Longrightarrow> \<exists>q'. del d q = Some q' \<and> rep q' (filter (\<lambda>e. e \<noteq> d) ds)"
    and rep_first: "rep q ds \<Longrightarrow> first q = (case ds of [] \<Rightarrow> None | d # _ \<Rightarrow> Some d)"

text \<open>The consumer: read the first item, remove it, at most \<open>n\<close> times.\<close>

fun drain :: "('q \<Rightarrow> 'd option) \<Rightarrow> ('d \<Rightarrow> 'q \<Rightarrow> 'q option) \<Rightarrow> nat \<Rightarrow> 'q \<Rightarrow> ('d list \<times> 'q) option" where
  "drain first del 0 q = Some ([], q)"
| "drain first del (Suc n) q = (case first q of
       None \<Rightarrow> Some ([], q)
     | Some d \<Rightarrow> (case del d q of
           None \<Rightarrow> None
         | Some q' \<Rightarrow> map_option (\<lambda>(ds, q''). (d # ds, q'')) (drain first del n q')))"

text \<open>The producer: a sequence of items added one after the other.\<close>

fun add_all :: "('d \<Rightarrow> 'q \<Rightarrow> 'q option) \<Rightarrow> 'd list \<Rightarrow> 'q \<Rightarrow> 'q option" where
  "add_all add [] q = Some q"
| "add_all add (d # ds) q = (case add d q of None \<Rightarrow> None | Some q' \<Rightarrow> add_all add ds q')"

context work_list
begin

lemma drain_all:
  assumes "rep q ds" and "distinct ds" and "length ds \<le> n"
  shows "\<exists>q'. drain first del n q = Some (ds, q') \<and> rep q' []"
  using assms
proof (induction n arbitrary: q ds)
  case 0
  then show ?case by simp
next
  case (Suc n)
  show ?case
  proof (cases ds)
    case Nil
    then show ?thesis using Suc.prems rep_first [of q ds] by simp
  next
    case (Cons d es)
    then have "filter (\<lambda>e. e \<noteq> d) ds = es"
      using Suc.prems(2) by (auto intro!: filter_True)
    then obtain q' where q': "del d q = Some q'" "rep q' es"
      using rep_del [OF Suc.prems(1), of d] by auto
    then obtain q'' where "drain first del n q' = Some (es, q'')" "rep q'' []"
      using Suc.IH [of q' es] Suc.prems Cons by auto
    then show ?thesis using q' Cons rep_first [OF Suc.prems(1)] by simp
  qed
qed

lemma add_all_rep:
  assumes "rep q ds" and "distinct ds" and "\<forall>e \<in> set es. ok e"
  shows "\<exists>q' fs. add_all add es q = Some q' \<and> rep q' fs \<and> distinct fs \<and> set fs = set ds \<union> set es"
  using assms
proof (induction es arbitrary: q ds)
  case Nil
  then show ?case by auto
next
  case (Cons e es)
  then obtain q' where q': "add e q = Some q'" "rep q' (filter (\<lambda>x. x \<noteq> e) ds @ [e])"
    using rep_add [of q ds e] by auto
  have "distinct (filter (\<lambda>x. x \<noteq> e) ds @ [e])" using Cons.prems(2) by simp
  from Cons.IH [OF q'(2) this] Cons.prems(3) show ?case using q'(1) by auto
qed

text \<open>Whatever is added comes out, once, whatever was there before.\<close>

lemma add_then_drain:
  assumes "rep q ds" and "distinct ds" and "\<forall>e \<in> set es. ok e"
  shows "\<exists>q' fs q''. add_all add es q = Some q' \<and>
    drain first del (length ds + length es) q' = Some (fs, q'') \<and> distinct fs \<and>
    set fs = set ds \<union> set es \<and> rep q'' []"
proof -
  obtain q' fs where f: "add_all add es q = Some q'" "rep q' fs" "distinct fs" "set fs = set ds \<union> set es"
    using add_all_rep [OF assms] by auto
  have "length fs = card (set ds \<union> set es)" using f(3,4) distinct_card by metis
  also have "\<dots> \<le> length ds + length es"
    using card_Un_le [of "set ds" "set es"] card_length [of ds] card_length [of es] by linarith
  finally show ?thesis using f drain_all [OF f(2,3)] by blast
qed

end

text \<open>The model's operations behind that interface.\<close>

definition returned :: "(fault + int \<times> 'q) option \<Rightarrow> 'q option" where
  "returned r = (case r of Some (Inr (i, q)) \<Rightarrow> if i = 0 then Some q else None | _ \<Rightarrow> None)"

definition down_add :: "down_item \<Rightarrow> down_list \<Rightarrow> down_list option" where
  "down_add d q = returned (hertUtil_AddDownReqItemList id (Some d) q)"

definition down_del :: "down_item \<Rightarrow> down_list \<Rightarrow> down_list option" where
  "down_del d q = returned (hertUtil_DelDownReqItemList id (Some d) q)"

definition down_first :: "down_list \<Rightarrow> down_item option" where
  "down_first q = (case hertUtil_GetDownReqItemList \<lparr>contentID = [], URL = [], contentName = []\<rparr> q of
       Inr (i, d) \<Rightarrow> if i = 0 then Some d else None | _ \<Rightarrow> None)"

lemma edit_wait_done:
  "hertUtil_EditDownReqItemList p b q = Inr (0, q') \<Longrightarrow> edit_wait sleep p b q = Some (Inr (0, q'))"
  by (subst edit_wait.simps) simp

interpretation downreq: work_list holds_items item_ok down_add down_del down_first
proof
  fix q ds d assume q: "holds_items q ds" and d: "item_ok d"
  obtain q' where "hertUtil_EditDownReqItemList (Some d) 1 q = Inr (0, q')"
    "holds_items q' (filter (\<lambda>e. e \<noteq> d) ds @ [d])"
    using edit_add [OF q d] by blast
  then show "\<exists>q'. down_add d q = Some q' \<and> holds_items q' (filter (\<lambda>e. e \<noteq> d) ds @ [d])"
    by (auto simp: down_add_def returned_def hertUtil_AddDownReqItemList_def edit_wait_done)
next
  fix q ds d assume q: "holds_items q ds"
  obtain q' where "hertUtil_EditDownReqItemList (Some d) 0 q = Inr (0, q')"
    "holds_items q' (filter (\<lambda>e. e \<noteq> d) ds)"
    using edit_del [OF q] by blast
  then show "\<exists>q'. down_del d q = Some q' \<and> holds_items q' (filter (\<lambda>e. e \<noteq> d) ds)"
    by (auto simp: down_del_def returned_def hertUtil_DelDownReqItemList_def edit_wait_done)
next
  fix q ds assume "holds_items q ds"
  then show "down_first q = (case ds of [] \<Rightarrow> None | d # _ \<Rightarrow> Some d)"
    by (cases ds) (simp_all add: down_first_def get_holds)
qed

section \<open>Properties\<close>

text \<open>
  The pending downloads are a list without duplicates: whatever the platform adds, and
  whatever the list held, the download thread reads every item exactly once and leaves the list
  empty.
\<close>

theorem downloads_come_out:
  assumes "holds_items q ds" and "distinct ds" and "\<forall>e \<in> set es. item_ok e"
  shows "\<exists>q' fs q''. add_all down_add es q = Some q' \<and>
    drain down_first down_del (length ds + length es) q' = Some (fs, q'') \<and> distinct fs \<and>
    set fs = set ds \<union> set es \<and> holds_items q'' []"
  using assms by (rule downreq.add_then_drain)

theorem downloads_come_out_witness:
  "\<exists>q' fs q''. add_all down_add [\<lparr>contentID = ''1'', URL = ''u'', contentName = ''n''\<rparr>]
      \<lparr>list_file = None, temp_file = None, edit_nRet = 1\<rparr> = Some q' \<and>
    drain down_first down_del 1 q' = Some (fs, q'') \<and>
    set fs = {\<lparr>contentID = ''1'', URL = ''u'', contentName = ''n''\<rparr>}"
  using downloads_come_out [of "\<lparr>list_file = None, temp_file = None, edit_nRet = 1\<rparr>" "[]"
      "[\<lparr>contentID = ''1'', URL = ''u'', contentName = ''n''\<rparr>]"]
  by (simp add: holds_items_def item_ok_def word_ok_def item_line_def shell_plain_def is_space_def)
     blast

text \<open>
  An item with a quotation mark, a dollar sign, a backquote or a backslash in a word is not
  stored as it is: its text, which comes from the platform's message, is expanded by the shell.
\<close>

theorem AddDownReq_shell:
  assumes "holds_items q ds" and "\<not> shell_plain (item_line p)"
  shows "hertUtil_AddDownReqItemList sleep (Some p) q = Some (Inl ShellExpansion)"
proof -
  have "hertUtil_EditDownReqItemList (Some p) 1 q = Inl ShellExpansion"
    unfolding edit_eq [OF assms(1)] using assms(2) by (simp add: echo_item_def)
  then show ?thesis
    unfolding hertUtil_AddDownReqItemList_def by (subst edit_wait.simps) simp
qed

theorem AddDownReq_shell_witness:
  "hertUtil_AddDownReqItemList id (Some \<lparr>contentID = ''1'', URL = ''$(reboot)'', contentName = ''n''\<rparr>)
      \<lparr>list_file = None, temp_file = None, edit_nRet = 1\<rparr> = Some (Inl ShellExpansion)"
  by (rule AddDownReq_shell [of _ "[]"])
     (simp_all add: holds_items_def shell_plain_def item_line_def)

text \<open>
  An item with a space in its name is read back as another item: the second word of the name
  is taken for the URL.
\<close>

theorem GetDownReq_space_in_name:
  assumes "word_ok 128 i" and "word_ok 128 v" and "word_ok 128 w" and "word_ok 256 u"
    and "length i + length v + length w + length u < 508"
    and "edit_nRet q \<noteq> 2" and "list_file q = None"
  shows "\<exists>q'. hertUtil_AddDownReqItemList sleep
      (Some \<lparr>contentID = i, URL = u, contentName = v @ '' '' @ w\<rparr>) q = Some (Inr (0, q')) \<and>
    hertUtil_GetDownReqItemList d0 q' = Inr (0, \<lparr>contentID = i, URL = w, contentName = v\<rparr>)"
proof -
  let ?p = "\<lparr>contentID = i, URL = u, contentName = v @ '' '' @ w\<rparr>"
  let ?q = "q\<lparr>list_file := Some (item_line ?p @ [CHR 0x0A]), temp_file := None, edit_nRet := 0\<rparr>"
  have "shell_plain (item_line ?p)"
    using assms(1-4) by (simp add: item_line_def shell_plain_def word_ok_def)
  then have "hertUtil_EditDownReqItemList (Some ?p) 1 q = Inr (0, ?q)"
    using assms(6,7) by (simp add: hertUtil_EditDownReqItemList_def echo_item_def)
  then have add: "hertUtil_AddDownReqItemList sleep (Some ?p) q = Some (Inr (0, ?q))"
    by (simp add: hertUtil_AddDownReqItemList_def edit_wait_done)
  have "CHR 0x0A \<notin> set (item_line ?p)" "length (item_line ?p) < 511"
    using assms(1-5) word_no_newline by (auto simp: item_line_def word_ok_def)
  then have f: "fgets 512 (item_line ?p @ CHR 0x0A # []) = (item_line ?p @ [CHR 0x0A], [])"
    by (intro fgets_line) simp_all
  have l: "lines_of (item_line ?p @ [CHR 0x0A]) = [item_line ?p @ [CHR 0x0A]]"
    using f by (subst lines_of.simps) simp
  have "tokens [] = []" by (simp add: tokens.simps)
  then have "tokens (item_line ?p @ [CHR 0x0A]) = [i, v, w, u]"
    using assms(1-4) by (simp add: item_line_def word_ok_def tokens_word)
  then have "scan_item (item_line ?p @ [CHR 0x0A]) = Inr \<lparr>contentID = i, URL = w, contentName = v\<rparr>"
    using assms(1-3) by (simp add: scan_item_def nth_word_def store_word_def word_ok_def)
  then have "hertUtil_GetDownReqItemList d0 ?q = Inr (0, \<lparr>contentID = i, URL = w, contentName = v\<rparr>)"
    using assms(1-3) l by (simp add: hertUtil_GetDownReqItemList_def word_ok_def)
  with add show ?thesis by blast
qed

theorem GetDownReq_space_in_name_witness:
  "\<exists>q'. hertUtil_AddDownReqItemList id
      (Some \<lparr>contentID = ''7'', URL = ''http://h/p.jpg'', contentName = ''my picture''\<rparr>)
      \<lparr>list_file = None, temp_file = None, edit_nRet = 1\<rparr> = Some (Inr (0, q')) \<and>
    hertUtil_GetDownReqItemList \<lparr>contentID = [], URL = [], contentName = []\<rparr> q' =
      Inr (0, \<lparr>contentID = ''7'', URL = ''picture'', contentName = ''my''\<rparr>)"
  using GetDownReq_space_in_name [of "''7''" "''my''" "''picture''" "''http://h/p.jpg''"
      "\<lparr>list_file = None, temp_file = None, edit_nRet = 1\<rparr>" id
      "\<lparr>contentID = [], URL = [], contentName = []\<rparr>"]
  by (simp add: word_ok_def shell_plain_def is_space_def)

end
