(* ===== verification/AppState.thy ===== *)
theory AppState
  imports MsgParse MsgList Nvram DownloadQueue
begin

text \<open>
  The state of the platform client (herouteapp/hert_app.c) and the messages it sends on its own.
  \<open>hert_world\<close> is g_workData, the static variables of the functions, and what the client changes
  outside: the configuration store, the download list, the file with the upgrade information, the
  bytes it sent and the commands it gave.  \<open>hert_env\<close> is what it asks the system: memory, send,
  files, the clock and the state of the device.  An environment holds for one call; a run goes
  through one for each call.
\<close>

section \<open>State and environment\<close>

datatype HERT_STATUS = HERT_UNREGISTER | HERT_REGISTERED

datatype act = System string | Kill nat | MsgSnd "HERT_COM_SUBDEV_BODY"

text \<open>A device the capture process knows, and what arrives from it through the message queue.\<close>

record mac_dev =
  md_mac :: "byte list"
  md_devinfo :: HERT_COM_SUBDEV_BODY

record domain_msg =
  dm_mac :: "byte list"
  dm_ip :: dword
  dm_info :: domain_info

record 'm hert_world =
  status :: HERT_STATUS
  bStopRun :: int
  wd_msgSeq :: dword
  mutex_locked :: bool
  szDstAddress :: string
  szCnnPrtlData :: string
  szCnnUserData :: string
  szCnnPassData :: string
  initData :: HERT_MSG_RSP_PUSH_DATA_VARPART_INIT
  abilityData :: HERT_MSG_REQ_PUSH_DATA_VARPART_ABILITY_NOTIFY
  spaceData :: HERT_MSG_RSP_PUSH_DATA_VARPART_SPACE
  statusData :: HERT_MSG_RSP_PUSH_DATA_VARPART_STATUS
  downData :: HERT_MSG_REQ_PUSH_DATA_VARPART_DOWNLOAD
  upgradeData :: HERT_MSG_RSP_PUSH_DATA_VARPART_GET_UPDATE
  informPlatHour :: int
  informPlatMin :: int
  timingComplete :: int
  currTimeSecond :: dword
  currTimeSecondUpgrade :: dword
  nFirstGetUpgradeInfo :: int
  nIsDownLoading :: int
  tcpdump_pid :: nat
  now_sec :: int
  macList :: "mac_dev list"
  nvram :: "'m nv_state"
  downList :: down_list
  upgradeFile :: "HERT_MSG_RSP_PUSH_DATA_VARPART_GET_UPDATE option"
  aesPwd :: "string option"
  wire :: "(byte list \<times> bool) list"
  acts :: "act list"

record 'm hert_env =
  mem :: "nat \<Rightarrow> bool"
  send_ok :: "(byte list \<times> bool) list \<Rightarrow> byte list \<Rightarrow> bool"
  nvenv :: "'m nv_env"
  log_notice :: bool
  hertdebug :: bool
  wanIP :: string
  lanIP :: string
  storage :: bool
  usb_free :: ddword
  usb_total :: ddword
  devices :: "HERT_COM_SUBDEV_BODY list"
  broadband :: dword
  rate :: string
  wifiOn :: byte
  workStatus :: dword
  seconds :: dword
  now_hours :: dword
  now_mins :: dword
  downloadnow :: bool
  upgrade_open :: bool
  stack_down :: HERT_MSG_REQ_PUSH_DATA_VARPART_DOWNLOAD
  reg400 :: dword
  dir_ok :: bool
  curl_init :: "nat \<Rightarrow> bool"
  out_open :: "nat \<Rightarrow> bool"
  out_size :: "nat \<Rightarrow> int"
  tcpdump_switch :: "string option"
  pid_msgs :: "nat list"
  domain_msgs :: "domain_msg list"
  flow_msgs :: "flow_type_queue list"
  proc_exists :: "nat \<Rightarrow> bool"
  uptime :: int
  stack_mac :: "byte list"
  inet_ntoa :: "dword \<Rightarrow> string"
  date :: "int \<Rightarrow> string"
  traffic :: "ddword \<Rightarrow> string"
  encrypt_switch :: "string option"
  des_key_ok :: bool
  des_block :: "byte list \<Rightarrow> byte list"
  usb_path :: string
  plat_dst :: string
  user_data :: string
  prtl_data :: string
  dev_sn :: string
  dev_type :: string
  fw_version :: string
  dev_mac :: "byte list"
  mac_ok :: bool
  sem_ok :: bool
  heap :: "byte list"

text \<open>
  A handler: the return code and the state it leaves, or the undefined behaviour it runs into.
  CONFIG_DUAL_IMAGE is not defined, so RT2860_NVRAM is block 0.
\<close>

type_synonym 'm outcome = "fault + retcode \<times> 'm hert_world"

definition RT2860_NVRAM :: int where "RT2860_NVRAM = 0"

text \<open>The size of HERT_TRANSACTION's data.\<close>

definition DATA_SIZE :: nat where "DATA_SIZE = 1204"

section \<open>Return codes and calls\<close>

text \<open>\<open>ret = f(...); if (RETCODE_SUCCESS != ret) return ret;\<close> for a function without effect.\<close>

definition on_ret :: "cerr + 'a \<Rightarrow> 'm hert_world \<Rightarrow> ('a \<Rightarrow> 'm outcome) \<Rightarrow> 'm outcome" where
  "on_ret r w k = (case r of
       Inl (Fault f) \<Rightarrow> Inl f
     | Inl (Ret c) \<Rightarrow> Inr (c, w)
     | Inr x \<Rightarrow> k x)"

text \<open>The same for a handler, and the case where a failure is only logged.\<close>

definition and_then :: "'m outcome \<Rightarrow> ('m hert_world \<Rightarrow> 'm outcome) \<Rightarrow> 'm outcome" where
  "and_then r k = rbind r (\<lambda>(c, w). if c = RETCODE_SUCCESS then k w else Inr (c, w))"

definition and_go_on :: "'m outcome \<Rightarrow> (retcode \<Rightarrow> 'm hert_world \<Rightarrow> 'm outcome) \<Rightarrow> 'm outcome" where
  "and_go_on r k = rbind r (\<lambda>(c, w). k c w)"

lemma on_ret_simps [simp]:
  "on_ret (Inr x) w k = k x" "on_ret (Inl (Ret c)) w k = Inr (c, w)" "on_ret (Inl (Fault f)) w k = Inl f"
  by (simp_all add: on_ret_def)

lemma and_then_simps [simp]:
  "and_then (Inl f) k = Inl f" "and_then (Inr (RETCODE_SUCCESS, w)) k = k w"
  "c \<noteq> RETCODE_SUCCESS \<Longrightarrow> and_then (Inr (c, w)) k = Inr (c, w)"
  by (simp_all add: and_then_def)

lemma and_go_on_simps [simp]:
  "and_go_on (Inl f) k = Inl f" "and_go_on (Inr (c, w)) k = k c w"
  by (simp_all add: and_go_on_def)

text \<open>The C string at a pointer into a message.\<close>

definition with_cstr :: "byte list \<Rightarrow> (string \<Rightarrow> 'm outcome) \<Rightarrow> 'm outcome" where
  "with_cstr m k = (case cstr m of None \<Rightarrow> Inl ReadOverrun | Some s \<Rightarrow> k s)"

text \<open>HERT_TCP_SendTransaction and HERT_TCP_SendTransactionExt: one send, no retry.\<close>

definition HERT_TCP_SendTransaction :: "'m hert_env \<Rightarrow> byte list \<Rightarrow> 'm hert_world \<Rightarrow> 'm outcome" where
  "HERT_TCP_SendTransaction e t w =
     (let r = send_ok e (wire w) t in
      Inr (if r then RETCODE_SUCCESS else RETCODE_TCPSOCKET_ERROR, w\<lparr>wire := wire w @ [(t, r)]\<rparr>))"

text \<open>Build and send, as every handler ends.\<close>

definition transact :: "'m hert_env \<Rightarrow> cerr + byte list \<Rightarrow> 'm hert_world \<Rightarrow> 'm outcome" where
  "transact e built w = on_ret built w (\<lambda>t. HERT_TCP_SendTransaction e t w)"

text \<open>++g_workData.msgSeq printed by "%ld".\<close>

definition next_seq :: "'m hert_world \<Rightarrow> 'm hert_world" where
  "next_seq w = w\<lparr>wd_msgSeq := wd_msgSeq w + 1\<rparr>"

definition seq_text :: "'m hert_world \<Rightarrow> string" where
  "seq_text w = show_int (sint (wd_msgSeq w))"

definition own_const :: "string \<Rightarrow> 'm hert_world \<Rightarrow> HERT_MSG_REQ_PUSH_DATA_CONSTPART" where
  "own_const mtype w = \<lparr>version = 0x0010, msgType = mtype, msgSeq = seq_text w\<rparr>"

lemma own_const_simps [simp]:
  "version (own_const t w) = 0x0010" "msgType (own_const t w) = t" "msgSeq (own_const t w) = seq_text w"
  by (simp_all add: own_const_def)

section \<open>Messages of the client\<close>

definition SET_USER_TRUE :: "byte \<Rightarrow> byte" where "SET_USER_TRUE a = 0xff AND (a OR 0x80)"
definition SET_PASS_TRUE :: "byte \<Rightarrow> byte" where "SET_PASS_TRUE a = 0xff AND (a OR 0x40)"

definition Msg_Process_Internel_SendConnReq :: "'m hert_env \<Rightarrow> 'm hert_world \<Rightarrow> 'm outcome" where
  "Msg_Process_Internel_SendConnReq e w =
     (let (h, l) = GetHighLowFromString (szCnnPrtlData w);
          (uh, ul) = GetHighLowFromString (szCnnUserData w);
          (ph, pl) = GetHighLowFromString (szCnnPassData w)
      in transact e (Build_Msg_ConnReq (Some DATA_SIZE) (Some ())
           (Some \<lparr>conn_nHighLength = h, conn_nLowLength = l, conn_pProtocol = Some (szCnnPrtlData w),
             conn_nVer = 1, conn_nConnFlag = SET_PASS_TRUE (SET_USER_TRUE 0),
             conn_nHighTime = 0x01, conn_nLowTime = 0x00\<rparr>)
           (Some \<lparr>nDevHighLength = 0x00, nDevLowLength = 0x00,
             nUserHighLength = uh, nUserLowLength = ul, pUserData = Some (szCnnUserData w),
             nPassHighLength = ph, nPassLowLength = pl, pPassData = Some (szCnnPassData w)\<rparr>)) w)"

text \<open>The strcpy of an address into IP[32], of a version into currentVersion[32].\<close>

definition Msg_Process_Internel_SendPushInitReq :: "'m hert_env \<Rightarrow> 'm hert_world \<Rightarrow> 'm outcome" where
  "Msg_Process_Internel_SendPushInitReq e w =
     (let w = next_seq w in
      on_ret (strcpy_into 32 (if hertdebug e then lanIP e else wanIP e)) w (\<lambda>addr.
        transact e (Build_Msg_InitInfoReq (mem e) (Some DATA_SIZE) (Some ())
          (Some (push_option (szDstAddress w))) (Some (own_const ''MSG_GET_INITINFO_REQ'' w))
          (Some \<lparr>init_devID = abi_devID (abilityData w), init_deviceType = 1, init_IP = addr\<rparr>)) w))"

definition Msg_Process_Internel_SendPushAbiNtfReq :: "'m hert_env \<Rightarrow> 'm hert_world \<Rightarrow> 'm outcome" where
  "Msg_Process_Internel_SendPushAbiNtfReq e w =
     (let w = next_seq w in
      transact e (Build_Msg_AbilityNotifyReq (mem e) (Some DATA_SIZE) (Some ())
        (Some (push_option (szDstAddress w))) (Some (own_const ''MSG_ROUTER_ABILITY_NOTIFY_REQ'' w))
        (Some (abilityData w))) w)"

definition Msg_Process_Internel_SendHeartbeatReq :: "'m hert_env \<Rightarrow> 'm hert_world \<Rightarrow> 'm outcome" where
  "Msg_Process_Internel_SendHeartbeatReq e w = transact e (Build_Msg_PingReq (Some DATA_SIZE)) w"

definition Msg_Process_Internel_SendGetUpgradeInfoReq :: "'m hert_env \<Rightarrow> 'm hert_world \<Rightarrow> 'm outcome" where
  "Msg_Process_Internel_SendGetUpgradeInfoReq e w =
     (let w = next_seq w in
      on_ret (strcpy_into 32 (abi_softVersion (abilityData w))) w (\<lambda>ver.
        transact e (Build_Msg_GetUpgradeInfoReq (mem e) (Some DATA_SIZE) (Some ())
          (Some (push_option (szDstAddress w))) (Some (own_const ''MSG_GET_DEVUPDATE_INFO_REQ'' w))
          (Some \<lparr>upd_devID = abi_devID (abilityData w), upd_type = 2, upd_currentVersion = ver\<rparr>)) w))"

definition Msg_Process_PushData_DoDownloadCompReq ::
  "'m hert_env \<Rightarrow> HERT_MSG_REQ_PUSH_DATA_VARPART_DOWNLOAD \<Rightarrow> 'm hert_world \<Rightarrow> 'm outcome" where
  "Msg_Process_PushData_DoDownloadCompReq e pDownItem w =
     (let w = next_seq w in
      transact e (Build_Msg_DownloadCompReq (mem e) (Some DATA_SIZE) (Some ())
        (Some (push_option (szDstAddress w))) (Some (own_const ''MSG_DOWNLOAD_COMP_NOTIFY_REQ'' w))
        (Some \<lparr>comp_contentID = contentID pDownItem\<rparr>)) w)"

text \<open>Responses are built over a zeroed struct.\<close>

definition own_rsp :: "string \<Rightarrow> 'm hert_world \<Rightarrow> HERT_MSG_RSP_PUSH_DATA_CONSTPART" where
  "own_rsp mtype w = zero_rsp\<lparr>version := 0x0010, msgType := mtype, msgSeq := seq_text w\<rparr>"

text \<open>
  The reports of the capture process.  Their constant part is not zeroed first, but its error
  fields are not read.
\<close>

definition Msg_Process_PushData_UpdateDevConNotifyREQ ::
  "'m hert_env \<Rightarrow> HERT_MSG_OPTION_PUSH_DATA \<Rightarrow> flow_type_queue list \<Rightarrow> 'm hert_world \<Rightarrow> 'm outcome" where
  "Msg_Process_PushData_UpdateDevConNotifyREQ e opt presponse w =
     (let w = next_seq w in
      transact e (Build_Msg_ConNotifyRsp (mem e) (traffic e) (Some opt)
        (Some (own_rsp ''MSG_SUBDEV_CONNECTION_NOTIFY_REQ'' w)) (Some presponse)) w)"

definition Msg_Process_PushData_UpdateDomainNameREQ ::
  "'m hert_env \<Rightarrow> HERT_MSG_OPTION_PUSH_DATA \<Rightarrow> dev_index_type \<Rightarrow> 'm hert_world \<Rightarrow> 'm outcome" where
  "Msg_Process_PushData_UpdateDomainNameREQ e opt pdevindex w =
     (let w = next_seq w in
      transact e (Build_Msg_DomainStauteRsp (mem e) (inet_ntoa e) (date e)
        (domain_text (encrypt_switch e) (des_key_ok e) (des_block e)) (Some opt)
        (Some (own_rsp ''MSG_SUBDEV_STATUS_DOMAINNAME_REQ'' w)) (Some pdevindex)) w)"

lemmas send_defs = Msg_Process_Internel_SendConnReq_def Msg_Process_Internel_SendPushInitReq_def
  Msg_Process_Internel_SendPushAbiNtfReq_def Msg_Process_Internel_SendHeartbeatReq_def
  Msg_Process_Internel_SendGetUpgradeInfoReq_def Msg_Process_PushData_DoDownloadCompReq_def
  Msg_Process_PushData_UpdateDevConNotifyREQ_def Msg_Process_PushData_UpdateDomainNameREQ_def

end
