(* ===== verification/AppPush.thy ===== *)
theory AppPush
  imports AppState
begin

text \<open>
  What the platform client does with a PUSH_DATA message (herouteapp/hert_app.c): one handler
  per message type and Msg_Process_PushData, which takes the received bytes apart and chooses
  the handler.  A handler gets the bytes from the body on, as the pointer ptMsgCnstBody does;
  None is NULL.
\<close>

section \<open>Notifications\<close>

definition Msg_Process_PushData_InitInfoRsp :: "'m hert_env \<Rightarrow> byte list option \<Rightarrow> 'm hert_world \<Rightarrow> 'm outcome" where
  "Msg_Process_PushData_InitInfoRsp e ptMsgCnstBody w = (case ptMsgCnstBody of
       None \<Rightarrow> Inr (RETCODE_INVALID_PARAM, w)
     | Some m \<Rightarrow> with_cstr m (\<lambda>s.
         on_ret (Parse_Msg_InitInfoRsp (Some s) (Some zero_rsp)
             (Some \<lparr>cycle = 0, time = [], timeZone = [], platformVersion = [], password = []\<rparr>) (aesPwd w)) w
           (\<lambda>(_, v, p). Msg_Process_Internel_SendPushAbiNtfReq e (w\<lparr>initData := v, aesPwd := p\<rparr>))))"

text \<open>The three handlers that only parse: AbilityNotifyRsp, RouterStatusNotifyRsp, DownloadCompNotifyRsp.\<close>

definition parse_only :: "byte list option \<Rightarrow> 'm hert_world \<Rightarrow> 'm outcome" where
  "parse_only ptMsgCnstBody w = (case ptMsgCnstBody of
       None \<Rightarrow> Inr (RETCODE_INVALID_PARAM, w)
     | Some m \<Rightarrow> with_cstr m (\<lambda>s.
         on_ret (Parse_Msg_BodyConstPartRsp (Some s) (Some zero_rsp)) w (\<lambda>_. Inr (RETCODE_SUCCESS, w))))"

definition Msg_Process_PushData_AbilityNotifyRsp :: "byte list option \<Rightarrow> 'm hert_world \<Rightarrow> 'm outcome" where
  "Msg_Process_PushData_AbilityNotifyRsp = parse_only"

definition Msg_Process_PushData_RouterStatusNotifyRsp :: "byte list option \<Rightarrow> 'm hert_world \<Rightarrow> 'm outcome" where
  "Msg_Process_PushData_RouterStatusNotifyRsp = parse_only"

definition Msg_Process_PushData_DownloadCompNotifyRsp :: "byte list option \<Rightarrow> 'm hert_world \<Rightarrow> 'm outcome" where
  "Msg_Process_PushData_DownloadCompNotifyRsp = parse_only"

text \<open>The file is written before the state; -2 is the result when it cannot be opened.\<close>

definition Msg_Process_PushData_GetUpdateInfoRsp :: "'m hert_env \<Rightarrow> byte list option \<Rightarrow> 'm hert_world \<Rightarrow> 'm outcome" where
  "Msg_Process_PushData_GetUpdateInfoRsp e ptMsgCnstBody w = (case ptMsgCnstBody of
       None \<Rightarrow> Inr (RETCODE_INVALID_PARAM, w)
     | Some m \<Rightarrow> with_cstr m (\<lambda>s.
         on_ret (Parse_Msg_GetUpdateRsp (Some s) (Some zero_rsp)
             (Some \<lparr>needUpdate = 0, updateUrl = [], updateDescription = []\<rparr>)) w
           (\<lambda>(_, v). if \<not> upgrade_open e then Inr (RETCODE_MINUS 2, w)
              else Inr (RETCODE_SUCCESS, w\<lparr>upgradeFile := Some v, upgradeData := v\<rparr>))))"

section \<open>Requests\<close>

text \<open>A request handler: both pointers, the C string, and what it does with them.\<close>

definition on_request :: "HERT_MSG_OPTION_PUSH_DATA option \<Rightarrow> byte list option \<Rightarrow> 'm hert_world
    \<Rightarrow> (HERT_MSG_OPTION_PUSH_DATA \<Rightarrow> string \<Rightarrow> 'm outcome) \<Rightarrow> 'm outcome" where
  "on_request ptMsgOption ptMsgCnstBody w k = (case (ptMsgOption, ptMsgCnstBody) of
       (Some opt, Some m) \<Rightarrow> with_cstr m (k opt)
     | _ \<Rightarrow> Inr (RETCODE_INVALID_PARAM, w))"

text \<open>The constant part of an answer: version and number of the request over a zeroed struct.\<close>

definition answer_const :: "string \<Rightarrow> HERT_MSG_REQ_PUSH_DATA_CONSTPART \<Rightarrow> HERT_MSG_RSP_PUSH_DATA_CONSTPART" where
  "answer_const mtype c = zero_rsp\<lparr>version := version c, msgType := mtype, msgSeq := msgSeq c\<rparr>"

definition Msg_Process_PushData_RouterStatusReq ::
  "'m hert_env \<Rightarrow> HERT_MSG_OPTION_PUSH_DATA option \<Rightarrow> byte list option \<Rightarrow> int \<Rightarrow> 'm hert_world \<Rightarrow> 'm outcome" where
  "Msg_Process_PushData_RouterStatusReq e ptMsgOption ptMsgCnstBody isSendRequest w =
     on_request ptMsgOption ptMsgCnstBody w (\<lambda>opt s.
       (let report = (\<lambda>c w.
              let v = (statusData w)\<lparr>pDevList := devices e, devNum := word_of_nat (length (devices e)),
                    downbandwidth := broadband e\<rparr>
              in and_go_on (transact e (Build_Msg_RouteStatusRsp (mem e) (Some opt) (Some c) (Some v)
                              isSendRequest) (w\<lparr>statusData := v\<rparr>))
                   (\<lambda>ret w. Inr (ret, w\<lparr>statusData := (statusData w)\<lparr>devNum := 0, pDevList := []\<rparr>\<rparr>)))
        in if isSendRequest = 0
           then on_ret (Parse_Msg_BodyConstPartReq (Some s) (Some zero_req)) w
                  (\<lambda>c. report (answer_const ''MSG_GET_ROUTER_STATUS_RSP'' c) w)
           else (let w = next_seq w in report (own_rsp ''MSG_ROUTER_STATUS_NOTIFY_REQ'' w) w)))"

definition Msg_Process_PushData_RouterSpaceReq ::
  "'m hert_env \<Rightarrow> HERT_MSG_OPTION_PUSH_DATA option \<Rightarrow> byte list option \<Rightarrow> 'm hert_world \<Rightarrow> 'm outcome" where
  "Msg_Process_PushData_RouterSpaceReq e ptMsgOption ptMsgCnstBody w =
     on_request ptMsgOption ptMsgCnstBody w (\<lambda>opt s.
       on_ret (Parse_Msg_BodyConstPartReq (Some s) (Some zero_req)) w (\<lambda>c.
         transact e (Build_Msg_RouteSpaceRsp (mem e) (Some DATA_SIZE) (Some ()) (Some opt)
           (Some (answer_const ''MSG_GET_ROUTER_SPACE_RSP'' c)) (Some (spaceData w))) w))"

definition Msg_Process_PushData_AddDownloadMissionReq ::
  "'m hert_env \<Rightarrow> HERT_MSG_OPTION_PUSH_DATA option \<Rightarrow> byte list option \<Rightarrow> 'm hert_world \<Rightarrow> 'm outcome" where
  "Msg_Process_PushData_AddDownloadMissionReq e ptMsgOption ptMsgCnstBody w =
     on_request ptMsgOption ptMsgCnstBody w (\<lambda>opt s.
       on_ret (Parse_Msg_AddDownloadMissionReq (Some s) (Some zero_req) (Some \<lparr>dlAddress = []\<rparr>)) w (\<lambda>(c, _).
         transact e (Build_Msg_AddDownloadMissionRsp (mem e) (Some DATA_SIZE) (Some ()) (Some opt)
           (Some (answer_const ''MSG_ADD_DOWNLOAD_MISSION_RSP'' c))
           (Some \<lparr>missionNum = 0, pMissionInfo = []\<rparr>)) w))"

text \<open>
  The wireless switch, without RT2860_MBSS_SUPPORT: the commands, then the setting.  \<open>reg400\<close> is
  what strtoul makes of the output of "reg p 400".
\<close>

definition wifi_off_cmds :: "dword \<Rightarrow> string list" where
  "wifi_off_cmds reg =
     [''ifconfig ra0 down'', ''rmmod rt2860v2_ap'', ''reg s b0180000'',
      ''reg w 400 '' @ show_hex (unat (reg AND NOT (push_bit 9 7))), ''reg w 1204 8'', ''reg w 1004 3'']"

definition wifi_on_cmds :: "string list" where
  "wifi_on_cmds = [''insmod -q rt2860v2_ap'', ''ifconfig ra0 up'']"

text \<open>nvram_set and nvram_commit on the state's configuration store; their results are dropped.\<close>

definition set_WiFiOff :: "'m hert_env \<Rightarrow> string \<Rightarrow> 'm hert_world \<Rightarrow> fault + 'm hert_world" where
  "set_WiFiOff e v w = rbind (nvram_set (nvenv e) RT2860_NVRAM ''WiFiOff'' v (nvram w)) (\<lambda>(_, st).
     Inr (w\<lparr>nvram := st\<rparr>))"

definition run_cmds :: "string list \<Rightarrow> 'm hert_world \<Rightarrow> 'm hert_world" where
  "run_cmds cs w = w\<lparr>acts := acts w @ map System cs\<rparr>"

definition wifi_control :: "'m hert_env \<Rightarrow> string \<Rightarrow> 'm hert_world \<Rightarrow> fault + 'm hert_world" where
  "wifi_control e para w =
     rbind (if para = ''1'' then set_WiFiOff e ''1'' (run_cmds (wifi_off_cmds (reg400 e)) w)
            else if para = ''0'' then set_WiFiOff e ''0'' (run_cmds wifi_on_cmds w)
            else Inr w) (\<lambda>w.
     rbind (nvram_commit (nvenv e) RT2860_NVRAM (nvram w)) (\<lambda>(_, st). Inr (w\<lparr>nvram := st\<rparr>)))"

definition Msg_Process_PushData_DeviceOperateReq ::
  "'m hert_env \<Rightarrow> HERT_MSG_OPTION_PUSH_DATA option \<Rightarrow> byte list option \<Rightarrow> 'm hert_world \<Rightarrow> 'm outcome" where
  "Msg_Process_PushData_DeviceOperateReq e ptMsgOption ptMsgCnstBody w =
     on_request ptMsgOption ptMsgCnstBody w (\<lambda>opt s.
       on_ret (Parse_Msg_DeviceOperateReq (Some s) (Some zero_req) (Some \<lparr>operType = 0, operPara = []\<rparr>)) w (\<lambda>(c, v).
       rbind (if operType v = 1 then wifi_control e (operPara v) w else Inr w) (\<lambda>w.
       and_then (transact e (Build_Msg_DeviceOperateRsp (mem e) (Some DATA_SIZE) (Some ()) (Some opt)
                   (Some (answer_const ''MSG_DEVICE_OPERATION_RSP'' c))) w) (\<lambda>w.
         Inr (RETCODE_SUCCESS, if atoi (operPara v) = 0 then run_cmds [''internet.sh''] w else w)))))"

text \<open>strncpy of "RSP" over the first "REQ" of the type.\<close>

definition rsp_type :: "string \<Rightarrow> string" where
  "rsp_type t = (case strstr t ''REQ'' of
       None \<Rightarrow> t
     | Some p \<Rightarrow> take (length t - length p) t @ ''RSP'' @ drop 3 p)"

definition szErrVersion :: string where
  "szErrVersion = map char_at [0xE7,0x89,0x88,0xE6,0x9C,0xAC,0xE5,0xA4,0xAA,0xE4,0xBD,0x8E]"

definition Msg_Process_PushData_UnknowDataReq ::
  "'m hert_env \<Rightarrow> HERT_MSG_OPTION_PUSH_DATA option \<Rightarrow> byte list option \<Rightarrow> 'm hert_world \<Rightarrow> 'm outcome" where
  "Msg_Process_PushData_UnknowDataReq e ptMsgOption ptMsgCnstBody w =
     on_request ptMsgOption ptMsgCnstBody w (\<lambda>opt s.
       on_ret (Parse_Msg_UnknowDataReq (Some s) (Some zero_req)) w (\<lambda>c.
         transact e (Build_Msg_UnknowDataRsp (mem e) (Some DATA_SIZE) (Some ()) (Some opt)
           (Some ((answer_const (rsp_type (msgType c)) c)\<lparr>errorCode := 0x6003, description := szErrVersion\<rparr>))) w))"

text \<open>
  The local tMsgVarBody is not cleared before the parser fills it.  The mutex wakes the download
  thread; hertUtil_AddDownReqItemList is called while no other thread is in it.
\<close>

definition Msg_Process_PushData_DownLoadImgReq ::
  "'m hert_env \<Rightarrow> HERT_MSG_OPTION_PUSH_DATA option \<Rightarrow> byte list option \<Rightarrow> 'm hert_world \<Rightarrow> 'm outcome" where
  "Msg_Process_PushData_DownLoadImgReq e ptMsgOption ptMsgCnstBody w =
     on_request ptMsgOption ptMsgCnstBody w (\<lambda>opt s.
       on_ret (Parse_Msg_DownloadReq (Some s) (Some zero_req) (Some (stack_down e))) w (\<lambda>(c, v).
         (let rsp = answer_const ''MSG_DOWNLOAD_IMG_RSP'' c in
          if \<not> storage e then
            transact e (Build_Msg_DownloadRsq (mem e) (Some DATA_SIZE) (Some ()) (Some opt)
              (Some (rsp\<lparr>errorCode := 0x0001, description := ''The storage is not exist!''\<rparr>))) w
          else (case hertUtil_AddDownReqItemList id (Some v) (downList w) of
                 None \<Rightarrow> Inl Blocked
               | Some r \<Rightarrow> rbind r (\<lambda>(_, q).
                   transact e (Build_Msg_DownloadRsq (mem e) (Some DATA_SIZE) (Some ()) (Some opt)
                     (Some rsp)) (w\<lparr>downData := v, downList := q, mutex_locked := False\<rparr>))))))"

section \<open>Msg_Process_PushData\<close>

text \<open>The strstr chain over the message type.\<close>

definition has_type :: "string \<Rightarrow> string \<Rightarrow> bool" where
  "has_type t n = (strstr t n \<noteq> None)"

definition dispatch_push ::
  "'m hert_env \<Rightarrow> string \<Rightarrow> HERT_MSG_OPTION_PUSH_DATA \<Rightarrow> byte list \<Rightarrow> 'm hert_world \<Rightarrow> 'm outcome" where
  "dispatch_push e t opt body w =
     (if has_type t ''MSG_GET_INITINFO_RSP'' then Msg_Process_PushData_InitInfoRsp e (Some body) w
      else if has_type t ''MSG_ROUTER_ABILITY_NOTIFY_RSP'' then Msg_Process_PushData_AbilityNotifyRsp (Some body) w
      else if has_type t ''MSG_GET_ROUTER_SPACE_REQ'' then
        Msg_Process_PushData_RouterSpaceReq e (Some opt) (Some body) w
      else if has_type t ''MSG_GET_ROUTER_STATUS_REQ'' then
        Msg_Process_PushData_RouterStatusReq e (Some opt) (Some body) 0 w
      else if has_type t ''MSG_DOWNLOAD_IMG_REQ'' then
        Msg_Process_PushData_DownLoadImgReq e (Some opt) (Some body) w
      else if has_type t ''MSG_DOWNLOAD_COMP_NOTIFY_RSP'' then
        Msg_Process_PushData_DownloadCompNotifyRsp (Some body) w
      else if has_type t ''MSG_GET_DEVUPDATE_INFO_RSP'' then
        Msg_Process_PushData_GetUpdateInfoRsp e (Some body) w
      else if has_type t ''MSG_ROUTER_STATUS_NOTIFY_RSP'' then
        Msg_Process_PushData_RouterStatusNotifyRsp (Some body) w
      else if has_type t ''MSG_ADD_DOWNLOAD_MISSION_REQ'' then
        Msg_Process_PushData_AddDownloadMissionReq e (Some opt) (Some body) w
      else if has_type t ''MSG_DEVICE_OPERATION_REQ'' then
        Msg_Process_PushData_DeviceOperateReq e (Some opt) (Some body) w
      else if has_type t ''MSG_SUBDEV_STATUS_DOMAINNAME_RSP'' \<or>
        has_type t ''MSG_SUBDEV_CONNECTION_NOTIFY_RSP'' \<or> has_type t ''MSG_ROUTER_STATUS_NOTIFY_RSP'' \<or>
        has_type t ''MSG_DOWNLOAD_COMP_NOTIFY_RSP'' \<or> has_type t ''MSG_ROUTER_ABILITY_NOTIFY_RSP''
      then Inr (RETCODE_SUCCESS, w)
      else Msg_Process_PushData_UnknowDataReq e (Some opt) (Some body) w)"

text \<open>
  malloc and memcpy of the option text, dwOptionLen bytes as an unsigned number.  When malloc
  fails the loop that logs the bytes reads through the NULL pointer, if logging is on.  Bytes
  from the first on are kept; COPY_STR later copies none when the first is NUL.
\<close>

definition take_option :: "'m hert_env \<Rightarrow> byte list \<Rightarrow> nat \<Rightarrow> fault + string option" where
  "take_option e src dwOptionLen =
     (if mem e ((dwOptionLen + 1) mod 2 ^ 32) then
        (if dwOptionLen \<le> length src then
           Inr (Some (if take 1 src = [0] then [] else map char_at (take dwOptionLen src)))
         else Inl ReadOverrun)
      else if 0 < dwOptionLen \<and> log_notice e then Inl NullDeref
      else Inr None)"

text \<open>
  A message whose data start at position \<open>p\<close>: the option, the type and the handler.  The body is
  taken to start dwOptionLen + 2 bytes behind ptMsg, not behind the option.  The flag says
  whether a handler ran; without one Msg_Process_PushData returns at once.
\<close>

definition push_body :: "'m hert_env \<Rightarrow> byte list \<Rightarrow> nat \<Rightarrow> nat \<Rightarrow> 'm hert_world \<Rightarrow>
    fault + retcode \<times> 'm hert_world \<times> bool" where
  "push_body e m nMsgDataLen p w =
     (if length m < p + 2 then Inl ReadOverrun
      else
        (let h = m ! p; l = m ! (p + 1);
             dwOptionLen = nat (GetLengthFromTwoBytes h l mod 2 ^ 32);
             ptMsgCnstBody = drop (dwOptionLen + 2) m;
             dwDataLen = (int nMsgDataLen - int dwOptionLen - 2) mod 2 ^ 32
         in rbind (take_option e (drop (p + 2) m) dwOptionLen) (\<lambda>o'.
            (case Parse_Msg_PushData_Type (Some ptMsgCnstBody) dwDataLen (Some 63) of
               Inl (Fault f) \<Rightarrow> Inl f
             | Inl (Ret c) \<Rightarrow> Inr (c, w, False)
             | Inr t \<Rightarrow> rbind (dispatch_push e (map char_at (takeWhile (\<lambda>b. b \<noteq> 0) t))
                               \<lparr>nHighLength = h, nLowLength = l, pData = o'\<rparr> ptMsgCnstBody w)
                 (\<lambda>(c, w). Inr (c, w, True))))))"

text \<open>
  One message of the received bytes \<open>m\<close>, of which nMsgDataLen are left: the result, and how many
  bytes further the next message starts (None: this was the last).  The length Parse_Msg_Data
  returns is below \<open>2 ^ 29\<close>, so the sums with it do not wrap.
\<close>

definition push_one :: "'m hert_env \<Rightarrow> byte list \<Rightarrow> nat \<Rightarrow> 'm hert_world \<Rightarrow>
    fault + retcode \<times> 'm hert_world \<times> nat option" where
  "push_one e m nMsgDataLen w =
     (if nMsgDataLen = 0 then Inr (RETCODE_INVALID_PARAM, w, None)
      else (case Parse_Msg_Data (Some m) of
          Inl (Fault f) \<Rightarrow> Inl f
        | Inl (Ret _) \<Rightarrow> Inr (RETCODE_NO_MEMORY, w, None)
        | Inr (p, dwDataLen) \<Rightarrow>
            (let used = p + unat dwDataLen in
             if nMsgDataLen < used then Inr (RETCODE_INVALID_MSGDATA, w, None)
             else rbind (push_body e m nMsgDataLen p w) (\<lambda>(c, w, done').
               Inr (c, w, if done' \<and> used + 4 < nMsgDataLen then Some used else None)))))"

text \<open>The jump back to Process_PushData_Start, while there is a next message.\<close>

function (sequential) Msg_Process_PushData_Loop :: "'m hert_env \<Rightarrow> byte list \<Rightarrow> nat \<Rightarrow> 'm hert_world \<Rightarrow> 'm outcome" where
  "Msg_Process_PushData_Loop e m nMsgDataLen w = (case push_one e m nMsgDataLen w of
       Inl f \<Rightarrow> Inl f
     | Inr (c, w', None) \<Rightarrow> Inr (c, w')
     | Inr (c, w', Some used) \<Rightarrow> Msg_Process_PushData_Loop e (drop used m) (nMsgDataLen - used) w')"
  by pat_completeness auto

text \<open>Every message has at least its type byte, and a next message leaves at least five bytes.\<close>

lemma pmd_loop_position: "pmd_loop k i m p len = Inr (q, len') \<Longrightarrow> p \<le> q"
proof (induction k arbitrary: i p len)
  case 0
  then show ?case by simp
next
  case (Suc k)
  then show ?case by (fastforce simp: res_simps split: if_splits)
qed

lemma Parse_Msg_Data_position: "Parse_Msg_Data (Some m) = Inr (p, n) \<Longrightarrow> 1 \<le> p"
  by (auto simp: Parse_Msg_Data_def res_simps dest: pmd_loop_position)

lemma push_one_next:
  assumes "push_one e m n w = Inr (c, w', Some used)"
  shows "0 < used \<and> used + 4 < n"
  using assms Parse_Msg_Data_position [of m]
  by (auto simp: push_one_def Let_def res_simps split: if_splits sum.splits cerr.splits
      dest: order_less_le_trans)

termination Msg_Process_PushData_Loop
  by (relation "measure (\<lambda>(e, m, n, w). n)") (auto dest!: push_one_next)

declare Msg_Process_PushData_Loop.simps [simp del]

definition Msg_Process_PushData :: "'m hert_env \<Rightarrow> byte list option \<Rightarrow> nat \<Rightarrow> 'm hert_world \<Rightarrow> 'm outcome" where
  "Msg_Process_PushData e ptMsg nMsgDataLen w = (case ptMsg of
       None \<Rightarrow> Inr (RETCODE_INVALID_PARAM, w)
     | Some m \<Rightarrow> Msg_Process_PushData_Loop e m nMsgDataLen w)"

end
