(* ===== verification/AppRun.thy ===== *)
theory AppRun
  imports AppPush
begin

text \<open>
  The client as a state machine (herouteapp/hert_app.c): what Msg_Process_Internel does every
  time select runs into its timeout, Msg_Process_Entry for received bytes, HERT_APP_Init and the
  loop of main, and the passes of the download thread.  A step of the program is one pass of the
  main loop or of the thread; each runs to its end before the next begins.
\<close>

section \<open>The capture process\<close>

record dev_index = dev_index_type +
  ix_mac :: "byte list"

definition hertUtil_maccmp :: "byte list \<Rightarrow> byte list \<Rightarrow> bool" where
  "hertUtil_maccmp a b = (a ! 0 = b ! 0 \<and> a ! 1 = b ! 1 \<and> a ! 2 = b ! 2 \<and>
     a ! 3 = b ! 3 \<and> a ! 4 = b ! 4 \<and> a ! 5 = b ! 5)"

text \<open>
  sscanf of "%2hx:...": up to six groups of hex digits.  Each group is stored as a short, so on this
  little-endian processor the byte behind the last one read is cleared, and the further ones stay
  as malloc left them (a device address has no white space, sign or 0x in it, which %hx would
  also take).
\<close>

definition hex_val :: "char \<Rightarrow> nat option" where
  "hex_val c = (let n = of_char c :: nat in
     if 48 \<le> n \<and> n \<le> 57 then Some (n - 48)
     else if 97 \<le> n \<and> n \<le> 102 then Some (n - 87)
     else if 65 \<le> n \<and> n \<le> 70 then Some (n - 55)
     else None)"

fun scan_mac :: "nat \<Rightarrow> string \<Rightarrow> byte list" where
  "scan_mac 0 s = []"
| "scan_mac (Suc k) [] = []"
| "scan_mac (Suc k) (c # s) = (case hex_val c of
       None \<Rightarrow> []
     | Some x \<Rightarrow> (case s of
           [] \<Rightarrow> [word_of_nat x]
         | d # s' \<Rightarrow> (case hex_val d of
               None \<Rightarrow> word_of_nat x # (if d = CHR '':'' then scan_mac k s' else [])
             | Some y \<Rightarrow> word_of_nat (16 * x + y) #
                 (case s' of [] \<Rightarrow> [] | b # s'' \<Rightarrow> if b = CHR '':'' then scan_mac k s'' else []))))"

definition parse_strToMac :: "byte list \<Rightarrow> string \<Rightarrow> byte list" where
  "parse_strToMac garbage s = (let xs = scan_mac 6 s
     in if xs = [] then garbage else take 6 (xs @ 0 # drop (length xs + 1) garbage))"

text \<open>
  A domain name goes behind the first one of its device.  The allocations of a queue element (8
  bytes) and of its data (264) are not tested.
\<close>

definition queue_insert :: "'a \<Rightarrow> 'a list \<Rightarrow> 'a list" where
  "queue_insert x q = (case q of [] \<Rightarrow> [x] | y # ys \<Rightarrow> y # x # ys)"

fun hertUtil_add_domain_queue ::
  "'m hert_env \<Rightarrow> dev_index list \<Rightarrow> domain_msg \<Rightarrow> nat \<Rightarrow> fault + dev_index list \<times> nat" where
  "hertUtil_add_domain_queue e [] msg tot = Inr ([], tot)"
| "hertUtil_add_domain_queue e (d # ds) msg tot =
     (if hertUtil_maccmp (ix_mac d) (dm_mac msg) then
        (if \<not> mem e 8 \<or> \<not> mem e 264 then Inl NullDeref
         else (let d' = d\<lparr>domain_queue := queue_insert (dm_info msg) (domain_queue d),
                    ip := (if domain_queue d = [] then dm_ip msg else ip d), num := num d + 1\<rparr>
               in if 5000 < tot + 264 then Inr (d' # ds, tot + 264)
                  else rbind (hertUtil_add_domain_queue e ds msg (tot + 264)) (\<lambda>(ds, t). Inr (d' # ds, t))))
      else rbind (hertUtil_add_domain_queue e ds msg tot) (\<lambda>(ds, t). Inr (d # ds, t)))"

fun add_domains ::
  "'m hert_env \<Rightarrow> domain_msg list \<Rightarrow> dev_index list \<Rightarrow> nat \<Rightarrow> fault + dev_index list" where
  "add_domains e [] ds tot = Inr ds"
| "add_domains e (m # ms) ds tot =
     rbind (hertUtil_add_domain_queue e ds m tot) (\<lambda>(ds, t). add_domains e ms ds t)"

definition hertUtil_isClientOnline :: "byte list \<Rightarrow> dev_index list \<Rightarrow> bool" where
  "hertUtil_isClientOnline mc ds = list_ex (\<lambda>d. hertUtil_maccmp mc (ix_mac d)) ds"

definition hertUtil_isTcpdumpOn :: "'m hert_env \<Rightarrow> nat \<Rightarrow> bool \<times> nat" where
  "hertUtil_isTcpdumpOn e pid =
     (if pid = 0 then (False, 0) else if proc_exists e pid then (True, pid) else (False, 0))"

definition hertUtil_TcpdumpFlag :: "string option \<Rightarrow> int" where
  "hertUtil_TcpdumpFlag line = (case line of
       None \<Rightarrow> - 1
     | Some tmp \<Rightarrow> if strstr tmp ''OPEN'' = None then - 1 else 0)"

text \<open>Starting the capture process, at most every 30 seconds, or waking it.\<close>

definition tcpdump_start :: "'m hert_env \<Rightarrow> 'm hert_world \<Rightarrow> 'm hert_world" where
  "tcpdump_start e w =
     (let pid = (if pid_msgs e = [] then tcpdump_pid w else last (pid_msgs e));
          (on, pid) = hertUtil_isTcpdumpOn e pid;
          w = w\<lparr>tcpdump_pid := pid\<rparr>
      in if on then w\<lparr>acts := acts w @ [Kill pid]\<rparr>
         else if uptime e - now_sec w > 30 \<or> now_sec w = 0 then
           (run_cmds [''killall tcpdump'', ''tcpdump -XvvennSs 0 -i br0 tcp >/dev/zero &''] w)\<lparr>now_sec := uptime e\<rparr>
         else w)"

text \<open>One domain report per device; the last result stands.\<close>

fun send_domains :: "'m hert_env \<Rightarrow> dev_index list \<Rightarrow> retcode \<Rightarrow> 'm hert_world \<Rightarrow> 'm outcome" where
  "send_domains e [] ret w = Inr (ret, w)"
| "send_domains e (d # ds) ret w =
     and_go_on (Msg_Process_PushData_UpdateDomainNameREQ e (push_option (szDstAddress w))
                  (dev_index_type.truncate d) w)
       (\<lambda>ret w. send_domains e ds ret w)"

text \<open>Devices of the last round that are gone.\<close>

fun report_left :: "'m hert_env \<Rightarrow> mac_dev list \<Rightarrow> dev_index list \<Rightarrow> 'm hert_world \<Rightarrow> 'm hert_world" where
  "report_left e [] ds w = w"
| "report_left e (m # ms) ds w =
     (if hertUtil_isClientOnline (md_mac m) ds then report_left e ms ds w
      else (let (on, pid) = hertUtil_isTcpdumpOn e (tcpdump_pid w); w = w\<lparr>tcpdump_pid := pid\<rparr>
            in report_left e ms ds
                 (if on then w\<lparr>acts := acts w @ [MsgSnd (md_devinfo m), Kill pid]\<rparr> else w)))"

text \<open>
  The block of Msg_Process_Internel under \<open>if(!hertUtil_TcpdumpFlag())\<close>.  The allocations for the
  device tables (24 and 280 bytes per device) and the queue of flows (296 each) are not tested.
  The address of a device is set by its first domain name, and is not read without one.
\<close>

definition no_devices :: "'m hert_world \<Rightarrow> 'm hert_world" where
  "no_devices w = w\<lparr>statusData := (statusData w)\<lparr>devNum := 0, pDevList := []\<rparr>\<rparr>"

definition dev_indexes :: "'m hert_env \<Rightarrow> dev_index list" where
  "dev_indexes e = map (\<lambda>d. \<lparr>num = 0, ip = 0, devinfo = d, domain_queue = [],
     ix_mac = parse_strToMac (stack_mac e) (mac d)\<rparr>) (devices e)"

definition Tcpdump_Process :: "'m hert_env \<Rightarrow> retcode \<Rightarrow> 'm hert_world \<Rightarrow> 'm outcome" where
  "Tcpdump_Process e ret w =
     (let w = tcpdump_start e (no_devices w);
          w = w\<lparr>statusData := (statusData w)\<lparr>pDevList := devices e,
                 devNum := word_of_nat (length (devices e))\<rparr>\<rparr>;
          n = length (devices e)
      in if devices e \<noteq> [] \<and> (\<not> mem e (n * 24) \<or> \<not> mem e (n * 280)) then Inl NullDeref
         else rbind (if devices e = [] then Inr [] else add_domains e (domain_msgs e) (dev_indexes e) (n * 8)) (\<lambda>ds.
           and_go_on (send_domains e ds ret w) (\<lambda>ret w.
             (let w = (report_left e (macList w) ds w)\<lparr>macList :=
                    map (\<lambda>d. \<lparr>md_mac = ix_mac d, md_devinfo = devinfo d\<rparr>) ds\<rparr>
              in if flow_msgs e = [] then Inr (ret, no_devices w)
                 else if \<not> mem e 296 then Inl NullDeref
                 else and_go_on (Msg_Process_PushData_UpdateDevConNotifyREQ e (push_option (szDstAddress w))
                                   (rev (flow_msgs e)) w)
                        (\<lambda>ret w. Inr (ret, no_devices w))))))"

section \<open>Downloads\<close>

text \<open>
  The download with its three repetitions: False is a file that is still empty.  A file that
  cannot be opened is closed all the same.
\<close>

function download_try :: "'m hert_env \<Rightarrow> nat \<Rightarrow> fault + bool" where
  "download_try e nRetry =
     (if curl_init e nRetry \<and> \<not> out_open e nRetry then Inl NullDeref
      else if out_size e nRetry \<le> 0 then
        (if nRetry + 1 \<le> 3 then download_try e (nRetry + 1) else Inr False)
      else Inr True)"
  by pat_completeness auto
termination
  by (relation "measure (\<lambda>(e, n). 3 - n)") auto

declare download_try.simps [simp del]

definition Msg_Process_Internel_DownloadForUpgrade :: "'m hert_env \<Rightarrow> 'm hert_world \<Rightarrow> 'm outcome" where
  "Msg_Process_Internel_DownloadForUpgrade e w =
     (if nIsDownLoading w \<noteq> 0 then Inr (RETCODE_SUCCESS, w)
      else (let w = run_cmds [''echo rm -rf /var/fmdownresult''] w in
        if \<not> downloadnow e then Inr (RETCODE_SUCCESS, w\<lparr>nIsDownLoading := 0\<rparr>)
        else rbind (download_try e 0) (\<lambda>ok.
          Inr (RETCODE_SUCCESS, (run_cmds [''rm -rf /var/downloadnow 2>/dev/null'',
              if ok then ''echo successdownfm > /var/fmdownresult'' else ''echo faileddownfm > /var/fmdownresult''] w)
            \<lparr>nIsDownLoading := 0\<rparr>))))"

text \<open>
  One pass of the download thread; None when it waits for the mutex.  szOutfilename has 128
  chars, the directory name 64.
\<close>

definition DownLoad_pass :: "'m hert_env \<Rightarrow> 'm hert_world \<Rightarrow> (fault + 'm hert_world) option" where
  "DownLoad_pass e w =
     (if bStopRun w \<noteq> 0 then Some (Inr (w\<lparr>bStopRun := 2\<rparr>))
      else (case hertUtil_GetDownReqItemList \<lparr>contentID = [], URL = [], contentName = []\<rparr> (downList w) of
          Inl f \<Rightarrow> Some (Inl f)
        | Inr (r, item) \<Rightarrow>
            if r \<noteq> 0 then (if mutex_locked w then None else Some (Inr (w\<lparr>mutex_locked := True\<rparr>)))
            else if 64 \<le> length (usb_path e) + 8 then Some (Inl WriteOverflow)
            else if \<not> dir_ok e then Some (Inr w)
            else if 128 \<le> length (usb_path e) + 9 + length (contentName item) then Some (Inl WriteOverflow)
            else Some (rbind (download_try e 0) (\<lambda>_.
              (case hertUtil_DelDownReqItemList id (Some item) (downList w) of
                 None \<Rightarrow> Inl Blocked
               | Some d \<Rightarrow> rbind d (\<lambda>(_, q).
                   rbind (Msg_Process_PushData_DoDownloadCompReq e item (w\<lparr>downList := q\<rparr>))
                     (\<lambda>(_, w). Inr w)))))))"

text \<open>
  The download tool: nRetry is cleared in every round, so an empty file is downloaded again and
  again.  The result is the round that ended it.
\<close>

partial_function (option) Msg_Process_Internel_download :: "'m hert_env \<Rightarrow> nat \<Rightarrow> (fault + nat) option" where
  "Msg_Process_Internel_download e n =
     (if curl_init e n \<and> \<not> out_open e n then Some (Inl NullDeref)
      else if out_size e n \<le> 0 then Msg_Process_Internel_download e (Suc n)
      else Some (Inr n))"

section \<open>Msg_Process_Internel\<close>

definition zero_init :: HERT_MSG_RSP_PUSH_DATA_VARPART_INIT where
  "zero_init = \<lparr>cycle = 0, time = [], timeZone = [], platformVersion = [], password = []\<rparr>"

definition Msg_Process_Internel_UpdateSpaceData :: "'m hert_env \<Rightarrow> 'm hert_world \<Rightarrow> 'm hert_world" where
  "Msg_Process_Internel_UpdateSpaceData e w =
     (if \<not> storage e then
        w\<lparr>spaceData := \<lparr>diskStatus = 1, totalSpace = 0, usedSpace = 0, leftSpace = 0\<rparr>\<rparr>
      else w\<lparr>spaceData := \<lparr>diskStatus = 0, totalSpace = usb_total e,
        usedSpace = usb_total e - usb_free e, leftSpace = usb_free e\<rparr>\<rparr>)"

definition Msg_Process_Internel_UpdateStatusData :: "'m hert_env \<Rightarrow> 'm hert_world \<Rightarrow> fault + 'm hert_world" where
  "Msg_Process_Internel_UpdateStatusData e w =
     (if 16 \<le> length (rate e) then Inl WriteOverflow
      else Inr (w\<lparr>statusData := (statusData w)\<lparr>wifiStatus := (if wifiOn e = 1 then 0 else 1),
        devStatus := 0, runStatus := workStatus e, downbandwidth := broadband e, broadbandRate := rate e\<rparr>\<rparr>))"

text \<open>The flag is the result 2: the name of the device has changed.\<close>

definition Msg_Process_Internel_UpdateParameter :: "'m hert_env \<Rightarrow> 'm hert_world \<Rightarrow> fault + bool \<times> 'm hert_world" where
  "Msg_Process_Internel_UpdateParameter e w =
     rbind (nvram_bufget (nvenv e) RT2860_NVRAM ''SSID1'' (nvram w)) (\<lambda>(ssid, st).
       (let w = w\<lparr>nvram := st\<rparr> in
        if 64 \<le> length ssid then Inl ReadOverrun
        else if abi_devName (abilityData w) \<noteq> ssid then
          Inr (True, w\<lparr>abilityData := (abilityData w)\<lparr>abi_devName := ssid\<rparr>\<rparr>)
        else Inr (False, w)))"

text \<open>Heartbeat, upgrade information and download, once the init data are there.\<close>

definition internel_heartbeat :: "'m hert_env \<Rightarrow> 'm hert_world \<Rightarrow> 'm outcome" where
  "internel_heartbeat e w =
     (let c = (if cycle (initData w) = 0 then 120 else cycle (initData w)) in
      if currTimeSecond w + c < seconds e then
        and_then (Msg_Process_Internel_SendHeartbeatReq e w)
          (\<lambda>w. Inr (RETCODE_SUCCESS, w\<lparr>currTimeSecond := seconds e\<rparr>))
      else Inr (RETCODE_SUCCESS, w))"

definition internel_upgrade :: "'m hert_env \<Rightarrow> 'm hert_world \<Rightarrow> 'm outcome" where
  "internel_upgrade e w =
     (if nFirstGetUpgradeInfo w \<noteq> 0 \<or> currTimeSecondUpgrade w + 120 < seconds e then
        and_then (Msg_Process_Internel_SendGetUpgradeInfoReq e (w\<lparr>nFirstGetUpgradeInfo := 0\<rparr>))
          (\<lambda>w. Inr (RETCODE_SUCCESS, w\<lparr>currTimeSecondUpgrade := seconds e\<rparr>))
      else Inr (RETCODE_SUCCESS, w))"

definition internel_online :: "'m hert_env \<Rightarrow> 'm hert_world \<Rightarrow> 'm outcome" where
  "internel_online e w =
     and_then (internel_heartbeat e w) (\<lambda>w. and_then (internel_upgrade e w) (\<lambda>w.
       if downloadnow e then and_go_on (Msg_Process_Internel_DownloadForUpgrade e w) (\<lambda>_ w. Inr (RETCODE_SUCCESS, w))
       else Inr (RETCODE_SUCCESS, w)))"

text \<open>
  The daily report.  The hour and minute are compared as unsigned numbers.  After the report the
  option's address, which is the array in g_workData, is given to free.
\<close>

definition timing_reset :: "'m hert_env \<Rightarrow> 'm hert_world \<Rightarrow> 'm hert_world" where
  "timing_reset e w =
     (if timingComplete w = 1 \<and> word_of_int (informPlatHour w) \<le> now_hours e \<and>
        word_of_int (informPlatMin w) < now_mins e
      then w\<lparr>timingComplete := 0\<rparr> else w)"

definition inform_due :: "'m hert_env \<Rightarrow> 'm hert_world \<Rightarrow> bool" where
  "inform_due e w = (timingComplete w = 0 \<and> now_hours e = word_of_int (informPlatHour w) \<and>
     now_mins e = word_of_int (informPlatMin w))"

definition internel_inform :: "'m hert_env \<Rightarrow> retcode \<Rightarrow> 'm hert_world \<Rightarrow> 'm outcome" where
  "internel_inform e ret w =
     (let w = timing_reset e w in
      if inform_due e w then
        and_go_on (Msg_Process_PushData_RouterStatusReq e (Some (push_option (szDstAddress w)))
            (Some (bytes_of ''timing inform to plat'' @ [0])) 1 w)
          (\<lambda>_ _. Inl BadFree)
      else Inr (ret, w))"

definition Msg_Process_Internel :: "'m hert_env \<Rightarrow> 'm hert_world \<Rightarrow> 'm outcome" where
  "Msg_Process_Internel e w =
     (if status w \<noteq> HERT_REGISTERED then Msg_Process_Internel_SendConnReq e w
      else and_then (if initData w = zero_init then Msg_Process_Internel_SendPushInitReq e w
                     else internel_online e w) (\<lambda>w.
        rbind (Msg_Process_Internel_UpdateStatusData e (Msg_Process_Internel_UpdateSpaceData e w)) (\<lambda>w.
        rbind (Msg_Process_Internel_UpdateParameter e w) (\<lambda>(changed, w).
        and_then (if changed then Msg_Process_Internel_SendPushAbiNtfReq e w else Inr (RETCODE_SUCCESS, w)) (\<lambda>w.
        and_go_on (if hertUtil_TcpdumpFlag (tcpdump_switch e) = 0
                   then Tcpdump_Process e RETCODE_SUCCESS w else Inr (RETCODE_SUCCESS, w)) (\<lambda>ret w.
          internel_inform e ret w))))))"

section \<open>Msg_Process_Entry\<close>

definition CNRSPERR_SUCCESS :: byte where "CNRSPERR_SUCCESS = 0"

text \<open>A NULL option is logged and read all the same.\<close>

definition Msg_Process_ConnResp :: "HERT_MSG_OPTION_CONN_RSP option \<Rightarrow> 'm hert_world \<Rightarrow> 'm outcome" where
  "Msg_Process_ConnResp ptMsgOption w = (case ptMsgOption of
       None \<Rightarrow> Inl NullDeref
     | Some opt \<Rightarrow> Inr (RETCODE_SUCCESS,
         if nErrCode opt = CNRSPERR_SUCCESS then w\<lparr>status := HERT_REGISTERED\<rparr> else w))"

definition Msg_Process_Entry :: "'m hert_env \<Rightarrow> byte list option \<Rightarrow> nat \<Rightarrow> 'm hert_world \<Rightarrow> 'm outcome" where
  "Msg_Process_Entry e ptMsg nMsgDataLen w = (case ptMsg of
       None \<Rightarrow> Msg_Process_Internel e w
     | Some m \<Rightarrow> on_ret (rd m 0) w (\<lambda>b.
         (let t = GET_MSG_TYPE b in
          if t = PING_RESP then Inr (RETCODE_SUCCESS, w)
          else if t = CONN_RESP then
            on_ret (Parse_Msg_ConnRsp (Some m) \<lparr>nRever = 0, nErrCode = 0\<rparr>) w
              (\<lambda>opt. Msg_Process_ConnResp (Some opt) w)
          else if t = PUSH_DATA then
            (if status w \<noteq> HERT_REGISTERED then Inr (RETCODE_SUCCESS, w)
             else Msg_Process_PushData e (Some m) nMsgDataLen w)
          else Inr (RETCODE_SUCCESS, w))))"

section \<open>HERT_APP_Init\<close>

text \<open>The time of the daily report from the bytes 5 to 10 of the device name, as signed chars.\<close>

definition rand_source :: "byte list \<Rightarrow> int" where
  "rand_source szDevName = sum_list (map (\<lambda>i. sint (szDevName ! i)) [5..<11])"

definition inform_hour :: "int \<Rightarrow> int" where
  "inform_hour rs = (let i = c_div (c_mod rs 24) 6 in if i < 4 then 18 + i else 18)"

definition inform_min :: "int \<Rightarrow> int" where
  "inform_min rs = (let i = c_mod (c_mod rs 24) 6 in if i < 6 then 0 + i * 10 else 0)"

text \<open>
  The device name: made from the MAC address after a factory reset, else the SSID, of which
  memcpy takes 64 bytes whatever its length; \<open>heap\<close> is what lies behind it.
\<close>

definition init_devname :: "'m hert_env \<Rightarrow> string \<Rightarrow> string \<Rightarrow> fault + byte list" where
  "init_devname e first ssid =
     (if first = ''1'' then
        Inr (take 64 (bytes_of (''CMCC_'' @ concat (map hex2 (take 3 (drop 3 (dev_mac e))))) @ replicate 64 0))
      else if length (bytes_of ssid @ [0] @ heap e) < 64 then Inl ReadOverrun
      else Inr (take 64 (bytes_of ssid @ [0] @ heap e)))"

definition mac_hex :: "'m hert_env \<Rightarrow> string" where
  "mac_hex e = concat (map hex2 (dev_mac e))"

definition mac_colon :: "'m hert_env \<Rightarrow> string" where
  "mac_colon e = tl (concat (map (\<lambda>b. CHR '':'' # hex2 b) (dev_mac e)))"

definition pass_data :: "'m hert_env \<Rightarrow> string" where
  "pass_data e = [CHR ''{'', CHR 0x22] @ ''SN'' @ [CHR 0x22, CHR '':'', CHR 0x22] @ dev_sn e @ mac_hex e
     @ [CHR 0x22, CHR '','', CHR 0x22] @ ''MAC'' @ [CHR 0x22, CHR '':'', CHR 0x22] @ mac_colon e
     @ [CHR 0x22, CHR ''}'']"

text \<open>sprintf or strcpy into an array of \<open>n\<close> chars.\<close>

definition fit :: "nat \<Rightarrow> string \<Rightarrow> fault + string" where
  "fit n s = (if length s < n then Inr s else Inl WriteOverflow)"

text \<open>memset of g_workData.\<close>

definition zero_workdata :: "'m hert_world \<Rightarrow> 'm hert_world" where
  "zero_workdata w = w\<lparr>status := HERT_UNREGISTER, bStopRun := 0, wd_msgSeq := 0, mutex_locked := False,
     szDstAddress := [], szCnnPrtlData := [], szCnnUserData := [], szCnnPassData := [],
     initData := zero_init,
     abilityData := \<lparr>abi_devID = [], abi_devName = [], abi_fac = [], abi_type = [], abi_softVersion = []\<rparr>,
     spaceData := \<lparr>diskStatus = 0, totalSpace = 0, usedSpace = 0, leftSpace = 0\<rparr>,
     statusData := \<lparr>devStatus = 0, runStatus = 0, downbandwidth = 0, broadbandRate = [], wifiStatus = 0,
       devNum = 0, pDevList = []\<rparr>,
     downData := \<lparr>contentID = [], URL = [], contentName = []\<rparr>,
     upgradeData := \<lparr>needUpdate = 0, updateUrl = [], updateDescription = []\<rparr>,
     informPlatHour := 0, informPlatMin := 0, timingComplete := 0\<rparr>"

text \<open>From the MAC address on; without one HERT_APP_Init returns early, as a success.\<close>

definition init_identity :: "'m hert_env \<Rightarrow> byte list \<Rightarrow> 'm hert_world \<Rightarrow> 'm outcome" where
  "init_identity e szDevName w =
     (if \<not> mac_ok e then Inr (RETCODE_SUCCESS, w)
      else rbind (fit 128 (pass_data e)) (\<lambda>pass. rbind (fit 64 (dev_sn e @ mac_hex e)) (\<lambda>ident.
        (case cstr szDevName of None \<Rightarrow> Inl ReadOverrun | Some dn \<Rightarrow>
         rbind (fit 32 (dev_type e)) (\<lambda>typ. rbind (fit 256 (fw_version e)) (\<lambda>fw.
           (let w = w\<lparr>szCnnPassData := pass, mutex_locked := True,
                  abilityData := \<lparr>abi_devID = ident, abi_devName = dn, abi_fac = ''DARE'',
                    abi_type = typ, abi_softVersion = fw\<rparr>\<rparr>;
                rs = rand_source szDevName
            in if \<not> sem_ok e then Inr (RETCODE_INTERNEAL_ERROR, w)
               else Inr (RETCODE_SUCCESS, w\<lparr>informPlatHour := inform_hour rs,
                      informPlatMin := inform_min rs, timingComplete := 0\<rparr>))))))))"

definition HERT_APP_Init :: "'m hert_env \<Rightarrow> 'm hert_world \<Rightarrow> 'm outcome" where
  "HERT_APP_Init e w =
     rbind (nvram_bufget (nvenv e) RT2860_NVRAM ''SSID1'' (nvram w)) (\<lambda>(ssid, st).
     rbind (nvram_bufget (nvenv e) RT2860_NVRAM ''IS_THE_FIRSTTIME_START'' st) (\<lambda>(first, st).
     rbind (init_devname e first ssid) (\<lambda>szDevName.
     rbind (fit 64 (plat_dst e)) (\<lambda>dst. rbind (fit 64 (user_data e)) (\<lambda>user.
     rbind (fit 64 (prtl_data e)) (\<lambda>prtl.
       init_identity e szDevName ((zero_workdata w)\<lparr>nvram := st, szDstAddress := dst,
         szCnnUserData := user, szCnnPrtlData := prtl\<rparr>)))))))"

section \<open>The main loop\<close>

text \<open>
  HERT_TCP_RecvTransaction: recv of up to 2400 bytes into HERT_TRANSACTION, which has 1208 with
  its length; an empty list is a result of 0 or less.
\<close>

definition HERT_TCP_RecvTransaction :: "byte list \<Rightarrow> fault + (byte list \<times> nat) option" where
  "HERT_TCP_RecvTransaction xs =
     (if xs = [] then Inr None
      else if DATA_SIZE + 4 < length xs then Inl WriteOverflow
      else Inr (Some (take DATA_SIZE (xs @ replicate DATA_SIZE 0), length xs)))"

datatype event = SelectFailed | Timeout | Readable "byte list"

text \<open>
  HERT_APP_UnInit and the jump to hert_restart: the download thread stops, everything is
  initialised again.  None is main returning.
\<close>

definition restart :: "'m hert_env \<Rightarrow> nat \<Rightarrow> 'm hert_world \<Rightarrow> fault + (nat \<times> 'm hert_world) option" where
  "restart e k w = rbind (HERT_APP_Init e w) (\<lambda>(c, w).
     Inr (if c = RETCODE_SUCCESS then Some (k, w) else None))"

text \<open>One pass of the loop; \<open>k\<close> is nRecvZeroCount.\<close>

definition main_step :: "'m hert_env \<Rightarrow> event \<Rightarrow> nat \<Rightarrow> 'm hert_world \<Rightarrow> fault + (nat \<times> 'm hert_world) option" where
  "main_step e ev k w = (case ev of
       SelectFailed \<Rightarrow> Inr (Some (k, w))
     | Timeout \<Rightarrow> rbind (Msg_Process_Entry e None 0 w) (\<lambda>(c, w).
         if c = RETCODE_TCPSOCKET_ERROR \<and> wanIP e \<noteq> [] then restart e k w else Inr (Some (k, w)))
     | Readable xs \<Rightarrow> rbind (HERT_TCP_RecvTransaction xs) (\<lambda>r. (case r of
         None \<Rightarrow> if wanIP e \<noteq> [] \<and> 3 \<le> k + 1 then restart e 0 w else Inr (Some (k + 1, w))
       | Some (m, n) \<Rightarrow> rbind (Msg_Process_Entry e (Some m) n w) (\<lambda>(c, w).
           if c = RETCODE_TCPSOCKET_ERROR \<and> wanIP e \<noteq> [] then restart e 0 w else Inr (Some (0, w))))))"

text \<open>The states the program can be in after HERT_APP_Init: passes of the loop and of the thread.\<close>

inductive hert_reach :: "'m hert_world \<Rightarrow> nat \<Rightarrow> 'm hert_world \<Rightarrow> bool" for w0 where
  reach_init: "HERT_APP_Init e w0 = Inr (RETCODE_SUCCESS, w) \<Longrightarrow> hert_reach w0 0 w"
| reach_main: "hert_reach w0 k w \<Longrightarrow> bStopRun w = 0 \<Longrightarrow> main_step e ev k w = Inr (Some (k', w')) \<Longrightarrow>
    hert_reach w0 k' w'"
| reach_thread: "hert_reach w0 k w \<Longrightarrow> DownLoad_pass e w = Some (Inr w') \<Longrightarrow> hert_reach w0 k w'"

end
