(* ===== verification/AppProps.thy ===== *)
theory AppProps
  imports AppRun
begin

text \<open>
  What holds of the platform client in every state it can reach, and what its steps do.  The
  interface \<open>sending\<close> collects what building and sending messages may touch; it is used for the
  invariant of the state and for the registration.
\<close>

section \<open>Invariants through the calls\<close>

definition holds :: "('m hert_world \<Rightarrow> bool) \<Rightarrow> 'm outcome \<Rightarrow> bool" where
  "holds I r = (case r of Inl _ \<Rightarrow> True | Inr p \<Rightarrow> I (snd p))"

lemma holds_simps [simp]: "holds I (Inl f)" "holds I (Inr p) = I (snd p)"
  by (simp_all add: holds_def)

lemma holds_on_ret: "I w \<Longrightarrow> (\<And>x. r = Inr x \<Longrightarrow> holds I (k x)) \<Longrightarrow> holds I (on_ret r w k)"
  by (simp add: on_ret_def split: sum.split cerr.split)

lemma holds_and_then: "holds I r \<Longrightarrow> (\<And>w. I w \<Longrightarrow> holds I (k w)) \<Longrightarrow> holds I (and_then r k)"
  by (cases r) (auto simp: and_then_def split: prod.split)

lemma holds_and_go_on: "holds J r \<Longrightarrow> (\<And>c w. J w \<Longrightarrow> holds I (k c w)) \<Longrightarrow> holds I (and_go_on r k)"
  by (cases r) (auto simp: and_go_on_def split: prod.split)

lemma holds_rbind: "(\<And>x. r = Inr x \<Longrightarrow> holds I (k x)) \<Longrightarrow> holds I (rbind r k)"
  by (cases r) simp_all

lemma holds_with_cstr: "(\<And>s. holds I (k s)) \<Longrightarrow> holds I (with_cstr m k)"
  by (simp add: with_cstr_def split: option.split)

lemma holds_on_request: "I w \<Longrightarrow> (\<And>opt s. holds I (k opt s)) \<Longrightarrow> holds I (on_request p m w k)"
  by (auto simp: on_request_def holds_with_cstr split: option.split)

lemma holds_D: "holds I r \<Longrightarrow> r = Inr (c, w) \<Longrightarrow> I w"
  by simp

lemmas holds_intros = holds_on_ret holds_and_then holds_rbind holds_with_cstr holds_on_request

text \<open>
  Building and sending a message touches the record of sent bytes and the message number only:
  an invariant that does not speak of them survives every message of the client.
\<close>

locale sending =
  fixes I :: "'m hert_world \<Rightarrow> bool"
  assumes I_wire: "I w \<Longrightarrow> I (w\<lparr>wire := x\<rparr>)"
    and I_seq: "I w \<Longrightarrow> I (w\<lparr>wd_msgSeq := q\<rparr>)"

context sending
begin

lemma keeps_next_seq: "I w \<Longrightarrow> I (next_seq w)"
  by (simp add: next_seq_def I_seq)

lemma keeps_transact: "I w \<Longrightarrow> holds I (transact e b w)"
  unfolding transact_def by (rule holds_on_ret) (simp_all add: HERT_TCP_SendTransaction_def Let_def I_wire)

lemma keeps_sends:
  assumes "I w"
  shows "holds I (Msg_Process_Internel_SendConnReq e w)"
    "holds I (Msg_Process_Internel_SendPushInitReq e w)"
    "holds I (Msg_Process_Internel_SendPushAbiNtfReq e w)"
    "holds I (Msg_Process_Internel_SendHeartbeatReq e w)"
    "holds I (Msg_Process_Internel_SendGetUpgradeInfoReq e w)"
    "holds I (Msg_Process_PushData_DoDownloadCompReq e d w)"
    "holds I (Msg_Process_PushData_UpdateDevConNotifyREQ e opt fs w)"
    "holds I (Msg_Process_PushData_UpdateDomainNameREQ e opt ix w)"
  using assms unfolding send_defs Let_def
  by (auto intro!: holds_on_ret keeps_transact keeps_next_seq split: prod.split)

lemma keeps_send_domains: "I w \<Longrightarrow> holds I (send_domains e ds ret w)"
  by (induction ds arbitrary: ret w) (auto intro!: holds_and_go_on [where J = I] keeps_sends)

end

section \<open>The invariant of the client\<close>

text \<open>
  Every text fits its array; outside the handlers no device list is held; the download list is
  free for the next edit; no upgrade is marked as running; and the flag of the daily report is
  still 0.
\<close>

definition abi_fits :: "HERT_MSG_REQ_PUSH_DATA_VARPART_ABILITY_NOTIFY \<Rightarrow> bool" where
  "abi_fits a = (length (abi_devID a) < 64 \<and> length (abi_devName a) < 128 \<and> length (abi_fac a) < 32
     \<and> length (abi_type a) < 32 \<and> length (abi_softVersion a) < 256)"

definition texts_fit :: "'m hert_world \<Rightarrow> bool" where
  "texts_fit w = (init_fits (initData w) \<and> upgrade_fits (upgradeData w) \<and> abi_fits (abilityData w)
     \<and> length (broadbandRate (statusData w)) < 16 \<and> length (szDstAddress w) < 64
     \<and> length (szCnnPrtlData w) < 64 \<and> length (szCnnUserData w) < 64 \<and> length (szCnnPassData w) < 128)"

definition no_list :: "'m hert_world \<Rightarrow> bool" where
  "no_list w = (devNum (statusData w) = 0 \<and> pDevList (statusData w) = [])"

definition idle :: "'m hert_world \<Rightarrow> bool" where
  "idle w = (edit_nRet (downList w) \<noteq> 2 \<and> nIsDownLoading w = 0 \<and> bStopRun w = 0 \<and> timingComplete w = 0)"

definition world_ok :: "HERT_STATUS \<Rightarrow> 'm hert_world \<Rightarrow> bool" where
  "world_ok s w = (texts_fit w \<and> no_list w \<and> idle w \<and> status w = s)"

lemmas ok_defs = world_ok_def texts_fit_def no_list_def idle_def

interpretation ok: sending "world_ok s" for s :: HERT_STATUS
  by unfold_locales (simp_all add: ok_defs)

text \<open>Between two calls of a report the device list may be there: the rest of the invariant.\<close>

definition world_ok' :: "HERT_STATUS \<Rightarrow> 'm hert_world \<Rightarrow> bool" where
  "world_ok' s w = (texts_fit w \<and> idle w \<and> status w = s)"

interpretation okl: sending "world_ok' s" for s :: HERT_STATUS
  by unfold_locales (simp_all add: world_ok'_def ok_defs)

lemma ok_frame [simp]:
  "world_ok s (w\<lparr>nvram := st\<rparr>) = world_ok s w"
  "world_ok s (w\<lparr>acts := a\<rparr>) = world_ok s w"
  "world_ok s (w\<lparr>aesPwd := p\<rparr>) = world_ok s w"
  "world_ok s (w\<lparr>upgradeFile := f\<rparr>) = world_ok s w"
  "world_ok s (w\<lparr>downData := d\<rparr>) = world_ok s w"
  "world_ok s (w\<lparr>mutex_locked := b\<rparr>) = world_ok s w"
  "world_ok s (w\<lparr>spaceData := p'\<rparr>) = world_ok s w"
  "world_ok s (w\<lparr>currTimeSecond := t\<rparr>) = world_ok s w"
  "world_ok s (w\<lparr>currTimeSecondUpgrade := t\<rparr>) = world_ok s w"
  "world_ok s (w\<lparr>nFirstGetUpgradeInfo := i\<rparr>) = world_ok s w"
  by (simp_all add: ok_defs)

lemma ok_run_cmds [simp]: "world_ok s (run_cmds cs w) = world_ok s w"
  by (simp add: run_cmds_def)

lemma ok_init: "world_ok s w \<Longrightarrow> init_fits v \<Longrightarrow> world_ok s (w\<lparr>initData := v\<rparr>)"
  by (simp add: ok_defs)

lemma ok_upgrade: "world_ok s w \<Longrightarrow> upgrade_fits v \<Longrightarrow> world_ok s (w\<lparr>upgradeData := v\<rparr>)"
  by (simp add: ok_defs)

lemma ok_down: "world_ok s w \<Longrightarrow> edit_nRet q \<noteq> 2 \<Longrightarrow> world_ok s (w\<lparr>downList := q\<rparr>)"
  by (simp add: ok_defs)

text \<open>The message handlers.\<close>

lemma zero_rsp_fits: "rsp_fits zero_rsp" "const_fits zero_req"
  by (simp_all add: zero_rsp_def zero_req_def fits_defs)

lemma ok_InitInfoRsp:
  assumes "world_ok s w"
  shows "holds (world_ok s) (Msg_Process_PushData_InitInfoRsp e m w)"
  unfolding Msg_Process_PushData_InitInfoRsp_def
proof (cases m, simp add: assms, simp only: option.simps, intro holds_with_cstr holds_on_ret assms)
  fix t x
  assume p: "Parse_Msg_InitInfoRsp (Some t) (Some zero_rsp)
      (Some \<lparr>cycle = 0, time = [], timeZone = [], platformVersion = [], password = []\<rparr>) (aesPwd w) = Inr x"
  obtain c v q where x: "x = (c, v, q)" by (cases x)
  have "init_fits v"
    using InitInfoRsp_fits [OF p [unfolded x] zero_rsp_fits(1)] by (simp add: init_fits_def)
  then have "world_ok s (w\<lparr>initData := v, aesPwd := q\<rparr>)" using assms by (simp add: ok_init)
  then show "holds (world_ok s) (case x of (_, v, p) \<Rightarrow>
      Msg_Process_Internel_SendPushAbiNtfReq e (w\<lparr>initData := v, aesPwd := p\<rparr>))"
    unfolding x by (simp add: ok.keeps_sends)
qed

lemma ok_parse_only: "world_ok s w \<Longrightarrow> holds (world_ok s) (parse_only m w)"
  unfolding parse_only_def by (cases m) (auto intro!: holds_with_cstr holds_on_ret)

lemma ok_GetUpdateInfoRsp:
  assumes "world_ok s w"
  shows "holds (world_ok s) (Msg_Process_PushData_GetUpdateInfoRsp e m w)"
  unfolding Msg_Process_PushData_GetUpdateInfoRsp_def
proof (cases m, simp add: assms, simp only: option.simps, intro holds_with_cstr holds_on_ret assms)
  fix t x
  assume p: "Parse_Msg_GetUpdateRsp (Some t) (Some zero_rsp)
      (Some \<lparr>needUpdate = 0, updateUrl = [], updateDescription = []\<rparr>) = Inr x"
  obtain c v where x: "x = (c, v)" by (cases x)
  have "upgrade_fits v"
    using GetUpdateRsp_fits [OF p [unfolded x] zero_rsp_fits(1)] by (simp add: upgrade_fits_def)
  then show "holds (world_ok s) (case x of (_, v) \<Rightarrow> if \<not> upgrade_open e then Inr (RETCODE_MINUS 2, w)
      else Inr (RETCODE_SUCCESS, w\<lparr>upgradeFile := Some v, upgradeData := v\<rparr>))"
    unfolding x using assms by (simp add: ok_upgrade)
qed

lemma ok_lift: "world_ok s w \<Longrightarrow> world_ok' s (w\<lparr>statusData := v\<rparr>) \<longleftrightarrow> length (broadbandRate v) < 16"
  by (auto simp: ok_defs world_ok'_def)

lemma ok_unlift: "world_ok' s w \<Longrightarrow> world_ok s (w\<lparr>statusData := (statusData w)\<lparr>devNum := 0, pDevList := []\<rparr>\<rparr>)"
  by (simp add: ok_defs world_ok'_def)

lemma ok_unlift': "world_ok' s w \<Longrightarrow> world_ok s (no_devices w)"
  unfolding no_devices_def by (rule ok_unlift)

lemma ok_rate: "world_ok s w \<Longrightarrow> length (broadbandRate (statusData w)) < 16"
  by (simp add: ok_defs)

lemma ok_RouterStatusReq:
  assumes "world_ok s w"
  shows "holds (world_ok s) (Msg_Process_PushData_RouterStatusReq e opt m i w)"
proof -
  have report: "holds (world_ok s) (and_go_on (transact e b (w\<lparr>statusData := (statusData w)
        \<lparr>pDevList := ds, devNum := n, downbandwidth := bw\<rparr>\<rparr>))
      (\<lambda>ret w. Inr (ret, w\<lparr>statusData := (statusData w)\<lparr>devNum := 0, pDevList := []\<rparr>\<rparr>)))"
    if "world_ok s w" for w :: "'a hert_world" and b ds n bw
    using ok_rate [OF that]
    by (intro holds_and_go_on [where J = "world_ok' s"] okl.keeps_transact)
       (simp_all add: ok_lift [OF that] ok_unlift)
  show ?thesis
    unfolding Msg_Process_PushData_RouterStatusReq_def Let_def
    using assms by (intro holds_on_request assms) (auto intro!: holds_on_ret report ok.keeps_next_seq)
qed

lemma ok_RouterSpaceReq:
  "world_ok s w \<Longrightarrow> holds (world_ok s) (Msg_Process_PushData_RouterSpaceReq e opt m w)"
  unfolding Msg_Process_PushData_RouterSpaceReq_def
  by (intro holds_on_request holds_on_ret ok.keeps_transact)

lemma ok_AddDownloadMissionReq:
  "world_ok s w \<Longrightarrow> holds (world_ok s) (Msg_Process_PushData_AddDownloadMissionReq e opt m w)"
  unfolding Msg_Process_PushData_AddDownloadMissionReq_def
  by (intro holds_on_request holds_on_ret) (auto intro: ok.keeps_transact split: prod.split)

lemma ok_UnknowDataReq:
  "world_ok s w \<Longrightarrow> holds (world_ok s) (Msg_Process_PushData_UnknowDataReq e opt m w)"
  unfolding Msg_Process_PushData_UnknowDataReq_def
  by (intro holds_on_request holds_on_ret ok.keeps_transact)

lemma ok_wifi_control: "world_ok s w \<Longrightarrow> wifi_control e p w = Inr w' \<Longrightarrow> world_ok s w'"
  by (auto simp: wifi_control_def set_WiFiOff_def rbind_eq_Inr split: if_splits prod.splits)

lemma ok_DeviceOperateReq:
  assumes "world_ok s w"
  shows "holds (world_ok s) (Msg_Process_PushData_DeviceOperateReq e opt m w)"
  unfolding Msg_Process_PushData_DeviceOperateReq_def
proof (intro holds_on_request holds_on_ret assms)
  fix opt :: HERT_MSG_OPTION_PUSH_DATA and t
    and x :: "HERT_MSG_REQ_PUSH_DATA_CONSTPART \<times> HERT_MSG_REQ_PUSH_DATA_VARPART_DEVICEOPERATE"
  obtain c v where x: "x = (c, v)" by (cases x)
  have "world_ok s w'" if "(if operType v = 1 then wifi_control e (operPara v) w else Inr w) = Inr w'" for w'
    using that assms ok_wifi_control by (auto split: if_splits)
  then show "holds (world_ok s) (case x of (c, v) \<Rightarrow>
      rbind (if operType v = 1 then wifi_control e (operPara v) w else Inr w) (\<lambda>w.
        and_then (transact e (Build_Msg_DeviceOperateRsp (mem e) (Some DATA_SIZE) (Some ()) (Some opt)
            (Some (answer_const ''MSG_DEVICE_OPERATION_RSP'' c))) w) (\<lambda>w.
          Inr (RETCODE_SUCCESS, if atoi (operPara v) = 0 then run_cmds [''internet.sh''] w else w))))"
    unfolding x by (auto intro!: holds_rbind holds_and_then ok.keeps_transact)
qed

text \<open>An edit of the download list leaves it free, whatever its text.\<close>

lemma edit_free:
  "hertUtil_EditDownReqItemList p b q = Inr (r, q') \<Longrightarrow> edit_nRet q \<noteq> 2 \<Longrightarrow> edit_nRet q' \<noteq> 2 \<and> r \<noteq> 2"
  by (auto simp: hertUtil_EditDownReqItemList_def rbind_eq_Inr split: option.splits if_splits)

lemma edit_wait_free:
  assumes "edit_nRet q \<noteq> 2" and "edit_wait sleep p b q = Some (Inr (r, q'))"
  shows "edit_nRet q' \<noteq> 2"
proof (cases "hertUtil_EditDownReqItemList p b q")
  case (Inl f)
  then show ?thesis using assms(2) by (subst (asm) edit_wait.simps) simp
next
  case (Inr x)
  obtain r1 q1 where x: "x = (r1, q1)" by (cases x)
  have "edit_nRet q1 \<noteq> 2 \<and> r1 \<noteq> 2" using edit_free Inr x assms(1) by blast
  then show ?thesis using assms(2) Inr x by (subst (asm) edit_wait.simps) auto
qed

text \<open>So a caller that finds the list free never waits.\<close>

lemma edit_wait_returns: "edit_nRet q \<noteq> 2 \<Longrightarrow> edit_wait sleep p b q \<noteq> None"
  using edit_free [of p b q] by (subst edit_wait.simps) (auto split: sum.split)

lemma ok_edit: "world_ok s w \<Longrightarrow> edit_wait id p b (downList w) = Some (Inr (r, q)) \<Longrightarrow> edit_nRet q \<noteq> 2"
  by (rule edit_wait_free) (auto simp: ok_defs)

lemma ok_DownLoadImgReq:
  assumes "world_ok s w"
  shows "holds (world_ok s) (Msg_Process_PushData_DownLoadImgReq e opt m w)"
  unfolding Msg_Process_PushData_DownLoadImgReq_def Let_def hertUtil_AddDownReqItemList_def
  using assms ok_edit [OF assms]
  by (intro holds_on_request holds_on_ret assms)
     (auto intro!: ok.keeps_transact holds_rbind simp: ok_down split: prod.split option.split)

lemmas ok_handlers = ok_InitInfoRsp ok_parse_only ok_GetUpdateInfoRsp ok_RouterStatusReq ok_RouterSpaceReq
  ok_AddDownloadMissionReq ok_UnknowDataReq ok_DeviceOperateReq ok_DownLoadImgReq

lemma ok_dispatch: "world_ok s w \<Longrightarrow> holds (world_ok s) (dispatch_push e t opt body w)"
  unfolding dispatch_push_def Msg_Process_PushData_AbilityNotifyRsp_def
    Msg_Process_PushData_RouterStatusNotifyRsp_def Msg_Process_PushData_DownloadCompNotifyRsp_def
  by (simp add: ok_handlers)

lemma type_case:
  "(case T of Inl (Ret c) \<Rightarrow> Inr (c, w, False) | Inl (Fault f) \<Rightarrow> Inl f | Inr t \<Rightarrow> k t) = Inr (c', w', b) \<Longrightarrow>
    w' = w \<or> (\<exists>t. k t = Inr (c', w', b))"
  by (cases T) (auto split: cerr.splits)

text \<open>A message leaves the state as it is, or as its handler left it.\<close>

lemma push_body_dispatch:
  "push_body e m n p w = Inr (c, w', b) \<Longrightarrow>
    w' = w \<or> (\<exists>t opt body. dispatch_push e t opt body w = Inr (c, w'))"
  unfolding push_body_def Let_def
  by (split if_split_asm, simp)
     (elim rbind_eq_Inr [THEN iffD1, THEN exE] conjE,
      auto dest!: type_case simp: rbind_eq_Inr simp del: One_nat_def add_2_eq_Suc' add_Suc_right)

lemma ok_push_body: "world_ok s w \<Longrightarrow> push_body e m n p w = Inr (c, w', b) \<Longrightarrow> world_ok s w'"
  using push_body_dispatch holds_D [OF ok_dispatch] by blast

lemma ok_push_one: "world_ok s w \<Longrightarrow> push_one e m n w = Inr (c, w', nx) \<Longrightarrow> world_ok s w'"
  by (auto simp: push_one_def Let_def rbind_eq_Inr split: if_splits sum.splits cerr.splits
      dest: ok_push_body)

lemma ok_push_loop: "world_ok s w \<Longrightarrow> holds (world_ok s) (Msg_Process_PushData_Loop e m n w)"
proof (induction e m n w rule: Msg_Process_PushData_Loop.induct)
  case (1 e m n w)
  show ?case
  proof (cases "push_one e m n w")
    case (Inl f)
    then show ?thesis by (simp add: Msg_Process_PushData_Loop.simps)
  next
    case (Inr x)
    obtain c w' nx where x: "x = (c, w', nx)" by (cases x)
    have w': "world_ok s w'" using ok_push_one 1(2) Inr x by blast
    have "holds (world_ok s) (Msg_Process_PushData_Loop e (drop u m) (n - u) w')" if "nx = Some u" for u
      by (rule 1(1) [OF Inr _ _ _ w']) (simp_all add: x that)
    then show ?thesis
      using Inr x w' by (subst Msg_Process_PushData_Loop.simps) (simp split: option.split)
  qed
qed

section \<open>Msg_Process_Internel keeps the invariant\<close>

lemma ok_heartbeat: "world_ok s w \<Longrightarrow> holds (world_ok s) (internel_heartbeat e w)"
  unfolding internel_heartbeat_def Let_def by (auto intro!: holds_and_then ok.keeps_sends)

lemma ok_get_upgrade: "world_ok s w \<Longrightarrow> holds (world_ok s) (internel_upgrade e w)"
  unfolding internel_upgrade_def by (auto intro!: holds_and_then ok.keeps_sends)

lemma ok_DownloadForUpgrade:
  "world_ok s w \<Longrightarrow> holds (world_ok s) (Msg_Process_Internel_DownloadForUpgrade e w)"
  unfolding Msg_Process_Internel_DownloadForUpgrade_def Let_def
  by (auto intro!: holds_rbind simp: ok_defs run_cmds_def)

lemma ok_online: "world_ok s w \<Longrightarrow> holds (world_ok s) (internel_online e w)"
  unfolding internel_online_def
  by (intro holds_and_then ok_heartbeat ok_get_upgrade)
     (auto intro!: holds_and_go_on [where J = "world_ok s"] ok_DownloadForUpgrade)

lemma ok_UpdateSpaceData: "world_ok s w \<Longrightarrow> world_ok s (Msg_Process_Internel_UpdateSpaceData e w)"
  by (simp add: Msg_Process_Internel_UpdateSpaceData_def)

lemma ok_UpdateStatusData:
  "world_ok s w \<Longrightarrow> Msg_Process_Internel_UpdateStatusData e w = Inr w' \<Longrightarrow> world_ok s w'"
  by (auto simp: Msg_Process_Internel_UpdateStatusData_def ok_defs split: if_splits)

lemma ok_UpdateParameter:
  "world_ok s w \<Longrightarrow> Msg_Process_Internel_UpdateParameter e w = Inr (b, w') \<Longrightarrow> world_ok s w'"
  by (auto simp: Msg_Process_Internel_UpdateParameter_def ok_defs abi_fits_def Let_def rbind_eq_Inr
      split: if_splits)

text \<open>The capture process touches its own state and the device list only.\<close>

lemma okl_frame [simp]:
  "world_ok' s (w\<lparr>acts := a\<rparr>) = world_ok' s w"
  "world_ok' s (w\<lparr>tcpdump_pid := p\<rparr>) = world_ok' s w"
  "world_ok' s (w\<lparr>now_sec := t\<rparr>) = world_ok' s w"
  "world_ok' s (w\<lparr>macList := ms\<rparr>) = world_ok' s w"
  by (simp_all add: world_ok'_def ok_defs)

lemma okl_tcpdump_start: "world_ok' s w \<Longrightarrow> world_ok' s (tcpdump_start e w)"
  by (simp add: tcpdump_start_def Let_def run_cmds_def split: prod.split)

lemma okl_report_left: "world_ok' s w \<Longrightarrow> world_ok' s (report_left e ms ds w)"
proof (induction ms arbitrary: w)
  case Nil
  then show ?case by simp
next
  case (Cons m ms)
  then show ?case by (simp add: Let_def split: prod.split)
qed

lemma okl_devices: "world_ok' s w \<Longrightarrow>
    world_ok' s (w\<lparr>statusData := (statusData w)\<lparr>pDevList := ds, devNum := n\<rparr>\<rparr>)"
  by (simp add: world_ok'_def ok_defs)

lemma okl_weaken: "world_ok s w \<Longrightarrow> world_ok' s w"
  by (simp add: world_ok'_def ok_defs)

lemma okl_no_devices: "world_ok' s w \<Longrightarrow> world_ok' s (no_devices w)"
  by (rule okl_weaken, rule ok_unlift')

lemma if_cases: "(b \<Longrightarrow> holds I x) \<Longrightarrow> (\<not> b \<Longrightarrow> holds I y) \<Longrightarrow> holds I (if b then x else y)"
  by simp

lemma ok_Tcpdump_Process:
  assumes "world_ok s w"
  shows "holds (world_ok s) (Tcpdump_Process e ret w)"
proof -
  let ?w = "tcpdump_start e (no_devices w)"
  let ?v = "?w\<lparr>statusData := (statusData ?w)\<lparr>pDevList := devices e, devNum := word_of_nat (length (devices e))\<rparr>\<rparr>"
  have v: "world_ok' s ?v"
    by (intro okl_devices okl_tcpdump_start okl_no_devices okl_weaken assms)
  have flows: "holds (world_ok s)
      (let w = (report_left e (macList w) ds w)\<lparr>macList := ms\<rparr>
       in if flow_msgs e = [] then Inr (ret, no_devices w)
          else if \<not> mem e 296 then Inl NullDeref
          else and_go_on (Msg_Process_PushData_UpdateDevConNotifyREQ e (push_option (szDstAddress w))
                            (rev (flow_msgs e)) w)
                 (\<lambda>ret w. Inr (ret, no_devices w)))" if "world_ok' s w" for w ds ms ret
    using okl_report_left [OF that]
    by (auto simp: Let_def ok_unlift' intro!: holds_and_go_on [where J = "world_ok' s"] okl.keeps_sends)
  show ?thesis
    unfolding Tcpdump_Process_def Let_def [of ?w] Let_def [of ?v] Let_def [of "no_devices w"]
      Let_def [of "length (devices e)"] Let_def [of "tcpdump_start e (no_devices w)"]
    by (rule if_cases) (simp, intro holds_rbind holds_and_go_on [where J = "world_ok' s"]
        okl.keeps_send_domains [OF v] flows)
qed

lemma timing_reset_ok: "world_ok s w \<Longrightarrow> timing_reset e w = w"
  by (simp add: timing_reset_def ok_defs)

lemma ok_inform: "world_ok s w \<Longrightarrow> holds (world_ok s) (internel_inform e ret w)"
  unfolding internel_inform_def Let_def
  by (auto simp: timing_reset_ok and_go_on_def rbind_def split: sum.split)

lemma ok_Internel:
  assumes "world_ok s w"
  shows "holds (world_ok s) (Msg_Process_Internel e w)"
proof (cases "status w = HERT_REGISTERED")
  case False
  then show ?thesis using assms by (simp add: Msg_Process_Internel_def ok.keeps_sends)
next
  case True
  have tail: "holds (world_ok s)
      (and_go_on (if hertUtil_TcpdumpFlag (tcpdump_switch e) = 0
                  then Tcpdump_Process e RETCODE_SUCCESS w else Inr (RETCODE_SUCCESS, w))
         (internel_inform e))" if "world_ok s w" for w
    using that by (intro holds_and_go_on [where J = "world_ok s"] ok_inform)
      (simp_all add: ok_Tcpdump_Process)
  have notify: "holds (world_ok s) (and_then
      (if changed then Msg_Process_Internel_SendPushAbiNtfReq e w else Inr (RETCODE_SUCCESS, w))
      (\<lambda>w. and_go_on (if hertUtil_TcpdumpFlag (tcpdump_switch e) = 0
                  then Tcpdump_Process e RETCODE_SUCCESS w else Inr (RETCODE_SUCCESS, w))
         (internel_inform e)))" if "world_ok s w" for changed w
    using that by (intro holds_and_then tail) (simp_all add: ok.keeps_sends)
  have update: "holds (world_ok s) (rbind (Msg_Process_Internel_UpdateParameter e w) (\<lambda>(changed, w). and_then
      (if changed then Msg_Process_Internel_SendPushAbiNtfReq e w else Inr (RETCODE_SUCCESS, w))
      (\<lambda>w. and_go_on (if hertUtil_TcpdumpFlag (tcpdump_switch e) = 0
                  then Tcpdump_Process e RETCODE_SUCCESS w else Inr (RETCODE_SUCCESS, w))
         (internel_inform e))))" if "world_ok s w" for w
    using ok_UpdateParameter [OF that] by (intro holds_rbind) (auto simp only: notify split: prod.split)
  have "holds (world_ok s) (if initData w = zero_init then Msg_Process_Internel_SendPushInitReq e w
      else internel_online e w)"
    using assms by (simp add: ok.keeps_sends ok_online)
  then show ?thesis
    unfolding Msg_Process_Internel_def if_not_P [OF not_not [THEN iffD2, OF True]]
    by (intro holds_and_then holds_rbind update)
       (auto dest: ok_UpdateStatusData [OF ok_UpdateSpaceData])
qed

section \<open>Steps of the program\<close>

text \<open>
  Received bytes: only a connection answer changes the registration, and it can only set it.
\<close>

definition is_conn_resp :: "byte list \<Rightarrow> bool" where
  "is_conn_resp m = (m \<noteq> [] \<and> GET_MSG_TYPE (hd m) = CONN_RESP)"

lemma rd_0: "rd m 0 = (case m of [] \<Rightarrow> Inl (Fault ReadOverrun) | b # _ \<Rightarrow> Inr b)"
  by (cases m) (simp_all add: rd_def)

lemma ok_registered: "world_ok s w \<Longrightarrow> world_ok HERT_REGISTERED (w\<lparr>status := HERT_REGISTERED\<rparr>)"
  by (simp add: ok_defs)

lemma ok_ConnResp:
  "world_ok s w \<Longrightarrow> Msg_Process_ConnResp opt w = Inr (c, w') \<Longrightarrow> world_ok s w' \<or> world_ok HERT_REGISTERED w'"
  by (auto simp: Msg_Process_ConnResp_def ok_registered split: option.splits if_splits)

lemma on_ret_Inr: "on_ret r w k = Inr (c, w') \<Longrightarrow> w' = w \<or> (\<exists>x. r = Inr x \<and> k x = Inr (c, w'))"
  by (auto simp: on_ret_def split: sum.splits cerr.splits)

lemma ok_Entry:
  assumes "world_ok s w" and "Msg_Process_Entry e p n w = Inr (c, w')"
  shows "world_ok s w' \<or> (\<exists>m. p = Some m \<and> is_conn_resp m \<and> world_ok HERT_REGISTERED w')"
proof (cases p)
  case None
  then show ?thesis using assms holds_D [OF ok_Internel] by (auto simp: Msg_Process_Entry_def)
next
  case (Some m)
  show ?thesis
  proof (cases m)
    case Nil
    then show ?thesis using Some assms by (simp add: Msg_Process_Entry_def rd_0)
  next
    case (Cons b r)
    consider "GET_MSG_TYPE b = CONN_RESP" "CONN_RESP \<noteq> PING_RESP" | "w' = w"
      | "Msg_Process_PushData e p n w = Inr (c, w')"
      using assms(2) Some Cons by (auto simp: Msg_Process_Entry_def rd_0 Let_def split: if_splits)
    then show ?thesis
    proof cases
      case 1
      then have "on_ret (Parse_Msg_ConnRsp p \<lparr>nRever = 0, nErrCode = 0\<rparr>) w
          (\<lambda>opt. Msg_Process_ConnResp (Some opt) w) = Inr (c, w')"
        using assms(2) Some Cons by (simp add: Msg_Process_Entry_def rd_0)
      from on_ret_Inr [OF this] show ?thesis
        using ok_ConnResp [OF assms(1)] assms(1) 1(1) Some Cons by (auto simp: is_conn_resp_def)
    next
      case 2
      then show ?thesis using assms(1) by simp
    next
      case 3
      then show ?thesis
        using Some holds_D [OF ok_push_loop [OF assms(1)]] by (auto simp: Msg_Process_PushData_def)
    qed
  qed
qed

lemma fit_Inr: "fit n s = Inr t \<longleftrightarrow> length s < n \<and> t = s"
  by (auto simp: fit_def)

lemma length_cstr: "cstr m = Some s \<Longrightarrow> length s < length m"
proof -
  assume "cstr m = Some s"
  then have z: "0 \<in> set m" and s: "s = map char_at (takeWhile (\<lambda>b. b \<noteq> 0) m)"
    by (auto simp: cstr_def split: if_splits)
  have "length (takeWhile (\<lambda>b. b \<noteq> 0) m) < length m"
    using z by (induction m) auto
  then show ?thesis using s by simp
qed

lemma init_devname_length: "init_devname e f ssid = Inr d \<Longrightarrow> length d \<le> 64"
  by (auto simp: init_devname_def split: if_splits)

text \<open>A state from which HERT_APP_Init can start: what it does not clear.\<close>

definition startable :: "'m hert_world \<Rightarrow> bool" where
  "startable w = (edit_nRet (downList w) \<noteq> 2 \<and> nIsDownLoading w = 0)"

lemma ok_startable: "world_ok s w \<Longrightarrow> startable w"
  by (simp add: ok_defs startable_def)

lemma ok_zero: "startable w \<Longrightarrow> world_ok HERT_UNREGISTER (zero_workdata w)"
  by (simp add: startable_def zero_workdata_def zero_init_def ok_defs init_fits_def upgrade_fits_def abi_fits_def)

text \<open>The last part of the initialisation, from the MAC address on.\<close>

lemma ok_named:
  assumes "world_ok s w" and "length pass < 128" and "length ident < 64" and "length dn < 64"
    and "length typ < 32" and "length fw < 256"
  shows "world_ok s (w\<lparr>szCnnPassData := pass, mutex_locked := True,
    abilityData := \<lparr>abi_devID = ident, abi_devName = dn, abi_fac = ''DARE'', abi_type = typ,
      abi_softVersion = fw\<rparr>\<rparr>)"
  using assms by (simp add: ok_defs abi_fits_def)

lemma ok_addressed:
  assumes "world_ok s w" and "length dst < 64" and "length user < 64" and "length prtl < 64"
  shows "world_ok s (w\<lparr>szDstAddress := dst, szCnnUserData := user, szCnnPrtlData := prtl\<rparr>)"
  using assms by (simp add: ok_defs)

lemma ok_timed: "world_ok s w \<Longrightarrow>
    world_ok s (w\<lparr>informPlatHour := h, informPlatMin := mi, timingComplete := 0\<rparr>)"
  by (simp add: ok_defs)

lemma ok_identity:
  assumes "world_ok s w" and "length d \<le> 64"
  shows "holds (world_ok s) (init_identity e d w)"
proof (cases "cstr d")
  case None
  then show ?thesis using assms(1) by (auto simp: init_identity_def intro!: holds_rbind)
next
  case (Some dn)
  then have "length dn < 64" using length_cstr assms(2) by fastforce
  then show ?thesis
    using assms(1) Some
    by (auto simp: init_identity_def Let_def fit_Inr intro!: holds_rbind ok_named ok_timed)
qed

lemma ok_App_Init:
  assumes "startable w" and "HERT_APP_Init e w = Inr (c, w')"
  shows "world_ok HERT_UNREGISTER w'"
proof -
  obtain f ssid d st where d: "init_devname e f ssid = Inr d"
    and l: "length (plat_dst e) < 64" "length (user_data e) < 64" "length (prtl_data e) < 64"
    and r: "init_identity e d ((zero_workdata w)\<lparr>nvram := st, szDstAddress := plat_dst e,
          szCnnUserData := user_data e, szCnnPrtlData := prtl_data e\<rparr>) = Inr (c, w')"
    using assms(2) by (auto simp: HERT_APP_Init_def rbind_eq_Inr fit_Inr split: prod.splits)
  have "world_ok HERT_UNREGISTER ((zero_workdata w)\<lparr>nvram := st\<rparr>\<lparr>szDstAddress := plat_dst e,
      szCnnUserData := user_data e, szCnnPrtlData := prtl_data e\<rparr>)"
    using l by (intro ok_addressed) (simp_all add: ok_zero assms(1))
  then have "holds (world_ok HERT_UNREGISTER) (init_identity e d ((zero_workdata w)\<lparr>nvram := st,
      szDstAddress := plat_dst e, szCnnUserData := user_data e, szCnnPrtlData := prtl_data e\<rparr>))"
    by (rule ok_identity) (rule init_devname_length [OF d])
  from holds_D [OF this r] show ?thesis .
qed

lemma ok_restart: "startable w \<Longrightarrow> restart e k w = Inr (Some (k', w')) \<Longrightarrow> world_ok HERT_UNREGISTER w'"
  by (auto simp: restart_def rbind_eq_Inr dest: ok_App_Init split: if_splits)

lemma received: "HERT_TCP_RecvTransaction xs = Inr (Some (m, n)) \<Longrightarrow>
    is_conn_resp m \<longleftrightarrow> is_conn_resp xs"
  by (cases xs) (auto simp: HERT_TCP_RecvTransaction_def is_conn_resp_def DATA_SIZE_def split: if_splits)

lemma ok_main_step:
  assumes "world_ok s w" and "main_step e ev k w = Inr (Some (k', w'))"
  shows "world_ok s w' \<or> world_ok HERT_UNREGISTER w' \<or>
    (\<exists>xs. ev = Readable xs \<and> is_conn_resp xs \<and> world_ok HERT_REGISTERED w')"
proof (cases ev)
  case SelectFailed
  then show ?thesis using assms by (simp add: main_step_def)
next
  case Timeout
  then obtain c v where v: "Msg_Process_Entry e None 0 w = Inr (c, v)"
    and r: "v = w' \<or> restart e k v = Inr (Some (k', w'))"
    using assms(2) by (auto simp: main_step_def rbind_eq_Inr split: if_splits)
  from ok_Entry [OF assms(1) v] have "world_ok s v" by simp
  then show ?thesis using r ok_restart ok_startable by blast
next
  case (Readable xs)
  then obtain p where p: "HERT_TCP_RecvTransaction xs = Inr p"
    using assms(2) by (auto simp: main_step_def rbind_eq_Inr)
  show ?thesis
  proof (cases p)
    case None
    then have "w' = w \<or> restart e 0 w = Inr (Some (k', w'))"
      using assms(2) Readable p by (auto simp: main_step_def split: if_splits)
    then show ?thesis using assms(1) ok_restart ok_startable by blast
  next
    case (Some mn)
    obtain m n where mn: "mn = (m, n)" by (cases mn)
    obtain c v where v: "Msg_Process_Entry e (Some m) n w = Inr (c, v)"
      and r: "v = w' \<or> restart e 0 v = Inr (Some (k', w'))"
      using assms(2) Readable p Some mn by (auto simp: main_step_def rbind_eq_Inr split: if_splits)
    from ok_Entry [OF assms(1) v]
    have "world_ok s v \<or> is_conn_resp xs \<and> world_ok HERT_REGISTERED v"
      using received p Some mn by auto
    then show ?thesis using r Readable ok_restart ok_startable by blast
  qed
qed

lemma ok_DownLoad_pass:
  assumes "world_ok s w" and "DownLoad_pass e w = Some (Inr w')"
  shows "world_ok s w'"
proof -
  have run: "bStopRun w = 0" using assms(1) by (simp add: ok_defs)
  obtain r item where g: "hertUtil_GetDownReqItemList \<lparr>contentID = [], URL = [], contentName = []\<rparr>
      (downList w) = Inr (r, item)"
    using assms(2) run by (auto simp: DownLoad_pass_def split: sum.splits)
  consider "w' = w" | "w' = w\<lparr>mutex_locked := True\<rparr>"
    | i q c where "hertUtil_DelDownReqItemList id (Some item) (downList w) = Some (Inr (i, q))"
      "Msg_Process_PushData_DoDownloadCompReq e item (w\<lparr>downList := q\<rparr>) = Inr (c, w')"
    using assms(2) run g by (auto simp: DownLoad_pass_def rbind_eq_Inr split: if_splits option.splits)
  then show ?thesis
  proof cases
    case (3 i q c)
    then have "edit_nRet q \<noteq> 2"
      using ok_edit [OF assms(1)] unfolding hertUtil_DelDownReqItemList_def by blast
    then have "world_ok s (w\<lparr>downList := q\<rparr>)" by (rule ok_down [OF assms(1)])
    then show ?thesis using 3(2) holds_D [OF ok.keeps_sends(6)] by blast
  qed (use assms(1) in simp_all)
qed

lemma reach_ok:
  assumes "hert_reach w0 k w" and "startable w0"
  shows "\<exists>s. world_ok s w"
  using assms
proof (induction rule: hert_reach.induct)
  case (reach_init e w)
  then show ?case using ok_App_Init by blast
next
  case (reach_main k w e ev k' w')
  then show ?case using ok_main_step by blast
next
  case (reach_thread k w e w')
  then show ?case using ok_DownLoad_pass by blast
qed

section \<open>A fresh device\<close>

text \<open>
  A client before its first step: nothing configured, no download asked for, and a system that
  gives memory, takes every message and reports no devices.
\<close>

definition fresh_world :: "(nat \<Rightarrow> byte) hert_world" where
  "fresh_world = \<lparr>status = HERT_UNREGISTER, bStopRun = 0, wd_msgSeq = 0, mutex_locked = False,
     szDstAddress = [], szCnnPrtlData = [], szCnnUserData = [], szCnnPassData = [],
     initData = zero_init,
     abilityData = \<lparr>abi_devID = [], abi_devName = [], abi_fac = [], abi_type = [], abi_softVersion = []\<rparr>,
     spaceData = \<lparr>diskStatus = 0, totalSpace = 0, usedSpace = 0, leftSpace = 0\<rparr>,
     statusData = \<lparr>devStatus = 0, runStatus = 0, downbandwidth = 0, broadbandRate = [], wifiStatus = 0,
       devNum = 0, pDevList = []\<rparr>,
     downData = \<lparr>contentID = [], URL = [], contentName = []\<rparr>,
     upgradeData = \<lparr>needUpdate = 0, updateUrl = [], updateDescription = []\<rparr>,
     informPlatHour = 0, informPlatMin = 0, timingComplete = 0,
     currTimeSecond = 0, currTimeSecondUpgrade = 0, nFirstGetUpgradeInfo = 1, nIsDownLoading = 0,
     tcpdump_pid = 0, now_sec = 0, macList = [],
     nvram = \<lparr>fb = fb_init 100, flash = (\<lambda>_. 0)\<rparr>,
     downList = \<lparr>list_file = None, temp_file = None, edit_nRet = 1\<rparr>,
     upgradeFile = None, aesPwd = None, wire = [], acts = []\<rparr>"

definition calm_env :: "(nat \<Rightarrow> byte) hert_env" where
  "calm_env = \<lparr>mem = (\<lambda>_. True), send_ok = (\<lambda>_ _. True), nvenv = ram_env 5 (\<lambda>_. 1), log_notice = False,
     hertdebug = False, wanIP = ''10.0.0.1'', lanIP = ''192.168.8.1'', storage = True, usb_free = 10,
     usb_total = 30, devices = [], broadband = 0, rate = ''100M'', wifiOn = 1, workStatus = 0,
     seconds = 1000, now_hours = 3, now_mins = 0, downloadnow = False, upgrade_open = True,
     stack_down = \<lparr>contentID = [], URL = [], contentName = []\<rparr>, reg400 = 0, dir_ok = True,
     curl_init = (\<lambda>_. True), out_open = (\<lambda>_. True), out_size = (\<lambda>_. 0),
     tcpdump_switch = None, pid_msgs = [], domain_msgs = [], flow_msgs = [], proc_exists = (\<lambda>_. False),
     uptime = 60, stack_mac = replicate 6 0, inet_ntoa = (\<lambda>_. ''10.0.0.2''), date = (\<lambda>_. []),
     traffic = (\<lambda>_. []), encrypt_switch = None, des_key_ok = True, des_block = id,
     usb_path = ''/media/sda1'', plat_dst = ''dev'', user_data = ''user'', prtl_data = ''MQTT'',
     dev_sn = ''SN'', dev_type = ''HE'', fw_version = ''R1'', dev_mac = replicate 6 1, mac_ok = True,
     sem_ok = True, heap = replicate 64 0\<rparr>"

lemmas fresh_defs = fresh_world_def calm_env_def

lemma fresh_startable: "startable fresh_world"
  by (simp add: fresh_world_def startable_def)

text \<open>Its configuration is empty: every name reads as the empty text.\<close>

lemma fresh_nvram:
  "nvram_bufget (ram_env 5 (\<lambda>_. 1)) RT2860_NVRAM ''SSID1'' \<lparr>fb = fb_init 100, flash = (\<lambda>_. 0)\<rparr> =
    Inr ([], set_blk \<lparr>fb = fb_init 100, flash = (\<lambda>_. 0)\<rparr> 0 (\<lambda>b. b\<lparr>valid := True, dirty := False\<rparr>))"
  by (simp add: nvram_bufget_def nvram_bufget_mtk_def RT2860_NVRAM_def check_index_def nvram_init_def
      Let_def blk_def fb_init_def crc_word_def ram_read_def upt_conv_Cons cache_idx_def set_blk_def)

lemma fresh_nvram':
  "nvram_bufget (ram_env 5 (\<lambda>_. 1)) RT2860_NVRAM ''IS_THE_FIRSTTIME_START''
      (set_blk \<lparr>fb = fb_init 100, flash = (\<lambda>_. 0)\<rparr> 0 (\<lambda>b. b\<lparr>valid := True, dirty := False\<rparr>)) =
    Inr ([], set_blk \<lparr>fb = fb_init 100, flash = (\<lambda>_. 0)\<rparr> 0 (\<lambda>b. b\<lparr>valid := True, dirty := False\<rparr>))"
  by (simp add: nvram_bufget_def nvram_bufget_mtk_def RT2860_NVRAM_def check_index_def nvram_init_def
      Let_def blk_def fb_init_def cache_idx_def set_blk_def)

lemma calm_devname: "init_devname calm_env [] [] = Inr (replicate 64 0)"
proof -
  have "bytes_of [] @ [0] @ replicate 64 0 = (replicate 65 0 :: byte list)"
    by (simp add: bytes_of_def replicate_app_Cons_same flip: replicate_Suc)
  then show ?thesis by (simp add: init_devname_def calm_env_def)
qed

lemma hex2_1 [simp]: "hex2 1 = ''01''"
  by (simp add: hex2_def char_of_def bit_iff_odd)

text \<open>After HERT_APP_Init on the fresh device.\<close>

definition started_world :: "(nat \<Rightarrow> byte) hert_world" where
  "started_world = (case HERT_APP_Init calm_env fresh_world of Inr (c, w) \<Rightarrow> w | Inl _ \<Rightarrow> fresh_world)"

lemma calm_identity:
  "init_identity calm_env (replicate 64 0) w = Inr (RETCODE_SUCCESS, w\<lparr>
     szCnnPassData := pass_data calm_env, mutex_locked := True,
     abilityData := \<lparr>abi_devID = ''SN010101010101'', abi_devName = [], abi_fac = ''DARE'', abi_type = ''HE'',
       abi_softVersion = ''R1''\<rparr>, informPlatHour := 18, informPlatMin := 0, timingComplete := 0\<rparr>)"
proof -
  have "cstr (replicate 64 0) = Some []" by (simp add: cstr_def)
  moreover have "rand_source (replicate 64 0) = 0" by (simp add: rand_source_def upt_conv_Cons)
  moreover have "length (pass_data calm_env) < 128" "mac_hex calm_env = ''010101010101''"
    by (simp_all add: pass_data_def mac_hex_def mac_colon_def calm_env_def numeral_eq_Suc)
  ultimately show ?thesis
    by (simp add: init_identity_def fit_def Let_def inform_hour_def inform_min_def c_mod_def c_div_def)
       (simp add: calm_env_def)
qed

lemma calm_simps [simp]:
  "nvenv calm_env = ram_env 5 (\<lambda>_. 1)" "plat_dst calm_env = ''dev''" "user_data calm_env = ''user''"
  "prtl_data calm_env = ''MQTT''" "send_ok calm_env h t" "mem calm_env n" "wanIP calm_env = ''10.0.0.1''"
  by (simp_all add: calm_env_def)

lemma fresh_run: "HERT_APP_Init calm_env fresh_world = Inr (RETCODE_SUCCESS,
    (zero_workdata fresh_world)\<lparr>nvram := set_blk \<lparr>fb = fb_init 100, flash = (\<lambda>_. 0)\<rparr> 0
        (\<lambda>b. b\<lparr>valid := True, dirty := False\<rparr>),
      szDstAddress := ''dev'', szCnnUserData := ''user'', szCnnPrtlData := ''MQTT'',
      szCnnPassData := pass_data calm_env, mutex_locked := True,
      abilityData := \<lparr>abi_devID = ''SN010101010101'', abi_devName = [], abi_fac = ''DARE'', abi_type = ''HE'',
        abi_softVersion = ''R1''\<rparr>, informPlatHour := 18, informPlatMin := 0, timingComplete := 0\<rparr>)"
proof -
  have "nvram fresh_world = \<lparr>fb = fb_init 100, flash = (\<lambda>_. 0)\<rparr>" by (simp add: fresh_world_def)
  then show ?thesis
    by (simp add: HERT_APP_Init_def fit_def calm_devname calm_identity fresh_nvram fresh_nvram')
qed

lemma fresh_init: "HERT_APP_Init calm_env fresh_world = Inr (RETCODE_SUCCESS, started_world)"
  by (simp add: started_world_def fresh_run)

lemma started:
  "status started_world = HERT_UNREGISTER" "wire started_world = []" "bStopRun started_world = 0"
  "szDstAddress started_world = ''dev''" "szCnnPrtlData started_world = ''MQTT''"
  "szCnnUserData started_world = ''user''" "szCnnPassData started_world = pass_data calm_env"
  "downList started_world = \<lparr>list_file = None, temp_file = None, edit_nRet = 1\<rparr>"
  "wd_msgSeq started_world = 0"
  unfolding started_world_def fresh_run
  by (simp_all add: zero_workdata_def) (simp_all add: fresh_world_def)

lemma started_reach: "hert_reach fresh_world 0 started_world"
  by (rule reach_init [OF fresh_init])

lemma started_ok: "world_ok HERT_UNREGISTER started_world"
  by (rule ok_App_Init [OF fresh_startable fresh_init])

section \<open>The connection request\<close>

lemma length_SetMsgLengthItem: "length (SetMsgLengthItem n) \<le> 4"
  by (simp add: SetMsgLengthItem_def Let_def)

text \<open>It is sent when its three texts are short.\<close>

lemma SendConnReq_sends:
  assumes "length (szCnnPrtlData w) < 128" and "length (szCnnUserData w) < 128"
    and "length (szCnnPassData w) < 128"
  shows "\<exists>t. Msg_Process_Internel_SendConnReq e w = HERT_TCP_SendTransaction e t w"
proof -
  have g: "GetLengthFromTwoBytes (fst (GetHighLowFromString s)) (snd (GetHighLowFromString s)) = int (length s)"
    if "length s < 128" for s
    using that by (subst push_option_length) simp_all
  have "length (SetMsgLengthItem n) + k \<le> 1191" if "k \<le> 1000" for n k
    using that length_SetMsgLengthItem [of n] by simp
  then show ?thesis
    using assms
    by (auto simp: Msg_Process_Internel_SendConnReq_def transact_def Build_Msg_ConnReq_def Let_def
        case_prod_beta conn_option_length_def conn_body_length_def g COPY_STR_exact write_msg_def DATA_SIZE_def)
qed

section \<open>Properties of the client\<close>

text \<open>
  C1: in every state the client can reach by passes of the main loop and of the download thread,
  with any messages, failures and restarts, every stored text fits its array, no device list is
  held, the download list is free, no upgrade download is marked as running, and the flag that
  the daily report was made is 0.
\<close>

theorem client_invariant:
  assumes "hert_reach w0 k w" and "startable w0"
  shows "texts_fit w \<and> no_list w \<and> idle w"
  using reach_ok [OF assms] by (auto simp: world_ok_def)

theorem client_invariant_witness:
  "hert_reach fresh_world 0 started_world \<and> timingComplete started_world = 0"
  using client_invariant [OF started_reach fresh_startable] started_reach by (simp add: idle_def)


lemma recv_conn_resp:
  "main_step calm_env (Readable [0x20, 2, 0, 4]) 0 w = Inr (Some (0, w\<lparr>status := HERT_REGISTERED\<rparr>))"
proof -
  have "HERT_TCP_RecvTransaction [0x20, 2, 0, 4] = Inr (Some (0x20 # 2 # 0 # 4 # replicate 1200 0, 4))"
    by (simp add: HERT_TCP_RecvTransaction_def DATA_SIZE_def)
  moreover have "Parse_Msg_Data (Some (0x20 # 2 # 0 # 4 # replicate 1200 0)) = Inr (2, 2)"
    by (simp add: Parse_Msg_Data_def pmd_loop_4 rd_def)
  ultimately show ?thesis
    by (simp add: main_step_def Msg_Process_Entry_def rd_def GET_MSG_TYPE_def CONN_RESP_def PING_RESP_def
        Parse_Msg_ConnRsp_def Msg_Process_ConnResp_def CNRSPERR_SUCCESS_def Let_def)
qed


text \<open>
  Any connection answer the client can read registers it: the error code, here whatever the
  bytes behind the header are, is never looked at.
\<close>

theorem conn_resp_registers:
  assumes "GET_MSG_TYPE b = CONN_RESP" and "Parse_Msg_Data (Some (b # m)) = Inr x"
  shows "Msg_Process_Entry e (Some (b # m)) n w = Inr (RETCODE_SUCCESS, w\<lparr>status := HERT_REGISTERED\<rparr>)"
  using assms
  by (simp add: Msg_Process_Entry_def rd_def CONN_RESP_def PING_RESP_def Parse_Msg_ConnRsp_def
      Msg_Process_ConnResp_def CNRSPERR_SUCCESS_def Let_def)

theorem conn_resp_registers_witness:
  "status (snd (projr (Msg_Process_Entry calm_env (Some [0x20, 2, 0, 4]) 4 started_world))) = HERT_REGISTERED"
proof -
  have "Parse_Msg_Data (Some (0x20 # [2, 0, 4])) = Inr (2, 2)"
    by (simp add: Parse_Msg_Data_def pmd_loop_4 rd_def)
  then show ?thesis
    using conn_resp_registers [of "0x20" "[2, 0, 4]" "(2, 2)" calm_env 4 started_world]
    by (simp add: GET_MSG_TYPE_def CONN_RESP_def)
qed

text \<open>
  Until it is registered the main thread answers nothing: a call leaves the state as it is,
  or has tried to send one connection request, or has read a connection answer.
\<close>

theorem unregistered_quiet:
  assumes "status w = HERT_UNREGISTER" and "Msg_Process_Entry e p n w = Inr (c, w')"
  shows "w' = w \<or> (\<exists>t r. w' = w\<lparr>wire := wire w @ [(t, r)]\<rparr> \<and> GET_MSG_TYPE (hd t) = CONN_REQ) \<or>
    (\<exists>m. p = Some m \<and> is_conn_resp m \<and> w' = w\<lparr>status := HERT_REGISTERED\<rparr>)"
proof (cases p)
  case None
  then have "Msg_Process_Internel_SendConnReq e w = Inr (c, w')"
    using assms by (simp add: Msg_Process_Entry_def Msg_Process_Internel_def)
  moreover have "GET_MSG_TYPE (hd t) = CONN_REQ"
    if "Build_Msg_ConnReq b d opt body = Inr t" for b d opt body t
    using that by (auto simp: Build_Msg_ConnReq_def nonnull_eq_Inr Let_def rbind_eq_Inr write_msg_def
        GET_MSG_TYPE_def SET_MSG_HEADER_TYPE_def CONN_REQ_def split: if_splits)
  ultimately show ?thesis
    by (auto simp: Msg_Process_Internel_SendConnReq_def transact_def HERT_TCP_SendTransaction_def Let_def
        dest!: on_ret_Inr split: prod.splits)
next
  case (Some m)
  then show ?thesis
  proof (cases m)
    case (Cons b r)
    then have "w' = w \<or> w' = w\<lparr>status := HERT_REGISTERED\<rparr> \<and> GET_MSG_TYPE b = CONN_RESP"
      using assms Some
      by (auto simp: Msg_Process_Entry_def rd_0 Let_def Msg_Process_ConnResp_def split: if_splits
          dest!: on_ret_Inr)
    then show ?thesis using Some Cons by (auto simp: is_conn_resp_def)
  qed (use assms in \<open>simp add: Msg_Process_Entry_def rd_0\<close>)
qed

theorem unregistered_quiet_witness:
  "\<exists>t r. snd (projr (Msg_Process_Entry calm_env None 0 started_world)) =
     started_world\<lparr>wire := [(t, r)]\<rparr> \<and> GET_MSG_TYPE (hd t) = CONN_REQ"
proof -
  have "length (pass_data calm_env) < 128"
    by (simp add: pass_data_def mac_hex_def mac_colon_def calm_env_def numeral_eq_Suc)
  then obtain t where "Msg_Process_Internel_SendConnReq calm_env started_world =
      HERT_TCP_SendTransaction calm_env t started_world"
    using SendConnReq_sends [of started_world calm_env] started by auto
  then have "Msg_Process_Entry calm_env None 0 started_world =
      Inr (RETCODE_SUCCESS, started_world\<lparr>wire := [(t, True)]\<rparr>)"
    using started(1,2)
    by (simp add: Msg_Process_Entry_def Msg_Process_Internel_def HERT_TCP_SendTransaction_def)
  moreover have "started_world\<lparr>wire := [(t, True)]\<rparr> \<noteq> started_world"
  proof
    assume "started_world\<lparr>wire := [(t, True)]\<rparr> = started_world"
    then have "wire (started_world\<lparr>wire := [(t, True)]\<rparr>) = wire started_world" by (rule arg_cong)
    then show False using started(2) by simp
  qed
  ultimately show ?thesis
    using unregistered_quiet [OF started(1), of calm_env None 0] started(2) by auto
qed

end
