(* ===== verification/AppDaily.thy ===== *)
theory AppDaily
  imports AppProps
begin

text \<open>
  Properties of the parts of the platform client that run on their own: the download thread, the
  time of the daily report and what happens when it is due, the download tool.
\<close>

section \<open>The download thread\<close>

lemma digit_char_1: "digit_char (Suc 0) = CHR ''1''"
  by (simp add: digit_char_def char_of_def bit_iff_odd)

lemma download_try_returns:
  assumes "\<forall>n \<le> 3. curl_init e n \<longrightarrow> out_open e n" and "k \<le> 3"
  shows "\<exists>b. download_try e k = Inr b"
  using assms
proof (induction e k rule: download_try.induct)
  case (1 e k)
  then have "curl_init e k \<longrightarrow> out_open e k" by simp
  then show ?case
    using 1 by (cases "out_size e k \<le> 0 \<and> k + 1 \<le> 3"; subst download_try.simps) auto
qed

lemma DoDownloadCompReq_sends:
  assumes "flat_ready DATA_SIZE (szDstAddress w)
      (req_fields (own_const ''MSG_DOWNLOAD_COMP_NOTIFY_REQ'' (next_seq w)) @ [FStr ''contentID'' (contentID d)])"
    and "mem e 512"
  shows "Msg_Process_PushData_DoDownloadCompReq e d w = HERT_TCP_SendTransaction e
    (push_frame (szDstAddress w) (object_body
      (req_fields (own_const ''MSG_DOWNLOAD_COMP_NOTIFY_REQ'' (next_seq w)) @ [FStr ''contentID'' (contentID d)])))
    (next_seq w)"
proof -
  let ?c = "own_const ''MSG_DOWNLOAD_COMP_NOTIFY_REQ'' (next_seq w)"
  have "szDstAddress (next_seq w) = szDstAddress w" by (simp add: next_seq_def)
  moreover have "req_const_steps ?c @ [AddItem (FORMAT_JSON_ITEM_STR ''contentID'' (contentID d)), AddStr ''}'']
      = flat_steps (req_fields ?c @ [FStr ''contentID'' (contentID d)])"
    using builder_steps(6) [of ?c "\<lparr>comp_contentID = contentID d\<rparr>"] by simp
  ultimately show ?thesis
    using flat_message_sends [OF assms(1), of "mem e"] assms(2)
    by (simp add: Msg_Process_PushData_DoDownloadCompReq_def Let_def transact_def
        Build_Msg_DownloadCompReq_def)
qed

lemma calm_files [simp]:
  "dir_ok calm_env" "usb_path calm_env = ''/media/sda1''" "curl_init calm_env n" "out_open calm_env n"
  "out_size calm_env n = 0"
  by (simp_all add: calm_env_def)

text \<open>What a pass with something to download does to the state.\<close>

lemma DownLoad_pass_effect:
  assumes "holds_items (downList w) (d # ds)" and "bStopRun w = 0"
    and "\<forall>n \<le> 3. curl_init e n \<longrightarrow> out_open e n" and "dir_ok e" and "mem e 512"
    and "length (usb_path e) < 56" and "length (usb_path e) + length (contentName d) < 119"
    and "flat_ready DATA_SIZE (szDstAddress w)
      (req_fields (own_const ''MSG_DOWNLOAD_COMP_NOTIFY_REQ'' (next_seq w)) @ [FStr ''contentID'' (contentID d)])"
  shows "\<exists>q r. DownLoad_pass e w = Some (Inr (w\<lparr>downList := q, wd_msgSeq := wd_msgSeq w + 1,
      wire := wire w @ [(push_frame (szDstAddress w) (object_body
        (req_fields (own_const ''MSG_DOWNLOAD_COMP_NOTIFY_REQ'' (next_seq w))
          @ [FStr ''contentID'' (contentID d)])), r)]\<rparr>)) \<and>
    holds_items q (filter (\<lambda>x. x \<noteq> d) ds)"
proof -
  obtain q where q: "hertUtil_EditDownReqItemList (Some d) 0 (downList w) = Inr (0, q)"
    "holds_items q (filter (\<lambda>x. x \<noteq> d) ds)"
    using edit_del [OF assms(1), of d] by auto
  have del: "hertUtil_DelDownReqItemList id (Some d) (downList w) = Some (Inr (0, q))"
    using edit_wait_done [OF q(1)] by (simp add: hertUtil_DelDownReqItemList_def)
  obtain b where b: "download_try e 0 = Inr b" using download_try_returns [OF assms(3), of 0] by auto
  let ?w = "w\<lparr>downList := q\<rparr>"
  have same: "own_const t (next_seq ?w) = own_const t (next_seq w)" "szDstAddress ?w = szDstAddress w" for t
    by (simp_all add: own_const_def seq_text_def next_seq_def)
  have send: "Msg_Process_PushData_DoDownloadCompReq e d ?w = HERT_TCP_SendTransaction e
      (push_frame (szDstAddress w) (object_body
        (req_fields (own_const ''MSG_DOWNLOAD_COMP_NOTIFY_REQ'' (next_seq w))
          @ [FStr ''contentID'' (contentID d)]))) (next_seq ?w)"
    using DoDownloadCompReq_sends [of ?w d e] assms(5,8) by (simp only: same)
  show ?thesis
    using assms(2,4,6,7) get_holds [OF assms(1)] q(2)
    by (auto simp: DownLoad_pass_def b del send HERT_TCP_SendTransaction_def Let_def next_seq_def)
qed

text \<open>
  A pass of the download thread with something to download takes the first item out of the
  list and tells the platform that it is complete: whether or not the client is registered, and
  whatever the sizes of the files the four attempts left, empty ones included.
\<close>

theorem DownLoad_pass_reports:
  assumes "holds_items (downList w) (d # ds)" and "bStopRun w = 0"
    and "\<forall>n \<le> 3. curl_init e n \<longrightarrow> out_open e n" and "dir_ok e" and "mem e 512"
    and "length (usb_path e) < 56" and "length (usb_path e) + length (contentName d) < 119"
    and "flat_ready DATA_SIZE (szDstAddress w)
      (req_fields (own_const ''MSG_DOWNLOAD_COMP_NOTIFY_REQ'' (next_seq w)) @ [FStr ''contentID'' (contentID d)])"
  shows "\<exists>w' r. DownLoad_pass e w = Some (Inr w') \<and> status w' = status w \<and>
    holds_items (downList w') (filter (\<lambda>x. x \<noteq> d) ds) \<and>
    wire w' = wire w @ [(push_frame (szDstAddress w) (object_body
      (req_fields (own_const ''MSG_DOWNLOAD_COMP_NOTIFY_REQ'' (next_seq w))
        @ [FStr ''contentID'' (contentID d)])), r)]"
  using DownLoad_pass_effect [OF assms] by auto

theorem DownLoad_pass_reports_witness:
  "\<exists>w' t r. DownLoad_pass calm_env (started_world\<lparr>downList := \<lparr>list_file =
        Some (list_text [\<lparr>contentID = ''7'', URL = ''u'', contentName = ''n''\<rparr>]), temp_file = None,
        edit_nRet = 0\<rparr>\<rparr>) = Some (Inr w') \<and>
    status w' = HERT_UNREGISTER \<and> wire w' = [(push_frame ''dev'' t, r)] \<and> download_try calm_env 0 = Inr False"
proof -
  let ?d = "\<lparr>contentID = ''7'', URL = ''u'', contentName = ''n''\<rparr>"
  let ?w = "started_world\<lparr>downList := \<lparr>list_file = Some (list_text [?d]), temp_file = None, edit_nRet = 0\<rparr>\<rparr>"
  have h: "holds_items (downList ?w) [?d]"
    by (simp add: holds_items_def item_ok_def word_ok_def item_line_def shell_plain_def is_space_def)
  have r: "flat_ready DATA_SIZE (szDstAddress ?w)
      (req_fields (own_const ''MSG_DOWNLOAD_COMP_NOTIFY_REQ'' (next_seq ?w)) @ [FStr ''contentID'' (contentID ?d)])"
    by (simp add: flat_ready_def sendable_def fields_defs plain_text_def object_body_def str_item_def
        num_item_def show_int_def show_nat.simps length_push_frame varint.simps own_const_def seq_text_def
        next_seq_def started DATA_SIZE_def digit_char_1)
  have t: "download_try calm_env 0 = Inr False"
    by (simp add: download_try.simps [of calm_env 0] download_try.simps [of calm_env 1]
        download_try.simps [of calm_env 2] download_try.simps [of calm_env 3] flip: One_nat_def)
  show ?thesis
    using DownLoad_pass_reports [OF h _ _ _ _ _ _ r, of calm_env] t started
    by simp blast
qed

section \<open>The daily report\<close>

lemma c_mod_bound: "0 < b \<Longrightarrow> \<bar>c_mod a b\<bar> < b"
  by (cases "a = 0") (auto simp: c_mod_def abs_mult)

lemma c_mod_nonneg: "0 \<le> a \<Longrightarrow> 0 < b \<Longrightarrow> c_mod a b = a mod b"
  by (cases "a = 0") (simp_all add: c_mod_def)

lemma c_div_nonneg: "0 \<le> a \<Longrightarrow> 0 < b \<Longrightarrow> c_div a b = a div b"
  by (cases "a = 0") (simp_all add: c_div_def)

text \<open>
  When the six bytes add up to a sum that is not negative, which plain ASCII names do, the
  report is due at one of the 24 times every ten minutes from 18:00 to 21:50, and each of them
  belongs to one remainder of the sum by 24.
\<close>

theorem inform_time_ascii:
  assumes "0 \<le> rs"
  shows "inform_hour rs = 18 + rs mod 24 div 6 \<and> inform_min rs = rs mod 6 * 10 \<and>
    18 \<le> inform_hour rs \<and> inform_hour rs \<le> 21 \<and> 0 \<le> inform_min rs \<and> inform_min rs \<le> 50"
proof -
  have m: "c_mod rs 24 = rs mod 24" "0 \<le> rs mod 24" "rs mod 24 < 24"
    using assms by (simp_all add: c_mod_nonneg)
  then have d: "c_div (c_mod rs 24) 6 = rs mod 24 div 6" "c_mod (c_mod rs 24) 6 = rs mod 6"
    by (simp_all add: c_div_nonneg c_mod_nonneg mod_mod_cancel)
  have b: "rs mod 24 div 6 < 4" "0 \<le> rs mod 24 div 6" using m(2,3) by linarith+
  show ?thesis
    using b by (simp add: inform_hour_def inform_min_def Let_def d)
qed

theorem inform_time_ascii_witness: "inform_hour 100 = 18 \<and> inform_min 100 = 40"
  using inform_time_ascii [of 100] by simp

text \<open>
  A negative sum, which names with bytes above 127 such as the UTF-8 names of Chinese
  networks have, gives a minute below zero unless it is a multiple of 6: then the report is
  never due, at no time of any day.
\<close>

theorem inform_time_utf8:
  assumes "rs < 0" and "rs mod 6 \<noteq> 0" and "informPlatMin w = inform_min rs" and "now_mins e < 60"
  shows "inform_min rs < 0 \<and> \<not> inform_due e w"
proof -
  let ?k = "\<bar>rs\<bar> mod 24"
  have k: "0 \<le> ?k" "?k < 24" by simp_all
  have "?k mod 6 = \<bar>rs\<bar> mod 6" by (simp add: mod_mod_cancel)
  moreover have "\<bar>rs\<bar> mod 6 \<noteq> 0"
    using assms(1,2) by (simp add: zmod_zminus1_eq_if flip: dvd_eq_mod_eq_0)
  ultimately have nz: "0 < ?k mod 6" using pos_mod_sign [of 6 ?k] by linarith
  have c: "c_mod rs 24 = - ?k" using assms(1) by (simp add: c_mod_def)
  have "?k \<noteq> 0" using nz by (metis less_irrefl mod_0)
  then have "sgn (- ?k) = - 1" using k(1) by (simp add: sgn_if)
  then have "c_mod (c_mod rs 24) 6 = - (?k mod 6)"
    unfolding c c_mod_def [of "- ?k"] using k(1) by simp
  then have im: "inform_min rs = - (?k mod 6) * 10" using nz by (simp add: inform_min_def Let_def)
  have b: "?k mod 6 < 6" by simp
  let ?m = "inform_min rs"
  have neg: "?m < 0" "- 50 \<le> ?m" using nz b unfolding im by linarith+
  have "uint (word_of_int ?m :: dword) = ?m mod 2 ^ 32" by (simp add: uint_word_of_int)
  also have "?m mod 2 ^ 32 = ?m + 2 ^ 32"
    using neg by (subst mod_add_self2 [symmetric], intro mod_pos_pos_trivial) simp_all
  finally have "60 < uint (word_of_int ?m :: dword)" using neg by simp
  moreover have "uint (now_mins e) < 60" using assms(4) by (simp add: word_less_def)
  ultimately have "now_mins e \<noteq> word_of_int ?m" by auto
  then show ?thesis using neg(1) assms(3) by (simp add: inform_due_def)
qed

theorem inform_time_utf8_witness:
  "inform_min (- 100) = - 40 \<and> \<not> inform_due calm_env (started_world\<lparr>informPlatMin := inform_min (- 100)\<rparr>)"
  using inform_time_utf8 [of "- 100" "started_world\<lparr>informPlatMin := inform_min (- 100)\<rparr>" calm_env]
  by (simp add: calm_env_def inform_min_def c_mod_def Let_def)

text \<open>
  When the daily report is due the client never gets past it: Msg_Process_Internel hands the
  address of an array of its own state to free, whatever became of the report.
\<close>

theorem inform_frees_static:
  assumes "world_ok s w" and "inform_due e w"
  shows "\<exists>f. internel_inform e ret w = Inl f \<and>
    (f \<noteq> BadFree \<longrightarrow> Msg_Process_PushData_RouterStatusReq e (Some (push_option (szDstAddress w)))
       (Some (bytes_of ''timing inform to plat'' @ [0])) 1 w = Inl f)"
  using assms(2)
  by (auto simp: internel_inform_def timing_reset_ok [OF assms(1)] and_go_on_def rbind_def split: sum.split)

theorem inform_frees_static_witness:
  "\<exists>f. internel_inform (calm_env\<lparr>now_hours := 18\<rparr>) RETCODE_SUCCESS started_world = Inl f"
proof -
  have "inform_due (calm_env\<lparr>now_hours := 18\<rparr>) started_world"
    unfolding started_world_def fresh_run by (simp add: inform_due_def calm_env_def)
  from inform_frees_static [OF started_ok this] show ?thesis by blast
qed

section \<open>The download tool\<close>

text \<open>A run of the tool that ends has met a file that is not empty or cannot be opened.\<close>

lemma download_ends:
  assumes "Msg_Process_Internel_download e n = Some y"
  shows "\<exists>k. 0 < out_size e k \<or> curl_init e k \<and> \<not> out_open e k"
proof (rule Msg_Process_Internel_download.raw_induct
    [where P = "\<lambda>e n y. \<exists>k. 0 < out_size e k \<or> curl_init e k \<and> \<not> out_open e k", OF _ assms])
  fix f :: "'a hert_env \<Rightarrow> nat \<Rightarrow> (fault + nat) option" and e :: "'a hert_env" and n y
  assume IH: "\<And>e n y. f e n = Some y \<Longrightarrow> \<exists>k. 0 < out_size e k \<or> curl_init e k \<and> \<not> out_open e k"
    and run: "(if curl_init e n \<and> \<not> out_open e n then Some (Inl NullDeref)
      else if out_size e n \<le> 0 then f e (Suc n) else Some (Inr n)) = Some y"
  show "\<exists>k. 0 < out_size e k \<or> curl_init e k \<and> \<not> out_open e k"
  proof (cases "curl_init e n \<and> \<not> out_open e n \<or> 0 < out_size e n")
    case True
    then show ?thesis by blast
  next
    case False
    then have "f e (Suc n) = Some y" using run by (auto split: if_splits)
    then show ?thesis by (rule IH)
  qed
qed

text \<open>
  The tool repeats the download of an empty file for ever, not three times: nRetry is set
  back to 0 in every round.
\<close>

theorem Msg_Process_Internel_download_loops:
  assumes "\<forall>n. out_size e n \<le> 0" and "\<forall>n. curl_init e n \<longrightarrow> out_open e n"
  shows "Msg_Process_Internel_download e n = None"
  using download_ends [of e n] assms by (metis not_le not_None_eq)

theorem Msg_Process_Internel_download_loops_witness:
  "Msg_Process_Internel_download calm_env 0 = None"
  by (rule Msg_Process_Internel_download_loops) simp_all

end
