(* ===== verification/AppAnswers.thy ===== *)
theory AppAnswers
  imports AppDaily
begin

text \<open>
  From the bytes of a request to the bytes of its answer: what Msg_Process_Entry does with the
  frame a platform sends, with two frames in one read, and with a frame that has no address.
\<close>

section \<open>A request on the wire\<close>

text \<open>The text of a request up to its message type.\<close>

lemma request_text:
  "object_body (req_fields c @ fs) =
    (CHR ''{'' # num_item ''version'' (sint (version c)) @ [STR_END1, STR_QUOTATION]) @
    type_item (msgType c) @ STR_END1 # fields_text (FStr ''msgSeq'' (msgSeq c) # fs) @ [STR_END2]"
  by (simp add: object_body_def fields_defs type_item_def str_item_def)

lemma byte_of_inj: "byte_of c = byte_of d \<longleftrightarrow> c = d"
  by (metis char_at_byte_of)

text \<open>Nothing before it reads msgType.\<close>

lemma num_item_no_m: "CHR ''m'' \<notin> set (num_item ''version'' i)"
  by (auto simp: num_item_def dest!: show_int_chars simp: is_digit_def)

lemma take_bytes_nth:
  assumes "take (length p) (drop j m) = bytes_of p" and "i < length p"
  shows "m ! (j + i) = byte_of (p ! i)"
proof -
  have "j + i < length m" using assms by (auto dest!: arg_cong [of _ _ length])
  then show ?thesis
    using assms nth_take [of i "length p" "drop j m"] by (simp add: bytes_of_def)
qed

lemma no_early_type:
  assumes "length pre \<le> 2" and "CHR ''m'' \<notin> set mid" and "j < length (pre @ CHR ''{'' # mid)"
  shows "take 7 (drop j (bytes_of (pre @ CHR ''{'' # mid) @ rest)) \<noteq> bytes_of ''msgType''"
proof
  let ?m = "bytes_of (pre @ CHR ''{'' # mid) @ rest"
  assume a: "take 7 (drop j ?m) = bytes_of ''msgType''"
  have seven: "length ''msgType'' = 7" by simp
  have t: "take (length ''msgType'') (drop j ?m) = bytes_of ''msgType''"
    unfolding seven by (rule a)
  have n: "?m ! i = byte_of ((pre @ CHR ''{'' # mid) ! i)" if "i < length (pre @ CHR ''{'' # mid)" for i
  proof -
    have "?m ! i = bytes_of (pre @ CHR ''{'' # mid) ! i"
      using that by (simp only: nth_append length_bytes_of if_True)
    then show ?thesis using that by (simp only: bytes_of_def nth_map)
  qed
  have "(pre @ CHR ''{'' # mid) ! j = CHR ''m''"
    using take_bytes_nth [OF t, of 0] n [OF assms(3)] by (simp add: byte_of_inj)
  moreover have "(pre @ CHR ''{'' # mid) ! j \<in> set (CHR ''{'' # mid)" if "length pre \<le> j"
  proof -
    have "(pre @ CHR ''{'' # mid) ! j = (CHR ''{'' # mid) ! (j - length pre)"
      using that by (simp only: nth_append if_not_P not_less)
    also have "\<dots> \<in> set (CHR ''{'' # mid)" using that assms(3) by (intro nth_mem) simp
    finally show ?thesis .
  qed
  ultimately have "j < length pre" using assms(2) by (cases "length pre \<le> j") auto
  define i where "i = length pre - j"
  have i: "j + i = length pre" "0 < i" "i \<le> 2"
    using \<open>j < length pre\<close> assms(1) by (simp_all add: i_def)
  have "?m ! (j + i) = byte_of (CHR ''{'')" using n [of "j + i"] i(1) by simp
  moreover have "?m ! (j + i) = byte_of (''msgType'' ! i)" using take_bytes_nth [OF t, of i] i(3) by simp
  ultimately have "''msgType'' ! i = CHR ''{''" by (simp add: byte_of_inj)
  moreover have "i = 1 \<or> i = 2" using i by auto
  ultimately show False by auto
qed

text \<open>A constant part and fields a platform can send: readable, without NUL, within the structs.\<close>

definition request_ok :: "HERT_MSG_REQ_PUSH_DATA_CONSTPART \<Rightarrow> jfield list \<Rightarrow> bool" where
  "request_ok c fs = ((\<forall>f \<in> set (req_fields c @ fs). readable f) \<and> length (msgType c) < 64
     \<and> length (msgSeq c) < 20 \<and> CHR 0x00 \<notin> set (object_body (req_fields c @ fs)))"

lemma request_type:
  assumes "request_ok c fs" and "length pre \<le> 2" and "CHR 0x00 \<notin> set t" and "STR_QUOTATION \<notin> set pre"
    and "int (length pre + length (object_body (req_fields c @ fs))) \<le> n"
  shows "Parse_Msg_PushData_Type (Some (bytes_of (pre @ object_body (req_fields c @ fs) @ t) @ 0 # z)) n (Some 63) =
    Inr (bytes_of (msgType c) @ replicate (63 - length (msgType c)) 0)"
proof -
  let ?mid = "num_item ''version'' (sint (version c)) @ [STR_END1, STR_QUOTATION]"
  let ?r = "STR_END1 # fields_text (FStr ''msgSeq'' (msgSeq c) # fs) @ [STR_END2] @ t"
  let ?m = "bytes_of (pre @ object_body (req_fields c @ fs) @ t) @ 0 # z"
  have m: "?m = bytes_of (pre @ CHR ''{'' # ?mid) @ bytes_of (type_item (msgType c) @ ?r) @ 0 # z"
  proof -
    have "pre @ object_body (req_fields c @ fs) @ t = (pre @ CHR ''{'' # ?mid) @ type_item (msgType c) @ ?r"
      by (simp add: request_text)
    then show ?thesis by (simp only: bytes_of_append append_assoc)
  qed
  have "CHR ''m'' \<notin> set ?mid" using num_item_no_m by simp
  then have h: "\<forall>j < length (bytes_of (pre @ CHR ''{'' # ?mid)). take 7 (drop j ?m) \<noteq> bytes_of ''msgType''"
    unfolding m length_bytes_of using no_early_type [OF assms(2)] by blast
  have "CHR 0x00 \<notin> set (type_item (msgType c) @ ?r)"
    using assms(1,3) unfolding request_ok_def request_text by auto
  then have z: "CHR 0x00 \<notin> set (msgType c @ ?r)" by (simp add: type_item_def)
  have q: "STR_QUOTATION \<notin> set (msgType c)"
    using assms(1) by (simp add: request_ok_def fields_defs plain_text_def)
  have "length (object_body (req_fields c @ fs)) = length (CHR ''{'' # ?mid) + length (type_item (msgType c)
      @ STR_END1 # fields_text (FStr ''msgSeq'' (msgSeq c) # fs) @ [STR_END2])"
    unfolding request_text by simp
  then have "int (length (bytes_of (pre @ CHR ''{'' # ?mid)) + 7) < n"
    using assms(5) by (simp add: type_item_def)
  from PushData_Type_text [OF h m q z this, of 63] show ?thesis
    using assms(1) by (simp add: request_ok_def)
qed

lemma request_const:
  assumes "request_ok c []" and "STR_QUOTATION \<notin> set pre" and "STR_QUOTATION \<notin> set t"
    and "STR_END1 \<notin> set t"
  shows "Parse_Msg_BodyConstPartReq (Some (pre @ object_body (req_fields c) @ t)) (Some q) = Inr c"
proof -
  have ne: "req_fields c \<noteq> []" by (simp add: fields_defs)
  have pre: "STR_QUOTATION \<notin> set (pre @ ''{'')" using assms(2) by simp
  have "json_items ((pre @ ''{'') @ fields_text (req_fields c) @ STR_END2 # t) = map field_pair (req_fields c)"
    using assms(1) by (intro json_items_fields ne pre assms(3,4)) (simp add: request_ok_def)
  then have j: "json_items (pre @ object_body (req_fields c) @ t) = map field_pair (req_fields c)"
    by (simp add: object_body_def)
  have "items_fold 128 (else_if const_tests) (map field_pair (req_fields c)) zero_req = Inr c"
    using assms(1) show_dword_short [of "version c"]
    by (simp add: fields_defs item_defs zero_req_def dword_roundtrip request_ok_def)
  then show ?thesis by (simp only: Parse_Msg_BodyConstPartReq_def json_loop_items j nonnull_Some)
qed

section \<open>A frame and what follows it\<close>

text \<open>
  A destination address as the platform uses it: without NUL and quotation mark, of two or more
  characters, and with the body short enough for one length byte.
\<close>

definition frame_ok :: "string \<Rightarrow> string \<Rightarrow> bool" where
  "frame_ok s J = (2 \<le> length s \<and> CHR 0x00 \<notin> set s \<and> STR_QUOTATION \<notin> set s
     \<and> 2 + length s + length J < 128)"

lemma high_0: "length s < 128 \<Longrightarrow> fst (GetHighLowFromString s) = 0"
proof -
  assume l: "length s < 128"
  have "drop_bit 8 (word_of_nat (length s) :: 16 word) = 0"
  proof (rule word_unat_eq_iff [THEN iffD2])
    have "unat (word_of_nat (length s) :: 16 word) = length s" using l by (simp add: unat_of_nat)
    then show "unat (drop_bit 8 (word_of_nat (length s) :: 16 word)) = unat (0 :: 16 word)"
      using l by (simp only: unat_drop_bit_eq) (simp add: drop_bit_eq_div)
  qed
  then show ?thesis by (simp add: GetHighLowFromString_def Let_def)
qed

lemma push_frame_short:
  "2 + length s + length J < 128 \<Longrightarrow> push_frame s J =
    SET_MSG_HEADER_TYPE PUSH_DATA # word_of_nat (2 + length s + length J) # 0 # snd (GetHighLowFromString s)
    # bytes_of s @ bytes_of J"
  by (simp add: push_frame_def varint.simps high_0)

lemma length_push_short: "2 + length s + length J < 128 \<Longrightarrow> length (push_frame s J) = 4 + length s + length J"
  by (simp add: push_frame_short)

lemma frame_data:
  assumes "2 + length s + length J < 128"
  shows "Parse_Msg_Data (Some (push_frame s J @ r)) = Inr (2, word_of_nat (2 + length s + length J))"
proof -
  have "(word_of_nat (2 + length s + length J) :: byte) \<noteq> 0"
    using assms by (intro word_of_nat_byte_nonzero) simp_all
  moreover have "ucast ((word_of_nat (2 + length s + length J) :: byte) AND 0x7F) =
      (word_of_nat (2 + length s + length J) :: dword)"
    using assms low7 [of "2 + length s + length J"] by simp
  ultimately show ?thesis
    by (simp add: push_frame_short [OF assms] Parse_Msg_Data_def pmd_loop_4)
qed

text \<open>The same frame with anything behind it, split where the client splits it.\<close>

lemma push_body_request:
  assumes "request_ok c fs" and "frame_ok s (object_body (req_fields c @ fs))"
    and "CHR 0x00 \<notin> set t" and "mem e (length s + 1)"
    and "4 + length s + length (object_body (req_fields c @ fs)) \<le> n" and "n < 2 ^ 31"
  shows "push_body e (push_frame s (object_body (req_fields c @ fs)) @ bytes_of t @ 0 # z) n 2 w =
    rbind (dispatch_push e (msgType c) (push_option s)
        (bytes_of (drop (length s - 2) s @ object_body (req_fields c @ fs) @ t) @ 0 # z) w)
      (\<lambda>(c, w). Inr (c, w, True))"
proof -
  let ?J = "object_body (req_fields c @ fs)"
  let ?m = "push_frame s ?J @ bytes_of t @ 0 # z"
  have l: "2 + length s + length ?J < 128" "2 \<le> length s" "CHR 0x00 \<notin> set s" "STR_QUOTATION \<notin> set s"
    using assms(2) by (simp_all add: frame_ok_def)
  have at: "?m ! 2 = 0" "?m ! (2 + 1) = snd (GetHighLowFromString s)"
    by (simp_all add: push_frame_short [OF l(1)] numeral_2_eq_2)
  have len: "GetLengthFromTwoBytes 0 (snd (GetHighLowFromString s)) = int (length s)"
    using push_option_length [of s] l(1) high_0 [of s] by simp
  have src: "drop (2 + 2) ?m = bytes_of s @ bytes_of ?J @ bytes_of t @ 0 # z"
    by (simp add: push_frame_short [OF l(1)])
  have nz: "take 1 (bytes_of s @ bytes_of ?J @ bytes_of t @ 0 # z) \<noteq> [0]"
  proof -
    obtain x s' where s: "s = x # s'" using l(2) by (cases s) auto
    then have "byte_of x \<noteq> 0" using l(3) byte_of_eq_0_iff [of x] by auto
    then show ?thesis using s by (simp add: bytes_of_def)
  qed
  have opt: "take_option e (drop (2 + 2) ?m) (length s) = Inr (Some s)"
    unfolding src take_option_def using assms(4) l(1) nz by simp
  let ?pre = "drop (length s - 2) s"
  have body: "drop (length s + 2) ?m = bytes_of (?pre @ ?J @ t) @ 0 # z"
  proof -
    have "drop (length s + 2) ?m = drop (length s - 2) (bytes_of s @ bytes_of ?J @ bytes_of t @ 0 # z)"
    proof -
      have "length s + 2 = Suc (Suc (Suc (Suc (length s - 2))))" using l(2) by simp
      then show ?thesis by (simp only: push_frame_short [OF l(1)] append_Cons drop_Suc_Cons append_assoc)
    qed
    then show ?thesis by (simp add: bytes_of_def drop_map)
  qed
  have "STR_QUOTATION \<notin> set ?pre" using l(4) set_drop_subset by fastforce
  then have ty: "Parse_Msg_PushData_Type (Some (bytes_of (?pre @ ?J @ t) @ 0 # z))
      (int n - int (length s) - 2) (Some 63) = Inr (bytes_of (msgType c) @ replicate (63 - length (msgType c)) 0)"
    using assms(5) l(2) by (intro request_type assms(1,3)) simp_all
  have "CHR 0x00 \<notin> set (msgType c)"
    using assms(1) unfolding request_ok_def request_text by (simp add: type_item_def)
  then have str: "map char_at (takeWhile (\<lambda>b. b \<noteq> 0) (bytes_of (msgType c) @ replicate k 0)) = msgType c" for k
  proof -
    have "takeWhile (\<lambda>b. b \<noteq> 0) (bytes_of (msgType c) @ replicate k 0) = bytes_of (msgType c)"
      using \<open>CHR 0x00 \<notin> set (msgType c)\<close>
      by (subst takeWhile_append2) (auto simp: bytes_of_def byte_of_eq_0_iff)
    then show ?thesis by (simp only: map_char_at_bytes_of)
  qed
  have "(int n - int (length s) - 2) mod 2 ^ 32 = int n - int (length s) - 2"
    using assms(5,6) by (intro mod_pos_pos_trivial) simp_all
  moreover have "nat (int (length s) mod 2 ^ 32) = length s" using l(1) by simp
  moreover have "\<lparr>nHighLength = 0, nLowLength = snd (GetHighLowFromString s), pData = Some s\<rparr> = push_option s"
    using high_0 [of s] l(1) by (cases "GetHighLowFromString s") (simp add: push_option_def)
  moreover have "\<not> length ?m < 2 + 2" by (simp add: length_push_short [OF l(1)])
  ultimately show ?thesis
    by (simp only: push_body_def Let_def at len opt rbind_Inr body ty str if_False sum.case)
qed

lemma push_one_request:
  assumes "request_ok c fs" and "frame_ok s (object_body (req_fields c @ fs))"
    and "CHR 0x00 \<notin> set t" and "mem e (length s + 1)"
    and "4 + length s + length (object_body (req_fields c @ fs)) \<le> n" and "n < 2 ^ 31"
  shows "push_one e (push_frame s (object_body (req_fields c @ fs)) @ bytes_of t @ 0 # z) n w =
    rbind (dispatch_push e (msgType c) (push_option s)
        (bytes_of (drop (length s - 2) s @ object_body (req_fields c @ fs) @ t) @ 0 # z) w)
      (\<lambda>(c', w). Inr (c', w, if 8 + length s + length (object_body (req_fields c @ fs)) < n
         then Some (4 + length s + length (object_body (req_fields c @ fs))) else None))"
proof -
  let ?J = "object_body (req_fields c @ fs)"
  have l: "2 + length s + length ?J < 128" using assms(2) by (simp add: frame_ok_def)
  have "unat (word_of_nat (2 + length s + length ?J) :: dword) = 2 + length s + length ?J"
    using l by (intro unat_word_of_nat_dword) simp
  moreover have "\<not> n < 2 + (2 + length s + length ?J)" "n \<noteq> 0" using assms(5) by simp_all
  ultimately show ?thesis
    unfolding push_one_def frame_data [OF l]
    by (simp add: push_body_request [OF assms] Let_def rbind_def split: sum.split)
qed

section \<open>The answer to a space request\<close>

text \<open>The head of the answer to a space request: version and number of the request, no error.\<close>

definition space_head :: "HERT_MSG_REQ_PUSH_DATA_CONSTPART \<Rightarrow> HERT_MSG_RSP_PUSH_DATA_CONSTPART" where
  "space_head c = \<lparr>version = version c, msgType = ''MSG_GET_ROUTER_SPACE_RSP'', msgSeq = msgSeq c,
     errorCode = 0, description = []\<rparr>"

lemma answer_const_space: "answer_const ''MSG_GET_ROUTER_SPACE_RSP'' c = space_head c"
  by (simp add: answer_const_def zero_rsp_def space_head_def)

definition space_answer :: "string \<Rightarrow> HERT_MSG_REQ_PUSH_DATA_CONSTPART \<Rightarrow> 'm hert_world \<Rightarrow> byte list" where
  "space_answer s c w = push_frame s (object_body
     (rsp_fields (space_head c) @ space_fields (spaceData w)))"

definition space_ready :: "string \<Rightarrow> HERT_MSG_REQ_PUSH_DATA_CONSTPART \<Rightarrow> 'm hert_world \<Rightarrow> bool" where
  "space_ready s c w = flat_ready DATA_SIZE s
     (rsp_fields (space_head c) @ space_fields (spaceData w))"

lemma space_sends:
  assumes "space_ready s c w" and "mem e 512"
  shows "transact e (Build_Msg_RouteSpaceRsp (mem e) (Some DATA_SIZE) (Some ()) (Some (push_option s))
      (Some (answer_const ''MSG_GET_ROUTER_SPACE_RSP'' c)) (Some (spaceData w))) w =
    HERT_TCP_SendTransaction e (space_answer s c w) w"
proof -
  let ?fs = "rsp_fields (space_head c) @ space_fields (spaceData w)"
  have ne: "?fs \<noteq> []" by (simp add: fields_defs)
  have "json_message (mem e) 512 (flat_steps ?fs) (push_into DATA_SIZE (push_option s)) =
      Inr (push_frame s (object_body ?fs))"
    by (rule flat_message_sends [where mem = "mem e", OF assms(1) [unfolded space_ready_def] ne assms(2)])
  then show ?thesis
    unfolding transact_def Build_Msg_RouteSpaceRsp_def nonnull_Some builder_steps(4) space_answer_def answer_const_space
    by (simp only: on_ret_simps)
qed

lemma RouterSpaceReq_answers:
  assumes "cstr body = Some txt" and "Parse_Msg_BodyConstPartReq (Some txt) (Some zero_req) = Inr c"
    and "space_ready s c w" and "mem e 512"
  shows "Msg_Process_PushData_RouterSpaceReq e (Some (push_option s)) (Some body) w =
    HERT_TCP_SendTransaction e (space_answer s c w) w"
  using assms space_sends [OF assms(3,4)]
  by (simp add: Msg_Process_PushData_RouterSpaceReq_def on_request_def with_cstr_def)

lemma dispatch_space:
  "dispatch_push e ''MSG_GET_ROUTER_SPACE_REQ'' opt body w =
    Msg_Process_PushData_RouterSpaceReq e (Some opt) (Some body) w"
  by (simp add: dispatch_push_def has_type_def)

text \<open>One space request and what follows it in the read.\<close>

lemma push_one_space:
  assumes "msgType c = ''MSG_GET_ROUTER_SPACE_REQ''" and "request_ok c []"
    and "frame_ok s (object_body (req_fields c))" and "space_ready s c w"
    and "CHR 0x00 \<notin> set t" and "STR_QUOTATION \<notin> set t" and "STR_END1 \<notin> set t"
    and "mem e (length s + 1)" and "mem e 512"
    and "4 + length s + length (object_body (req_fields c)) \<le> n" and "n < 2 ^ 31"
  shows "push_one e (push_frame s (object_body (req_fields c)) @ bytes_of t @ 0 # z) n w =
    rbind (HERT_TCP_SendTransaction e (space_answer s c w) w)
      (\<lambda>(c', w). Inr (c', w, if 8 + length s + length (object_body (req_fields c)) < n
         then Some (4 + length s + length (object_body (req_fields c))) else None))"
proof -
  let ?J = "object_body (req_fields c)" and ?pre = "drop (length s - 2) s"
  have s: "CHR 0x00 \<notin> set s" "STR_QUOTATION \<notin> set s" using assms(3) by (simp_all add: frame_ok_def)
  then have pre: "CHR 0x00 \<notin> set ?pre" "STR_QUOTATION \<notin> set ?pre"
    using set_drop_subset [of "length s - 2" s] by auto
  have "CHR 0x00 \<notin> set (?pre @ ?J @ t)" using pre(1) assms(2,5) by (simp add: request_ok_def)
  then have c: "cstr (bytes_of (?pre @ ?J @ t) @ 0 # z) = Some (?pre @ ?J @ t)" by (rule cstr_bytes_of)
  have "Parse_Msg_BodyConstPartReq (Some (?pre @ ?J @ t)) (Some zero_req) = Inr c"
    by (rule request_const [OF assms(2) pre(2) assms(6,7)])
  from RouterSpaceReq_answers [OF c this assms(4,9)]
  show ?thesis
    unfolding push_one_request [where fs = "[]", unfolded append_Nil2, OF assms(2,3,5,8,10,11)]
    by (simp only: assms(1) dispatch_space)
qed

lemma Entry_push:
  assumes "status w = HERT_REGISTERED" and "2 + length s + length J < 128"
  shows "Msg_Process_Entry e (Some (push_frame s J @ r)) n w =
    Msg_Process_PushData_Loop e (push_frame s J @ r) n w"
proof -
  have "rd (push_frame s J @ r) 0 = Inr (SET_MSG_HEADER_TYPE PUSH_DATA)"
    by (simp add: push_frame_short [OF assms(2)] rd_def)
  moreover have "GET_MSG_TYPE (SET_MSG_HEADER_TYPE PUSH_DATA) = PUSH_DATA" "PUSH_DATA \<noteq> CONN_RESP"
    "PUSH_DATA \<noteq> PING_RESP"
    by (simp_all add: GET_MSG_TYPE_def SET_MSG_HEADER_TYPE_def PUSH_DATA_def CONN_RESP_def PING_RESP_def)
  ultimately show ?thesis
    using assms(1) by (simp add: Msg_Process_Entry_def Msg_Process_PushData_def)
qed

lemma loop_last:
  assumes "push_one e m n w = rbind (HERT_TCP_SendTransaction e a w) (\<lambda>(c', w). Inr (c', w, None))"
  shows "Msg_Process_PushData_Loop e m n w = HERT_TCP_SendTransaction e a w"
  by (subst Msg_Process_PushData_Loop.simps, simp only: assms) (simp add: HERT_TCP_SendTransaction_def Let_def)

lemma last_space:
  assumes "msgType c = ''MSG_GET_ROUTER_SPACE_REQ''" and "request_ok c []"
    and "frame_ok s (object_body (req_fields c))" and "space_ready s c w"
    and "mem e (length s + 1)" and "mem e 512"
  shows "Msg_Process_PushData_Loop e (push_frame s (object_body (req_fields c)) @ 0 # z)
      (4 + length s + length (object_body (req_fields c))) w =
    HERT_TCP_SendTransaction e (space_answer s c w) w"
proof (rule loop_last)
  let ?J = "object_body (req_fields c)"
  have l: "2 + length s + length ?J < 128" using assms(3) by (simp add: frame_ok_def)
  have "push_one e (push_frame s ?J @ bytes_of [] @ 0 # z) (4 + length s + length ?J) w =
      rbind (HERT_TCP_SendTransaction e (space_answer s c w) w) (\<lambda>(c', w). Inr (c', w,
        if 8 + length s + length ?J < 4 + length s + length ?J
        then Some (4 + length s + length ?J) else None))"
    by (rule push_one_space [OF assms(1-4) _ _ _ assms(5,6)]) (use l in simp_all)
  then show "push_one e (push_frame s ?J @ 0 # z) (4 + length s + length ?J) w =
      rbind (HERT_TCP_SendTransaction e (space_answer s c w) w) (\<lambda>(c', w). Inr (c', w, None))"
    by (simp add: bytes_of_def)
qed

text \<open>
  C6: a registered client that reads a space request answers it with one frame to the address
  of the request, with its version and number, a zero error code and the space it last measured,
  and changes nothing else.
\<close>

theorem space_request_answered:
  assumes "status w = HERT_REGISTERED" and "msgType c = ''MSG_GET_ROUTER_SPACE_REQ''" and "request_ok c []"
    and "frame_ok s (object_body (req_fields c))" and "space_ready s c w"
    and "mem e (length s + 1)" and "mem e 512"
  shows "Msg_Process_Entry e (Some (push_frame s (object_body (req_fields c)) @ 0 # z))
      (length (push_frame s (object_body (req_fields c)))) w =
    HERT_TCP_SendTransaction e (space_answer s c w) w"
proof -
  have l: "2 + length s + length (object_body (req_fields c)) < 128"
    using assms(4) by (simp add: frame_ok_def)
  show ?thesis
    unfolding Entry_push [OF assms(1) l] length_push_short [OF l] by (rule last_space [OF assms(2-7)])
qed


section \<open>A request without an address\<close>

text \<open>
  A space request whose option is empty is recognised by its type, but the handler is given
  the two zero length bytes as the start of the body: it reads no item of the request and
  answers with version 0 and an empty number.
\<close>

theorem empty_address_loses_items:
  assumes "status w = HERT_REGISTERED" and "msgType c = ''MSG_GET_ROUTER_SPACE_REQ''" and "request_ok c []"
    and "2 + length (object_body (req_fields c)) < 128" and "space_ready [] zero_req w"
    and "mem e 1" and "mem e 512"
  shows "Msg_Process_Entry e (Some (push_frame [] (object_body (req_fields c)) @ 0 # z))
      (length (push_frame [] (object_body (req_fields c)))) w =
    HERT_TCP_SendTransaction e (space_answer [] zero_req w) w"
proof -
  let ?J = "object_body (req_fields c)" and ?pre = "[CHR 0x00, CHR 0x00]"
  let ?m = "push_frame [] ?J @ 0 # z" and ?n = "4 + length ?J"
  have l: "2 + length ([] :: string) + length ?J < 128" using assms(4) by simp
  have f: "push_frame [] ?J = SET_MSG_HEADER_TYPE PUSH_DATA # word_of_nat (2 + length ?J) # 0 # 0 # bytes_of ?J"
    using assms(4) by (simp add: push_frame_short GetHighLowFromString_def bytes_of_def)
  have body: "drop (0 + 2) ?m = bytes_of (?pre @ ?J @ []) @ 0 # z"
    by (simp add: f bytes_of_def byte_of_def)
  have opt: "take_option e (drop (2 + 2) ?m) 0 = Inr (Some [])"
    using assms(6) by (simp add: take_option_def)
  have ty: "Parse_Msg_PushData_Type (Some (bytes_of (?pre @ ?J @ []) @ 0 # z)) (int ?n - int 0 - 2) (Some 63) =
      Inr (bytes_of (msgType c) @ replicate (63 - length (msgType c)) 0)"
    using request_type [where fs = "[]", OF assms(3), of ?pre "[]"] by simp
  have str: "map char_at (takeWhile (\<lambda>b. b \<noteq> 0) (bytes_of ''MSG_GET_ROUTER_SPACE_REQ'' @ replicate k 0))
      = ''MSG_GET_ROUTER_SPACE_REQ''" for k
  proof -
    have "takeWhile (\<lambda>b. b \<noteq> 0) (bytes_of ''MSG_GET_ROUTER_SPACE_REQ'' @ replicate k 0) =
        bytes_of ''MSG_GET_ROUTER_SPACE_REQ''"
      by (subst takeWhile_append2) (auto simp: bytes_of_def byte_of_eq_0_iff)
    then show ?thesis by (simp only: map_char_at_bytes_of)
  qed
  have c: "cstr (bytes_of (?pre @ ?J @ []) @ 0 # z) = Some []"
    by (simp add: cstr_def bytes_of_def byte_of_def)
  have p: "Parse_Msg_BodyConstPartReq (Some []) (Some zero_req) = Inr zero_req"
    by (simp add: Parse_Msg_BodyConstPartReq_def json_loop_items json_items.simps ParseJsonString_no_quote)
  have o: "\<lparr>nHighLength = 0, nLowLength = 0, pData = Some []\<rparr> = push_option []"
    by (simp add: push_option_def GetHighLowFromString_def)
  have at: "?m ! 2 = 0" "?m ! (2 + 1) = 0" by (simp_all add: f numeral_2_eq_2)
  have g: "nat (GetLengthFromTwoBytes 0 0 mod 2 ^ 32) = 0" by (simp add: GetLengthFromTwoBytes_def)
  have i: "(int ?n - int 0 - 2) mod 2 ^ 32 = int ?n - int 0 - 2"
    using assms(4) by (intro mod_pos_pos_trivial) simp_all
  have b: "push_body e ?m ?n 2 w = rbind (HERT_TCP_SendTransaction e (space_answer [] zero_req w) w)
      (\<lambda>(c, w). Inr (c, w, True))"
  proof -
    have "\<not> length ?m < 2 + 2" by (simp add: f)
    then show ?thesis
      using RouterSpaceReq_answers [OF c p assms(5,7)]
      by (simp only: push_body_def Let_def at g opt rbind_Inr body i ty str assms(2) o dispatch_space
          if_False sum.case)
  qed
  have "unat (word_of_nat (2 + length ([] :: string) + length ?J) :: dword) = 2 + length ([] :: string) + length ?J"
    using l by (intro unat_word_of_nat_dword) simp
  then have "push_one e ?m ?n w =
      rbind (HERT_TCP_SendTransaction e (space_answer [] zero_req w) w) (\<lambda>(c', w). Inr (c', w, None))"
    unfolding push_one_def frame_data [OF l] using b
    by (simp add: Let_def HERT_TCP_SendTransaction_def)
  from loop_last [OF this] show ?thesis
    unfolding Entry_push [OF assms(1) l] length_push_short [OF l] by simp
qed

section \<open>Witnesses\<close>

definition space_req :: "string \<Rightarrow> HERT_MSG_REQ_PUSH_DATA_CONSTPART" where
  "space_req q = \<lparr>version = 16, msgType = ''MSG_GET_ROUTER_SPACE_REQ'', msgSeq = q\<rparr>"

lemma char_codes: "digit_char (Suc 0) = CHR ''1''" "digit_char 6 = CHR ''6''" "digit_char 0 = CHR ''0''"
  by (simp_all add: digit_char_def char_of_def bit_iff_odd)

lemma show_16: "show_int 16 = ''16''" "show_int 0 = ''0''"
  by (simp_all add: show_int_def show_nat.simps char_codes)

lemma space_req_ok: "request_ok (space_req ''7'') []" "request_ok (space_req ''8'') []"
  by (simp_all add: request_ok_def space_req_def fields_defs plain_text_def object_body_def str_item_def
      num_item_def show_16)

lemma space_req_frame: "frame_ok ''dev'' (object_body (req_fields (space_req ''7'')))"
    "frame_ok ''dev'' (object_body (req_fields (space_req ''8'')))"
    "2 + length (object_body (req_fields (space_req ''7''))) < 128"
  by (simp_all add: frame_ok_def space_req_def fields_defs object_body_def str_item_def num_item_def show_16)

definition online_world :: "(nat \<Rightarrow> byte) hert_world" where
  "online_world = started_world\<lparr>status := HERT_REGISTERED\<rparr>"

lemma online: "status online_world = HERT_REGISTERED" "wire online_world = []"
    "spaceData online_world = \<lparr>diskStatus = 0, totalSpace = 0, usedSpace = 0, leftSpace = 0\<rparr>"
proof -
  have "spaceData started_world = \<lparr>diskStatus = 0, totalSpace = 0, usedSpace = 0, leftSpace = 0\<rparr>"
    unfolding started_world_def fresh_run by (simp add: zero_workdata_def)
  then show "status online_world = HERT_REGISTERED" "wire online_world = []"
    "spaceData online_world = \<lparr>diskStatus = 0, totalSpace = 0, usedSpace = 0, leftSpace = 0\<rparr>"
    by (simp_all add: online_world_def started)
qed

lemma online_ready: "space_ready ''dev'' (space_req ''7'') online_world"
    "space_ready ''dev'' (space_req ''8'') online_world" "space_ready [] zero_req online_world"
  by (simp_all add: space_ready_def flat_ready_def sendable_def fields_defs plain_text_def object_body_def
      str_item_def num_item_def length_push_frame varint.simps online space_head_def space_req_def
      zero_req_def zero_rsp_def show_16 DATA_SIZE_def)

theorem space_request_answered_witness:
  "Msg_Process_Entry calm_env (Some (push_frame ''dev'' (object_body (req_fields (space_req ''7''))) @ [0]))
      (length (push_frame ''dev'' (object_body (req_fields (space_req ''7''))))) online_world =
    Inr (RETCODE_SUCCESS, online_world\<lparr>wire := [(space_answer ''dev'' (space_req ''7'') online_world, True)]\<rparr>)"
  using space_request_answered [OF online(1) _ space_req_ok(1) space_req_frame(1) online_ready(1),
      of calm_env "[]"] online
  by (simp add: space_req_def HERT_TCP_SendTransaction_def)


theorem empty_address_loses_items_witness:
  "Msg_Process_Entry calm_env (Some (push_frame [] (object_body (req_fields (space_req ''7''))) @ [0]))
      (length (push_frame [] (object_body (req_fields (space_req ''7''))))) online_world =
    Inr (RETCODE_SUCCESS, online_world\<lparr>wire := [(space_answer [] zero_req online_world, True)]\<rparr>)"
proof -
  have t: "msgType (space_req q) = ''MSG_GET_ROUTER_SPACE_REQ''" for q by (simp add: space_req_def)
  show ?thesis
    using empty_address_loses_items [OF online(1) t space_req_ok(1) space_req_frame(3) online_ready(3),
        of calm_env "[]"] online
    by (simp add: HERT_TCP_SendTransaction_def)
qed

end
