(* ===== verification/AppThread.thy ===== *)
theory AppThread
  imports AppAnswers
begin

text \<open>
  The download thread over many passes: the list file refines a list of items, operation by
  operation, and every item that waits in it is reported to the platform.
\<close>

section \<open>The list file refines a list\<close>

datatype 'd work_op = AddItemOp 'd | DelItemOp 'd | FirstItemOp

text \<open>The specification: a list without the file, the shell and the text of its lines.\<close>

fun spec_op :: "'d work_op \<Rightarrow> 'd list \<Rightarrow> 'd option \<times> 'd list" where
  "spec_op (AddItemOp d) ds = (None, filter (\<lambda>e. e \<noteq> d) ds @ [d])"
| "spec_op (DelItemOp d) ds = (None, filter (\<lambda>e. e \<noteq> d) ds)"
| "spec_op FirstItemOp ds = (case ds of [] \<Rightarrow> None | d # _ \<Rightarrow> Some d, ds)"

fun list_op :: "('d \<Rightarrow> 'q \<Rightarrow> 'q option) \<Rightarrow> ('d \<Rightarrow> 'q \<Rightarrow> 'q option) \<Rightarrow> ('q \<Rightarrow> 'd option) \<Rightarrow>
    'd work_op \<Rightarrow> 'q \<Rightarrow> ('d option \<times> 'q) option" where
  "list_op add del first (AddItemOp d) q = map_option (Pair None) (add d q)"
| "list_op add del first (DelItemOp d) q = map_option (Pair None) (del d q)"
| "list_op add del first FirstItemOp q = Some (first q, q)"

text \<open>A sequence of operations: the answers, and what is left.\<close>

fun run_ops :: "('p \<Rightarrow> 'q \<Rightarrow> ('a \<times> 'q) option) \<Rightarrow> 'p list \<Rightarrow> 'q \<Rightarrow> ('a list \<times> 'q) option" where
  "run_ops f [] q = Some ([], q)"
| "run_ops f (p # ps) q = (case f p q of None \<Rightarrow> None
     | Some (a, q') \<Rightarrow> map_option (\<lambda>(as, q''). (a # as, q'')) (run_ops f ps q'))"

fun op_ok :: "('d \<Rightarrow> bool) \<Rightarrow> 'd work_op \<Rightarrow> bool" where
  "op_ok ok (AddItemOp d) = ok d"
| "op_ok ok _ = True"

context work_list
begin

lemma list_op_refines:
  assumes "rep q ds" and "op_ok ok p"
  shows "\<exists>q'. list_op add del first p q = Some (fst (spec_op p ds), q') \<and> rep q' (snd (spec_op p ds))"
  using assms rep_add [of q ds] rep_del [of q ds] rep_first [of q ds] by (cases p) fastforce+

lemma run_refines:
  assumes "rep q ds" and "\<forall>p \<in> set ps. op_ok ok p"
  shows "\<exists>as ds' q'. run_ops (\<lambda>p ds. Some (spec_op p ds)) ps ds = Some (as, ds') \<and>
    run_ops (list_op add del first) ps q = Some (as, q') \<and> rep q' ds'"
  using assms
proof (induction ps arbitrary: q ds)
  case Nil
  then show ?case by simp
next
  case (Cons p ps)
  obtain a es where s: "spec_op p ds = (a, es)" by (cases "spec_op p ds")
  obtain q' where q': "list_op add del first p q = Some (a, q')" "rep q' es"
    using list_op_refines [of q ds p] Cons.prems s by auto
  from Cons.IH [OF q'(2)] Cons.prems(2) obtain as ds' q'' where
    "run_ops (\<lambda>p ds. Some (spec_op p ds)) ps es = Some (as, ds')"
    "run_ops (list_op add del first) ps q' = Some (as, q'')" "rep q'' ds'" by auto
  then show ?case using q'(1) s by simp
qed

end

text \<open>
  C8: the list file behaves as a list of items: for every sequence of adding, removing and reading
  the first item, starting from a file that holds some items, the functions of the program give
  the answers of the list, never fail, and leave a file that holds the items of the list.
\<close>

theorem download_list_refines:
  assumes "holds_items q ds" and "\<forall>p \<in> set ps. op_ok item_ok p"
  shows "\<exists>as ds' q'. run_ops (\<lambda>p ds. Some (spec_op p ds)) ps ds = Some (as, ds') \<and>
    run_ops (list_op down_add down_del down_first) ps q = Some (as, q') \<and> holds_items q' ds'"
  using assms by (rule downreq.run_refines)

theorem download_list_refines_witness:
  "\<exists>q'. run_ops (list_op down_add down_del down_first)
      [AddItemOp \<lparr>contentID = ''1'', URL = ''u'', contentName = ''n''\<rparr>,
       AddItemOp \<lparr>contentID = ''2'', URL = ''u'', contentName = ''n''\<rparr>,
       DelItemOp \<lparr>contentID = ''1'', URL = ''u'', contentName = ''n''\<rparr>, FirstItemOp]
      \<lparr>list_file = None, temp_file = None, edit_nRet = 1\<rparr> =
    Some ([None, None, None, Some \<lparr>contentID = ''2'', URL = ''u'', contentName = ''n''\<rparr>], q') \<and>
    holds_items q' [\<lparr>contentID = ''2'', URL = ''u'', contentName = ''n''\<rparr>]"
proof -
  let ?q = "\<lparr>list_file = None, temp_file = None, edit_nRet = 1\<rparr>"
  have "holds_items ?q []" by (simp add: holds_items_def)
  from download_list_refines [OF this,
      of "[AddItemOp \<lparr>contentID = ''1'', URL = ''u'', contentName = ''n''\<rparr>,
       AddItemOp \<lparr>contentID = ''2'', URL = ''u'', contentName = ''n''\<rparr>,
       DelItemOp \<lparr>contentID = ''1'', URL = ''u'', contentName = ''n''\<rparr>, FirstItemOp]"]
  show ?thesis
    by (simp add: item_ok_def word_ok_def item_line_def shell_plain_def is_space_def)
qed

section \<open>Every download is reported\<close>

text \<open>Items whose identifier can be put into a message, and passes in which the files can be made.\<close>

definition reportable :: "down_item \<Rightarrow> bool" where
  "reportable d = (plain_text (contentID d) \<and> length (contentID d) \<le> 113)"

definition pass_ok :: "'m hert_env \<Rightarrow> down_item \<Rightarrow> bool" where
  "pass_ok e d = ((\<forall>n \<le> 3. curl_init e n \<longrightarrow> out_open e n) \<and> dir_ok e \<and> mem e 512 \<and>
     length (usb_path e) < 56 \<and> length (usb_path e) + length (contentName d) < 119)"

text \<open>The report of an item, and those of a list of items, with their numbers.\<close>

definition report_frame :: "dword \<Rightarrow> string \<Rightarrow> down_item \<Rightarrow> byte list" where
  "report_frame q s d = push_frame s (object_body
     (req_fields \<lparr>version = 0x0010, msgType = ''MSG_DOWNLOAD_COMP_NOTIFY_REQ'', msgSeq = show_int (sint q)\<rparr>
       @ [FStr ''contentID'' (contentID d)]))"

fun reports :: "dword \<Rightarrow> string \<Rightarrow> down_item list \<Rightarrow> byte list list" where
  "reports q s [] = []"
| "reports q s (d # ds) = report_frame (q + 1) s d # reports (q + 1) s ds"

text \<open>Passes of the thread, each in its own environment.\<close>

fun passes :: "'m hert_env list \<Rightarrow> 'm hert_world \<Rightarrow> 'm hert_world option" where
  "passes [] w = Some w"
| "passes (e # es) w = (case DownLoad_pass e w of Some (Inr w') \<Rightarrow> passes es w' | _ \<Rightarrow> None)"

lemma report_ready:
  assumes "length (szDstAddress w) < 64" and "reportable d"
  shows "flat_ready DATA_SIZE (szDstAddress w)
    (req_fields (own_const ''MSG_DOWNLOAD_COMP_NOTIFY_REQ'' (next_seq w)) @ [FStr ''contentID'' (contentID d)])"
proof -
  let ?c = "own_const ''MSG_DOWNLOAD_COMP_NOTIFY_REQ'' (next_seq w)"
  let ?fs = "req_fields ?c @ [FStr ''contentID'' (contentID d)]"
  have s: "length (seq_text (next_seq w)) \<le> 11" "plain_text (seq_text (next_seq w))"
    using show_dword_length show_int_plain by (simp_all add: seq_text_def)
  have v: "length (show_int (sint (0x0010 :: dword))) \<le> 11" by (rule show_dword_length)
  have len: "length (object_body ?fs) \<le> 300"
    using s v assms(2) by (simp add: fields_defs object_body_def str_item_def num_item_def reportable_def)
  have "\<forall>f \<in> set ?fs. readable f"
    using s v assms(2) by (simp add: fields_defs reportable_def plain_text_def)
  moreover have "sendable (szDstAddress w)" using assms(1) by (simp add: sendable_def)
  moreover have "length (varint (2 + length (szDstAddress w) + length (object_body ?fs))) \<le> 2"
    using len assms(1) by (intro varint_length) simp
  ultimately show ?thesis
    using len assms(1) by (simp add: flat_ready_def length_push_frame DATA_SIZE_def)
qed

lemma pass_reports:
  assumes "holds_items (downList w) (d # ds)" and "distinct (d # ds)" and "bStopRun w = 0"
    and "length (szDstAddress w) < 64" and "reportable d" and "pass_ok e d"
  shows "\<exists>q r. DownLoad_pass e w = Some (Inr (w\<lparr>downList := q, wd_msgSeq := wd_msgSeq w + 1,
      wire := wire w @ [(report_frame (wd_msgSeq w + 1) (szDstAddress w) d, r)]\<rparr>)) \<and> holds_items q ds"
proof -
  have "filter (\<lambda>x. x \<noteq> d) ds = ds" using assms(2) by (auto intro: filter_True)
  moreover have "own_const t (next_seq w) = \<lparr>version = 0x0010, msgType = t,
      msgSeq = show_int (sint (wd_msgSeq w + 1))\<rparr>" for t
    by (simp add: own_const_def seq_text_def next_seq_def)
  ultimately show ?thesis
    using DownLoad_pass_effect [OF assms(1,3) _ _ _ _ _ report_ready [OF assms(4,5)], of e] assms(6)
    by (simp add: pass_ok_def report_frame_def)
qed

lemma passes_report:
  assumes "holds_items (downList w) ds" and "distinct ds" and "bStopRun w = 0"
    and "length (szDstAddress w) < 64" and "\<forall>d \<in> set ds. reportable d"
    and "length es = length ds" and "\<forall>e \<in> set es. \<forall>d \<in> set ds. pass_ok e d"
  shows "\<exists>w'. passes es w = Some w' \<and> holds_items (downList w') [] \<and>
    map fst (wire w') = map fst (wire w) @ reports (wd_msgSeq w) (szDstAddress w) ds"
  using assms
proof (induction ds arbitrary: w es)
  case Nil
  then show ?case by simp
next
  case (Cons d ds)
  then obtain e es' where es: "es = e # es'" by (cases es) simp_all
  obtain q r where p: "DownLoad_pass e w = Some (Inr (w\<lparr>downList := q, wd_msgSeq := wd_msgSeq w + 1,
      wire := wire w @ [(report_frame (wd_msgSeq w + 1) (szDstAddress w) d, r)]\<rparr>))" "holds_items q ds"
    using pass_reports [of w d ds e] Cons.prems es by auto
  let ?w = "w\<lparr>downList := q, wd_msgSeq := wd_msgSeq w + 1,
      wire := wire w @ [(report_frame (wd_msgSeq w + 1) (szDstAddress w) d, r)]\<rparr>"
  have "\<exists>w'. passes es' ?w = Some w' \<and> holds_items (downList w') [] \<and>
    map fst (wire w') = map fst (wire ?w) @ reports (wd_msgSeq ?w) (szDstAddress ?w) ds"
    by (rule Cons.IH) (use Cons.prems p(2) es in simp_all)
  then show ?case using p(1) es by auto
qed

text \<open>
  C9: no download is forgotten: from a list of waiting items, in as many passes of the thread as
  there are items, each item is reported to the platform, in the order of the list, with
  consecutive message numbers, whatever the downloads bring and whatever the sends return, and the
  list is empty in the end.
\<close>

theorem downloads_reported:
  assumes "holds_items (downList w) ds" and "distinct ds" and "bStopRun w = 0"
    and "length (szDstAddress w) < 64" and "\<forall>d \<in> set ds. reportable d"
    and "length es = length ds" and "\<forall>e \<in> set es. \<forall>d \<in> set ds. pass_ok e d"
  shows "\<exists>w'. passes es w = Some w' \<and> holds_items (downList w') [] \<and>
    map fst (wire w') = map fst (wire w) @ reports (wd_msgSeq w) (szDstAddress w) ds"
  using assms by (rule passes_report)

theorem downloads_reported_witness:
  "\<exists>w'. passes [calm_env, calm_env] (started_world\<lparr>downList := \<lparr>list_file = Some (list_text
        [\<lparr>contentID = ''7'', URL = ''u'', contentName = ''n''\<rparr>,
         \<lparr>contentID = ''8'', URL = ''u'', contentName = ''m''\<rparr>]), temp_file = None, edit_nRet = 0\<rparr>\<rparr>) = Some w' \<and>
    map fst (wire w') = [report_frame 1 ''dev'' \<lparr>contentID = ''7'', URL = ''u'', contentName = ''n''\<rparr>,
      report_frame 2 ''dev'' \<lparr>contentID = ''8'', URL = ''u'', contentName = ''m''\<rparr>]"
proof -
  let ?ds = "[\<lparr>contentID = ''7'', URL = ''u'', contentName = ''n''\<rparr>,
         \<lparr>contentID = ''8'', URL = ''u'', contentName = ''m''\<rparr>]"
  let ?w = "started_world\<lparr>downList := \<lparr>list_file = Some (list_text ?ds), temp_file = None, edit_nRet = 0\<rparr>\<rparr>"
  have h: "holds_items (downList ?w) ?ds"
    by (simp add: holds_items_def item_ok_def word_ok_def item_line_def shell_plain_def is_space_def)
  have w: "bStopRun ?w = 0" "szDstAddress ?w = ''dev''" "wd_msgSeq ?w = 0" "wire ?w = []"
    using started by simp_all
  have "\<exists>w'. passes [calm_env, calm_env] ?w = Some w' \<and> holds_items (downList w') [] \<and>
    map fst (wire w') = map fst (wire ?w) @ reports (wd_msgSeq ?w) (szDstAddress ?w) ?ds"
    by (rule downloads_reported [OF h])
       (simp_all add: started reportable_def pass_ok_def plain_text_def)
  then obtain w' where "passes [calm_env, calm_env] ?w = Some w'"
    "map fst (wire w') = map fst (wire ?w) @ reports (wd_msgSeq ?w) (szDstAddress ?w) ?ds" by blast
  then show ?thesis by (intro exI [of _ w'] conjI) (simp_all only: w, simp)
qed

end
