(* ===== verification/DeviceText.thy ===== *)
theory DeviceText
  imports DownloadQueue
begin

text \<open>
  How the router's programs read the device (herouteapp/hert_util.c, hert_com.c): the output of a
  command goes into a file, whose lines are read with fgets and searched.  A file is its text, None
  when it cannot be opened.  Settings, the processes that run, name servers, the rates of the
  interface and of the processor, the date.
\<close>

section \<open>Lines\<close>

text \<open>The lines a loop with \<open>fgets(line, n, fp)\<close> sees.\<close>

function fgets_lines :: "nat \<Rightarrow> string \<Rightarrow> string list" where
  "fgets_lines n s = (if s = [] \<or> n \<le> 1 then [] else fst (fgets n s) # fgets_lines n (snd (fgets n s)))"
  by pat_completeness auto
termination
  by (relation "measure (length \<circ> snd)") (auto simp: fgets_def Let_def)

declare fgets_lines.simps [simp del]

text \<open>REMOVE_CRLN: up to two line end characters at the end.\<close>

definition remove_crln_last :: "string \<Rightarrow> string" where
  "remove_crln_last s = (if s \<noteq> [] \<and> (last s = CHR 0x0A \<or> last s = CHR 0x0D) then butlast s else s)"

definition remove_crln :: "string \<Rightarrow> string" where
  "remove_crln s = remove_crln_last (remove_crln_last s)"

section \<open>Settings\<close>

text \<open>
  A setting printed by nvram_get into a file and read back into 64 chars; shorter lines than \<open>k\<close>
  keep their line end.
\<close>

definition read_setting :: "nat \<Rightarrow> string option \<Rightarrow> string" where
  "read_setting k f = (case f of
       None \<Rightarrow> []
     | Some s \<Rightarrow> (let l = fst (fgets 64 s) in if k \<le> length l then remove_crln l else l))"

definition hertUtil_getUserData :: "string option \<Rightarrow> string" where
  "hertUtil_getUserData = read_setting 1"

definition hertUtil_getPlatformDstAddr :: "string option \<Rightarrow> string" where
  "hertUtil_getPlatformDstAddr = read_setting 1"

definition hertUtil_getCnnPrtlData :: "string option \<Rightarrow> string" where
  "hertUtil_getCnnPrtlData = read_setting 1"

definition hertUtil_getPlatformSVR :: "string option \<Rightarrow> string" where
  "hertUtil_getPlatformSVR = read_setting 2"

definition hertUtil_getPlatformSVRPort :: "string option \<Rightarrow> 16 word" where
  "hertUtil_getPlatformSVRPort f = word_of_int (atoi (read_setting 2 f))"

definition hertUtil_getPingSeverAddr :: "string option \<Rightarrow> string" where
  "hertUtil_getPingSeverAddr f = (let s = read_setting 1 f in if s = [] then ''www.baidu.com'' else s)"

definition hertUtil_getPingSeverPort :: "string option \<Rightarrow> 16 word" where
  "hertUtil_getPingSeverPort f =
     (let s = read_setting 1 f in word_of_int (atoi (if s = [] then ''80'' else s)))"

definition hertUtil_getDeviceType :: "string option \<Rightarrow> string" where
  "hertUtil_getDeviceType = read_setting 1"

text \<open>The periods of the watchdog, in seconds.\<close>

definition hertUtil_getWanDectTime :: "string option \<Rightarrow> int" where
  "hertUtil_getWanDectTime f = (case f of None \<Rightarrow> 3
     | Some _ \<Rightarrow> if atoi (read_setting 1 f) = 0 then 3 else atoi (read_setting 1 f))"

definition hertUtil_getLanDectTime :: "string option \<Rightarrow> int" where
  "hertUtil_getLanDectTime f = (case f of None \<Rightarrow> 6
     | Some _ \<Rightarrow> if atoi (read_setting 1 f) = 0 then 6 else atoi (read_setting 1 f))"

datatype loglevel = VPCOM_LOG_ERROR | VPCOM_LOG_INFO | VPCOM_LOG_DEBUG

definition hertUtil_getLoglevel :: "string option \<Rightarrow> loglevel" where
  "hertUtil_getLoglevel f = (let s = read_setting 1 f in
     if s = ''NOTICE'' then VPCOM_LOG_INFO
     else if s = ''DEBUG'' then VPCOM_LOG_DEBUG
     else VPCOM_LOG_ERROR)"

definition hertUtil_getMonitorLoglevel :: "string option \<Rightarrow> loglevel" where
  "hertUtil_getMonitorLoglevel = hertUtil_getLoglevel"

text \<open>The LAN address ends at the line end; without a line it is the default.\<close>

definition hertUtil_getLanIP :: "string option \<Rightarrow> string" where
  "hertUtil_getLanIP f = (case f of
       None \<Rightarrow> ''192.168.8.1''
     | Some s \<Rightarrow> if s = [] then ''192.168.8.1'' else takeWhile (\<lambda>c. c \<noteq> CHR 0x0A) (fst (fgets 64 s)))"

text \<open>The mode of the WAN port is copied into 64 chars; the interface depends on it.\<close>

definition hertUtil_getWanConnectionMode :: "string \<Rightarrow> fault + string" where
  "hertUtil_getWanConnectionMode cm = store_word 64 cm"

definition hertUtil_getWanInterface :: "string \<Rightarrow> string" where
  "hertUtil_getWanInterface cm =
     (if cm = ''PPPOE'' \<or> cm = ''L2TP'' \<or> cm = ''PPTP'' then ''ppp0'' else ''eth2.2'')"

section \<open>Version and serial number\<close>

text \<open>The last line of the file; the year and month are its four characters before a dash.\<close>

definition hertUtil_getFirmwareVersion :: "string option \<Rightarrow> string" where
  "hertUtil_getFirmwareVersion f = (case f of
       None \<Rightarrow> []
     | Some s \<Rightarrow> (let ls = fgets_lines 64 s in if ls = [] then [] else remove_crln (last ls)))"

definition hertUtil_getYearmonth :: "string option \<Rightarrow> string" where
  "hertUtil_getYearmonth f =
     (let v = takeWhile (\<lambda>c. c \<noteq> CHR ''-'') (hertUtil_getFirmwareVersion f)
      in if length v = 4 then v else [])"

definition hertUtil_get2860SN :: "string option \<Rightarrow> string option \<Rightarrow> string" where
  "hertUtil_get2860SN sn ver = (case sn of
       None \<Rightarrow> []
     | Some _ \<Rightarrow> (let s = read_setting 1 sn; ym = hertUtil_getYearmonth ver
         in if ym \<noteq> [] \<and> 20 < length s \<and> strstr s ym = None
            then take 12 s @ take 4 ym @ drop 16 s else s))"

definition hertUtil_getSN :: "string option \<Rightarrow> string option \<Rightarrow> string option \<Rightarrow> string" where
  "hertUtil_getSN ubsn sn ver =
     (let s = read_setting 1 ubsn in if s = [] then hertUtil_get2860SN sn ver else s)"

section \<open>Searching files\<close>

definition has_text :: "string \<Rightarrow> string \<Rightarrow> bool" where
  "has_text p l = (strstr l p \<noteq> None)"

text \<open>At most 1001 lines are searched.\<close>

definition hertUtil_IsInFile :: "string option \<Rightarrow> string \<Rightarrow> bool" where
  "hertUtil_IsInFile f p = (case f of
       None \<Rightarrow> False
     | Some s \<Rightarrow> p \<noteq> [] \<and> list_ex (has_text p) (take 1001 (fgets_lines 256 s)))"

definition hertUtil_isStorageExist :: "string option \<Rightarrow> bool" where
  "hertUtil_isStorageExist f = (case f of None \<Rightarrow> False | Some s \<Rightarrow> list_ex (has_text ''Host'') (fgets_lines 256 s))"

text \<open>The first 1023 bytes of the output of ifconfig.\<close>

definition hertUtil_isWifiOn :: "string option \<Rightarrow> byte" where
  "hertUtil_isWifiOn f = (case f of None \<Rightarrow> 0 | Some s \<Rightarrow>
     if has_text ''HWaddr'' (takeWhile (\<lambda>c. c \<noteq> CHR 0x00) (take 1023 s)) then 1 else 0)"

definition hertUtil_IsInSaveWirelessClientMac :: "string option \<Rightarrow> string \<Rightarrow> bool" where
  "hertUtil_IsInSaveWirelessClientMac f m = (case f of None \<Rightarrow> False
     | Some s \<Rightarrow> list_ex (has_text m) (fgets_lines 256 s))"

text \<open>
  The process list: eleven lines are searched, and a list that cannot be read counts as a
  running process.
\<close>

definition proc_listed :: "nat \<Rightarrow> (string \<Rightarrow> bool) \<Rightarrow> string option \<Rightarrow> bool" where
  "proc_listed n good f = (case f of None \<Rightarrow> True | Some s \<Rightarrow> list_ex good (take 11 (fgets_lines n s)))"

definition hertUtil_getGoaheadIsRuning :: "string option \<Rightarrow> bool" where
  "hertUtil_getGoaheadIsRuning = proc_listed 128 (\<lambda>l. has_text ''goahead'' l \<and> \<not> has_text ''grep goahead'' l)"

definition hertUtil_getProftpdIsRuning :: "string option \<Rightarrow> bool" where
  "hertUtil_getProftpdIsRuning = proc_listed 256 (has_text ''S    proftpd'')"

definition hertUtil_getPppdRuning :: "string option \<Rightarrow> bool" where
  "hertUtil_getPppdRuning = proc_listed 256 (has_text ''S    pppd'')"

definition hertUtil_getDnsdIsRuning :: "string option \<Rightarrow> bool" where
  "hertUtil_getDnsdIsRuning f = (case f of None \<Rightarrow> True
     | Some s \<Rightarrow> list_ex (has_text ''dnsd -i'') (fgets_lines 128 s))"

definition hertUtil_getDnsmasqIsRuning :: "string option \<Rightarrow> bool" where
  "hertUtil_getDnsmasqIsRuning = proc_listed 256 (\<lambda>l. has_text ''dnsmasq'' l \<and> \<not> has_text ''grep dnsmasq'' l)"

definition hertUtil_getHerouteAppIsRuning :: "string option \<Rightarrow> bool" where
  "hertUtil_getHerouteAppIsRuning = proc_listed 256 (has_text ''S    herouteapp'')"

text \<open>
  The load of goahead in the output of top: the digit two places before the percent sign.  A line
  with a blank there is not counted; a percent sign at the start of a line would be read before
  the buffer.
\<close>

fun block_lines :: "nat \<Rightarrow> string list \<Rightarrow> fault + bool" where
  "block_lines k [] = Inr False"
| "block_lines k (l # ls) =
     (if 2 < k then Inr False
      else (case strstr l ''% goahead'' of
          None \<Rightarrow> block_lines (k + 1) ls
        | Some t \<Rightarrow> (let i = length l - length t in
            if i < 2 then Inl ReadOverrun
            else if l ! (i - 2) = CHR '' '' then block_lines k ls
            else if atoi [l ! (i - 2)] = 0 \<or> 4 \<le> atoi [l ! (i - 2)] then Inr True
            else block_lines (k + 1) ls)))"

definition hertUtil_getGoaheadIsBlock :: "string option \<Rightarrow> fault + bool" where
  "hertUtil_getGoaheadIsBlock f = (case f of None \<Rightarrow> Inr False | Some s \<Rightarrow> block_lines 0 (fgets_lines 128 s))"

section \<open>Name servers\<close>

text \<open>strtok(line, " ") and strtok(NULL, " "): the second word, None when there is none.\<close>

definition strtok_second :: "string \<Rightarrow> string option" where
  "strtok_second l = (let blank = (\<lambda>c. c = CHR '' '');
       t = dropWhile blank (dropWhile (\<lambda>c. \<not> blank c) (dropWhile blank l))
     in if t = [] then None else Some (takeWhile (\<lambda>c. \<not> blank c) t))"

text \<open>The lines of resolv.conf; the arrays of the caller have 64 chars.\<close>

fun dns_lines :: "string list \<Rightarrow> string \<Rightarrow> string \<Rightarrow> fault + string \<times> string" where
  "dns_lines [] p s = Inr (remove_crln p, remove_crln s)"
| "dns_lines (l # ls) p s =
     (if take 1 l = ''#'' \<or> take 10 l \<noteq> ''nameserver'' then dns_lines ls p s
      else (case strtok_second l of
          None \<Rightarrow> if p = [] \<or> s = [] then Inl NullDeref else dns_lines ls p s
        | Some w \<Rightarrow>
            if p = [] then rbind (store_word 64 w) (\<lambda>p. dns_lines ls p s)
            else if s = [] then rbind (store_word 64 w) (\<lambda>s. dns_lines ls p s)
            else dns_lines ls p s))"

definition hertUtil_getDnsServerViaConf :: "string option \<Rightarrow> fault + (string \<times> string) option" where
  "hertUtil_getDnsServerViaConf f = (case f of
       None \<Rightarrow> Inr None
     | Some s \<Rightarrow> rbind (dns_lines (fgets_lines 200 s) [] []) (\<lambda>r. Inr (Some r)))"

text \<open>With a static address the servers are settings of the configuration store.\<close>

definition hertUtil_getWanDnsServerIP ::
  "string \<Rightarrow> string \<Rightarrow> string \<Rightarrow> string option \<Rightarrow> fault + (string \<times> string) option" where
  "hertUtil_getWanDnsServerIP cm dns1 dns2 f =
     rbind (hertUtil_getWanConnectionMode cm) (\<lambda>mode.
       if mode = ''STATIC'' then rbind (store_word 64 dns1) (\<lambda>p. rbind (store_word 64 dns2) (\<lambda>s.
         Inr (Some (remove_crln p, remove_crln s))))
       else hertUtil_getDnsServerViaConf f)"

section \<open>Rates\<close>

definition atoll :: "string \<Rightarrow> int" where
  "atoll s = (let clamp = (\<lambda>i. max (- (2 ^ 63)) (min (2 ^ 63 - 1) i)) in
     case dropWhile is_space s of
       [] \<Rightarrow> 0
     | c # cs \<Rightarrow>
         if c = CHR ''-'' then clamp (- int (scan_digits 0 cs))
         else if c = CHR ''+'' then clamp (int (scan_digits 0 cs))
         else clamp (int (scan_digits 0 (c # cs))))"

text \<open>What stands behind a key in the first line that has it.\<close>

definition behind :: "string \<Rightarrow> string list \<Rightarrow> string option" where
  "behind key ls = (case List.find (has_text key) ls of
       None \<Rightarrow> None
     | Some l \<Rightarrow> map_option (drop (length key)) (strstr l key))"

text \<open>The load of the processor: 0 idle, 1 good, 2 worse.\<close>

definition hertUtil_getWorkStatus :: "string option \<Rightarrow> dword" where
  "hertUtil_getWorkStatus f = (case f of
       None \<Rightarrow> 0
     | Some s \<Rightarrow> (case behind ''CPU:'' (fgets_lines 256 s) of
           None \<Rightarrow> 0
         | Some t \<Rightarrow> (let cpuRate = word_of_int (atoi (dropWhile (\<lambda>c. c = CHR '' '') t)) :: dword in
             if cpuRate < 30 then 0 else if cpuRate < 60 then 1 else 2)))"

text \<open>Kilobytes per second since the last call, whose time and count are static variables.\<close>

record rate_state =
  preTimeSecond :: dword
  preKb :: int

definition hertUtil_getBroadband :: "string option \<Rightarrow> dword \<Rightarrow> rate_state \<Rightarrow> dword \<times> rate_state" where
  "hertUtil_getBroadband f now st = (case f of
       None \<Rightarrow> (0, st)
     | Some s \<Rightarrow> (case behind ''RX bytes:'' (fgets_lines 256 s) of
           None \<Rightarrow> (0, st)
         | Some t \<Rightarrow>
             (let dwKb = c_div (atoll (takeWhile (\<lambda>c. c \<noteq> CHR '' '') t)) 1024;
                  dt = sint (now - preTimeSecond st);
                  r = word_of_int (if dt = 0 then dwKb - preKb st else c_div (dwKb - preKb st) dt) :: dword;
                  r = (if 0xefffffff \<le> r then 0xefffffff AND r else r)
              in (0xffff AND r, \<lparr>preTimeSecond = now, preKb = dwKb\<rparr>))))"

section \<open>Date and texts\<close>

fun first_found :: "nat \<Rightarrow> string list \<Rightarrow> string \<Rightarrow> (nat \<times> string) option" where
  "first_found i [] s = None"
| "first_found i (m # ms) s = (case strstr s m of Some t \<Rightarrow> Some (i, t) | None \<Rightarrow> first_found (i + 1) ms s)"

definition months :: "string list" where
  "months = [''Jan'', ''Feb'', ''Mar'', ''Apr'', ''May'', ''Jun'', ''Jul'', ''Aug'', ''Sep'', ''Oct'', ''Nov'', ''Dec'']"

definition show2 :: "int \<Rightarrow> string" where
  "show2 i = (if 0 \<le> i \<and> i < 10 then CHR ''0'' # show_int i else show_int i)"

text \<open>
  The output of date, rearranged.  szDateTime has 64 chars, cleared before; the time starts six
  characters behind the month.
\<close>

definition hertUtil_GetDateTime :: "string option \<Rightarrow> fault + string option" where
  "hertUtil_GetDateTime f = (case f of
       None \<Rightarrow> Inr None
     | Some _ \<Rightarrow>
         (let s = read_setting 1 f;
              nYear = (case strstr s ''UTC '' of Some t \<Rightarrow> atoi (drop 4 t)
                       | None \<Rightarrow> (case strstr s ''GMT '' of Some t \<Rightarrow> atoi (drop 4 t) | None \<Rightarrow> 0))
          in case first_found 1 months s of
              None \<Rightarrow> Inr (Some ''unknown'')
            | Some (nMonth, t) \<Rightarrow>
                if 64 \<le> length s - length t + 6 then Inl ReadOverrun
                else (let p = drop 4 t;
                          nDay = (if atoi p = 0 then atoi (drop 1 p) else atoi p);
                          szTime = take 9 (drop 2 p)
                      in Inr (Some (show_int nYear @ ''-'' @ show2 (int nMonth) @ ''-'' @ show2 nDay
                           @ '' '' @ szTime)))))"

definition hertUtil_SetDateTime :: "int \<Rightarrow> int \<Rightarrow> int \<Rightarrow> int \<Rightarrow> int \<Rightarrow> string" where
  "hertUtil_SetDateTime nYear nMonth nDay nHour nMin =
     ''date '' @ show2 nMonth @ show2 nDay @ show2 nHour @ show2 nMin @ show_int nYear @ '' 2>/dev/null''"

definition hertUtil_IsAssicString :: "string \<Rightarrow> bool" where
  "hertUtil_IsAssicString s = list_all (\<lambda>c. 32 \<le> (of_char c :: nat) \<and> (of_char c :: nat) \<le> 126) s"

definition upper :: "char \<Rightarrow> char" where
  "upper c = (let n = of_char c :: nat in if 97 \<le> n \<and> n \<le> 122 then char_of (n - 32) else c)"

definition lower :: "char \<Rightarrow> char" where
  "lower c = (let n = of_char c :: nat in if 65 \<le> n \<and> n \<le> 90 then char_of (n + 32) else c)"

definition hertUtil_toUpper :: "string \<Rightarrow> string" where "hertUtil_toUpper = map upper"
definition hertUtil_tolower :: "string \<Rightarrow> string" where "hertUtil_tolower = map lower"

definition strcasecmp_eq :: "string \<Rightarrow> string \<Rightarrow> bool" where
  "strcasecmp_eq s t = (map lower s = map lower t)"

section \<open>What the name server reader does\<close>

lemma fgets_lines_Nil [simp]: "fgets_lines n [] = []"
  by (simp add: fgets_lines.simps)

lemma fgets_lines_Cons:
  assumes "CHR 0x0A \<notin> set l" and "length l < n - 1"
  shows "fgets_lines n (l @ CHR 0x0A # s) = (l @ [CHR 0x0A]) # fgets_lines n s"
proof -
  have "\<not> n \<le> 1" using assms(2) by linarith
  then show ?thesis by (subst fgets_lines.simps) (simp add: fgets_line [OF assms])
qed

lemma remove_crln_line:
  assumes "\<forall>c \<in> set a. \<not> is_space c"
  shows "remove_crln (a @ [CHR 0x0A]) = a" "remove_crln a = a"
proof -
  have "a = [] \<or> \<not> is_space (last a)" using assms last_in_set [of a] by blast
  moreover have "is_space (CHR 0x0A)" "is_space (CHR 0x0D)" by (simp_all add: is_space_def)
  ultimately have "a = [] \<or> (last a \<noteq> CHR 0x0A \<and> last a \<noteq> CHR 0x0D)" by metis
  then show "remove_crln (a @ [CHR 0x0A]) = a" "remove_crln a = a"
    by (auto simp: remove_crln_def remove_crln_last_def)
qed

text \<open>Addresses a line of resolv.conf can hold, and such a file.\<close>

definition host_ok :: "string \<Rightarrow> bool" where
  "host_ok a = (a \<noteq> [] \<and> length a < 63 \<and> (\<forall>c \<in> set a. \<not> is_space c))"

definition conf_line :: "string \<Rightarrow> string" where
  "conf_line a = ''nameserver '' @ a"

definition conf_text :: "string list \<Rightarrow> string" where
  "conf_text as = concat (map (\<lambda>a. conf_line a @ [CHR 0x0A]) as)"

lemma conf_lines:
  assumes "\<forall>a \<in> set as. host_ok a"
  shows "fgets_lines 200 (conf_text as) = map (\<lambda>a. conf_line a @ [CHR 0x0A]) as"
  using assms
proof (induction as)
  case Nil
  then show ?case by (simp add: conf_text_def)
next
  case (Cons a as)
  then have "CHR 0x0A \<notin> set (conf_line a)" "length (conf_line a) < 200 - 1"
    using word_no_newline [of a] by (auto simp: conf_line_def host_ok_def)
  then have "fgets_lines 200 (conf_line a @ CHR 0x0A # conf_text as) =
      (conf_line a @ [CHR 0x0A]) # fgets_lines 200 (conf_text as)" by (rule fgets_lines_Cons)
  then show ?case using Cons by (simp add: conf_text_def)
qed

lemma strtok_conf_line:
  assumes "host_ok a"
  shows "strtok_second (conf_line a @ [CHR 0x0A]) = Some (a @ [CHR 0x0A])"
proof -
  have b: "\<forall>c \<in> set a. c \<noteq> CHR '' ''" using assms by (auto simp: host_ok_def is_space_def)
  then have "dropWhile (\<lambda>c. c = CHR '' '') (a @ [CHR 0x0A]) = a @ [CHR 0x0A]"
    using assms by (cases a) (auto simp: host_ok_def)
  moreover have "takeWhile (\<lambda>c. c \<noteq> CHR '' '') (a @ [CHR 0x0A]) = a @ [CHR 0x0A]"
    using b by simp
  ultimately show ?thesis by (simp add: strtok_second_def conf_line_def Let_def)
qed

lemma dns_line:
  assumes "host_ok a"
  shows "dns_lines ((conf_line a @ [CHR 0x0A]) # ls) p s =
    (if p = [] then dns_lines ls (a @ [CHR 0x0A]) s
     else if s = [] then dns_lines ls p (a @ [CHR 0x0A]) else dns_lines ls p s)"
proof -
  have "take 1 (conf_line a @ [CHR 0x0A]) \<noteq> ''#''" "take 10 (conf_line a @ [CHR 0x0A]) = ''nameserver''"
    by (simp_all add: conf_line_def)
  moreover have "store_word 64 (a @ [CHR 0x0A]) = Inr (a @ [CHR 0x0A])"
    using assms by (simp add: host_ok_def store_word_def)
  ultimately show ?thesis by (simp only: dns_lines.simps strtok_conf_line [OF assms]) simp
qed

lemma dns_lines_full:
  "\<forall>a \<in> set as. host_ok a \<Longrightarrow> p \<noteq> [] \<Longrightarrow> s \<noteq> [] \<Longrightarrow>
    dns_lines (map (\<lambda>a. conf_line a @ [CHR 0x0A]) as) p s = Inr (remove_crln p, remove_crln s)"
proof (induction as)
  case Nil
  then show ?case by simp
next
  case (Cons a as)
  then have "host_ok a" by simp
  from dns_line [OF this] Cons show ?case by (simp del: dns_lines.simps)
qed

text \<open>
  From a resolv.conf of name server lines the reader takes the first address as the primary
  and the second as the secondary server, without line ends; further lines change nothing, and
  a missing server is the empty text.
\<close>

theorem dns_servers_from_conf:
  assumes "\<forall>a \<in> set as. host_ok a"
  shows "hertUtil_getDnsServerViaConf (Some (conf_text as)) =
    Inr (Some (case as of [] \<Rightarrow> ([], []) | [a] \<Rightarrow> (a, []) | a # b # _ \<Rightarrow> (a, b)))"
proof -
  have nil: "remove_crln [] = []" by (simp add: remove_crln_def remove_crln_last_def)
  have r: "remove_crln (a @ [CHR 0x0A]) = a" if "a \<in> set as" for a
    using assms that by (intro remove_crln_line) (auto simp: host_ok_def)
  have "dns_lines (map (\<lambda>a. conf_line a @ [CHR 0x0A]) as) [] [] =
    Inr (case as of [] \<Rightarrow> ([], []) | [a] \<Rightarrow> (a, []) | a # b # _ \<Rightarrow> (a, b))"
  proof (cases as)
    case (Cons a bs)
    then have a: "host_ok a" using assms by simp
    show ?thesis
    proof (cases bs)
      case (Cons b cs)
      then have b: "host_ok b" "\<forall>c \<in> set cs. host_ok c" using assms \<open>as = a # bs\<close> by simp_all
      show ?thesis
        using dns_lines_full [OF b(2)] r Cons \<open>as = a # bs\<close>
        by (simp add: dns_line [OF a] dns_line [OF b(1)] del: dns_lines.simps)
    qed (use \<open>as = a # bs\<close> r nil dns_line [OF a] in \<open>simp\<close>)
  qed (simp add: nil)
  then show ?thesis by (simp add: hertUtil_getDnsServerViaConf_def conf_lines [OF assms])
qed

theorem dns_servers_from_conf_witness:
  "hertUtil_getDnsServerViaConf (Some (conf_text [''8.8.8.8'', ''9.9.9.9'', ''1.1.1.1''])) =
    Inr (Some (''8.8.8.8'', ''9.9.9.9''))"
  using dns_servers_from_conf [of "[''8.8.8.8'', ''9.9.9.9'', ''1.1.1.1'']"]
  by (simp add: host_ok_def is_space_def)

text \<open>
  A name server line without an address makes the reader copy from a NULL pointer, as long as
  a server is missing.
\<close>

lemma dns_line_without_address:
  "hertUtil_getDnsServerViaConf (Some (''nameserver'' @ CHR 0x0A # s)) = Inl NullDeref"
proof -
  have "fgets_lines 200 (''nameserver'' @ CHR 0x0A # s) = (''nameserver'' @ [CHR 0x0A]) # fgets_lines 200 s"
    by (intro fgets_lines_Cons) simp_all
  then show ?thesis
    by (simp add: hertUtil_getDnsServerViaConf_def strtok_second_def Let_def)
qed

section \<open>Bounds of the rates\<close>

text \<open>
  The two figures of the status message stay in their ranges, whatever the commands print:
  the load is 0, 1 or 2, and the bandwidth fits sixteen bits.
\<close>

theorem rates_bounded:
  "hertUtil_getWorkStatus f \<le> 2 \<and> fst (hertUtil_getBroadband g now st) \<le> 0xffff"
proof -
  have "hertUtil_getWorkStatus f \<le> 2"
    by (simp add: hertUtil_getWorkStatus_def Let_def split: option.split)
  moreover have "0xffff AND r \<le> 0xffff" for r :: dword
    using word_and_le2 [of "0xffff" r] by (simp only: and.commute)
  ultimately show ?thesis
    by (simp add: hertUtil_getBroadband_def Let_def split: option.split)
qed

end
