(* ===== verification/DeviceDisk.thy ===== *)
theory DeviceDisk
  imports DeviceText
begin

text \<open>
  The partitions of the USB disk (herouteapp/hert_com.c): which are mounted, how much is free on
  them, and on which one the download thread puts its files.  What statfs says of a path, whether
  a file can be written there and whether it can be listed are parameters.  A path goes into
  shell commands; it is a mount point under /media.
\<close>

section \<open>Mounted partitions\<close>

definition USB_STORAGE_SIGN :: string where "USB_STORAGE_SIGN = ''/media/sd''"

text \<open>The mount points in /proc/mounts, each up to the blank behind it.\<close>

definition mounted :: "string \<Rightarrow> string list" where
  "mounted s = map (\<lambda>l. case strstr l USB_STORAGE_SIGN of Some t \<Rightarrow> takeWhile (\<lambda>c. c \<noteq> CHR '' '') t | None \<Rightarrow> [])
     (filter (has_text USB_STORAGE_SIGN) (fgets_lines 256 s))"

definition hertUtil_GetUSBPartitionPath :: "string option \<Rightarrow> nat \<Rightarrow> string \<times> nat" where
  "hertUtil_GetUSBPartitionPath f nIndex = (case f of
       None \<Rightarrow> (''/media/sda1'', 0)
     | Some s \<Rightarrow> (if nIndex < length (mounted s) then mounted s ! nIndex else [], length (mounted s)))"

record disk_env =
  mounts :: "string option"
  statfs :: "string \<Rightarrow> (nat \<times> nat \<times> nat) option"
  can_write :: "string \<Rightarrow> bool"
  can_list :: "string \<Rightarrow> bool"

text \<open>f_bsize times f_bfree or f_blocks, in megabytes.\<close>

definition megabytes :: "nat \<Rightarrow> nat \<Rightarrow> nat" where
  "megabytes bsize blocks = bsize * blocks div 1024 div 1024"

text \<open>
  Free and total size of a partition, and its path; without an answer of statfs the path stays
  the one of the caller.
\<close>

definition hretUtil_GetUSBPartitionSize :: "disk_env \<Rightarrow> nat \<Rightarrow> string \<Rightarrow> nat \<times> nat \<times> string" where
  "hretUtil_GetUSBPartitionSize e nIndex path =
     (let (p, nPartitionNum) = hertUtil_GetUSBPartitionPath (mounts e) nIndex in
      if 0 < nPartitionNum \<and> nIndex < nPartitionNum \<and> p \<noteq> [] then
        (case statfs e p of
           None \<Rightarrow> (0, 0, path)
         | Some (bsize, bfree, blocks) \<Rightarrow> (megabytes bsize bfree, megabytes bsize blocks, p))
      else (0, 0, path))"

text \<open>The two tests build their commands and file names in arrays of 128 chars.\<close>

definition hertUtil_IsEnableWritePath :: "disk_env \<Rightarrow> string \<Rightarrow> fault + bool" where
  "hertUtil_IsEnableWritePath e p =
     (if length (''echo test > '' @ p @ ''/trywrite.txt'') < 128 then Inr (can_write e p) else Inl WriteOverflow)"

definition hertUtil_IsExsitPath :: "disk_env \<Rightarrow> string \<Rightarrow> fault + bool" where
  "hertUtil_IsExsitPath e p =
     (if length (''ls '' @ p @ '' > /var/tryls.txt'') < 128 then Inr (can_list e p) else Inl WriteOverflow)"

definition write_or_list :: "disk_env \<Rightarrow> string \<Rightarrow> fault + bool" where
  "write_or_list e p = rbind (hertUtil_IsEnableWritePath e p) (\<lambda>w. if w then Inr True else hertUtil_IsExsitPath e p)"

section \<open>Sizes\<close>

text \<open>The loop of hretUtil_GetUSBSize over the indexes left.\<close>

fun usb_size :: "disk_env \<Rightarrow> nat list \<Rightarrow> string \<Rightarrow> nat \<Rightarrow> nat \<Rightarrow> fault + nat \<times> nat" where
  "usb_size e [] path freeSize totalSize = Inr (freeSize, totalSize)"
| "usb_size e (n # ns) path freeSize totalSize =
     (let (f, t, path) = hretUtil_GetUSBPartitionSize e n path in
      rbind (write_or_list e path) (\<lambda>b.
        if b then usb_size e ns path (freeSize + f) (totalSize + t)
        else usb_size e ns path freeSize totalSize))"

definition hretUtil_GetUSBSize :: "disk_env \<Rightarrow> fault + nat \<times> nat" where
  "hretUtil_GetUSBSize e = (let (path, nPartitionNum) = hertUtil_GetUSBPartitionPath (mounts e) 0
     in usb_size e [0..<nPartitionNum] path 0 0)"

text \<open>
  The partition with the most free space.  A path that fills the caller's array leaves it without
  an end, and reading it then runs on.
\<close>

fun max_free :: "disk_env \<Rightarrow> nat \<Rightarrow> nat list \<Rightarrow> string \<Rightarrow> nat \<Rightarrow> string \<Rightarrow> fault + nat \<times> string" where
  "max_free e sz [] path freeSize out = Inr (freeSize, out)"
| "max_free e sz (n # ns) path freeSize out =
     (let (f, t, path) = hretUtil_GetUSBPartitionSize e n path in
      if freeSize < f \<or> out = [] then
        rbind (hertUtil_IsEnableWritePath e path) (\<lambda>w.
          if w then (if sz \<le> length path then Inl ReadOverrun else max_free e sz ns path f path)
          else max_free e sz ns path f out)
      else max_free e sz ns path freeSize out)"

definition hertUtil_GetUSBPartitionMaxFreeSize :: "disk_env \<Rightarrow> nat \<Rightarrow> fault + nat \<times> string" where
  "hertUtil_GetUSBPartitionMaxFreeSize e nPathNameSize =
     (let (path, nPartitionNum) = hertUtil_GetUSBPartitionPath (mounts e) 0
      in max_free e nPathNameSize [0..<nPartitionNum] path 0 [])"

text \<open>The first partition that can be written or listed.\<close>

fun first_usable :: "disk_env \<Rightarrow> nat \<Rightarrow> nat list \<Rightarrow> string \<Rightarrow> string \<Rightarrow> fault + string" where
  "first_usable e sz [] path out = Inr out"
| "first_usable e sz (n # ns) path out =
     (let (f, t, path) = hretUtil_GetUSBPartitionSize e n path in
      if out = [] then rbind (write_or_list e path) (\<lambda>b.
        if b then (if sz \<le> length path then Inl ReadOverrun else first_usable e sz ns path path)
        else first_usable e sz ns path out)
      else first_usable e sz ns path out)"

definition hretUtil_GetUSBPartitionName :: "disk_env \<Rightarrow> nat \<Rightarrow> fault + string" where
  "hretUtil_GetUSBPartitionName e nPathNameSize =
     (let (path, nPartitionNum) = hertUtil_GetUSBPartitionPath (mounts e) 0
      in first_usable e nPathNameSize [0..<nPartitionNum] path [])"

section \<open>The choice of a partition\<close>

text \<open>A disk all of whose partitions answer and have short mount points.\<close>

definition part :: "disk_env \<Rightarrow> nat \<Rightarrow> string" where
  "part e n = fst (hertUtil_GetUSBPartitionPath (mounts e) n)"

definition free_of :: "disk_env \<Rightarrow> string \<Rightarrow> nat" where
  "free_of e p = (case statfs e p of Some (bsize, bfree, _) \<Rightarrow> megabytes bsize bfree | None \<Rightarrow> 0)"

definition total_of :: "disk_env \<Rightarrow> string \<Rightarrow> nat" where
  "total_of e p = (case statfs e p of Some (bsize, _, blocks) \<Rightarrow> megabytes bsize blocks | None \<Rightarrow> 0)"

definition part_ok :: "disk_env \<Rightarrow> string \<Rightarrow> bool" where
  "part_ok e p = (p \<noteq> [] \<and> length p < 64 \<and> statfs e p \<noteq> None)"

lemma partition_size:
  assumes "mounts e = Some s" and "n < length (mounted s)" and "part_ok e (mounted s ! n)"
  shows "hretUtil_GetUSBPartitionSize e n path =
    (free_of e (mounted s ! n), total_of e (mounted s ! n), mounted s ! n)"
  using assms
  by (auto simp: hretUtil_GetUSBPartitionSize_def hertUtil_GetUSBPartitionPath_def part_ok_def
      free_of_def total_of_def split: option.splits)

lemma write_path: "part_ok e p \<Longrightarrow> hertUtil_IsEnableWritePath e p = Inr (can_write e p)"
  by (simp add: part_ok_def hertUtil_IsEnableWritePath_def)

lemma list_path: "part_ok e p \<Longrightarrow> write_or_list e p = Inr (can_write e p \<or> can_list e p)"
  by (simp add: write_or_list_def write_path) (simp add: part_ok_def hertUtil_IsExsitPath_def)

text \<open>Sums over the partitions that can be used.\<close>

lemma usb_size_sum:
  assumes "mounts e = Some s" and "\<forall>n \<in> set ns. n < length (mounted s) \<and> part_ok e (mounted s ! n)"
  shows "usb_size e ns path a b = Inr
    (a + sum_list (map (free_of e) (filter (\<lambda>p. can_write e p \<or> can_list e p) (map ((!) (mounted s)) ns))),
     b + sum_list (map (total_of e) (filter (\<lambda>p. can_write e p \<or> can_list e p) (map ((!) (mounted s)) ns))))"
  using assms(2)
proof (induction ns arbitrary: path a b)
  case Nil
  then show ?case by simp
next
  case (Cons n ns)
  then have "hretUtil_GetUSBPartitionSize e n path =
      (free_of e (mounted s ! n), total_of e (mounted s ! n), mounted s ! n)"
    by (intro partition_size [OF assms(1)]) simp_all
  moreover have "write_or_list e (mounted s ! n) = Inr (can_write e (mounted s ! n) \<or> can_list e (mounted s ! n))"
    using Cons.prems by (intro list_path) simp
  ultimately show ?case using Cons.prems by (simp add: Cons.IH)
qed

text \<open>
  The disk space the router reports is the sum, over the mounted partitions that can be
  written or listed, of their free and of their total megabytes.
\<close>

theorem usb_space_is_sum:
  assumes "mounts e = Some s" and "\<forall>p \<in> set (mounted s). part_ok e p"
  shows "hretUtil_GetUSBSize e = Inr
    (\<Sum>p \<leftarrow> filter (\<lambda>p. can_write e p \<or> can_list e p) (mounted s). free_of e p,
     \<Sum>p \<leftarrow> filter (\<lambda>p. can_write e p \<or> can_list e p) (mounted s). total_of e p)"
proof -
  have "map ((!) (mounted s)) [0..<length (mounted s)] = mounted s" by (simp add: map_nth)
  moreover have "\<forall>n \<in> set [0..<length (mounted s)]. n < length (mounted s) \<and> part_ok e (mounted s ! n)"
    using assms(2) by simp
  ultimately show ?thesis
    using usb_size_sum [OF assms(1), of "[0..<length (mounted s)]"]
    by (simp add: hretUtil_GetUSBSize_def hertUtil_GetUSBPartitionPath_def assms(1))
qed

text \<open>The partition chosen is one that can be written, and with all of them writable a largest.\<close>

lemma max_free_choice:
  assumes "mounts e = Some s"
    and "\<forall>n \<in> set ns. n < length (mounted s) \<and> part_ok e (mounted s ! n) \<and> can_write e (mounted s ! n)"
    and "out \<noteq> [] \<Longrightarrow> free_of e out = a" and "ns \<noteq> [] \<or> out \<noteq> []" and "out = [] \<Longrightarrow> a = 0"
  shows "\<exists>b p. max_free e 64 ns path a out = Inr (b, p) \<and> (p = out \<and> out \<noteq> [] \<or> (\<exists>n \<in> set ns. p = mounted s ! n)) \<and>
    free_of e p = b \<and> a \<le> b \<and> (\<forall>n \<in> set ns. free_of e (mounted s ! n) \<le> b)"
  using assms(2-5)
proof (induction ns arbitrary: path a out)
  case Nil
  then show ?case by simp
next
  case (Cons n ns)
  let ?p = "mounted s ! n"
  have ok: "n < length (mounted s)" "part_ok e ?p" "can_write e ?p" using Cons.prems(1) by simp_all
  have size: "hretUtil_GetUSBPartitionSize e n path = (free_of e ?p, total_of e ?p, ?p)"
    by (rule partition_size [OF assms(1) ok(1,2)])
  have p: "?p \<noteq> []" "\<not> 64 \<le> length ?p" using ok(2) by (simp_all add: part_ok_def)
  show ?case
  proof (cases "a < free_of e ?p \<or> out = []")
    case True
    have m: "max_free e 64 (n # ns) path a out = max_free e 64 ns ?p (free_of e ?p) ?p"
      using True p(2) size write_path [OF ok(2)] ok(3) by simp
    obtain b q where "max_free e 64 ns ?p (free_of e ?p) ?p = Inr (b, q)"
      "q = ?p \<or> (\<exists>n \<in> set ns. q = mounted s ! n)" "free_of e q = b" "free_of e ?p \<le> b"
      "\<forall>n \<in> set ns. free_of e (mounted s ! n) \<le> b"
      using Cons.IH [where out = ?p and a = "free_of e ?p" and path = ?p] Cons.prems(1) p(1) by auto
    moreover have "a \<le> free_of e ?p" using True Cons.prems(4) by auto
    ultimately show ?thesis using m by auto
  next
    case False
    have m: "max_free e 64 (n # ns) path a out = max_free e 64 ns ?p a out"
      using False size by simp
    obtain b q where "max_free e 64 ns ?p a out = Inr (b, q)"
      "q = out \<or> (\<exists>n \<in> set ns. q = mounted s ! n)" "free_of e q = b" "a \<le> b"
      "\<forall>n \<in> set ns. free_of e (mounted s ! n) \<le> b"
      using Cons.IH [where out = out and a = a and path = ?p] Cons.prems False by auto
    then show ?thesis using m False by auto
  qed
qed

text \<open>
  When every mounted partition can be written, downloads go to one with the most free space,
  and the free space reported is the one of that partition.
\<close>

theorem download_partition_is_largest:
  assumes "mounts e = Some s" and "mounted s \<noteq> []"
    and "\<forall>p \<in> set (mounted s). part_ok e p \<and> can_write e p"
  shows "\<exists>p. hertUtil_GetUSBPartitionMaxFreeSize e 64 = Inr (free_of e p, p) \<and> p \<in> set (mounted s) \<and>
    (\<forall>q \<in> set (mounted s). free_of e q \<le> free_of e p)"
proof -
  let ?ns = "[0..<length (mounted s)]"
  have ok: "\<forall>n \<in> set ?ns. n < length (mounted s) \<and> part_ok e (mounted s ! n) \<and> can_write e (mounted s ! n)"
    using assms(3) by simp
  obtain b p where b: "max_free e 64 ?ns (mounted s ! 0) 0 [] = Inr (b, p)"
    "\<exists>n \<in> set ?ns. p = mounted s ! n" "free_of e p = b" "\<forall>n \<in> set ?ns. free_of e (mounted s ! n) \<le> b"
    using max_free_choice [OF assms(1) ok, of "[]" 0 "mounted s ! 0"] assms(2) by auto
  have "free_of e q \<le> b" if "q \<in> set (mounted s)" for q
    using b(4) that by (auto simp: in_set_conv_nth)
  then show ?thesis
    using b(1-3) assms(1,2)
    by (intro exI [of _ p])
       (auto simp: hertUtil_GetUSBPartitionMaxFreeSize_def hertUtil_GetUSBPartitionPath_def)
qed

text \<open>A disk with three partitions, of which the second can be made read only.\<close>

definition three_mounts :: string where
  "three_mounts = ''/dev/sda1 /media/sda1 vfat'' @ CHR 0x0A # ''/dev/sda2 /media/sda2 vfat'' @ CHR 0x0A #
     ''/dev/sda3 /media/sda3 vfat'' @ CHR 0x0A # []"

definition three_parts :: "(string \<Rightarrow> bool) \<Rightarrow> disk_env" where
  "three_parts w = \<lparr>mounts = Some three_mounts,
     statfs = (\<lambda>p. Some (1024, 1024 * (if p = ''/media/sda1'' then 5 else if p = ''/media/sda2'' then 9 else 7), 20480)),
     can_write = w, can_list = (\<lambda>_. False)\<rparr>"

lemma three_mounted: "mounted three_mounts = [''/media/sda1'', ''/media/sda2'', ''/media/sda3'']"
proof -
  let ?l = "\<lambda>c. ''/dev/sda'' @ [c] @ '' /media/sda'' @ [c] @ '' vfat''"
  have "fgets_lines 256 (?l c @ CHR 0x0A # r) = (?l c @ [CHR 0x0A]) # fgets_lines 256 r"
    if "c \<noteq> CHR 0x0A" for c r
    using that by (intro fgets_lines_Cons) simp_all
  from this [of "CHR ''1''"] this [of "CHR ''2''"] this [of "CHR ''3''"]
  have "fgets_lines 256 three_mounts = map (\<lambda>c. ?l c @ [CHR 0x0A]) ''123''"
    by (simp add: three_mounts_def)
  then show ?thesis by (simp add: mounted_def has_text_def USB_STORAGE_SIGN_def)
qed

lemma three_parts_simps [simp]:
  "mounts (three_parts w) = Some three_mounts" "can_write (three_parts w) = w"
  "can_list (three_parts w) = (\<lambda>_. False)"
  "free_of (three_parts w) p = (if p = ''/media/sda1'' then 5 else if p = ''/media/sda2'' then 9 else 7)"
  "total_of (three_parts w) p = 20"
  by (simp_all add: three_parts_def free_of_def total_of_def megabytes_def)

lemma three_parts_ok: "\<forall>p \<in> set (mounted three_mounts). part_ok (three_parts w) p"
  by (simp add: three_mounted part_ok_def) (simp add: three_parts_def)

theorem usb_space_is_sum_witness:
  "hretUtil_GetUSBSize (three_parts (\<lambda>p. p \<noteq> ''/media/sda2'')) = Inr (12, 40)"
  using usb_space_is_sum [of "three_parts (\<lambda>p. p \<noteq> ''/media/sda2'')" three_mounts] three_parts_ok
  by (simp add: three_mounted)

theorem download_partition_is_largest_witness:
  "hertUtil_GetUSBPartitionMaxFreeSize (three_parts (\<lambda>_. True)) 64 = Inr (9, ''/media/sda2'')"
proof -
  obtain p where "hertUtil_GetUSBPartitionMaxFreeSize (three_parts (\<lambda>_. True)) 64 = Inr (free_of (three_parts (\<lambda>_. True)) p, p)"
    "p \<in> set (mounted three_mounts)"
    "\<forall>q \<in> set (mounted three_mounts). free_of (three_parts (\<lambda>_. True)) q \<le> free_of (three_parts (\<lambda>_. True)) p"
    using download_partition_is_largest [of "three_parts (\<lambda>_. True)" three_mounts] three_parts_ok
    by (auto simp: three_mounted)
  then show ?thesis by (auto simp: three_mounted)
qed

text \<open>
  A partition that cannot be written still raises the bound: with 5, 9 and 7 megabytes free and
  the second one read only, the first is chosen, not the third, and it is given the 9 megabytes of
  the second.
\<close>

lemma read_only_partition_misleads:
  "hertUtil_GetUSBPartitionMaxFreeSize (three_parts (\<lambda>p. p \<noteq> ''/media/sda2'')) 64 = Inr (9, ''/media/sda1'')"
proof -
  let ?e = "three_parts (\<lambda>p. p \<noteq> ''/media/sda2'')"
  have s: "hretUtil_GetUSBPartitionSize ?e n path = (free_of ?e (mounted three_mounts ! n), 20, mounted three_mounts ! n)"
    if "n < 3" for n path
  proof -
    have n: "n < length (mounted three_mounts)" using that by (simp add: three_mounted)
    then have "part_ok ?e (mounted three_mounts ! n)" using three_parts_ok nth_mem by blast
    from partition_size [OF three_parts_simps(1) n this] show ?thesis by (simp only: three_parts_simps(5))
  qed
  have w: "hertUtil_IsEnableWritePath ?e p = Inr (p \<noteq> ''/media/sda2'')" if "p \<in> set (mounted three_mounts)" for p
    using write_path [of ?e p] three_parts_ok that by simp
  have "[0..<3] = [0, 1, 2]" by (simp add: upt_rec)
  then show ?thesis
    by (simp add: hertUtil_GetUSBPartitionMaxFreeSize_def hertUtil_GetUSBPartitionPath_def three_mounted
        s w upt_rec)
qed

end
