(* ===== verification/DeviceList.thy ===== *)
theory DeviceList
  imports DeviceText MsgList
begin

text \<open>
  The devices of the home network (herouteapp/hert_com.c): the table of the wireless driver, the
  leases of the DHCP server and the product data of DHCP option 60 are read into static tables,
  and hertUtil_GetDeviceList makes of them the list the status messages carry.
\<close>

section \<open>Tables\<close>

record DEVINFO =
  di_curtime :: dword
  di_szProduct :: string
  di_szProdType :: string
  di_szProdManu :: string
  di_szProdSerial :: string
  di_szMac :: string

text \<open>A lease as the DHCP server writes it: fields of bytes, the name not always ended by NUL.\<close>

record DHCPITEM =
  dh_hostname :: "byte list"
  dh_mac :: "byte list"
  dh_ip :: dword
  dh_expires :: dword
  dh_nReachable :: dword

record dev_tables =
  g_rtTable :: "byte list list"
  g_DevInfArray :: "DEVINFO list"
  g_WebdhcpItemArray :: "DHCPITEM list"

definition MAX_DEV_NUM :: nat where "MAX_DEV_NUM = 12"
definition MAX_ITEMS_NUMBER :: nat where "MAX_ITEMS_NUMBER = 16"

definition no_devinfo :: DEVINFO where
  "no_devinfo = \<lparr>di_curtime = 0, di_szProduct = [], di_szProdType = [], di_szProdManu = [],
     di_szProdSerial = [], di_szMac = []\<rparr>"

text \<open>"%02X:%02X:%02X:%02X:%02X:%02X" of the first six bytes.\<close>

definition mac_text :: "byte list \<Rightarrow> string" where
  "mac_text a = tl (concat (map (\<lambda>b. CHR '':'' # hex2 b) (take 6 a)))"

section \<open>Reading the tables\<close>

text \<open>The wireless driver's table; None when the ioctl fails.\<close>

definition hertUtil_UpdateWirelessClientInfo :: "byte list list option \<Rightarrow> dev_tables \<Rightarrow> int \<times> dev_tables" where
  "hertUtil_UpdateWirelessClientInfo tab st = (case tab of
       None \<Rightarrow> (- 1, st\<lparr>g_rtTable := []\<rparr>)
     | Some es \<Rightarrow> (int (length es), st\<lparr>g_rtTable := es\<rparr>))"

definition hertUtil_UpdateWirelessClientItem :: "nat \<Rightarrow> dev_tables \<Rightarrow> DEVINFO option" where
  "hertUtil_UpdateWirelessClientItem nIndex st =
     (if length (g_rtTable st) \<le> nIndex then None
      else Some (no_devinfo\<lparr>di_szMac := mac_text (g_rtTable st ! nIndex)\<rparr>))"

definition hertUtil_IsWirelessClientMac :: "string \<Rightarrow> dev_tables \<Rightarrow> bool" where
  "hertUtil_IsWirelessClientMac m st = list_ex (\<lambda>a. strcasecmp_eq (mac_text a) m) (g_rtTable st)"

text \<open>
  The records of option 60.  Each is read into the next place of the array before the number of
  places is tested, so a thirteenth record goes behind its end.
\<close>

definition hertUtil_UpdateDevInfo :: "DEVINFO list option \<Rightarrow> dev_tables \<Rightarrow> fault + int \<times> dev_tables" where
  "hertUtil_UpdateDevInfo f st = (case f of
       None \<Rightarrow> Inr (- 2, st)
     | Some rs \<Rightarrow>
         if MAX_DEV_NUM < length rs then Inl WriteOverflow
         else Inr (int (length rs), st\<lparr>g_DevInfArray := map (\<lambda>d. d\<lparr>di_szMac := hertUtil_toUpper (di_szMac d)\<rparr>) rs\<rparr>))"

definition hertUtil_GetDevInfo :: "string \<Rightarrow> dev_tables \<Rightarrow> DEVINFO option" where
  "hertUtil_GetDevInfo m st = List.find (\<lambda>d. strcasecmp_eq (di_szMac d) m) (g_DevInfArray st)"

definition hertUtil_GetDhcpOption60ClientItem :: "nat \<Rightarrow> dev_tables \<Rightarrow> DEVINFO option" where
  "hertUtil_GetDhcpOption60ClientItem nIndex st =
     (if length (g_DevInfArray st) \<le> nIndex then None else Some (g_DevInfArray st ! nIndex))"

text \<open>
  The leases with an address, at most sixteen.  Without the file the result is 0 and the table
  stays as it was.
\<close>

definition hertUtil_UpdateIpReachInfo :: "DHCPITEM list option \<Rightarrow> dev_tables \<Rightarrow> int \<times> dev_tables" where
  "hertUtil_UpdateIpReachInfo f st = (case f of
       None \<Rightarrow> (0, st)
     | Some ls \<Rightarrow>
         (let items = map (\<lambda>l. l\<lparr>dh_nReachable := 1\<rparr>)
                (take MAX_ITEMS_NUMBER (filter (\<lambda>l. take 6 (dh_mac l) \<noteq> replicate 6 0) ls))
          in (int (length items), st\<lparr>g_WebdhcpItemArray := items\<rparr>)))"

text \<open>strcpy of a host name runs on into the address and the numbers behind it.\<close>

definition le_bytes :: "dword \<Rightarrow> byte list" where
  "le_bytes w = map (\<lambda>i. ucast (drop_bit (8 * i) w)) [0, 1, 2, 3]"

definition host_name :: "DHCPITEM \<Rightarrow> string" where
  "host_name l = map char_at (takeWhile (\<lambda>b. b \<noteq> 0) (dh_hostname l @ dh_mac l @ le_bytes (dh_ip l)
     @ le_bytes (dh_expires l) @ le_bytes (dh_nReachable l)))"

definition find_lease :: "string \<Rightarrow> dev_tables \<Rightarrow> DHCPITEM option" where
  "find_lease m st = List.find (\<lambda>l. strcasecmp_eq (mac_text (dh_mac l)) m) (g_WebdhcpItemArray st)"

definition hertUtil_GetIpReachInfo :: "string \<Rightarrow> DEVINFO \<Rightarrow> dev_tables \<Rightarrow> dword \<times> DEVINFO" where
  "hertUtil_GetIpReachInfo m d st = (case find_lease m st of
       None \<Rightarrow> (2, d)
     | Some l \<Rightarrow> (dh_nReachable l,
         if di_szProduct d = [] then d\<lparr>di_szProduct := host_name l\<rparr> else d))"

definition hertUtil_GetDhcpClientItem :: "nat \<Rightarrow> dev_tables \<Rightarrow> (dword \<times> DEVINFO) option" where
  "hertUtil_GetDhcpClientItem nIndex st =
     (if length (g_WebdhcpItemArray st) \<le> nIndex then None
      else (let l = g_WebdhcpItemArray st ! nIndex in Some (dh_nReachable l,
        no_devinfo\<lparr>di_curtime := dh_expires l, di_szMac := mac_text (dh_mac l), di_szProduct := host_name l\<rparr>)))"

definition hertUtil_GetDhcpClientLeaseItem :: "nat \<Rightarrow> dev_tables \<Rightarrow> DHCPITEM option" where
  "hertUtil_GetDhcpClientLeaseItem nIndex st =
     (if length (g_WebdhcpItemArray st) \<le> nIndex then None else Some (g_WebdhcpItemArray st ! nIndex))"

definition hertUtil_GetHostName :: "string \<Rightarrow> dev_tables \<Rightarrow> string" where
  "hertUtil_GetHostName m st = (case find_lease m st of None \<Rightarrow> ''unknown'' | Some l \<Rightarrow> host_name l)"

text \<open>The place of a device whose address contains the text, or is contained in it.\<close>

fun hertUtil_GetIsInDevList :: "string \<Rightarrow> HERT_COM_SUBDEV_BODY list \<Rightarrow> int option" where
  "hertUtil_GetIsInDevList m [] = None"
| "hertUtil_GetIsInDevList m (d # ds) =
     (if has_text m (mac d) \<or> has_text (mac d) m then Some 0
      else map_option ((+) 1) (hertUtil_GetIsInDevList m ds))"

section \<open>The device list\<close>

text \<open>SAVE_ITEM: devType has 32 chars, the product type 64.\<close>

definition save_item :: "DEVINFO \<Rightarrow> fault + HERT_COM_SUBDEV_BODY" where
  "save_item d = rbind (store_word 32 (di_szProdType d)) (\<lambda>typ.
     rbind (store_word 32 (di_szMac d)) (\<lambda>m.
       Inr \<lparr>devName = di_szProduct d, devType = typ, devID = di_szProdSerial d, mac = m,
         connectTime = show_nat (unat (di_curtime d) div 60)\<rparr>))"

text \<open>What is known of a wireless client: option 60 first, then its lease.\<close>

definition client_info :: "dev_tables \<Rightarrow> byte list \<Rightarrow> DEVINFO" where
  "client_info st a =
     (let d = no_devinfo\<lparr>di_szMac := mac_text a\<rparr>;
          d = (case hertUtil_GetDevInfo (di_szMac d) st of Some d' \<Rightarrow> d' | None \<Rightarrow> d)
      in snd (hertUtil_GetIpReachInfo (di_szMac d) d st))"

fun save_clients :: "dev_tables \<Rightarrow> byte list list \<Rightarrow> fault + HERT_COM_SUBDEV_BODY list" where
  "save_clients st [] = Inr []"
| "save_clients st (a # as) = rbind (save_item (client_info st a)) (\<lambda>d.
     rbind (save_clients st as) (\<lambda>ds. Inr (d # ds)))"

text \<open>
  The list has room for the wireless clients and the leases, 272 bytes each, and is filled with
  the wireless clients.  A size below zero cannot be had, which is not taken for an error.
\<close>

definition hertUtil_GetDeviceList :: "(nat \<Rightarrow> bool) \<Rightarrow> byte list list option \<Rightarrow> DHCPITEM list option \<Rightarrow>
    DEVINFO list option \<Rightarrow> dev_tables \<Rightarrow> fault + (int \<times> HERT_COM_SUBDEV_BODY list) \<times> dev_tables" where
  "hertUtil_GetDeviceList malloc tab leases opt60 st =
     (let (nNumWc, st) = hertUtil_UpdateWirelessClientInfo tab st;
          (nNumDc, st) = hertUtil_UpdateIpReachInfo leases st
      in rbind (hertUtil_UpdateDevInfo opt60 st) (\<lambda>(nNumDoc, st).
        (let nNumMax = nNumWc + nNumDc in
         if nNumMax \<le> 0 then Inr ((0, []), st)
         else if \<not> malloc (nat (272 * nNumMax)) then Inr ((1, []), st)
         else rbind (save_clients st (g_rtTable st)) (\<lambda>ds. Inr ((0, ds), st)))))"

section \<open>What the list holds\<close>

text \<open>Records the list can hold: a short product type and an address in capital letters.\<close>

definition tables_ok :: "dev_tables \<Rightarrow> bool" where
  "tables_ok st = (\<forall>d \<in> set (g_DevInfArray st).
     length (di_szProdType d) < 32 \<and> map upper (di_szMac d) = di_szMac d)"

definition opt60_ok :: "DEVINFO list option \<Rightarrow> bool" where
  "opt60_ok f = (case f of None \<Rightarrow> True
     | Some rs \<Rightarrow> length rs \<le> 12 \<and> (\<forall>d \<in> set rs. length (di_szProdType d) < 32))"

lemma of_char_upper_lower:
  "(of_char (upper c) :: nat) = (if 97 \<le> (of_char c :: nat) \<and> (of_char c :: nat) \<le> 122 then of_char c - 32 else of_char c)"
  "(of_char (lower c) :: nat) = (if 65 \<le> (of_char c :: nat) \<and> (of_char c :: nat) \<le> 90 then of_char c + 32 else of_char c)"
  using of_char_lt_256 [of c] by (auto simp: upper_def lower_def Let_def)

lemma char_eq_of_char: "(of_char c :: nat) = of_char d \<Longrightarrow> c = d"
  by (metis char_of_char)

lemma upper_upper [simp]: "upper (upper c) = upper c"
  by (rule char_eq_of_char) (auto simp: of_char_upper_lower)

lemma upper_lower [simp]: "upper (lower c) = upper c"
  by (rule char_eq_of_char) (auto simp: of_char_upper_lower)

text \<open>Texts in capital letters that agree but for the case are the same.\<close>

lemma upper_strcasecmp:
  assumes "map upper s = s" and "map upper t = t" and "strcasecmp_eq s t"
  shows "s = t"
proof -
  have "map upper (map lower s) = map upper (map lower t)" using assms(3) by (simp add: strcasecmp_eq_def)
  then have "map upper s = map upper t" by (simp add: o_def)
  then show ?thesis using assms(1,2) by simp
qed

lemma upper_hex_digit: "d < 16 \<Longrightarrow> upper (if d < 10 then char_of (48 + d) else char_of (55 + d)) =
    (if d < 10 then char_of (48 + d) else char_of (55 + d :: nat))"
  by (simp add: upper_def Let_def)

lemma upper_hex2: "map upper (hex2 b) = hex2 b"
proof -
  have "unat b < 256" using unsigned_less [of b, where ?'a = nat] by simp
  then have "unat b div 16 < 16" "unat b mod 16 < 16" by (simp_all add: div_less_iff_less_mult)
  then show ?thesis by (simp only: hex2_def list.map upper_hex_digit)
qed

lemma upper_mac_text: "map upper (mac_text a) = mac_text a"
proof -
  have c: "upper (CHR '':'') = CHR '':''" by (simp add: upper_def)
  have "map upper (concat (map (\<lambda>b. CHR '':'' # hex2 b) bs)) = concat (map (\<lambda>b. CHR '':'' # hex2 b) bs)" for bs
    by (induction bs) (simp_all add: upper_hex2 c)
  then show ?thesis by (simp add: mac_text_def map_tl)
qed

lemma length_mac_text:
  assumes "length a = 6"
  shows "length (mac_text a) = 17"
proof -
  have "length (concat (map (\<lambda>b. CHR '':'' # hex2 b) bs)) = 3 * length bs" for bs
    by (induction bs) (simp_all add: hex2_def)
  then show ?thesis using assms by (simp add: mac_text_def)
qed

text \<open>A client of the table is known under its own address, and its record fits the list.\<close>

lemma find_SomeD: "List.find P xs = Some x \<Longrightarrow> x \<in> set xs \<and> P x"
  by (induction xs) (auto split: if_splits)

lemma client_info_ok:
  assumes "tables_ok st"
  shows "di_szMac (client_info st a) = mac_text a \<and> length (di_szProdType (client_info st a)) < 32"
proof -
  have snd: "di_szMac (snd (hertUtil_GetIpReachInfo m d st)) = di_szMac d \<and>
      di_szProdType (snd (hertUtil_GetIpReachInfo m d st)) = di_szProdType d" for m d
    by (simp add: hertUtil_GetIpReachInfo_def split: option.split)
  show ?thesis
  proof (cases "hertUtil_GetDevInfo (mac_text a) st")
    case None
    then show ?thesis by (simp add: client_info_def Let_def snd no_devinfo_def)
  next
    case (Some d)
    then have d: "d \<in> set (g_DevInfArray st)" "strcasecmp_eq (di_szMac d) (mac_text a)"
      by (auto simp: hertUtil_GetDevInfo_def dest!: find_SomeD)
    have t: "length (di_szProdType d) < 32" "map upper (di_szMac d) = di_szMac d"
      using assms d(1) unfolding tables_ok_def by blast+
    have "di_szMac d = mac_text a" by (rule upper_strcasecmp [OF t(2) upper_mac_text d(2)])
    then show ?thesis
      using Some t(1) by (simp add: client_info_def Let_def snd no_devinfo_def)
  qed
qed

lemma save_clients_ok:
  assumes "tables_ok st" and "\<forall>a \<in> set as. length a = 6"
  shows "\<exists>ds. save_clients st as = Inr ds \<and> map mac ds = map mac_text as"
  using assms(2)
proof (induction as)
  case Nil
  then show ?case by simp
next
  case (Cons a as)
  then have "length (mac_text a) < 32" by (simp add: length_mac_text)
  then have "\<exists>d. save_item (client_info st a) = Inr d \<and> mac d = mac_text a"
    using client_info_ok [OF assms(1), of a] by (simp add: save_item_def store_word_def)
  then show ?case using Cons by auto
qed

lemma UpdateDevInfo_ok:
  assumes "opt60_ok f" and "tables_ok st"
  shows "\<exists>n st'. hertUtil_UpdateDevInfo f st = Inr (n, st') \<and> tables_ok st' \<and> g_rtTable st' = g_rtTable st"
proof (cases f)
  case None
  then show ?thesis using assms(2) by (simp add: hertUtil_UpdateDevInfo_def)
next
  case (Some rs)
  have "\<forall>d \<in> set rs. length (di_szProdType d) < 32" "\<not> 12 < length rs"
    using assms(1) Some by (simp_all add: opt60_ok_def)
  then show ?thesis
    using Some by (simp add: hertUtil_UpdateDevInfo_def tables_ok_def MAX_DEV_NUM_def hertUtil_toUpper_def)
qed

lemma UpdateIpReachInfo_ok:
  "\<exists>n st'. hertUtil_UpdateIpReachInfo f st = (int n, st') \<and> n \<le> 16 \<and>
    g_DevInfArray st' = g_DevInfArray st \<and> g_rtTable st' = g_rtTable st"
proof (cases f)
  case None
  then show ?thesis by (intro exI [of _ 0] exI [of _ st]) (simp add: hertUtil_UpdateIpReachInfo_def)
next
  case (Some ls)
  then show ?thesis
    by (intro exI conjI) (simp add: hertUtil_UpdateIpReachInfo_def Let_def, simp_all add: MAX_ITEMS_NUMBER_def)
qed

lemma device_list_clients:
  assumes "tables_ok st" and "opt60_ok opt60" and "as \<noteq> []" and "\<forall>a \<in> set as. length a = 6"
    and "\<forall>n \<le> 272 * (length as + 16). malloc n"
  shows "\<exists>ds st'. hertUtil_GetDeviceList malloc (Some as) leases opt60 st = Inr ((0, ds), st') \<and>
    map mac ds = map mac_text as \<and> tables_ok st' \<and> g_rtTable st' = as"
proof -
  obtain n s1 where s1: "hertUtil_UpdateIpReachInfo leases (st\<lparr>g_rtTable := as\<rparr>) = (int n, s1)" "n \<le> 16"
    "g_DevInfArray s1 = g_DevInfArray st" "g_rtTable s1 = as"
    using UpdateIpReachInfo_ok [of leases "st\<lparr>g_rtTable := as\<rparr>"] by auto
  then have "tables_ok s1" using assms(1) by (simp add: tables_ok_def)
  then obtain k s2 where s2: "hertUtil_UpdateDevInfo opt60 s1 = Inr (k, s2)" "tables_ok s2" "g_rtTable s2 = as"
    using UpdateDevInfo_ok [OF assms(2)] s1(4) by metis
  obtain ds where ds: "save_clients s2 as = Inr ds" "map mac ds = map mac_text as"
    using save_clients_ok [OF s2(2) assms(4)] by blast
  have "272 * (int (length as) + int n) = int (272 * (length as + n))" by simp
  then have "nat (272 * (int (length as) + int n)) = 272 * (length as + n)" by (simp only: nat_int)
  then have m: "malloc (nat (272 * (int (length as) + int n)))" using assms(5) s1(2) by simp
  have pos: "\<not> int (length as) + int n \<le> 0" using assms(3) by (cases as) simp_all
  show ?thesis
    using s1 s2 ds m pos
    by (simp add: hertUtil_GetDeviceList_def hertUtil_UpdateWirelessClientInfo_def Let_def del: of_nat_add)
qed

text \<open>
  C29: the device list is the table of the wireless driver: one device for each client of the
  table, in its order, under its address in capital hex digits, whatever the leases and the
  option 60 records say; and the tables stay such that this holds the next time.
\<close>

theorem devices_are_wireless_clients:
  assumes "tables_ok st" and "opt60_ok opt60" and "as \<noteq> []" and "\<forall>a \<in> set as. length a = 6"
    and "\<forall>n \<le> 272 * (length as + 16). malloc n"
  shows "\<exists>ds st'. hertUtil_GetDeviceList malloc (Some as) leases opt60 st = Inr ((0, ds), st') \<and>
    map mac ds = map mac_text as \<and> tables_ok st'"
  using device_list_clients [OF assms] by blast

theorem devices_are_wireless_clients_witness:
  "\<exists>ds st'. hertUtil_GetDeviceList (\<lambda>_. True) (Some [[0, 12, 67, 118, 32, 102]]) None None
      \<lparr>g_rtTable = [], g_DevInfArray = [], g_WebdhcpItemArray = []\<rparr> = Inr ((0, ds), st') \<and>
    map mac ds = [''00:0C:43:76:20:66'']"
proof -
  have "mac_text [0, 12, 67, 118, 32, 102] = ''00:0C:43:76:20:66''"
    by (simp add: mac_text_def hex2_def char_of_def bit_iff_odd)
  then show ?thesis
    using devices_are_wireless_clients [of "\<lparr>g_rtTable = [], g_DevInfArray = [], g_WebdhcpItemArray = []\<rparr>" None
        "[[0, 12, 67, 118, 32, 102]]" "\<lambda>_. True" None]
    by (auto simp: tables_ok_def opt60_ok_def simp del: map_eq_Cons_conv)
qed

text \<open>
  With more than twelve option 60 records in the DHCP server's file every request for the
  device list writes behind the table of records.
\<close>

theorem option60_records_overflow:
  assumes "12 < length rs"
  shows "hertUtil_GetDeviceList malloc tab leases (Some rs) st = Inl WriteOverflow"
  using assms by (simp add: hertUtil_GetDeviceList_def hertUtil_UpdateDevInfo_def MAX_DEV_NUM_def split: prod.split)

theorem option60_records_overflow_witness:
  "hertUtil_GetDeviceList (\<lambda>_. True) (Some []) None (Some (replicate 13 no_devinfo))
      \<lparr>g_rtTable = [], g_DevInfArray = [], g_WebdhcpItemArray = []\<rparr> = Inl WriteOverflow"
  by (rule option60_records_overflow) simp

text \<open>When the lease file is gone the names of the leases read last are still given out.\<close>

lemma old_leases_stay:
  "hertUtil_UpdateIpReachInfo None st = (0, st)"
  by (simp add: hertUtil_UpdateIpReachInfo_def)

end
