(* ===== verification/Monitor.thy ===== *)
theory Monitor
  imports DeviceList
begin

text \<open>
  The watchdog (herouteapp/hertMonitor.c, and its probe in hert_tcp.c): the main loop restarts
  the router's programs, a second thread probes the internet, the home network and the main loop
  itself.  A pass of either loop is a function of what it reads in that pass and of the loop's
  variables; commands, removed files and probes are recorded in order.  The notes written to
  /var/monitor.log and the removal of temporary files are left out.
\<close>

datatype mon_act = Run string | Unlink string | RemoveFile string | Probe "string \<times> 16 word \<times> string"

section \<open>The main loop\<close>

text \<open>What a pass of main reads: files, process lists, the mount of the disk, the WAN mode.\<close>

record main_env =
  f_norungoahead :: "string option"
  ps_goahead :: "string option"
  f_rstgoahead :: "string option"
  ps_dnsmasq :: "string option"
  f_lanip :: "string option"
  sda1_there :: bool
  ps_proftpd :: "string option"
  conf_there :: bool
  wan_mode :: string
  ps_pppd :: "string option"
  ps_heroute :: "string option"

record main_state =
  nQosRstGoahead :: int
  ftp_time :: int
  delaytime :: int
  g_nRunCount :: int
  main_acts :: "mon_act list"

definition main_run :: "mon_act list \<Rightarrow> main_state \<Rightarrow> main_state" where
  "main_run as m = m\<lparr>main_acts := main_acts m @ as\<rparr>"

definition restart_goahead :: "mon_act list" where
  "restart_goahead = [Run ''echo RUN_BY_PLATFORM > /var/whorungoahead'', Run ''killall goahead'', Run ''goahead &'']"

definition watch_goahead :: "main_env \<Rightarrow> main_state \<Rightarrow> main_state" where
  "watch_goahead e m =
     (if hertUtil_IsInFile (f_norungoahead e) ''DEBUG'' \<or> hertUtil_getGoaheadIsRuning (ps_goahead e) then m
      else main_run restart_goahead m)"

text \<open>The fifth pass that finds the request of the DHCP client restarts the web server.\<close>

definition watch_qos :: "main_env \<Rightarrow> main_state \<Rightarrow> main_state" where
  "watch_qos e m =
     (if hertUtil_IsInFile (f_rstgoahead e) ''restartgoahead'' then
        (let n = nQosRstGoahead m + 1 in
         if 5 \<le> n then
           (main_run [Run ''echo RUN_BY_PLATFORM > /var/whorungoahead'', Run ''killall goahead'',
              Run ''killall goahead'', Run ''goahead &'', Unlink ''/var/rstgoahead''] m)\<lparr>nQosRstGoahead := 0\<rparr>
         else m\<lparr>nQosRstGoahead := n\<rparr>)
      else m)"

definition watch_dnsmasq :: "main_env \<Rightarrow> main_state \<Rightarrow> main_state" where
  "watch_dnsmasq e m =
     (if hertUtil_getDnsmasqIsRuning (ps_dnsmasq e) then m
      else (let lan = hertUtil_getLanIP (f_lanip e) in
        main_run [Run (''dnsmasq --listen-address='' @ lan @ '' --address=/www.heluyou.com/'' @ lan @ '' &'')] m))"

definition watch_proftpd :: "main_env \<Rightarrow> main_state \<Rightarrow> main_state" where
  "watch_proftpd e m =
     (if sda1_there e \<and> \<not> hertUtil_getProftpdIsRuning (ps_proftpd e) then
        (let t = (if 30 < ftp_time m then 1 else ftp_time m);
             m = (if c_mod t 30 = 15 then
                    main_run (RemoveFile ''//etc//proftpd.conf'' #
                      (if conf_there e then [] else [Run ''nvram_set FtpEnabled 1'', Run ''/sbin/storage.sh ftp &''])) m
                  else m)
         in m\<lparr>ftp_time := t + 1\<rparr>)
      else m\<lparr>ftp_time := 1\<rparr>)"

text \<open>Without pppd the connection is started again every 31 passes.\<close>

definition watch_pppd :: "main_env \<Rightarrow> main_state \<Rightarrow> fault + main_state" where
  "watch_pppd e m = rbind (hertUtil_getWanConnectionMode (wan_mode e)) (\<lambda>tmp.
     Inr (if tmp = ''PPPOE'' then
            (if \<not> hertUtil_getPppdRuning (ps_pppd e) then
               (let d = (if 30 < delaytime m then 0 else delaytime m)
                in (if d = 30 then main_run [Run ''internet.sh &''] m else m)\<lparr>delaytime := d + 1\<rparr>)
             else m\<lparr>delaytime := 0\<rparr>)
          else m))"

definition watch_herouteapp :: "main_env \<Rightarrow> main_state \<Rightarrow> main_state" where
  "watch_herouteapp e m =
     (if hertUtil_getHerouteAppIsRuning (ps_heroute e) then m else main_run [Run ''herouteapp &''] m)"

definition main_pass :: "main_env \<Rightarrow> main_state \<Rightarrow> fault + main_state" where
  "main_pass e m =
     rbind (watch_pppd e (watch_proftpd e (watch_dnsmasq e (watch_qos e (watch_goahead e m))))) (\<lambda>m.
       (let m = watch_herouteapp e m in
        Inr (m\<lparr>g_nRunCount := (if 10000 < g_nRunCount m then 0 else g_nRunCount m + 1)\<rparr>)))"

definition main_start :: main_state where
  "main_start = \<lparr>nQosRstGoahead = 0, ftp_time = 1, delaytime = 0, g_nRunCount = 0, main_acts = []\<rparr>"

section \<open>The probe of the internet\<close>

text \<open>
  HERT_TCP_check_ConnectTimeOut: what the socket calls answer.  getsockopt is given a length of 0,
  so it stores nothing and the error stays 0.
\<close>

record sock_io =
  auth_known :: bool
  init_ret :: retcode
  bind_err :: int
  connect_err :: int
  connect_errno :: int
  select_res :: int
  select_interrupted :: bool
  write_set :: bool
  sockopt_ret :: int

definition HERT_TCP_check_ConnectTimeOut :: "sock_io \<Rightarrow> retcode" where
  "HERT_TCP_check_ConnectTimeOut io =
     (if \<not> auth_known io then
        (if init_ret io \<noteq> RETCODE_SUCCESS then RETCODE_UNREACHABLE_ERROR else RETCODE_SUCCESS)
      else if bind_err io \<noteq> 0 then RETCODE_INTERNEAL_ERROR
      else if connect_err io < 0 \<and> connect_errno io < 0 \<and> connect_errno io \<noteq> 150 then RETCODE_INTERNEAL_ERROR
      else if select_res io \<le> 0 then
        (if select_interrupted io then RETCODE_NOIMPORTMENT_ERROR else RETCODE_INTERNEAL_ERROR)
      else if select_res io = 2 then RETCODE_INTERNEAL_ERROR
      else if \<not> write_set io then RETCODE_INTERNEAL_ERROR
      else if sockopt_ret io < 0 then RETCODE_INTERNEAL_ERROR
      else RETCODE_SUCCESS)"

definition HERT_TCP_check_Connect :: "sock_io \<Rightarrow> retcode" where
  "HERT_TCP_check_Connect io =
     (if bind_err io \<noteq> 0 then RETCODE_INTERNEAL_ERROR
      else if connect_err io \<noteq> 0 then RETCODE_UNREACHABLE_ERROR
      else RETCODE_SUCCESS)"

text \<open>What a pass of the thread reads.\<close>

record ping_env =
  run_count :: int
  top_goahead :: "string option"
  p_norungoahead :: "string option"
  f_needping :: "string option"
  f_hertconnect :: "string option"
  ping_mode :: string
  dns1 :: string
  dns2 :: string
  resolv_conf :: "string option"
  wan_ip :: string
  f_pingaddr :: "string option"
  f_pingport :: "string option"
  sock :: sock_io
  lease_readable :: bool
  lease_writable :: bool
  f_wireless :: "string option"
  lan_ping :: "dword \<Rightarrow> bool"

record ping_state =
  nWanTimes :: int
  nWanCount :: int
  nLanTimes :: int
  nLanCount :: int
  szOldWanIp :: string
  nPreRunCount :: int
  nNoRunCount :: int
  goaheadBlockTimes :: int
  nHostPingCount :: int
  nFirstPingNum :: int
  session :: "string \<times> 16 word \<times> string"
  leases :: "DHCPITEM list"
  ping_acts :: "mon_act list"

definition ping_run :: "mon_act list \<Rightarrow> ping_state \<Rightarrow> ping_state" where
  "ping_run as p = p\<lparr>ping_acts := ping_acts p @ as\<rparr>"

definition need_ping :: "ping_env \<Rightarrow> bool" where
  "need_ping e = hertUtil_IsInFile (f_needping e) ''NEED_PING''"

text \<open>1: reached, 2: interrupted, 0: not reached.\<close>

definition check_tcp_IsReachInternet :: "ping_env \<Rightarrow> int" where
  "check_tcp_IsReachInternet e =
     (let ret = (if \<not> hertUtil_IsInFile (f_hertconnect e) ''DEBUG'' then HERT_TCP_check_ConnectTimeOut (sock e)
                 else HERT_TCP_check_Connect (sock e))
      in if ret = RETCODE_NOIMPORTMENT_ERROR then 2 else if ret \<noteq> RETCODE_SUCCESS then 0 else 1)"

definition check_tcp_IsReachInternet_Init :: "ping_env \<Rightarrow> ping_state \<Rightarrow> ping_state" where
  "check_tcp_IsReachInternet_Init e p =
     p\<lparr>session := (hertUtil_getPingSeverAddr (f_pingaddr e), hertUtil_getPingSeverPort (f_pingport e), wan_ip e)\<rparr>"

text \<open>CHECK_TCP_INTERNET_REACHABLE: eleven probes in a row, then one in nine.\<close>

definition CHECK_TCP_INTERNET_REACHABLE :: "ping_env \<Rightarrow> ping_state \<Rightarrow> int \<times> ping_state" where
  "CHECK_TCP_INTERNET_REACHABLE e p =
     (let h = nHostPingCount p + 1 in
      if 0 \<le> nFirstPingNum p \<or> 9 \<le> h then
        (let p = (ping_run [Probe (session p)] p)\<lparr>nHostPingCount := 0,
               nFirstPingNum := (if nFirstPingNum p < 0 then nFirstPingNum p else nFirstPingNum p - 1)\<rparr>;
             nRet = check_tcp_IsReachInternet e
         in (if nRet = 1 then 0 else if nRet = 2 then - 2 else - 1, p))
      else (- 2, p\<lparr>nHostPingCount := h\<rparr>))"

definition upWebSiteReachable :: "ping_env \<Rightarrow> ping_state \<Rightarrow> fault + int \<times> ping_state" where
  "upWebSiteReachable e p =
     (if \<not> need_ping e then Inr (- 1, p\<lparr>nFirstPingNum := 10\<rparr>)
      else rbind (hertUtil_getWanDnsServerIP (ping_mode e) (dns1 e) (dns2 e) (resolv_conf e)) (\<lambda>d.
        Inr (case d of
            None \<Rightarrow> (- 1, p)
          | Some (first, second) \<Rightarrow>
              if first \<noteq> [] then CHECK_TCP_INTERNET_REACHABLE e p
              else if second \<noteq> [] \<and> \<not> strcasecmp_eq first second then CHECK_TCP_INTERNET_REACHABLE e p
              else (- 1, p))))"

definition DO_WAN_PING :: "ping_env \<Rightarrow> ping_state \<Rightarrow> fault + ping_state" where
  "DO_WAN_PING e p = rbind (upWebSiteReachable e p) (\<lambda>(nReachable, p).
     Inr (if nReachable = 0 then ping_run [Run ''echo pass > /var/webspingsts''] p
          else if nReachable = - 1 then ping_run [Run ''echo failed > /var/webspingsts''] p
          else p))"

section \<open>The second thread\<close>

text \<open>Leases of wired clients that do not answer are dropped; the address is printed in small hex digits.\<close>

definition hertUtil_UpdateLanClients :: "ping_env \<Rightarrow> ping_state \<Rightarrow> ping_state" where
  "hertUtil_UpdateLanClients e p =
     (if \<not> lease_readable e \<or> \<not> lease_writable e then p
      else p\<lparr>leases := filter (\<lambda>l. hertUtil_IsInSaveWirelessClientMac (f_wireless e) (map lower (mac_text (dh_mac l)))
        \<or> lan_ping e (dh_ip l)) (leases p)\<rparr>)"

text \<open>The main loop counts its passes; ten passes of the thread without a new count report it.\<close>

definition watch_main :: "ping_env \<Rightarrow> ping_state \<Rightarrow> ping_state" where
  "watch_main e p =
     (if nPreRunCount p = run_count e then
        (if 10 \<le> nNoRunCount p + 1
         then (ping_run [Run ''echo restart > /var/hertmtrst''] p)\<lparr>nNoRunCount := 0\<rparr>
         else p\<lparr>nNoRunCount := nNoRunCount p + 1\<rparr>)
      else p\<lparr>nNoRunCount := 0, nPreRunCount := run_count e\<rparr>)"

definition watch_block :: "ping_env \<Rightarrow> ping_state \<Rightarrow> fault + ping_state" where
  "watch_block e p = rbind (hertUtil_getGoaheadIsBlock (top_goahead e)) (\<lambda>b.
     (let n = (if b then goaheadBlockTimes p + 1 else 0) in
      Inr (if \<not> hertUtil_IsInFile (p_norungoahead e) ''DEBUG'' \<and> 10 \<le> n
           then (ping_run restart_goahead p)\<lparr>goaheadBlockTimes := 0\<rparr>
           else p\<lparr>goaheadBlockTimes := n\<rparr>)))"

definition wan_round :: "ping_env \<Rightarrow> ping_state \<Rightarrow> fault + ping_state" where
  "wan_round e p =
     (let p = p\<lparr>nWanCount := nWanCount p + 1\<rparr> in
      if nWanTimes p \<le> nWanCount p \<and> szOldWanIp p \<noteq> [] then
        rbind (DO_WAN_PING e p) (\<lambda>p. Inr (p\<lparr>nWanCount := 0\<rparr>))
      else Inr p)"

definition lan_round :: "ping_env \<Rightarrow> ping_state \<Rightarrow> ping_state" where
  "lan_round e p =
     (if nLanTimes p \<le> nLanCount p + 1 then hertUtil_UpdateLanClients e (p\<lparr>nLanCount := 0\<rparr>)
      else p\<lparr>nLanCount := nLanCount p + 1\<rparr>)"

definition wan_change :: "ping_env \<Rightarrow> ping_state \<Rightarrow> fault + ping_state" where
  "wan_change e p =
     (if \<not> need_ping e then Inr p
      else if (szOldWanIp p = [] \<or> wan_ip e \<noteq> szOldWanIp p) \<and> wan_ip e \<noteq> [] then
        DO_WAN_PING e (check_tcp_IsReachInternet_Init e (p\<lparr>szOldWanIp := wan_ip e\<rparr>))
      else if wan_ip e = [] then Inr (p\<lparr>szOldWanIp := []\<rparr>)
      else Inr p)"

definition ping_pass :: "ping_env \<Rightarrow> ping_state \<Rightarrow> fault + ping_state" where
  "ping_pass e p = rbind (watch_block e (watch_main e p)) (\<lambda>p.
     rbind (wan_round e p) (\<lambda>p. wan_change e (lan_round e p)))"

definition ping_start :: "ping_env \<Rightarrow> string option \<Rightarrow> string option \<Rightarrow> DHCPITEM list \<Rightarrow> ping_state" where
  "ping_start e wan lan ls =
     check_tcp_IsReachInternet_Init e \<lparr>nWanTimes = c_div (hertUtil_getWanDectTime wan) 3, nWanCount = 0,
       nLanTimes = c_div (hertUtil_getLanDectTime lan) 3, nLanCount = 0, szOldWanIp = [], nPreRunCount = 0,
       nNoRunCount = 0, goaheadBlockTimes = 0, nHostPingCount = - 1, nFirstPingNum = 10,
       session = ([], 0, []), leases = ls, ping_acts = []\<rparr>"

end
