(* ===== verification/MonitorProps.thy ===== *)
theory MonitorProps
  imports Monitor
begin

text \<open>
  What the watchdog does over many passes.  Three of its counters count passes and act when they
  are full; the interface \<open>periodic\<close> says so once, and gives how often each acts in any number of
  passes.
\<close>

section \<open>Counters that act when full\<close>

fun run_all :: "('e \<Rightarrow> 's \<Rightarrow> fault + 's) \<Rightarrow> 'e list \<Rightarrow> 's \<Rightarrow> fault + 's" where
  "run_all step [] s = Inr s"
| "run_all step (e # es) s = rbind (step e s) (run_all step es)"

text \<open>
  \<open>ok\<close>: the passes that are counted; \<open>pos\<close>: how far the counter is; \<open>fired\<close>: how often it has
  acted.  Each pass moves the counter by one of its \<open>N\<close> places.
\<close>

locale periodic =
  fixes N :: nat and step :: "'e \<Rightarrow> 's \<Rightarrow> fault + 's" and ok :: "'e \<Rightarrow> bool" and inv :: "'s \<Rightarrow> bool"
    and pos :: "'s \<Rightarrow> nat" and fired :: "'s \<Rightarrow> nat"
  assumes pos_less: "inv s \<Longrightarrow> pos s < N"
    and step_counts: "inv s \<Longrightarrow> ok e \<Longrightarrow>
      \<exists>s'. step e s = Inr s' \<and> inv s' \<and> N * fired s' + pos s' = N * fired s + pos s + 1"

context periodic
begin

lemma run_energy:
  assumes "inv s" and "\<forall>e \<in> set es. ok e"
  shows "\<exists>s'. run_all step es s = Inr s' \<and> inv s' \<and> N * fired s' + pos s' = N * fired s + pos s + length es"
  using assms
proof (induction es arbitrary: s)
  case Nil
  then show ?case by simp
next
  case (Cons e es)
  then obtain t where t: "step e s = Inr t" "inv t" "N * fired t + pos t = N * fired s + pos s + 1"
    using step_counts [of s e] by auto
  from Cons.IH [OF t(2)] Cons.prems(2) t show ?case by auto
qed

lemma fires:
  assumes "inv s" and "\<forall>e \<in> set es. ok e"
  shows "\<exists>s'. run_all step es s = Inr s' \<and> inv s' \<and> fired s' = fired s + (pos s + length es) div N"
proof -
  obtain s' where s': "run_all step es s = Inr s'" "inv s'"
    "N * fired s' + pos s' = N * fired s + (pos s + length es)"
    using run_energy [OF assms] by (auto simp: add.assoc)
  have p: "pos s' < N" using pos_less s'(2) by simp
  then have n: "0 < N" by simp
  have "fired s' = (N * fired s' + pos s') div N" using p by simp
  also have "\<dots> = fired s + (pos s + length es) div N" using n by (simp only: s'(3)) simp
  finally show ?thesis using s'(1,2) by blast
qed

end

definition act_count :: "mon_act \<Rightarrow> mon_act list \<Rightarrow> nat" where
  "act_count a as = length (filter ((=) a) as)"

lemma act_count_simps [simp]:
  "act_count a [] = 0" "act_count a (b # as) = (if a = b then 1 else 0) + act_count a as"
  "act_count a (as @ bs) = act_count a as + act_count a bs"
  by (simp_all add: act_count_def)

section \<open>The main loop\<close>

text \<open>The parts of a pass leave the counters of the others alone.\<close>

lemma watch_goahead_frame:
  "nQosRstGoahead (watch_goahead e m) = nQosRstGoahead m" "delaytime (watch_goahead e m) = delaytime m"
  "act_count (Unlink f) (main_acts (watch_goahead e m)) = act_count (Unlink f) (main_acts m)"
  "act_count (Run ''internet.sh &'') (main_acts (watch_goahead e m)) = act_count (Run ''internet.sh &'') (main_acts m)"
  by (simp_all add: watch_goahead_def main_run_def restart_goahead_def)

lemma watch_qos_frame:
  "delaytime (watch_qos e m) = delaytime m"
  "act_count (Run ''internet.sh &'') (main_acts (watch_qos e m)) = act_count (Run ''internet.sh &'') (main_acts m)"
  by (simp_all add: watch_qos_def main_run_def Let_def)

lemma watch_dnsmasq_frame:
  "nQosRstGoahead (watch_dnsmasq e m) = nQosRstGoahead m" "delaytime (watch_dnsmasq e m) = delaytime m"
  "act_count (Unlink f) (main_acts (watch_dnsmasq e m)) = act_count (Unlink f) (main_acts m)"
  "act_count (Run ''internet.sh &'') (main_acts (watch_dnsmasq e m)) = act_count (Run ''internet.sh &'') (main_acts m)"
  by (simp_all add: watch_dnsmasq_def main_run_def Let_def)

lemma watch_proftpd_frame:
  "nQosRstGoahead (watch_proftpd e m) = nQosRstGoahead m" "delaytime (watch_proftpd e m) = delaytime m"
  "act_count (Unlink f) (main_acts (watch_proftpd e m)) = act_count (Unlink f) (main_acts m)"
  "act_count (Run ''internet.sh &'') (main_acts (watch_proftpd e m)) = act_count (Run ''internet.sh &'') (main_acts m)"
  by (simp_all add: watch_proftpd_def main_run_def Let_def)

lemma watch_herouteapp_frame:
  "nQosRstGoahead (watch_herouteapp e m) = nQosRstGoahead m" "delaytime (watch_herouteapp e m) = delaytime m"
  "act_count (Unlink f) (main_acts (watch_herouteapp e m)) = act_count (Unlink f) (main_acts m)"
  "act_count (Run ''internet.sh &'') (main_acts (watch_herouteapp e m)) = act_count (Run ''internet.sh &'') (main_acts m)"
  by (simp_all add: watch_herouteapp_def main_run_def)

lemmas main_frame = watch_goahead_frame watch_qos_frame watch_dnsmasq_frame watch_proftpd_frame
  watch_herouteapp_frame

text \<open>A pass with a WAN mode that fits its array always ends.\<close>

definition pppd_step :: "main_env \<Rightarrow> main_state \<Rightarrow> main_state" where
  "pppd_step e m =
     (if wan_mode e = ''PPPOE'' then
        (if \<not> hertUtil_getPppdRuning (ps_pppd e) then
           (let d = (if 30 < delaytime m then 0 else delaytime m)
            in (if d = 30 then main_run [Run ''internet.sh &''] m else m)\<lparr>delaytime := d + 1\<rparr>)
         else m\<lparr>delaytime := 0\<rparr>)
      else m)"

lemma main_pass_ends:
  assumes "length (wan_mode e) < 64"
  shows "main_pass e m = (let m = watch_herouteapp e (pppd_step e (watch_proftpd e (watch_dnsmasq e
      (watch_qos e (watch_goahead e m)))))
    in Inr (m\<lparr>g_nRunCount := (if 10000 < g_nRunCount m then 0 else g_nRunCount m + 1)\<rparr>))"
  using assms
  by (simp add: main_pass_def watch_pppd_def hertUtil_getWanConnectionMode_def store_word_def pppd_step_def)

lemma pppd_step_frame:
  "nQosRstGoahead (pppd_step e m) = nQosRstGoahead m"
  "act_count (Unlink f) (main_acts (pppd_step e m)) = act_count (Unlink f) (main_acts m)"
  by (simp_all add: pppd_step_def main_run_def Let_def)

text \<open>The counter of missing pppd: 31 stands for 0.\<close>

definition pppd_pos :: "main_state \<Rightarrow> nat" where
  "pppd_pos m = nat (if delaytime m = 31 then 0 else delaytime m)"

definition pppd_down :: "main_env \<Rightarrow> bool" where
  "pppd_down e = (wan_mode e = ''PPPOE'' \<and> \<not> hertUtil_getPppdRuning (ps_pppd e))"

lemma main_pass_pppd:
  assumes "pppd_down e" and "0 \<le> delaytime m \<and> delaytime m \<le> 31"
  shows "\<exists>m'. main_pass e m = Inr m' \<and> 0 \<le> delaytime m' \<and> delaytime m' \<le> 31 \<and>
    31 * act_count (Run ''internet.sh &'') (main_acts m') + pppd_pos m' =
    31 * act_count (Run ''internet.sh &'') (main_acts m) + pppd_pos m + 1"
proof -
  let ?m1 = "watch_proftpd e (watch_dnsmasq e (watch_qos e (watch_goahead e m)))"
  let ?m2 = "pppd_step e ?m1"
  let ?c = "\<lambda>m. act_count (Run ''internet.sh &'') (main_acts m)"
  have e: "wan_mode e = ''PPPOE''" "\<not> hertUtil_getPppdRuning (ps_pppd e)"
    using assms(1) by (simp_all add: pppd_down_def)
  have m1: "delaytime ?m1 = delaytime m" "?c ?m1 = ?c m" by (simp_all only: main_frame)
  have d: "delaytime ?m2 = (if 30 < delaytime m then 1 else delaytime m + 1)"
    "?c ?m2 = ?c m + (if delaytime m = 30 then 1 else 0)"
    using m1 by (simp_all add: pppd_step_def e main_run_def Let_def)
  have "0 \<le> delaytime ?m2 \<and> delaytime ?m2 \<le> 31 \<and> 31 * ?c ?m2 + pppd_pos ?m2 = 31 * ?c m + pppd_pos m + 1"
    using assms(2) unfolding d pppd_pos_def by auto
  moreover obtain m' where "main_pass e m = Inr m'" "delaytime m' = delaytime ?m2" "?c m' = ?c ?m2"
    using main_pass_ends [of e m] by (simp add: e Let_def main_frame)
  ultimately show ?thesis by (auto simp: pppd_pos_def)
qed

interpretation pppd: periodic 31 main_pass pppd_down "\<lambda>m. 0 \<le> delaytime m \<and> delaytime m \<le> 31" pppd_pos
  "\<lambda>m. act_count (Run ''internet.sh &'') (main_acts m)"
proof
  show "0 \<le> delaytime m \<and> delaytime m \<le> 31 \<Longrightarrow> pppd_pos m < 31" for m
    by (simp add: pppd_pos_def nat_less_iff)
qed (use main_pass_pppd in blast)

text \<open>
  C10: while the connection mode is PPPOE and pppd does not run, the main loop starts the
  connection again once in 31 passes: exactly \<open>n div 31\<close> times in the first \<open>n\<close> passes, whatever
  else it finds to restart.
\<close>

theorem connection_restarted:
  assumes "\<forall>e \<in> set es. pppd_down e"
  shows "\<exists>m. run_all main_pass es main_start = Inr m \<and>
    act_count (Run ''internet.sh &'') (main_acts m) = length es div 31"
  using pppd.fires [of main_start es] assms by (auto simp: main_start_def pppd_pos_def)

text \<open>The requests of the DHCP client.\<close>

definition qos_asked :: "main_env \<Rightarrow> bool" where
  "qos_asked e = (hertUtil_IsInFile (f_rstgoahead e) ''restartgoahead'' \<and> length (wan_mode e) < 64)"

lemma main_pass_qos:
  assumes "qos_asked e" and "0 \<le> nQosRstGoahead m \<and> nQosRstGoahead m < 5"
  shows "\<exists>m'. main_pass e m = Inr m' \<and> (0 \<le> nQosRstGoahead m' \<and> nQosRstGoahead m' < 5) \<and>
    5 * act_count (Unlink ''/var/rstgoahead'') (main_acts m') + nat (nQosRstGoahead m') =
    5 * act_count (Unlink ''/var/rstgoahead'') (main_acts m) + nat (nQosRstGoahead m) + 1"
proof -
  let ?c = "\<lambda>m. act_count (Unlink ''/var/rstgoahead'') (main_acts m)"
  let ?m1 = "watch_qos e (watch_goahead e m)"
  have e: "hertUtil_IsInFile (f_rstgoahead e) ''restartgoahead''" using assms(1) by (simp add: qos_asked_def)
  have q: "nQosRstGoahead ?m1 = (if nQosRstGoahead m = 4 then 0 else nQosRstGoahead m + 1)"
    "?c ?m1 = ?c m + (if nQosRstGoahead m = 4 then 1 else 0)"
    using assms(2) by (auto simp: watch_qos_def e main_run_def Let_def main_frame)
  have "(0 \<le> nQosRstGoahead ?m1 \<and> nQosRstGoahead ?m1 < 5) \<and>
    5 * ?c ?m1 + nat (nQosRstGoahead ?m1) = 5 * ?c m + nat (nQosRstGoahead m) + 1"
    using assms(2) unfolding q by auto
  moreover obtain m' where "main_pass e m = Inr m'" "nQosRstGoahead m' = nQosRstGoahead ?m1" "?c m' = ?c ?m1"
    using main_pass_ends [of e m] assms(1)
    by (simp add: qos_asked_def Let_def watch_dnsmasq_frame watch_proftpd_frame watch_herouteapp_frame
        pppd_step_frame)
  ultimately show ?thesis by auto
qed

interpretation qos: periodic 5 main_pass qos_asked "\<lambda>m. 0 \<le> nQosRstGoahead m \<and> nQosRstGoahead m < 5"
  "\<lambda>m. nat (nQosRstGoahead m)" "\<lambda>m. act_count (Unlink ''/var/rstgoahead'') (main_acts m)"
proof
  show "0 \<le> nQosRstGoahead m \<and> nQosRstGoahead m < 5 \<Longrightarrow> nat (nQosRstGoahead m) < 5" for m
    by (simp add: nat_less_iff)
qed (use main_pass_qos in blast)

lemma qos_served:
  assumes "\<forall>e \<in> set es. qos_asked e"
  shows "\<exists>m. run_all main_pass es main_start = Inr m \<and>
    act_count (Unlink ''/var/rstgoahead'') (main_acts m) = length es div 5"
  using qos.fires [of main_start es] assms by (auto simp: main_start_def)

text \<open>An environment in which only pppd is missing.\<close>

definition pppd_gone :: main_env where
  "pppd_gone = \<lparr>f_norungoahead = None, ps_goahead = None, f_rstgoahead = None, ps_dnsmasq = None,
     f_lanip = None, sda1_there = False, ps_proftpd = None, conf_there = True, wan_mode = ''PPPOE'',
     ps_pppd = Some [], ps_heroute = None\<rparr>"

lemma pppd_gone_down: "pppd_down pppd_gone"
  by (simp add: pppd_down_def pppd_gone_def hertUtil_getPppdRuning_def proc_listed_def)

theorem connection_restarted_witness:
  "\<exists>m. run_all main_pass (replicate 100 pppd_gone) main_start = Inr m \<and>
    act_count (Run ''internet.sh &'') (main_acts m) = 3"
  using connection_restarted [of "replicate 100 pppd_gone"] pppd_gone_down by simp

section \<open>The second thread\<close>

lemma ping_run_simps [simp]:
  "ping_acts (ping_run as p) = ping_acts p @ as" "nNoRunCount (ping_run as p) = nNoRunCount p"
  "nPreRunCount (ping_run as p) = nPreRunCount p" "nHostPingCount (ping_run as p) = nHostPingCount p"
  "nFirstPingNum (ping_run as p) = nFirstPingNum p" "session (ping_run as p) = session p"
  by (simp_all add: ping_run_def)

text \<open>What a probe of the internet leaves alone, and the report it makes.\<close>

definition same_watch :: "ping_state \<Rightarrow> ping_state \<Rightarrow> bool" where
  "same_watch p p' = (nNoRunCount p' = nNoRunCount p \<and> nPreRunCount p' = nPreRunCount p \<and>
     act_count (Run ''echo restart > /var/hertmtrst'') (ping_acts p') =
     act_count (Run ''echo restart > /var/hertmtrst'') (ping_acts p) \<and>
     (\<exists>as. ping_acts p' = ping_acts p @ as))"

definition pass_acts :: "ping_state \<Rightarrow> nat" where
  "pass_acts p = act_count (Run ''echo pass > /var/webspingsts'') (ping_acts p)"

lemma same_watch_trans: "same_watch p q \<Longrightarrow> same_watch q r \<Longrightarrow> same_watch p r"
  by (auto simp: same_watch_def)

lemma check_same: "same_watch p (snd (CHECK_TCP_INTERNET_REACHABLE e p))"
  by (simp add: CHECK_TCP_INTERNET_REACHABLE_def same_watch_def Let_def)

lemma check_pass:
  "pass_acts (snd (CHECK_TCP_INTERNET_REACHABLE e p)) = pass_acts p \<and>
    (fst (CHECK_TCP_INTERNET_REACHABLE e p) = 0 \<longrightarrow> check_tcp_IsReachInternet e = 1)"
  by (simp add: CHECK_TCP_INTERNET_REACHABLE_def pass_acts_def Let_def)

lemma up_same:
  assumes "upWebSiteReachable e p = Inr (r, p')"
  shows "same_watch p p' \<and> pass_acts p' = pass_acts p \<and>
    (r = 0 \<longrightarrow> need_ping e \<and> check_tcp_IsReachInternet e = 1)"
proof (cases "need_ping e")
  case False
  then show ?thesis using assms by (auto simp: upWebSiteReachable_def same_watch_def pass_acts_def)
next
  case True
  from assms True obtain d where d: "(case d of None \<Rightarrow> (- 1, p)
      | Some (first, second) \<Rightarrow>
          if first \<noteq> [] then CHECK_TCP_INTERNET_REACHABLE e p
          else if second \<noteq> [] \<and> \<not> strcasecmp_eq first second then CHECK_TCP_INTERNET_REACHABLE e p
          else (- 1, p)) = (r, p')"
    unfolding upWebSiteReachable_def rbind_eq_Inr by (simp only: if_False not_True_eq_False rbind_eq_Inr) blast
  have "(r, p') = (- 1, p) \<or> (r, p') = CHECK_TCP_INTERNET_REACHABLE e p"
    using d by (auto split: option.splits if_splits)
  then show ?thesis
  proof
    assume "(r, p') = (- 1, p)"
    then show ?thesis by (simp add: same_watch_def)
  next
    assume "(r, p') = CHECK_TCP_INTERNET_REACHABLE e p"
    then show ?thesis using check_same [of p e] check_pass [of e p] True by (metis fst_conv snd_conv)
  qed
qed

lemma ping_same:
  assumes "DO_WAN_PING e p = Inr p'"
  shows "same_watch p p' \<and>
    (pass_acts p < pass_acts p' \<longrightarrow> need_ping e \<and> check_tcp_IsReachInternet e = 1)"
proof -
  obtain r q where q: "upWebSiteReachable e p = Inr (r, q)"
    "p' = (if r = 0 then ping_run [Run ''echo pass > /var/webspingsts''] q
       else if r = - 1 then ping_run [Run ''echo failed > /var/webspingsts''] q else q)"
    using assms by (auto simp: DO_WAN_PING_def rbind_eq_Inr)
  then show ?thesis using up_same [OF q(1)] by (auto simp: same_watch_def pass_acts_def)
qed

lemma wan_round_same:
  assumes "wan_round e p = Inr p'"
  shows "same_watch p p' \<and> (pass_acts p < pass_acts p' \<longrightarrow> need_ping e \<and> check_tcp_IsReachInternet e = 1)"
proof -
  let ?p = "p\<lparr>nWanCount := nWanCount p + 1\<rparr>"
  have c: "p' = ?p \<or> (\<exists>q. DO_WAN_PING e ?p = Inr q \<and> p' = q\<lparr>nWanCount := 0\<rparr>)"
    using assms by (auto simp: wan_round_def Let_def rbind_eq_Inr split: if_splits)
  have up: "same_watch ?p q = same_watch p q" "pass_acts ?p = pass_acts p"
    "same_watch p (q\<lparr>nWanCount := 0\<rparr>) = same_watch p q" "pass_acts (q\<lparr>nWanCount := 0\<rparr>) = pass_acts q" for q
    by (simp_all add: same_watch_def pass_acts_def)
  from c show ?thesis
  proof
    assume "p' = ?p"
    then show ?thesis by (simp add: same_watch_def pass_acts_def)
  next
    assume "\<exists>q. DO_WAN_PING e ?p = Inr q \<and> p' = q\<lparr>nWanCount := 0\<rparr>"
    then obtain q where "DO_WAN_PING e ?p = Inr q" "p' = q\<lparr>nWanCount := 0\<rparr>" by blast
    then show ?thesis using ping_same [of e ?p q] by (simp only: up) simp
  qed
qed

lemma lan_round_same: "same_watch p (lan_round e p)" "pass_acts (lan_round e p) = pass_acts p"
  by (simp_all add: lan_round_def hertUtil_UpdateLanClients_def same_watch_def pass_acts_def)

lemma wan_change_same:
  assumes "wan_change e p = Inr p'"
  shows "same_watch p p' \<and> (pass_acts p < pass_acts p' \<longrightarrow> need_ping e \<and> check_tcp_IsReachInternet e = 1)"
proof -
  let ?p = "check_tcp_IsReachInternet_Init e (p\<lparr>szOldWanIp := wan_ip e\<rparr>)"
  have c: "p' = p \<or> p' = p\<lparr>szOldWanIp := []\<rparr> \<or> DO_WAN_PING e ?p = Inr p'"
    using assms by (auto simp: wan_change_def split: if_splits)
  have up: "same_watch ?p q = same_watch p q" "pass_acts ?p = pass_acts p" for q
    by (simp_all add: same_watch_def pass_acts_def check_tcp_IsReachInternet_Init_def)
  from c consider "p' = p \<or> p' = p\<lparr>szOldWanIp := []\<rparr>" | "DO_WAN_PING e ?p = Inr p'" by blast
  then show ?thesis
  proof cases
    case 1
    then show ?thesis by (auto simp: same_watch_def pass_acts_def)
  next
    case 2
    show ?thesis using ping_same [OF 2] unfolding up .
  qed
qed

lemma watch_block_same:
  assumes "watch_block e p = Inr p'"
  shows "same_watch p p' \<and> pass_acts p' = pass_acts p"
  using assms
  by (auto simp: watch_block_def rbind_eq_Inr Let_def same_watch_def pass_acts_def restart_goahead_def
      split: if_splits)

text \<open>A report in a pass comes from a probe in this pass; the pass only adds to the actions.\<close>

lemma probed_pass:
  assumes "ping_pass e p = Inr p'"
  shows "(pass_acts p < pass_acts p' \<longrightarrow> need_ping e \<and> check_tcp_IsReachInternet e = 1) \<and>
    (\<exists>as. ping_acts p' = ping_acts p @ as)"
proof -
  obtain q r where q: "watch_block e (watch_main e p) = Inr q" "wan_round e q = Inr r"
    "wan_change e (lan_round e r) = Inr p'"
    using assms by (auto simp: ping_pass_def rbind_eq_Inr)
  have m: "pass_acts (watch_main e p) = pass_acts p" "\<exists>as. ping_acts (watch_main e p) = ping_acts p @ as"
    by (simp_all add: watch_main_def pass_acts_def)
  note parts = watch_block_same [OF q(1)] wan_round_same [OF q(2)] wan_change_same [OF q(3)] lan_round_same [where p = r and e = e]
  have "\<exists>as. ping_acts p' = ping_acts p @ as"
    using m(2) parts by (auto simp: same_watch_def)
  moreover have "pass_acts p < pass_acts p' \<longrightarrow> need_ping e \<and> check_tcp_IsReachInternet e = 1"
    using m(1) parts by (cases "pass_acts q < pass_acts r") auto
  ultimately show ?thesis by blast
qed

text \<open>
  The watchdog reports the internet as reached only when it was: a pass of its thread that
  writes "pass" to the status file has probed a server in this pass, because probing was asked
  for, and the connection was made.
\<close>

theorem status_pass_is_probed:
  assumes "ping_pass e p = Inr p'" and "pass_acts p < pass_acts p'"
  shows "need_ping e \<and> check_tcp_IsReachInternet e = 1"
  using probed_pass [OF assms(1)] assms(2) by blast

text \<open>A first pass on a connected router that is asked to probe.\<close>

definition connected_env :: ping_env where
  "connected_env = \<lparr>run_count = 1, top_goahead = None, p_norungoahead = None, f_needping = Some ''NEED_PING'',
     f_hertconnect = None, ping_mode = ''DHCP'', dns1 = [], dns2 = [],
     resolv_conf = Some (''nameserver 10.0.0.1'' @ [CHR 0x0A]), wan_ip = ''10.0.0.9'', f_pingaddr = None,
     f_pingport = None, sock = \<lparr>auth_known = True, init_ret = RETCODE_SUCCESS, bind_err = 0, connect_err = - 1,
       connect_errno = 150, select_res = 1, select_interrupted = False, write_set = True, sockopt_ret = 0\<rparr>,
     lease_readable = False, lease_writable = False, f_wireless = None, lan_ping = (\<lambda>_. False)\<rparr>"

lemma connected_pass:
  "\<exists>p. ping_pass connected_env (ping_start connected_env None None []) = Inr p \<and>
    pass_acts (ping_start connected_env None None []) < pass_acts p"
proof -
  have "(case ping_pass connected_env (ping_start connected_env None None []) of
      Inl _ \<Rightarrow> False | Inr p \<Rightarrow> pass_acts (ping_start connected_env None None []) < pass_acts p)"
    by code_simp
  then show ?thesis by (auto split: sum.splits)
qed

theorem status_pass_is_probed_witness:
  "need_ping connected_env \<and> check_tcp_IsReachInternet connected_env = 1"
proof -
  obtain p where "ping_pass connected_env (ping_start connected_env None None []) = Inr p"
    "pass_acts (ping_start connected_env None None []) < pass_acts p"
    using connected_pass by blast
  then show ?thesis by (rule status_pass_is_probed)
qed

section \<open>A main loop that has stopped\<close>

text \<open>The texts a pass reads fit their arrays.\<close>

definition reads_fit :: "ping_env \<Rightarrow> bool" where
  "reads_fit e = (hertUtil_getGoaheadIsBlock (top_goahead e) \<in> range Inr \<and>
     hertUtil_getWanDnsServerIP (ping_mode e) (dns1 e) (dns2 e) (resolv_conf e) \<in> range Inr)"

lemma DO_WAN_PING_ends:
  assumes "reads_fit e"
  shows "\<exists>p'. DO_WAN_PING e p = Inr p'"
proof -
  obtain d where "hertUtil_getWanDnsServerIP (ping_mode e) (dns1 e) (dns2 e) (resolv_conf e) = Inr d"
    using assms by (auto simp: reads_fit_def)
  then obtain r where "upWebSiteReachable e p = Inr r" by (cases "need_ping e") (auto simp: upWebSiteReachable_def)
  then show ?thesis by (cases r) (simp add: DO_WAN_PING_def)
qed

lemma wan_round_ends: "reads_fit e \<Longrightarrow> \<exists>p'. wan_round e p = Inr p'"
  using DO_WAN_PING_ends [of e "p\<lparr>nWanCount := nWanCount p + 1\<rparr>"] by (auto simp: wan_round_def Let_def)

lemma wan_change_ends: "reads_fit e \<Longrightarrow> \<exists>p'. wan_change e p = Inr p'"
  using DO_WAN_PING_ends [of e "check_tcp_IsReachInternet_Init e (p\<lparr>szOldWanIp := wan_ip e\<rparr>)"]
  by (auto simp: wan_change_def)

lemma watch_block_ends: "reads_fit e \<Longrightarrow> \<exists>p'. watch_block e p = Inr p'"
  by (auto simp: reads_fit_def watch_block_def Let_def)

lemma ping_pass_ends:
  assumes "reads_fit e"
  shows "\<exists>p'. ping_pass e p = Inr p' \<and> same_watch (watch_main e p) p'"
proof -
  obtain q where q: "watch_block e (watch_main e p) = Inr q" using watch_block_ends [OF assms] by blast
  obtain r where r: "wan_round e q = Inr r" using wan_round_ends [OF assms] by blast
  obtain p' where p': "wan_change e (lan_round e r) = Inr p'" using wan_change_ends [OF assms] by blast
  have "same_watch (watch_main e p) p'"
    using watch_block_same [OF q] wan_round_same [OF r] lan_round_same(1) [of r e] wan_change_same [OF p']
    by (meson same_watch_trans)
  then show ?thesis using q r p' by (simp add: ping_pass_def)
qed

definition stuck_at :: "int \<Rightarrow> ping_env \<Rightarrow> bool" where
  "stuck_at c e = (run_count e = c \<and> reads_fit e)"

abbreviation "hung_reports p \<equiv> act_count (Run ''echo restart > /var/hertmtrst'') (ping_acts p)"

lemma ping_pass_stuck:
  assumes "stuck_at c e" and "nPreRunCount p = c \<and> 0 \<le> nNoRunCount p \<and> nNoRunCount p < 10"
  shows "\<exists>p'. ping_pass e p = Inr p' \<and> (nPreRunCount p' = c \<and> 0 \<le> nNoRunCount p' \<and> nNoRunCount p' < 10) \<and>
    10 * hung_reports p' + nat (nNoRunCount p') = 10 * hung_reports p + nat (nNoRunCount p) + 1"
proof -
  obtain p' where p': "ping_pass e p = Inr p'" "same_watch (watch_main e p) p'"
    using ping_pass_ends assms(1) by (auto simp: stuck_at_def)
  have w: "nPreRunCount (watch_main e p) = c"
    "nNoRunCount (watch_main e p) = (if nNoRunCount p = 9 then 0 else nNoRunCount p + 1)"
    "hung_reports (watch_main e p) = hung_reports p + (if nNoRunCount p = 9 then 1 else 0)"
    using assms by (auto simp: stuck_at_def watch_main_def)
  have "nPreRunCount p' = c" "nNoRunCount p' = (if nNoRunCount p = 9 then 0 else nNoRunCount p + 1)"
    "hung_reports p' = hung_reports p + (if nNoRunCount p = 9 then 1 else 0)"
    using p'(2) unfolding same_watch_def w by simp_all
  then show ?thesis using p'(1) assms(2) by auto
qed

interpretation hung: periodic 10 ping_pass "stuck_at c"
  "\<lambda>p. nPreRunCount p = c \<and> 0 \<le> nNoRunCount p \<and> nNoRunCount p < 10" "\<lambda>p. nat (nNoRunCount p)"
  "\<lambda>p. act_count (Run ''echo restart > /var/hertmtrst'') (ping_acts p)" for c
proof
  show "nPreRunCount p = c \<and> 0 \<le> nNoRunCount p \<and> nNoRunCount p < 10 \<Longrightarrow> nat (nNoRunCount p) < 10" for p
    by (simp add: nat_less_iff)
qed (use ping_pass_stuck in blast)

text \<open>
  C11: a main loop that has stopped is reported.  From a pass that saw its counter at \<open>c\<close>, every
  ten passes of the second thread that still see \<open>c\<close> write one restart request; no pass fails as
  long as the texts it reads fit their arrays.
\<close>

theorem hung_main_loop_reported:
  assumes "\<forall>e \<in> set es. stuck_at c e" and "nPreRunCount p = c" and "nNoRunCount p = 0"
  shows "\<exists>p'. run_all ping_pass es p = Inr p' \<and> hung_reports p' = hung_reports p + length es div 10"
  using hung.fires [of p c es] assms by auto

lemma connected_stuck: "stuck_at 1 connected_env"
proof -
  have "(case hertUtil_getWanDnsServerIP ''DHCP'' [] [] (Some (''nameserver 10.0.0.1'' @ [CHR 0x0A])) of
      Inl _ \<Rightarrow> False | Inr _ \<Rightarrow> True)"
    by code_simp
  then show ?thesis
    by (auto simp: stuck_at_def reads_fit_def connected_env_def hertUtil_getGoaheadIsBlock_def split: sum.splits)
qed

theorem hung_main_loop_reported_witness:
  "\<exists>p'. run_all ping_pass (replicate 25 connected_env)
       ((ping_start connected_env None None [])\<lparr>nPreRunCount := 1\<rparr>) = Inr p' \<and> hung_reports p' = 2"
  using hung_main_loop_reported [of "replicate 25 connected_env" 1
      "(ping_start connected_env None None [])\<lparr>nPreRunCount := 1\<rparr>"] connected_stuck
  by (simp add: ping_start_def check_tcp_IsReachInternet_Init_def numeral_2_eq_2)

end
