(* ===== verification/TransportProps.thy ===== *)
theory TransportProps
  imports Transport MonitorProps
begin

text \<open>
  The connections: the client connects with the first attempt that can succeed, the probe on a session is the
  probe of the theory Monitor, and which descriptors probes leave open.
\<close>

section \<open>The dump of a message\<close>

lemma length_hex_byte [simp]: "length (hex_byte x) = 3"
  by (simp add: hex_byte_def)

lemma dump_lines_ok:
  assumes "length buf = 3 * (i mod 16)"
  shows "\<exists>ls. dump_lines i buf xs = Inr ls \<and> concat ls = buf @ concat (map hex_byte xs) \<and> list_all (\<lambda>l. length l \<le> 48) ls"
  using assms
proof (induction i buf xs rule: dump_lines.induct)
  case (1 i buf)
  moreover have "i mod 16 < 16" by simp
  ultimately show ?case by simp
next
  case (2 i buf x xs)
  let ?b = "buf @ hex_byte x"
  have "i mod 16 < 16" by simp
  then have l: "length ?b \<le> 48" using 2(3) by simp
  show ?case
  proof (cases "i mod 16 = 15")
    case True
    then have "i \<noteq> 0" by auto
    moreover have "length [] = 3 * ((i + 1) mod 16)" using True by (simp add: mod_Suc)
    ultimately show ?thesis using 2(1) [of ?b] l True by auto
  next
    case False
    then have e: "length ?b = 3 * ((i + 1) mod 16)" using 2(3) by (simp add: mod_Suc)
    have n: "\<not> 128 \<le> length ?b" using l by simp
    obtain ls where "dump_lines (i + 1) ?b xs = Inr ls" "concat ls = ?b @ concat (map hex_byte xs)"
      "list_all (\<lambda>l. length l \<le> 48) ls"
      using 2(2) [OF refl n _ e] False by auto
    then show ?thesis using n False by (simp add: Let_def)
  qed
qed

text \<open>A dump prints every byte once, in order, in lines that fit the buffer.\<close>

lemma dump_prints_all:
  assumes "n \<le> int (length bs)"
  shows "\<exists>ls. HERT_Dump_Buffer bs n = Inr ls \<and> list_all (\<lambda>l. length l \<le> 48) ls \<and>
    concat (tl ls) = concat (map hex_byte (take (nat n) bs)) @ [CHR 0x0A]"
proof -
  obtain ls where "dump_lines 0 [] (take (nat n) bs) = Inr ls" "concat ls = concat (map hex_byte (take (nat n) bs))"
    "list_all (\<lambda>l. length l \<le> 48) ls"
    using dump_lines_ok [of "[]" 0 "take (nat n) bs"] by auto
  then show ?thesis using assms by (simp add: HERT_Dump_Buffer_def length_concat comp_def sum_list_triv)
qed

section \<open>The start of the client\<close>

text \<open>Attempt \<open>k\<close> can succeed: there is a socket, bind and connect succeed.\<close>

definition can_connect :: "(nat \<Rightarrow> int) \<Rightarrow> (nat \<Rightarrow> sock_io) \<Rightarrow> nat \<Rightarrow> bool" where
  "can_connect fd io k = (0 \<le> fd k \<and> bind_err (io k) = 0 \<and> connect_err (io k) = 0)"

text \<open>A resolver that has an address for each name it finds.\<close>

definition has_addresses :: "resolver \<Rightarrow> bool" where
  "has_addresses r = (\<forall>name. gethostbyname r name \<noteq> Some [])"

definition host_found :: "resolver \<Rightarrow> string \<Rightarrow> dword" where
  "host_found r name = (case gethostbyname r name of Some (a # as) \<Rightarrow> a | _ \<Rightarrow> inet_addr r name)"

lemma first_address_found [simp]: "has_addresses r \<Longrightarrow> first_address r name = Inr (host_found r name)"
  by (auto simp: has_addresses_def first_address_def host_found_def split: option.splits list.splits)

text \<open>What an attempt makes of the session.\<close>

definition tried :: "resolver \<Rightarrow> int \<Rightarrow> HERT_SESSION \<Rightarrow> HERT_SESSION" where
  "tried r fd s = s\<lparr>listensock := fd, localaddr := (if localaddress s \<noteq> [] then host_found r (localaddress s) else 0, localport s),
     authhost := (host_found r (authserver s), authport s)\<rparr>"

lemma tried_simps [simp]:
  "tried r' fd' (tried r fd s) = tried r' fd' s" "listensock (tried r fd s) = fd"
  "fst (authhost (tried r fd s)) = host_found r (authserver s)"
  by (simp_all add: tried_def)

lemma attempt:
  assumes "has_addresses (r k)" and "fd k \<notin> fds"
  shows "\<exists>c. HERT_TCP_Init (r k) (fd k) (io k) s fds =
      Inr (if can_connect fd io k then (RETCODE_SUCCESS, tried (r k) (fd k) s, insert (fd k) fds) else (c, tried (r k) (fd k) s, fds)) \<and>
    c \<noteq> RETCODE_SUCCESS"
  using assms
  by (auto simp: HERT_TCP_Init_def own_address_def tried_def can_connect_def on_socket_def os_socket_def HERT_SOCKET_Close_def Let_def)

lemma connect_next:
  assumes "has_addresses (r k)" and "fd k \<notin> fds"
  shows "connect_loop r fd io k s fds = (if can_connect fd io k then Some (Inr (k, tried (r k) (fd k) s, insert (fd k) fds))
    else connect_loop r fd io (k + 1) (tried (r k) (fd k) s) fds)"
proof -
  obtain c where c: "HERT_TCP_Init (r k) (fd k) (io k) s fds =
      Inr (if can_connect fd io k then (RETCODE_SUCCESS, tried (r k) (fd k) s, insert (fd k) fds) else (c, tried (r k) (fd k) s, fds))"
    "c \<noteq> RETCODE_SUCCESS"
    using attempt [of r k fd fds io s] assms by blast
  show ?thesis by (subst connect_loop.simps) (simp add: c)
qed

lemma connect_first:
  assumes "\<forall>k. has_addresses (r k) \<and> fd k \<notin> fds" and "can_connect fd io (k + n)" and "\<forall>j < n. \<not> can_connect fd io (k + j)"
  shows "connect_loop r fd io k s fds = Some (Inr (k + n, tried (r (k + n)) (fd (k + n)) s, insert (fd (k + n)) fds))"
  using assms(2,3)
proof (induction n arbitrary: k s)
  case 0
  then show ?case using assms(1) by (simp add: connect_next)
next
  case (Suc n)
  have "\<forall>j < n. \<not> can_connect fd io (k + 1 + j)"
  proof (intro allI impI)
    fix j assume "j < n"
    then show "\<not> can_connect fd io (k + 1 + j)" using Suc(3) [rule_format, of "Suc j"] by simp
  qed
  then have "connect_loop r fd io (k + 1) (tried (r k) (fd k) s) fds =
      Some (Inr (k + Suc n, tried (r (k + Suc n)) (fd (k + Suc n)) s, insert (fd (k + Suc n)) fds))"
    using Suc(1) [of "k + 1" "tried (r k) (fd k) s"] Suc(2) by simp
  moreover have "\<not> can_connect fd io k" using Suc(3) [rule_format, of 0] by simp
  ultimately show ?case using assms(1) by (simp add: connect_next)
qed

text \<open>Without an attempt that can succeed the loop does not end.\<close>

lemma connect_never:
  assumes "\<forall>k. has_addresses (r k) \<and> fd k \<notin> fds" and "\<forall>k. \<not> can_connect fd io k"
  shows "connect_loop r fd io k s fds = None"
proof (rule ccontr)
  assume "connect_loop r fd io k s fds \<noteq> None"
  then obtain y where y: "connect_loop r fd io k s fds = Some y" by auto
  have "\<not> (r = r \<and> fd = fd \<and> io = io \<and> fds = fds)"
  proof (rule connect_loop.raw_induct [where P = "\<lambda>r' fd' io' k s fds' y. \<not> (r' = r \<and> fd' = fd \<and> io' = io \<and> fds' = fds)", OF _ y])
    fix loop r' fd' io' k s fds' y
    assume IH: "\<And>r' fd' io' k s fds' y. loop r' fd' io' k s fds' = Some y \<Longrightarrow> \<not> (r' = r \<and> fd' = fd \<and> io' = io \<and> fds' = fds)"
      and step: "(case HERT_TCP_Init (r' k) (fd' k) (io' k) s fds' of Inl f \<Rightarrow> Some (Inl f)
        | Inr (ret, s, fds) \<Rightarrow> if ret \<noteq> RETCODE_SUCCESS then loop r' fd' io' (k + 1) s fds else Some (Inr (k, s, fds))) = Some y"
    show "\<not> (r' = r \<and> fd' = fd \<and> io' = io \<and> fds' = fds)"
    proof
      assume e: "r' = r \<and> fd' = fd \<and> io' = io \<and> fds' = fds"
      obtain c where "HERT_TCP_Init (r k) (fd k) (io k) s fds = Inr (c, tried (r k) (fd k) s, fds)" "c \<noteq> RETCODE_SUCCESS"
        using attempt [of r k fd fds io s] assms by auto
      then have "loop r fd io (k + 1) (tried (r k) (fd k) s) fds = Some y" using step e by simp
      then show False using IH by blast
    qed
  qed
  then show False by simp
qed

text \<open>
  C5: the client starts exactly when one of its attempts can succeed, with the first of them: it is then
  connected to the address its server has at that attempt, and of all the sockets of the attempts only the
  connected one is open.
\<close>

theorem client_connects:
  assumes "\<forall>k. has_addresses (r k) \<and> fd k \<notin> fds"
  shows "case connect_loop r fd io 0 s fds of
      None \<Rightarrow> \<forall>k. \<not> can_connect fd io k
    | Some (Inl f) \<Rightarrow> False
    | Some (Inr (k, s', fds')) \<Rightarrow> can_connect fd io k \<and> (\<forall>j < k. \<not> can_connect fd io j) \<and> listensock s' = fd k \<and>
        fst (authhost s') = host_found (r k) (authserver s) \<and> fds' = insert (fd k) fds"
proof (cases "\<exists>k. can_connect fd io k")
  case False
  then show ?thesis using connect_never [OF assms, of io 0 s] by simp
next
  case True
  define k where "k = (LEAST k. can_connect fd io k)"
  have "can_connect fd io k" unfolding k_def using True by (rule LeastI_ex)
  moreover have "\<forall>j < k. \<not> can_connect fd io j" unfolding k_def using not_less_Least by blast
  ultimately show ?thesis using connect_first [OF assms, of io 0 k s] by simp
qed

text \<open>The server is found, and answers, at the third attempt.\<close>

definition quiet_io :: sock_io where
  "quiet_io = \<lparr>auth_known = True, init_ret = RETCODE_SUCCESS, bind_err = 0, connect_err = 0, connect_errno = 0,
     select_res = 1, select_interrupted = False, write_set = True, sockopt_ret = 0\<rparr>"

definition names_from :: "nat \<Rightarrow> nat \<Rightarrow> resolver" where
  "names_from m k = \<lparr>gethostbyname = (\<lambda>name. if m \<le> k then Some [0x0100A8C0] else None), inet_addr = (\<lambda>name. - 1)\<rparr>"

theorem client_connects_witness:
  "case connect_loop (names_from 2) (\<lambda>k. 5) (\<lambda>k. quiet_io\<lparr>connect_err := (if k < 2 then - 1 else 0)\<rparr>) 0
      (zero_session\<lparr>authserver := ''platform''\<rparr>) {0, 1, 2} of
    Some (Inr (k, s, fds)) \<Rightarrow> k = 2 \<and> fst (authhost s) = 0x0100A8C0 \<and> fds = {0, 1, 2, 5} | _ \<Rightarrow> False"
proof -
  let ?io = "\<lambda>k :: nat. quiet_io\<lparr>connect_err := (if k < 2 then - 1 else 0)\<rparr>"
  have a: "\<forall>k. has_addresses (names_from 2 k) \<and> 5 \<notin> {0, 1, 2 :: int}"
    by (simp add: has_addresses_def names_from_def)
  have c: "can_connect (\<lambda>k. 5) ?io k \<longleftrightarrow> 2 \<le> k" for k by (simp add: can_connect_def quiet_io_def)
  let ?s = "zero_session\<lparr>authserver := ''platform''\<rparr>"
  note C = client_connects [OF a, of ?io ?s, unfolded c]
  then obtain k s fds where R: "connect_loop (names_from 2) (\<lambda>k. 5) ?io 0 ?s {0, 1, 2} = Some (Inr (k, s, fds))"
    by (auto split: option.splits sum.splits)
  have "k = 2" using C unfolding R by (auto dest: spec [of _ 2])
  then show ?thesis using C unfolding R by (auto simp: host_found_def names_from_def)
qed

section \<open>The probe of the watchdog\<close>

text \<open>What the probe of the theory Monitor is given: whether the server's address is known, and what the calls answer.\<close>

definition session_io :: "resolver \<Rightarrow> HERT_SESSION \<Rightarrow> int \<Rightarrow> sock_io \<Rightarrow> sock_io" where
  "session_io r s fd io = io\<lparr>auth_known := dotted (fst (authhost s)) \<noteq> ''255.255.255.255'',
     init_ret := (case HERT_TCP_check_Connect_Init r s of Inl f \<Rightarrow> init_ret io | Inr (ret, _) \<Rightarrow> ret),
     bind_err := on_socket fd (bind_err io), connect_err := (if fd < 0 then - 1 else connect_err io)\<rparr>"

text \<open>
  The probe on a session, with its socket, finds what the watchdog's pass takes it to find.
\<close>

theorem probe_refines:
  assumes "probe_on (hertUtil_IsInFile (f_hertconnect e) ''DEBUG'') r fd (sock e) s fds = Inr (n, s', fds')"
  shows "n = check_tcp_IsReachInternet (e\<lparr>sock := session_io r s fd (sock e)\<rparr>)"
proof (cases "hertUtil_IsInFile (f_hertconnect e) ''DEBUG''")
  case True
  then show ?thesis using assms
    by (auto simp: probe_on_def check_tcp_IsReachInternet_def check_Connect_on_def HERT_TCP_check_Connect_def session_io_def
        on_socket_def Let_def split: if_splits)
next
  case False
  then show ?thesis using assms
    by (auto simp: probe_on_def check_tcp_IsReachInternet_def check_ConnectTimeOut_on_def HERT_TCP_check_ConnectTimeOut_def
        session_io_def RETURN_ERR_AND_CLEAR_def on_socket_def rbind_eq_Inr Let_def split: if_splits)
qed

text \<open>A probe that is interrupted while it waits.\<close>

definition interrupted :: "sock_io \<Rightarrow> bool" where
  "interrupted io = (bind_err io = 0 \<and> \<not> (connect_err io < 0 \<and> connect_errno io < 0 \<and> connect_errno io \<noteq> 150) \<and>
     select_res io \<le> 0 \<and> select_interrupted io)"

text \<open>The descriptors are those the system gives: none that is open.\<close>

fun fresh_fds :: "(resolver \<times> int \<times> sock_io) list \<Rightarrow> int set \<Rightarrow> bool" where
  "fresh_fds [] fds = True"
| "fresh_fds ((r, fd, io) # ps) fds =
     (0 \<le> fd \<and> fd \<notin> fds \<and> fresh_fds ps (if interrupted io then insert fd fds else fds))"

definition known_host :: "HERT_SESSION \<Rightarrow> bool" where
  "known_host s = (dotted (fst (authhost s)) \<noteq> ''255.255.255.255'')"

lemma probe_descriptors:
  assumes "known_host s" and "0 \<le> fd" and "fd \<notin> fds"
  shows "\<exists>n s'. probe_on False r fd io s fds = Inr (n, s', if interrupted io then insert fd fds else fds) \<and> known_host s'"
  using assms
  by (auto simp: probe_on_def check_ConnectTimeOut_on_def known_host_def interrupted_def RETURN_ERR_AND_CLEAR_def
      HERT_SOCKET_Close_def on_socket_def os_socket_def Let_def)

lemma probes_descriptors:
  assumes "known_host s" and "fresh_fds ps fds" and "finite fds"
  shows "\<exists>s' fds'. probes_on False ps s fds = Inr (s', fds') \<and> known_host s' \<and> fds \<subseteq> fds' \<and> finite fds' \<and>
    card fds' = card fds + length (filter (\<lambda>(r, fd, io). interrupted io) ps)"
  using assms
proof (induction ps arbitrary: s fds)
  case (Cons p ps)
  obtain r fd io where p: "p = (r, fd, io)" by (cases p)
  let ?f = "if interrupted io then insert fd fds else fds"
  have f: "0 \<le> fd" "fd \<notin> fds" "fresh_fds ps ?f" using Cons.prems(2) by (simp_all add: p)
  obtain n s1 where 1: "probe_on False r fd io s fds = Inr (n, s1, ?f)" "known_host s1"
    using probe_descriptors [OF Cons.prems(1) f(1,2)] by blast
  have fin: "finite ?f" using Cons.prems(3) by simp
  obtain s' fds' where "probes_on False ps s1 ?f = Inr (s', fds')" "known_host s'" "?f \<subseteq> fds'" "finite fds'"
    "card fds' = card ?f + length (filter (\<lambda>(r, fd, io). interrupted io) ps)"
    using Cons.IH [OF 1(2) f(3) fin] by blast
  then show ?case using 1 f(2) Cons.prems(3) by (auto simp: p split: if_splits)
qed simp



section \<open>The address of the probe's server\<close>

text \<open>
  A resolver that answers every name with 255.255.255.255, which is the answer the code takes for none, leaves the
  address 0 the session was cleared with: no error is returned, and the probes connect to the router itself.
\<close>

theorem broadcast_answer_is_own_host:
  assumes "has_addresses r" and "gethostbyname r server = Some [- 1]" and "length server < 80" and "length wan < 32"
  shows "\<exists>s'. watch_session r server port wan s fds = Inr (1, s', HERT_TCP_check_Connect_UnInit s fds) \<and> authhost s' = (0, port)"
proof -
  have d: "dotted (- 1) = ''255.255.255.255''" "dotted 0 \<noteq> ''255.255.255.255''" by code_simp+
  show ?thesis
    using assms by (simp add: watch_session_def HERT_TCP_check_Connect_Init_def own_address_def zero_session_def Let_def d)
qed

theorem broadcast_answer_is_own_host_witness:
  "\<exists>s'. watch_session \<lparr>gethostbyname = (\<lambda>name. Some [- 1]), inet_addr = (\<lambda>name. - 1)\<rparr> ''www.baidu.com'' 80 ''10.0.0.2'' zero_session {} =
    Inr (1, s', {}) \<and> authhost s' = (0, 80)"
  using broadcast_answer_is_own_host [of "\<lparr>gethostbyname = (\<lambda>name. Some [- 1]), inet_addr = (\<lambda>name. - 1)\<rparr>"
      "''www.baidu.com''" "''10.0.0.2''" 80 zero_session "{}"]
  by (simp add: has_addresses_def HERT_TCP_check_Connect_UnInit_def zero_session_def)

text \<open>
  With the debug switch the session keeps the number of the descriptor that its probe closed, and closes it again
  when the address of the router changes, whoever has it by then.
\<close>

theorem debug_probe_closes_twice:
  assumes "probe_on True r fd io s fds = Inr (n, s', fds')" and "0 < fd" and "watch_session r' server port wan s' fds2 = Inr (n2, s2, fds3)"
  shows "fds3 = fds2 - {fd}"
proof -
  have "listensock s' = fd"
    using assms(1) by (auto simp: probe_on_def check_Connect_on_def Let_def split: if_splits)
  then show ?thesis
    using assms(2,3) by (auto simp: watch_session_def HERT_TCP_check_Connect_UnInit_def HERT_SOCKET_Close_def rbind_eq_Inr Let_def split: if_splits)
qed

theorem debug_probe_closes_twice_witness:
  "case probe_on True (names_from 0 0) 5 quiet_io zero_session {0} of
     Inr (n, s', fds) \<Rightarrow> fds = {0} \<and> (\<forall>n2 s2 fds3. watch_session (names_from 0 0) ''www.baidu.com'' 80 ''10.0.0.2'' s' {0, 5} = Inr (n2, s2, fds3) \<longrightarrow>
       fds3 = {0})
   | Inl f \<Rightarrow> False"
proof -
  obtain n s' where p: "probe_on True (names_from 0 0) 5 quiet_io zero_session {0} = Inr (n, s', {0})"
    by (auto simp: probe_on_def check_Connect_on_def quiet_io_def on_socket_def os_socket_def HERT_SOCKET_Close_def Let_def)
  have "{0, 5} - {5} = {0 :: int}" by auto
  then show ?thesis using debug_probe_closes_twice [OF p, of _ "''www.baidu.com''" 80 "''10.0.0.2''" "{0, 5}"] by (simp add: p)
qed

end
