(* ===== verification/Ping.thy ===== *)
theory Ping
  imports Monitor
begin

text \<open>
  The ping tool inside the watchdog (herouteapp/hert_ping_new.c): ICMP echo requests with their
  checksum, one each second, and the packets that come back until one is a reply or the wait is over.
  Of its options only F_INTERVAL and MULTICAST_IF are ever set, so that the branches for the others,
  among them the printing of other ICMP messages, cannot be reached and are left out, as is output.
\<close>

section \<open>Words in memory\<close>

definition le16 :: "16 word \<Rightarrow> byte list" where
  "le16 w = [ucast w, ucast (drop_bit 8 w)]"

definition le32 :: "dword \<Rightarrow> byte list" where
  "le32 w = map (\<lambda>k. ucast (drop_bit (8 * k) w)) [0, 1, 2, 3]"

definition rd16 :: "byte list \<Rightarrow> nat \<Rightarrow> 16 word" where
  "rd16 b i = ucast (b ! i) OR push_bit 8 (ucast (b ! (i + 1)))"

definition rd32 :: "byte list \<Rightarrow> nat \<Rightarrow> dword" where
  "rd32 b i = ucast (b ! i) OR push_bit 8 (ucast (b ! (i + 1))) OR push_bit 16 (ucast (b ! (i + 2))) OR
     push_bit 24 (ucast (b ! (i + 3)))"

definition rdb :: "byte list \<Rightarrow> nat \<Rightarrow> fault + byte" where
  "rdb b i = (if i < length b then Inr (b ! i) else Inl ReadOverrun)"

section \<open>The checksum\<close>

fun cksum_sum :: "byte list \<Rightarrow> int" where
  "cksum_sum [] = 0"
| "cksum_sum [x] = uint x"
| "cksum_sum (x # y # bs) = uint x + 256 * uint y + cksum_sum bs"

text \<open>The sum is a signed int: up to 65535 bytes it does not overflow.\<close>

definition in_cksum :: "byte list \<Rightarrow> 16 word" where
  "in_cksum bs = (let s = cksum_sum bs; s = s div 65536 + s mod 65536; s = s + s div 65536 in NOT (word_of_int s))"

section \<open>State\<close>

text \<open>
  The static variables of the file, the buffer for packets, and what was sent.  \<open>rcvd_tbl\<close>, \<open>old_rr\<close> and
  its length keep their values from one call to the next.
\<close>

record ping_tool =
  npackets :: int
  nreceived :: int
  nrepeats :: int
  ntransmitted :: int
  tmin :: int
  tmax :: int
  tsum :: dword
  g_bGetStl :: bool
  rcvd_tbl :: "byte list"
  old_rrlen :: int
  old_rr :: "byte list"
  pt_buf :: "byte list"
  pt_sent :: "byte list list"
  alarm_finish :: bool
  pt_alarm :: int

definition heroute_ping_init :: "ping_tool \<Rightarrow> ping_tool" where
  "heroute_ping_init p = p\<lparr>npackets := 0, nreceived := 0, nrepeats := 0, ntransmitted := 0, tmin := 2 ^ 31 - 1, tmax := 0,
     tsum := 0, g_bGetStl := False\<rparr>"

definition TST :: "nat \<Rightarrow> ping_tool \<Rightarrow> bool" where
  "TST k p = bit (rcvd_tbl p ! (k div 8)) (k mod 8)"

definition SET_bit :: "nat \<Rightarrow> ping_tool \<Rightarrow> ping_tool" where
  "SET_bit k p = p\<lparr>rcvd_tbl := (rcvd_tbl p)[k div 8 := set_bit (k mod 8) (rcvd_tbl p ! (k div 8))]\<rparr>"

definition CLR_bit :: "nat \<Rightarrow> ping_tool \<Rightarrow> ping_tool" where
  "CLR_bit k p = p\<lparr>rcvd_tbl := (rcvd_tbl p)[k div 8 := unset_bit (k mod 8) (rcvd_tbl p ! (k div 8))]\<rparr>"

section \<open>Sending\<close>

text \<open>The request: type, code, checksum, identifier, number, the time, and the bytes 8 to 55.\<close>

definition echo_bytes :: "16 word \<Rightarrow> 16 word \<Rightarrow> 16 word \<Rightarrow> dword \<times> dword \<Rightarrow> byte list" where
  "echo_bytes cks ident seq tv = [8, 0] @ le16 cks @ le16 ident @ le16 seq @ le32 (fst tv) @ le32 (snd tv) @
     map word_of_nat [8..<56]"

definition pinger :: "16 word \<Rightarrow> dword \<times> dword \<Rightarrow> ping_tool \<Rightarrow> ping_tool" where
  "pinger ident tv p =
     (let seq = word_of_int (ntransmitted p) :: 16 word;
          p = CLR_bit (unat seq mod 1024) (p\<lparr>ntransmitted := ntransmitted p + 1\<rparr>)
      in p\<lparr>pt_sent := pt_sent p @ [echo_bytes (in_cksum (echo_bytes 0 ident seq tv)) ident seq tv]\<rparr>)"

definition MAXWAIT :: int where "MAXWAIT = 10"

definition catcher :: "16 word \<Rightarrow> dword \<times> dword \<Rightarrow> ping_tool \<Rightarrow> ping_tool" where
  "catcher ident tv p =
     (let p = pinger ident tv p in
      if npackets p = 0 \<or> ntransmitted p < npackets p then p\<lparr>pt_alarm := 1, alarm_finish := False\<rparr>
      else p\<lparr>pt_alarm := (if nreceived p \<noteq> 0 then
          (let w = c_div (2 * tmax p) 1000; w = (if w = 0 then 1 else w) in if MAXWAIT < w then MAXWAIT else w) else MAXWAIT),
        alarm_finish := True\<rparr>)"

section \<open>A packet\<close>

text \<open>
  The addresses of a route, four bytes each: \<open>j\<close> counts down to \<open>m\<close>.
\<close>

function route_loop :: "byte list \<Rightarrow> int \<Rightarrow> nat \<Rightarrow> int \<Rightarrow> int \<Rightarrow> fault + nat \<times> int" where
  "route_loop b m cp hlen j =
     (if length b \<le> cp + 4 then Inl ReadOverrun
      else if j - 4 \<le> m then Inr (cp + 4, hlen - 4)
      else route_loop b m (cp + 4) (hlen - 4) (j - 4))"
  by pat_completeness auto
termination by (relation "measure (\<lambda>(b, m, cp, hlen, j). length b - cp)") auto

declare route_loop.simps [simp del]

lemma route_loop_shorter: "route_loop b m cp hlen j = Inr (cp', hlen') \<Longrightarrow> hlen' < hlen"
proof (induction b m cp hlen j rule: route_loop.induct)
  case (1 b m cp hlen j)
  then show ?case by (cases "length b \<le> cp + 4"; cases "j - 4 \<le> m") (auto simp: route_loop.simps [of b m cp])
qed

text \<open>
  The options of the header, in the packet from \<open>cp\<close> on: 131 is a source route, 7 a recorded
  route, 0 the end.  The data of every other option is read as options.  A recorded route is copied into
  old_rr[40], unless it is the one that is there.
\<close>

function ip_options :: "byte list \<Rightarrow> nat \<Rightarrow> int \<Rightarrow> int \<times> byte list \<Rightarrow> fault + int \<times> byte list" where
  "ip_options b cp hlen rr =
     (if hlen \<le> 20 then Inr rr
      else (case rdb b cp of
          Inl e \<Rightarrow> Inl e
        | Inr c \<Rightarrow>
            if c = 0 then Inr rr
            else if c = 131 then
              (case rdb b (cp + 1) of
                 Inl e \<Rightarrow> Inl e
               | Inr j \<Rightarrow>
                   if 4 < uint j then
                     (case route_loop b 4 (cp + 2) (hlen - 2) (uint j) of
                        Inl e \<Rightarrow> Inl e
                      | Inr (cp', hlen') \<Rightarrow> ip_options b (cp' + 1) (hlen' - 1) rr)
                   else ip_options b (cp + 3) (hlen - 3) rr)
            else if c = 7 then
              (case rdb b (cp + 2) of
                 Inl e \<Rightarrow> Inl e
               | Inr i \<Rightarrow>
                   let i = min (uint i) (uint (b ! (cp + 1))) - 4 in
                   if i \<le> 0 then ip_options b (cp + 3) (hlen - 3) rr
                   else if i = fst rr \<and> cp = 20 \<and> take (nat i) (drop (cp + 2) b) = take (nat i) (snd rr) then
                     ip_options b (cp + 3 + nat ((i + 3) div 4 * 4)) (hlen - 3 - (i + 3) div 4 * 4) rr
                   else if 40 < i then Inl WriteOverflow
                   else if length b < cp + 2 + nat i then Inl ReadOverrun
                   else (case route_loop b 0 (cp + 2) (hlen - 2) i of
                        Inl e \<Rightarrow> Inl e
                      | Inr (cp', hlen') \<Rightarrow>
                          ip_options b (cp' + 1) (hlen' - 1) (i, take (nat i) (drop (cp + 2) b) @ drop (nat i) (snd rr))))
            else ip_options b (cp + 1) (hlen - 1) rr))"
  by pat_completeness auto
termination
proof (relation "measure (\<lambda>(b, cp, hlen, rr). nat (hlen - 20))", goal_cases)
  case (2 b cp hlen rr c j x cp' hlen')
  then show ?case using route_loop_shorter [of b 4 "cp + 2" "hlen - 2" "uint j" cp' hlen'] by auto
next
  case (6 b cp hlen rr c i i' x cp' hlen')
  then show ?case using route_loop_shorter [of b 0 "cp + 2" "hlen - 2" i' cp' hlen'] by auto
qed auto

declare ip_options.simps [simp del]

section \<open>A packet\<close>

text \<open>The differences of times are those of a 32 bit long.\<close>

definition triptime :: "dword \<times> dword \<Rightarrow> dword \<times> dword \<Rightarrow> int" where
  "triptime now sent =
     (let usec = int32 (sint (snd now) - sint (snd sent));
          (sec, usec) = (if usec < 0 then (int32 (sint (fst now) - 1), int32 (usec + 1000000)) else (sint (fst now), usec));
          sec = int32 (sec - sint (fst sent))
      in int32 (int32 (sec * 10000) + c_div usec 100))"

text \<open>
  A packet of \<open>cc\<close> bytes at the start of the buffer.  Neither the address it comes from nor its
  data is looked at: they are only printed.
\<close>

definition pr_pack :: "16 word \<Rightarrow> dword \<times> dword \<Rightarrow> nat \<Rightarrow> ping_tool \<Rightarrow> fault + ping_tool" where
  "pr_pack ident tv cc p =
     (let b = pt_buf p; hlen = 4 * unat (b ! 0 AND 15) in
      if cc < 84 then Inr p
      else if b ! hlen \<noteq> 0 then Inr p
      else if rd16 b (hlen + 4) \<noteq> ident then Inr p
      else (let trip = triptime tv (rd32 b (hlen + 8), rd32 b (hlen + 12));
                k = unat (rd16 b (hlen + 6)) mod 1024;
                p = p\<lparr>nreceived := nreceived p + 1, tsum := tsum p + word_of_int trip,
                  tmin := (if trip < tmin p then trip else tmin p), tmax := (if tmax p < trip then trip else tmax p)\<rparr>;
                p = (if TST k p then p\<lparr>nrepeats := nrepeats p + 1, nreceived := nreceived p - 1\<rparr> else SET_bit k p);
                p = p\<lparr>g_bGetStl := True\<rparr>
            in rbind (ip_options b 20 (int hlen) (old_rrlen p, old_rr p)) (\<lambda>(l, r). Inr (p\<lparr>old_rrlen := l, old_rr := r\<rparr>))))"

section \<open>The wait\<close>

text \<open>
  What happens while the tool waits: an alarm (which interrupts the wait), a packet, or a wait that
  ends without one.
\<close>

datatype ping_event = Alarm "dword \<times> dword" | Packet "dword \<times> dword" "byte list" | RecvFailed

definition PACKLEN :: nat where "PACKLEN = 56 + 60 + 76"

text \<open>None: the tool still waits.\<close>

fun recv_loop :: "16 word \<Rightarrow> ping_event list \<Rightarrow> ping_tool \<Rightarrow> (fault + ping_tool) option" where
  "recv_loop ident [] p = None"
| "recv_loop ident (Alarm tv # es) p = recv_loop ident es (if alarm_finish p then p else catcher ident tv p)"
| "recv_loop ident (RecvFailed # es) p = Some (Inr p)"
| "recv_loop ident (Packet tv bs # es) p =
     (case pr_pack ident tv (min PACKLEN (length bs)) (p\<lparr>pt_buf := take PACKLEN bs @ drop (length bs) (pt_buf p)\<rparr>) of
        Inl f \<Rightarrow> Some (Inl f)
      | Inr p \<Rightarrow> if npackets p \<noteq> 0 \<and> npackets p \<le> nreceived p \<or> g_bGetStl p then Some (Inr p) else recv_loop ident es p)"

section \<open>The call\<close>

text \<open>The scan of the source address: four numbers with dots and nothing behind.\<close>

definition scan_u :: "string \<Rightarrow> string option" where
  "scan_u s = (let t = dropWhile is_space s; u = (if t \<noteq> [] \<and> (hd t = CHR ''+'' \<or> hd t = CHR ''-'') then tl t else t)
     in if u = [] \<or> \<not> is_digit (hd u) then None else Some (dropWhile is_digit u))"

fun scan_quad :: "nat \<Rightarrow> string \<Rightarrow> bool" where
  "scan_quad 0 s = False"
| "scan_quad (Suc k) s = (case scan_u s of
       None \<Rightarrow> False
     | Some t \<Rightarrow> if k = 0 then t = [] else t \<noteq> [] \<and> hd t = CHR ''.'' \<and> scan_quad k (tl t))"

text \<open>What the calls at the start give: a socket, the address of the host, memory with what is in it.\<close>

record ping_setup =
  ps_socket :: bool
  ps_host :: bool
  ps_mem :: "byte list option"
  ps_multicast :: bool
  ps_pid :: nat
  ps_time :: "dword \<times> dword"

definition heroute_ping_apiExt :: "ping_setup \<Rightarrow> string \<Rightarrow> int \<Rightarrow> ping_event list \<Rightarrow> ping_tool \<Rightarrow> (fault + int \<times> ping_tool) option" where
  "heroute_ping_apiExt e src count es p =
     (let p = heroute_ping_init p; ident = word_of_nat (ps_pid e) :: 16 word in
      if \<not> ps_socket e then Some (Inr (- 2, p))
      else if \<not> scan_quad 4 src then Some (Inr (- 4, p\<lparr>npackets := count\<rparr>))
      else if \<not> ps_host e then Some (Inr (- 5, p\<lparr>npackets := count\<rparr>))
      else (case ps_mem e of
          None \<Rightarrow> Some (Inr (- 7, p\<lparr>npackets := count\<rparr>))
        | Some m \<Rightarrow>
            if \<not> ps_multicast e then Some (Inr (- 94, p\<lparr>npackets := count\<rparr>))
            else map_option (\<lambda>r. rbind r (\<lambda>p. Inr (if g_bGetStl p then 0 else - 1, p)))
              (recv_loop ident es (catcher ident (ps_time e) (p\<lparr>npackets := count, pt_buf := m\<rparr>)))))"

definition heroute_ping_apiLan :: "ping_setup \<Rightarrow> string \<Rightarrow> int \<Rightarrow> ping_event list \<Rightarrow> ping_tool \<Rightarrow> (fault + int \<times> ping_tool) option" where
  "heroute_ping_apiLan = heroute_ping_apiExt"

definition heroute_ping_apiWan :: "ping_setup \<Rightarrow> string \<Rightarrow> int \<Rightarrow> ping_event list \<Rightarrow> ping_tool \<Rightarrow> (fault + int \<times> ping_tool) option" where
  "heroute_ping_apiWan = heroute_ping_apiExt"

end
