(* ===== verification/PingProps.thy ===== *)
theory PingProps
  imports Ping MonitorProps
begin

text \<open>
  What the ping tool does: the checksum of its requests, when it says that a host answers, and with
  it which leases the watchdog keeps; and a reply that it does not survive.
\<close>

section \<open>The checksum\<close>

lemma cksum_sum_append: "even (length a) \<Longrightarrow> cksum_sum (a @ b) = cksum_sum a + cksum_sum b"
  by (induction a rule: cksum_sum.induct) auto

lemma cksum_sum_bounds: "0 \<le> cksum_sum a" "cksum_sum a \<le> 65535 * ((int (length a) + 1) div 2)"
proof -
  have b: "uint (x :: byte) \<le> 255" for x using uint_lt2p [of x] by simp
  show "0 \<le> cksum_sum a" by (induction a rule: cksum_sum.induct) auto
  show "cksum_sum a \<le> 65535 * ((int (length a) + 1) div 2)"
  proof (induction a rule: cksum_sum.induct)
    case (2 x)
    then show ?case using b [of x] by simp
  next
    case (3 x y bs)
    have "(int (length bs) + 3) div 2 = (int (length bs) + 1) div 2 + 1" by presburger
    with 3 show ?case using b [of x] b [of y] by (simp add: algebra_simps)
  qed simp
qed

lemma cksum_le16: "cksum_sum (le16 w) = uint w"
proof -
  have "uint (ucast w :: byte) = uint w mod 256" by (simp add: unsigned_ucast_eq take_bit_eq_mod)
  moreover have "uint (ucast (drop_bit 8 w) :: byte) = uint w div 256"
  proof -
    have "uint w div 256 < 256" using uint_lt2p [of w] by simp
    moreover have "0 \<le> uint w div 256" by (simp add: pos_imp_zdiv_nonneg_iff)
    ultimately show ?thesis
      by (simp add: unsigned_ucast_eq take_bit_eq_mod unsigned_drop_bit_eq drop_bit_eq_div uint_div_distrib)
  qed
  ultimately show ?thesis by (simp add: le16_def)
qed

text \<open>Folding the carries: the sum modulo 65535, but 65535 for 0, unless the sum itself is 0.\<close>

definition fold16 :: "int \<Rightarrow> int" where
  "fold16 s = (let t = s div 65536 + s mod 65536 in (t + t div 65536) mod 65536)"

lemma in_cksum_fold: "in_cksum bs = NOT (word_of_int (fold16 (cksum_sum bs)))"
proof -
  have "(word_of_int (t mod 65536) :: 16 word) = word_of_int t" for t
    by (rule word_uint_eqI) (simp add: unsigned_of_int take_bit_eq_mod)
  then show ?thesis by (simp add: in_cksum_def fold16_def Let_def)
qed

lemma fold16_range:
  assumes "0 < s" and "s < 2 ^ 32"
  shows "0 < fold16 s" "fold16 s < 65536" "fold16 s mod 65535 = s mod 65535"
proof -
  define a where "a = s div 65536"
  define b where "b = s mod 65536"
  have s: "s = a * 65536 + b" "0 \<le> b" "b < 65536" "0 \<le> a" "a < 65536"
    using assms by (auto simp: a_def b_def)
  have f: "fold16 s = (if a + b < 65536 then a + b else a + b - 65535)"
    using s(2-5) unfolding fold16_def Let_def a_def [symmetric] b_def [symmetric] by (auto simp: div_pos_geq mod_pos_geq)
  have z: "0 < a + b" using assms(1) s by auto
  show "0 < fold16 s" "fold16 s < 65536" unfolding f using z s(2-5) by auto
  have "s = a * 65535 + (a + b)" using s(1) by simp
  then have "s mod 65535 = (a + b) mod 65535" by (metis mod_mult_self3)
  moreover have "(a + b - 65535) mod 65535 = (a + b) mod 65535" by simp
  ultimately show "fold16 s mod 65535 = s mod 65535" unfolding f by simp
qed

lemma mod_65535: "0 < (x :: int) \<Longrightarrow> x < 65536 \<Longrightarrow> x mod 65535 = 0 \<Longrightarrow> x = 65535"
  by (cases "x < 65535") (auto simp: mod_pos_pos_trivial)

text \<open>A checksum put where zeros were makes the whole sum right.\<close>

lemma checksum_verifies:
  assumes "even (length a)" and "length a + 2 + length b < 65536" and "0 < cksum_sum a"
  shows "in_cksum (a @ le16 (in_cksum (a @ le16 0 @ b)) @ b) = 0"
proof -
  let ?s = "cksum_sum (a @ le16 0 @ b)" and ?c = "in_cksum (a @ le16 0 @ b)"
  let ?t = "cksum_sum (a @ le16 ?c @ b)"
  have e: "even (length (le16 w))" for w by (simp add: le16_def)
  have t: "cksum_sum (a @ le16 w @ b) = cksum_sum a + uint w + cksum_sum b" for w
    using assms(1) e by (simp add: cksum_sum_append cksum_le16)
  have s: "0 < ?s" using t [of 0] cksum_sum_bounds(1) [of b] assms(3) by simp
  have half: "65535 * ((int (length c) + 1) div 2) < 2 ^ 31" if "length c < 65536" for c :: "byte list"
  proof -
    have "(int (length c) + 1) div 2 \<le> 32768" using that by simp
    then show ?thesis by simp
  qed
  have len: "length (a @ le16 w @ b) < 65536" for w using assms(2) by (simp add: le16_def)
  have small: "cksum_sum (a @ le16 w @ b) < 2 ^ 31" for w
    using cksum_sum_bounds(2) [of "a @ le16 w @ b"] half [OF len [of w]] by simp
  have c: "uint ?c = 65535 - fold16 ?s"
  proof -
    have r: "0 \<le> fold16 ?s" "fold16 ?s < 65536" using fold16_range [of ?s] s small [of 0] by simp_all
    have "uint (NOT (word_of_int (fold16 ?s) :: 16 word)) = 65535 - uint (word_of_int (fold16 ?s) :: 16 word)"
      by (simp add: unsigned_not_eq take_bit_not_eq_mask_diff mask_eq_exp_minus_1 bintr_uint)
    moreover have "uint (word_of_int (fold16 ?s) :: 16 word) = fold16 ?s"
      using r by (simp add: unsigned_of_int take_bit_eq_mod)
    ultimately show ?thesis by (simp add: in_cksum_fold)
  qed
  have "?t = (?s - fold16 ?s) + 65535" using t [of ?c] t [of 0] c by simp
  moreover have "65535 dvd ?s - fold16 ?s"
    using fold16_range(3) [of ?s] s small [of 0] mod_eq_dvd_iff [of ?s 65535 "fold16 ?s"] by simp
  ultimately have "?t mod 65535 = 0" by simp
  moreover have "0 < ?t" using t [of ?c] cksum_sum_bounds(1) [of b] assms(3) uint_ge_0 [of ?c] by linarith
  moreover have "?t < 2 ^ 32" using small [of ?c] by (rule less_trans) simp
  ultimately have "0 < fold16 ?t" "fold16 ?t < 65536" "fold16 ?t mod 65535 = 0"
    using fold16_range [of ?t] by metis+
  then have "fold16 ?t = 65535" by (rule mod_65535)
  then show ?thesis by (simp add: in_cksum_fold)
qed

section \<open>The request\<close>

lemma length_le [simp]: "length (le16 w) = 2" "length (le32 d) = 4"
  by (simp_all add: le16_def le32_def)

lemma rd16_le16: "rd16 (a @ le16 w @ b) (length a) = w"
proof -
  have "ucast (ucast w :: byte) OR push_bit 8 (ucast (ucast (drop_bit 8 w) :: byte)) = w"
    by (rule bit_word_eqI) (auto simp: bit_simps)
  then show ?thesis by (simp add: rd16_def le16_def nth_append)
qed

lemma echo_parts:
  "echo_bytes c i n tv = [8, 0] @ le16 c @ (le16 i @ le16 n @ le32 (fst tv) @ le32 (snd tv) @ map word_of_nat [8..<56])"
  "length (echo_bytes c i n tv) = 64" "rd16 (echo_bytes c i n tv) 4 = i" "rd16 (echo_bytes c i n tv) 6 = n"
proof -
  let ?r = "le32 (fst tv) @ le32 (snd tv) @ map word_of_nat [8..<56]"
  show "echo_bytes c i n tv = [8, 0] @ le16 c @ (le16 i @ le16 n @ ?r)" by (simp add: echo_bytes_def)
  show "length (echo_bytes c i n tv) = 64" by (simp add: echo_bytes_def)
  show "rd16 (echo_bytes c i n tv) 4 = i" using rd16_le16 [of "[8, 0] @ le16 c" i "le16 n @ ?r"] by (simp add: echo_bytes_def)
  show "rd16 (echo_bytes c i n tv) 6 = n" using rd16_le16 [of "[8, 0] @ le16 c @ le16 i" n ?r] by (simp add: echo_bytes_def)
qed

text \<open>
  Every request the tool sends is an ICMP echo request of 64 bytes with the identifier of the
  process and the number of the request, and its checksum is right: summing the whole packet gives 0.
\<close>

theorem request_checksum:
  "\<exists>b. pt_sent (pinger ident tv p) = pt_sent p @ [b] \<and> length b = 64 \<and> take 2 b = [8, 0] \<and>
    rd16 b 4 = ident \<and> rd16 b 6 = word_of_int (ntransmitted p) \<and> in_cksum b = 0"
proof -
  let ?n = "word_of_int (ntransmitted p) :: 16 word"
  let ?b = "echo_bytes (in_cksum (echo_bytes 0 ident ?n tv)) ident ?n tv"
  have "in_cksum ?b = 0"
    unfolding echo_parts(1) by (rule checksum_verifies) simp_all
  moreover have "pt_sent (pinger ident tv p) = pt_sent p @ [?b]"
    by (simp add: pinger_def CLR_bit_def Let_def)
  moreover have "take 2 ?b = [8, 0]" by (simp add: echo_parts(1))
  ultimately show ?thesis using echo_parts(2-4) by blast
qed

section \<open>Replies\<close>

text \<open>A packet that counts: long enough, an echo reply, with the identifier of the process.\<close>

definition own_reply :: "16 word \<Rightarrow> byte list \<Rightarrow> bool" where
  "own_reply ident bs = (let h = 4 * unat (bs ! 0 AND 15) in 84 \<le> length bs \<and> bs ! h = 0 \<and> rd16 bs (h + 4) = ident)"

text \<open>A packet whose header has no options.\<close>

definition plain_header :: "byte list \<Rightarrow> bool" where
  "plain_header bs = (unat (bs ! 0 AND 15) \<le> 5)"

lemma low_nibble: "unat (x AND 15 :: byte) \<le> 15"
proof -
  have "x AND 15 \<le> (15 :: byte)" by (rule word_and_le1)
  then show ?thesis by (simp add: word_le_nat_alt)
qed

lemma no_options: "hlen \<le> 20 \<Longrightarrow> ip_options b cp hlen rr = Inr rr"
  by (subst ip_options.simps) simp

lemma pr_pack_plain:
  assumes b: "pt_buf p = take PACKLEN bs @ r" and plain: "84 \<le> length bs \<Longrightarrow> plain_header bs"
  shows "\<exists>p'. pr_pack ident tv (min PACKLEN (length bs)) p = Inr p' \<and>
    (g_bGetStl p' \<longleftrightarrow> g_bGetStl p \<or> own_reply ident bs) \<and> (own_reply ident bs \<or> p' = p)"
proof (cases "84 \<le> length bs")
  case False
  then have "min PACKLEN (length bs) < 84" by simp
  then show ?thesis using False by (simp add: pr_pack_def own_reply_def Let_def)
next
  case True
  let ?h = "4 * unat (bs ! 0 AND 15)"
  have n: "pt_buf p ! k = bs ! k" if "k < 84" for k
    using that True by (simp add: b nth_append PACKLEN_def)
  have h: "?h < 84" "?h + 4 < 84" "?h + 4 + 1 < 84" using low_nibble [of "bs ! 0"] by simp_all
  have eq: "pt_buf p ! 0 = bs ! 0" "pt_buf p ! ?h = bs ! ?h" "rd16 (pt_buf p) (?h + 4) = rd16 bs (?h + 4)"
    using n h by (simp_all add: rd16_def)
  have c: "\<not> min PACKLEN (length bs) < 84" using True by (simp add: PACKLEN_def)
  have "?h \<le> 20" using plain [OF True] by (simp only: plain_header_def)
  then have "int ?h \<le> 20" by linarith
  then have o: "ip_options b 20 (int ?h) rr = Inr rr" for b rr by (rule no_options)
  show ?thesis
    using c eq o True by (auto simp: pr_pack_def own_reply_def Let_def SET_bit_def)
qed

section \<open>The result\<close>

definition answered :: "16 word \<Rightarrow> ping_event list \<Rightarrow> bool" where
  "answered ident es = list_ex (\<lambda>e. case e of Packet tv bs \<Rightarrow> own_reply ident bs | _ \<Rightarrow> False)
     (takeWhile (\<lambda>e. e \<noteq> RecvFailed) es)"

definition plain_events :: "ping_event list \<Rightarrow> bool" where
  "plain_events es = list_all (\<lambda>e. case e of Packet tv bs \<Rightarrow> 84 \<le> length bs \<longrightarrow> plain_header bs | _ \<Rightarrow> True) es"

lemma catcher_keeps [simp]:
  "g_bGetStl (catcher i tv p) = g_bGetStl p" "nreceived (catcher i tv p) = nreceived p" "npackets (catcher i tv p) = npackets p"
  by (simp_all add: catcher_def pinger_def CLR_bit_def Let_def)

lemma answered_simps:
  "answered i (Packet tv bs # es) \<longleftrightarrow> own_reply i bs \<or> answered i es" "answered i (Alarm tv # es) \<longleftrightarrow> answered i es"
  "\<not> answered i []" "\<not> answered i (RecvFailed # es)"
  by (simp_all add: answered_def)

text \<open>The outcome of a wait that fits its events.\<close>

definition fitting :: "16 word \<Rightarrow> ping_event list \<Rightarrow> (fault + ping_tool) option \<Rightarrow> bool" where
  "fitting ident es r = (case r of
      None \<Rightarrow> \<not> answered ident es \<and> RecvFailed \<notin> set es
    | Some (Inl f) \<Rightarrow> False
    | Some (Inr q) \<Rightarrow> (g_bGetStl q \<longleftrightarrow> answered ident es) \<and> (answered ident es \<or> RecvFailed \<in> set es))"

lemma fitting_next:
  "\<not> own_reply ident bs \<Longrightarrow> fitting ident (Packet tv bs # es) r = fitting ident es r"
  "fitting ident (Alarm tv # es) r = fitting ident es r"
  by (simp_all add: fitting_def answered_simps split: option.split sum.split)

lemma recv_hears:
  assumes "plain_events es" and "\<not> g_bGetStl p" and "nreceived p < npackets p"
  shows "fitting ident es (recv_loop ident es p)"
  using assms
proof (induction ident es p rule: recv_loop.induct)
  case (1 ident p)
  then show ?case by (simp add: fitting_def answered_simps)
next
  case (2 ident tv es p)
  have "fitting ident es (recv_loop ident es (if alarm_finish p then p else catcher ident tv p))"
    by (rule 2) (use 2 in \<open>simp_all add: plain_events_def\<close>)
  then show ?case by (simp only: recv_loop.simps fitting_next)
next
  case (3 ident es p)
  then show ?case by (simp add: fitting_def answered_simps)
next
  case (4 ident tv bs es p)
  let ?p = "p\<lparr>pt_buf := take PACKLEN bs @ drop (length bs) (pt_buf p)\<rparr>"
  have "84 \<le> length bs \<Longrightarrow> plain_header bs" and es: "plain_events es" using 4 by (simp_all add: plain_events_def)
  then obtain q where q: "pr_pack ident tv (min PACKLEN (length bs)) ?p = Inr q"
    "g_bGetStl q \<longleftrightarrow> own_reply ident bs" "own_reply ident bs \<or> q = ?p"
    using pr_pack_plain [of ?p bs _ ident tv] 4 by auto
  show ?case
  proof (cases "own_reply ident bs")
    case True
    then show ?thesis using q by (simp add: fitting_def answered_simps)
  next
    case False
    then have e: "q = ?p" using q by blast
    have c: "\<not> (npackets q \<noteq> 0 \<and> npackets q \<le> nreceived q \<or> g_bGetStl q)" using 4 e by simp
    have "fitting ident es (recv_loop ident es q)" by (rule 4(1) [OF q(1) c es]) (use 4 e in simp_all)
    then show ?thesis using q(1) c by (auto simp: fitting_next(1) [OF False])
  qed
qed

text \<open>The calls at the start succeed.\<close>

definition ping_usable :: "ping_setup \<Rightarrow> string \<Rightarrow> bool" where
  "ping_usable e src = (ps_socket e \<and> scan_quad 4 src \<and> ps_host e \<and> ps_mem e \<noteq> None \<and> ps_multicast e)"

lemma ping_result:
  assumes "ping_usable e src" and "0 < count" and "plain_events es"
  shows "case heroute_ping_apiExt e src count es p of
      None \<Rightarrow> \<not> answered (word_of_nat (ps_pid e)) es \<and> RecvFailed \<notin> set es
    | Some (Inl f) \<Rightarrow> False
    | Some (Inr (ret, q)) \<Rightarrow>
        if answered (word_of_nat (ps_pid e)) es then ret = 0 else ret = - 1 \<and> RecvFailed \<in> set es"
proof -
  let ?i = "word_of_nat (ps_pid e) :: 16 word"
  obtain m where m: "ps_mem e = Some m" using assms(1) by (auto simp: ping_usable_def)
  define q where "q = catcher ?i (ps_time e) ((heroute_ping_init p)\<lparr>npackets := count, pt_buf := m\<rparr>)"
  have "\<not> g_bGetStl q" "nreceived q < npackets q"
    using assms(2) by (simp_all add: q_def heroute_ping_init_def)
  from recv_hears [OF assms(3) this, of ?i] show ?thesis
    using assms(1)
    by (auto simp: heroute_ping_apiExt_def ping_usable_def m Let_def q_def fitting_def split: option.splits sum.splits)
qed


text \<open>A host that answers as ICMP has it is heard: it sends the request back with type 0.\<close>

lemma answer_heard:
  assumes "pt_sent (pinger ident tv p) = pt_sent p @ [b]" and "length hdr = 20" and "hdr ! 0 AND 15 = 5"
  shows "own_reply ident (hdr @ 0 # tl b) \<and> plain_header (hdr @ 0 # tl b)"
proof -
  obtain b' where b': "pt_sent (pinger ident tv p) = pt_sent p @ [b']" "length b' = 64" "rd16 b' 4 = ident"
    using request_checksum by blast
  then have b: "length b = 64" "rd16 b 4 = ident" using assms(1) by simp_all
  have "(hdr @ 0 # tl b) ! (20 + k) = (0 # tl b) ! k" for k using assms(2) by (simp add: nth_append)
  from this [of 0] this [of 4] this [of 5] have "(hdr @ 0 # tl b) ! 20 = 0" "rd16 (hdr @ 0 # tl b) 24 = rd16 b 4"
    using b(1) by (cases b; simp add: rd16_def)+
  moreover have "(hdr @ 0 # tl b) ! 0 = hdr ! 0" using assms(2) by (simp add: nth_append)
  ultimately show ?thesis using assms(2,3) b by (simp add: own_reply_def plain_header_def Let_def)
qed

definition sample_setup :: ping_setup where
  "sample_setup = \<lparr>ps_socket = True, ps_host = True, ps_mem = Some (replicate 192 0), ps_multicast = True, ps_pid = 1234,
     ps_time = (5, 7)\<rparr>"

definition fresh_ping :: ping_tool where
  "fresh_ping = \<lparr>npackets = 0, nreceived = 0, nrepeats = 0, ntransmitted = 0, tmin = 0, tmax = 0, tsum = 0, g_bGetStl = False,
     rcvd_tbl = replicate 128 0, old_rrlen = 0, old_rr = replicate 40 0, pt_buf = [], pt_sent = [], alarm_finish = False, pt_alarm = 0\<rparr>"

definition sample_reply :: "byte list" where
  "sample_reply = (0x45 # replicate 19 0) @ 0 # tl (hd (pt_sent (pinger 1234 (5, 7) fresh_ping)))"

lemma sample_heard: "own_reply 1234 sample_reply \<and> plain_header sample_reply"
proof -
  obtain b where b: "pt_sent (pinger 1234 (5, 7) fresh_ping) = pt_sent fresh_ping @ [b]" using request_checksum by blast
  then have "sample_reply = (0x45 # replicate 19 0) @ 0 # tl b" by (simp add: sample_reply_def fresh_ping_def)
  then show ?thesis using answer_heard [OF b, of "0x45 # replicate 19 0"] by simp
qed

lemma sample_usable: "ping_usable sample_setup ''192.168.1.1''" "(word_of_nat (ps_pid sample_setup) :: 16 word) = 1234"
proof -
  have "scan_quad 4 ''192.168.1.1''" by code_simp
  then show "ping_usable sample_setup ''192.168.1.1''" by (simp add: ping_usable_def sample_setup_def)
qed (simp add: sample_setup_def)


section \<open>The alarm behind a call\<close>

lemma pr_pack_alarm:
  assumes "pr_pack ident tv cc p = Inr q"
  shows "pt_alarm q = pt_alarm p" and "alarm_finish q = alarm_finish p"
  using assms by (auto simp: pr_pack_def Let_def SET_bit_def rbind_eq_Inr split: if_splits)

text \<open>
  A host that answers the first of several requests: the call returns 0 with the alarm for the next request
  still set, one second ahead, so that \<open>catcher\<close> sends it on the closed descriptor.
\<close>

theorem alarm_outlives_call:
  assumes "ping_usable e src" and "1 < count" and "own_reply (word_of_nat (ps_pid e)) bs" and "plain_header bs"
  shows "\<exists>q. heroute_ping_apiExt e src count (Packet tv bs # es) p = Some (Inr (0, q)) \<and> pt_alarm q = 1 \<and> \<not> alarm_finish q"
proof -
  let ?i = "word_of_nat (ps_pid e) :: 16 word"
  obtain m where m: "ps_mem e = Some m" using assms(1) by (auto simp: ping_usable_def)
  define p1 where "p1 = catcher ?i (ps_time e) ((heroute_ping_init p)\<lparr>npackets := count, pt_buf := m\<rparr>)"
  have a: "pt_alarm p1 = 1" "\<not> alarm_finish p1"
    using assms(2) by (simp_all add: p1_def catcher_def pinger_def CLR_bit_def heroute_ping_init_def Let_def)
  define p2 where "p2 = p1\<lparr>pt_buf := take PACKLEN bs @ drop (length bs) (pt_buf p1)\<rparr>"
  obtain q where q: "pr_pack ?i tv (min PACKLEN (length bs)) p2 = Inr q" "g_bGetStl q"
    using pr_pack_plain [of p2 bs _ ?i tv] assms(3,4) by (auto simp: p2_def)
  have "recv_loop ?i (Packet tv bs # es) p1 = Some (Inr q)"
    using q by (simp add: p2_def)
  then show ?thesis
    using assms(1) q a pr_pack_alarm [OF q(1)]
    by (auto simp: heroute_ping_apiExt_def ping_usable_def m Let_def p1_def p2_def)
qed

theorem alarm_outlives_call_witness:
  "\<exists>q. heroute_ping_apiExt sample_setup ''192.168.1.1'' 3 [Packet (6, 9) sample_reply] fresh_ping = Some (Inr (0, q)) \<and>
    pt_alarm q = 1 \<and> \<not> alarm_finish q"
  using alarm_outlives_call [OF sample_usable(1), of 3 sample_reply "(6, 9)" "[]" fresh_ping] sample_heard
  unfolding sample_usable(2) by simp

section \<open>Leases\<close>

definition lan_reached :: "ping_setup \<times> ping_event list \<Rightarrow> string \<Rightarrow> ping_tool \<Rightarrow> bool" where
  "lan_reached f src p = (case heroute_ping_apiLan (fst f) src 3 (snd f) p of Some (Inr (ret, q)) \<Rightarrow> ret = 0 | _ \<Rightarrow> False)"

lemma lan_reached_answered:
  assumes "ping_usable (fst f) src" and "plain_events (snd f)"
  shows "lan_reached f src p \<longleftrightarrow> answered (word_of_nat (ps_pid (fst f))) (snd f)"
proof -
  have h: "case heroute_ping_apiExt (fst f) src 3 (snd f) p of
      None \<Rightarrow> \<not> answered (word_of_nat (ps_pid (fst f))) (snd f) \<and> RecvFailed \<notin> set (snd f)
    | Some (Inl f) \<Rightarrow> False
    | Some (Inr (ret, q)) \<Rightarrow>
        if answered (word_of_nat (ps_pid (fst f))) (snd f) then ret = 0 else ret = - 1 \<and> RecvFailed \<in> set (snd f)"
    by (rule ping_result) (use assms in simp_all)
  then show ?thesis by (auto simp: lan_reached_def heroute_ping_apiLan_def split: option.splits sum.splits if_splits)
qed


text \<open>Two wired clients, of which the first answers.\<close>

definition sample_hosts :: "dword \<Rightarrow> ping_setup \<times> ping_event list" where
  "sample_hosts a = (sample_setup, if a = 1 then [Packet (6, 9) sample_reply] else [RecvFailed])"

definition lease_env :: ping_env where
  "lease_env = connected_env\<lparr>lease_readable := True, lease_writable := True,
     lan_ping := (\<lambda>ip. lan_reached (sample_hosts ip) ''192.168.1.1'' fresh_ping)\<rparr>"

definition sample_lease :: "dword \<Rightarrow> DHCPITEM" where
  "sample_lease a = \<lparr>dh_hostname = [], dh_mac = [1, 2, 3, 4, 5, 6], dh_ip = a, dh_expires = 0, dh_nReachable = 0\<rparr>"


section \<open>A reply with options\<close>

lemma skip_option:
  assumes "20 < hlen" and "cp < length b" and "b ! cp \<notin> {0, 7, 131}"
  shows "ip_options b cp hlen rr = ip_options b (cp + 1) (hlen - 1) rr"
  using assms by (subst ip_options.simps) (simp add: rdb_def)

lemma long_route:
  assumes "20 < hlen" and "20 < cp" and "cp + 2 < length b" and "b ! cp = 7" and "b ! (cp + 1) = 255" and "b ! (cp + 2) = 255"
  shows "ip_options b cp hlen rr = Inl WriteOverflow"
  using assms by (subst ip_options.simps) (simp add: rdb_def Let_def)

text \<open>
  A reply whose header has a time stamp option (68) of eight bytes is enough: its data is read as options,
  so that a 7 in it starts a recorded route of any length, which is copied over the end of old_rr[40].
\<close>

theorem timestamp_overflows:
  assumes "own_reply ident bs" and "bs ! 0 AND 15 = 7" and "take 8 (drop 20 bs) = [68, 8, 9, 17, 7, 255, 255, 0]"
  shows "recv_loop ident (Packet tv bs # es) p = Some (Inl WriteOverflow)"
proof -
  let ?b = "take PACKLEN bs @ drop (length bs) (pt_buf p)"
  have l: "84 \<le> length bs" using assms(1) by (simp add: own_reply_def Let_def)
  have n: "?b ! k = bs ! k" if "k < 84" for k using that l by (simp add: nth_append PACKLEN_def)
  have t: "bs ! (20 + k) = [68, 8, 9, 17, 7, 255, 255, 0] ! k" if "k < 8" for k
    using arg_cong [OF assms(3), of "\<lambda>x. x ! k"] that l by simp
  have b: "?b ! 20 = 68" "?b ! 21 = 8" "?b ! 22 = 9" "?b ! 23 = 17" "?b ! 24 = 7" "?b ! 25 = 255" "?b ! 26 = 255"
    using t [of 0] t [of 1] t [of 2] t [of 3] t [of 4] t [of 5] t [of 6] by (simp_all add: n)
  have m: "84 \<le> length ?b" using l by (simp add: PACKLEN_def)
  have walk: "ip_options ?b 20 28 rr = Inl WriteOverflow" for rr
  proof -
    have "ip_options ?b 20 28 rr = ip_options ?b 24 24 rr"
      using b m skip_option [of 28 20 ?b rr] skip_option [of 27 21 ?b rr] skip_option [of 26 22 ?b rr] skip_option [of 25 23 ?b rr]
      by simp
    then show ?thesis using long_route [of 24 24 ?b rr] b m by simp
  qed
  have h: "4 * unat (bs ! 0 AND 15) = 28" using assms(2) by simp
  have "?b ! 28 = 0" "rd16 ?b 32 = ident" "?b ! 0 = bs ! 0"
    using assms(1) h by (simp_all add: own_reply_def Let_def n rd16_def)
  moreover have "\<not> min PACKLEN (length bs) < 84" using l by (simp add: PACKLEN_def)
  ultimately have "pr_pack ident tv (min PACKLEN (length bs)) (p\<lparr>pt_buf := ?b\<rparr>) = Inl WriteOverflow"
    using h walk by (simp add: pr_pack_def Let_def)
  then show ?thesis by simp
qed

definition stamped_reply :: "byte list" where
  "stamped_reply = (0x47 # replicate 19 0) @ [68, 8, 9, 17, 7, 255, 255, 0] @ 0 # tl (echo_bytes 0 1234 0 (5, 7))"

theorem timestamp_overflows_witness:
  "recv_loop 1234 [Packet (6, 9) stamped_reply] fresh_ping = Some (Inl WriteOverflow)"
proof -
  have "(stamped_reply ! 28 = 0 \<and> rd16 stamped_reply 32 = 1234) \<and> stamped_reply ! 0 = 0x47"
    by code_simp
  then have "own_reply 1234 stamped_reply" "stamped_reply ! 0 AND 15 = 7"
    by (simp_all add: own_reply_def Let_def) (simp add: stamped_reply_def echo_bytes_def)
  then show ?thesis by (rule timestamp_overflows) (simp add: stamped_reply_def)
qed

end
