(* ===== verification/AccessRules.thy ===== *)
theory AccessRules
  imports DeviceText
begin

text \<open>
  The rules for the clients' access to the internet (goahead/src/heroute_util.c): their text in the
  setting InternetRules, the change of one rule by the phone application, the table of rules of the
  web server, and the pass that turns them into entries of the firewall.
\<close>

definition MAX_ACCESS_RULES_SIZE :: nat where "MAX_ACCESS_RULES_SIZE = 1536"
definition MAX_ACCESS_RULES_NUMBER :: nat where "MAX_ACCESS_RULES_NUMBER = 32"

section \<open>sscanf\<close>

text \<open>
  The conversions %ns and %1d, and literal characters; what has been read when a conversion fails
  is kept.
\<close>

datatype conv = Word nat | Digit | Lit char
datatype scanned = Txt string | Num int

fun scanf :: "conv list \<Rightarrow> string \<Rightarrow> scanned list" where
  "scanf [] s = []"
| "scanf (Word n # cs) s = (let s = dropWhile is_space s; w = takeWhile (\<lambda>c. \<not> is_space c) (take n s)
     in if w = [] then [] else Txt w # scanf cs (drop (length w) s))"
| "scanf (Digit # cs) s = (case dropWhile is_space s of [] \<Rightarrow> []
     | d # t \<Rightarrow> if is_digit d then Num (int (digit_val d)) # scanf cs t else [])"
| "scanf (Lit c # cs) s = (case s of [] \<Rightarrow> [] | d # t \<Rightarrow> if d = c then scanf cs t else [])"

section \<open>The text of the rules\<close>

text \<open>The number of occurrences of a tag; rules separated by ";" are one more.\<close>

fun count_from :: "string \<Rightarrow> string \<Rightarrow> nat" where
  "count_from tag [] = 0"
| "count_from tag (c # cs) = (if take (length tag) (c # cs) = tag then 1 else 0) + count_from tag cs"

definition countSubString :: "string \<Rightarrow> string \<Rightarrow> nat" where
  "countSubString src tag = (if src = [] then 0 else count_from tag src + (if tag = '';'' then 1 else 0))"

text \<open>
  What nvram_get prints, read into an array of n bytes.  A text that fills the array is not ended
  by NUL.
\<close>

definition hertUtil_GetNvram_Values :: "string \<Rightarrow> nat \<Rightarrow> fault + string" where
  "hertUtil_GetNvram_Values out n = (if n \<le> length out then Inl ReadOverrun else Inr (remove_crln out))"

text \<open>
  isValidRules: \<open>k\<close> characters are left in front of the first comma.  The pointer moves on by one
  character for each dash it finds ahead.  0: not a rule, 1: one period, 2: two periods.
\<close>

fun valid_loop :: "nat \<Rightarrow> string \<Rightarrow> nat \<Rightarrow> nat \<Rightarrow> nat" where
  "valid_loop 0 p ret flagNum = ret"
| "valid_loop (Suc k) p ret flagNum =
     (if CHR ''-'' \<in> set p \<and> hd p \<noteq> CHR ''-'' then
        (if ret = 0 \<and> flagNum + 1 = 4 then 1
         else if ret = 1 \<and> flagNum + 1 = 6 then 2
         else valid_loop k (tl p) ret (flagNum + 1))
      else 0)"

definition isValidRules :: "string \<Rightarrow> nat" where
  "isValidRules rules =
     valid_loop (case strchr (CHR '','') rules of None \<Rightarrow> 0 | Some t \<Rightarrow> length rules - length t) rules
       (if CHR ''&'' \<in> set rules then 1 else 0) 0"

text \<open>The fields of a rule, in the variables of the caller.\<close>

record rule_vars =
  v_mac :: string
  v_acc :: int
  v_lim :: int
  v_start :: string
  v_end :: string

fun set_vars :: "rule_vars \<Rightarrow> scanned list \<Rightarrow> rule_vars" where
  "set_vars v (Txt m # r) = (let v = v\<lparr>v_mac := m\<rparr> in
     (case r of Num a # r \<Rightarrow> (let v = v\<lparr>v_acc := a\<rparr> in
       (case r of Txt s # r \<Rightarrow> (let v = v\<lparr>v_start := s\<rparr> in
         (case r of Txt e # r \<Rightarrow> (let v = v\<lparr>v_end := e\<rparr> in
           (case r of Num l # r \<Rightarrow> v\<lparr>v_lim := l\<rparr> | _ \<Rightarrow> v)) | _ \<Rightarrow> v)) | _ \<Rightarrow> v)) | _ \<Rightarrow> v))"
| "set_vars v _ = v"

text \<open>The fields of a rule with two periods: the second one is appended behind a comma.\<close>

definition one_period :: "conv list" where
  "one_period = [Word 17, Lit CHR ''-'', Digit, Lit CHR ''-'', Word 5, Lit CHR ''-'', Word 5, Lit CHR ''-'', Digit]"

definition two_periods :: "conv list" where
  "two_periods = [Word 17, Lit CHR ''-'', Digit, Lit CHR ''-'', Word 5, Lit CHR ''-'', Word 5, Lit CHR ''&'',
     Word 5, Lit CHR ''-'', Word 5, Lit CHR ''-'', Digit]"

definition second_period :: "scanned list \<Rightarrow> string \<times> string" where
  "second_period r = (case drop 4 r of Txt s # Txt e # _ \<Rightarrow> (s, e) | Txt s # _ \<Rightarrow> (s, []) | _ \<Rightarrow> ([], []))"

definition without_second :: "scanned list \<Rightarrow> scanned list" where
  "without_second r = take 4 r @ drop 6 r"

text \<open>
  hertParse_internetRules cuts the text behind its first comma.  None: not a rule; the second
  component is the text that is left.
\<close>

definition hertParse_internetRules :: "string \<Rightarrow> rule_vars \<Rightarrow> rule_vars option \<times> string" where
  "hertParse_internetRules interRules v = (case strchr (CHR '','') interRules of
       None \<Rightarrow> (None, interRules)
     | Some t \<Rightarrow>
         (let rule = take (length interRules - length t + 1) interRules;
              n = isValidRules rule
          in if n = 0 then (None, rule)
             else if n - 1 = 1 then
               (let r = scanf two_periods rule; (s2, e2) = second_period r; v = set_vars v (without_second r)
                in (Some (v\<lparr>v_start := v_start v @ '','' @ s2, v_end := v_end v @ '','' @ e2\<rparr>), rule))
             else (Some (set_vars v (scanf one_period rule)), rule)))"

section \<open>Setting a rule\<close>

record period =
  startTime :: string
  endTime :: string

record terminal_body =
  devMac :: string
  accessControl :: dword
  netLimit :: dword
  netTime :: "period list"

definition rule_line :: "terminal_body \<Rightarrow> string" where
  "rule_line b = devMac b @ ''-'' @ show_int (sint (accessControl b)) @ ''-'' @
     (case netTime b of
        [p, q] \<Rightarrow> startTime p @ ''-'' @ endTime p @ ''&'' @ startTime q @ ''-'' @ endTime q
      | p # _ \<Rightarrow> startTime p @ ''-'' @ endTime p
      | [] \<Rightarrow> []) @ ''-'' @ show_int (sint (netLimit b)) @ '',''"

text \<open>The rule of the device is taken out; a single rule is taken for it.\<close>

definition remove_old :: "string \<Rightarrow> string \<Rightarrow> string" where
  "remove_old mac rules = (case strstr rules mac of
       None \<Rightarrow> rules
     | Some t \<Rightarrow> if countSubString rules '','' = 0 then rules
         else if countSubString rules '','' = 1 then []
         else (case strchr (CHR '','') t of
             None \<Rightarrow> rules
           | Some u \<Rightarrow> take (length rules - length t) rules @ tl u))"

text \<open>
  The loop that takes rules off the end: \<open>e\<close> is the place of the last character.  The text between
  two commas goes into oldRule[64].
\<close>

definition none_vars :: rule_vars where
  "none_vars = \<lparr>v_mac = [], v_acc = 0, v_lim = 0, v_start = [], v_end = []\<rparr>"

definition last_index :: "char \<Rightarrow> string \<Rightarrow> nat option" where
  "last_index c s = (if c \<in> set s then Some (length s - 1 - length (takeWhile (\<lambda>d. d \<noteq> c) (rev s))) else None)"

function evict :: "nat \<Rightarrow> nat \<Rightarrow> string \<Rightarrow> nat \<Rightarrow> string \<Rightarrow> string list \<Rightarrow> fault + string \<times> string list" where
  "evict new num rules e tmp cmds =
     (if e + new > MAX_ACCESS_RULES_SIZE \<or> MAX_ACCESS_RULES_NUMBER \<le> num then
        (case last_index (CHR '','') (take e rules) of
           None \<Rightarrow> Inl ReadOverrun
         | Some k \<Rightarrow>
             (let tmp = take (k + 1) rules;
                  old = take (e - k) (drop (k + 1) rules);
                  cmds = (case fst (hertParse_internetRules old none_vars) of
                      None \<Rightarrow> cmds
                    | Some v \<Rightarrow> cmds @ [''set_iptables.sh deleteDropRule '' @ v_mac v])
              in if 64 \<le> length old then Inl WriteOverflow
                 else evict new (countSubString tmp '','') rules k tmp cmds))
      else Inr (tmp, cmds))"
  by pat_completeness auto
termination
proof (relation "measure (\<lambda>(new, num, rules, e, tmp, cmds). e)", goal_cases)
  case 1
  then show ?case by simp
next
  case (2 new num rules e tmp cmds k)
  then have "CHR '','' \<in> set (take e rules)" "k \<le> length (take e rules) - 1"
    by (auto simp: last_index_def split: if_splits)
  then show ?case by (cases e) auto
qed

declare evict.simps [simp del]

text \<open>
  The new text of InternetRules, and the commands for the firewall.  The time texts are copied into
  32 chars when there are two periods.
\<close>

definition time_fits :: "terminal_body \<Rightarrow> bool" where
  "time_fits b = (length (netTime b) = 2 \<longrightarrow> list_all (\<lambda>p. length (startTime p) < 32 \<and> length (endTime p) < 32) (netTime b))"

definition new_access_rules :: "string \<Rightarrow> terminal_body \<Rightarrow> fault + string \<times> string list" where
  "new_access_rules out b =
     rbind (hertUtil_GetNvram_Values out MAX_ACCESS_RULES_SIZE) (\<lambda>rules.
       if netTime b = [] then Inl NullDeref
       else if \<not> time_fits b then Inl WriteOverflow
       else (let newRule = take 62 (rule_line b);
                 rules = remove_old (devMac b) rules;
                 num = countSubString rules '',''
             in rbind (if MAX_ACCESS_RULES_NUMBER \<le> num \<or> MAX_ACCESS_RULES_SIZE < length newRule + length rules
                   then evict (length newRule) num rules (length rules - 1) [] []
                   else Inr ([], [])) (\<lambda>(tmp, cmds).
               (let res = newRule @ (if tmp = [] then rules else tmp) in
                if MAX_ACCESS_RULES_SIZE \<le> length res then Inl WriteOverflow else Inr (res, cmds)))))"

section \<open>The table of rules\<close>

text \<open>Rules that are not valid leave their place empty; a text of 64 characters has no room for its end.\<close>

fun split_rules :: "nat \<Rightarrow> string \<Rightarrow> fault + string list" where
  "split_rules 0 p = Inr []"
| "split_rules (Suc n) p = (case strchr (CHR '','') p of
       None \<Rightarrow> Inr []
     | Some t \<Rightarrow>
         (let cur = take (length p - length t + 1) p in
          if 64 \<le> length cur then Inl WriteOverflow
          else rbind (split_rules n (tl t)) (\<lambda>rs. Inr ((if isValidRules cur = 0 then [] else cur) # rs))))"

definition updateArryRules :: "string \<Rightarrow> string list \<Rightarrow> fault + string list" where
  "updateArryRules out arr = rbind (hertUtil_GetNvram_Values out MAX_ACCESS_RULES_SIZE) (\<lambda>rules.
     if CHR '','' \<notin> set rules then Inr arr
     else rbind (split_rules (min (countSubString rules '','') 32) rules) (\<lambda>rs.
       Inr (rs @ replicate (32 - length rs) [])))"

text \<open>
  The whole of setting a rule: the text that is stored, the commands, and the table read from what
  nvram_get prints now.
\<close>

definition hertUtil_updateAccessRulesInNvram ::
    "string \<Rightarrow> terminal_body \<Rightarrow> string list \<Rightarrow> fault + string \<times> string list \<times> string list" where
  "hertUtil_updateAccessRulesInNvram out b arr = rbind (new_access_rules out b) (\<lambda>(rules, cmds).
     rbind (updateArryRules (rules @ [CHR 0x0A]) arr) (\<lambda>arr. Inr (rules, cmds, arr)))"

section \<open>The firewall\<close>

text \<open>The addresses of the DROP entries that iptables lists, at most fifty.\<close>

definition drop_mac :: "string \<Rightarrow> string option" where
  "drop_mac l = (if strstr l ''DROP'' = None then None
     else (case strstr l ''MAC'' of None \<Rightarrow> None | Some t \<Rightarrow> Some (take 17 (drop 4 t))))"

definition drop_list :: "string \<Rightarrow> string list" where
  "drop_list s = take 50 (List.map_filter drop_mac (fgets_lines 128 s))"

text \<open>hh:mm as minutes; 0 without a colon.\<close>

definition minutes_of :: "string \<Rightarrow> int" where
  "minutes_of s = (case strchr (CHR '':'') s of None \<Rightarrow> 0
     | Some t \<Rightarrow> atoi (take (length s - length t) s) * 60 + atoi (tl t))"

text \<open>A text with a comma holds two times.\<close>

definition times_of :: "string \<Rightarrow> int \<times> int" where
  "times_of s = (case strchr (CHR '','') s of None \<Rightarrow> (minutes_of s, 0)
     | Some t \<Rightarrow> (minutes_of (take (length s - length t) s), minutes_of (tl t)))"

definition in_period :: "int \<Rightarrow> rule_vars \<Rightarrow> bool" where
  "in_period now v = (let (s1, s2) = times_of (v_start v); (e1, e2) = times_of (v_end v)
     in s1 \<le> now \<and> now < e1 \<or> s2 \<le> now \<and> now < e2)"

text \<open>
  One rule: the command it needs.  The variables for access and limit keep their values from the
  rule before.
\<close>

definition rule_command :: "int \<Rightarrow> string list \<Rightarrow> rule_vars \<Rightarrow> string list" where
  "rule_command now dropped v =
     (let set = v_mac v \<in> set dropped in
      if v_acc v = 1 \<and> in_period now v then
        (if set then [''set_iptables.sh deleteDropRule '' @ v_mac v] else [])
      else (if set then [] else [''set_iptables.sh addDropRule '' @ v_mac v]))"

fun rule_commands :: "int \<Rightarrow> string list \<Rightarrow> int \<Rightarrow> int \<Rightarrow> string list \<Rightarrow> string list" where
  "rule_commands now dropped acc lim [] = []"
| "rule_commands now dropped acc lim (r # rs) =
     (if r = [] then []
      else (case fst (hertParse_internetRules r \<lparr>v_mac = [], v_acc = acc, v_lim = lim, v_start = [], v_end = []\<rparr>) of
          None \<Rightarrow> rule_commands now dropped acc lim rs
        | Some v \<Rightarrow> rule_command now dropped v @ rule_commands now dropped (v_acc v) (v_lim v) rs))"

text \<open>\<open>ipt\<close>: what iptables -L FORWARD prints, None when the file cannot be opened; \<open>now\<close> in minutes.\<close>

definition herUtil_updateInterRules :: "string \<Rightarrow> string option \<Rightarrow> int \<Rightarrow> string list \<Rightarrow> fault + string list \<times> string list" where
  "herUtil_updateInterRules out ipt now arr =
     rbind (if hd arr = [] then updateArryRules out arr else Inr arr) (\<lambda>arr.
       Inr (case ipt of None \<Rightarrow> [] | Some s \<Rightarrow> rule_commands now (drop_list s) 0 0 (take 32 arr), arr))"

end
