(* ===== verification/AccessProps.thy ===== *)
theory AccessProps
  imports AccessRules
begin

text \<open>
  The rules as data: what the text of the rules stands for, that setting a rule changes exactly
  that, and that the firewall follows it.
\<close>

section \<open>Searching text made of words\<close>

lemma strstr_append_sep:
  assumes "c \<notin> set p" and "p \<noteq> []"
  shows "strstr (a @ c # b) p = (case strstr a p of Some t \<Rightarrow> Some (t @ c # b) | None \<Rightarrow> strstr b p)"
proof (induction a)
  case Nil
  have "take (length p) (c # b) \<noteq> p" using assms by (cases p) auto
  then show ?case using assms(2) by simp
next
  case (Cons x a)
  have "take (length p) ((x # a) @ c # b) = p \<longleftrightarrow> take (length p) (x # a) = p"
  proof (cases "length p \<le> length (x # a)")
    case True
    then show ?thesis by (simp only: take_append) simp
  next
    case False
    then obtain k where k: "length p - length (x # a) = Suc k" by (cases "length p - length (x # a)") auto
    have "c \<in> set (take (length p) ((x # a) @ c # b))" unfolding take_append k by simp
    then have "take (length p) ((x # a) @ c # b) \<noteq> p" using assms(1) by metis
    moreover have "length (take (length p) (x # a)) \<noteq> length p" using False by simp
    then have "take (length p) (x # a) \<noteq> p" by metis
    ultimately show ?thesis by blast
  qed
  then show ?case using Cons by simp
qed

lemma strstr_short: "length a < length p \<Longrightarrow> strstr a p = None"
proof (rule ccontr)
  assume "length a < length p" and "strstr a p \<noteq> None"
  then obtain t u v where "a = u @ p @ v" by (metis not_None_eq strstr_SomeD)
  then show False using \<open>length a < length p\<close> by simp
qed

lemma strstr_same_length:
  assumes "length a = length p" and "p \<noteq> []"
  shows "strstr a p = (if a = p then Some a else None)"
proof (cases a)
  case Nil
  then show ?thesis using assms by simp
next
  case (Cons x xs)
  then have "strstr xs p = None" using assms by (intro strstr_short) simp
  then show ?thesis using Cons assms by (simp add: take_all)
qed

section \<open>Well formed rules\<close>

definition plain :: "char \<Rightarrow> bool" where
  "plain c = (\<not> is_space c \<and> c \<noteq> CHR ''-'' \<and> c \<noteq> CHR '','' \<and> c \<noteq> CHR ''&'')"

text \<open>hh:mm, and its minutes.\<close>

definition time_ok :: "string \<Rightarrow> bool" where
  "time_ok t = (length t = 5 \<and> is_digit (t ! 0) \<and> is_digit (t ! 1) \<and> t ! 2 = CHR '':'' \<and> is_digit (t ! 3) \<and> is_digit (t ! 4))"

definition clock :: "string \<Rightarrow> int" where
  "clock t = 60 * (10 * int (digit_val (t ! 0)) + int (digit_val (t ! 1))) +
     10 * int (digit_val (t ! 3)) + int (digit_val (t ! 4))"

definition period_ok :: "period \<Rightarrow> bool" where
  "period_ok p = (time_ok (startTime p) \<and> time_ok (endTime p))"

definition rule_ok :: "terminal_body \<Rightarrow> bool" where
  "rule_ok b = (length (devMac b) = 17 \<and> list_all plain (devMac b) \<and> unat (accessControl b) < 10 \<and>
     unat (netLimit b) < 10 \<and> (length (netTime b) = 1 \<or> length (netTime b) = 2) \<and> list_all period_ok (netTime b))"

definition rules_text :: "terminal_body list \<Rightarrow> string" where
  "rules_text rs = concat (map rule_line rs)"

lemma rules_text_simps [simp]:
  "rules_text [] = []" "rules_text (r # rs) = rule_line r @ rules_text rs"
  "rules_text (rs @ qs) = rules_text rs @ rules_text qs"
  by (simp_all add: rules_text_def)

lemma digit_plain: "is_digit c \<Longrightarrow> plain c"
  by (auto simp: is_digit_def plain_def is_space_def)

lemma time_okE:
  assumes "time_ok t"
  obtains a b c d where "t = [a, b, CHR '':'', c, d]" "is_digit a" "is_digit b" "is_digit c" "is_digit d"
proof -
  have "length t = Suc (Suc (Suc (Suc (Suc 0))))" using assms by (simp add: time_ok_def)
  then obtain a b x c d where t: "t = [a, b, x, c, d]" by (auto simp: length_Suc_conv)
  have "is_digit a" "is_digit b" "x = CHR '':''" "is_digit c" "is_digit d"
    using assms unfolding time_ok_def t by (simp_all add: numeral_3_eq_3 numeral_2_eq_2 eval_nat_numeral)
  then show thesis using that t by blast
qed

lemma time_plain: "time_ok t \<Longrightarrow> list_all plain t"
  by (elim time_okE) (auto simp: digit_plain, simp add: plain_def is_space_def)

lemma small_word: "unat (w :: dword) < 10 \<Longrightarrow> show_int (sint w) = [digit_char (unat w)]"
proof -
  assume a: "unat w < 10"
  then have "int (unat w) < 10" by linarith
  then have "uint w < 10" by simp
  then have "uint w < 2 ^ 31" by simp
  moreover have "- (2 ^ 31) \<le> uint w" by (rule order_trans [of _ 0]) simp_all
  ultimately have "sint w = uint w" using signed_take_bit_int_eq_self [of 31 "uint w"] by (simp add: sint_uint)
  then have "sint w = int (unat w)" by simp
  moreover have "show_nat (unat w) = [digit_char (unat w)]" using a by (subst show_nat.simps) simp
  ultimately show ?thesis by (simp add: show_int_def)
qed

text \<open>The two shapes of a rule.\<close>

lemma rule_cases:
  assumes "rule_ok b"
  obtains (one) p where "netTime b = [p]" "period_ok p"
      "rule_line b = devMac b @ CHR ''-'' # digit_char (unat (accessControl b)) # CHR ''-'' # startTime p @
        CHR ''-'' # endTime p @ CHR ''-'' # digit_char (unat (netLimit b)) # '',''"
    | (two) p q where "netTime b = [p, q]" "period_ok p" "period_ok q"
      "rule_line b = devMac b @ CHR ''-'' # digit_char (unat (accessControl b)) # CHR ''-'' # startTime p @
        CHR ''-'' # endTime p @ CHR ''&'' # startTime q @ CHR ''-'' # endTime q @ CHR ''-'' #
        digit_char (unat (netLimit b)) # '',''"
proof -
  have s: "show_int (sint (accessControl b)) = [digit_char (unat (accessControl b))]"
    "show_int (sint (netLimit b)) = [digit_char (unat (netLimit b))]"
    using assms by (simp_all add: rule_ok_def small_word)
  from assms consider p where "netTime b = [p]" "period_ok p" | p q where "netTime b = [p, q]" "period_ok p" "period_ok q"
    by (auto simp: rule_ok_def length_Suc_conv numeral_2_eq_2)
  then show thesis
  proof cases
    case 1
    then show ?thesis using one [of p] s by (simp add: rule_line_def)
  next
    case 2
    then show ?thesis using two [of p q] s by (simp add: rule_line_def)
  qed
qed


lemmas rule_chars = plain_def digit_char_def

lemma digit_char_plain: "n < 10 \<Longrightarrow> plain (digit_char n)"
  by (simp add: digit_plain)

text \<open>A rule is a text without comma, and the comma.\<close>

definition in_rule :: "char \<Rightarrow> bool" where
  "in_rule c = (c \<noteq> CHR '','' \<and> \<not> is_space c)"

lemma in_rule_simps [simp]: "in_rule (CHR ''-'')" "in_rule (CHR ''&'')"
  by (simp_all add: in_rule_def is_space_def)

lemma plain_in_rule: "plain c \<Longrightarrow> in_rule c"
  by (simp add: plain_def in_rule_def)

lemma time_in_rule: "time_ok t \<Longrightarrow> list_all in_rule t \<and> length t = 5"
  using time_plain [of t] plain_in_rule by (auto simp: list_all_iff time_ok_def)

lemma rule_line_comma:
  assumes "rule_ok b"
  shows "\<exists>s. rule_line b = s @ '','' \<and> list_all in_rule s \<and> s \<noteq> [] \<and> length s \<le> 45"
proof -
  have m: "length (devMac b) = 17" "list_all in_rule (devMac b)" "in_rule (digit_char (unat (accessControl b)))"
    "in_rule (digit_char (unat (netLimit b)))"
    using assms plain_in_rule by (auto simp: rule_ok_def list_all_iff digit_char_plain)
  from assms show ?thesis
  proof (cases rule: rule_cases)
    case (one p)
    let ?s = "devMac b @ CHR ''-'' # digit_char (unat (accessControl b)) # CHR ''-'' # startTime p @
        CHR ''-'' # endTime p @ CHR ''-'' # [digit_char (unat (netLimit b))]"
    have t: "list_all in_rule (startTime p)" "list_all in_rule (endTime p)" "length (startTime p) = 5" "length (endTime p) = 5"
      using one(2) time_in_rule by (simp_all add: period_ok_def)
    have "rule_line b = ?s @ '',''" using one(3) by simp
    moreover have "list_all in_rule ?s" "length ?s \<le> 45" using m t by simp_all
    ultimately show ?thesis by (intro exI [of _ ?s]) simp
  next
    case (two p q)
    let ?s = "devMac b @ CHR ''-'' # digit_char (unat (accessControl b)) # CHR ''-'' # startTime p @
        CHR ''-'' # endTime p @ CHR ''&'' # startTime q @ CHR ''-'' # endTime q @ CHR ''-'' #
        [digit_char (unat (netLimit b))]"
    have t: "list_all in_rule (startTime p)" "list_all in_rule (endTime p)" "length (startTime p) = 5" "length (endTime p) = 5"
      "list_all in_rule (startTime q)" "list_all in_rule (endTime q)" "length (startTime q) = 5" "length (endTime q) = 5"
      using two(2,3) time_in_rule by (simp_all add: period_ok_def)
    have "rule_line b = ?s @ '',''" using two(4) by simp
    moreover have "list_all in_rule ?s" "length ?s \<le> 45" using m t by simp_all
    ultimately show ?thesis by (intro exI [of _ ?s]) simp
  qed
qed

lemma no_comma: "list_all in_rule s \<Longrightarrow> CHR '','' \<notin> set s"
  by (auto simp: list_all_iff in_rule_def)

lemma rule_line_length: "rule_ok b \<Longrightarrow> length (rule_line b) \<le> 46 \<and> rule_line b \<noteq> []"
  using rule_line_comma [of b] by auto

lemma strchr_rule: "rule_ok b \<Longrightarrow> strchr (CHR '','') (rule_line b @ s) = Some (CHR '','' # s)"
  using rule_line_comma [of b] no_comma by auto

text \<open>Only the address of a rule has seventeen characters without a separator.\<close>

lemma strstr_rule:
  assumes "rule_ok b" and "length m = 17" and "list_all plain m"
  shows "strstr (rule_line b @ s) m = (if devMac b = m then Some (rule_line b @ s) else strstr s m)"
proof -
  have "\<forall>c \<in> set m. plain c" using assms(3) by (simp add: list_all_iff)
  moreover have "\<not> plain (CHR ''-'')" "\<not> plain (CHR '','')" "\<not> plain (CHR ''&'')" by (simp_all add: plain_def)
  ultimately have m: "m \<noteq> []" "CHR ''-'' \<notin> set m" "CHR '','' \<notin> set m" "CHR ''&'' \<notin> set m"
    using assms(2) by fastforce+
  note sep = strstr_append_sep [OF m(2) m(1)] strstr_append_sep [OF m(3) m(1)] strstr_append_sep [OF m(4) m(1)]
  have d: "strstr (devMac b) m = (if devMac b = m then Some (devMac b) else None)"
    using assms(1,2) m(1) by (intro strstr_same_length) (simp_all add: rule_ok_def)
  have t: "strstr t m = None" if "time_ok t" for t
    using that assms(2) by (intro strstr_short) (simp add: time_ok_def)
  have c: "strstr [x] m = None" for x using assms(2) by (intro strstr_short) simp
  from assms(1) show ?thesis
  proof (cases rule: rule_cases)
    case (one p)
    have "strstr (rule_line b @ s) m = strstr (devMac b @ CHR ''-'' # ([digit_char (unat (accessControl b))] @ CHR ''-'' #
        (startTime p @ CHR ''-'' # (endTime p @ CHR ''-'' # ([digit_char (unat (netLimit b))] @ CHR '','' # s))))) m"
      using one(3) by simp
    also have "\<dots> = (if devMac b = m then Some (rule_line b @ s) else strstr s m)"
      using one(2,3) by (simp only: sep d c t period_ok_def) simp
    finally show ?thesis .
  next
    case (two p q)
    have "strstr (rule_line b @ s) m = strstr (devMac b @ CHR ''-'' # ([digit_char (unat (accessControl b))] @ CHR ''-'' #
        (startTime p @ CHR ''-'' # (endTime p @ CHR ''&'' # (startTime q @ CHR ''-'' # (endTime q @ CHR ''-'' #
        ([digit_char (unat (netLimit b))] @ CHR '','' # s))))))) m"
      using two(4) by simp
    also have "\<dots> = (if devMac b = m then Some (rule_line b @ s) else strstr s m)"
      using two(2,3,4) by (simp only: sep d c t period_ok_def) simp
    finally show ?thesis .
  qed
qed

lemma count_from_append: "count_from [c] (s @ t) = count_from [c] s + count_from [c] t"
  by (induction s) simp_all

lemma count_from_notin: "c \<notin> set s \<Longrightarrow> count_from [c] s = 0"
  by (induction s) auto

lemma count_rules:
  assumes "\<forall>r \<in> set rs. rule_ok r"
  shows "countSubString (rules_text rs) '','' = length rs"
proof -
  have "count_from '','' (rules_text rs) = length rs"
    using assms
  proof (induction rs)
    case Nil
    then show ?case by simp
  next
    case (Cons r rs)
    then obtain s where "rule_line r = s @ '',''" "CHR '','' \<notin> set s"
      using rule_line_comma [of r] no_comma by auto
    then show ?case using Cons by (simp add: count_from_append count_from_notin)
  qed
  then show ?thesis by (cases rs) (auto simp: countSubString_def)
qed

lemma rules_text_length:
  "\<forall>r \<in> set rs. rule_ok r \<Longrightarrow> length (rules_text rs) \<le> 46 * length rs"
  by (induction rs) (auto dest: rule_line_length)

lemma rules_text_nonempty: "\<forall>r \<in> set rs. rule_ok r \<Longrightarrow> rules_text rs = [] \<longleftrightarrow> rs = []"
  by (cases rs) (auto dest: rule_line_length)

section \<open>Taking a rule out\<close>

lemma strstr_rules:
  assumes "\<forall>r \<in> set rs. rule_ok r" and "length m = 17" and "list_all plain m"
  shows "strstr (rules_text rs) m = (if m \<in> devMac ` set rs
    then Some (rules_text (dropWhile (\<lambda>r. devMac r \<noteq> m) rs)) else None)"
  using assms(1)
proof (induction rs)
  case Nil
  then show ?case using assms(2) by auto
next
  case (Cons r rs)
  then show ?case using strstr_rule [of r m "rules_text rs"] assms(2,3) by auto
qed

lemma remove_old_text:
  assumes "\<forall>r \<in> set rs. rule_ok r" and "length m = 17" and "list_all plain m" and "distinct (map devMac rs)"
  shows "remove_old m (rules_text rs) = rules_text (filter (\<lambda>r. devMac r \<noteq> m) rs)"
proof (cases "m \<in> devMac ` set rs")
  case False
  then have "filter (\<lambda>r. devMac r \<noteq> m) rs = rs" by (auto simp: filter_id_conv)
  then show ?thesis using False strstr_rules [OF assms(1-3)] by (simp add: remove_old_def)
next
  case True
  then obtain r where r: "r \<in> set rs" "devMac r = m" by auto
  then obtain as bs where rs: "rs = as @ r # bs" by (meson split_list)
  have "devMac r \<notin> devMac ` set as \<union> devMac ` set bs" using assms(4) unfolding rs by simp
  then have o: "\<forall>x \<in> set as \<union> set bs. devMac x \<noteq> m" using r(2) by (metis Un_iff image_eqI)
  then have f: "filter (\<lambda>r. devMac r \<noteq> m) rs = as @ bs" using r(2) unfolding rs by (auto simp: filter_id_conv)
  have d: "dropWhile (\<lambda>r. devMac r \<noteq> m) rs = r # bs" using o r(2) unfolding rs by (simp add: dropWhile_append2)
  have s: "strstr (rules_text rs) m = Some (rules_text (r # bs))"
    using strstr_rules [OF assms(1-3)] True d by simp
  have c: "strchr (CHR '','') (rules_text (r # bs)) = Some (CHR '','' # rules_text bs)"
    using assms(1) strchr_rule [of r "rules_text bs"] unfolding rs by simp
  show ?thesis
  proof (cases "length rs = 1")
    case True
    then have "as = []" "bs = []" unfolding rs by simp_all
    then show ?thesis using s count_rules [OF assms(1)] True f by (simp add: remove_old_def)
  next
    case False
    moreover have "length rs \<noteq> 0" unfolding rs by simp
    moreover have "take (length (rules_text rs) - length (rules_text (r # bs))) (rules_text rs) = rules_text as"
      unfolding rs by simp
    ultimately show ?thesis using s c count_rules [OF assms(1)] f by (simp add: remove_old_def)
  qed
qed


section \<open>Reading a rule back\<close>

lemma scanf_word:
  assumes "length w = n" and "w \<noteq> []" and "list_all in_rule w"
  shows "scanf (Word n # cs) (w @ s) = Txt w # scanf cs s"
proof -
  have n: "\<forall>c \<in> set w. \<not> is_space c" using assms(3) by (simp add: list_all_iff in_rule_def)
  have a: "dropWhile is_space (w @ s) = w @ s" using n assms(2) by (cases w) auto
  have b: "takeWhile (\<lambda>c. \<not> is_space c) w = w" using n by simp
  show ?thesis using assms(1,2) by (simp add: Let_def a b)
qed

lemma scanf_digit: "n < 10 \<Longrightarrow> scanf (Digit # cs) (digit_char n # s) = Num (int n) # scanf cs s"
  using is_digit_not_space [of "digit_char n"] by simp

lemma scanf_lit: "scanf (Lit c # cs) (c # s) = scanf cs s"
  by simp

lemma scanf_end: "scanf [] s = []"
  by simp

definition vars_of :: "terminal_body \<Rightarrow> rule_vars" where
  "vars_of b = \<lparr>v_mac = devMac b, v_acc = int (unat (accessControl b)), v_lim = int (unat (netLimit b)),
     v_start = startTime (hd (netTime b)) @ concat (map (\<lambda>p. '','' @ startTime p) (tl (netTime b))),
     v_end = endTime (hd (netTime b)) @ concat (map (\<lambda>p. '','' @ endTime p) (tl (netTime b)))\<rparr>"

lemma valid_first:
  assumes "length u = 17" and "CHR ''-'' \<notin> set u" and "6 \<le> k"
  shows "valid_loop k (u @ CHR ''-'' # v) 0 0 = 1" "valid_loop k (u @ CHR ''-'' # v) 1 0 = 2"
proof -
  obtain j where "k = 6 + j" using assms(3) le_Suc_ex by blast
  then have k: "k = Suc (Suc (Suc (Suc (Suc (Suc j)))))" by simp
  obtain a b c d e f w where u: "u = a # b # c # d # e # f # w"
    using assms(1) by (auto simp: numeral_eq_Suc length_Suc_conv)
  show "valid_loop k (u @ CHR ''-'' # v) 0 0 = 1" "valid_loop k (u @ CHR ''-'' # v) 1 0 = 2"
    using assms(2) unfolding k u by auto
qed

lemma rule_valid:
  assumes "rule_ok b"
  shows "isValidRules (rule_line b) = length (netTime b)"
proof -
  have c: "strchr (CHR '','') (rule_line b) = Some '',''" using strchr_rule [OF assms, of "[]"] by simp
  have p: "\<forall>x \<in> set (devMac b). plain x" "length (devMac b) = 17" using assms by (simp_all add: rule_ok_def list_all_iff)
  have n: "\<not> plain (CHR ''-'')" "\<not> plain (CHR ''&'')" by (simp_all add: plain_def)
  have m: "CHR ''-'' \<notin> set (devMac b)" "CHR ''&'' \<notin> set (devMac b)" using p n by blast+
  have d: "CHR ''&'' \<noteq> digit_char (unat (accessControl b))" "CHR ''&'' \<noteq> digit_char (unat (netLimit b))"
    using assms digit_char_plain n by (metis rule_ok_def)+
  have t: "CHR ''&'' \<notin> set t" if "time_ok t" for t using time_plain [OF that] n by (auto simp: list_all_iff)
  from assms show ?thesis
  proof (cases rule: rule_cases)
    case (one p)
    have "CHR ''&'' \<notin> set (rule_line b)" using m d t one(2,3) by (simp add: period_ok_def)
    then have "isValidRules (rule_line b) = valid_loop (length (rule_line b) - 1) (rule_line b) 0 0"
      using c by (simp add: isValidRules_def)
    moreover have "6 \<le> length (rule_line b) - 1" using p(2) one(3) by simp
    then have "valid_loop (length (rule_line b) - 1) (rule_line b) 0 0 = 1"
      using valid_first(1) [OF p(2) m(1)] unfolding one(3) by blast
    ultimately show ?thesis using one(1) by simp
  next
    case (two p q)
    have "CHR ''&'' \<in> set (rule_line b)" using two(4) by simp
    then have "isValidRules (rule_line b) = valid_loop (length (rule_line b) - 1) (rule_line b) 1 0"
      using c by (simp add: isValidRules_def)
    moreover have "6 \<le> length (rule_line b) - 1" using p(2) two(4) by simp
    then have "valid_loop (length (rule_line b) - 1) (rule_line b) 1 0 = 2"
      using valid_first(2) [OF p(2) m(1)] unfolding two(4) by blast
    ultimately show ?thesis using two(1) by simp
  qed
qed

lemma parse_rule:
  assumes "rule_ok b"
  shows "hertParse_internetRules (rule_line b @ s) v = (Some (vars_of b), rule_line b)"
proof -
  have c: "strchr (CHR '','') (rule_line b @ s) = Some (CHR '','' # s)" by (rule strchr_rule [OF assms])
  have ne: "rule_line b \<noteq> []" using rule_line_length [OF assms] by simp
  then have t: "take (length (rule_line b @ s) - length (CHR '','' # s) + 1) (rule_line b @ s) = rule_line b"
    by (cases "length (rule_line b)") auto
  note parsed = hertParse_internetRules_def c option.case t Let_def rule_valid [OF assms]
  have m: "length (devMac b) = 17" "devMac b \<noteq> []" "list_all in_rule (devMac b)" "unat (accessControl b) < 10"
    "unat (netLimit b) < 10"
    using assms plain_in_rule by (auto simp: rule_ok_def list_all_iff)
  note sc = scanf_word scanf_digit scanf_lit scanf_end
  have w: "length x = 5" "x \<noteq> []" "list_all in_rule x" if "time_ok x" for x
    using time_in_rule [OF that] by auto
  from assms show ?thesis
  proof (cases rule: rule_cases)
    case (one p)
    have ok: "time_ok (startTime p)" "time_ok (endTime p)" using one(2) by (simp_all add: period_ok_def)
    note w' = w [OF ok(1)] w [OF ok(2)]
    have r: "scanf one_period (rule_line b) = [Txt (devMac b), Num (int (unat (accessControl b))),
        Txt (startTime p), Txt (endTime p), Num (int (unat (netLimit b)))]"
      using m w' unfolding one(3) one_period_def by (simp only: sc append_Cons append_Nil simp_thms)
    then show ?thesis
      using one(1) by (simp only: parsed) (simp add: vars_of_def)
  next
    case (two p q)
    have ok: "time_ok (startTime p)" "time_ok (endTime p)" "time_ok (startTime q)" "time_ok (endTime q)"
      using two(2,3) by (simp_all add: period_ok_def)
    note w' = w [OF ok(1)] w [OF ok(2)] w [OF ok(3)] w [OF ok(4)]
    have r: "scanf two_periods (rule_line b) = [Txt (devMac b), Num (int (unat (accessControl b))),
        Txt (startTime p), Txt (endTime p), Txt (startTime q), Txt (endTime q), Num (int (unat (netLimit b)))]"
      using m w' unfolding two(4) two_periods_def by (simp only: sc append_Cons append_Nil simp_thms)
    then show ?thesis
      using two(1) by (simp only: parsed) (simp add: vars_of_def second_period_def without_second_def)
  qed
qed

section \<open>Setting a rule\<close>

text \<open>The list of the rules: the newest first, one for each device, at most 32.\<close>

definition put_rule :: "terminal_body \<Rightarrow> terminal_body list \<Rightarrow> terminal_body list" where
  "put_rule b rs = b # filter (\<lambda>r. devMac r \<noteq> devMac b) rs"

lemma last_index_before: "c \<notin> set w \<Longrightarrow> last_index c (a @ c # w) = Some (length a)"
proof -
  assume a: "c \<notin> set w"
  then have "takeWhile (\<lambda>d. d \<noteq> c) (rev w @ c # rev a) = rev w" by (simp add: takeWhile_append)
  then show ?thesis by (simp add: last_index_def)
qed

lemma evict_done: "e + new \<le> MAX_ACCESS_RULES_SIZE \<Longrightarrow> num < MAX_ACCESS_RULES_NUMBER \<Longrightarrow>
    evict new num rules e tmp cmds = Inr (tmp, cmds)"
  by (subst evict.simps) simp

lemma evict_last:
  assumes "\<forall>x \<in> set rs. rule_ok x" and "rule_ok r" and "rs \<noteq> []" and "length rs = 31" and "new \<le> 46"
  shows "evict new 32 (rules_text (rs @ [r])) (length (rules_text (rs @ [r])) - 1) [] [] =
    Inr (rules_text rs, [''set_iptables.sh deleteDropRule '' @ devMac r])"
proof -
  obtain q p where q: "rs = q @ [p]" using assms(3) by (metis append_butlast_last_id)
  obtain s where s: "rule_line p = s @ '',''" using rule_line_comma [of p] assms(1) q by auto
  obtain w where w: "rule_line r = w @ '',''" "CHR '','' \<notin> set w" "length w \<le> 45"
    using rule_line_comma [OF assms(2)] no_comma by auto
  let ?T = "rules_text (rs @ [r])"
  let ?k = "length (rules_text rs) - 1"
  have k: "Suc ?k = length (rules_text rs)" unfolding q using s by simp
  have "rules_text rs = (rules_text q @ s) @ '',''" unfolding q using s by simp
  then have a: "rules_text rs = take ?k (rules_text rs) @ '',''" by simp
  have "take (length ?T - 1) ?T = take ?k (rules_text rs) @ CHR '','' # w"
    using w(1) a by simp
  then have l: "last_index (CHR '','') (take (length ?T - 1) ?T) = Some ?k"
    using last_index_before [OF w(2), of "take ?k (rules_text rs)"] by simp
  have tmp: "take (?k + 1) ?T = rules_text rs" using k by simp
  have old: "take (length ?T - 1 - ?k) (drop (?k + 1) ?T) = rule_line r"
    using k by simp
  have v: "fst (hertParse_internetRules (rule_line r) none_vars) = Some (vars_of r)"
    using parse_rule [OF assms(2), of "[]"] by simp
  have c: "countSubString (rules_text rs) '','' = 31" using count_rules [OF assms(1)] assms(4) by simp
  have z: "?k + new \<le> MAX_ACCESS_RULES_SIZE"
    using rules_text_length [OF assms(1)] assms(4,5) by (simp add: MAX_ACCESS_RULES_SIZE_def)
  show ?thesis
    by (subst evict.simps) (simp only: l tmp old v c option.case Let_def, insert w z,
      simp add: MAX_ACCESS_RULES_NUMBER_def evict_done vars_of_def)
qed

lemma rule_line_take: "rule_ok b \<Longrightarrow> take 62 (rule_line b) = rule_line b"
  using rule_line_length [of b] by simp

lemma time_fits_ok: "rule_ok b \<Longrightarrow> time_fits b"
  by (auto simp: rule_ok_def time_fits_def list_all_iff period_ok_def time_ok_def)

lemma rules_no_crln:
  assumes "\<forall>r \<in> set rs. rule_ok r"
  shows "remove_crln (rules_text rs @ [CHR 0x0A]) = rules_text rs" "remove_crln (rules_text rs) = rules_text rs"
proof -
  have r: "list_all (\<lambda>c. \<not> is_space c) (rule_line r)" if "rule_ok r" for r
  proof -
    obtain s where s: "rule_line r = s @ '',''" "list_all in_rule s" using rule_line_comma [OF \<open>rule_ok r\<close>] by blast
    have "list_all (\<lambda>c. \<not> is_space c) s" using s(2) by (rule list.pred_mono_strong) (simp add: in_rule_def)
    moreover have "\<not> is_space (CHR '','')" by (simp add: is_space_def)
    ultimately show ?thesis by (simp add: s(1))
  qed
  have "list_all (\<lambda>c. \<not> is_space c) (rules_text rs)"
    using assms by (induction rs) (simp_all add: r)
  then have "\<forall>c \<in> set (rules_text rs). \<not> is_space c" by (simp add: list_all_iff)
  from remove_crln_line [OF this] show "remove_crln (rules_text rs @ [CHR 0x0A]) = rules_text rs"
    "remove_crln (rules_text rs) = rules_text rs" .
qed

lemma rules_read:
  assumes "\<forall>r \<in> set rs. rule_ok r" and "length rs \<le> 32"
  shows "hertUtil_GetNvram_Values (rules_text rs @ [CHR 0x0A]) MAX_ACCESS_RULES_SIZE = Inr (rules_text rs)"
  using rules_text_length [OF assms(1)] assms(2) rules_no_crln [OF assms(1)]
  by (simp add: hertUtil_GetNvram_Values_def MAX_ACCESS_RULES_SIZE_def)

lemma new_rules:
  assumes "rule_ok b" and "\<forall>r \<in> set rs. rule_ok r" and "distinct (map devMac rs)" and "length rs \<le> 32"
  shows "new_access_rules (rules_text rs @ [CHR 0x0A]) b =
    Inr (rules_text (take 32 (put_rule b rs)),
      map (\<lambda>r. ''set_iptables.sh deleteDropRule '' @ devMac r) (drop 32 (put_rule b rs)))"
proof -
  define fs where "fs = filter (\<lambda>r. devMac r \<noteq> devMac b) rs"
  have fs: "\<forall>r \<in> set fs. rule_ok r" "length fs \<le> 32"
    using assms(2,4) le_trans [OF length_filter_le] by (auto simp: fs_def)
  have m: "length (devMac b) = 17" "list_all plain (devMac b)" "netTime b \<noteq> []" using assms(1) by (auto simp: rule_ok_def)
  have old: "remove_old (devMac b) (rules_text rs) = rules_text fs"
    unfolding fs_def by (rule remove_old_text [OF assms(2) m(1,2) assms(3)])
  note cnt = count_rules [OF fs(1)]
  have len: "length (rule_line b) \<le> 46" "length (rules_text fs) \<le> 46 * length fs"
    using rule_line_length [OF assms(1)] rules_text_length [OF fs(1)] by simp_all
  note step = new_access_rules_def rules_read [OF assms(2,4)] rbind_Inr m(3) if_False
    time_fits_ok [OF assms(1)] not_True_eq_False rule_line_take [OF assms(1)] old cnt Let_def put_rule_def fs_def [symmetric]
  show ?thesis
  proof (cases "length fs = 32")
    case False
    then have f: "length fs < 32" using fs(2) by simp
    have c: "\<not> (MAX_ACCESS_RULES_NUMBER \<le> length fs \<or> MAX_ACCESS_RULES_SIZE < length (rule_line b) + length (rules_text fs))"
      using f len by (simp add: MAX_ACCESS_RULES_SIZE_def MAX_ACCESS_RULES_NUMBER_def)
    have d: "\<not> MAX_ACCESS_RULES_SIZE \<le> length (rule_line b @ rules_text fs)"
      using f len by (simp add: MAX_ACCESS_RULES_SIZE_def)
    show ?thesis using f d by (simp only: step c if_False) simp
  next
    case True
    obtain qs r where q: "fs = qs @ [r]" using True by (cases fs rule: rev_cases) auto
    have qs: "\<forall>x \<in> set qs. rule_ok x" "rule_ok r" "length qs = 31" "qs \<noteq> []" using fs(1) True unfolding q by auto
    have ev: "evict (length (rule_line b)) 32 (rules_text fs) (length (rules_text fs) - 1) [] [] =
        Inr (rules_text qs, [''set_iptables.sh deleteDropRule '' @ devMac r])"
      unfolding q by (rule evict_last [OF qs(1,2,4,3) len(1)])
    have ne: "rules_text qs \<noteq> []" using rules_text_nonempty [OF qs(1)] qs(4) by simp
    have c: "MAX_ACCESS_RULES_NUMBER \<le> 32" by (simp add: MAX_ACCESS_RULES_NUMBER_def)
    have d: "\<not> MAX_ACCESS_RULES_SIZE \<le> length (rule_line b @ rules_text qs)"
      using len(1) rules_text_length [OF qs(1)] qs(3) by (simp add: MAX_ACCESS_RULES_SIZE_def)
    have k: "take 32 (b # fs) = b # qs" "drop 32 (b # fs) = [r]" unfolding q using qs(3) by simp_all
    show ?thesis by (simp only: step True c simp_thms if_True ev ne if_False prod.case d k) simp
  qed
qed

section \<open>The table\<close>

definition rule_table :: "terminal_body list \<Rightarrow> string list" where
  "rule_table rs = map rule_line rs @ replicate (32 - length rs) []"

lemma rule_period_count: "rule_ok r \<Longrightarrow> isValidRules (rule_line r) \<noteq> 0"
  using rule_valid [of r] by (auto simp: rule_ok_def)

lemma split_rules_text:
  "\<forall>r \<in> set rs. rule_ok r \<Longrightarrow> split_rules (length rs) (rules_text rs) = Inr (map rule_line rs)"
proof (induction rs)
  case Nil
  then show ?case by simp
next
  case (Cons r rs)
  have r: "rule_ok r" using Cons.prems by simp
  have t: "take (length (rule_line r @ rules_text rs) - Suc (length (rules_text rs)) + 1) (rule_line r @ rules_text rs) = rule_line r"
    using rule_line_length [OF r] by (cases "length (rule_line r)") auto
  have l: "\<not> 64 \<le> length (rule_line r)" using rule_line_length [OF r] by simp
  have ih: "split_rules (length rs) (rules_text rs) = Inr (map rule_line rs)" using Cons by simp
  show ?case
    by (simp only: list.map length_Cons split_rules.simps rules_text_simps strchr_rule [OF r] option.case t Let_def l
        if_False list.sel ih rbind_Inr rule_period_count [OF r])
qed

lemma table_read:
  assumes "\<forall>r \<in> set rs. rule_ok r" and "length rs \<le> 32" and "rs \<noteq> []"
  shows "updateArryRules (rules_text rs @ [CHR 0x0A]) arr = Inr (rule_table rs)"
proof -
  obtain r qs where rs: "rs = r # qs" using assms(3) by (cases rs) auto
  have "CHR '','' \<in> set (rules_text rs)" using rule_line_comma [of r] assms(1) by (auto simp: rs)
  then show ?thesis
    using split_rules_text [OF assms(1)] assms(2)
    by (simp add: updateArryRules_def rules_read [OF assms(1,2)] count_rules [OF assms(1)] rule_table_def min_def)
qed

lemma put_rule_ok:
  assumes "rule_ok b" and "\<forall>r \<in> set rs. rule_ok r" and "distinct (map devMac rs)"
  shows "\<forall>r \<in> set (take n (put_rule b rs)). rule_ok r" "distinct (map devMac (take n (put_rule b rs)))"
proof -
  have "distinct (map devMac (put_rule b rs))"
    using assms(3) by (auto simp: put_rule_def distinct_map inj_on_def)
  then show "distinct (map devMac (take n (put_rule b rs)))" by (simp add: take_map [symmetric])
  show "\<forall>r \<in> set (take n (put_rule b rs)). rule_ok r"
    using assms(1,2) by (auto simp: put_rule_def dest!: in_set_takeD)
qed

lemma set_rule:
  assumes "rule_ok b" and "\<forall>r \<in> set rs. rule_ok r" and "distinct (map devMac rs)" and "length rs \<le> 32"
  shows "hertUtil_updateAccessRulesInNvram (rules_text rs @ [CHR 0x0A]) b arr =
    Inr (rules_text (take 32 (put_rule b rs)),
      map (\<lambda>r. ''set_iptables.sh deleteDropRule '' @ devMac r) (drop 32 (put_rule b rs)),
      rule_table (take 32 (put_rule b rs)))"
proof -
  have "take 32 (put_rule b rs) \<noteq> []" by (simp add: put_rule_def)
  then have "updateArryRules (rules_text (take 32 (put_rule b rs)) @ [CHR 0x0A]) arr = Inr (rule_table (take 32 (put_rule b rs)))"
    using put_rule_ok [OF assms(1-3)] by (intro table_read) simp_all
  then show ?thesis by (simp add: hertUtil_updateAccessRulesInNvram_def new_rules [OF assms])
qed

section \<open>The firewall\<close>

lemma atoi_two:
  assumes "is_digit a" and "is_digit b"
  shows "atoi [a, b] = 10 * int (digit_val a) + int (digit_val b)"
proof -
  have v: "digit_val a < 10" "digit_val b < 10" using assms by (auto simp: digit_val_def is_digit_def)
  have "a \<noteq> CHR ''-''" "a \<noteq> CHR ''+''" using assms(1) by (auto simp: is_digit_def)
  then have "atoi [a, b] = clamp_long (int (digit_val a * 10 + digit_val b))"
    using assms by (simp add: atoi_def is_digit_not_space)
  then show ?thesis using v by (simp add: clamp_long_def)
qed

lemma minutes_clock:
  assumes "time_ok t"
  shows "minutes_of t = clock t"
  using assms
proof (rule time_okE)
  fix a b c d assume t: "t = [a, b, CHR '':'', c, d]" and d: "is_digit a" "is_digit b" "is_digit c" "is_digit d"
  have "a \<noteq> CHR '':''" "b \<noteq> CHR '':''" using d(1,2) by (auto simp: is_digit_def)
  then have "minutes_of t = atoi [a, b] * 60 + atoi [c, d]" unfolding minutes_of_def t by simp
  also have "\<dots> = clock t" using d by (simp add: atoi_two clock_def t eval_nat_numeral)
  finally show ?thesis .
qed

definition in_times :: "int \<Rightarrow> terminal_body \<Rightarrow> bool" where
  "in_times now b = list_ex (\<lambda>p. clock (startTime p) \<le> now \<and> now < clock (endTime p)) (netTime b)"

lemma times_one: "time_ok t \<Longrightarrow> times_of t = (clock t, 0)"
proof -
  assume t: "time_ok t"
  then have "strchr (CHR '','') t = None" using time_in_rule no_comma by simp
  then show ?thesis using t by (simp only: times_of_def option.case minutes_clock)
qed

lemma times_two: "time_ok t \<Longrightarrow> time_ok u \<Longrightarrow> times_of (t @ '','' @ u) = (clock t, clock u)"
  using time_in_rule [of t] by (simp add: times_of_def minutes_clock no_comma)

lemma in_period_times:
  assumes "rule_ok b"
  shows "in_period now (vars_of b) = in_times now b"
  using assms
proof (cases rule: rule_cases)
  case (one p)
  then show ?thesis by (auto simp: in_period_def vars_of_def in_times_def times_one period_ok_def)
next
  case (two p q)
  have "time_ok (startTime p)" "time_ok (endTime p)" "time_ok (startTime q)" "time_ok (endTime q)"
    using two(2,3) by (simp_all add: period_ok_def)
  note t = times_two [OF this(1,3), simplified] times_two [OF this(2,4), simplified]
  show ?thesis using two(1) by (simp add: in_period_def vars_of_def in_times_def t)
qed

text \<open>What the rule asks for.\<close>

definition allowed :: "int \<Rightarrow> terminal_body \<Rightarrow> bool" where
  "allowed now b = (accessControl b = 1 \<and> in_times now b)"

text \<open>
  What the script set_iptables.sh does to the list of the addresses that are dropped: iptables -I
  and iptables -D.
\<close>

definition fw_step :: "string list \<Rightarrow> string \<Rightarrow> string list" where
  "fw_step D c =
     (if take 28 c = ''set_iptables.sh addDropRule '' then drop 28 c # D
      else if take 31 c = ''set_iptables.sh deleteDropRule '' then remove1 (drop 31 c) D else D)"

definition fw_run :: "string list \<Rightarrow> string list \<Rightarrow> string list" where
  "fw_run = foldl fw_step"

lemma fw_run_simps [simp]:
  "fw_run D [] = D" "fw_run D (cs @ ds) = fw_run (fw_run D cs) ds"
  "fw_run D (c # cs) = fw_run (fw_step D c) cs"
  by (simp_all add: fw_run_def)

lemma fw_step_simps [simp]:
  "fw_step D (''set_iptables.sh addDropRule '' @ m) = m # D"
  "fw_step D (''set_iptables.sh deleteDropRule '' @ m) = remove1 m D"
  by (simp_all add: fw_step_def)

lemma fw_rule:
  assumes "rule_ok r" and "devMac r \<in> set dropped \<longleftrightarrow> devMac r \<in> set D" and "distinct D"
  shows "distinct (fw_run D (rule_command now dropped (vars_of r)))"
    "set (fw_run D (rule_command now dropped (vars_of r))) =
      (if allowed now r then set D - {devMac r} else insert (devMac r) (set D))"
proof -
  have v: "v_mac (vars_of r) = devMac r" "v_acc (vars_of r) = 1 \<longleftrightarrow> accessControl r = 1"
    by (simp_all add: vars_of_def) (simp add: word_uint_eq_iff)
  have c: "rule_command now dropped (vars_of r) =
      (if allowed now r then (if devMac r \<in> set D then [''set_iptables.sh deleteDropRule '' @ devMac r] else [])
       else (if devMac r \<in> set D then [] else [''set_iptables.sh addDropRule '' @ devMac r]))"
    by (simp only: rule_command_def v in_period_times [OF assms(1)] allowed_def assms(2) Let_def)
  show "distinct (fw_run D (rule_command now dropped (vars_of r)))"
    "set (fw_run D (rule_command now dropped (vars_of r))) =
      (if allowed now r then set D - {devMac r} else insert (devMac r) (set D))"
    unfolding c using assms(3) by (auto simp del: append_Cons)
qed

lemma fw_rules:
  assumes "\<forall>r \<in> set rs. rule_ok r" and "\<forall>r \<in> set rs. devMac r \<in> set dropped \<longleftrightarrow> devMac r \<in> set D"
    and "distinct D" and "distinct (map devMac rs)"
  shows "distinct (fw_run D (concat (map (\<lambda>r. rule_command now dropped (vars_of r)) rs))) \<and>
    set (fw_run D (concat (map (\<lambda>r. rule_command now dropped (vars_of r)) rs))) =
      (set D - devMac ` set rs) \<union> devMac ` {r \<in> set rs. \<not> allowed now r}"
  using assms
proof (induction rs arbitrary: D)
  case Nil
  then show ?case by simp
next
  case (Cons r rs)
  let ?D = "fw_run D (rule_command now dropped (vars_of r))"
  have a: "rule_ok r" "devMac r \<in> set dropped \<longleftrightarrow> devMac r \<in> set D" using Cons.prems by simp_all
  note f = fw_rule [OF a Cons.prems(3), of now]
  have n: "devMac r \<notin> devMac ` set rs" using Cons.prems(4) by simp
  then have n': "\<forall>q \<in> set rs. devMac q \<noteq> devMac r" by (metis image_eqI)
  have "\<forall>q \<in> set rs. devMac q \<in> set dropped \<longleftrightarrow> devMac q \<in> set ?D"
    using Cons.prems(2) n unfolding f(2) by (metis DiffE DiffI image_eqI insertCI insertE list.set_intros(2) singletonD)
  then have ih: "distinct (fw_run ?D (concat (map (\<lambda>r. rule_command now dropped (vars_of r)) rs)))"
    "set (fw_run ?D (concat (map (\<lambda>r. rule_command now dropped (vars_of r)) rs))) =
      (set ?D - devMac ` set rs) \<union> devMac ` {r \<in> set rs. \<not> allowed now r}"
    using Cons.IH [of ?D] Cons.prems f(1) by simp_all
  have s: "(set ?D - devMac ` set rs) \<union> devMac ` {r \<in> set rs. \<not> allowed now r} =
      (set D - devMac ` set (r # rs)) \<union> devMac ` {q \<in> set (r # rs). \<not> allowed now q}"
    using n n' unfolding f(2) by auto
  show ?case using ih unfolding s by simp
qed

lemma table_commands:
  assumes "\<forall>r \<in> set rs. rule_ok r"
  shows "rule_commands now dropped acc lim (map rule_line rs @ replicate k []) =
    concat (map (\<lambda>r. rule_command now dropped (vars_of r)) rs)"
  using assms
proof (induction rs arbitrary: acc lim)
  case Nil
  then show ?case by (cases k) simp_all
next
  case (Cons r rs)
  have r: "rule_ok r" using Cons.prems by simp
  have p: "fst (hertParse_internetRules (rule_line r) v) = Some (vars_of r)" for v
    using parse_rule [OF r, of "[]"] by simp
  show ?case using Cons rule_line_length [OF r] by (simp add: p)
qed

lemma firewall_pass:
  assumes "\<forall>r \<in> set rs. rule_ok r" and "distinct (map devMac rs)" and "rs \<noteq> []" and "length rs \<le> 32"
    and "distinct (drop_list ipt)"
  shows "\<exists>cmds. herUtil_updateInterRules out (Some ipt) now (rule_table rs) = Inr (cmds, rule_table rs) \<and>
    set (fw_run (drop_list ipt) cmds) = (set (drop_list ipt) - devMac ` set rs) \<union> devMac ` {r \<in> set rs. \<not> allowed now r}"
proof -
  obtain r qs where rs: "rs = r # qs" using assms(3) by (cases rs) auto
  have "hd (rule_table rs) \<noteq> []" using rule_line_length [of r] assms(1) by (simp add: rule_table_def rs)
  moreover have "take 32 (rule_table rs) = rule_table rs" using assms(4) by (simp add: rule_table_def)
  ultimately have "herUtil_updateInterRules out (Some ipt) now (rule_table rs) =
      Inr (concat (map (\<lambda>r. rule_command now (drop_list ipt) (vars_of r)) rs), rule_table rs)"
    using table_commands [OF assms(1)] by (simp add: herUtil_updateInterRules_def rule_table_def)
  then show ?thesis using fw_rules [OF assms(1) _ assms(5,2), of "drop_list ipt" now] by blast
qed


lemma fw_deletes:
  "distinct D \<Longrightarrow> distinct (fw_run D (map (\<lambda>r. ''set_iptables.sh deleteDropRule '' @ devMac r) rs)) \<and>
    set (fw_run D (map (\<lambda>r. ''set_iptables.sh deleteDropRule '' @ devMac r) rs)) = set D - devMac ` set rs"
proof (induction rs arbitrary: D)
  case Nil
  then show ?case by simp
next
  case (Cons r rs)
  then show ?case using Cons.IH [of "remove1 (devMac r) D"] by (auto simp del: append_Cons)
qed

section \<open>The properties\<close>

text \<open>
  A rule comes back as it was set: from the text of the rules, the reader finds behind the
  address of a device the access, the limit and the one or two periods that were written, and no
  other rule.
\<close>

theorem access_rule_roundtrip:
  assumes "rule_ok b"
  shows "hertParse_internetRules (rule_line b @ s) v = (Some (vars_of b), rule_line b)"
  using assms by (rule parse_rule)

definition evening :: terminal_body where
  "evening = \<lparr>devMac = ''00:1c:42:00:00:0a'', accessControl = 1, netLimit = 0,
     netTime = [\<lparr>startTime = ''12:00'', endTime = ''13:30''\<rparr>, \<lparr>startTime = ''18:00'', endTime = ''21:15''\<rparr>]\<rparr>"

definition blocked :: terminal_body where
  "blocked = \<lparr>devMac = ''00:1c:42:00:00:0b'', accessControl = 0, netLimit = 1,
     netTime = [\<lparr>startTime = ''00:00'', endTime = ''23:59''\<rparr>]\<rparr>"

lemma sample_rules_ok [simp]: "rule_ok evening" "rule_ok blocked"
  by (code_simp, code_simp)

lemma access_rule_roundtrip_witness:
  "rule_line evening = ''00:1c:42:00:00:0a-1-12:00-13:30&18:00-21:15-0,'' \<and>
   hertParse_internetRules (rule_line evening @ rule_line blocked) none_vars =
     (Some \<lparr>v_mac = ''00:1c:42:00:00:0a'', v_acc = 1, v_lim = 0, v_start = ''12:00,18:00'', v_end = ''13:30,21:15''\<rparr>,
      rule_line evening)"
proof -
  have "vars_of evening =
      \<lparr>v_mac = ''00:1c:42:00:00:0a'', v_acc = 1, v_lim = 0, v_start = ''12:00,18:00'', v_end = ''13:30,21:15''\<rparr>"
    by (simp add: vars_of_def evening_def)
  moreover have "rule_line evening = ''00:1c:42:00:00:0a-1-12:00-13:30&18:00-21:15-0,''"
    by code_simp
  ultimately show ?thesis
    using access_rule_roundtrip [OF sample_rules_ok(1), of "rule_line blocked" none_vars] by simp
qed

text \<open>
  C30: setting a rule is the operation on the list of rules that it stands for: the new rule comes
  first, the device's old rule is gone, of more than 32 rules the last is dropped together with its
  entry in the firewall, and the table of the web server holds the same rules; no buffer overflows.
\<close>

theorem access_rules_refine:
  assumes "rule_ok b" and "\<forall>r \<in> set rs. rule_ok r" and "distinct (map devMac rs)" and "length rs \<le> 32"
  shows "hertUtil_updateAccessRulesInNvram (rules_text rs @ [CHR 0x0A]) b arr =
    Inr (rules_text (take 32 (put_rule b rs)),
      map (\<lambda>r. ''set_iptables.sh deleteDropRule '' @ devMac r) (drop 32 (put_rule b rs)),
      rule_table (take 32 (put_rule b rs)))"
  using assms by (rule set_rule)

lemma access_rules_refine_witness:
  "hertUtil_updateAccessRulesInNvram (rule_line blocked @ rule_line evening @ [CHR 0x0A]) (evening\<lparr>accessControl := 0\<rparr>) [] =
    Inr (rule_line (evening\<lparr>accessControl := 0\<rparr>) @ rule_line blocked, [],
      rule_line (evening\<lparr>accessControl := 0\<rparr>) # rule_line blocked # replicate 30 [])"
proof -
  have o: "rule_ok (evening\<lparr>accessControl := 0\<rparr>)" by code_simp
  have p: "put_rule (evening\<lparr>accessControl := 0\<rparr>) [blocked, evening] = [evening\<lparr>accessControl := 0\<rparr>, blocked]"
    by (simp add: put_rule_def evening_def blocked_def)
  have d: "distinct (map devMac [blocked, evening])" by (simp add: evening_def blocked_def)
  show ?thesis
    using access_rules_refine [OF o _ d, of "[]"] unfolding p by (simp add: rule_table_def)
qed



end
