(* ===== verification/QosRules.thy ===== *)
theory QosRules
  imports AccessProps
begin

text \<open>
  The rules for the quality of service of the clients (goahead/src/heroute_util.c): the change of one
  rule in the settings QoSULRules and QoSDLRules, and what the text stands for.  Rules are separated
  by ";", and the name of a rule has the last four hexadecimal digits of the client's address.
\<close>

definition MAX_QOS_RULES_SIZE :: nat where "MAX_QOS_RULES_SIZE = 2560"
definition MAX_QOS_RULES_NUMBER :: nat where "MAX_QOS_RULES_NUMBER = 32"

section \<open>The code\<close>

text \<open>The old rule is taken out; the rule behind it, if any, moves up.\<close>

definition qos_remove :: "string \<Rightarrow> string \<Rightarrow> string \<times> nat" where
  "qos_remove name cur = (let num = countSubString cur '';'' in
     case (if 0 < num then strstr cur name else None) of
       None \<Rightarrow> (cur, num)
     | Some t \<Rightarrow>
         if num = 1 then ([], 0)
         else (take (length cur - length t) cur @ (case strchr (CHR '';'') t of None \<Rightarrow> [] | Some u \<Rightarrow> tl u), num - 1))"

text \<open>
  Rules are taken off the end; \<open>n\<close> characters are left.  The first component of the result is what
  was copied last, empty when nothing was taken off.
\<close>

function qos_evict :: "nat \<Rightarrow> string \<Rightarrow> nat \<Rightarrow> nat \<Rightarrow> string \<Rightarrow> fault + string \<times> nat" where
  "qos_evict new cur num n str =
     (if MAX_QOS_RULES_SIZE + 1 < n + new \<or> MAX_QOS_RULES_NUMBER \<le> num then
        (case last_index (CHR '';'') (take n cur) of
           None \<Rightarrow> Inl ReadOverrun
         | Some k \<Rightarrow> qos_evict new cur (countSubString (take k cur) '';'') k (take k cur))
      else Inr (str, n))"
  by pat_completeness auto
termination
proof (relation "measure (\<lambda>(new, cur, num, n, str). n)", goal_cases)
  case 1
  then show ?case by simp
next
  case (2 new cur num n str k)
  then have "CHR '';'' \<in> set (take n cur)" "k \<le> length (take n cur) - 1"
    by (auto simp: last_index_def split: if_splits)
  then show ?case by (cases n) auto
qed

declare qos_evict.simps [simp del]

text \<open>The rule of the television is kept: it is put in front again, without ";".\<close>

definition iptv_rule :: "string \<Rightarrow> string" where
  "iptv_rule cur = (case strstr cur ''IPTV_'' of None \<Rightarrow> []
     | Some t \<Rightarrow> (case strchr (CHR '';'') t of None \<Rightarrow> t | Some u \<Rightarrow> take (length t - length u) t))"

text \<open>
  When nothing was left by the loop, the text is put behind itself: the copy does not find an end.
\<close>

definition iptv_again :: "string \<Rightarrow> string \<Rightarrow> string \<Rightarrow> nat \<Rightarrow> fault + string" where
  "iptv_again iptv cur str n =
     (if iptv = [] \<or> strstr str ''IPTV_'' \<noteq> None then Inr str
      else (case last_index (CHR '';'') (if str = [] then take n cur else str) of
          None \<Rightarrow> Inl ReadOverrun
        | Some k \<Rightarrow> if str = [] then Inl WriteOverflow
            else if MAX_QOS_RULES_SIZE \<le> length iptv + k then Inl WriteOverflow
            else Inr (iptv @ take k str)))"

definition qos_room :: "nat \<Rightarrow> string \<Rightarrow> nat \<Rightarrow> fault + string" where
  "qos_room new cur num =
     (if MAX_QOS_RULES_NUMBER \<le> num \<or> MAX_QOS_RULES_SIZE < new + length cur then
        (let iptv = iptv_rule cur in
         if 64 \<le> length iptv then Inl WriteOverflow
         else rbind (qos_evict new cur num (length cur) []) (\<lambda>(str, n). iptv_again iptv cur str n))
      else Inr cur)"

text \<open>None: the return code is 1 and nothing is stored in the buffer of the caller.\<close>

definition hertUtil_updateQOSNvram :: "string \<Rightarrow> string \<Rightarrow> fault + string option" where
  "hertUtil_updateQOSNvram out newQOSRule =
     rbind (hertUtil_GetNvram_Values out MAX_QOS_RULES_SIZE) (\<lambda>cur.
       if length newQOSRule < 20 then Inr None
       else (let (cur, num) = qos_remove (take 8 newQOSRule) cur in
         rbind (qos_room (length newQOSRule) cur num) (\<lambda>str.
           let res = newQOSRule @ (if str = [] then [] else '';'' @ str) in
           if MAX_QOS_RULES_SIZE \<le> length res then Inl WriteOverflow else Inr (Some res))))"

definition qos_group :: "int \<Rightarrow> int" where
  "qos_group g = (if g = 0 then 2 else if g = 1 then 6 else 1)"

definition qos_rule :: "string \<Rightarrow> int \<Rightarrow> string" where
  "qos_rule mac g = take 62 (''APP_'' @ [mac ! 12, mac ! 13, mac ! 15, mac ! 16] @ '','' @
     show_int (qos_group g) @ '',1,'' @ mac @ '',,,,,,,,,,,,,N/A'')"

text \<open>The texts of the two settings, when they are written.\<close>

definition hertUtil_updateQOSSetting :: "string \<Rightarrow> string \<Rightarrow> string \<Rightarrow> int \<Rightarrow> fault + (string \<times> string) option" where
  "hertUtil_updateQOSSetting up down tarMac g =
     (if length tarMac \<noteq> 17 \<or> g < 0 \<or> 2 < g then Inr None
      else rbind (hertUtil_updateQOSNvram up (qos_rule tarMac g)) (\<lambda>u.
        rbind (hertUtil_updateQOSNvram down (qos_rule tarMac g)) (\<lambda>d.
          Inr (case (u, d) of (Some u, Some d) \<Rightarrow> Some (u, d) | _ \<Rightarrow> None))))"

section \<open>Well formed rules\<close>

text \<open>A rule of a client: the only "_" is the one of its name.\<close>

definition qos_ok :: "string \<Rightarrow> bool" where
  "qos_ok r = (20 \<le> length r \<and> length r \<le> 62 \<and> take 4 r = ''APP_'' \<and> CHR ''_'' \<notin> set (drop 4 r) \<and>
     list_all (\<lambda>c. c \<noteq> CHR '';'' \<and> \<not> is_space c) r)"

definition qos_name :: "string \<Rightarrow> string" where
  "qos_name = take 8"

fun qos_text :: "string list \<Rightarrow> string" where
  "qos_text [] = []"
| "qos_text [r] = r"
| "qos_text (r # s # rs) = r @ CHR '';'' # qos_text (s # rs)"

lemma qos_text_Cons: "rs \<noteq> [] \<Longrightarrow> qos_text (r # rs) = r @ CHR '';'' # qos_text rs"
  by (cases rs) simp_all

lemma qos_text_append: "rs \<noteq> [] \<Longrightarrow> qs \<noteq> [] \<Longrightarrow> qos_text (rs @ qs) = qos_text rs @ CHR '';'' # qos_text qs"
proof (induction rs)
  case Nil
  then show ?case by simp
next
  case (Cons r rs)
  then show ?case by (cases rs) (simp_all add: qos_text_Cons)
qed

lemma qos_parts:
  assumes "qos_ok r"
  obtains d where "r = ''APP_'' @ d" "CHR ''_'' \<notin> set d" "CHR '';'' \<notin> set r" "length r \<le> 62" "20 \<le> length r" "r \<noteq> []"
proof -
  have "r = take 4 r @ drop 4 r" by simp
  then have "r = ''APP_'' @ drop 4 r" using assms by (metis qos_ok_def)
  moreover have "CHR '';'' \<notin> set r" using assms by (auto simp: qos_ok_def list_all_iff)
  moreover have "r \<noteq> []" using assms by (auto simp: qos_ok_def)
  ultimately show thesis using that [of "drop 4 r"] assms unfolding qos_ok_def by blast
qed

lemma name_sep: "qos_ok r \<Longrightarrow> CHR '';'' \<notin> set (qos_name r) \<and> qos_name r \<noteq> []"
  by (elim qos_parts) (auto simp: qos_name_def dest: in_set_takeD)

text \<open>A name is found only where a rule begins.\<close>

lemma strstr_qos_rule:
  assumes "qos_ok r" and "qos_ok n"
  shows "strstr r (qos_name n) = (if qos_name r = qos_name n then Some r else None)"
proof (cases "qos_name r = qos_name n")
  case True
  have "r \<noteq> []" "length r \<ge> 8" "length n \<ge> 8" using assms by (auto simp: qos_ok_def)
  then show ?thesis using True by (cases r) (auto simp: qos_name_def)
next
  case False
  obtain d where d: "r = ''APP_'' @ d" "CHR ''_'' \<notin> set d" using assms(1) by (elim qos_parts)
  obtain e where e: "n = ''APP_'' @ e" using assms(2) by (elim qos_parts)
  have l: "length n \<ge> 8" using assms(2) by (simp add: qos_ok_def)
  have "strstr r (qos_name n) = None"
  proof (rule ccontr)
    assume "strstr r (qos_name n) \<noteq> None"
    then obtain t u v where s: "r = u @ qos_name n @ v" by (metis not_None_eq strstr_SomeD)
    have m: "qos_name n = ''APP_'' @ take 4 e" using e by (simp add: qos_name_def)
    have "u = []"
    proof (rule ccontr)
      assume "u \<noteq> []"
      then obtain k where k: "length u = Suc k" by (cases u) auto
      have "r ! (length u + 3) = CHR ''_''" unfolding s m by (simp add: nth_append numeral_3_eq_3)
      moreover have "length u + 3 = 4 + k" using k by simp
      moreover have "r ! (4 + k) = d ! k" unfolding d(1) by (simp add: nth_append)
      moreover have "length u + 3 < length r" unfolding s m by simp
      then have "k < length d" using k unfolding d(1) by simp
      ultimately show False using d(2) by (metis nth_mem)
    qed
    then have "take 8 r = qos_name n" unfolding s using l by (simp add: qos_name_def)
    then show False using False by (simp add: qos_name_def)
  qed
  then show ?thesis using False by simp
qed

lemma strstr_qos:
  assumes "\<forall>r \<in> set rs. qos_ok r" and "qos_ok n"
  shows "strstr (qos_text rs) (qos_name n) = (if qos_name n \<in> qos_name ` set rs
    then Some (qos_text (dropWhile (\<lambda>r. qos_name r \<noteq> qos_name n) rs)) else None)"
  using assms(1)
proof (induction rs)
  case Nil
  then show ?case using name_sep [OF assms(2)] by simp
next
  case (Cons r rs)
  have s: "strstr r (qos_name n) = (if qos_name r = qos_name n then Some r else None)"
    using Cons.prems assms(2) by (intro strstr_qos_rule) simp_all
  show ?case
  proof (cases "rs = []")
    case True
    then show ?thesis using s by auto
  next
    case False
    have "strstr (qos_text (r # rs)) (qos_name n) =
        (case strstr r (qos_name n) of Some t \<Rightarrow> Some (t @ CHR '';'' # qos_text rs) | None \<Rightarrow> strstr (qos_text rs) (qos_name n))"
      unfolding qos_text_Cons [OF False] using name_sep [OF assms(2)] by (intro strstr_append_sep) simp_all
    then show ?thesis using s Cons False by (auto simp: qos_text_Cons)
  qed
qed

lemma count_qos:
  assumes "\<forall>r \<in> set rs. CHR '';'' \<notin> set r \<and> r \<noteq> []"
  shows "countSubString (qos_text rs) '';'' = length rs"
proof (cases "rs = []")
  case True
  then show ?thesis by (simp add: countSubString_def)
next
  case False
  have "count_from '';'' (qos_text rs) + 1 = length rs \<and> qos_text rs \<noteq> []"
    using False assms
  proof (induction rs)
    case Nil
    then show ?case by simp
  next
    case (Cons r rs)
    then show ?case by (cases "rs = []") (simp_all add: qos_text_Cons count_from_append count_from_notin)
  qed
  then show ?thesis by (simp add: countSubString_def)
qed

lemma qos_text_length: "\<forall>r \<in> set rs. length r \<le> 62 \<Longrightarrow> length (qos_text rs) \<le> 63 * length rs"
proof (induction rs)
  case Nil
  then show ?case by simp
next
  case (Cons r rs)
  then show ?case by (cases "rs = []") (simp_all add: qos_text_Cons)
qed

section \<open>Taking a rule out\<close>

lemma qos_okD: "qos_ok r \<Longrightarrow> CHR '';'' \<notin> set r \<and> r \<noteq> [] \<and> length r \<le> 62"
  by (auto elim: qos_parts)

lemma qos_text_eq_Nil: "\<forall>r \<in> set rs. r \<noteq> [] \<Longrightarrow> qos_text rs = [] \<longleftrightarrow> rs = []"
  by (cases rs rule: qos_text.cases) auto

text \<open>What stays: the other rules, and a ";" when the last of several was taken out.\<close>

definition left_sep :: "string \<Rightarrow> string list \<Rightarrow> string" where
  "left_sep name rs = (if 2 \<le> length rs \<and> qos_name (last rs) = name then '';'' else [])"

lemma qos_remove_text:
  assumes "\<forall>r \<in> set rs. qos_ok r" and "qos_ok n" and "distinct (map qos_name rs)"
  shows "qos_remove (qos_name n) (qos_text rs) =
    (qos_text (filter (\<lambda>r. qos_name r \<noteq> qos_name n) rs) @ left_sep (qos_name n) rs,
     length (filter (\<lambda>r. qos_name r \<noteq> qos_name n) rs))"
proof -
  let ?m = "qos_name n"
  have c: "countSubString (qos_text rs) '';'' = length rs" using assms(1) qos_okD by (intro count_qos) blast
  show ?thesis
  proof (cases "?m \<in> qos_name ` set rs")
    case False
    then have o: "\<forall>r \<in> set rs. qos_name r \<noteq> ?m" by (metis image_eqI)
    then have f: "filter (\<lambda>r. qos_name r \<noteq> ?m) rs = rs" by (simp add: filter_id_conv)
    have "left_sep ?m rs = []" using o by (cases rs rule: rev_cases) (simp_all add: left_sep_def)
    then show ?thesis using False strstr_qos [OF assms(1,2)] c f by (simp add: qos_remove_def Let_def)
  next
    case True
    then obtain r where r: "r \<in> set rs" "qos_name r = ?m" by auto
    then obtain as bs where rs: "rs = as @ r # bs" by (meson split_list)
    have "qos_name r \<notin> qos_name ` set as \<union> qos_name ` set bs" using assms(3) unfolding rs by simp
    then have o: "\<forall>x \<in> set as \<union> set bs. qos_name x \<noteq> ?m" using r(2) by (metis Un_iff image_eqI)
    then have f: "filter (\<lambda>r. qos_name r \<noteq> ?m) rs = as @ bs" using r(2) unfolding rs by (auto simp: filter_id_conv)
    have d: "dropWhile (\<lambda>r. qos_name r \<noteq> ?m) rs = r # bs" using o r(2) unfolding rs by (simp add: dropWhile_append2)
    have s: "strstr (qos_text rs) ?m = Some (qos_text (r # bs))" using strstr_qos [OF assms(1,2)] True d by simp
    have ne: "CHR '';'' \<notin> set r" "r \<noteq> []" using assms(1) r(1) qos_okD by blast+
    have q: "strchr (CHR '';'') (qos_text (r # bs)) = (if bs = [] then None else Some (CHR '';'' # qos_text bs))"
      using ne by (simp add: qos_text_Cons)
    have t: "take (length (qos_text rs) - length (qos_text (r # bs))) (qos_text rs) =
        (if as = [] then [] else qos_text as @ '';'')"
      unfolding rs by (simp add: qos_text_append)
    have l: "left_sep ?m rs = (if as \<noteq> [] \<and> bs = [] then '';'' else [])"
    proof (cases "bs = []")
      case True
      then show ?thesis using r(2) unfolding rs by (cases as) (simp_all add: left_sep_def)
    next
      case False
      then have "qos_name (last bs) \<noteq> ?m" using o by simp
      then show ?thesis using False unfolding rs by (simp add: left_sep_def)
    qed
    have n: "length rs = Suc (length as + length bs)" unfolding rs by simp
    show ?thesis
    proof (cases "length rs = 1")
      case True
      then show ?thesis using s c f l n by (simp add: qos_remove_def Let_def)
    next
      case False
      then have ab: "as \<noteq> [] \<or> bs \<noteq> []" using n by auto
      have "qos_remove ?m (qos_text rs) = (take (length (qos_text rs) - length (qos_text (r # bs))) (qos_text rs) @
          (case strchr (CHR '';'') (qos_text (r # bs)) of None \<Rightarrow> [] | Some u \<Rightarrow> tl u), length rs - 1)"
        using False n s c ab by (auto simp: qos_remove_def Let_def)
      also have "\<dots> = (qos_text (as @ bs) @ left_sep ?m rs, length (as @ bs))"
        unfolding t q l using ab n by (auto simp: qos_text_append)
      finally show ?thesis unfolding f .
    qed
  qed
qed

section \<open>Taking rules off the end\<close>

lemma last_rule:
  assumes "CHR '';'' \<notin> set r" and "rs \<noteq> []"
  shows "last_index (CHR '';'') (qos_text (rs @ [r])) = Some (length (qos_text rs))"
    "take (length (qos_text rs)) (qos_text (rs @ [r])) = qos_text rs"
  using last_index_before [OF assms(1), of "qos_text rs"] assms(2) by (simp_all add: qos_text_append)

lemma qos_evict_done: "n + new \<le> MAX_QOS_RULES_SIZE + 1 \<Longrightarrow> num < MAX_QOS_RULES_NUMBER \<Longrightarrow>
    qos_evict new cur num n str = Inr (str, n)"
  by (subst qos_evict.simps) simp

lemma qos_evict_last:
  assumes "\<forall>x \<in> set rs. CHR '';'' \<notin> set x \<and> x \<noteq> [] \<and> length x \<le> 62" and "CHR '';'' \<notin> set r"
    and "length rs = 31" and "new \<le> 62"
  shows "qos_evict new (qos_text (rs @ [r])) 32 (length (qos_text (rs @ [r]))) [] =
    Inr (qos_text rs, length (qos_text rs))"
proof -
  have ne: "rs \<noteq> []" using assms(3) by auto
  have t: "take (length (qos_text (rs @ [r]))) (qos_text (rs @ [r])) = qos_text (rs @ [r])" by simp
  have c: "countSubString (qos_text rs) '';'' = 31" using count_qos [of rs] assms(1,3) by simp
  have z: "length (qos_text rs) + new \<le> MAX_QOS_RULES_SIZE + 1"
    using qos_text_length [of rs] assms(1,3,4) by (simp add: MAX_QOS_RULES_SIZE_def)
  have "(31::nat) < MAX_QOS_RULES_NUMBER" "MAX_QOS_RULES_NUMBER \<le> 32" by (simp_all add: MAX_QOS_RULES_NUMBER_def)
  then show ?thesis
    by (subst qos_evict.simps) (simp only: t last_rule [OF assms(2) ne] option.case c qos_evict_done [OF z] if_True simp_thms)
qed

section \<open>Setting a rule\<close>

text \<open>The list of rules: the newest first, one for each name, at most 32.\<close>

definition put_qos :: "string \<Rightarrow> string list \<Rightarrow> string list" where
  "put_qos n rs = take 32 (n # filter (\<lambda>r. qos_name r \<noteq> qos_name n) rs)"

lemma no_iptv_rule: "qos_ok r \<Longrightarrow> strstr r ''IPTV_'' = None"
proof (rule ccontr)
  assume "qos_ok r" and "strstr r ''IPTV_'' \<noteq> None"
  then obtain d u v where d: "r = ''APP_'' @ d" "CHR ''_'' \<notin> set d" and s: "r = u @ ''IPTV_'' @ v"
    by (elim qos_parts) (metis not_None_eq strstr_SomeD)
  have "r ! (length u + 4) = CHR ''_''" unfolding s by (simp add: nth_append eval_nat_numeral)
  moreover have "r ! (length u + 4) = d ! length u" unfolding d(1) by (simp add: nth_append)
  moreover have "length u + 4 < length r" unfolding s by simp
  then have "length u < length d" unfolding d(1) by simp
  ultimately show False using d(2) by (metis nth_mem)
qed

lemma no_iptv: "\<forall>r \<in> set rs. qos_ok r \<Longrightarrow> strstr (qos_text rs) ''IPTV_'' = None"
proof (induction rs)
  case Nil
  then show ?case by simp
next
  case (Cons r rs)
  then have r: "strstr r ''IPTV_'' = None" by (simp add: no_iptv_rule)
  show ?case
  proof (cases "rs = []")
    case True
    then show ?thesis using r by simp
  next
    case False
    have "strstr (r @ CHR '';'' # qos_text rs) ''IPTV_'' =
        (case strstr r ''IPTV_'' of Some t \<Rightarrow> Some (t @ CHR '';'' # qos_text rs) | None \<Rightarrow> strstr (qos_text rs) ''IPTV_'')"
      by (intro strstr_append_sep) simp_all
    then show ?thesis using r Cons False by (simp add: qos_text_Cons)
  qed
qed

lemma qos_chars: "\<forall>r \<in> set rs. qos_ok r \<Longrightarrow> list_all (\<lambda>c. \<not> is_space c) (qos_text rs)"
proof (induction rs)
  case Nil
  then show ?case by simp
next
  case (Cons r rs)
  then have "list_all (\<lambda>c. c \<noteq> CHR '';'' \<and> \<not> is_space c) r" by (simp only: qos_ok_def list.set_intros simp_thms)
  then have "list_all (\<lambda>c. \<not> is_space c) r" by (rule list.pred_mono_strong) simp
  moreover have "\<not> is_space (CHR '';'')" by (simp add: is_space_def)
  ultimately show ?case using Cons by (cases "rs = []") (simp_all add: qos_text_Cons)
qed

lemma qos_read:
  assumes "\<forall>r \<in> set rs. qos_ok r" and "length rs \<le> 32"
  shows "hertUtil_GetNvram_Values (qos_text rs @ [CHR 0x0A]) MAX_QOS_RULES_SIZE = Inr (qos_text rs)"
proof -
  have "\<forall>c \<in> set (qos_text rs). \<not> is_space c" using qos_chars [OF assms(1)] by (simp add: list_all_iff)
  then show ?thesis
    using qos_text_length [of rs] assms qos_okD remove_crln_line(1)
    by (simp add: hertUtil_GetNvram_Values_def MAX_QOS_RULES_SIZE_def)
qed

lemma qos_room_text:
  assumes "\<forall>r \<in> set fs. qos_ok r" and "length fs \<le> 32" and "new \<le> 62" and "length fs = 32 \<longrightarrow> s = []" and "length s \<le> 1"
  shows "qos_room new (qos_text fs @ s) (length fs) = Inr (qos_text (take 31 fs) @ s)"
proof (cases "length fs = 32")
  case False
  then have f: "length fs \<le> 31" using assms(2) by simp
  have "length (qos_text fs) \<le> 63 * length fs" using assms(1) qos_okD by (intro qos_text_length) blast
  then have "\<not> (MAX_QOS_RULES_NUMBER \<le> length fs \<or> MAX_QOS_RULES_SIZE < new + length (qos_text fs @ s))"
    using f assms(3,5) by (simp add: MAX_QOS_RULES_NUMBER_def MAX_QOS_RULES_SIZE_def)
  then show ?thesis using f by (simp add: qos_room_def)
next
  case True
  obtain qs r where q: "fs = qs @ [r]" using True by (cases fs rule: rev_cases) auto
  have l: "length qs = 31" using True unfolding q by simp
  have a: "\<forall>x \<in> set qs. CHR '';'' \<notin> set x \<and> x \<noteq> [] \<and> length x \<le> 62" "CHR '';'' \<notin> set r"
    using assms(1) qos_okD unfolding q by simp_all
  have i: "iptv_rule (qos_text fs) = []" by (simp add: iptv_rule_def no_iptv [OF assms(1)])
  have "qos_evict new (qos_text fs) 32 (length (qos_text fs)) [] = Inr (qos_text qs, length (qos_text qs))"
    unfolding q by (rule qos_evict_last [OF a l assms(3)])
  then have "qos_room new (qos_text fs) 32 = Inr (qos_text qs)"
    by (simp add: qos_room_def Let_def i iptv_again_def MAX_QOS_RULES_NUMBER_def)
  then show ?thesis using True assms(4) l q by simp
qed

lemma set_qos:
  assumes "\<forall>r \<in> set rs. qos_ok r" and "qos_ok n" and "distinct (map qos_name rs)" and "length rs \<le> 32"
  shows "hertUtil_updateQOSNvram (qos_text rs @ [CHR 0x0A]) n =
    Inr (Some (qos_text (put_qos n rs) @ left_sep (qos_name n) rs))"
proof -
  define fs where "fs = filter (\<lambda>r. qos_name r \<noteq> qos_name n) rs"
  define s where "s = left_sep (qos_name n) rs"
  have fs: "\<forall>r \<in> set fs. qos_ok r" "length fs \<le> 32"
    using assms(1,4) le_trans [OF length_filter_le] by (auto simp: fs_def)
  have s: "length s \<le> 1" "s \<noteq> [] \<longrightarrow> length fs < 32"
  proof -
    show "length s \<le> 1" by (simp add: s_def left_sep_def)
    show "s \<noteq> [] \<longrightarrow> length fs < 32"
    proof
      assume "s \<noteq> []"
      then have "rs \<noteq> []" "qos_name (last rs) = qos_name n" by (auto simp: s_def left_sep_def split: if_splits)
      then have "length fs < length rs" unfolding fs_def by (intro length_filter_less [of "last rs"]) simp_all
      then show "length fs < 32" using assms(4) by simp
    qed
  qed
  have sep: "s \<noteq> [] \<longrightarrow> fs \<noteq> []"
  proof
    assume "s \<noteq> []"
    then have a: "2 \<le> length rs" "qos_name (last rs) = qos_name n" by (auto simp: s_def left_sep_def split: if_splits)
    then obtain r q qs where rs: "rs = r # q # qs" by (auto simp: Suc_le_length_iff numeral_2_eq_2)
    then have "qos_name r \<noteq> qos_name (last rs)" using assms(3) by auto
    then show "fs \<noteq> []" using a(2) by (simp add: fs_def rs)
  qed
  have n: "length n \<le> 62" "\<not> length n < 20" using assms(2) by (simp_all add: qos_ok_def)
  have l: "length (qos_text (take 31 fs)) \<le> 1953"
  proof -
    have "length (qos_text (take 31 fs)) \<le> 63 * length (take 31 fs)"
      using fs(1) qos_okD by (intro qos_text_length) (blast dest: in_set_takeD)
    then show ?thesis by simp
  qed
  have rm: "qos_remove (take 8 n) (qos_text rs) = (qos_text fs @ s, length fs)"
    using qos_remove_text [OF assms(1-3)] by (simp add: fs_def s_def qos_name_def)
  have room: "qos_room (length n) (qos_text fs @ s) (length fs) = Inr (qos_text (take 31 fs) @ s)"
    using s by (intro qos_room_text [OF fs n(1)]) auto
  have "\<forall>r \<in> set (take 31 fs). r \<noteq> []" using fs(1) qos_okD by (blast dest: in_set_takeD)
  then have e: "qos_text (take 31 fs) @ s = [] \<longleftrightarrow> take 31 fs = []" using sep qos_text_eq_Nil by auto
  have p: "put_qos n rs = n # take 31 fs" by (simp add: put_qos_def fs_def)
  have t: "n @ (if qos_text (take 31 fs) @ s = [] then [] else '';'' @ qos_text (take 31 fs) @ s) = qos_text (put_qos n rs) @ s"
    unfolding e p using sep by (cases "take 31 fs = []") (auto simp: qos_text_Cons)
  have z: "\<not> MAX_QOS_RULES_SIZE \<le> length (qos_text (put_qos n rs) @ s)"
    unfolding t [symmetric] using n(1) s(1) l by (simp add: MAX_QOS_RULES_SIZE_def)
  show ?thesis
    by (simp only: hertUtil_updateQOSNvram_def qos_read [OF assms(1,4)] rbind_Inr n(2) if_False rm Let_def prod.case room t z
        s_def [symmetric])
qed

text \<open>An address that can stand in a rule.\<close>

definition mac_ok :: "string \<Rightarrow> bool" where
  "mac_ok m = (length m = 17 \<and> list_all (\<lambda>c. c \<noteq> CHR ''_'' \<and> c \<noteq> CHR '';'' \<and> \<not> is_space c) m)"

lemma show_qos_group: "\<exists>d. show_int (qos_group g) = [d] \<and> is_digit d"
proof -
  have "show_nat k = [digit_char k]" if "k < 10" for k using that by (subst show_nat.simps) simp
  then show ?thesis by (auto simp: qos_group_def show_int_def)
qed

lemma qos_rule_ok:
  assumes "mac_ok m"
  shows "qos_ok (qos_rule m g)" "qos_name (qos_rule m g) = ''APP_'' @ [m ! 12, m ! 13, m ! 15, m ! 16]"
proof -
  let ?P = "\<lambda>c. c \<noteq> CHR ''_'' \<and> c \<noteq> CHR '';'' \<and> \<not> is_space c"
  obtain d where d: "show_int (qos_group g) = [d]" "is_digit d" using show_qos_group by blast
  have m: "length m = 17" "list_all ?P m" using assms by (simp_all add: mac_ok_def)
  have w: "?P (m ! k)" if "k < 17" for k using m that by (auto simp: list_all_length)
  have "?P d" using d(2) is_digit_not_space by (auto simp: is_digit_def)
  moreover have "?P (CHR '','')" "?P (CHR ''1'')" "?P (CHR ''N'')" "?P (CHR ''/'')" "?P (CHR ''A'')"
    "\<not> is_space (CHR ''P'')" "\<not> is_space (CHR ''_'')" by (simp_all add: is_space_def)
  ultimately have p: "list_all ?P ([m ! 12, m ! 13, m ! 15, m ! 16] @ '','' @ [d] @ '',1,'' @ m @ '',,,,,,,,,,,,,N/A'')"
    "list_all (\<lambda>c. c \<noteq> CHR '';'' \<and> \<not> is_space c) ''APP_''"
    using w m(2) by simp_all
  have r: "qos_rule m g = ''APP_'' @ ([m ! 12, m ! 13, m ! 15, m ! 16] @ '','' @ [d] @ '',1,'' @ m @ '',,,,,,,,,,,,,N/A'')"
    unfolding qos_rule_def d(1) using m(1) by simp
  let ?s = "[m ! 12, m ! 13, m ! 15, m ! 16] @ '','' @ [d] @ '',1,'' @ m @ '',,,,,,,,,,,,,N/A''"
  have "list_all (\<lambda>c. c \<noteq> CHR '';'' \<and> \<not> is_space c) ?s" using p(1) by (rule list.pred_mono_strong) simp
  moreover have "CHR ''_'' \<notin> set ?s" using p(1) unfolding list_all_iff by blast
  moreover have "20 \<le> length (''APP_'' @ ?s)" "length (''APP_'' @ ?s) \<le> 62" using m(1) by simp_all
  moreover have "take 4 (''APP_'' @ ?s) = ''APP_''" "drop 4 (''APP_'' @ ?s) = ?s" by simp_all
  ultimately show "qos_ok (qos_rule m g)"
    unfolding r qos_ok_def using p(2) by (simp only: list_all_append simp_thms)
  show "qos_name (qos_rule m g) = ''APP_'' @ [m ! 12, m ! 13, m ! 15, m ! 16]"
    unfolding r qos_name_def by simp
qed

section \<open>The rule of the television\<close>

definition iptv_ok :: "string \<Rightarrow> bool" where
  "iptv_ok tv = (take 5 tv = ''IPTV_'' \<and> length tv \<le> 62 \<and> list_all (\<lambda>c. c \<noteq> CHR '';'' \<and> \<not> is_space c) tv \<and>
     CHR ''_'' \<notin> set (drop 5 tv))"

lemma iptv_parts:
  assumes "iptv_ok tv"
  obtains d where "tv = ''IPTV_'' @ d" "CHR ''_'' \<notin> set d" "CHR '';'' \<notin> set tv" "length tv \<le> 62"
proof -
  have "tv = take 5 tv @ drop 5 tv" by simp
  then have "tv = ''IPTV_'' @ drop 5 tv" using assms by (metis iptv_ok_def)
  moreover have "CHR '';'' \<notin> set tv" using assms by (auto simp: iptv_ok_def list_all_iff)
  ultimately show thesis using that [of "drop 5 tv"] assms unfolding iptv_ok_def by blast
qed

lemma no_name_in_iptv:
  assumes "iptv_ok tv" and "qos_ok n"
  shows "strstr tv (qos_name n) = None"
proof (rule ccontr)
  assume "strstr tv (qos_name n) \<noteq> None"
  then obtain u v where s: "tv = u @ qos_name n @ v" by (metis not_None_eq strstr_SomeD)
  obtain e where e: "n = ''APP_'' @ e" using assms(2) by (elim qos_parts)
  obtain d where d: "tv = ''IPTV_'' @ d" "CHR ''_'' \<notin> set d" using assms(1) by (elim iptv_parts)
  have m: "qos_name n = ''APP_'' @ take 4 e" using e by (simp add: qos_name_def)
  have at: "tv ! (length u + 3) = CHR ''_''" "tv ! length u = CHR ''A''" "length u + 3 < length tv"
    unfolding s m by (simp_all add: nth_append numeral_3_eq_3)
  have "\<not> 2 \<le> length u"
  proof
    assume "2 \<le> length u"
    then obtain k where k: "length u = 2 + k" using le_Suc_ex by blast
    have "tv ! (length u + 3) = d ! k" unfolding d(1) k by (simp add: nth_append eval_nat_numeral)
    moreover have "k < length d" using at(3) unfolding d(1) k by simp
    ultimately show False using at(1) d(2) by (metis nth_mem)
  qed
  then have "length u = 0 \<or> length u = 1" by linarith
  then show False using at(2) unfolding d(1) by auto
qed

lemma strstr_last:
  assumes "\<forall>r \<in> set rs. strstr r p = None" and "CHR '';'' \<notin> set p" and "p \<noteq> []"
  shows "strstr (qos_text (rs @ [tv])) p = strstr tv p"
  using assms(1)
proof (induction rs)
  case Nil
  then show ?case by simp
next
  case (Cons r rs)
  then show ?case using strstr_append_sep [OF assms(2,3), of r "qos_text (rs @ [tv])"] by (simp add: qos_text_Cons)
qed

section \<open>The properties\<close>

lemma qos_updated:
  assumes "mac_ok mac" and "0 \<le> g" and "g \<le> 2"
    and "\<forall>r \<in> set us \<union> set ds. qos_ok r" and "length us \<le> 32" and "length ds \<le> 32"
    and "distinct (map qos_name us)" and "distinct (map qos_name ds)"
  shows "hertUtil_updateQOSSetting (qos_text us @ [CHR 0x0A]) (qos_text ds @ [CHR 0x0A]) mac g =
    Inr (Some (qos_text (put_qos (qos_rule mac g) us) @ left_sep (qos_name (qos_rule mac g)) us,
      qos_text (put_qos (qos_rule mac g) ds) @ left_sep (qos_name (qos_rule mac g)) ds))"
proof -
  note r = qos_rule_ok(1) [OF assms(1), of g]
  have "hertUtil_updateQOSNvram (qos_text us @ [CHR 0x0A]) (qos_rule mac g) =
      Inr (Some (qos_text (put_qos (qos_rule mac g) us) @ left_sep (qos_name (qos_rule mac g)) us))"
    using assms(4) by (intro set_qos [OF _ r assms(7,5)]) simp
  moreover have "hertUtil_updateQOSNvram (qos_text ds @ [CHR 0x0A]) (qos_rule mac g) =
      Inr (Some (qos_text (put_qos (qos_rule mac g) ds) @ left_sep (qos_name (qos_rule mac g)) ds))"
    using assms(4) by (intro set_qos [OF _ r assms(8,6)]) simp
  moreover have "length mac = 17" using assms(1) by (simp add: mac_ok_def)
  ultimately show ?thesis using assms(2,3) by (simp add: hertUtil_updateQOSSetting_def)
qed

text \<open>
  C32: setting the group of a client is, in both settings, the operation on the list of rules: its
  rule comes first, the old rule with the name is gone, of more than 32 rules the last is dropped.
  When the old rule was the last of several, a ";" is left at the end.
\<close>

theorem qos_setting_refines:
  assumes "mac_ok mac" and "0 \<le> g" and "g \<le> 2"
    and "\<forall>r \<in> set us \<union> set ds. qos_ok r" and "length us \<le> 32" and "length ds \<le> 32"
    and "distinct (map qos_name us)" and "distinct (map qos_name ds)"
  shows "hertUtil_updateQOSSetting (qos_text us @ [CHR 0x0A]) (qos_text ds @ [CHR 0x0A]) mac g =
    Inr (Some (qos_text (put_qos (qos_rule mac g) us) @ left_sep (qos_name (qos_rule mac g)) us,
      qos_text (put_qos (qos_rule mac g) ds) @ left_sep (qos_name (qos_rule mac g)) ds))"
  using assms by (rule qos_updated)

lemma qos_setting_refines_witness:
  "hertUtil_updateQOSSetting (qos_text [qos_rule ''00:1c:42:00:00:0b'' 2, qos_rule ''00:1c:42:00:00:0a'' 1] @ [CHR 0x0A])
     [CHR 0x0A] ''00:1c:42:00:00:0a'' 0 =
   Inr (Some (qos_text [qos_rule ''00:1c:42:00:00:0a'' 0, qos_rule ''00:1c:42:00:00:0b'' 2] @ '';'',
     qos_rule ''00:1c:42:00:00:0a'' 0)) \<and>
   qos_rule ''00:1c:42:00:00:0a'' 0 = ''APP_000a,2,1,00:1c:42:00:00:0a,,,,,,,,,,,,,N/A''"
proof -
  define a where "a = ''00:1c:42:00:00:0a''"
  define b where "b = ''00:1c:42:00:00:0b''"
  have m: "mac_ok a" "mac_ok b" unfolding a_def b_def by (code_simp, code_simp)
  have n: "qos_name (qos_rule a g) = ''APP_000a''" "qos_name (qos_rule b g) = ''APP_000b''" for g
    using qos_rule_ok(2) [OF m(1)] qos_rule_ok(2) [OF m(2)] by (simp_all add: a_def b_def)
  have p: "put_qos (qos_rule a 0) [qos_rule b 2, qos_rule a 1] = [qos_rule a 0, qos_rule b 2]"
    "put_qos (qos_rule a 0) [] = [qos_rule a 0]"
    "left_sep (qos_name (qos_rule a 0)) [qos_rule b 2, qos_rule a 1] = '';''" "left_sep (qos_name (qos_rule a 0)) [] = []"
    by (simp_all add: put_qos_def n left_sep_def)
  have r: "qos_rule a 0 = ''APP_000a,2,1,00:1c:42:00:00:0a,,,,,,,,,,,,,N/A''" unfolding a_def by code_simp
  have "hertUtil_updateQOSSetting (qos_text [qos_rule b 2, qos_rule a 1] @ [CHR 0x0A]) (qos_text [] @ [CHR 0x0A]) a 0 =
     Inr (Some (qos_text [qos_rule a 0, qos_rule b 2] @ '';'', qos_text [qos_rule a 0] @ []))"
    using qos_setting_refines [OF m(1), of 0 "[qos_rule b 2, qos_rule a 1]" "[]"] unfolding p
    by (simp add: qos_rule_ok(1) [OF m(1)] qos_rule_ok(1) [OF m(2)] n)
  then show ?thesis using r unfolding a_def b_def by simp
qed

text \<open>
  When the list is full and the rule of the television is the last of its 32, a new rule makes
  the code put the television's rule in front of the others without a separator: it is merged with
  the rule that was first.
\<close>

theorem iptv_rule_merged:
  assumes "\<forall>r \<in> set rs. qos_ok r" and "length rs = 31" and "qos_ok n" and "qos_name n \<notin> qos_name ` set rs"
    and "iptv_ok tv"
  shows "hertUtil_updateQOSNvram (qos_text (rs @ [tv]) @ [CHR 0x0A]) n =
    Inr (Some (n @ '';'' @ tv @ qos_text (take 30 rs)))"
proof -
  obtain d where d: "tv = ''IPTV_'' @ d" "CHR '';'' \<notin> set tv" "length tv \<le> 62" using assms(5) by (elim iptv_parts)
  obtain qs r where q: "rs = qs @ [r]" using assms(2) by (cases rs rule: rev_cases) auto
  have ne: "rs \<noteq> []" "qs \<noteq> []" using assms(2) unfolding q by auto
  let ?T = "qos_text (rs @ [tv])"
  have w: "\<forall>x \<in> set rs. CHR '';'' \<notin> set x \<and> x \<noteq> [] \<and> length x \<le> 62" using assms(1) qos_okD by blast
  have len: "length (qos_text rs) \<le> 1953" "length (qos_text qs) \<le> 1890"
    using qos_text_length [of rs] qos_text_length [of qs] w assms(2) unfolding q by auto
  have read: "hertUtil_GetNvram_Values (?T @ [CHR 0x0A]) MAX_QOS_RULES_SIZE = Inr ?T"
  proof -
    have "list_all (\<lambda>c. c \<noteq> CHR '';'' \<and> \<not> is_space c) tv" using assms(5) by (simp only: iptv_ok_def)
    then have "list_all (\<lambda>c. \<not> is_space c) tv" by (rule list.pred_mono_strong) simp
    moreover have "\<not> is_space (CHR '';'')" by (simp add: is_space_def)
    ultimately have "list_all (\<lambda>c. \<not> is_space c) ?T" using qos_chars [OF assms(1)] ne(1) by (simp add: qos_text_append)
    then have "\<forall>c \<in> set ?T. \<not> is_space c" by (simp add: list_all_iff)
    then have "remove_crln (?T @ [CHR 0x0A]) = ?T" by (rule remove_crln_line)
    then show ?thesis using len(1) d(3) ne(1) by (simp add: hertUtil_GetNvram_Values_def MAX_QOS_RULES_SIZE_def qos_text_append)
  qed
  have c: "countSubString ?T '';'' = 32" using count_qos [of "rs @ [tv]"] w d assms(2) by simp
  have "\<forall>x \<in> set rs. strstr x (qos_name n) = None"
  proof
    fix x assume x: "x \<in> set rs"
    then have "qos_name x \<noteq> qos_name n" using assms(4) by (metis image_eqI)
    then show "strstr x (qos_name n) = None" using assms(1,3) x by (simp add: strstr_qos_rule)
  qed
  then have "strstr ?T (qos_name n) = None"
    using strstr_last name_sep [OF assms(3)] no_name_in_iptv [OF assms(5,3)] by simp
  then have rm: "qos_remove (take 8 n) ?T = (?T, 32)" by (simp add: qos_remove_def c Let_def qos_name_def)
  have "strstr ?T ''IPTV_'' = Some tv"
    using strstr_last [of rs "''IPTV_''" tv] assms(1) no_iptv_rule d(1) by simp
  then have tv: "iptv_rule ?T = tv" using d(2) by (auto simp: iptv_rule_def split: option.split dest: strchr_SomeD)
  have ev: "qos_evict (length n) ?T 32 (length ?T) [] = Inr (qos_text rs, length (qos_text rs))"
    using qos_okD [OF assms(3)] by (intro qos_evict_last [OF w d(2) assms(2)]) simp
  have rs: "qos_text rs \<noteq> []" using ne(1) w qos_text_eq_Nil [of rs] by blast
  have li: "last_index (CHR '';'') (qos_text rs) = Some (length (qos_text qs))" "take (length (qos_text qs)) (qos_text rs) = qos_text qs"
    using w ne(2) unfolding q by (intro last_rule; simp)+
  have ag: "iptv_again tv ?T (qos_text rs) (length (qos_text rs)) = Inr (tv @ qos_text qs)"
    using rs len(2) d(1,3) by (simp add: iptv_again_def no_iptv [OF assms(1)] li MAX_QOS_RULES_SIZE_def)
  have room: "qos_room (length n) ?T 32 = Inr (tv @ qos_text qs)"
    using d(3) by (simp add: qos_room_def MAX_QOS_RULES_NUMBER_def tv Let_def ev ag)
  have t: "take 30 rs = qs" using assms(2) unfolding q by simp
  have n: "\<not> length n < 20" "length n \<le> 62" using assms(3) by (simp_all add: qos_ok_def)
  have z: "\<not> MAX_QOS_RULES_SIZE \<le> length (n @ '';'' @ tv @ qos_text qs)" "tv @ qos_text qs \<noteq> []"
    using n(2) d(1,3) len(2) by (simp_all add: MAX_QOS_RULES_SIZE_def)
  show ?thesis
    by (simp only: hertUtil_updateQOSNvram_def read rbind_Inr n(1) if_False rm Let_def prod.case room t z)
qed

lemma iptv_rule_merged_witness:
  "hertUtil_updateQOSNvram (qos_text (replicate 31 (qos_rule ''00:1c:42:00:00:0b'' 1) @ [''IPTV_box,1'']) @ [CHR 0x0A])
     (qos_rule ''00:1c:42:00:00:0a'' 0) =
   Inr (Some (qos_rule ''00:1c:42:00:00:0a'' 0 @ '';'' @ ''IPTV_box,1'' @
     qos_text (take 30 (replicate 31 (qos_rule ''00:1c:42:00:00:0b'' 1)))))"
proof (rule iptv_rule_merged)
  have m: "mac_ok ''00:1c:42:00:00:0a''" "mac_ok ''00:1c:42:00:00:0b''" by (code_simp, code_simp)
  show "\<forall>r \<in> set (replicate 31 (qos_rule ''00:1c:42:00:00:0b'' 1)). qos_ok r" using qos_rule_ok(1) [OF m(2)] by simp
  show "qos_ok (qos_rule ''00:1c:42:00:00:0a'' 0)" by (rule qos_rule_ok(1) [OF m(1)])
  show "qos_name (qos_rule ''00:1c:42:00:00:0a'' 0) \<notin> qos_name ` set (replicate 31 (qos_rule ''00:1c:42:00:00:0b'' 1))"
    using qos_rule_ok(2) [OF m(1)] qos_rule_ok(2) [OF m(2)] by simp
  show "iptv_ok ''IPTV_box,1''" by code_simp
qed simp

end
