(* ===== verification/WebJson.thy ===== *)
theory WebJson
  imports JsonBuild AccessRules
begin

text \<open>
  The reader of the local application's messages (goahead/src/heroute_util.c, lines 434 to 604, and
  websHertAppPro_Parse_Msg_Type of herouter.c): the item parser with its rules for lists of objects,
  and the search for the message type.
\<close>

section \<open>The item parser\<close>

text \<open>A comma behind a closing brace or bracket ends a list: the value ends at the brace.\<close>

definition brace_end :: "string \<Rightarrow> (string \<times> string) option" where
  "brace_end l = map_option (\<lambda>r. (r, tl r)) (strchr STR_END2 l)"

definition web_value_end :: "string \<Rightarrow> (string \<times> string) option" where
  "web_value_end l = (case strchr STR_END1 l of
       None \<Rightarrow> brace_end l
     | Some r \<Rightarrow>
         let k = length l - length r in
         if 0 < k \<and> (l ! (k - 1) = CHR ''}'' \<or> l ! (k - 1) = CHR '']'') then brace_end l else Some (r, tl r))"

text \<open>The name between two quotation marks, and the text behind its colon.\<close>

definition web_name :: "string \<Rightarrow> (string \<times> string) option" where
  "web_name p = (case strchr STR_QUOTATION p of
       None \<Rightarrow> None
     | Some q \<Rightarrow> (case strchr STR_QUOTATION (tl q) of
         None \<Rightarrow> None
       | Some r \<Rightarrow> (case strchr STR_SEPRATION r of
           None \<Rightarrow> None
         | Some c \<Rightarrow> Some (span_text 128 (tl q) r, tl c))))"

definition web_value :: "string \<Rightarrow> string \<Rightarrow> (string \<times> string \<times> string) option" where
  "web_value n l = (case web_value_end l of
       None \<Rightarrow> None
     | Some (vr, e) \<Rightarrow> (case value_span l vr e of
         None \<Rightarrow> None
       | Some (vl, vr') \<Rightarrow> Some (n, span_text 128 vl vr', e)))"

text \<open>The name of a list is replaced by the name of the first item in it.\<close>

definition web_item :: "string \<Rightarrow> (string \<times> string \<times> string) option" where
  "web_item p = (case web_name p of
       None \<Rightarrow> None
     | Some (n, l) \<Rightarrow>
         if take 2 l = ''[{'' then (case web_name l of None \<Rightarrow> None | Some (n', l') \<Rightarrow> web_value n' l')
         else web_value n l)"

text \<open>
  repeatStart: where the text begins again, as a suffix of it; behind it nothing is read.
\<close>

definition webs_ParseJsonString :: "string option \<Rightarrow> string \<Rightarrow> (string \<times> string \<times> string) option" where
  "webs_ParseJsonString repeatStart p =
     (if (case repeatStart of None \<Rightarrow> False | Some r \<Rightarrow> length p < length r) then None else web_item p)"

text \<open>The number of objects in the first list of the text.\<close>

definition count_devs :: "string \<Rightarrow> nat option" where
  "count_devs p = (case (strchr (CHR ''['') p, strchr (CHR '']'') p) of
       (Some l, Some r) \<Rightarrow> Some (length (filter (\<lambda>c. c = CHR ''{'') (take (length l - length r) l)))
     | _ \<Rightarrow> None)"

lemma web_value_end_shorter: "web_value_end l = Some (r, e) \<Longrightarrow> length e < length l"
  by (auto simp: web_value_end_def brace_end_def Let_def split: option.splits if_splits dest!: strchr_SomeD)

lemma web_name_shorter: "web_name p = Some (n, l) \<Longrightarrow> length l < length p"
proof -
  assume "web_name p = Some (n, l)"
  then obtain q r c where "strchr STR_QUOTATION p = Some q" "strchr STR_QUOTATION (tl q) = Some r"
    "strchr STR_SEPRATION r = Some c" "l = tl c"
    by (auto simp: web_name_def split: option.splits)
  moreover from this have "length q \<le> length p" "length r \<le> length (tl q)" "length c \<le> length r" "0 < length c"
    by (auto dest: strchr_length strchr_Some_nonempty)
  ultimately show ?thesis by (cases c) simp_all
qed

lemma web_value_shorter: "web_value n l = Some (m, v, e) \<Longrightarrow> length e < length l"
  by (auto simp: web_value_def split: option.splits prod.splits dest: web_value_end_shorter)

lemma web_item_shorter: "web_item p = Some (n, v, e) \<Longrightarrow> length e < length p"
proof -
  assume a: "web_item p = Some (n, v, e)"
  then obtain m l where l: "web_name p = Some (m, l)" by (auto simp: web_item_def split: option.splits)
  have "length e < length l"
  proof (cases "take 2 l = ''[{''")
    case False
    then show ?thesis using a l web_value_shorter by (auto simp: web_item_def)
  next
    case True
    then obtain m' l' where "web_name l = Some (m', l')" "web_value m' l' = Some (n, v, e)"
      using a l by (auto simp: web_item_def split: option.splits)
    then show ?thesis using web_name_shorter [of l] web_value_shorter [of m' l'] by simp
  qed
  then show ?thesis using web_name_shorter [OF l] by simp
qed

lemma webs_shorter: "webs_ParseJsonString r p = Some (n, v, e) \<Longrightarrow> length e < length p"
  using web_item_shorter [of p] by (auto simp: webs_ParseJsonString_def split: if_splits)

lemma web_item_bounds:
  assumes "web_item p = Some (n, v, e)"
  shows "length n \<le> 127" "length v \<le> 127"
proof -
  have "length m \<le> 127" if "web_name q = Some (m, l)" for q m l
    using that by (auto simp: web_name_def span_text_def split: option.splits)
  moreover have "length w \<le> 127 \<and> m' = m" if "web_value m l = Some (m', w, f)" for m l m' w f
    using that by (auto simp: web_value_def span_text_def split: option.splits prod.splits)
  ultimately show "length n \<le> 127" "length v \<le> 127"
    using assms by (auto simp: web_item_def split: option.splits if_splits prod.splits) metis+
qed

section \<open>The message type\<close>

text \<open>
  websHertAppPro_Parse_Msg_Type: the word msgType is searched in the first characters, so a text of
  fewer than seven is read past its end.  The text found is copied with its own length.  Inr None:
  the return code is 2.
\<close>

definition websHertAppPro_Parse_Msg_Type :: "string \<Rightarrow> fault + string option" where
  "websHertAppPro_Parse_Msg_Type ptMsg =
     (if length ptMsg < 7 then Inl ReadOverrun
      else (case strstr ptMsg ''msgType'' of
          None \<Rightarrow> Inr None
        | Some t \<Rightarrow> if length t = 7 then Inr None
            else (case strchr STR_QUOTATION (drop 7 t) of
                None \<Rightarrow> Inr None
              | Some a \<Rightarrow> (case strchr STR_SEPRATION (tl a) of
                  None \<Rightarrow> Inr None
                | Some b \<Rightarrow> (case strchr STR_QUOTATION (tl b) of
                    None \<Rightarrow> Inr None
                  | Some c \<Rightarrow> (case strchr STR_QUOTATION (tl c) of
                      None \<Rightarrow> Inr None
                    | Some e \<Rightarrow>
                        let s = take (length (tl c) - length e) (tl c) in
                        if 128 < length s then Inl WriteOverflow
                        else if length s = 128 then Inl ReadOverrun
                        else Inr (Some s)))))))"

end
