(* ===== verification/WebBase64.thy ===== *)
theory WebBase64
  imports Base64 WireLength
begin

text \<open>
  The Base64 coders of the web server (goahead/src/base64.c): websEncode64, which pads, and
  websDecode64, which stops at the first "=".
\<close>

text \<open>
  The encoder writes the same groups as hertUtil_base64_encode.  The buffers of its callers have
  outlen bytes, so that a text without room for its NUL is written past the end.
\<close>

definition websEncode64 :: "nat \<Rightarrow> string \<Rightarrow> fault + string" where
  "websEncode64 outlen s = (let t = base64_groups (bytes_of s) in if outlen \<le> length t then Inl WriteOverflow else Inr t)"

text \<open>
  Up to four characters as a number of 24 bits; None: a character that is no code.  The second
  component is the number of characters, the third the rest of the text.
\<close>

fun web_quad :: "nat \<Rightarrow> nat \<Rightarrow> dword \<Rightarrow> nat \<Rightarrow> string \<Rightarrow> (dword \<times> nat \<times> string) option" where
  "web_quad 0 shift buf i s = Some (buf, i, s)"
| "web_quad (Suc k) shift buf i [] = Some (buf, i, [])"
| "web_quad (Suc k) shift buf i (c # s) = (if c = CHR ''='' then Some (buf, i, c # s)
     else (case decode_char c of
         None \<Rightarrow> None
       | Some x \<Rightarrow> web_quad k (shift - 6) (buf OR push_bit shift (ucast x)) (i + 1) s))"

definition quad_byte :: "dword \<Rightarrow> nat \<Rightarrow> byte" where
  "quad_byte buf j = ucast (drop_bit (8 * (2 - j)) buf AND 0xff)"

lemma web_quad_length: "web_quad k shift buf i s = Some (b, j, r) \<Longrightarrow> i \<le> j \<and> length s = length r + (j - i)"
proof (induction k shift buf i s rule: web_quad.induct)
  case (3 k shift buf i c s)
  show ?case
  proof (cases "c = CHR ''=''")
    case True
    then show ?thesis using 3(2) by simp
  next
    case False
    then obtain x where x: "decode_char c = Some x" "web_quad k (shift - 6) (buf OR push_bit shift (ucast x)) (i + 1) s = Some (b, j, r)"
      using 3(2) by (auto split: option.splits)
    have "i + 1 \<le> j \<and> length s = length r + (j - (i + 1))" using 3(1) [OF False x(1) x(2)] .
    then show ?thesis by auto
  qed
qed auto

lemma web_quad_some:
  assumes "web_quad (Suc k) shift buf i s = Some (b, j, r)" and "s \<noteq> []" and "hd s \<noteq> CHR ''=''"
  shows "length r < length s"
proof -
  obtain c t where s: "s = c # t" using assms(2) by (cases s) auto
  then obtain x :: byte where "web_quad k (shift - 6) (buf OR push_bit shift (ucast x)) (i + 1) t = Some (b, j, r)"
    using assms by (auto split: option.splits)
  from web_quad_length [OF this] have "i + 1 \<le> j" "length t = length r + (j - (i + 1))" by blast+
  then show ?thesis unfolding s by simp
qed

function web_decode :: "nat \<Rightarrow> byte list \<Rightarrow> string \<Rightarrow> byte list" where
  "web_decode outlen out s =
     (if s = [] \<or> hd s = CHR ''='' then out
      else (case web_quad 4 18 0 0 s of
          None \<Rightarrow> out
        | Some (b, i, r) \<Rightarrow>
            if outlen \<le> length out + (i - 1) then bytes_of ''String too big''
            else web_decode outlen (out @ map (quad_byte b) [0..<i - 1]) r))"
  by pat_completeness auto
termination
proof (relation "measure (\<lambda>(n, out, s). length s)", goal_cases)
  case 1
  then show ?case by simp
next
  case (2 outlen out s q b p i r)
  then show ?case using web_quad_some [of 3 18 0 0 s b i r] by (simp add: eval_nat_numeral)
qed

declare web_decode.simps [simp del]

text \<open>The text in the buffer, which ends at its first NUL; the return code is not used.\<close>

definition websDecode64 :: "nat \<Rightarrow> string \<Rightarrow> string" where
  "websDecode64 outlen s = map char_at (takeWhile (\<lambda>b. b \<noteq> 0) (web_decode outlen [] s))"

section \<open>The decoder undoes the encoder\<close>

lemma quad_bytes:
  fixes a b c d :: byte
  defines "n \<equiv> push_bit 18 (ucast a) OR push_bit 12 (ucast b) OR push_bit 6 (ucast c) OR (ucast d :: dword)"
  shows "quad_byte n 0 = push_bit 2 a OR drop_bit 4 b"
    and "quad_byte n 1 = push_bit 4 b OR drop_bit 2 c"
    and "quad_byte n 2 = push_bit 6 c OR d"
  unfolding n_def quad_byte_def
  by (rule byte_eqI; simp add: bit_simps)+

lemma quad_three: "map (quad_byte n) [0..<3] = [quad_byte n 0, quad_byte n 1, quad_byte n 2]"
  "map (quad_byte n) [0..<2] = [quad_byte n 0, quad_byte n 1]" "map (quad_byte n) [0..<1] = [quad_byte n 0]"
  by (simp_all add: eval_nat_numeral upt_conv_Cons)

lemma web_quad_full:
  assumes "decode_char p = Some a" "decode_char q = Some b" "decode_char r = Some c" "decode_char t = Some d"
  shows "web_quad 4 18 0 0 (p # q # r # t # s) =
      Some (push_bit 18 (ucast a) OR push_bit 12 (ucast b) OR push_bit 6 (ucast c) OR ucast d, 4, s)"
    and "web_quad 4 18 0 0 (p # q # r # CHR ''='' # s) =
      Some (push_bit 18 (ucast a) OR push_bit 12 (ucast b) OR push_bit 6 (ucast c) OR ucast (0 :: byte), 3, CHR ''='' # s)"
    and "web_quad 4 18 0 0 (p # q # CHR ''='' # s) =
      Some (push_bit 18 (ucast a) OR push_bit 12 (ucast b) OR push_bit 6 (ucast (0 :: byte)) OR ucast (0 :: byte), 2, CHR ''='' # s)"
proof -
  have e: "decode_char (CHR ''='') = None" by code_simp
  then have "p \<noteq> CHR ''=''" "q \<noteq> CHR ''=''" "r \<noteq> CHR ''=''" "t \<noteq> CHR ''=''" using assms by auto
  then show "web_quad 4 18 0 0 (p # q # r # t # s) =
      Some (push_bit 18 (ucast a) OR push_bit 12 (ucast b) OR push_bit 6 (ucast c) OR ucast d, 4, s)"
    "web_quad 4 18 0 0 (p # q # r # CHR ''='' # s) =
      Some (push_bit 18 (ucast a) OR push_bit 12 (ucast b) OR push_bit 6 (ucast c) OR ucast (0 :: byte), 3, CHR ''='' # s)"
    "web_quad 4 18 0 0 (p # q # CHR ''='' # s) =
      Some (push_bit 18 (ucast a) OR push_bit 12 (ucast b) OR push_bit 6 (ucast (0 :: byte)) OR ucast (0 :: byte), 2, CHR ''='' # s)"
    using assms by (simp_all add: eval_nat_numeral or.assoc)
qed

lemma web_decode_groups:
  "length out + length p < n \<Longrightarrow> web_decode n out (base64_groups p) = out @ p"
proof (induction p arbitrary: out rule: base64_groups.induct)
  case (1 x y z r)
  have q: "map (quad_byte (push_bit 18 (ucast (drop_bit 2 x)) OR push_bit 12 (ucast (push_bit 4 (x AND 3) OR drop_bit 4 y)) OR
      push_bit 6 (ucast (push_bit 2 (y AND 0xf) OR drop_bit 6 z)) OR ucast (z AND 0x3F))) [0..<3] = [x, y, z]"
    unfolding quad_three quad_bytes join_sextets ..
  show ?case
    by (subst web_decode.simps)
      (use 1 q in \<open>simp add: base64_groups_sextets web_quad_full [OF decode_sextets(3,1,2,5)] sextets_not_pad
        del: base64_groups.simps push_bit_and\<close>)
next
  case (2 x y)
  have q: "map (quad_byte (push_bit 18 (ucast (drop_bit 2 x)) OR push_bit 12 (ucast (push_bit 4 (x AND 3) OR drop_bit 4 y)) OR
      push_bit 6 (ucast (push_bit 2 (y AND 0xf))) OR ucast (0 :: byte))) [0..<2] = [x, y]"
    unfolding quad_three quad_bytes join_sextets ..
  have e: "web_decode n o' (CHR ''='' # s) = o'" for o' s by (simp add: web_decode.simps [of n o'])
  show ?case
    by (subst web_decode.simps)
      (use 2 q e in \<open>simp add: base64_groups_sextets web_quad_full(2) [OF decode_sextets(3,1,4) decode_sextets(5)] sextets_not_pad
        del: base64_groups.simps push_bit_and\<close>)
next
  case (3 x)
  have q: "map (quad_byte (push_bit 18 (ucast (drop_bit 2 x)) OR push_bit 12 (ucast (push_bit 4 (x AND 3))) OR
      push_bit 6 (ucast (0 :: byte)) OR ucast (0 :: byte))) [0..<1] = [x]"
    unfolding quad_three quad_bytes join_sextets ..
  have e: "web_decode n o' (CHR ''='' # s) = o'" for o' s by (simp add: web_decode.simps [of n o'])
  show ?case
    by (subst web_decode.simps)
      (use 3 q e in \<open>simp add: base64_groups_sextets web_quad_full(3) [OF decode_sextets(3,6) decode_sextets(5) decode_sextets(5)] sextets_not_pad
        del: base64_groups.simps push_bit_and\<close>)
next
  case 4
  then show ?case by (simp add: web_decode.simps)
qed

lemma web_decoded:
  assumes "length s < n" and "CHR 0x00 \<notin> set s"
  shows "websDecode64 n (base64_groups (bytes_of s)) = s"
proof -
  have "web_decode n [] (base64_groups (bytes_of s)) = bytes_of s" using web_decode_groups [of "[]" "bytes_of s" n] assms(1) by simp
  moreover have w: "takeWhile (\<lambda>b. b \<noteq> 0) (bytes_of s) = bytes_of s"
    using assms(2) unfolding takeWhile_eq_all_conv by (auto simp: bytes_of_def byte_of_eq_0_iff)
  ultimately show ?thesis unfolding websDecode64_def by (simp only: w map_char_at_bytes_of)
qed

text \<open>
  Decoding with websDecode64 undoes websEncode64 for every text without NUL that fits the buffer of the
  reader.
\<close>

theorem web_base64_roundtrip:
  assumes "websEncode64 m s = Inr t" and "length s < n" and "CHR 0x00 \<notin> set s"
  shows "websDecode64 n t = s"
  using assms web_decoded by (auto simp: websEncode64_def Let_def split: if_splits)

lemma web_base64_roundtrip_witness:
  "websEncode64 130 ''a b.jpg'' = Inr ''YSBiLmpwZw=='' \<and> websDecode64 130 ''YSBiLmpwZw=='' = ''a b.jpg''"
proof -
  have "base64_groups (bytes_of ''a b.jpg'') = ''YSBiLmpwZw==''" by code_simp
  then have e: "websEncode64 130 ''a b.jpg'' = Inr ''YSBiLmpwZw==''" by (simp add: websEncode64_def)
  then show ?thesis using web_base64_roundtrip [OF e, of 130] by simp
qed

end
