(* ===== verification/WebParse.thy ===== *)
theory WebParse
  imports WebJson
begin

text \<open>
  websHertAppPro_ParseMsgReq (goahead/src/herouter.c, lines 188 to 546): the requests of the local
  application as records, and the loop that reads one into the buffer of its handler.
\<close>

section \<open>Requests\<close>

record req_body =
  req_version :: dword
  req_msgSeq :: string

record devpass_body =
  dp_random :: string
  dp_adminPassword :: string

record upload_pic_body =
  up_fileName :: string
  up_fileSize :: dword

record setnet_body =
  sn_random :: string
  sn_adminPassword :: string
  netType :: byte
  netAccount :: string
  netPassword :: string
  wifiName :: string
  wifiPassword :: string
  ipv4Address :: string
  subnetMask :: string
  gateway :: string
  dnsServer :: string
  dnsServerBackup :: string

record guest_body =
  wifiSwitch :: byte
  passwordSwitch :: byte
  guest_password :: string
  openTime :: "16 word"

record dev_allow =
  al_mac :: string
  AllowAdd :: byte

text \<open>The request for a list of devices, with the loop's place in the list and its counter \<open>i\<close>.\<close>

record add_dev_body =
  pDevAddList :: "dev_allow list"
  add_cur :: nat
  add_i :: nat

text \<open>The request for a rule, with both periods of the array, and the counter of the times read.\<close>

record set_terminal =
  st_devMac :: string
  st_accessControl :: dword
  st_netLimit :: dword
  periodNum :: nat
  st_first :: period
  st_second :: period
  timeNum :: nat

datatype req_var =
    NoVar
  | DevPass devpass_body
  | UploadPic upload_pic_body
  | Upgrade string
  | SetNet setnet_body
  | FaultDect dword
  | WpsSwitch byte
  | AddDev "add_dev_body option"
  | Guest guest_body
  | TerminalStatus string
  | SetTerminal "set_terminal option"
  | Strength int
  | Channel string

text \<open>Which of the tests of the loop the type passes first.\<close>

definition req_init :: "string \<Rightarrow> req_var" where
  "req_init t =
     (if has_text ''MSG_GET_ROUTER_PASSWORD_REQ'' t then DevPass \<lparr>dp_random = [], dp_adminPassword = []\<rparr>
      else if has_text ''MSG_GET_UPLOAD_IMG_REQ'' t then UploadPic \<lparr>up_fileName = [], up_fileSize = 0\<rparr>
      else if has_text ''MSG_ROUTER_UPDATE_REQ'' t then Upgrade []
      else if has_text ''MSG_SET_NETWORK_REQ'' t then
        SetNet \<lparr>sn_random = [], sn_adminPassword = [], netType = 0, netAccount = [], netPassword = [], wifiName = [],
          wifiPassword = [], ipv4Address = [], subnetMask = [], gateway = [], dnsServer = [], dnsServerBackup = []\<rparr>
      else if has_text ''MSG_GET_ROUTER_FAULT_DETEC_REQ'' t then FaultDect 0
      else if has_text ''MSG_SET_ROUTER_WPS_SWITCH_REQ'' t then WpsSwitch 0
      else if has_text ''MSG_SET_ROUTER_ADD_DEV_REQ'' t then AddDev None
      else if has_text ''MSG_SET_VISITOR_MANAGEMENT_REQ'' t then
        Guest \<lparr>wifiSwitch = 0, passwordSwitch = 0, guest_password = [], openTime = 0\<rparr>
      else if has_text ''MSG_GET_TERMINAL_STATUS_REQ'' t then TerminalStatus []
      else if has_text ''MSG_SET_TERMINAL_ACCESS_REQ'' t then SetTerminal None
      else if has_text ''MSG_SET_WIFI_STRENGTH_REQ'' t then Strength 0
      else if has_text ''MSG_SET_ROUTER_CHANNEL_REQ'' t then Channel []
      else NoVar)"

section \<open>One item\<close>

text \<open>The globals of herouter.c that the parser uses.\<close>

record web_globals =
  currMsgType :: string
  MD5Password :: string
  toAddDevNum :: nat
  firstTime :: int

record parse_state =
  ps_glob :: web_globals
  ps_req :: req_body
  ps_var :: req_var

text \<open>
  The body is a buffer of \<open>room\<close> bytes: a member that ends at \<open>k\<close> is written.  strncpy into n chars
  may leave a text without its end, which is then n characters long.
\<close>

definition in_body :: "nat \<Rightarrow> nat \<Rightarrow> 'a \<Rightarrow> fault + 'a" where
  "in_body room k x = (if room < k then Inl WriteOverflow else Inr x)"

definition devpass_item :: "nat \<Rightarrow> string \<Rightarrow> string \<Rightarrow> web_globals \<Rightarrow> devpass_body \<Rightarrow> fault + web_globals \<times> devpass_body" where
  "devpass_item room n v g b =
     (if n = ''random'' then rbind (in_body room 64 (b\<lparr>dp_random := take 64 v\<rparr>)) (\<lambda>b. Inr (g, b))
      else if n = ''adminPassword'' then Inl WriteOverflow
      else Inr (g, b))"

definition upload_item :: "nat \<Rightarrow> string \<Rightarrow> string \<Rightarrow> upload_pic_body \<Rightarrow> fault + upload_pic_body" where
  "upload_item room n v b =
     (if n = ''fileName'' then in_body room 130 (b\<lparr>up_fileName := take 130 v\<rparr>)
      else if n = ''fileSize'' then in_body room 136 (b\<lparr>up_fileSize := word_of_int (atoi v)\<rparr>)
      else Inr b)"

definition setnet_item :: "nat \<Rightarrow> string \<Rightarrow> string \<Rightarrow> setnet_body \<Rightarrow> fault + setnet_body" where
  "setnet_item room n v b =
     (if n = ''random'' then in_body room 64 (b\<lparr>sn_random := take 64 v\<rparr>)
      else if n = ''adminPassword'' then in_body room 194 (b\<lparr>sn_adminPassword := take 130 v\<rparr>)
      else if n = ''netType'' then in_body room 195 (b\<lparr>netType := word_of_int (atoi v)\<rparr>)
      else if n = ''netAccount'' then in_body room 227 (b\<lparr>netAccount := take 32 v\<rparr>)
      else if n = ''netPassword'' then in_body room 259 (b\<lparr>netPassword := take 32 v\<rparr>)
      else if n = ''wifiName'' then in_body room 291 (b\<lparr>wifiName := take 32 v\<rparr>)
      else if n = ''wifiPassword'' then in_body room 323 (b\<lparr>wifiPassword := take 32 v\<rparr>)
      else if n = ''ipv4Address'' then in_body room 355 (b\<lparr>ipv4Address := take 32 v\<rparr>)
      else if n = ''subnetMask'' then in_body room 387 (b\<lparr>subnetMask := take 32 v\<rparr>)
      else if n = ''gateway'' then in_body room 419 (b\<lparr>gateway := take 32 v\<rparr>)
      else if n = ''dnsServer'' then in_body room 451 (b\<lparr>dnsServer := take 32 v\<rparr>)
      else if n = ''dnsServerBackup'' then in_body room 483 (b\<lparr>dnsServerBackup := take 32 v\<rparr>)
      else Inr b)"

definition guest_item :: "nat \<Rightarrow> string \<Rightarrow> string \<Rightarrow> guest_body \<Rightarrow> fault + guest_body" where
  "guest_item room n v b =
     (if n = ''wifiSwitch'' then in_body room 1 (b\<lparr>wifiSwitch := word_of_int (atoi v)\<rparr>)
      else if n = ''passwordSwitch'' then in_body room 2 (b\<lparr>passwordSwitch := word_of_int (atoi v)\<rparr>)
      else if n = ''password'' then in_body room 34 (b\<lparr>guest_password := take 32 v\<rparr>)
      else if n = ''openTime'' then in_body room 36 (b\<lparr>openTime := word_of_int (atoi v)\<rparr>)
      else Inr b)"

text \<open>
  The list of devices: a device is complete when it has an address and a decision that is not 0;
  decisions are kept one higher until then, and the first place starts with the character 0.
\<close>

definition add_dev_start :: "nat \<Rightarrow> add_dev_body" where
  "add_dev_start k = \<lparr>pDevAddList = \<lparr>al_mac = [], AllowAdd = 48\<rparr> # replicate (k - 1) \<lparr>al_mac = [], AllowAdd = 0\<rparr>,
     add_cur = 0, add_i = 1\<rparr>"

definition add_dev_item :: "string \<Rightarrow> string \<Rightarrow> add_dev_body \<Rightarrow> add_dev_body" where
  "add_dev_item n v b =
     (let d = pDevAddList b ! add_cur b;
          d = (if n = ''mac'' then d\<lparr>al_mac := take 32 v\<rparr> else d);
          d = (if n = ''allowAdd'' then d\<lparr>AllowAdd := word_of_int (atoi v) + 1\<rparr> else d)
      in if AllowAdd d \<noteq> 0 \<and> al_mac d \<noteq> [] then
           (let d' = (if n = ''allowAdd'' \<or> n = ''mac'' then d\<lparr>AllowAdd := AllowAdd d - 1\<rparr> else d);
                b = b\<lparr>pDevAddList := (pDevAddList b)[add_cur b := d']\<rparr>
            in if add_i b < length (pDevAddList b) then
                 b\<lparr>pDevAddList := (pDevAddList b)[add_cur b + 1 := \<lparr>al_mac = [], AllowAdd = 0\<rparr>],
                   add_cur := add_cur b + 1, add_i := add_i b + 1\<rparr>
               else b)
         else b\<lparr>pDevAddList := (pDevAddList b)[add_cur b := d]\<rparr>)"

definition no_period :: period where
  "no_period = \<lparr>startTime = [], endTime = []\<rparr>"

definition terminal_start :: set_terminal where
  "terminal_start = \<lparr>st_devMac = [], st_accessControl = 0, st_netLimit = 0, periodNum = 1, st_first = no_period,
     st_second = no_period, timeNum = 0\<rparr>"

text \<open>The third time read moves on to the second period.\<close>

definition terminal_time :: "(period \<Rightarrow> period) \<Rightarrow> set_terminal \<Rightarrow> set_terminal" where
  "terminal_time f b =
     (let b = (if timeNum b = 2 then b\<lparr>periodNum := periodNum b + 1\<rparr> else b);
          b = b\<lparr>timeNum := timeNum b + 1\<rparr>
      in if periodNum b = 1 then b\<lparr>st_first := f (st_first b)\<rparr> else b\<lparr>st_second := f (st_second b)\<rparr>)"

definition terminal_item :: "string \<Rightarrow> string \<Rightarrow> set_terminal \<Rightarrow> set_terminal" where
  "terminal_item n v b =
     (if n = ''devMac'' then b\<lparr>st_devMac := take 32 v\<rparr>
      else if n = ''accessControl'' then b\<lparr>st_accessControl := word_of_int (atoi v)\<rparr>
      else if n = ''netLimit'' then b\<lparr>st_netLimit := word_of_int (atoi v)\<rparr>
      else if n = ''startTime'' then terminal_time (\<lambda>p. p\<lparr>startTime := take 32 v\<rparr>) b
      else if n = ''endTime'' then terminal_time (\<lambda>p. p\<lparr>endTime := take 32 v\<rparr>) b
      else b)"

text \<open>
  The part of the loop for the type of the message.  The lists of devices and of periods are made
  when the first item is read, if there is memory for them and, for the former, if the text has a
  list; otherwise the loop ends.  True: go on.
\<close>

definition var_item :: "bool \<Rightarrow> nat \<Rightarrow> string \<Rightarrow> string \<Rightarrow> web_globals \<Rightarrow> req_var \<Rightarrow>
    fault + bool \<times> web_globals \<times> req_var" where
  "var_item mem room n v g x = (case x of
       NoVar \<Rightarrow> Inr (True, g, NoVar)
     | DevPass b \<Rightarrow> rbind (devpass_item room n v g b) (\<lambda>(g, b). Inr (True, g, DevPass b))
     | UploadPic b \<Rightarrow> rbind (upload_item room n v b) (\<lambda>b. Inr (True, g, UploadPic b))
     | Upgrade r \<Rightarrow> if n = ''routerVersion'' then rbind (in_body room 64 (take 64 v)) (\<lambda>r. Inr (True, g, Upgrade r))
         else Inr (True, g, x)
     | SetNet b \<Rightarrow> rbind (setnet_item room n v b) (\<lambda>b. Inr (True, g, SetNet b))
     | FaultDect t \<Rightarrow> if n = ''faultType'' then rbind (in_body room 4 (word_of_int (atoi v))) (\<lambda>t. Inr (True, g, FaultDect t))
         else Inr (True, g, x)
     | WpsSwitch t \<Rightarrow> if n = ''wpsSwitch'' then rbind (in_body room 1 (word_of_int (atoi v))) (\<lambda>t. Inr (True, g, WpsSwitch t))
         else Inr (True, g, x)
     | AddDev None \<Rightarrow>
         if toAddDevNum g = 0 \<or> \<not> mem then Inr (False, g, x)
         else rbind (in_body room 8 (add_dev_start (toAddDevNum g))) (\<lambda>b. Inr (True, g, AddDev (Some (add_dev_item n v b))))
     | AddDev (Some b) \<Rightarrow> Inr (True, g, AddDev (Some (add_dev_item n v b)))
     | Guest b \<Rightarrow> rbind (guest_item room n v b) (\<lambda>b. Inr (True, g, Guest b))
     | TerminalStatus m \<Rightarrow> if n = ''devMac'' then rbind (in_body room 32 (take 32 v)) (\<lambda>m. Inr (True, g, TerminalStatus m))
         else Inr (True, g, x)
     | SetTerminal None \<Rightarrow>
         if room < 48 then Inl WriteOverflow
         else if \<not> mem then Inr (False, g, x)
         else Inr (True, g, SetTerminal (Some (terminal_item n v terminal_start)))
     | SetTerminal (Some b) \<Rightarrow> Inr (True, g, SetTerminal (Some (terminal_item n v b)))
     | Strength t \<Rightarrow> if n = ''wifiStrength'' then rbind (in_body room 4 (atoi v mod 256)) (\<lambda>t. Inr (True, g, Strength t))
         else Inr (True, g, x)
     | Channel c \<Rightarrow> if n = ''workingChannel'' then rbind (in_body room 32 (take 32 v)) (\<lambda>c. Inr (True, g, Channel c))
         else Inr (True, g, x))"

text \<open>version and msgSeq are read for every type; msgSeq has 20 chars.\<close>

definition const_item :: "string \<Rightarrow> string \<Rightarrow> req_body \<Rightarrow> fault + req_body" where
  "const_item n v r =
     (if n = ''version'' then Inr (r\<lparr>req_version := word_of_int (atoi v)\<rparr>)
      else if n = ''msgSeq'' then (if length v < 20 then Inr (r\<lparr>req_msgSeq := v\<rparr>) else Inl WriteOverflow)
      else Inr r)"

section \<open>The loop\<close>

text \<open>The devices are counted when the first item is read.\<close>

definition count_first :: "string \<Rightarrow> web_globals \<Rightarrow> web_globals" where
  "count_first p g =
     (if take 26 (currMsgType g) = ''MSG_SET_ROUTER_ADD_DEV_REQ'' \<and> firstTime g = 1
      then g\<lparr>toAddDevNum := (case count_devs p of None \<Rightarrow> 0 | Some k \<Rightarrow> toAddDevNum g + k), firstTime := 0\<rparr> else g)"

function parse_loop :: "bool \<Rightarrow> nat \<Rightarrow> string option \<Rightarrow> string \<Rightarrow> web_globals \<Rightarrow> req_body \<Rightarrow> req_var \<Rightarrow>
    fault + int \<times> web_globals \<times> req_body \<times> req_var" where
  "parse_loop mem room rep p g r x = (case webs_ParseJsonString rep p of
       None \<Rightarrow> Inr (0, g, r, x)
     | Some (n, v, e) \<Rightarrow>
         (case const_item n v r of
            Inl f \<Rightarrow> Inl f
          | Inr r \<Rightarrow> (case var_item mem room n v (count_first p g) x of
              Inl f \<Rightarrow> Inl f
            | Inr (go, g, x) \<Rightarrow> if go then parse_loop mem room rep e g r x else Inr (-1, g, r, x))))"
  by pat_completeness auto
termination
  by (relation "measure (\<lambda>(mem, room, rep, p, g, r, x). length p)") (auto dest: webs_shorter)

declare parse_loop.simps [simp del]

text \<open>
  szMsgType has 64 characters: a longer type is not ended.  Inr with return code 1 or -1: the
  request is refused.
\<close>

definition websHertAppPro_ParseMsgReq :: "bool \<Rightarrow> nat \<Rightarrow> string \<Rightarrow> web_globals \<Rightarrow>
    fault + int \<times> web_globals \<times> req_body \<times> req_var" where
  "websHertAppPro_ParseMsgReq mem room src g =
     (if 64 \<le> length (currMsgType g) then Inl ReadOverrun
      else (let t = currMsgType g; r = \<lparr>req_version = 0, req_msgSeq = []\<rparr> in
        if t = [] then Inr (1, g, r, NoVar)
        else (let g = (if t = ''MSG_SET_ROUTER_ADD_DEV_REQ'' then g\<lparr>toAddDevNum := 0, firstTime := 1\<rparr> else g)
          in parse_loop mem room (strstr src ''}={'') src g r (req_init t))))"

end
