(* ===== verification/WebBuild.thy ===== *)
theory WebBuild
  imports WebParse MsgList
begin

text \<open>
  websHertAppPro_BuildMsgRsp (goahead/src/herouter.c, lines 548 to 980) and hertUtil_BuildErrMsgRsp
  (heroute_util.c): the answers to the local application as the steps of the JSON writer.
\<close>

definition JSON_BUFFER_SIZE :: nat where "JSON_BUFFER_SIZE = 10240"

text \<open>HERT_ERR_NO\<close>

definition HERT_ERR_INVALID_JSON :: dword where "HERT_ERR_INVALID_JSON = 0xa001"
definition HERT_ERR_INTERNEL_FALSE :: dword where "HERT_ERR_INTERNEL_FALSE = 0xa002"
definition HERT_ERR_AUTH_FAILED :: dword where "HERT_ERR_AUTH_FAILED = 0xa004"
definition HERT_ERR_UNKNOW_MSGTYPE :: dword where "HERT_ERR_UNKNOW_MSGTYPE = 0xa00a"

section \<open>Answers\<close>

record web_status_body =
  ws_devStatus :: byte
  ws_broadbandRate :: string
  ws_wifiStatus :: dword
  ws_downbandwidth :: dword
  ws_runStatus :: dword
  ws_devs :: "HERT_COM_SUBDEV_BODY list"

record web_space_body =
  wsp_diskStatus :: byte
  wsp_totalSpace :: ddword
  wsp_usedSpace :: ddword
  wsp_leftSpace :: ddword

record web_ability_body =
  wa_devName :: string
  wa_fac :: string
  wa_type :: string
  wa_softVersion :: string
  wa_softUpdate :: byte
  wa_softUpdateDis :: string

record web_fault_item =
  wf_faultType :: string
  wf_faultReason :: string
  wf_faultProcess :: string
  wf_faultAllSteps :: string

record web_dev_item =
  wd_devName :: string
  wd_devType :: string
  wd_devID :: string
  wd_mac :: string

record web_guest_body =
  wg_wifiSwitch :: byte
  wg_passwordSwitch :: byte
  wg_password :: string
  wg_openTime :: dword
  wg_remainTime :: dword

record web_terminal_body =
  wt_accessControl :: dword
  wt_netLimit :: dword
  wt_times :: "period list"

datatype rsp_var =
    RspStatus web_status_body
  | RspSN string
  | RspPassword string
  | RspSpace web_space_body
  | RspAbility web_ability_body
  | RspUploadImg string
  | RspFaults "web_fault_item list"
  | RspDevToAdd "web_dev_item list"
  | RspTerminal web_terminal_body
  | RspStrength byte
  | RspGuest web_guest_body
  | RspChannel string
  | RspNone

section \<open>Steps\<close>

text \<open>The items are formatted in szItem[512].\<close>

definition web_str :: "string \<Rightarrow> string \<Rightarrow> string" where
  "web_str a v = snprintf_into 512 (str_item a v)"

definition web_num :: "string \<Rightarrow> int \<Rightarrow> string" where
  "web_num a i = snprintf_into 512 (num_item a i)"

definition head_steps :: "req_body \<Rightarrow> dword \<Rightarrow> string \<Rightarrow> jstep list" where
  "head_steps r nErrorCode szMsgType =
     [AddItem (web_num ''version'' (sint (req_version r))), AddItem (web_str ''msgSeq'' (req_msgSeq r)),
      AddItem (web_num ''errorCode'' (sint nErrorCode)), AddItem (web_str ''msgType'' szMsgType)]"

text \<open>A list of objects: its name, and the objects in brackets.  The first item has no comma in front.\<close>

definition list_head :: "string \<Rightarrow> jstep list" where
  "list_head a = [AddStr '',\"'', AddStr a, AddStr ''\":'', AddStr ''['']"

fun object_steps :: "string list \<Rightarrow> jstep list" where
  "object_steps [] = []"
| "object_steps (i # is) = AddStr i # map AddItem is @ [AddStr ''}'']"

fun objects_steps :: "bool \<Rightarrow> string list list \<Rightarrow> jstep list" where
  "objects_steps first [] = []"
| "objects_steps first (x # xs) = AddStr (if first then ''{'' else '',{'') # object_steps x @ objects_steps False xs"

text \<open>The type of a device is guessed from its name.\<close>

definition web_dev_type :: "string \<Rightarrow> string" where
  "web_dev_type n =
     (if has_text ''android'' n then ''1'' else if has_text ''iPhone'' n then ''2'' else if has_text ''Mac'' n then ''3''
      else if has_text ''PC'' n \<or> has_text ''WINDOWS'' n then ''4'' else if has_text ''iPad'' n then ''5'' else ''0'')"

definition dev_object :: "HERT_COM_SUBDEV_BODY \<Rightarrow> string list" where
  "dev_object d = [web_str ''devName'' (devName d), web_str ''devType'' (web_dev_type (devName d)),
     web_str ''devID'' (devID d), web_str ''mac'' (mac d), web_str ''connectTime'' (connectTime d)]"

definition fault_object :: "web_fault_item \<Rightarrow> string list" where
  "fault_object f = [web_str ''faultType'' (wf_faultType f), web_str ''faultReason'' (wf_faultReason f),
     web_str ''faultProcess'' (wf_faultProcess f), web_str ''faultAllSteps'' (wf_faultAllSteps f)]"

definition dev_item_object :: "web_dev_item \<Rightarrow> string list" where
  "dev_item_object d = [web_str ''devName'' (wd_devName d), web_str ''devType'' (wd_devType d),
     web_str ''devID'' (wd_devID d), web_str ''mac'' (wd_mac d)]"

definition period_steps :: "period \<Rightarrow> jstep list" where
  "period_steps p = AddStr ''{'' # object_steps [web_str ''startTime'' (startTime p), web_str ''endTime'' (endTime p)]"

fun rsp_steps :: "rsp_var \<Rightarrow> jstep list" where
  "rsp_steps (RspStatus b) =
     [AddItem (web_num ''devStatus'' (sint (ws_devStatus b))), AddItem (web_str ''broadbandRate'' (ws_broadbandRate b)),
      AddItem (web_num ''runStatus'' (sint (ws_runStatus b))), AddItem (web_num ''downbandwidth'' (sint (ws_downbandwidth b))),
      AddItem (web_num ''wifiStatus'' (sint (ws_wifiStatus b)))] @
     list_head ''subDevList'' @ objects_steps True (map dev_object (ws_devs b)) @ [AddStr '']'']"
| "rsp_steps (RspSN s) = [AddItem (web_str ''devSN'' s)]"
| "rsp_steps (RspPassword s) = [AddItem (web_str ''password'' s)]"
| "rsp_steps (RspSpace b) =
     [AddItem (web_num ''diskStatus'' (sint (wsp_diskStatus b))), AddItem (web_num ''totalSpace'' (sint (wsp_totalSpace b))),
      AddItem (web_num ''usedSpace'' (sint (wsp_usedSpace b))), AddItem (web_num ''leftSpace'' (sint (wsp_leftSpace b)))]"
| "rsp_steps (RspAbility b) =
     [AddItem (web_str ''devName'' (wa_devName b)), AddItem (web_str ''fac'' (wa_fac b)), AddItem (web_str ''type'' (wa_type b)),
      AddItem (web_str ''softVersion'' (wa_softVersion b)), AddItem (web_num ''softUpdate'' (sint (wa_softUpdate b))),
      AddItem (web_str ''softUpdateDis'' (wa_softUpdateDis b))]"
| "rsp_steps (RspUploadImg s) = [AddItem (web_str ''url'' s)]"
| "rsp_steps (RspFaults fs) = list_head ''faultList'' @ objects_steps True (map fault_object fs) @ [AddStr '']'']"
| "rsp_steps (RspDevToAdd ds) = list_head ''subDevToAddList'' @ objects_steps True (map dev_item_object ds) @ [AddStr '']'']"
| "rsp_steps (RspTerminal b) =
     [AddItem (web_num ''accessControl'' (sint (wt_accessControl b))), AddItem (web_num ''netLimit'' (sint (wt_netLimit b)))] @
     list_head ''netTime'' @
     (case wt_times b of
        [p, q] \<Rightarrow> period_steps p @ AddStr '','' # period_steps q
      | p # _ \<Rightarrow> period_steps p
      | [] \<Rightarrow> []) @ [AddStr '']'']"
| "rsp_steps (RspStrength s) = [AddItem (web_num ''wifiStrength'' (sint s))]"
| "rsp_steps (RspGuest b) =
     [AddItem (web_num ''wifiSwitch'' (sint (wg_wifiSwitch b))), AddItem (web_num ''passwordSwitch'' (sint (wg_passwordSwitch b))),
      AddItem (web_str ''password'' (wg_password b)), AddItem (web_num ''openTime'' (sint (wg_openTime b))),
      AddItem (web_num ''remainTime'' (sint (wg_remainTime b)))]"
| "rsp_steps (RspChannel s) = [AddItem (web_str ''channel'' s)]"
| "rsp_steps RspNone = []"

text \<open>None: the buffer is full, the return code is not 0.\<close>

definition websHertAppPro_BuildMsgRsp :: "req_body \<Rightarrow> string \<Rightarrow> rsp_var \<Rightarrow> dword \<Rightarrow> string option" where
  "websHertAppPro_BuildMsgRsp r szMsgType x nErrorCode =
     (case json_steps JSON_BUFFER_SIZE (head_steps r nErrorCode szMsgType @ rsp_steps x @ [AddStr ''}'']) [] of
        Inl e \<Rightarrow> None
      | Inr J \<Rightarrow> Some J)"

definition hertUtil_BuildErrMsgRsp :: "dword \<Rightarrow> string \<Rightarrow> req_body \<Rightarrow> string" where
  "hertUtil_BuildErrMsgRsp code mt r =
     snprintf_into 128 (''{\"version\":'' @ snprintf_into 4 (show_int (sint (req_version r))) @
       '',\"msgSeq\":\"'' @ snprintf_into 16 (req_msgSeq r) @
       ''\",\"errorCode\":'' @ snprintf_into 8 (show_int (sint code)) @
       '',\"msgType\":\"'' @ mt @ ''\"}'')"

text \<open>The end of each handler: the answer, or the text for an internal error.\<close>

definition web_answer :: "req_body \<Rightarrow> string \<Rightarrow> rsp_var \<Rightarrow> dword \<Rightarrow> string \<Rightarrow> string" where
  "web_answer r szMsgType x ret errType = (case websHertAppPro_BuildMsgRsp r szMsgType x ret of
       Some J \<Rightarrow> J
     | None \<Rightarrow> hertUtil_BuildErrMsgRsp HERT_ERR_INTERNEL_FALSE errType r)"

section \<open>Answers that fit\<close>

lemma no_format_simps [simp]:
  "no_format []" "no_format (x # xs) \<longleftrightarrow> (\<forall>s. x \<noteq> AddFmt s) \<and> no_format xs"
  "no_format (xs @ ys) \<longleftrightarrow> no_format xs \<and> no_format ys"
  by (auto simp: no_format_def)

lemma no_format_objects: "no_format (objects_steps b xss)"
proof -
  have "no_format (object_steps xs)" for xs by (cases xs) (auto simp: no_format_def)
  then show ?thesis by (induction b xss rule: objects_steps.induct) simp_all
qed

lemma no_format_rsp: "no_format (rsp_steps x)"
  by (cases x) (simp_all add: no_format_objects list_head_def period_steps_def split: list.splits)

text \<open>The text of an answer, as long as it is shorter than the buffer.\<close>

definition web_text :: "req_body \<Rightarrow> string \<Rightarrow> rsp_var \<Rightarrow> dword \<Rightarrow> string" where
  "web_text r szMsgType x nErrorCode = CHR ''{'' # tl (steps_text (head_steps r nErrorCode szMsgType @ rsp_steps x @ [AddStr ''}'']))"

lemma web_answer_fits:
  assumes "length (web_text r szMsgType x ret) < JSON_BUFFER_SIZE"
  shows "websHertAppPro_BuildMsgRsp r szMsgType x ret = Some (web_text r szMsgType x ret)"
    and "web_answer r szMsgType x ret errType = web_text r szMsgType x ret"
proof -
  let ?i = "web_num ''version'' (sint (req_version r))"
  obtain xs where xs: "head_steps r ret szMsgType @ rsp_steps x @ [AddStr ''}''] = AddItem ?i # xs" "no_format xs"
    using no_format_rsp by (simp add: head_steps_def)
  have t: "web_text r szMsgType x ret = CHR ''{'' # ?i @ steps_text xs" unfolding web_text_def xs by simp
  then have "json_steps JSON_BUFFER_SIZE (AddItem ?i # xs) [] = Inr (web_text r szMsgType x ret)"
    using assms json_steps_open [OF xs(2)] by simp
  then show "websHertAppPro_BuildMsgRsp r szMsgType x ret = Some (web_text r szMsgType x ret)"
    unfolding websHertAppPro_BuildMsgRsp_def xs by simp
  then show "web_answer r szMsgType x ret errType = web_text r szMsgType x ret" by (simp add: web_answer_def)
qed

lemma web_item_length: "length (web_str a v) \<le> 511" "length (web_num a i) \<le> 511"
  by (simp_all add: web_str_def web_num_def snprintf_into_def)

text \<open>Answers without a list of unknown length always fit, if the name of the type does.\<close>

fun short_rsp :: "rsp_var \<Rightarrow> bool" where
  "short_rsp (RspStatus b) = False"
| "short_rsp (RspFaults fs) = False"
| "short_rsp (RspDevToAdd ds) = False"
| "short_rsp x = True"

lemma period_steps_length: "length (steps_text (period_steps p)) \<le> 1026"
  using web_item_length(1) [of "''startTime''" "startTime p"] web_item_length(1) [of "''endTime''" "endTime p"]
  by (simp add: period_steps_def)

lemma periods_length:
  "length (steps_text (case ts of [p, q] \<Rightarrow> period_steps p @ AddStr '','' # period_steps q
     | p # _ \<Rightarrow> period_steps p | [] \<Rightarrow> [])) \<le> 2053"
proof -
  have "length (steps_text (period_steps p @ AddStr '','' # period_steps q)) \<le> 2053" for p q
    using period_steps_length [of p] period_steps_length [of q] by simp
  moreover have "length (steps_text (period_steps p)) \<le> 2053" for p
    using period_steps_length [of p] by simp
  ultimately show ?thesis by (simp split: list.splits)
qed

text \<open>Each item of a record, and the few characters in between.\<close>

lemma add_item_length: "length (steps_text xs) \<le> k \<Longrightarrow> length (steps_text (AddItem (web_str a v) # xs)) \<le> k + 512"
  "length (steps_text xs) \<le> k \<Longrightarrow> length (steps_text (AddItem (web_num a i) # xs)) \<le> k + 512"
  using web_item_length(1) [of a v] web_item_length(2) [of a i] by simp_all

lemma items_length:
  "list_all (\<lambda>x. \<exists>a v i. x = AddItem (web_str a v) \<or> x = AddItem (web_num a i)) xs \<Longrightarrow>
    length (steps_text xs) \<le> 512 * length xs"
proof (induction xs)
  case Nil
  then show ?case by simp
next
  case (Cons x xs)
  then show ?case using add_item_length [of xs "512 * length xs"] by auto
qed

lemma short_rsp_length: "short_rsp x \<Longrightarrow> length (steps_text (rsp_steps x)) \<le> 4000"
proof -
  assume s: "short_rsp x"
  show ?thesis
  proof (cases "\<exists>b. x = RspTerminal b")
    case True
    then obtain b where x: "x = RspTerminal b" by blast
    show ?thesis
      using web_item_length(2) [of "''accessControl''" "sint (wt_accessControl b)"]
        web_item_length(2) [of "''netLimit''" "sint (wt_netLimit b)"] periods_length [of "wt_times b"]
      by (simp add: x list_head_def)
  next
    case False
    then have "list_all (\<lambda>x. \<exists>a v i. x = AddItem (web_str a v) \<or> x = AddItem (web_num a i)) (rsp_steps x) \<and> length (rsp_steps x) \<le> 6"
      using s by (cases x) (simp_all, blast+)
    then show ?thesis using items_length [of "rsp_steps x"] by linarith
  qed
qed

lemma short_answer:
  assumes "short_rsp x"
  shows "websHertAppPro_BuildMsgRsp r szMsgType x ret = Some (web_text r szMsgType x ret)"
    and "web_answer r szMsgType x ret errType = web_text r szMsgType x ret"
proof -
  have "list_all (\<lambda>x. \<exists>a v i. x = AddItem (web_str a v) \<or> x = AddItem (web_num a i)) (head_steps r ret szMsgType)"
    by (simp add: head_steps_def) blast
  then have "length (steps_text (head_steps r ret szMsgType)) \<le> 512 * 4"
    using items_length [of "head_steps r ret szMsgType"] by (simp add: head_steps_def)
  then have "length (web_text r szMsgType x ret) < JSON_BUFFER_SIZE"
    using short_rsp_length [OF assms] by (simp add: web_text_def JSON_BUFFER_SIZE_def)
  then show "websHertAppPro_BuildMsgRsp r szMsgType x ret = Some (web_text r szMsgType x ret)"
    "web_answer r szMsgType x ret errType = web_text r szMsgType x ret"
    by (rule web_answer_fits)+
qed

end
