(* ===== verification/WebApi.thy ===== *)
theory WebApi
  imports WebBuild WebBase64 QosRules DeviceList DeviceDisk
begin

text \<open>
  The state of the web server that the local application works on, and the handlers of its messages
  (goahead/src/herouter.c): a handler takes the text of a request and gives the new state with the
  text of the answer.
\<close>

section \<open>State\<close>

text \<open>
  Settings are read from the cache of the process and written to it; nvram_commit writes the cache to
  flash when it was changed, and nvram_get does so and then loads it again.  The program nvram_get
  prints what is in flash.
\<close>

datatype web_act = Cmd string | Commit | Call string | Send string

text \<open>herouterStatus: what the status thread of the web server found last, as "pass" or "fail".\<close>

record network_status =
  wanPortStatus :: string
  lan1PortStatus :: string
  lan2PortStatus :: string
  WanIpStatus :: string
  pingStatus :: string
  PPPOEStatus :: string

record web_world =
  w_glob :: web_globals
  w_cache :: "string \<Rightarrow> string"
  w_flash :: "string \<Rightarrow> string"
  w_dirty :: bool
  w_table :: "string list"
  w_toadd :: "DEVINFO list option"
  w_allow :: "string option"
  w_out :: string
  w_answered :: bool
  w_acts :: "web_act list"
  w_upgradeState :: int
  w_wpsState :: int
  w_net :: network_status
  w_remainTime :: dword

definition act :: "web_act \<Rightarrow> web_world \<Rightarrow> web_world" where
  "act a w = w\<lparr>w_acts := w_acts w @ [a]\<rparr>"

definition bufset :: "string \<Rightarrow> string \<Rightarrow> web_world \<Rightarrow> web_world" where
  "bufset n v w = w\<lparr>w_cache := (w_cache w)(n := v), w_dirty := True\<rparr>"

definition commit :: "web_world \<Rightarrow> web_world" where
  "commit w = act Commit (if w_dirty w then w\<lparr>w_flash := w_cache w, w_dirty := False\<rparr> else w)"

definition reload :: "web_world \<Rightarrow> web_world" where
  "reload w = (let w = (if w_dirty w then w\<lparr>w_flash := w_cache w, w_dirty := False\<rparr> else w) in w\<lparr>w_cache := w_flash w\<rparr>)"

definition printed :: "string \<Rightarrow> web_world \<Rightarrow> string" where
  "printed n w = w_flash w n @ [CHR 0x0A]"

text \<open>
  What the handlers read from the device and call outside of herouter.c: memory, addresses, disks
  (DeviceDisk), the device list, files and what commands print (None: cannot be opened), the digest of
  md5c.c (16 bytes) and the encryption of OpenSSL.  \<open>we_fmdown n\<close> is the file with the result of a
  firmware download in the n-th second of waiting for it, \<open>we_upgradeinfo\<close> the first byte of a whole
  record in /var/upgradeinfo, \<open>we_pictures\<close> the file with the names of the pictures.  \<open>we_room\<close> says whether
  the allocator left room behind a setting.  \<open>we_mbss\<close> and \<open>we_miniupnpd\<close> are options of the
  build.
\<close>

record web_env =
  we_mem :: bool
  we_devlist :: "int \<times> HERT_COM_SUBDEV_BODY list"
  we_workstatus :: dword
  we_broadband :: dword
  we_ifconfig :: "string option"
  we_mac :: "byte list option"
  we_uboot_sn :: "string option"
  we_scsi :: "string option"
  we_disks :: disk_env
  we_md5 :: "string \<Rightarrow> byte list"
  we_wrap :: "string \<Rightarrow> string"
  we_onenet :: "string option"
  we_inet_addr :: "string \<Rightarrow> bool"
  we_channel :: int
  we_upgradeinfo :: "byte option"
  we_lan_ip :: "string option"
  we_fmdown :: "nat \<Rightarrow> string option"
  we_pictures :: "string option"
  we_room :: bool
  we_uptime :: int
  we_reg :: "string option"
  we_mbss :: bool
  we_miniupnpd :: bool
  we_picture_dir :: bool
  we_upload :: bool
  we_hertchstest :: "string option"
  we_image :: "string \<Rightarrow> string option"

text \<open>A text of an array of n characters that is used up to its NUL.\<close>

definition ended :: "nat \<Rightarrow> string \<Rightarrow> (string \<Rightarrow> fault + 'a) \<Rightarrow> fault + 'a" where
  "ended n s f = (if length s < n then f s else Inl ReadOverrun)"

definition with_req :: "web_env \<Rightarrow> nat \<Rightarrow> string \<Rightarrow> web_world \<Rightarrow>
    (int \<Rightarrow> req_body \<Rightarrow> req_var \<Rightarrow> web_world \<Rightarrow> fault + web_world) \<Rightarrow> fault + web_world" where
  "with_req env room src w f = rbind (websHertAppPro_ParseMsgReq (we_mem env) room src (w_glob w))
     (\<lambda>(ret, g, r, x). f ret r x (w\<lparr>w_glob := g\<rparr>))"

definition answer :: "req_body \<Rightarrow> string \<Rightarrow> rsp_var \<Rightarrow> dword \<Rightarrow> web_world \<Rightarrow> web_world" where
  "answer r t x ret w = w\<lparr>w_out := web_answer r t x ret t\<rparr>"

text \<open>An answer that is sent before the work goes on.\<close>

definition answer_now :: "req_body \<Rightarrow> string \<Rightarrow> dword \<Rightarrow> web_world \<Rightarrow> web_world" where
  "answer_now r t ret w =
     (let s = (case websHertAppPro_BuildMsgRsp r t RspNone ret of None \<Rightarrow> [] | Some J \<Rightarrow> J)
      in (act (Send s) w)\<lparr>w_out := s, w_answered := True\<rparr>)"

section \<open>Status, serial number, disk\<close>

text \<open>strncmp with the length of the text that is looked for.\<close>

definition says :: "string \<Rightarrow> string \<Rightarrow> bool" where
  "says p s = (take (length p) s = p)"

definition websHertAppPro_GetStatus :: "web_env \<Rightarrow> web_world \<Rightarrow> int \<times> web_status_body" where
  "websHertAppPro_GetStatus env w = (fst (we_devlist env),
     \<lparr>ws_devStatus = (if says ''pass'' (pingStatus (w_net w)) then 0 else 1), ws_broadbandRate = [],
      ws_wifiStatus = (if hertUtil_isWifiOn (we_ifconfig env) = 1 then 0 else 1), ws_downbandwidth = we_broadband env,
      ws_runStatus = we_workstatus env, ws_devs = snd (we_devlist env)\<rparr>)"

definition no_status :: web_status_body where
  "no_status = \<lparr>ws_devStatus = 0, ws_broadbandRate = [], ws_wifiStatus = 0, ws_downbandwidth = 0, ws_runStatus = 0, ws_devs = []\<rparr>"

definition websHertAppPro_GetRouteStatus :: "web_env \<Rightarrow> string \<Rightarrow> web_world \<Rightarrow> fault + web_world" where
  "websHertAppPro_GetRouteStatus env src w = with_req env 64 src w (\<lambda>ret r x w.
     Inr (if ret \<noteq> 0 then answer r ''MSG_GET_ROUTER_STATUS_RSP'' (RspStatus no_status) HERT_ERR_INVALID_JSON w
       else (let (ret, b) = websHertAppPro_GetStatus env w in
         answer r ''MSG_GET_ROUTER_STATUS_RSP'' (RspStatus b) (if ret \<noteq> 0 then HERT_ERR_INTERNEL_FALSE else 0) w)))"

definition websHertAppPro_GetRouteSN :: "web_env \<Rightarrow> string \<Rightarrow> web_world \<Rightarrow> fault + web_world" where
  "websHertAppPro_GetRouteSN env src w = with_req env 64 src w (\<lambda>ret r x w.
     if ret \<noteq> 0 then Inr (answer r ''MSG_GET_ROUTER_SN_RSP'' (RspSN []) HERT_ERR_INVALID_JSON w)
     else (case we_mac env of
         None \<Rightarrow> Inr (answer r ''MSG_GET_ROUTER_SN_RSP'' (RspSN []) HERT_ERR_INTERNEL_FALSE w)
       | Some m \<Rightarrow>
           let s = hertUtil_getSN (we_uboot_sn env) (Some (printed ''HE_ROUTE_SN'' w)) (Some (printed ''HE_ROUTE_VER'' w)) @
             concat (map hex2 (take 6 m)) in
           if 64 \<le> length s then Inl WriteOverflow
           else Inr (answer r ''MSG_GET_ROUTER_SN_RSP'' (RspSN s) 0 w)))"

definition websHertAppPro_GetRouteSpace :: "web_env \<Rightarrow> string \<Rightarrow> web_world \<Rightarrow> fault + web_world" where
  "websHertAppPro_GetRouteSpace env src w = with_req env 64 src w (\<lambda>ret r x w.
     let rsp = answer r ''MSG_GET_ROUTER_SPACE_RSP''; none = \<lparr>wsp_diskStatus = 0, wsp_totalSpace = 0, wsp_usedSpace = 0, wsp_leftSpace = 0\<rparr> in
     if ret \<noteq> 0 then Inr (rsp (RspSpace none) HERT_ERR_INVALID_JSON w)
     else if \<not> hertUtil_isStorageExist (we_scsi env) then Inr (rsp (RspSpace (none\<lparr>wsp_diskStatus := 1\<rparr>)) 0 w)
     else rbind (hretUtil_GetUSBSize (we_disks env)) (\<lambda>(left, all).
       Inr (rsp (RspSpace (none\<lparr>wsp_totalSpace := of_nat all, wsp_usedSpace := of_nat all - of_nat left,
         wsp_leftSpace := of_nat left\<rparr>)) 0 w)))"

section \<open>The password\<close>

text \<open>The digest that proves the password of the router for a random number.\<close>

definition hex_text :: "byte list \<Rightarrow> string" where
  "hex_text bs = concat (map hex2 bs)"

definition Base64AdminPwd :: "web_env \<Rightarrow> string \<Rightarrow> string \<Rightarrow> string" where
  "Base64AdminPwd env rnd pwd = base64_groups (bytes_of (hex_text (we_md5 env (rnd @ hex_text (we_md5 env pwd)))))"

text \<open>
  Without a digest in the request the one of an earlier request is taken.  szPassword and the copy of
  the platform's key have 130 characters.
\<close>

definition websHertAppPro_GetRoutePassword :: "web_env \<Rightarrow> string \<Rightarrow> web_world \<Rightarrow> fault + web_world" where
  "websHertAppPro_GetRoutePassword env src w = with_req env 194 src w (\<lambda>ret r x w.
     let rsp = answer r ''MSG_GET_ROUTER_PASSWORD_RSP'' in
     if ret \<noteq> 0 then Inr (rsp (RspPassword []) HERT_ERR_INVALID_JSON w)
     else (case x of
         DevPass b \<Rightarrow>
           let admin = (if dp_adminPassword b = [] then MD5Password (w_glob w) else dp_adminPassword b);
               pwd = w_cache w ''Password''
           in if 130 \<le> length admin \<or> 130 \<le> length pwd then Inl WriteOverflow
              else ended 64 (dp_random b) (\<lambda>rnd.
                if rnd = [] \<or> admin = [] then Inr (rsp (RspPassword []) HERT_ERR_INVALID_JSON w)
                else (let d = Base64AdminPwd env rnd pwd in
                  if take (length d) admin \<noteq> d then Inr (rsp (RspPassword []) HERT_ERR_AUTH_FAILED w)
                  else (case we_onenet env of
                      None \<Rightarrow> Inr (rsp (RspPassword []) HERT_ERR_INTERNEL_FALSE w)
                    | Some k \<Rightarrow>
                        if 130 \<le> length k then Inl WriteOverflow
                        else if websDecode64 129 k = [] then Inr (rsp (RspPassword []) HERT_ERR_INTERNEL_FALSE w)
                        else Inr (rsp (RspPassword (we_wrap env (websDecode64 129 k))) 0 w))))
       | _ \<Rightarrow> Inl ReadOverrun))"

section \<open>Network configuration\<close>

text \<open>setNthValue of utils.c: values separated by ";", at most eight of 255 characters.\<close>

fun split_semi :: "string \<Rightarrow> string list" where
  "split_semi [] = [[]]"
| "split_semi (c # cs) = (if c = CHR '';'' then [] # split_semi cs
     else (case split_semi cs of [] \<Rightarrow> [[c]] | f # fs \<Rightarrow> (c # f) # fs))"

definition setNthValue :: "nat \<Rightarrow> string \<Rightarrow> string \<Rightarrow> fault + string" where
  "setNthValue i old new =
     (let fs = split_semi old; k = length fs - 1 in
      if 8 < length fs \<or> 8 \<le> i \<or> list_ex (\<lambda>f. 256 \<le> length f) (new # fs) then Inl WriteOverflow
      else (let buf = (fs @ replicate (8 - length fs) [])[i := new];
                ret = concat (hd buf # map (\<lambda>f. CHR '';'' # f) (take (max k i) (tl buf)))
        in if 2048 \<le> length ret then Inl WriteOverflow else Inr ret))"

definition STFs :: "nat \<Rightarrow> string \<Rightarrow> string \<Rightarrow> web_world \<Rightarrow> fault + web_world" where
  "STFs i n v w = rbind (setNthValue i (w_cache w n) v) (\<lambda>s. Inr (bufset n s w))"

fun STFs_all :: "nat \<Rightarrow> (string \<times> string) list \<Rightarrow> web_world \<Rightarrow> fault + web_world" where
  "STFs_all i [] w = Inr w"
| "STFs_all i ((n, v) # xs) w = rbind (STFs i n v w) (STFs_all i xs)"

fun bufsets :: "(string \<times> string) list \<Rightarrow> web_world \<Rightarrow> web_world" where
  "bufsets [] w = w"
| "bufsets ((n, v) # xs) w = bufsets xs (bufset n v w)"

text \<open>
  hertUtil_setNetConfig4App: the connection to the internet.  inet_aton never returns -1, so the mask
  is not tested.  The number of wireless networks stays, so revise_mbss_value does nothing.  Inr with
  a code that is not 0: the configuration is refused, but what was set before stays set.
\<close>

definition wan_config :: "web_env \<Rightarrow> setnet_body \<Rightarrow> web_world \<Rightarrow> dword \<times> web_world" where
  "wan_config env b w =
     (let w = bufsets [(''wan_ipaddr'', []), (''wan_netmask'', []), (''wan_gateway'', [])] w in
      if netType b = 0 then (0, bufsets [(''wanConnectionMode'', ''DHCP''), (''wan_dhcp_hn'', [])] w)
      else if netType b = 1 then (0, bufsets [(''wan_pppoe_user'', netAccount b), (''wan_pppoe_pass'', netPassword b),
        (''wanConnectionMode'', ''PPPOE''), (''wan_pppoe_opmode'', ''pppoeRedialPeriod''), (''wan_pppoe_optime'', ''60'')] w)
      else if netType b = 2 then
        (let bridge = (w_cache w ''OperationMode'' = ''0'');
             same = (\<lambda>n. \<not> bridge \<and> take 15 (ipv4Address b) = take 15 (w_cache w n));
             w = bufset ''wanConnectionMode'' ''STATIC'' w
         in if \<not> we_inet_addr env (ipv4Address b) then (HERT_ERR_INTERNEL_FALSE, commit w)
            else if same ''lan_ipaddr'' then (HERT_ERR_INVALID_JSON, commit w)
            else if w_cache w ''Lan2Enabled'' = ''1'' \<and> same ''lan2_ipaddr'' then (HERT_ERR_INVALID_JSON, commit w)
            else (0, bufsets ([(''wan_ipaddr'', ipv4Address b), (''wan_netmask'', subnetMask b)] @
              (if bridge then [(''lan_ipaddr'', ipv4Address b), (''lan_netmask'', subnetMask b)] else []) @
              [(''wan_gateway'', gateway b), (''wan_primary_dns'', dnsServer b), (''wan_secondary_dns'', dnsServerBackup b)]) w))
      else (HERT_ERR_UNKNOW_MSGTYPE, w))"

definition setnet_ended :: "setnet_body \<Rightarrow> bool" where
  "setnet_ended b = list_all (\<lambda>s. length s < 32) [netAccount b, netPassword b, wifiName b, wifiPassword b,
     ipv4Address b, subnetMask b, gateway b, dnsServer b, dnsServerBackup b]"

definition hertUtil_setNetConfig4App :: "web_env \<Rightarrow> setnet_body \<Rightarrow> web_world \<Rightarrow> fault + dword \<times> web_world" where
  "hertUtil_setNetConfig4App env b w =
     (if \<not> setnet_ended b then Inl ReadOverrun
      else (let (ret, w) = wan_config env b w in
        if ret \<noteq> 0 then Inr (ret, w)
        else if wifiName b = [] then Inr (HERT_ERR_INVALID_JSON, w)
        else (let w = bufsets [(''SSID1'', wifiName b), (''BssidNum'', show_int (atoi (w_cache w ''BssidNum'')))] w in
          if wifiPassword b \<noteq> [] then
            rbind (STFs_all 0 [(''EncrypType'', ''AES''), (''DefaultKeyID'', ''2''), (''RekeyInterval'', ''1''),
              (''RekeyMethod'', ''TIME''), (''IEEE8021X'', ''0''), (''AuthMode'', ''WPAPSKWPA2PSK'')] w)
              (\<lambda>w. Inr (0, bufset ''WPAPSK1'' (wifiPassword b) w))
          else rbind (STFs_all 0 [(''AuthMode'', ''OPEN''), (''EncrypType'', ''NONE'')] w) (\<lambda>w. Inr (0, w)))))"

text \<open>A digest that does not fit leaves the return code at 0.\<close>

definition websHertAppPro_SetNetWorkConfig :: "web_env \<Rightarrow> string \<Rightarrow> web_world \<Rightarrow> fault + web_world" where
  "websHertAppPro_SetNetWorkConfig env src w = with_req env 483 src w (\<lambda>ret r x w.
     let rsp = answer r ''MSG_SET_NETWORK_RSP'' RspNone in
     if ret \<noteq> 0 then Inr (rsp HERT_ERR_INVALID_JSON w)
     else (case x of
         SetNet b \<Rightarrow>
           let pwd = w_cache w ''Password'' in
           if 130 \<le> length pwd then Inl WriteOverflow
           else ended 64 (sn_random b) (\<lambda>rnd.
             if rnd = [] \<or> sn_adminPassword b = [] then Inr (rsp HERT_ERR_INVALID_JSON w)
             else (let d = Base64AdminPwd env rnd pwd in
               if take (length d) (sn_adminPassword b) \<noteq> d then Inr (rsp 0 w)
               else rbind (hertUtil_setNetConfig4App env b w) (\<lambda>(ret, w).
                 if ret \<noteq> 0 then Inr (rsp ret w)
                 else Inr (act (Call ''initInternet'') (commit (bufset ''needWizard'' ''2''
                   (answer_now r ''MSG_SET_NETWORK_RSP'' 0 w)))))))
       | _ \<Rightarrow> Inl ReadOverrun))"

section \<open>Rules for a client\<close>

text \<open>
  The rule that is asked for is parsed in the cache itself, so that the text there ends behind it.
  An address that is empty, or a rule that cannot be parsed, leaves the answer without values.
\<close>

definition rule_times :: "rule_vars \<Rightarrow> fault + period list" where
  "rule_times v = (case (strchr (CHR '','') (v_start v), strchr (CHR '','') (v_end v)) of
       (Some s, Some e) \<Rightarrow>
         if tl e = [] then Inl ReadOverrun
         else Inr [\<lparr>startTime = take (length (v_start v) - length s) (v_start v),
                    endTime = take (length (v_end v) - length e) (v_end v)\<rparr>, \<lparr>startTime = tl s, endTime = tl e\<rparr>]
     | _ \<Rightarrow> Inr [\<lparr>startTime = v_start v, endTime = v_end v\<rparr>])"

definition websHertAppPro_GetTerminalAccessStatus :: "web_env \<Rightarrow> string \<Rightarrow> web_world \<Rightarrow> fault + web_world" where
  "websHertAppPro_GetTerminalAccessStatus env src w =
     (let w = reload w; rules = w_cache w ''InternetRules'' in
      with_req env 32 src w (\<lambda>ret r x w.
        let rsp = (\<lambda>b. answer r ''MSG_GET_TERMINAL_STATUS_RSP'' (RspTerminal b) 0) in
        if ret \<noteq> 0 then Inl ReadOverrun
        else if \<not> we_mem env then Inl NullDeref
        else (case x of
            TerminalStatus m \<Rightarrow> ended 32 m (\<lambda>m.
              if m = [] then Inl ReadOverrun
              else (case strstr rules m of
                  None \<Rightarrow> Inr (rsp \<lparr>wt_accessControl = 1, wt_netLimit = 1, wt_times = [\<lparr>startTime = ''00:00'', endTime = ''24:00''\<rparr>]\<rparr> w)
                | Some p \<Rightarrow>
                    (let (v, cut) = hertParse_internetRules p \<lparr>v_mac = [], v_acc = 0, v_lim = 1, v_start = [], v_end = []\<rparr>;
                         w = w\<lparr>w_cache := (w_cache w)(''InternetRules'' := take (length rules - length p) rules @ cut)\<rparr>
                     in (case v of
                         None \<Rightarrow> Inl ReadOverrun
                       | Some v \<Rightarrow> rbind (rule_times v) (\<lambda>ts.
                           Inr (rsp \<lparr>wt_accessControl = word_of_int (v_acc v), wt_netLimit = word_of_int (v_lim v), wt_times = ts\<rparr> w))))))
          | _ \<Rightarrow> Inl ReadOverrun)))"

definition terminal_of :: "set_terminal \<Rightarrow> terminal_body" where
  "terminal_of b = \<lparr>devMac = st_devMac b, accessControl = st_accessControl b, netLimit = st_netLimit b,
     netTime = (if periodNum b = 2 then [st_first b, st_second b] else [st_first b])\<rparr>"

definition terminal_ended :: "set_terminal \<Rightarrow> bool" where
  "terminal_ended b = list_all (\<lambda>s. length s < 32) [st_devMac b, startTime (st_first b), endTime (st_first b),
     startTime (st_second b), endTime (st_second b)]"

text \<open>The settings of the client's group: both texts are set, and the cache is written to flash.\<close>

definition apply_qos :: "string \<Rightarrow> dword \<Rightarrow> web_world \<Rightarrow> fault + web_world" where
  "apply_qos m g w = rbind (hertUtil_updateQOSSetting (printed ''QoSULRules'' w) (printed ''QoSDLRules'' w) m (sint g))
     (\<lambda>q. Inr (case q of
         Some (u, d) \<Rightarrow> commit (bufsets [(''QoSULRules'', u), (''QoSDLRules'', d)] w)
       | None \<Rightarrow> if length m \<noteq> 17 \<or> sint g < 0 \<or> 2 < sint g then w else commit w))"

definition websHertAppPro_SetTerminalAccessStatus :: "web_env \<Rightarrow> string \<Rightarrow> web_world \<Rightarrow> fault + web_world" where
  "websHertAppPro_SetTerminalAccessStatus env src w = with_req env 48 src w (\<lambda>ret r x w.
     let rsp = answer r ''MSG_SET_TERMINAL_ACCESS_RSP'' RspNone in
     if ret \<noteq> 0 then Inr (rsp HERT_ERR_INVALID_JSON w)
     else (case x of
         SetTerminal (Some b) \<Rightarrow>
           if \<not> terminal_ended b then Inl ReadOverrun
           else if startTime (st_first b) = [] \<or> endTime (st_first b) = [] then Inr (rsp HERT_ERR_INVALID_JSON w)
           else rbind (hertUtil_updateAccessRulesInNvram (printed ''InternetRules'' w) (terminal_of b) (w_table w))
             (\<lambda>(rules, cmds, table).
               rbind (apply_qos (st_devMac b) (st_netLimit b)
                 ((commit (bufset ''InternetRules'' rules (w\<lparr>w_acts := w_acts w @ map Cmd cmds\<rparr>)))\<lparr>w_table := table\<rparr>)) (\<lambda>w.
                 Inr (act (Cmd ''echo restartgoahead > /var/rstgoahead'') (act (Call ''QoSRestart'')
                   (answer_now r ''MSG_SET_TERMINAL_ACCESS_RSP'' 0 w)))))
       | SetTerminal None \<Rightarrow> Inl NullDeref
       | _ \<Rightarrow> Inl ReadOverrun))"

section \<open>Devices that want to be added\<close>

definition to_add_item :: "DEVINFO \<Rightarrow> fault + web_dev_item" where
  "to_add_item d =
     (if 32 \<le> length (di_szProdType d) \<or> 32 \<le> length (di_szMac d) then Inl WriteOverflow
      else Inr \<lparr>wd_devName = di_szProduct d, wd_devType = di_szProdType d, wd_devID = di_szProdSerial d, wd_mac = di_szMac d\<rparr>)"

fun to_add_items :: "DEVINFO list \<Rightarrow> fault + web_dev_item list" where
  "to_add_items [] = Inr []"
| "to_add_items (d # ds) = rbind (to_add_item d) (\<lambda>i. rbind (to_add_items ds) (\<lambda>is. Inr (i # is)))"

definition websHertAppPro_GeToAddDevList :: "web_env \<Rightarrow> string \<Rightarrow> web_world \<Rightarrow> fault + web_world" where
  "websHertAppPro_GeToAddDevList env src w = with_req env 64 src w (\<lambda>ret r x w.
     let rsp = answer r ''MSG_GET_ROUTER_TOADD_DEV_RSP'' in
     if ret \<noteq> 0 then Inl ReadOverrun
     else if \<not> we_mem env then Inr (rsp (RspDevToAdd []) HERT_ERR_INTERNEL_FALSE w)
     else rbind (to_add_items (case w_toadd w of None \<Rightarrow> [] | Some ds \<Rightarrow> ds)) (\<lambda>is. Inr (rsp (RspDevToAdd is) 0 w)))"

text \<open>A word that the shell hands to echo as it is.\<close>

definition bare_char :: "char \<Rightarrow> bool" where
  "bare_char c = (is_digit c \<or> c \<in> set ''abcdefghijklmnopqrstuvwxyzABCDEFGHIJKLMNOPQRSTUVWXYZ:._'')"

definition bare_word :: "string \<Rightarrow> bool" where
  "bare_word s = list_all bare_char s"

text \<open>
  A device is allowed: its address is appended to the list, and its records leave the file of the
  devices to add.  The first component: what fread returned last, when the file could be opened.
\<close>

definition allow_dev :: "string \<Rightarrow> web_world \<Rightarrow> fault + nat option \<times> web_world" where
  "allow_dev m w =
     rbind (if hertUtil_IsInFile (w_allow w) m then Inr w
       else if \<not> bare_word m then Inl ShellExpansion
       else Inr (act (Cmd (''echo '' @ m @ '' >> /var/allowAddlist''))
         (w\<lparr>w_allow := Some ((case w_allow w of None \<Rightarrow> [] | Some s \<Rightarrow> s) @ m @ [CHR 0x0A])\<rparr>))) (\<lambda>w.
     (case w_toadd w of
        None \<Rightarrow> Inr (None, w)
      | Some ds \<Rightarrow> (let rest = filter (\<lambda>d. \<not> has_text m (di_szMac d)) ds in
          Inr (Some 0, w\<lparr>w_toadd := (if rest = [] then None else Some rest)\<rparr>))))"

text \<open>A device is refused: the lines with its address leave the list.\<close>

definition refuse_dev :: "string \<Rightarrow> web_world \<Rightarrow> fault + web_world" where
  "refuse_dev m w = (case w_allow w of
       None \<Rightarrow> Inr w
     | Some s \<Rightarrow>
         let kept = filter (\<lambda>l. \<not> has_text m l) (fgets_lines 128 s) in
         if list_ex (\<lambda>l. \<not> bare_word (butlast l)) kept then Inl ShellExpansion
         else Inr (w\<lparr>w_allow := (if kept = [] then None else Some (concat (map (\<lambda>l. butlast l @ [CHR 0x0A]) kept)))\<rparr>))"

text \<open>
  The loop over the list.  It counts with \<open>i\<close>, which the reading of the file overwrites; \<open>k\<close> is the
  place in the list.
\<close>

function allow_loop :: "nat \<Rightarrow> nat \<Rightarrow> dev_allow list \<Rightarrow> web_world \<Rightarrow> fault + web_world" where
  "allow_loop i k ds w =
     (if length ds \<le> i then Inr w
      else if length ds \<le> k then Inl ReadOverrun
      else (let d = ds ! k in
        if 32 \<le> length (al_mac d) then Inl ReadOverrun
        else if AllowAdd d \<noteq> 0 then
          (case allow_dev (al_mac d) w of
             Inl f \<Rightarrow> Inl f
           | Inr (j, w) \<Rightarrow> allow_loop ((case j of None \<Rightarrow> i | Some j \<Rightarrow> j) + 1) (k + 1) ds w)
        else if hertUtil_IsInFile (w_allow w) (al_mac d) then
          (case refuse_dev (al_mac d) w of Inl f \<Rightarrow> Inl f | Inr w \<Rightarrow> allow_loop (i + 1) (k + 1) ds w)
        else allow_loop (i + 1) (k + 1) ds w))"
  by pat_completeness auto
termination
  by (relation "measure (\<lambda>(i, k, ds, w). length ds - k)") auto

declare allow_loop.simps [simp del]

definition websHertAppPro_SetAllowAddDev :: "web_env \<Rightarrow> string \<Rightarrow> web_world \<Rightarrow> fault + web_world" where
  "websHertAppPro_SetAllowAddDev env src w = with_req env 8 src w (\<lambda>ret r x w.
     let rsp = (\<lambda>e w. w\<lparr>w_out := web_answer r ''MSG_SET_ROUTER_ADD_DEV_RSP'' RspNone e ''MSG_GET_ROUTER_TOADD_DEV_RSP''\<rparr>) in
     if ret \<noteq> 0 then Inr (rsp HERT_ERR_INVALID_JSON w)
     else (case x of
         AddDev (Some b) \<Rightarrow> rbind (allow_loop 0 0 (pDevAddList b) w) (\<lambda>w. Inr (rsp 0 w))
       | AddDev None \<Rightarrow> Inr (rsp 0 w)
       | _ \<Rightarrow> Inl ReadOverrun))"

section \<open>Strength and channel of the wireless network\<close>

definition strength_code :: "int \<Rightarrow> byte" where
  "strength_code p = (if p = 100 then 0 else if 60 \<le> p \<and> p < 100 then 1 else if 40 \<le> p \<and> p < 60 then 2 else - 1)"

definition websHertAppPro_WifiStrengthREQ :: "web_env \<Rightarrow> string \<Rightarrow> web_world \<Rightarrow> fault + web_world" where
  "websHertAppPro_WifiStrengthREQ env src w = with_req env 64 src w (\<lambda>ret r x w.
     if ret \<noteq> 0 then Inl ReadOverrun
     else Inr (answer r ''MSG_GET_WIFI_STRENGTH_RSP'' (RspStrength (strength_code (atoi (w_cache w ''TxPower'')))) 0 w))"

definition strength_power :: "int \<Rightarrow> string option" where
  "strength_power s = (if s = 0 then Some ''100'' else if s = 1 then Some ''60'' else if s = 2 then Some ''40'' else None)"

definition websHertAppPro_SetWifiStrengthREQ :: "web_env \<Rightarrow> string \<Rightarrow> web_world \<Rightarrow> fault + web_world" where
  "websHertAppPro_SetWifiStrengthREQ env src w = with_req env 4 src w (\<lambda>ret r x w.
     let rsp = answer r ''MSG_SET_WIFI_STRENGTH_RSP'' RspNone in
     if ret \<noteq> 0 then Inr (rsp HERT_ERR_INVALID_JSON w)
     else (case x of
         Strength s \<Rightarrow> (case strength_power s of
             None \<Rightarrow> Inr (rsp 0 w)
           | Some p \<Rightarrow> Inr (rsp 0 (commit (bufset ''TxPower'' p w))))
       | _ \<Rightarrow> Inl ReadOverrun))"

definition websHertAppPro_GetWifiChannelREQ :: "web_env \<Rightarrow> string \<Rightarrow> web_world \<Rightarrow> fault + web_world" where
  "websHertAppPro_GetWifiChannelREQ env src w = with_req env 64 src w (\<lambda>ret r x w.
     let rsp = answer r ''MSG_GET_CURRENT_ROUTER_CHANNEL_RSP''; sel = w_cache w ''ChannelSelected'' in
     if ret \<noteq> 0 then Inr (rsp (RspChannel []) HERT_ERR_INVALID_JSON w)
     else if sel = [] \<or> sel = ''AutoSelect'' \<or> sel = ''0'' then
       Inr (rsp (RspChannel (show_int (we_channel env))) 0 w)
     else ended 32 (w_cache w ''Channel'') (\<lambda>c. Inr (rsp (RspChannel c) 0 w)))"

text \<open>The command for the driver is formatted with a pointer that was never set.\<close>

definition websHertAppPro_SetWifiChannelREQ :: "web_env \<Rightarrow> string \<Rightarrow> web_world \<Rightarrow> fault + web_world" where
  "websHertAppPro_SetWifiChannelREQ env src w = with_req env 32 src w (\<lambda>ret r x w.
     let rsp = (\<lambda>r. answer r ''MSG_SET_ROUTER_CHANNEL_RSP'' RspNone HERT_ERR_INVALID_JSON) in
     if ret \<noteq> 0 then Inr (rsp r w)
     else (case x of
         Channel c \<Rightarrow> if c = [] then Inr (rsp \<lparr>req_version = 0, req_msgSeq = []\<rparr> w) else Inl ReadOverrun
       | _ \<Rightarrow> Inl ReadOverrun))"

section \<open>Other types\<close>

definition websHertAppPro_UnknowMSGTypeREQ :: "web_env \<Rightarrow> string \<Rightarrow> web_world \<Rightarrow> fault + web_world" where
  "websHertAppPro_UnknowMSGTypeREQ env src w = with_req env 64 src w (\<lambda>ret r x w.
     let r = (if req_msgSeq r = [] \<or> req_version r = 0 then \<lparr>req_version = 1, req_msgSeq = ''1''\<rparr> else r) in
     Inr (w\<lparr>w_out := hertUtil_BuildErrMsgRsp HERT_ERR_UNKNOW_MSGTYPE ''UNKNOW_MESSAGE_TYPE_RSP'' r\<rparr>))"

end
