(* ===== verification/WebDevice.thy ===== *)
theory WebDevice
  imports WebApi
begin

text \<open>
  Handlers of the local application for the device itself (goahead/src/herouter.c): what it is and
  whether a firmware waits for it, the upgrade, the search for faults, WPS, and switching off the wireless network.
\<close>

section \<open>Ability and upgrade\<close>

definition HERT_ERR_UPGRADE_DOWN :: dword where "HERT_ERR_UPGRADE_DOWN = 0xa007"
definition HERT_ERR_UPGRADE_PROCESS :: dword where "HERT_ERR_UPGRADE_PROCESS = 0xa008"
definition HERT_ERR_UPGRADE_NONEED :: dword where "HERT_ERR_UPGRADE_NONEED = 0xa009"

definition hertUtil_getIsNeedUpgrade :: "byte option \<Rightarrow> byte" where
  "hertUtil_getIsNeedUpgrade info = (case info of None \<Rightarrow> 0 | Some n \<Rightarrow> if n = 0 then 0 else 1)"

definition heDevName :: string where
  "heDevName = map char_of [0x54, 0x8C, 0x8D, 0xEF, 0x75, 0x31 :: nat]"

definition no_ability :: web_ability_body where
  "no_ability = \<lparr>wa_devName = [], wa_fac = [], wa_type = [], wa_softVersion = [], wa_softUpdate = 0, wa_softUpdateDis = []\<rparr>"

text \<open>The type of the device is copied into 32 chars.\<close>

definition websHertAppPro_GetRouteAbility :: "web_env \<Rightarrow> string \<Rightarrow> web_world \<Rightarrow> fault + web_world" where
  "websHertAppPro_GetRouteAbility env src w = with_req env 64 src w (\<lambda>ret r x w.
     let rsp = answer r ''MSG_GET_ROUTER_ABILITY_RSP'';
         type = hertUtil_getDeviceType (Some (printed ''HE_ROUTE_DevType'' w))
     in if ret \<noteq> 0 then Inr (rsp (RspAbility no_ability) HERT_ERR_INVALID_JSON w)
        else if 32 \<le> length type then Inl WriteOverflow
        else Inr (rsp (RspAbility \<lparr>wa_devName = heDevName, wa_fac = ''DARE'', wa_type = type,
          wa_softVersion = hertUtil_getFirmwareVersion (Some (printed ''HE_ROUTE_VER'' w)),
          wa_softUpdate = (case we_upgradeinfo env of None \<Rightarrow> hertUtil_getIsNeedUpgrade None | Some n \<Rightarrow> n),
          wa_softUpdateDis = []\<rparr>) 0 w))"

definition hertUtil_getHerouteUpImg :: "string option \<Rightarrow> int" where
  "hertUtil_getHerouteUpImg f = atoi (read_setting 1 f)"

text \<open>The loop that waits for the result of the download, from the n-th second on.\<close>

partial_function (option) fm_wait :: "(nat \<Rightarrow> string option) \<Rightarrow> nat \<Rightarrow> (dword \<times> nat) option" where
  "fm_wait f n =
     (if hertUtil_IsInFile (f n) ''faileddownfm'' then Some (HERT_ERR_UPGRADE_DOWN, n)
      else if hertUtil_IsInFile (f n) ''successdownfm'' then Some (HERT_ERR_UPGRADE_PROCESS, n)
      else fm_wait f (n + 1))"

text \<open>
  The program nvram_set writes to flash, not to the cache of the server.  Without a result of the
  download the request is never answered, and no other one is.
\<close>

definition websHertAppPro_RouteUpgrade :: "web_env \<Rightarrow> string \<Rightarrow> web_world \<Rightarrow> fault + web_world" where
  "websHertAppPro_RouteUpgrade env src w = with_req env 64 src w (\<lambda>ret r x w.
     let rsp = answer r ''MSG_ROUTER_UPDATE_RSP'' RspNone in
     if ret \<noteq> 0 then Inr (rsp HERT_ERR_INVALID_JSON w)
     else if w_upgradeState w = 1 then Inr (rsp HERT_ERR_UPGRADE_PROCESS w)
     else if hertUtil_getHerouteUpImg (Some (printed ''HE_ROUTE_UPIMAG'' w)) = 1 then
       Inr (rsp 0 (act (Cmd ''nvram_set HE_ROUTE_UPIMAG 0'') (w\<lparr>w_flash := (w_flash w)(''HE_ROUTE_UPIMAG'' := ''0'')\<rparr>)))
     else (let w = act (Cmd ''rm -rf /var/fmdownresult'') (act (Cmd ''rm -rf /var/upgradenow'') w) in
       if hertUtil_getIsNeedUpgrade (we_upgradeinfo env) = 0 then Inr (rsp HERT_ERR_UPGRADE_NONEED w)
       else (case fm_wait (we_fmdown env) 0 of
           None \<Rightarrow> Inl Blocked
         | Some (e, n) \<Rightarrow> Inr (rsp e ((act (Cmd ''echo downloadnow > /var/downloadnow'') w)
             \<lparr>w_upgradeState := (if e = HERT_ERR_UPGRADE_PROCESS then 1 else w_upgradeState w)\<rparr>)))))"

section \<open>Faults\<close>

text \<open>The texts of the faults, in UTF-8.\<close>

definition Fault_1 :: web_fault_item where
  "Fault_1 = \<lparr>wf_faultType = ''C1'',
     wf_faultReason = map char_of ([87, 65, 78, 229, 143, 163, 231, 189, 145, 231, 186, 191, 230, 156, 170, 230,
       143, 146, 229, 133, 165] :: nat list),
     wf_faultProcess = ''empty'',
     wf_faultAllSteps = map char_of ([232, 175, 183, 229, 176, 134, 231, 189, 145, 231, 186, 191, 230, 143, 146,
       229, 133, 165, 226, 128, 156, 229, 174, 189, 229, 184, 166, 229, 143, 163, 226, 128, 157, 239, 188,
       140, 230, 136, 150, 230, 159, 165, 231, 156, 139, 231, 189, 145, 231, 186, 191, 230, 152, 175, 229,
       144, 166, 230, 157, 190, 229, 138, 168] :: nat list)\<rparr>"

definition Fault_2 :: web_fault_item where
  "Fault_2 = \<lparr>wf_faultType = ''C2'',
     wf_faultReason = map char_of ([85, 83, 66, 229, 143, 163, 230, 156, 170, 230, 143, 146, 229, 133, 165, 231,
       163, 129, 231, 155, 152] :: nat list),
     wf_faultProcess = ''empty'',
     wf_faultAllSteps = map char_of ([232, 139, 165, 232, 166, 129, 228, 189, 191, 231, 148, 168, 229, 174, 182,
       229, 186, 173, 231, 169, 186, 233, 151, 180, 229, 138, 159, 232, 131, 189, 239, 188, 140, 232, 175,
       183, 230, 143, 146, 229, 133, 165, 85, 231, 155, 152, 230, 136, 150, 231, 167, 187, 229, 138, 168, 231,
       161, 172, 231, 155, 152] :: nat list)\<rparr>"

definition Fault_3 :: web_fault_item where
  "Fault_3 = \<lparr>wf_faultType = ''C3'',
     wf_faultReason = map char_of ([68, 72, 67, 80, 230, 150, 185, 229, 188, 143, 228, 184, 138, 231, 189, 145, 32,
       239, 188, 140, 230, 178, 161, 230, 156, 137, 232, 142, 183, 229, 190, 151, 228, 184, 138, 231, 189,
       145, 229, 143, 130, 230, 149, 176] :: nat list),
     wf_faultProcess = ''empty'',
     wf_faultAllSteps = map char_of ([230, 130, 168, 233, 135, 135, 231, 148, 168, 228, 186, 134, 232, 135, 170,
       229, 138, 168, 232, 142, 183, 229, 143, 150, 239, 188, 136, 68, 72, 67, 80, 239, 188, 137, 230, 150,
       185, 229, 188, 143, 228, 184, 138, 231, 189, 145, 239, 188, 140, 232, 142, 183, 229, 143, 150, 228,
       184, 138, 231, 189, 145, 229, 143, 130, 230, 149, 176, 229, 164, 177, 232, 180, 165, 239, 188, 140,
       232, 175, 183, 229, 146, 168, 232, 175, 162, 229, 174, 189, 229, 184, 166, 232, 191, 144, 232, 144,
       165, 229, 149, 134] :: nat list)\<rparr>"

definition Fault_4 :: web_fault_item where
  "Fault_4 = \<lparr>wf_faultType = ''C4'',
     wf_faultReason = map char_of ([68, 72, 67, 80, 230, 150, 185, 229, 188, 143, 228, 184, 138, 231, 189, 145,
       239, 188, 140, 232, 142, 183, 229, 143, 150, 228, 184, 138, 231, 189, 145, 229, 143, 130, 230, 149,
       176, 230, 136, 144, 229, 138, 159, 239, 188, 140, 228, 189, 134, 229, 164, 150, 231, 189, 145, 232,
       191, 158, 230, 142, 165, 229, 188, 130, 229, 184, 184] :: nat list),
     wf_faultProcess = ''empty'',
     wf_faultAllSteps = map char_of ([230, 130, 168, 233, 135, 135, 231, 148, 168, 228, 186, 134, 232, 135, 170,
       229, 138, 168, 232, 142, 183, 229, 143, 150, 239, 188, 136, 68, 72, 67, 80, 239, 188, 137, 230, 150,
       185, 229, 188, 143, 228, 184, 138, 231, 189, 145, 239, 188, 140, 232, 142, 183, 229, 143, 150, 228,
       184, 138, 231, 189, 145, 229, 143, 130, 230, 149, 176, 230, 136, 144, 229, 138, 159, 239, 188, 140,
       228, 189, 134, 231, 189, 145, 231, 187, 156, 232, 191, 158, 230, 142, 165, 228, 184, 141, 233, 128,
       154, 231, 149, 133, 239, 188, 140, 232, 175, 183, 229, 146, 168, 232, 175, 162, 229, 174, 189, 229,
       184, 166, 232, 191, 144, 232, 144, 165, 229, 149, 134] :: nat list)\<rparr>"

definition Fault_5 :: web_fault_item where
  "Fault_5 = \<lparr>wf_faultType = ''C5'',
     wf_faultReason = map char_of ([80, 80, 80, 111, 69, 230, 139, 168, 229, 143, 183, 232, 180, 166, 229, 143,
       183, 230, 136, 150, 229, 175, 134, 231, 160, 129, 233, 148, 153, 232, 175, 175] :: nat list),
     wf_faultProcess = ''empty'',
     wf_faultAllSteps = map char_of ([229, 174, 189, 229, 184, 166, 232, 180, 166, 229, 143, 183, 230, 136, 150,
       229, 175, 134, 231, 160, 129, 233, 148, 153, 232, 175, 175, 239, 188, 140, 232, 175, 183, 230, 163,
       128, 230, 159, 165, 232, 190, 147, 229, 133, 165, 230, 152, 175, 229, 144, 166, 230, 173, 163, 231,
       161, 174] :: nat list)\<rparr>"

definition Fault_6 :: web_fault_item where
  "Fault_6 = \<lparr>wf_faultType = ''C6'',
     wf_faultReason = map char_of ([80, 80, 80, 111, 69, 230, 139, 168, 229, 143, 183, 230, 151, 160, 230, 179,
       149, 232, 142, 183, 229, 143, 150, 228, 184, 138, 231, 189, 145, 229, 143, 130, 230, 149, 176] :: nat
       list),
     wf_faultProcess = ''empty'',
     wf_faultAllSteps = map char_of ([229, 174, 189, 229, 184, 166, 230, 139, 168, 229, 143, 183, 239, 188, 136,
       80, 80, 80, 111, 69, 239, 188, 137, 229, 164, 177, 232, 180, 165, 239, 188, 140, 232, 175, 183, 230,
       163, 128, 230, 159, 165, 231, 189, 145, 231, 186, 191, 230, 152, 175, 229, 144, 166, 232, 191, 158,
       230, 142, 165, 230, 173, 163, 231, 161, 174, 239, 188, 140, 229, 166, 130, 232, 191, 152, 230, 156,
       137, 233, 151, 174, 233, 162, 152, 232, 175, 183, 229, 146, 168, 232, 175, 162, 229, 174, 189, 229,
       184, 166, 232, 191, 144, 232, 144, 165, 229, 149, 134] :: nat list)\<rparr>"

definition Fault_7 :: web_fault_item where
  "Fault_7 = \<lparr>wf_faultType = ''C7'',
     wf_faultReason = map char_of ([80, 80, 80, 111, 69, 230, 139, 168, 229, 143, 183, 230, 136, 144, 229, 138,
       159, 239, 188, 140, 232, 142, 183, 229, 143, 150, 228, 184, 138, 231, 189, 145, 229, 143, 130, 230,
       149, 176, 230, 136, 144, 229, 138, 159, 239, 188, 140, 228, 189, 134, 229, 164, 150, 231, 189, 145,
       232, 191, 158, 230, 142, 165, 229, 188, 130, 229, 184, 184] :: nat list),
     wf_faultProcess = ''empty'',
     wf_faultAllSteps = map char_of ([229, 174, 189, 229, 184, 166, 230, 139, 168, 229, 143, 183, 239, 188, 136,
       80, 80, 80, 111, 69, 239, 188, 137, 230, 136, 144, 229, 138, 159, 239, 188, 140, 228, 189, 134, 231,
       189, 145, 231, 187, 156, 232, 191, 158, 230, 142, 165, 228, 184, 141, 233, 128, 154, 231, 149, 133,
       239, 188, 140, 232, 175, 183, 229, 146, 168, 232, 175, 162, 229, 174, 189, 229, 184, 166, 232, 191,
       144, 232, 144, 165, 229, 149, 134] :: nat list)\<rparr>"

text \<open>
  The search: a fault of the connection (the first that applies), and a missing disk.
\<close>

definition connection_fault :: "network_status \<Rightarrow> string \<Rightarrow> web_fault_item list" where
  "connection_fault st contype =
     (if says ''fail'' (wanPortStatus st) then [Fault_1]
      else if says ''fail'' (WanIpStatus st) then
        [if contype = ''DHCP'' then Fault_3 else if says ''fail'' (PPPOEStatus st) then Fault_5 else Fault_6]
      else if \<not> says ''pass'' (pingStatus st) then [if contype = ''DHCP'' then Fault_4 else Fault_7]
      else [])"

definition websHertAppPro_GeFaultDetect :: "web_env \<Rightarrow> string \<Rightarrow> web_world \<Rightarrow> fault + web_world" where
  "websHertAppPro_GeFaultDetect env src w = with_req env 4 src w (\<lambda>ret r x w.
     let rsp = answer r ''MSG_GET_ROUTER_FAULT_DETEC_RSP'' in
     if ret \<noteq> 0 then Inr (rsp (RspFaults []) HERT_ERR_INVALID_JSON w)
     else if \<not> we_mem env then Inr (rsp (RspFaults []) HERT_ERR_INTERNEL_FALSE w)
     else (case x of
         FaultDect t \<Rightarrow>
           if t \<noteq> 1 \<and> t \<noteq> 0 then Inr (rsp (RspFaults []) 0 w)
           else ended 8 (PPPOEStatus (w_net w)) (\<lambda>_. ended 8 (wanPortStatus (w_net w)) (\<lambda>_. ended 8 (WanIpStatus (w_net w)) (\<lambda>_.
             Inr (rsp (RspFaults (connection_fault (w_net w) (w_cache w ''wanConnectionMode'') @
               (if hertUtil_isStorageExist (we_scsi env) then [] else [Fault_2]))) 0 w))))
       | _ \<Rightarrow> Inl ReadOverrun))"

section \<open>WPS\<close>

text \<open>
  The settings and commands; False: without an address of the LAN the rest is left out.
\<close>

definition wps_set :: "web_env \<Rightarrow> byte \<Rightarrow> web_world \<Rightarrow> bool \<times> web_world" where
  "wps_set env sw w =
     (let w = commit (bufset ''WscModeOption'' (if sw = 0 then ''0'' else ''7'') (act (Call ''HertApp_ResetTimerAll'') w));
          w = (if we_miniupnpd env then w else act (Cmd ''kill -9 `cat /var/run/wscd.pid.ra0`'') w);
          upnp = (\<lambda>w. if we_miniupnpd env then act (Cmd ''miniupnpd.sh init'') w else w)
      in if sw = 0 then (True, upnp (w\<lparr>w_wpsState := 2\<rparr>))
         else (case we_lan_ip env of
             None \<Rightarrow> (False, w)
           | Some lan \<Rightarrow>
               let w = act (Cmd ''route add -host 239.255.255.250 dev br0'') (act (Cmd ''iwpriv ra0 set WscConfMode=7'') w);
                   w = (if we_miniupnpd env then w else act (Cmd (''wscd -m 1 -a '' @ lan @ '' -i ra0 &'')) w)
               in (True, upnp (w\<lparr>w_wpsState := 1\<rparr>))))"

text \<open>The answer is sent first.  A switch that is the character blank is no switch.\<close>

definition websHertAppPro_SetWPSSwitch :: "web_env \<Rightarrow> string \<Rightarrow> web_world \<Rightarrow> fault + web_world" where
  "websHertAppPro_SetWPSSwitch env src w = with_req env 1 src w (\<lambda>ret r x w.
     if ret \<noteq> 0 then Inr (answer r ''MSG_SET_ROUTER_WPS_SWITCH_RSP'' RspNone HERT_ERR_INVALID_JSON w)
     else (case x of
         WpsSwitch sw \<Rightarrow>
           let (go, w) = (let w = answer_now r ''MSG_SET_ROUTER_WPS_SWITCH_RSP'' 0 w in if sw = 32 then (True, w) else wps_set env sw w)
           in Inr (if go \<and> w_cache w ''WscModeOption'' = ''7''
             then act (Call ''HertApp_SetWPSPBC'') (act (Cmd ''iwpriv ra0 set WscConfStatus=2'') w) else w)
       | _ \<Rightarrow> Inl ReadOverrun))"

section \<open>Switching off the wireless network\<close>

text \<open>strtoul with base 16 and 32 bits.\<close>

definition hex_val :: "char \<Rightarrow> nat option" where
  "hex_val c = (if is_digit c then Some (digit_val c)
     else (let n = of_char c :: nat in
       if 97 \<le> n \<and> n \<le> 102 then Some (n - 87) else if 65 \<le> n \<and> n \<le> 70 then Some (n - 55) else None))"

fun scan_hex :: "nat \<Rightarrow> string \<Rightarrow> nat" where
  "scan_hex acc [] = acc"
| "scan_hex acc (c # cs) = (case hex_val c of None \<Rightarrow> acc | Some d \<Rightarrow> scan_hex (acc * 16 + d) cs)"

definition strtoul16 :: "string \<Rightarrow> dword" where
  "strtoul16 s =
     (let s = dropWhile is_space s;
          neg = (take 1 s = ''-'');
          s = (if neg \<or> take 1 s = ''+'' then drop 1 s else s);
          s = (if take 2 s = ''0x'' \<or> take 2 s = ''0X'' then drop 2 s else s);
          n = scan_hex 0 s
      in if 2 ^ 32 \<le> n then - 1 else if neg then - of_nat n else of_nat n)"

text \<open>
  The first word that "reg p 400" prints goes into 11 chars.  With several networks all of them go down,
  the last one first.
\<close>

definition down_cmds :: "bool \<Rightarrow> int \<Rightarrow> string list" where
  "down_cmds mbss n = (if \<not> mbss then [''ifconfig ra0 down'']
     else map (\<lambda>k. ''ifconfig ra'' @ show_int k @ '' down'') (if n \<le> 0 then [n - 1] else rev [0..n - 1]))"

definition first_word :: "string \<Rightarrow> string" where
  "first_word s = takeWhile (\<lambda>c. \<not> is_space c) (dropWhile is_space s)"

definition acts_on :: "web_act list \<Rightarrow> web_world \<Rightarrow> web_world" where
  "acts_on as w = w\<lparr>w_acts := w_acts w @ as\<rparr>"

definition websHertAppPro_SetWifiClosedREQ :: "web_env \<Rightarrow> string \<Rightarrow> web_world \<Rightarrow> fault + web_world" where
  "websHertAppPro_SetWifiClosedREQ env src w = with_req env 64 src w (\<lambda>ret r x w.
     if ret \<noteq> 0 then Inr (answer r ''MSG_SET_WIFI_CLOSED_RSP'' RspNone HERT_ERR_INVALID_JSON w)
     else (let w = acts_on (map Cmd (down_cmds (we_mbss env) (atoi (w_cache w ''BssidNum'')) @ [''rmmod rt2860v2_ap'', ''reg s b0180000'']))
                 (answer_now r ''MSG_SET_WIFI_CLOSED_RSP'' 0 w)
           in (case we_reg env of
               None \<Rightarrow> Inl NullDeref
             | Some s \<Rightarrow>
                 if first_word s = [] then Inl ReadOverrun
                 else if 11 \<le> length (first_word s) then Inl WriteOverflow
                 else Inr (commit (bufset ''WiFiOff'' ''1'' (acts_on (map Cmd
                   [''reg w 400 '' @ show_hex (unat (strtoul16 (first_word s) AND NOT (push_bit 9 7))), ''reg w 1204 8'', ''reg w 1004 3'']) w))))))"

end
