(* ===== verification/WebGuest.thy ===== *)
theory WebGuest
  imports WebApi
begin

text \<open>
  The guests' network (goahead/src/herouter.c, heroute_util.c): its switch, its clock, and the
  settings of several wireless networks, which are values with semicolons in between.
\<close>

section \<open>The number of networks\<close>

definition racat :: "string \<Rightarrow> int \<Rightarrow> string" where
  "racat s i = snprintf_into 32 (s @ show_int i)"

text \<open>
  MBSS_INIT: the default for each network that is added, in new_value[264].  The place \<open>p\<close> to write at
  goes on even when the text does not.
\<close>

fun mbss_add :: "string \<Rightarrow> nat \<Rightarrow> nat \<Rightarrow> string \<Rightarrow> fault + string" where
  "mbss_add d 0 p v = Inr v"
| "mbss_add d (Suc k) p v =
     (if 264 < p then Inl WriteOverflow else mbss_add d k (p + 1 + length d) (take 263 (take p v @ CHR '';'' # d)))"

definition mbss_init :: "int \<Rightarrow> int \<Rightarrow> string \<times> string \<Rightarrow> web_world \<Rightarrow> fault + web_world" where
  "mbss_init old_num new_num fd w =
     rbind (mbss_add (snd fd) (nat (new_num - old_num)) (length (w_cache w (fst fd))) (take 263 (w_cache w (fst fd))))
       (\<lambda>v. Inr (bufset (fst fd) v w))"

fun join_semi :: "string list \<Rightarrow> string" where
  "join_semi [] = []"
| "join_semi [f] = f"
| "join_semi (f # fs) = f @ CHR '';'' # join_semi fs"

text \<open>MBSS_REMOVE: the values of the networks that are left.\<close>

definition mbss_remove :: "int \<Rightarrow> string \<Rightarrow> web_world \<Rightarrow> web_world" where
  "mbss_remove new_num n w =
     (let v = take 263 (w_cache w n); fs = split_semi v
      in bufset n (if nat new_num < length fs then join_semi (take (nat new_num) fs) else v) w)"

definition mbss_defaults :: "(string \<times> string) list" where
  "mbss_defaults = [(''AuthMode'', ''OPEN''), (''EncrypType'', ''NONE''), (''DefaultKeyID'', ''1''), (''Key1Type'', ''0''),
     (''Key2Type'', ''0''), (''Key3Type'', ''0''), (''Key4Type'', ''0''), (''NoForwarding'', ''0''),
     (''NoForwardingBTNBSSID'', ''0''), (''IEEE8021X'', ''0''), (''RADIUS_Server'', ''0''), (''RADIUS_Port'', ''1812''),
     (''TxRate'', ''0''), (''PreAuth'', ''0''), (''WmmCapable'', ''1'')]"

definition mbss_names :: "string list" where
  "mbss_names = [''AuthMode'', ''EncrypType'', ''DefaultKeyID'', ''Key1Type'', ''Key2Type'', ''Key3Type'', ''Key4Type'',
     ''NoForwarding'', ''NoForwardingBTNBSSID'', ''IEEE8021X'', ''RADIUS_Server'', ''RADIUS_Port'', ''TxRate'', ''HideSSID'',
     ''PreAuth'', ''WmmCapable'']"

text \<open>The settings with a name of their own for each network; the keys of the access list count from 0.\<close>

definition mbss_own :: "(string \<times> string) list \<Rightarrow> int \<Rightarrow> (string \<times> string) list" where
  "mbss_own fs i = map (\<lambda>(n, v). (racat n i, v)) fs @
     [(racat ''Key1Str'' i, []), (racat ''Key2Str'' i, []), (racat ''Key3Str'' i, []), (racat ''Key4Str'' i, []),
      (racat ''AccessPolicy'' (i - 1), ''0''), (racat ''AccessControlList'' (i - 1), [])]"

fun mbss_inits :: "int \<Rightarrow> int \<Rightarrow> (string \<times> string) list \<Rightarrow> web_world \<Rightarrow> fault + web_world" where
  "mbss_inits old_num new_num [] w = Inr w"
| "mbss_inits old_num new_num (fd # fds) w =
     rbind (mbss_init old_num new_num fd w) (mbss_inits old_num new_num fds)"

definition revise_mbss_value :: "int \<Rightarrow> int \<Rightarrow> web_world \<Rightarrow> fault + web_world" where
  "revise_mbss_value old_num new_num w =
     (if old_num < new_num then
        rbind (mbss_inits old_num new_num mbss_defaults w) (\<lambda>w.
          Inr (bufsets (concat (map (mbss_own [(''WPAPSK'', ''12345678'')]) [old_num + 1..new_num])) w))
      else if new_num < old_num then
        Inr (bufsets (concat (map (mbss_own [(''SSID'', []), (''WPAPSK'', [])]) [new_num + 1..old_num]))
          (fold (mbss_remove new_num) mbss_names w))
      else Inr w)"

section \<open>The switch\<close>

definition ConfWPAGeneral :: "nat \<Rightarrow> web_world \<Rightarrow> fault + web_world" where
  "ConfWPAGeneral mbssid = STFs_all mbssid [(''EncrypType'', ''AES''), (''DefaultKeyID'', ''1''), (''RekeyInterval'', ''0''),
     (''RekeyMethod'', ''TIME''), (''IEEE8021X'', ''0'')]"

text \<open>
  The name of the guests' network is made by strcat in the cache of the setting SSID1, behind the end
  of its block: what is there is overwritten, and without room the write is a fault.  The network of the
  router then has the name of the guests' network.  The hours go into two characters.
\<close>

definition guest_switch :: "web_env \<Rightarrow> guest_body \<Rightarrow> web_world \<Rightarrow> fault + int \<times> int \<times> web_world" where
  "guest_switch env b w =
     (if \<not> we_room env then Inl WriteOverflow
      else (let old = atoi (w_cache w ''BssidNum''); name = w_cache w ''SSID1'' @ ''_GUEST'';
                w = w\<lparr>w_cache := (w_cache w)(''SSID1'' := name)\<rparr>;
                hours = show_int (sint (openTime b))
        in rbind (if wifiSwitch b = 1 then
               (if 2 \<le> length hours then Inl WriteOverflow
                else Inr (bufsets ((''SSID2'', name) # (if old < 2 then [(''BssidNum'', ''2'')] else []) @
                  [(''GuestOpenTime'', hours), (''GuestStartTime'', show_int (we_uptime env))]) w))
             else if wifiSwitch b = 0 then
               Inr (bufsets ((''SSID2'', []) # (if 2 \<le> old then [(''BssidNum'', ''1'')] else []) @
                 [(''GuestOpenTime'', ''0''), (''GuestStartTime'', ''0'')]) w)
             else Inr w) (\<lambda>w.
           let new = atoi (w_cache w ''BssidNum'') in
           rbind (revise_mbss_value old new w) (\<lambda>w. Inr (old, new, w)))))"

definition guest_password_switch :: "guest_body \<Rightarrow> web_world \<Rightarrow> fault + web_world" where
  "guest_password_switch b w =
     (if passwordSwitch b = 0 then STFs_all 1 [(''AuthMode'', ''OPEN''), (''EncrypType'', ''NONE'')] w
      else if passwordSwitch b = 1 then
        rbind (ConfWPAGeneral 1 w) (\<lambda>w.
        rbind (STFs 1 ''AuthMode'' ''WPAPSKWPA2PSK'' w) (\<lambda>w.
        ended 32 (guest_password b) (\<lambda>k. Inr (bufset ''WPAPSK2'' k w))))
      else Inr w)"

text \<open>
  A switch that is the character blank is no switch; without the switch of the network the number that
  decides about a restart is never set.
\<close>

definition websHertAppPro_SetGuestManage :: "web_env \<Rightarrow> string \<Rightarrow> web_world \<Rightarrow> fault + web_world" where
  "websHertAppPro_SetGuestManage env src w = with_req env 36 src w (\<lambda>ret r x w.
     if ret \<noteq> 0 then Inr (answer r ''MSG_SET_VISITOR_MANAGEMENT_RSP'' RspNone HERT_ERR_INVALID_JSON w)
     else (case x of
         Guest b \<Rightarrow>
           if wifiSwitch b = 32 then Inl ReadOverrun
           else rbind (guest_switch env b w) (\<lambda>(old, new, w).
             rbind (guest_password_switch b w) (\<lambda>w.
               let w = answer_now r ''MSG_SET_VISITOR_MANAGEMENT_RSP'' 0 (commit w);
                   w = (if old < new then act (Cmd ''reboot'') w else w)
               in Inr (act (Call ''initInternet'') w)))
       | _ \<Rightarrow> Inl ReadOverrun))"

section \<open>The question\<close>

text \<open>
  getNthValue of utils.c: the n-th of the parts between the semicolons that are not empty.  strtok ends
  the first part in the setting itself.
\<close>

definition semi_parts :: "string \<Rightarrow> string list" where
  "semi_parts s = filter (\<lambda>f. f \<noteq> []) (split_semi s)"

definition getNthValue :: "nat \<Rightarrow> string \<Rightarrow> string" where
  "getNthValue i s = (if i < length (semi_parts s) then semi_parts s ! i else [])"

definition strtok_cut :: "string \<Rightarrow> string" where
  "strtok_cut s = takeWhile (\<lambda>c. c = CHR '';'') s @ takeWhile (\<lambda>c. c \<noteq> CHR '';'') (dropWhile (\<lambda>c. c = CHR '';'') s)"

definition websHertAppPro_GetGuestManage :: "web_env \<Rightarrow> string \<Rightarrow> web_world \<Rightarrow> fault + web_world" where
  "websHertAppPro_GetGuestManage env src w = with_req env 64 src w (\<lambda>ret r x w.
     let rsp = (\<lambda>b. answer r ''MSG_GET_VISITOR_MANAGEMENT_RSP'' (RspGuest b));
         none = \<lparr>wg_wifiSwitch = 0, wg_passwordSwitch = 0, wg_password = [], wg_openTime = 0, wg_remainTime = 0\<rparr>
     in if ret \<noteq> 0 then Inr (rsp none HERT_ERR_INVALID_JSON w)
        else (let auth = w_cache w ''AuthMode'';
                  locked = (getNthValue 1 auth = ''WPAPSKWPA2PSK'');
                  b = none\<lparr>wg_wifiSwitch := (if has_text ''_GUEST'' (w_cache w ''SSID2'') then 1 else 0)\<rparr>;
                  w = reload (w\<lparr>w_cache := (w_cache w)(''AuthMode'' := strtok_cut auth)\<rparr>);
                  psk = w_cache w ''WPAPSK2''
              in if locked \<and> 32 \<le> length psk then Inl WriteOverflow
                 else Inr (rsp (b\<lparr>wg_passwordSwitch := (if locked then 1 else 0), wg_password := (if locked then psk else []),
                   wg_openTime := word_of_int (atoi (w_cache w ''GuestOpenTime'')), wg_remainTime := w_remainTime w\<rparr>) 0 w)))"

section \<open>The clock\<close>

text \<open>
  herUtil_isCloseGuestSsid, every three seconds: minutes that are left, or the end of the guests' time.
  Sums are those of a 32 bit int; atol and the uptime have 32 bits too.
\<close>

definition herUtil_isCloseGuestSsid :: "int \<Rightarrow> web_world \<Rightarrow> fault + web_world" where
  "herUtil_isCloseGuestSsid cur w =
     (let open_time = atoi (w_cache w ''GuestOpenTime''); start = atoi (w_cache w ''GuestStartTime'') in
      if open_time = - 1 \<or> open_time = 0 then Inr (w\<lparr>w_remainTime := word_of_int open_time\<rparr>)
      else if cur < start then Inr (bufset ''GuestStartTime'' (show_int cur) w)
      else (let used = int32 (cur - start);
                w = w\<lparr>w_remainTime := word_of_int (open_time * 60 - c_div used 60)\<rparr>
        in if open_time \<le> c_div used 3600 then
             (let old = atoi (w_cache w ''BssidNum'');
                  w = (if 2 \<le> old then bufsets [(''SSID2'', []), (''BssidNum'', ''1'')] w else w)
              in rbind (revise_mbss_value old (atoi (w_cache w ''BssidNum'')) w) (\<lambda>w.
                   Inr (act (Call ''initInternet'') (commit (bufsets [(''GuestOpenTime'', ''0''), (''GuestStartTime'', ''0'')] w)))))
           else Inr w))"

text \<open>A restart of the server starts the clock of a guests' network again.\<close>

definition initHerouter :: "int \<Rightarrow> web_world \<Rightarrow> web_world" where
  "initHerouter cur w =
     (let w = w\<lparr>w_net := \<lparr>wanPortStatus = [], lan1PortStatus = [], lan2PortStatus = [], WanIpStatus = [], pingStatus = [], PPPOEStatus = []\<rparr>\<rparr> in
      if has_text ''_GUEST'' (w_cache w ''SSID2'') then bufset ''GuestStartTime'' (show_int cur) w else w)"

end
