(* ===== verification/WebPictures.thy ===== *)
theory WebPictures
  imports WebApi
begin

text \<open>
  The pictures on the disk (goahead/src/herouter.c): the address for an upload, the list, the upload
  and the download, whose requests carry the name of the picture in the URL, in Base64.
\<close>

definition HERT_ERR_DISK_NOENOUGH :: dword where "HERT_ERR_DISK_NOENOUGH = 0xa003"
definition HERT_ERR_DISK_NOEXIST :: dword where "HERT_ERR_DISK_NOEXIST = 0xa005"
definition HERT_ERR_PICTURE_NOEXIST :: dword where "HERT_ERR_PICTURE_NOEXIST = 0xa006"

definition UPLOAD_IMG_TAG :: string where "UPLOAD_IMG_TAG = ''/herouter/AppRequest/UploadIMG/''"
definition DOWNLOAD_IMG_TAG :: string where "DOWNLOAD_IMG_TAG = ''/herouter/AppRequest/DownloadIMG/''"

section \<open>The address for an upload\<close>

definition websHertAppPro_GeUploadPicture :: "web_env \<Rightarrow> string \<Rightarrow> web_world \<Rightarrow> fault + web_world" where
  "websHertAppPro_GeUploadPicture env src w = with_req env 136 src w (\<lambda>ret r x w.
     let rsp = answer r ''MSG_GET_UPLOAD_IMG_RSP'' in
     if ret \<noteq> 0 then Inr (rsp (RspUploadImg []) HERT_ERR_INVALID_JSON w)
     else if \<not> hertUtil_isStorageExist (we_scsi env) then Inr (rsp (RspUploadImg []) HERT_ERR_DISK_NOEXIST w)
     else rbind (hertUtil_GetUSBPartitionMaxFreeSize (we_disks env) 256) (\<lambda>(free, path).
       (case (we_lan_ip env, x) of
          (None, _) \<Rightarrow> Inr (rsp (RspUploadImg []) HERT_ERR_INTERNEL_FALSE w)
        | (Some lan, UploadPic b) \<Rightarrow>
            if unat (up_fileSize b) div 1024 < free then
              ended 130 (up_fileName b) (\<lambda>n.
                Inr (rsp (RspUploadImg (snprintf_into 128 (''http://'' @ lan @ '':80/herouter/AppRequest/UploadIMG/'' @ n))) 0 w))
            else Inr (rsp (RspUploadImg []) HERT_ERR_DISK_NOENOUGH w)
        | _ \<Rightarrow> Inl ReadOverrun)))"

section \<open>The list\<close>

text \<open>
  The part of websHertAppPro_BuildMsgRsp for the list: the answer is made in pieces of up to three
  pictures, of which the first has the head.  An error ends the answer.
\<close>

definition pic_object :: "string \<times> string \<Rightarrow> string list" where
  "pic_object p = [web_str ''picUrl'' (fst p), web_str ''smallPicUrl'' (snd p)]"

definition pics_steps :: "req_body \<Rightarrow> dword \<Rightarrow> bool \<Rightarrow> (string \<times> string) list \<Rightarrow> jstep list" where
  "pics_steps r nErrorCode first ps =
     (if first then head_steps r nErrorCode ''MSG_GET_IMG_LIST_RSP'' @ list_head ''imgList'' else []) @
     objects_steps first (map pic_object ps) @
     (if nErrorCode \<noteq> 0 then [AddStr '']'', AddStr ''}''] else [])"

definition build_pics :: "req_body \<Rightarrow> dword \<Rightarrow> bool \<Rightarrow> (string \<times> string) list \<Rightarrow> string option" where
  "build_pics r nErrorCode first ps = (case json_steps JSON_BUFFER_SIZE (pics_steps r nErrorCode first ps) [] of
     Inl e \<Rightarrow> None | Inr J \<Rightarrow> Some J)"

definition picUrl_of :: "string \<Rightarrow> string \<Rightarrow> string \<times> string" where
  "picUrl_of lan l = (snprintf_into 130 (''http://'' @ lan @ '':80/herouter/AppRequest/DownloadIMG/'' @ butlast l), ''empty'')"

text \<open>The pieces: three pictures each, and what is left.\<close>

fun pieces :: "bool \<Rightarrow> 'a list \<Rightarrow> (bool \<times> 'a list) list" where
  "pieces first (x # y # z # xs) = (first, [x, y, z]) # pieces False xs"
| "pieces first [] = []"
| "pieces first xs = [(first, xs)]"

definition pic_error :: "req_body \<Rightarrow> dword \<Rightarrow> web_world \<Rightarrow> web_world" where
  "pic_error r e w = w\<lparr>w_out := (case build_pics r e True [] of
     Some J \<Rightarrow> J | None \<Rightarrow> hertUtil_BuildErrMsgRsp HERT_ERR_INTERNEL_FALSE ''MSG_GET_IMG_LIST_RSP'' r)\<rparr>"

text \<open>
  The names are read with fgets of 130 chars into 64.  The end of the answer, with the number of the
  pictures, is sent last.
\<close>

definition websHertAppPro_GeUpDownloadList :: "web_env \<Rightarrow> string \<Rightarrow> web_world \<Rightarrow> fault + web_world" where
  "websHertAppPro_GeUpDownloadList env src w = with_req env 64 src w (\<lambda>ret r x w.
     if ret \<noteq> 0 then Inr (pic_error r HERT_ERR_INVALID_JSON w)
     else if \<not> hertUtil_isStorageExist (we_scsi env) then Inr (pic_error r HERT_ERR_DISK_NOEXIST w)
     else rbind (hretUtil_GetUSBPartitionName (we_disks env) 128) (\<lambda>path.
       let w = act (Cmd (snprintf_into 64 (''ls '' @ snprintf_into 32 (path @ ''/picture/'') @ '' |cat >> /var/count_UsbImg''))) w in
       (case we_pictures env of
          None \<Rightarrow> Inr (pic_error r HERT_ERR_INTERNEL_FALSE w)
        | Some s \<Rightarrow>
            let w = act (Call ''unlink /var/count_UsbImg'') w; ls = fgets_lines 130 s in
            (case we_lan_ip env of
               None \<Rightarrow> Inr (pic_error r HERT_ERR_INTERNEL_FALSE w)
             | Some lan \<Rightarrow>
                 if \<not> we_mem env then Inr (pic_error r HERT_ERR_INTERNEL_FALSE w)
                 else if list_ex (\<lambda>l. 64 \<le> length l) ls then Inl WriteOverflow
                 else if ls = [] then Inr (pic_error r HERT_ERR_PICTURE_NOEXIST w)
                 else (let out = map (\<lambda>(first, ps). case build_pics r 0 first ps of None \<Rightarrow> [] | Some J \<Rightarrow> J)
                             (pieces True (map (picUrl_of lan) ls));
                           end = '']'' @ snprintf_into 64 ('',\"imgCount\":'' @ show_int (int (length ls))) @ ''}''
                       in Inr ((w\<lparr>w_acts := w_acts w @ map Send (out @ [end])\<rparr>)\<lparr>w_out := end, w_answered := True\<rparr>))))))"

section \<open>Words in double quotes\<close>

text \<open>
  What the shell makes of a text between double quotes: a backslash in front of one of four
  characters gives that character; None: the text ends the quotes, or a part of it is a variable or a
  command.
\<close>

definition dq_special :: "char \<Rightarrow> bool" where
  "dq_special c = (c = CHR ''$'' \<or> c = CHR 0x60 \<or> c = CHR 0x22 \<or> c = CHR 0x5C)"

fun dq_word :: "string \<Rightarrow> string option" where
  "dq_word [] = Some []"
| "dq_word [c] = (if dq_special c then None else Some [c])"
| "dq_word (c # d # s) =
     (if c = CHR 0x5C then
        (if dq_special d then map_option ((#) d) (dq_word s)
         else if d = CHR 0x0A then dq_word s
         else map_option ((#) c) (dq_word (d # s)))
      else if dq_special c then None
      else map_option ((#) c) (dq_word (d # s)))"

section \<open>Upload\<close>

text \<open>A backslash in front of every backquote; the arrays have 130 chars.\<close>

definition escape_backquote :: "string \<Rightarrow> string" where
  "escape_backquote s = concat (map (\<lambda>c. if c = CHR 0x60 then [CHR 0x5C, c] else [c]) s)"

definition upload_path :: "string \<Rightarrow> string" where
  "upload_path path = path @ ''/picture/uploading_file''"

definition put_picture :: "bool \<Rightarrow> string \<Rightarrow> string \<Rightarrow> web_world \<Rightarrow> fault + web_world" where
  "put_picture debug path name w =
     (let n = (if debug then name else escape_backquote name);
          file = path @ ''/picture/'' @ CHR 0x22 # n @ [CHR 0x22];
          cmd = ''cp '' @ upload_path path @ CHR '' '' # file
      in if 130 \<le> length n \<or> 130 \<le> length file \<or> 128 \<le> length cmd \<or>
            128 \<le> length (''rm '' @ upload_path path @ '' -rf'') then Inl WriteOverflow
         else if dq_word n = None then Inl ShellExpansion
         else Inr (act (Cmd (''rm '' @ upload_path path @ '' -rf'')) (act (Cmd cmd) w)))"

definition after_tag :: "string \<Rightarrow> string \<Rightarrow> string" where
  "after_tag tag url = (case strstr url tag of Some p \<Rightarrow> drop (length tag) p | None \<Rightarrow> [])"

definition websHertAppPro_UploadImg :: "web_env \<Rightarrow> string \<Rightarrow> web_world \<Rightarrow> fault + web_world" where
  "websHertAppPro_UploadImg env url w =
     rbind (hertUtil_GetUSBPartitionMaxFreeSize (we_disks env) 32) (\<lambda>(free, path).
       if 32 \<le> length (path @ ''/picture'') \<or> 130 \<le> length (upload_path path) then Inl WriteOverflow
       else (let w = w\<lparr>w_answered := True\<rparr>;
                 w = (if we_picture_dir env then w else act (Cmd (''mkdir '' @ path @ ''/picture'')) w)
         in if \<not> we_upload env then Inr (act (Send ''{\"version\":1,\"msgSeq\":\"2\",\"errorCode\":1}'') w)
            else rbind (put_picture (hertUtil_IsInFile (we_hertchstest env) ''DEBUG'') path
              (websDecode64 130 (after_tag UPLOAD_IMG_TAG url)) w) (\<lambda>w.
                Inr (act (Send ''{\"version\":1,\"msgSeq\":\"9\",\"errorCode\":0}'') w))))"

section \<open>Download\<close>

definition MAX_IMG_SIZE :: nat where "MAX_IMG_SIZE = 1024 * 1024 * 6"
definition WEBS_BUFSIZE :: nat where "WEBS_BUFSIZE = 10240"

text \<open>What fread gives the loop.\<close>

function chunks :: "nat \<Rightarrow> 'a list \<Rightarrow> 'a list list" where
  "chunks n xs = (if xs = [] \<or> n = 0 then [] else take n xs # chunks n (drop n xs))"
  by pat_completeness auto
termination
  by (relation "measure (\<lambda>(n, xs). length xs)") auto

declare chunks.simps [simp del]

text \<open>A picture that is missing or too big is no answer: the caller sends its empty text.\<close>

definition websHertAppPro_DownloadImg :: "web_env \<Rightarrow> string \<Rightarrow> web_world \<Rightarrow> fault + web_world" where
  "websHertAppPro_DownloadImg env url w =
     rbind (hretUtil_GetUSBPartitionName (we_disks env) 32) (\<lambda>path.
       let file = path @ ''/picture/'' @ websDecode64 130 (after_tag DOWNLOAD_IMG_TAG url) in
       if 130 \<le> length file then Inl WriteOverflow
       else Inr (case we_image env file of
           None \<Rightarrow> w
         | Some img \<Rightarrow>
             if MAX_IMG_SIZE < length img then w
             else w\<lparr>w_acts := w_acts w @ map Send (chunks WEBS_BUFSIZE img), w_answered := True\<rparr>))"

end
