(* ===== verification/WebServer.thy ===== *)
theory WebServer
  imports WebDevice WebPictures WebGuest
begin

text \<open>
  websHertAppHandler and websHertAppProcess (goahead/src/herouter.c): which handler a request of the
  local application is given to, and the sending of the answer.
\<close>

type_synonym web_handler = "web_env \<Rightarrow> string \<Rightarrow> web_world \<Rightarrow> fault + web_world"

definition web_handlers :: "(string \<times> web_handler) list" where
  "web_handlers =
     [(''MSG_GET_ROUTER_STATUS_REQ'', websHertAppPro_GetRouteStatus),
      (''MSG_GET_ROUTER_SN_REQ'', websHertAppPro_GetRouteSN),
      (''MSG_GET_ROUTER_PASSWORD_REQ'', websHertAppPro_GetRoutePassword),
      (''MSG_GET_ROUTER_SPACE_REQ'', websHertAppPro_GetRouteSpace),
      (''MSG_GET_ROUTER_ABILITY_REQ'', websHertAppPro_GetRouteAbility),
      (''MSG_GET_UPLOAD_IMG_REQ'', websHertAppPro_GeUploadPicture),
      (''MSG_GET_IMG_LIST_REQ'', websHertAppPro_GeUpDownloadList),
      (''MSG_ROUTER_UPDATE_REQ'', websHertAppPro_RouteUpgrade),
      (''MSG_SET_NETWORK_REQ'', websHertAppPro_SetNetWorkConfig),
      (''MSG_GET_ROUTER_FAULT_DETEC_REQ'', websHertAppPro_GeFaultDetect),
      (''MSG_SET_ROUTER_WPS_SWITCH_REQ'', websHertAppPro_SetWPSSwitch),
      (''MSG_GET_ROUTER_TOADD_DEV_REQ'', websHertAppPro_GeToAddDevList),
      (''MSG_SET_ROUTER_ADD_DEV_REQ'', websHertAppPro_SetAllowAddDev),
      (''MSG_GET_VISITOR_MANAGEMENT_REQ'', websHertAppPro_GetGuestManage),
      (''MSG_SET_VISITOR_MANAGEMENT_REQ'', websHertAppPro_SetGuestManage),
      (''MSG_GET_TERMINAL_STATUS_REQ'', websHertAppPro_GetTerminalAccessStatus),
      (''MSG_SET_TERMINAL_ACCESS_REQ'', websHertAppPro_SetTerminalAccessStatus),
      (''MSG_GET_WIFI_STRENGTH_REQ'', websHertAppPro_WifiStrengthREQ),
      (''MSG_SET_WIFI_STRENGTH_REQ'', websHertAppPro_SetWifiStrengthREQ),
      (''MSG_SET_WIFI_CLOSED_REQ'', websHertAppPro_SetWifiClosedREQ),
      (''MSG_GET_CURRENT_ROUTER_CHANNEL_REQ'', websHertAppPro_GetWifiChannelREQ),
      (''MSG_SET_ROUTER_CHANNEL_REQ'', websHertAppPro_SetWifiChannelREQ)]"

text \<open>The first type that is part of the one in the message.\<close>

definition web_dispatch :: "(string \<times> 'h) list \<Rightarrow> string \<Rightarrow> (string \<times> 'h) option" where
  "web_dispatch hs t = List.find (\<lambda>(n, h). has_text n t) hs"

definition websHertAppProcess :: web_handler where
  "websHertAppProcess env src w =
     rbind (websHertAppPro_Parse_Msg_Type src) (\<lambda>t. case t of
       None \<Rightarrow> Inr w
     | Some t \<Rightarrow> (case web_dispatch web_handlers t of
         Some (n, h) \<Rightarrow> h env src (w\<lparr>w_glob := (w_glob w)\<lparr>currMsgType := t\<rparr>\<rparr>)
       | None \<Rightarrow> websHertAppPro_UnknowMSGTypeREQ env src
           (w\<lparr>w_glob := (w_glob w)\<lparr>currMsgType := ''UNKNOW_MESSAGE_TYPE''\<rparr>\<rparr>)))"

text \<open>
  A request of the application.  Those for pictures go elsewhere by their URL; a handler that has not
  sent its answer leaves that to the end.
\<close>

definition websHertAppHandler :: "web_env \<Rightarrow> string \<Rightarrow> string \<Rightarrow> web_world \<Rightarrow> fault + web_world" where
  "websHertAppHandler env url query w =
     (let w = w\<lparr>w_out := [], w_answered := False\<rparr> in
      rbind (if has_text UPLOAD_IMG_TAG url then websHertAppPro_UploadImg env url w
        else if has_text DOWNLOAD_IMG_TAG url then websHertAppPro_DownloadImg env url w
        else websHertAppProcess env query w) (\<lambda>w.
       Inr (if w_answered w then w else act (Send (w_out w)) w)))"

text \<open>The URL of the requests that are not about a picture.\<close>

definition api_url :: "string \<Rightarrow> bool" where
  "api_url url = (\<not> has_text UPLOAD_IMG_TAG url \<and> \<not> has_text DOWNLOAD_IMG_TAG url)"

end
