(* ===== verification/WebItems.thy ===== *)
theory WebItems
  imports WebApi
begin

text \<open>
  The reader of the local application on the text of a well formed request: a flat object, or one
  that ends with a list of objects; and the loop over its items.
\<close>

section \<open>One item\<close>

fun field_value :: "jfield \<Rightarrow> string" where
  "field_value (FStr n v) = STR_QUOTATION # v @ [STR_QUOTATION]"
| "field_value (FNum n i) = show_int i"

fun field_name :: "jfield \<Rightarrow> string" where
  "field_name (FStr n v) = n"
| "field_name (FNum n i) = n"

lemma field_item_parts: "field_item f = STR_QUOTATION # field_name f @ STR_QUOTATION # STR_SEPRATION # field_value f"
  by (cases f) (simp_all add: str_item_def num_item_def)

lemma field_pair_name: "fst (field_pair f) = field_name f"
  by (cases f) simp_all

lemma show_int_nonempty: "show_int i \<noteq> []"
proof -
  have "show_nat k \<noteq> []" for k by (subst show_nat.simps) simp
  then show ?thesis by (simp add: show_int_def)
qed

lemma field_value_chars:
  assumes "readable f"
  shows "STR_END1 \<notin> set (field_value f)" "STR_END2 \<notin> set (field_value f)" "field_value f \<noteq> []"
    "last (field_value f) \<noteq> CHR ''}''" "last (field_value f) \<noteq> CHR '']''" "take 2 (field_value f @ s) \<noteq> ''[{''"
proof -
  have i: "STR_END1 \<notin> set (show_int i)" "STR_END2 \<notin> set (show_int i)" "CHR '']'' \<notin> set (show_int i)"
    "CHR ''['' \<notin> set (show_int i)" for i
    by (auto dest!: show_int_chars simp: is_digit_def)
  show 1: "STR_END1 \<notin> set (field_value f)" "STR_END2 \<notin> set (field_value f)" "field_value f \<noteq> []"
    using assms i show_int_nonempty by (cases f; simp add: plain_text_def)+
  have "CHR '']'' \<notin> set (field_value f) \<or> last (field_value f) = STR_QUOTATION"
    using i by (cases f) simp_all
  then show "last (field_value f) \<noteq> CHR ''}''" "last (field_value f) \<noteq> CHR '']''"
    using 1(2) last_in_set [OF 1(3)] by (metis, fastforce)
  have "hd (show_int k) \<noteq> CHR ''[''" for k using i(4) [of k] hd_in_set [OF show_int_nonempty [of k]] by metis
  then have "hd (field_value f) \<noteq> CHR ''[''" by (cases f) simp_all
  then show "take 2 (field_value f @ s) \<noteq> ''[{''" using 1(3) by (cases "field_value f") auto
qed

text \<open>What may follow a value: a comma, or the end of an object.\<close>

definition ends_value :: "string \<Rightarrow> bool" where
  "ends_value s = (\<exists>r. s = STR_END1 # r \<or> s = STR_END2 # r \<and>
     (STR_END1 \<notin> set r \<or> take 1 r = '','' \<or> take 2 r = ''],''))"

lemma web_value_end_field:
  assumes "readable f" and "ends_value s"
  shows "web_value_end (field_value f @ s) = Some (s, tl s)"
proof -
  note c = field_value_chars [OF assms(1)]
  have at: "(field_value f @ t) ! (length (field_value f) - 1) = last (field_value f)" for t
    using c(3) by (simp add: last_conv_nth nth_append)
  obtain r where r: "s = STR_END1 # r \<or> s = STR_END2 # r \<and> (STR_END1 \<notin> set r \<or> take 1 r = '','' \<or> take 2 r = ''],'')"
    using assms(2) by (auto simp: ends_value_def)
  show ?thesis
  proof (cases "s = STR_END1 # r")
    case True
    then have "strchr STR_END1 (field_value f @ s) = Some s" using c(1) by simp
    then show ?thesis using c(4,5) at [of s] True by (simp add: web_value_end_def Let_def)
  next
    case False
    then have s: "s = STR_END2 # r" and d: "STR_END1 \<notin> set r \<or> take 1 r = '','' \<or> take 2 r = ''],''" using r by auto
    have b: "brace_end (field_value f @ s) = Some (s, tl s)" using c(2) s by (simp add: brace_end_def)
    from d consider "STR_END1 \<notin> set r" | t where "r = STR_END1 # t" | t where "r = CHR '']'' # STR_END1 # t"
      by (cases r; cases "tl r") auto
    then show ?thesis
    proof cases
      case 1
      then have "STR_END1 \<notin> set (field_value f @ s)" using c(1) s by simp
      then show ?thesis using b by (simp add: web_value_end_def strchr_None_iff [THEN iffD2])
    next
      case 2
      have "strchr STR_END1 ((field_value f @ [STR_END2]) @ STR_END1 # t) = Some (STR_END1 # t)"
        using c(1) by (intro strchr_append) simp
      then have "strchr STR_END1 (field_value f @ s) = Some (STR_END1 # t)" using s 2 by simp
      moreover have "(field_value f @ s) ! (length (field_value f @ s) - length (STR_END1 # t) - 1) = CHR ''}''"
        unfolding s 2 by (simp add: nth_append)
      ultimately show ?thesis using b s 2 by (simp add: web_value_end_def Let_def)
    next
      case 3
      have "strchr STR_END1 ((field_value f @ [STR_END2, CHR '']'']) @ STR_END1 # t) = Some (STR_END1 # t)"
        using c(1) by (intro strchr_append) simp
      then have "strchr STR_END1 (field_value f @ s) = Some (STR_END1 # t)" using s 3 by simp
      moreover have "(field_value f @ s) ! (length (field_value f @ s) - length (STR_END1 # t) - 1) = CHR '']''"
        unfolding s 3 by (simp add: nth_append)
      ultimately show ?thesis using b s 3 by (simp add: web_value_end_def Let_def)
    qed
  qed
qed

lemma value_span_field:
  assumes "readable f" and "ends_value s"
  shows "\<exists>vl vr. value_span (field_value f @ s) s (tl s) = Some (vl, vr) \<and> span_text 128 vl vr = snd (field_pair f)"
proof (cases f)
  case (FStr n v)
  then have v: "STR_QUOTATION \<notin> set v" "length v \<le> 127" using assms(1) by (auto simp: plain_text_def)
  have "length (tl s) \<le> length s" by simp
  then have "value_span (field_value f @ s) s (tl s) = Some (v @ STR_QUOTATION # s, STR_QUOTATION # s)"
    using v FStr by (auto simp: value_span_def)
  then show ?thesis using v(2) FStr by (simp add: span_text_def)
next
  case (FNum n i)
  have q: "STR_QUOTATION \<notin> set (show_int i)" using show_int_plain by (simp add: plain_text_def)
  have l: "length (show_int i) \<le> 127" using assms(1) FNum by simp
  obtain c r where s: "s = c # r" "c \<noteq> STR_QUOTATION" using assms(2) by (auto simp: ends_value_def)
  have "strchr STR_QUOTATION (show_int i @ s) = strchr STR_QUOTATION r" using q s by (simp add: strchr_append_skip)
  then have "value_span (field_value f @ s) s (tl s) = Some (show_int i @ s, s)"
    using FNum s by (auto simp: value_span_def not_less split: option.splits dest: strchr_length)
  then show ?thesis using l FNum by (simp add: span_text_def)
qed

lemma web_value_field:
  assumes "readable f" and "ends_value s"
  shows "web_value n (field_value f @ s) = Some (n, snd (field_pair f), tl s)"
  using value_span_field [OF assms] by (auto simp: web_value_def web_value_end_field [OF assms])

lemma web_name_field:
  assumes "STR_QUOTATION \<notin> set pre" and "STR_QUOTATION \<notin> set n" and "length n \<le> 127"
  shows "web_name (pre @ STR_QUOTATION # n @ STR_QUOTATION # STR_SEPRATION # l) = Some (n, l)"
  using assms by (simp add: web_name_def)

lemma readable_name: "readable f \<Longrightarrow> STR_QUOTATION \<notin> set (field_name f) \<and> length (field_name f) \<le> 127"
  by (cases f) auto

lemma web_item_field:
  assumes "readable f" and "STR_QUOTATION \<notin> set pre" and "ends_value s"
  shows "web_item (pre @ field_item f @ s) = Some (field_name f, snd (field_pair f), tl s)"
  using web_name_field [OF assms(2), of "field_name f" "field_value f @ s"] readable_name [OF assms(1)]
    field_value_chars(6) [OF assms(1)] web_value_field [OF assms(1,3)]
  by (simp add: web_item_def field_item_parts)

text \<open>The first item of a list of objects.\<close>

lemma web_item_list:
  assumes "readable f" and "STR_QUOTATION \<notin> set pre" and "ends_value s"
    and "STR_QUOTATION \<notin> set a" and "length a \<le> 127"
  shows "web_item (pre @ STR_QUOTATION # a @ STR_QUOTATION # STR_SEPRATION # CHR ''['' # CHR ''{'' # field_item f @ s) =
    Some (field_name f, snd (field_pair f), tl s)"
  using web_name_field [OF assms(2,4,5)] readable_name [OF assms(1)] web_value_field [OF assms(1,3)]
    web_name_field [of "''[{''" "field_name f" "field_value f @ s"]
  by (simp add: web_item_def field_item_parts)

section \<open>All items\<close>

function web_items :: "string \<Rightarrow> (string \<times> string) list" where
  "web_items p = (case web_item p of None \<Rightarrow> [] | Some (n, v, e) \<Rightarrow> (n, v) # web_items e)"
  by pat_completeness auto
termination
  by (relation "measure length") (auto dest: web_item_shorter)

declare web_items.simps [simp del]

lemma web_items_Some: "web_item p = Some (n, v, e) \<Longrightarrow> web_items p = (n, v) # web_items e"
  by (simp add: web_items.simps [of p])

lemma web_items_None: "STR_QUOTATION \<notin> set p \<Longrightarrow> web_items p = []"
  by (simp add: web_items.simps [of p] web_item_def web_name_def strchr_None_iff [THEN iffD2])

text \<open>The fields of an object, behind its opening brace, up to a comma or the end of the object.\<close>

lemma web_items_fields:
  assumes "fs \<noteq> []" and "\<forall>f \<in> set fs. readable f" and "STR_QUOTATION \<notin> set pre" and "ends_value s"
  shows "web_items (pre @ fields_text fs @ s) = map field_pair fs @ web_items (tl s)"
  using assms
proof (induction fs arbitrary: pre rule: fields_text.induct)
  case 1
  then show ?case by simp
next
  case (2 f)
  then have "web_item (pre @ field_item f @ s) = Some (field_name f, snd (field_pair f), tl s)"
    using web_item_field [of f pre s] by simp
  then show ?case by (simp add: web_items_Some field_pair_name [symmetric])
next
  case (3 f g fs)
  let ?t = "fields_text (g # fs) @ s"
  have "ends_value (STR_END1 # ?t)" by (simp add: ends_value_def)
  then have "web_item (pre @ field_item f @ STR_END1 # ?t) = Some (field_name f, snd (field_pair f), ?t)"
    using 3 web_item_field [of f pre "STR_END1 # ?t"] by simp
  moreover have "web_items ([] @ ?t) = map field_pair (g # fs) @ web_items (tl s)"
    by (rule 3(1)) (use 3(3,5) in simp_all)
  ultimately show ?case by (simp add: web_items_Some field_pair_name [symmetric])
qed

text \<open>The objects of a list, and the end of the list and of the text.\<close>

fun objects_text :: "jfield list list \<Rightarrow> string" where
  "objects_text [] = '']}''"
| "objects_text (fs # fss) = '',{'' @ fields_text fs @ STR_END2 # objects_text fss"

lemma web_items_objects:
  assumes "\<forall>fs \<in> set fss. fs \<noteq> [] \<and> (\<forall>f \<in> set fs. readable f)"
  shows "web_items (objects_text fss) = map field_pair (concat fss)" and "ends_value (STR_END2 # objects_text fss)"
proof -
  have e: "ends_value (STR_END2 # objects_text xs)" for xs by (cases xs) (simp_all add: ends_value_def)
  then show "ends_value (STR_END2 # objects_text fss)" .
  show "web_items (objects_text fss) = map field_pair (concat fss)"
    using assms
  proof (induction fss)
    case Nil
    then show ?case by (simp add: web_items_None)
  next
    case (Cons fs fss)
    then have "web_items ('',{'' @ fields_text fs @ STR_END2 # objects_text fss) = map field_pair fs @ web_items (objects_text fss)"
      using web_items_fields [of fs "'',{''" "STR_END2 # objects_text fss"] e by simp
    then show ?case using Cons by simp
  qed
qed

text \<open>A list behind a name: the name is lost.\<close>

definition list_text :: "string \<Rightarrow> jfield list list \<Rightarrow> string" where
  "list_text a fss = STR_QUOTATION # a @ STR_QUOTATION # STR_SEPRATION # CHR ''['' # tl (objects_text fss)"

lemma web_items_list:
  assumes "\<forall>fs \<in> set fss. fs \<noteq> [] \<and> (\<forall>f \<in> set fs. readable f)" and "fss \<noteq> []"
    and "STR_QUOTATION \<notin> set a" and "length a \<le> 127"
  shows "web_items (list_text a fss) = map field_pair (concat fss)"
proof -
  obtain f fs gss where f: "fss = (f # fs) # gss" using assms(1,2) by (metis list.exhaust list.set_intros(1))
  let ?o = "objects_text gss" and ?pre = "STR_QUOTATION # a @ STR_QUOTATION # STR_SEPRATION # ''[{''"
  have e: "ends_value (STR_END2 # ?o)" "web_items ?o = map field_pair (concat gss)"
    using assms(1) web_items_objects [of gss] unfolding f by simp_all
  have r: "readable f" "\<forall>f \<in> set fs. readable f" using assms(1) unfolding f by simp_all
  show ?thesis
  proof (cases fs)
    case Nil
    have "web_item ([] @ ?pre @ field_item f @ STR_END2 # ?o) = Some (field_name f, snd (field_pair f), ?o)"
      using web_item_list [OF r(1) _ e(1) assms(3,4), of "[]"] by simp
    then show ?thesis using e(2) unfolding f Nil list_text_def by (simp add: web_items_Some field_pair_name [symmetric])
  next
    case (Cons g gs)
    let ?t = "fields_text fs @ STR_END2 # ?o"
    have "ends_value (STR_END1 # ?t)" by (simp add: ends_value_def)
    then have "web_item ([] @ ?pre @ field_item f @ STR_END1 # ?t) = Some (field_name f, snd (field_pair f), ?t)"
      using web_item_list [OF r(1) _ _ assms(3,4), of "[]" "STR_END1 # ?t"] by simp
    moreover have "web_items ([] @ ?t) = map field_pair fs @ web_items ?o"
      using web_items_fields [OF _ r(2), of "[]" "STR_END2 # ?o"] e(1) Cons by simp
    ultimately show ?thesis using e(2) unfolding f list_text_def Cons by (simp add: web_items_Some field_pair_name [symmetric])
  qed
qed

section \<open>The loop over the items\<close>

fun read_items :: "bool \<Rightarrow> nat \<Rightarrow> (string \<times> string) list \<Rightarrow> web_globals \<Rightarrow> req_body \<Rightarrow> req_var \<Rightarrow>
    fault + int \<times> web_globals \<times> req_body \<times> req_var" where
  "read_items mem room [] g r x = Inr (0, g, r, x)"
| "read_items mem room ((n, v) # is) g r x = rbind (const_item n v r) (\<lambda>r.
     rbind (var_item mem room n v g x) (\<lambda>(go, g, x). if go then read_items mem room is g r x else Inr (-1, g, r, x)))"

text \<open>The devices have been counted, or are not counted for this type.\<close>

definition counted :: "web_globals \<Rightarrow> bool" where
  "counted g = (take 26 (currMsgType g) \<noteq> ''MSG_SET_ROUTER_ADD_DEV_REQ'' \<or> firstTime g \<noteq> 1)"

lemma count_first_counted: "counted g \<Longrightarrow> count_first p g = g"
  by (auto simp: counted_def count_first_def)

lemma counted_count_first: "counted (count_first p g)"
  by (auto simp: counted_def count_first_def)

lemma var_item_glob: "var_item mem room n v g x = Inr (go, g', x') \<Longrightarrow> g' = g"
  by (auto simp: var_item_def devpass_item_def rbind_def in_body_def
      split: req_var.splits option.splits if_splits sum.splits prod.splits)

lemma parse_loop_items:
  assumes "counted g"
  shows "parse_loop mem room None p g r x = read_items mem room (web_items p) g r x"
  using assms
proof (induction p arbitrary: r x rule: web_items.induct)
  case (1 p)
  show ?case
  proof (cases "web_item p")
    case None
    then show ?thesis by (simp add: parse_loop.simps [of mem room None p] webs_ParseJsonString_def web_items.simps [of p])
  next
    case (Some i)
    then obtain n v e where i: "web_item p = Some (n, v, e)" by (cases i) auto
    have w: "webs_ParseJsonString None p = Some (n, v, e)" by (simp add: webs_ParseJsonString_def i)
    show ?thesis
      using 1(1) [OF i refl refl 1(2)]
      by (auto simp: parse_loop.simps [of mem room None p] w web_items_Some [OF i] count_first_counted [OF 1(2)]
          rbind_def split: sum.splits dest!: var_item_glob)
  qed
qed

end
