(* ===== verification/WebRequests.thy ===== *)
theory WebRequests
  imports WebItems WebServer
begin

text \<open>
  Well formed requests of the local application: their text, the type the web server finds in it,
  the handler it is given to, and what the reader stores.
\<close>

section \<open>Text\<close>

definition seq_ok :: "string \<Rightarrow> bool" where
  "seq_ok s = (list_all is_digit s \<and> length s < 20)"

definition request_head :: "string \<Rightarrow> string \<Rightarrow> jfield list" where
  "request_head seq t = [FNum ''version'' 1, FStr ''msgSeq'' seq, FStr ''msgType'' t]"

definition app_request :: "string \<Rightarrow> string \<Rightarrow> jfield list \<Rightarrow> string" where
  "app_request seq t fs = CHR ''{'' # fields_text (request_head seq t @ fs) @ ''}''"

definition app_list_request :: "string \<Rightarrow> string \<Rightarrow> jfield list \<Rightarrow> string \<Rightarrow> jfield list list \<Rightarrow> string" where
  "app_list_request seq t fs a fss = CHR ''{'' # fields_text (request_head seq t @ fs) @ CHR '','' # list_text a fss"

text \<open>A field that the reader gets back, without the character that ends a request early.\<close>

definition field_ok :: "jfield \<Rightarrow> bool" where
  "field_ok f = (readable f \<and> CHR ''='' \<notin> set (field_item f))"

definition type_ok :: "string \<Rightarrow> bool" where
  "type_ok t = (t \<noteq> [] \<and> length t < 64 \<and> list_all (\<lambda>c. c = CHR ''_'' \<or> c \<in> set ''ABCDEFGHIJKLMNOPQRSTUVWXYZ'') t)"

lemma show_one: "show_int 1 = ''1''"
  by code_simp

lemma seq_chars: "seq_ok s \<Longrightarrow> c \<in> set s \<Longrightarrow> is_digit c"
  by (auto simp: seq_ok_def list_all_iff)

lemma type_chars: "type_ok t \<Longrightarrow> c \<in> set t \<Longrightarrow> c = CHR ''_'' \<or> c \<in> set ''ABCDEFGHIJKLMNOPQRSTUVWXYZ''"
  by (auto simp: type_ok_def list_all_iff)

lemma type_plain: "type_ok t \<Longrightarrow> plain_text t \<and> CHR ''='' \<notin> set t"
  unfolding plain_text_def by (auto dest: type_chars)

lemma head_ok:
  assumes "seq_ok seq" and "type_ok t"
  shows "\<forall>f \<in> set (request_head seq t). field_ok f"
proof -
  have "plain_text seq" "CHR ''='' \<notin> set seq" "length seq < 20"
    using assms(1) unfolding plain_text_def by (auto dest!: seq_chars [OF assms(1)] simp: is_digit_def, simp add: seq_ok_def)
  moreover have "plain_text t" "CHR ''='' \<notin> set t" "length t < 64" using type_plain [OF assms(2)] assms(2) by (simp_all add: type_ok_def)
  ultimately show ?thesis
    by (simp add: request_head_def field_ok_def show_one num_item_def str_item_def)
qed

section \<open>The type\<close>

lemma strstr_no_char: "c \<in> set p \<Longrightarrow> c \<notin> set s \<Longrightarrow> strstr s p = None"
  by (metis in_set_conv_decomp not_None_eq strstr_SomeD Un_iff set_append)

lemma msg_type_found:
  assumes "seq_ok seq"
  shows "strstr (''{\"version\":1,\"msgSeq\":\"'' @ seq @ ''\",\"msgType'' @ s) ''msgType'' = Some (''msgType'' @ s)"
proof -
  note sep = strstr_append_sep [of "CHR 0x22" "''msgType''"]
  have q: "strstr (''{\"version\":1,\"msgSeq\":'' @ CHR 0x22 # seq @ CHR 0x22 # ('','' @ CHR 0x22 # ''msgType'' @ s)) ''msgType'' =
      Some (''msgType'' @ s)"
  proof -
    have a: "strstr ''{\"version\":1,\"msgSeq\":'' ''msgType'' = None" by simp
    have b: "strstr seq ''msgType'' = None"
      using seq_chars [OF assms, of "CHR ''m''"] by (intro strstr_no_char [of "CHR ''m''"]) (auto simp: is_digit_def)
    have c: "strstr '','' ''msgType'' = None" "strstr (''msgType'' @ s) ''msgType'' = Some (''msgType'' @ s)" by simp_all
    show ?thesis
      by (subst sep, simp, simp, subst a, simp only: option.case, subst sep, simp, simp, subst b, simp only: option.case,
          subst sep, simp, simp, simp only: c option.case)
  qed
  then show ?thesis by simp
qed

lemma Parse_Msg_Type_request:
  assumes "seq_ok seq" and "type_ok t"
  shows "websHertAppPro_Parse_Msg_Type (CHR ''{'' # fields_text (request_head seq t @ fs) @ s) = Inr (Some t)"
proof -
  obtain u where u: "CHR ''{'' # fields_text (request_head seq t @ fs) @ s =
      ''{\"version\":1,\"msgSeq\":\"'' @ seq @ ''\",\"msgType'' @ ''\":\"'' @ t @ STR_QUOTATION # u"
    by (cases fs) (simp_all add: request_head_def num_item_def str_item_def show_one)
  have t: "STR_QUOTATION \<notin> set t" "length t < 64" using type_plain [OF assms(2)] assms(2) by (simp_all add: plain_text_def type_ok_def)
  have l: "\<not> length (''{\"version\":1,\"msgSeq\":\"'' @ seq @ ''\",\"msgType'' @ ''\":\"'' @ t @ STR_QUOTATION # u) < 7" by simp
  show ?thesis
    unfolding u websHertAppPro_Parse_Msg_Type_def if_not_P [OF l] msg_type_found [OF assms(1)] option.case
    using t by simp
qed

section \<open>The handler\<close>

lemma web_dispatch_name: "map_option fst (web_dispatch hs t) = List.find (\<lambda>n. has_text n t) (map fst hs)"
  by (induction hs) (auto simp: web_dispatch_def)

lemma web_dispatch_in: "web_dispatch hs t = Some p \<Longrightarrow> p \<in> set hs"
  unfolding web_dispatch_def find_Some_iff using nth_mem by blast

text \<open>The types of the messages, in the order of the tests.\<close>

definition web_types :: "string list" where
  "web_types = map fst web_handlers"

lemma web_handlers_types: "map fst web_handlers = web_types"
  by (simp add: web_types_def)

lemma web_types_ok:
  "distinct web_types" "list_all type_ok web_types"
  "list_all (\<lambda>t. List.find (\<lambda>n. has_text n t) web_types = Some t) web_types"
  by (code_simp, code_simp, code_simp)

lemma web_dispatch_exact:
  assumes "(t, h) \<in> set web_handlers"
  shows "web_dispatch web_handlers t = Some (t, h)" and "type_ok t"
proof -
  have t: "t \<in> set web_types" using assms unfolding web_handlers_types [symmetric] by force
  then show "type_ok t" using web_types_ok(2) by (simp add: list_all_iff)
  have "map_option fst (web_dispatch web_handlers t) = Some t"
    using t web_types_ok(3) unfolding web_dispatch_name web_handlers_types by (simp add: list_all_iff)
  then obtain h' where h: "web_dispatch web_handlers t = Some (t, h')" by auto
  have "distinct (map fst web_handlers)" unfolding web_handlers_types by (rule web_types_ok(1))
  then have "h' = h" using web_dispatch_in [OF h] assms by (rule eq_key_imp_eq_value)
  then show "web_dispatch web_handlers t = Some (t, h)" using h by simp
qed

text \<open>A request whose text begins with version, number and type goes to the handler of its type.\<close>

lemma process_request:
  assumes "(t, h) \<in> set web_handlers" and "seq_ok seq"
  shows "websHertAppProcess env (CHR ''{'' # fields_text (request_head seq t @ fs) @ s) w =
    h env (CHR ''{'' # fields_text (request_head seq t @ fs) @ s) (w\<lparr>w_glob := (w_glob w)\<lparr>currMsgType := t\<rparr>\<rparr>)"
  using Parse_Msg_Type_request [OF assms(2) web_dispatch_exact(2) [OF assms(1)], of fs s] web_dispatch_exact(1) [OF assms(1)]
  by (simp add: websHertAppProcess_def)

section \<open>What is read\<close>

lemma fields_text_chars: "c \<in> set (fields_text fs) \<Longrightarrow> c = STR_END1 \<or> (\<exists>f \<in> set fs. c \<in> set (field_item f))"
  by (induction fs rule: fields_text.induct) auto

lemma objects_text_chars:
  "c \<in> set (objects_text fss) \<Longrightarrow> c \<in> set '']},{'' \<or> (\<exists>fs \<in> set fss. \<exists>f \<in> set fs. c \<in> set (field_item f))"
  by (induction fss) (auto dest: fields_text_chars)

lemma app_request_items:
  assumes "seq_ok seq" and "type_ok t" and "\<forall>f \<in> set fs. field_ok f"
  shows "web_items (app_request seq t fs) = map field_pair (request_head seq t @ fs)"
    and "strstr (app_request seq t fs) ''}={'' = None"
proof -
  have f: "\<forall>f \<in> set (request_head seq t @ fs). field_ok f" using head_ok [OF assms(1,2)] assms(3) by auto
  have n: "request_head seq t @ fs \<noteq> []" by (simp add: request_head_def)
  have "web_items (''{'' @ fields_text (request_head seq t @ fs) @ ''}'') = map field_pair (request_head seq t @ fs) @ web_items []"
    using web_items_fields [OF n, of "''{''" "''}''"] f by (simp add: field_ok_def ends_value_def)
  then show "web_items (app_request seq t fs) = map field_pair (request_head seq t @ fs)"
    by (simp add: app_request_def web_items_None)
  have "CHR ''='' \<notin> set (app_request seq t fs)"
    using f by (auto simp: app_request_def field_ok_def dest!: fields_text_chars)
  then show "strstr (app_request seq t fs) ''}={'' = None" by (intro strstr_no_char [of "CHR ''=''"]) simp_all
qed

lemma app_list_request_items:
  assumes "seq_ok seq" and "type_ok t" and "\<forall>f \<in> set fs. field_ok f"
    and "\<forall>gs \<in> set fss. gs \<noteq> [] \<and> (\<forall>g \<in> set gs. field_ok g)" and "fss \<noteq> []"
    and "STR_QUOTATION \<notin> set a" and "CHR ''='' \<notin> set a" and "length a \<le> 127"
  shows "web_items (app_list_request seq t fs a fss) = map field_pair (request_head seq t @ fs @ concat fss)"
    and "strstr (app_list_request seq t fs a fss) ''}={'' = None"
proof -
  have f: "\<forall>f \<in> set (request_head seq t @ fs). field_ok f" using head_ok [OF assms(1,2)] assms(3) by auto
  have n: "request_head seq t @ fs \<noteq> []" by (simp add: request_head_def)
  have o: "\<forall>gs \<in> set fss. gs \<noteq> [] \<and> (\<forall>g \<in> set gs. readable g)" using assms(4) by (simp add: field_ok_def)
  have "web_items (''{'' @ fields_text (request_head seq t @ fs) @ CHR '','' # list_text a fss) =
      map field_pair (request_head seq t @ fs) @ web_items (list_text a fss)"
    using web_items_fields [OF n, of "''{''" "CHR '','' # list_text a fss"] f by (simp add: field_ok_def ends_value_def)
  then show "web_items (app_list_request seq t fs a fss) = map field_pair (request_head seq t @ fs @ concat fss)"
    by (simp add: app_list_request_def web_items_list [OF o assms(5,6,8)])
  have "CHR ''='' \<notin> set (objects_text fss)" using assms(4) by (auto simp: field_ok_def dest!: objects_text_chars)
  then have "CHR ''='' \<notin> set (tl (objects_text fss))" by (metis list.set_sel(2) tl_Nil)
  then have "CHR ''='' \<notin> set (list_text a fss)" using assms(7) by (simp add: list_text_def)
  then have "CHR ''='' \<notin> set (app_list_request seq t fs a fss)"
    using f by (auto simp: app_list_request_def field_ok_def dest!: fields_text_chars)
  then show "strstr (app_list_request seq t fs a fss) ''}={'' = None" by (intro strstr_no_char [of "CHR ''=''"]) simp_all
qed

text \<open>The request is read item by item, unless it is for the list of devices.\<close>

lemma parse_request:
  assumes "currMsgType g = t" and "type_ok t" and "t \<noteq> ''MSG_SET_ROUTER_ADD_DEV_REQ''"
    and "take 26 t \<noteq> ''MSG_SET_ROUTER_ADD_DEV_REQ''" and "strstr src ''}={'' = None"
  shows "websHertAppPro_ParseMsgReq mem room src g =
    read_items mem room (web_items src) g \<lparr>req_version = 0, req_msgSeq = []\<rparr> (req_init t)"
proof -
  have "counted g" using assms(1,4) by (simp add: counted_def)
  then show ?thesis
    using assms by (simp add: websHertAppPro_ParseMsgReq_def parse_loop_items type_ok_def Let_def)
qed

text \<open>
  A request that begins with version, number and one of the 22 types goes to the handler of that
  type, whatever follows: the search for a type inside of another one does not mix up two types of
  the list.
\<close>

theorem types_reach_handlers:
  assumes "(t, h) \<in> set web_handlers" and "seq_ok seq"
  shows "websHertAppProcess env (CHR ''{'' # fields_text (request_head seq t @ fs) @ s) w =
    h env (CHR ''{'' # fields_text (request_head seq t @ fs) @ s) (w\<lparr>w_glob := (w_glob w)\<lparr>currMsgType := t\<rparr>\<rparr>)"
  using assms by (rule process_request)

lemma types_reach_handlers_witness:
  "\<forall>env w. websHertAppProcess env (CHR ''{'' # fields_text (request_head ''7'' ''MSG_SET_ROUTER_CHANNEL_REQ'' @ []) @ ''}'') w =
    websHertAppPro_SetWifiChannelREQ env ''{\"version\":1,\"msgSeq\":\"7\",\"msgType\":\"MSG_SET_ROUTER_CHANNEL_REQ\"}''
      (w\<lparr>w_glob := (w_glob w)\<lparr>currMsgType := ''MSG_SET_ROUTER_CHANNEL_REQ''\<rparr>\<rparr>)"
proof -
  have m: "(''MSG_SET_ROUTER_CHANNEL_REQ'', websHertAppPro_SetWifiChannelREQ) \<in> set web_handlers"
    by (simp add: web_handlers_def)
  have s: "seq_ok ''7''" by code_simp
  have t: "CHR ''{'' # fields_text (request_head ''7'' ''MSG_SET_ROUTER_CHANNEL_REQ'' @ []) @ ''}'' =
      ''{\"version\":1,\"msgSeq\":\"7\",\"msgType\":\"MSG_SET_ROUTER_CHANNEL_REQ\"}''"
    by code_simp
  show ?thesis using types_reach_handlers [OF m s, where fs = "[]" and s = "''}''"] unfolding t by blast
qed

text \<open>The same for the whole of a request, with the sending of the answer.\<close>

lemma handler_request:
  assumes "(t, h) \<in> set web_handlers" and "seq_ok seq" and "api_url url"
  shows "websHertAppHandler env url (CHR ''{'' # fields_text (request_head seq t @ fs) @ s) w =
    rbind (h env (CHR ''{'' # fields_text (request_head seq t @ fs) @ s)
      (w\<lparr>w_out := [], w_answered := False, w_glob := (w_glob w)\<lparr>currMsgType := t\<rparr>\<rparr>))
      (\<lambda>w. Inr (if w_answered w then w else act (Send (w_out w)) w))"
  using assms(3) by (simp add: websHertAppHandler_def api_url_def process_request [OF assms(1,2)])

end
