(* ===== verification/WebRules.thy ===== *)
theory WebRules
  imports WebRequests
begin

text \<open>
  The rule of a client from the text of a request to the settings and back to the text of an answer,
  and what the question for a rule does to the other rules.
\<close>

section \<open>The requests\<close>

text \<open>An address that is the same in JSON, in the rules and for the shell.\<close>

definition mac_text :: "string \<Rightarrow> bool" where
  "mac_text m = (length m = 17 \<and> list_all (\<lambda>c. bare_char c \<and> c \<noteq> CHR ''_'') m)"

definition terminal_fields :: "terminal_body \<Rightarrow> jfield list" where
  "terminal_fields b = [FStr ''devMac'' (devMac b), FNum ''accessControl'' (sint (accessControl b)),
     FNum ''netLimit'' (sint (netLimit b))]"

definition period_fields :: "period \<Rightarrow> jfield list" where
  "period_fields p = [FStr ''startTime'' (startTime p), FStr ''endTime'' (endTime p)]"

definition set_rule_request :: "string \<Rightarrow> terminal_body \<Rightarrow> string" where
  "set_rule_request seq b = app_list_request seq ''MSG_SET_TERMINAL_ACCESS_REQ'' (terminal_fields b) ''netTime''
     (map period_fields (netTime b))"

definition ask_rule_request :: "string \<Rightarrow> string \<Rightarrow> string" where
  "ask_rule_request seq m = app_request seq ''MSG_GET_TERMINAL_STATUS_REQ'' [FStr ''devMac'' m]"

definition strength_request :: "string \<Rightarrow> int \<Rightarrow> string" where
  "strength_request seq s = app_request seq ''MSG_SET_WIFI_STRENGTH_REQ'' [FNum ''wifiStrength'' s]"

lemma bare_char_plain: "bare_char c \<Longrightarrow> c \<notin> {CHR 0x22, CHR '','', CHR ''}'', CHR ''='', CHR ''-'', CHR ''&'', CHR '';''} \<and> \<not> is_space c"
  by (auto simp: bare_char_def is_digit_def is_space_def)

lemma mac_textD:
  assumes "mac_text m"
  shows "length m = 17" "list_all plain m" "mac_ok m" "plain_text m" "CHR ''='' \<notin> set m"
proof -
  have c: "\<forall>c \<in> set m. bare_char c \<and> c \<noteq> CHR ''_''" and l: "length m = 17"
    using assms by (simp_all add: mac_text_def list_all_iff)
  show "length m = 17" by (rule l)
  show "list_all plain m" using c bare_char_plain by (auto simp: list_all_iff plain_def)
  show "mac_ok m" using c bare_char_plain l by (auto simp: list_all_iff mac_ok_def)
  show "plain_text m" using c bare_char_plain by (auto simp: plain_text_def)
  show "CHR ''='' \<notin> set m" using c bare_char_plain by auto
qed

lemma time_text: "time_ok t \<Longrightarrow> plain_text t \<and> CHR ''='' \<notin> set t \<and> length t = 5"
  by (elim time_okE) (auto simp: plain_text_def is_digit_def)

lemma period_fields_ok: "period_ok p \<Longrightarrow> list_all field_ok (period_fields p)"
  using time_text [of "startTime p"] time_text [of "endTime p"]
  by (simp add: period_fields_def field_ok_def str_item_def period_ok_def)

lemma small_num_ok: "unat (w :: dword) < 10 \<Longrightarrow> length n < 20 \<Longrightarrow> STR_QUOTATION \<notin> set n \<Longrightarrow> CHR ''='' \<notin> set n \<Longrightarrow>
    field_ok (FNum n (sint w))"
proof -
  assume a: "unat w < 10" "length n < 20" "STR_QUOTATION \<notin> set n" "CHR ''='' \<notin> set n"
  then have "is_digit (digit_char (unat w))" by simp
  then have "digit_char (unat w) \<noteq> CHR ''=''" by (auto simp: is_digit_def)
  then show ?thesis using a small_word [of w] by (simp add: field_ok_def num_item_def)
qed

lemma mac_field_ok: "mac_text m \<Longrightarrow> field_ok (FStr ''devMac'' m)"
  using mac_textD [of m] by (simp add: field_ok_def str_item_def)

lemma terminal_fields_ok: "rule_ok b \<Longrightarrow> mac_text (devMac b) \<Longrightarrow> list_all field_ok (terminal_fields b)"
  by (simp add: terminal_fields_def mac_field_ok small_num_ok rule_ok_def)

section \<open>What is read\<close>

text \<open>What the reader has stored at the end of the request.\<close>

definition stored :: "terminal_body \<Rightarrow> set_terminal" where
  "stored b = \<lparr>st_devMac = devMac b, st_accessControl = accessControl b, st_netLimit = netLimit b,
     periodNum = length (netTime b), st_first = hd (netTime b),
     st_second = (if length (netTime b) = 2 then netTime b ! 1 else no_period), timeNum = 2 * length (netTime b)\<rparr>"

lemma atoi_one: "atoi ''1'' = 1"
  by code_simp

lemmas head_read = request_head_def show_one atoi_one const_item_def

lemma read_terminal:
  assumes "rule_ok b" and "mac_text (devMac b)" and "seq_ok seq"
  shows "read_items True 48 (map field_pair (request_head seq t @ terminal_fields b @ concat (map period_fields (netTime b)))) g
      \<lparr>req_version = 0, req_msgSeq = []\<rparr> (SetTerminal None) =
    Inr (0, g, \<lparr>req_version = 1, req_msgSeq = seq\<rparr>, SetTerminal (Some (stored b)))"
proof -
  have s: "length seq < 20" using assms(3) by (simp add: seq_ok_def)
  have m: "length (devMac b) = 17" using mac_textD [OF assms(2)] by simp
  have t: "length (startTime p) = 5 \<and> length (endTime p) = 5" if "period_ok p" for p
    using that by (simp add: period_ok_def time_ok_def)
  note defs = head_read terminal_fields_def period_fields_def var_item_def terminal_item_def terminal_start_def
    terminal_time_def stored_def dword_roundtrip no_period_def
  from assms(1) show ?thesis
  proof (cases rule: rule_cases)
    case (one p)
    then show ?thesis using s m t [of p] by (simp add: defs)
  next
    case (two p q)
    then show ?thesis using s m t [of p] t [of q] by (simp add: defs)
  qed
qed

lemma parse_set_rule:
  assumes "rule_ok b" and "mac_text (devMac b)" and "seq_ok seq" and "currMsgType g = ''MSG_SET_TERMINAL_ACCESS_REQ''"
  shows "websHertAppPro_ParseMsgReq True 48 (set_rule_request seq b) g =
    Inr (0, g, \<lparr>req_version = 1, req_msgSeq = seq\<rparr>, SetTerminal (Some (stored b)))"
proof -
  have t: "type_ok ''MSG_SET_TERMINAL_ACCESS_REQ''" by code_simp
  have n: "map period_fields (netTime b) \<noteq> []" using assms(1) by (auto simp: rule_ok_def)
  have p: "\<forall>gs \<in> set (map period_fields (netTime b)). gs \<noteq> [] \<and> (\<forall>g \<in> set gs. field_ok g)"
    using assms(1) period_fields_ok by (auto simp: rule_ok_def list_all_iff period_fields_def)
  have f: "\<forall>f \<in> set (terminal_fields b). field_ok f" using terminal_fields_ok [OF assms(1,2)] by (simp add: list_all_iff)
  note i = app_list_request_items [OF assms(3) t f p n, of "''netTime''", folded set_rule_request_def]
  have "req_init ''MSG_SET_TERMINAL_ACCESS_REQ'' = SetTerminal None" by code_simp
  then show ?thesis
    using i read_terminal [OF assms(1-3)] parse_request [OF assms(4) t] by simp
qed

lemma parse_ask_rule:
  assumes "mac_text m" and "seq_ok seq" and "currMsgType g = ''MSG_GET_TERMINAL_STATUS_REQ''"
  shows "websHertAppPro_ParseMsgReq mem 32 (ask_rule_request seq m) g =
    Inr (0, g, \<lparr>req_version = 1, req_msgSeq = seq\<rparr>, TerminalStatus m)"
proof -
  have t: "type_ok ''MSG_GET_TERMINAL_STATUS_REQ''" by code_simp
  have f: "\<forall>f \<in> set [FStr ''devMac'' m]. field_ok f" using mac_field_ok [OF assms(1)] by simp
  note i = app_request_items [OF assms(2) t f, folded ask_rule_request_def]
  have "req_init ''MSG_GET_TERMINAL_STATUS_REQ'' = TerminalStatus []" by code_simp
  then show ?thesis
    using i parse_request [OF assms(3) t] assms(2) mac_textD(1) [OF assms(1)]
    by (simp add: head_read var_item_def in_body_def seq_ok_def)
qed

lemma parse_strength:
  assumes "seq_ok seq" and "currMsgType g = ''MSG_SET_WIFI_STRENGTH_REQ''" and "s \<in> {0, 1, 2}"
  shows "websHertAppPro_ParseMsgReq mem 4 (strength_request seq s) g =
    Inr (0, g, \<lparr>req_version = 1, req_msgSeq = seq\<rparr>, Strength s)"
proof -
  have t: "type_ok ''MSG_SET_WIFI_STRENGTH_REQ''" by code_simp
  have n: "show_int 0 = ''0''" "show_int 2 = ''2''" "atoi ''0'' = 0" "atoi ''2'' = 2" by (code_simp, code_simp, code_simp, code_simp)
  then have s: "field_ok (FNum ''wifiStrength'' s)" "atoi (show_int s) = s"
    using assms(3) by (auto simp: field_ok_def num_item_def show_one atoi_one)
  then have f: "\<forall>f \<in> set [FNum ''wifiStrength'' s]. field_ok f" by simp
  note i = app_request_items [OF assms(1) t f, folded strength_request_def]
  have "req_init ''MSG_SET_WIFI_STRENGTH_REQ'' = Strength 0" by code_simp
  then show ?thesis
    using i parse_request [OF assms(2) t] assms(1,3) s(2)
    by (auto simp: head_read var_item_def in_body_def seq_ok_def)
qed

section \<open>Setting a rule\<close>

lemma rule_netlimit: "unat (netLimit b) \<le> 2 \<Longrightarrow> sint (netLimit b) = int (unat (netLimit b))"
proof -
  assume a: "unat (netLimit b) \<le> 2"
  then have "int (unat (netLimit b)) \<le> 2" by linarith
  then have "uint (netLimit b) \<le> 2" by simp
  then have "uint (netLimit b) < 2 ^ 31" by simp
  moreover have "- (2 ^ 31) \<le> uint (netLimit b)" by (rule order_trans [of _ 0]) simp_all
  ultimately show ?thesis using signed_take_bit_int_eq_self [of 31 "uint (netLimit b)"] by (simp add: sint_uint)
qed

lemma stored_terminal: "rule_ok b \<Longrightarrow> terminal_of (stored b) = b"
  by (auto simp: rule_ok_def terminal_of_def stored_def length_Suc_conv numeral_2_eq_2)

lemma stored_ended: "rule_ok b \<Longrightarrow> terminal_ended (stored b)"
  by (auto simp: rule_ok_def terminal_ended_def stored_def length_Suc_conv numeral_2_eq_2 period_ok_def time_ok_def no_period_def)

lemma stored_first: "rule_ok b \<Longrightarrow> startTime (st_first (stored b)) \<noteq> [] \<and> endTime (st_first (stored b)) \<noteq> []"
  by (auto simp: rule_ok_def stored_def length_Suc_conv numeral_2_eq_2 period_ok_def time_ok_def)

text \<open>The settings that hold the rules: what the programs see, and the cache.\<close>

definition holds_rules :: "terminal_body list \<Rightarrow> web_world \<Rightarrow> bool" where
  "holds_rules rs w = (w_flash w ''InternetRules'' = rules_text rs \<and> (\<forall>r \<in> set rs. rule_ok r) \<and>
     distinct (map devMac rs) \<and> length rs \<le> 32)"

definition holds_qos :: "string list \<Rightarrow> string list \<Rightarrow> web_world \<Rightarrow> bool" where
  "holds_qos us ds w = (w_cache w ''QoSULRules'' = qos_text us \<and> w_cache w ''QoSDLRules'' = qos_text ds \<and>
     (\<forall>r \<in> set us \<union> set ds. qos_ok r) \<and> length us \<le> 32 \<and> length ds \<le> 32 \<and>
     distinct (map qos_name us) \<and> distinct (map qos_name ds))"

lemma set_rule_handled:
  assumes "rule_ok b" and "mac_text (devMac b)" and "unat (netLimit b) \<le> 2" and "seq_ok seq" and "we_mem env"
    and "holds_rules rs w" and "holds_qos us ds w" and "currMsgType (w_glob w) = ''MSG_SET_TERMINAL_ACCESS_REQ''"
  shows "\<exists>w'. websHertAppPro_SetTerminalAccessStatus env (set_rule_request seq b) w = Inr w' \<and>
    w_flash w' ''InternetRules'' = rules_text (take 32 (put_rule b rs)) \<and> \<not> w_dirty w' \<and> w_answered w' \<and>
    w_table w' = rule_table (take 32 (put_rule b rs))"
proof -
  have p: "websHertAppPro_ParseMsgReq (we_mem env) 48 (set_rule_request seq b) (w_glob w) =
      Inr (0, w_glob w, \<lparr>req_version = 1, req_msgSeq = seq\<rparr>, SetTerminal (Some (stored b)))"
    using parse_set_rule [OF assms(1,2,4,8)] assms(5) by simp
  have a: "hertUtil_updateAccessRulesInNvram (printed ''InternetRules'' w) b (w_table w) =
      Inr (rules_text (take 32 (put_rule b rs)), map (\<lambda>r. ''set_iptables.sh deleteDropRule '' @ devMac r) (drop 32 (put_rule b rs)),
        rule_table (take 32 (put_rule b rs)))"
    using set_rule [OF assms(1), of rs] assms(6) by (simp add: holds_rules_def printed_def)
  have "int (unat (netLimit b)) \<le> 2" using assms(3) by linarith
  then have g: "0 \<le> sint (netLimit b)" "sint (netLimit b) \<le> 2" unfolding rule_netlimit [OF assms(3)] by linarith+
  have q: "\<exists>u d. apply_qos (devMac b) (netLimit b) v = Inr (commit (bufsets [(''QoSULRules'', u), (''QoSDLRules'', d)] v))"
    if "w_flash v ''QoSULRules'' = qos_text us" "w_flash v ''QoSDLRules'' = qos_text ds" for v
  proof -
    obtain u d where "hertUtil_updateQOSSetting (qos_text us @ [CHR 0x0A]) (qos_text ds @ [CHR 0x0A]) (devMac b) (sint (netLimit b)) =
        Inr (Some (u, d))"
      using qos_updated [OF mac_textD(3) [OF assms(2)] g, of us ds] assms(7) unfolding holds_qos_def by blast
    then have "apply_qos (devMac b) (netLimit b) v = Inr (commit (bufsets [(''QoSULRules'', u), (''QoSDLRules'', d)] v))"
      by (simp add: apply_qos_def printed_def that)
    then show ?thesis by blast
  qed
  let ?w = "(commit (bufset ''InternetRules'' (rules_text (take 32 (put_rule b rs))) (w\<lparr>w_acts := w_acts w @ map Cmd
        (map (\<lambda>r. ''set_iptables.sh deleteDropRule '' @ devMac r) (drop 32 (put_rule b rs)))\<rparr>)))\<lparr>w_table := rule_table (take 32 (put_rule b rs))\<rparr>"
  have "w_flash ?w ''QoSULRules'' = qos_text us" "w_flash ?w ''QoSDLRules'' = qos_text ds"
    using assms(7) by (simp_all add: holds_qos_def commit_def bufset_def act_def)
  then obtain u d where "apply_qos (devMac b) (netLimit b) ?w = Inr (commit (bufsets [(''QoSULRules'', u), (''QoSDLRules'', d)] ?w))"
    using q by blast
  moreover have "st_devMac (stored b) = devMac b" "st_netLimit (stored b) = netLimit b" by (simp_all add: stored_def)
  ultimately show ?thesis
    using stored_ended [OF assms(1)] stored_first [OF assms(1)]
    by (simp add: websHertAppPro_SetTerminalAccessStatus_def with_req_def p stored_terminal [OF assms(1)] a
        answer_now_def Let_def commit_def bufset_def act_def)
qed

section \<open>Asking for a rule\<close>

lemma rule_times_vars:
  assumes "rule_ok b"
  shows "rule_times (vars_of b) = Inr (netTime b)"
proof -
  have t: "CHR '','' \<notin> set t" "t \<noteq> []" if "time_ok t" for t
    using no_comma [of t] time_in_rule [OF that] that by (auto simp: time_ok_def)
  from assms show ?thesis
  proof (cases rule: rule_cases)
    case (one p)
    then show ?thesis using t(1) by (simp add: rule_times_def vars_of_def period_ok_def strchr_None_iff [THEN iffD2])
  next
    case (two p q)
    then show ?thesis using t by (simp add: rule_times_def vars_of_def period_ok_def)
  qed
qed

text \<open>The answer has the rule, and the cache has lost the rules behind it.\<close>

lemma ask_rule_handled:
  assumes "holds_rules (as @ r # bs) w" and "\<not> w_dirty w" and "mac_text (devMac r)" and "seq_ok seq" and "we_mem env"
    and "currMsgType (w_glob w) = ''MSG_GET_TERMINAL_STATUS_REQ''"
  shows "websHertAppPro_GetTerminalAccessStatus env (ask_rule_request seq (devMac r)) w =
    Inr (answer \<lparr>req_version = 1, req_msgSeq = seq\<rparr> ''MSG_GET_TERMINAL_STATUS_RSP''
      (RspTerminal \<lparr>wt_accessControl = accessControl r, wt_netLimit = netLimit r, wt_times = netTime r\<rparr>) 0
      (w\<lparr>w_cache := (w_flash w)(''InternetRules'' := rules_text (as @ [r]))\<rparr>))"
proof -
  have ok: "\<forall>x \<in> set (as @ r # bs). rule_ok x" "rule_ok r" and d: "distinct (map devMac (as @ r # bs))"
    and f: "w_flash w ''InternetRules'' = rules_text (as @ r # bs)"
    using assms(1) by (simp_all add: holds_rules_def)
  note m = mac_textD [OF assms(3)]
  have "devMac r \<notin> devMac ` set as" using d by auto
  then have "dropWhile (\<lambda>x. devMac x \<noteq> devMac r) (as @ r # bs) = r # bs" by (subst dropWhile_append2) (metis image_eqI, simp)
  then have s: "strstr (rules_text (as @ r # bs)) (devMac r) = Some (rule_line r @ rules_text bs)"
    using strstr_rules [OF ok(1) m(1,2)] by simp
  have p: "websHertAppPro_ParseMsgReq True 32 (ask_rule_request seq (devMac r)) (w_glob w) =
      Inr (0, w_glob w, \<lparr>req_version = 1, req_msgSeq = seq\<rparr>, TerminalStatus (devMac r))"
    using parse_ask_rule [OF assms(3,4,6)] .
  have n: "devMac r \<noteq> []" using m(1) by auto
  have v: "v_acc (vars_of r) = int (unat (accessControl r))" "v_lim (vars_of r) = int (unat (netLimit r))"
    by (simp_all add: vars_of_def)
  show ?thesis
    using assms(2,5) m(1) n
    by (simp add: websHertAppPro_GetTerminalAccessStatus_def with_req_def reload_def Let_def p ended_def f s [simplified]
        parse_rule [OF ok(2)] rule_times_vars [OF ok(2)] v)
qed

lemma strength_handled:
  assumes "seq_ok seq" and "currMsgType (w_glob w) = ''MSG_SET_WIFI_STRENGTH_REQ''" and "s \<in> {0, 1, 2}"
  shows "\<exists>w' p. websHertAppPro_SetWifiStrengthREQ env (strength_request seq s) w = Inr w' \<and>
    w_flash w' = (w_cache w)(''TxPower'' := p)"
proof -
  obtain p where "strength_power s = Some p" using assms(3) by (auto simp: strength_power_def)
  then show ?thesis
    by (simp add: websHertAppPro_SetWifiStrengthREQ_def with_req_def parse_strength [OF assms] answer_def commit_def
        bufset_def act_def exI [of _ p])
qed

section \<open>Requests in a row\<close>

lemma handler_entries:
  "(''MSG_SET_TERMINAL_ACCESS_REQ'', websHertAppPro_SetTerminalAccessStatus) \<in> set web_handlers"
  "(''MSG_GET_TERMINAL_STATUS_REQ'', websHertAppPro_GetTerminalAccessStatus) \<in> set web_handlers"
  "(''MSG_SET_WIFI_STRENGTH_REQ'', websHertAppPro_SetWifiStrengthREQ) \<in> set web_handlers"
  by (simp_all add: web_handlers_def)

text \<open>The state a handler starts in.\<close>

definition started :: "string \<Rightarrow> web_world \<Rightarrow> web_world" where
  "started t w = w\<lparr>w_out := [], w_answered := False, w_glob := (w_glob w)\<lparr>currMsgType := t\<rparr>\<rparr>"

lemma started_simps [simp]:
  "w_flash (started t w) = w_flash w" "w_cache (started t w) = w_cache w" "w_dirty (started t w) = w_dirty w"
  "currMsgType (w_glob (started t w)) = t" "w_table (started t w) = w_table w" "w_answered (started t w) = False"
  "holds_rules rs (started t w) = holds_rules rs w" "holds_qos us ds (started t w) = holds_qos us ds w"
  by (simp_all add: started_def holds_rules_def holds_qos_def)

lemma request_handled:
  assumes "(t, h) \<in> set web_handlers" and "seq_ok seq" and "api_url url"
  shows "websHertAppHandler env url (app_request seq t fs) w =
      rbind (h env (app_request seq t fs) (started t w)) (\<lambda>w. Inr (if w_answered w then w else act (Send (w_out w)) w))"
    and "websHertAppHandler env url (app_list_request seq t fs a fss) w =
      rbind (h env (app_list_request seq t fs a fss) (started t w)) (\<lambda>w. Inr (if w_answered w then w else act (Send (w_out w)) w))"
  unfolding app_request_def app_list_request_def started_def using handler_request [OF assms] by blast+

text \<open>
  C15: a rule that the application sets is in the setting behind the request, first and the only one
  of its device, the table of the firewall is made from the same list, and the next question for it
  is answered with the values of the request.
\<close>

theorem rule_set_then_reported:
  assumes "rule_ok b" and "mac_text (devMac b)" and "unat (netLimit b) \<le> 2" and "seq_ok seq" and "seq_ok seq'"
    and "we_mem env" and "holds_rules rs w" and "holds_qos us ds w" and "api_url url"
  shows "\<exists>w1 w2. websHertAppHandler env url (set_rule_request seq b) w = Inr w1 \<and>
    w_flash w1 ''InternetRules'' = rules_text (take 32 (put_rule b rs)) \<and>
    w_table w1 = rule_table (take 32 (put_rule b rs)) \<and>
    websHertAppHandler env url (ask_rule_request seq' (devMac b)) w1 = Inr w2 \<and>
    w_out w2 = web_text \<lparr>req_version = 1, req_msgSeq = seq'\<rparr> ''MSG_GET_TERMINAL_STATUS_RSP''
      (RspTerminal \<lparr>wt_accessControl = accessControl b, wt_netLimit = netLimit b, wt_times = netTime b\<rparr>) 0"
proof -
  let ?k = "take 32 (put_rule b rs)"
  obtain w1 where w1: "websHertAppPro_SetTerminalAccessStatus env (set_rule_request seq b)
      (started ''MSG_SET_TERMINAL_ACCESS_REQ'' w) = Inr w1" "w_flash w1 ''InternetRules'' = rules_text ?k" "\<not> w_dirty w1"
      "w_answered w1" "w_table w1 = rule_table ?k"
    using set_rule_handled [OF assms(1-4,6), of rs "started ''MSG_SET_TERMINAL_ACCESS_REQ'' w" us ds] assms(7,8) by auto
  have h1: "websHertAppHandler env url (set_rule_request seq b) w = Inr w1"
    unfolding set_rule_request_def
    using request_handled(2) [OF handler_entries(1) assms(4) assms(9)] w1(1,4) by (simp add: set_rule_request_def)
  have k: "?k = [] @ b # take 31 (filter (\<lambda>r. devMac r \<noteq> devMac b) rs)" by (simp add: put_rule_def)
  have "\<forall>r \<in> set rs. rule_ok r" "distinct (map devMac rs)" using assms(7) by (simp_all add: holds_rules_def)
  then have "(\<forall>r \<in> set ?k. rule_ok r) \<and> distinct (map devMac ?k)"
    using put_rule_ok [OF assms(1), of rs 32] by blast
  then have "holds_rules ([] @ b # take 31 (filter (\<lambda>r. devMac r \<noteq> devMac b) rs)) w1"
    using w1(2) unfolding k [symmetric] by (simp add: holds_rules_def)
  then have h2: "websHertAppPro_GetTerminalAccessStatus env (ask_rule_request seq' (devMac b)) (started ''MSG_GET_TERMINAL_STATUS_REQ'' w1) =
      Inr (answer \<lparr>req_version = 1, req_msgSeq = seq'\<rparr> ''MSG_GET_TERMINAL_STATUS_RSP''
        (RspTerminal \<lparr>wt_accessControl = accessControl b, wt_netLimit = netLimit b, wt_times = netTime b\<rparr>) 0
        ((started ''MSG_GET_TERMINAL_STATUS_REQ'' w1)\<lparr>w_cache := (w_flash w1)(''InternetRules'' := rules_text ([] @ [b]))\<rparr>))"
    using ask_rule_handled [of "[]" b _ "started ''MSG_GET_TERMINAL_STATUS_REQ'' w1" seq' env] assms(2,5,6) w1(3)
    by (simp only: started_simps) simp
  then show ?thesis
    using h1 w1 request_handled(1) [OF handler_entries(2) assms(5) assms(9)]
    by (simp add: ask_rule_request_def answer_def act_def short_answer)
qed


section \<open>A device to try the theorems on\<close>

text \<open>A device whose settings are empty, but for the rules that are given.\<close>

definition sample_env :: web_env where
  "sample_env = \<lparr>we_mem = True, we_devlist = (0, []), we_workstatus = 0, we_broadband = 0,
     we_ifconfig = None, we_mac = None, we_uboot_sn = None, we_scsi = Some ''Host: scsi0'',
     we_disks = \<lparr>mounts = Some ''/dev/sda1 /media/sda1 vfat rw'', statfs = (\<lambda>p. Some (4096, 25600, 51200)),
       can_write = (\<lambda>p. True), can_list = (\<lambda>p. True)\<rparr>,
     we_md5 = (\<lambda>s. map (\<lambda>c. of_nat (of_char c)) s), we_wrap = (\<lambda>s. s), we_onenet = None,
     we_inet_addr = (\<lambda>s. s \<noteq> []), we_channel = 1, we_upgradeinfo = None, we_lan_ip = Some ''192.168.8.1'',
     we_fmdown = (\<lambda>n. None), we_pictures = None, we_room = True, we_uptime = 100,
     we_reg = None, we_mbss = False, we_miniupnpd = False, we_picture_dir = True, we_upload = True,
     we_hertchstest = None, we_image = (\<lambda>n. None)\<rparr>"

definition sample_world :: "string \<Rightarrow> string \<Rightarrow> web_world" where
  "sample_world pwd rules = (let s = (\<lambda>n. if n = ''InternetRules'' then rules else if n = ''Password'' then pwd else []) in
     \<lparr>w_glob = \<lparr>currMsgType = [], MD5Password = [], toAddDevNum = 0, firstTime = 0\<rparr>, w_cache = s, w_flash = s, w_dirty = False,
      w_table = replicate 32 [], w_toadd = None, w_allow = None, w_out = [], w_answered = False, w_acts = [],
      w_upgradeState = 0, w_wpsState = 0,
      w_net = \<lparr>wanPortStatus = ''pass'', lan1PortStatus = ''pass'', lan2PortStatus = ''pass'', WanIpStatus = ''pass'', pingStatus = ''pass'', PPPOEStatus = []\<rparr>, w_remainTime = 0\<rparr>)"

definition sample_url :: string where
  "sample_url = ''/herouter/AppRequest''"

lemma sample_url_ok: "api_url sample_url"
  by code_simp

lemma sample_holds:
  "\<forall>r \<in> set rs. rule_ok r \<Longrightarrow> distinct (map devMac rs) \<Longrightarrow> length rs \<le> 32 \<Longrightarrow> holds_rules rs (sample_world pwd (rules_text rs))"
  "holds_qos [] [] (sample_world pwd rules)" "\<not> w_dirty (sample_world pwd rules)" "we_mem sample_env"
  by (simp_all add: holds_rules_def holds_qos_def sample_world_def sample_env_def Let_def)

lemma sample_macs: "mac_text (devMac evening)" "mac_text (devMac blocked)" "unat (netLimit evening) \<le> 2" "seq_ok ''8''" "seq_ok ''9''"
  "devMac evening \<noteq> devMac blocked"
  by (code_simp, code_simp, code_simp, code_simp, code_simp, code_simp)

lemma rule_set_then_reported_witness:
  "\<exists>w1 w2. websHertAppHandler sample_env sample_url (set_rule_request ''8'' evening) (sample_world [] (rule_line blocked)) = Inr w1 \<and>
    w_flash w1 ''InternetRules'' = rule_line evening @ rule_line blocked \<and>
    websHertAppHandler sample_env sample_url (ask_rule_request ''9'' ''00:1c:42:00:00:0a'') w1 = Inr w2 \<and>
    w_out w2 = ''{\"version\":1,\"msgSeq\":\"9\",\"errorCode\":0,\"msgType\":\"MSG_GET_TERMINAL_STATUS_RSP\",\"accessControl\":1,\"netLimit\":0,\"netTime\":[{\"startTime\":\"12:00\",\"endTime\":\"13:30\"},{\"startTime\":\"18:00\",\"endTime\":\"21:15\"}]}''"
proof -
  have p: "put_rule evening [blocked] = [evening, blocked]" using sample_macs(6) by (simp add: put_rule_def)
  have m: "devMac evening = ''00:1c:42:00:00:0a''" by (simp add: evening_def)
  have a: "web_text \<lparr>req_version = 1, req_msgSeq = ''9''\<rparr> ''MSG_GET_TERMINAL_STATUS_RSP''
      (RspTerminal \<lparr>wt_accessControl = accessControl evening, wt_netLimit = netLimit evening, wt_times = netTime evening\<rparr>) 0 = ''{\"version\":1,\"msgSeq\":\"9\",\"errorCode\":0,\"msgType\":\"MSG_GET_TERMINAL_STATUS_RSP\",\"accessControl\":1,\"netLimit\":0,\"netTime\":[{\"startTime\":\"12:00\",\"endTime\":\"13:30\"},{\"startTime\":\"18:00\",\"endTime\":\"21:15\"}]}''"
    by code_simp
  have h: "holds_rules [blocked] (sample_world [] (rules_text [blocked]))" by (rule sample_holds) simp_all
  show ?thesis
    using rule_set_then_reported [OF sample_rules_ok(1) sample_macs(1,3,4,5) sample_holds(4) h sample_holds(2) sample_url_ok]
    unfolding p m a by auto
qed


end
