(* ===== verification/WebGuard.thy ===== *)
theory WebGuard
  imports WebRules
begin

text \<open>
  What requests of the local application can change without the password of the router: a session is
  a row of requests none of which proves the password, and a setting is settled when cache and flash
  agree about it.
\<close>

section \<open>Settings that stay\<close>

definition settled :: "string \<Rightarrow> string \<Rightarrow> web_world \<Rightarrow> bool" where
  "settled n v w = (w_cache w n = v \<and> w_flash w n = v)"

text \<open>Every result of an operation has the property.\<close>

definition ends_in :: "(web_world \<Rightarrow> bool) \<Rightarrow> fault + web_world \<Rightarrow> bool" where
  "ends_in P m = (\<forall>w. m = Inr w \<longrightarrow> P w)"

named_theorems frame \<open>operations that keep a setting\<close>

lemma ends_in_simps [simp]: "ends_in P (Inr w) = P w" "ends_in P (Inl f)"
  by (simp_all add: ends_in_def)

lemma ends_in_rbind: "(\<And>x. m = Inr x \<Longrightarrow> ends_in P (f x)) \<Longrightarrow> ends_in P (rbind m f)"
  by (cases m) (simp_all add: rbind_def)

lemma ends_in_bind: "ends_in P m \<Longrightarrow> (\<And>w. P w \<Longrightarrow> ends_in Q (f w)) \<Longrightarrow> ends_in Q (rbind m f)"
  by (cases m) (simp_all add: rbind_def)

lemma ends_in_ended: "ends_in P (f s) \<Longrightarrow> ends_in P (ended n s f)"
  by (simp add: ended_def)

lemma settled_simps [simp]:
  "settled n v (act a w) = settled n v w" "settled n v (answer r t x e w) = settled n v w"
  "settled n v (answer_now r t e w) = settled n v w" "settled n v (acts_on as w) = settled n v w"
  "settled n v (pic_error r e w) = settled n v w"
  "settled n v (w\<lparr>w_glob := g\<rparr>) = settled n v w" "settled n v (w\<lparr>w_table := tb\<rparr>) = settled n v w"
  "settled n v (w\<lparr>w_toadd := ta\<rparr>) = settled n v w" "settled n v (w\<lparr>w_allow := l\<rparr>) = settled n v w"
  "settled n v (w\<lparr>w_out := out\<rparr>) = settled n v w" "settled n v (w\<lparr>w_answered := b\<rparr>) = settled n v w"
  "settled n v (w\<lparr>w_acts := as\<rparr>) = settled n v w" "settled n v (w\<lparr>w_upgradeState := i\<rparr>) = settled n v w"
  "settled n v (w\<lparr>w_wpsState := i\<rparr>) = settled n v w"
  by (simp_all add: settled_def act_def answer_def answer_now_def acts_on_def pic_error_def Let_def)

lemma settled_commit [simp]: "settled n v w \<Longrightarrow> settled n v (commit w)"
  by (simp add: settled_def commit_def act_def)

lemma settled_reload [simp]: "settled n v w \<Longrightarrow> settled n v (reload w)"
  by (simp add: settled_def reload_def Let_def)

lemma settled_bufset [simp]: "m \<noteq> n \<Longrightarrow> settled n v (bufset m x w) = settled n v w"
  by (simp add: settled_def bufset_def)

lemma settled_cache [simp]: "m \<noteq> n \<Longrightarrow> settled n v (w\<lparr>w_cache := (w_cache w)(m := x)\<rparr>) = settled n v w"
  by (simp add: settled_def)

lemma settled_flash [simp]: "m \<noteq> n \<Longrightarrow> settled n v (w\<lparr>w_flash := (w_flash w)(m := x)\<rparr>) = settled n v w"
  by (simp add: settled_def)

lemma ends_in_req:
  assumes "settled n v w" and "\<And>ret r x w. settled n v w \<Longrightarrow> ends_in (settled n v) (f ret r x w)"
  shows "ends_in (settled n v) (with_req env room src w f)"
  unfolding with_req_def using assms by (intro ends_in_rbind) auto

section \<open>The handlers\<close>

text \<open>
  The settings that some request changes without the password: those with a name of the list, and
  those of a single wireless network, whose names begin with one of the second list.
\<close>

definition open_names :: "string list" where
  "open_names = [''InternetRules'', ''QoSULRules'', ''QoSDLRules'', ''TxPower'', ''WscModeOption'', ''WiFiOff'', ''HE_ROUTE_UPIMAG'',
     ''BssidNum'', ''GuestOpenTime'', ''GuestStartTime'', ''RekeyInterval'', ''RekeyMethod''] @ mbss_names"

definition open_prefixes :: "string list" where
  "open_prefixes = [''SSID'', ''WPAPSK'', ''Key1Str'', ''Key2Str'', ''Key3Str'', ''Key4Str'', ''AccessPolicy'', ''AccessControlList'']"

definition open_setting :: "string \<Rightarrow> bool" where
  "open_setting n = (n \<in> set open_names \<or> list_ex (\<lambda>p. says p n) open_prefixes)"

lemma not_open:
  assumes "\<not> open_setting n"
  shows "''InternetRules'' \<noteq> n" "''QoSULRules'' \<noteq> n" "''QoSDLRules'' \<noteq> n" "''TxPower'' \<noteq> n" "''WscModeOption'' \<noteq> n"
    "''WiFiOff'' \<noteq> n" "''HE_ROUTE_UPIMAG'' \<noteq> n" "''BssidNum'' \<noteq> n" "''GuestOpenTime'' \<noteq> n" "''GuestStartTime'' \<noteq> n"
    "''RekeyInterval'' \<noteq> n" "''RekeyMethod'' \<noteq> n" "''AuthMode'' \<noteq> n" "''EncrypType'' \<noteq> n" "''DefaultKeyID'' \<noteq> n" "''IEEE8021X'' \<noteq> n"
    "''SSID1'' \<noteq> n" "''SSID2'' \<noteq> n" "''WPAPSK2'' \<noteq> n"
proof -
  let ?ns = "[''InternetRules'', ''QoSULRules'', ''QoSDLRules'', ''TxPower'', ''WscModeOption'', ''WiFiOff'', ''HE_ROUTE_UPIMAG'',
     ''BssidNum'', ''GuestOpenTime'', ''GuestStartTime'', ''RekeyInterval'', ''RekeyMethod'', ''AuthMode'', ''EncrypType'',
     ''DefaultKeyID'', ''IEEE8021X'', ''SSID1'', ''SSID2'', ''WPAPSK2'']"
  have "list_all open_setting ?ns" by code_simp
  then have o: "m \<noteq> n" if "m \<in> set ?ns" for m using assms that unfolding list_all_iff by blast
  show "''InternetRules'' \<noteq> n" "''QoSULRules'' \<noteq> n" "''QoSDLRules'' \<noteq> n" "''TxPower'' \<noteq> n" "''WscModeOption'' \<noteq> n"
    "''WiFiOff'' \<noteq> n" "''HE_ROUTE_UPIMAG'' \<noteq> n" "''BssidNum'' \<noteq> n" "''GuestOpenTime'' \<noteq> n" "''GuestStartTime'' \<noteq> n"
    "''RekeyInterval'' \<noteq> n" "''RekeyMethod'' \<noteq> n" "''AuthMode'' \<noteq> n" "''EncrypType'' \<noteq> n" "''DefaultKeyID'' \<noteq> n" "''IEEE8021X'' \<noteq> n"
    "''SSID1'' \<noteq> n" "''SSID2'' \<noteq> n" "''WPAPSK2'' \<noteq> n"
    by (rule o, simp only: list.set insert_iff simp_thms)+
qed

lemma not_open_mbss: "\<not> open_setting n \<Longrightarrow> m \<in> set mbss_names \<Longrightarrow> m \<noteq> n"
  by (auto simp: open_setting_def open_names_def)

lemma not_open_racat: "\<not> open_setting n \<Longrightarrow> s \<in> set open_prefixes \<Longrightarrow> racat s i \<noteq> n"
proof -
  assume a: "\<not> open_setting n" "s \<in> set open_prefixes"
  have "list_all (\<lambda>p. length p \<le> 31) open_prefixes" by code_simp
  then have "says s (racat s i)" using a(2) by (auto simp: says_def racat_def snprintf_into_def list_all_iff)
  then show "racat s i \<noteq> n" using a by (auto simp: open_setting_def list_ex_iff)
qed

lemma settled_bufsets: "(\<forall>p \<in> set xs. fst p \<noteq> n) \<Longrightarrow> settled n v (bufsets xs w) = settled n v w"
  by (induction xs arbitrary: w) auto

lemma frame_status [frame]: "settled n v w \<Longrightarrow> ends_in (settled n v) (websHertAppPro_GetRouteStatus env src w)"
  unfolding websHertAppPro_GetRouteStatus_def by (rule ends_in_req) (simp_all split: prod.split)

lemma frame_sn [frame]: "settled n v w \<Longrightarrow> ends_in (settled n v) (websHertAppPro_GetRouteSN env src w)"
  unfolding websHertAppPro_GetRouteSN_def by (rule ends_in_req) (simp_all add: Let_def split: option.split)

lemma frame_space [frame]: "settled n v w \<Longrightarrow> ends_in (settled n v) (websHertAppPro_GetRouteSpace env src w)"
  unfolding websHertAppPro_GetRouteSpace_def
  by (rule ends_in_req) (auto simp: Let_def intro!: ends_in_rbind split: prod.split)

lemma frame_password [frame]: "settled n v w \<Longrightarrow> ends_in (settled n v) (websHertAppPro_GetRoutePassword env src w)"
  unfolding websHertAppPro_GetRoutePassword_def
  by (rule ends_in_req) (auto simp: Let_def intro!: ends_in_ended split: req_var.split option.split)

lemma frame_ability [frame]: "settled n v w \<Longrightarrow> ends_in (settled n v) (websHertAppPro_GetRouteAbility env src w)"
  unfolding websHertAppPro_GetRouteAbility_def by (rule ends_in_req) (simp_all add: Let_def split: option.split)

lemma frame_upload_address [frame]: "settled n v w \<Longrightarrow> ends_in (settled n v) (websHertAppPro_GeUploadPicture env src w)"
  unfolding websHertAppPro_GeUploadPicture_def
  by (rule ends_in_req) (auto simp: Let_def intro!: ends_in_rbind ends_in_ended split: prod.split option.split req_var.split)

lemma frame_pictures [frame]: "settled n v w \<Longrightarrow> ends_in (settled n v) (websHertAppPro_GeUpDownloadList env src w)"
  unfolding websHertAppPro_GeUpDownloadList_def
  by (rule ends_in_req) (auto simp: Let_def intro!: ends_in_rbind split: option.split)

lemma frame_upgrade [frame]:
  "\<not> open_setting n \<Longrightarrow> settled n v w \<Longrightarrow> ends_in (settled n v) (websHertAppPro_RouteUpgrade env src w)"
  unfolding websHertAppPro_RouteUpgrade_def
  by (rule ends_in_req) (auto simp: Let_def not_open split: option.split prod.split)

lemma frame_fault [frame]: "settled n v w \<Longrightarrow> ends_in (settled n v) (websHertAppPro_GeFaultDetect env src w)"
  unfolding websHertAppPro_GeFaultDetect_def
  by (rule ends_in_req) (auto simp: Let_def intro!: ends_in_ended split: prod.split req_var.split)

lemma frame_wps [frame]:
  "\<not> open_setting n \<Longrightarrow> settled n v w \<Longrightarrow> ends_in (settled n v) (websHertAppPro_SetWPSSwitch env src w)"
  unfolding websHertAppPro_SetWPSSwitch_def wps_set_def
  by (rule ends_in_req) (auto simp: Let_def not_open split: req_var.split option.split)

lemma frame_STFs: "ends_in (settled n v) (STFs_all i xs w)" if "\<forall>p \<in> set xs. fst p \<noteq> n" "settled n v w"
  using that
proof (induction xs arbitrary: w)
  case (Cons x xs)
  obtain m u where x: "x = (m, u)" by (cases x)
  show ?case
  proof (cases "STFs i m u w")
    case (Inr w')
    then have "settled n v w'" using Cons.prems x by (auto simp: STFs_def rbind_eq_Inr)
    then show ?thesis using Cons Inr x by simp
  qed (simp add: x rbind_def)
qed simp

lemma mbss_own_names:
  assumes "fst ` set fs \<subseteq> set open_prefixes" and "p \<in> set (mbss_own fs i)"
  shows "\<exists>s \<in> set open_prefixes. \<exists>k. fst p = racat s k"
proof -
  let ?ks = "[''Key1Str'', ''Key2Str'', ''Key3Str'', ''Key4Str'', ''AccessPolicy'', ''AccessControlList'']"
  have k: "set ?ks \<subseteq> set open_prefixes" by (simp add: open_prefixes_def)
  from assms(2) consider (own) q where "q \<in> set fs" "fst p = racat (fst q) i" | (key) "\<exists>s \<in> set ?ks. \<exists>k. fst p = racat s k"
    unfolding mbss_own_def by (fastforce simp del: insert_iff simp: image_iff)
  then show ?thesis
  proof cases
    case own
    then show ?thesis using assms(1) by blast
  next
    case key
    then show ?thesis using k by blast
  qed
qed

lemma frame_mbss_own:
  assumes "\<not> open_setting n" and "fst ` set fs \<subseteq> set open_prefixes"
  shows "settled n v (bufsets (concat (map (mbss_own fs) js)) w) = settled n v w"
proof (rule settled_bufsets, rule ballI)
  fix p assume "p \<in> set (concat (map (mbss_own fs) js))"
  then obtain i where "p \<in> set (mbss_own fs i)" by auto
  then obtain s k where "s \<in> set open_prefixes" "fst p = racat s k" using mbss_own_names [OF assms(2)] by blast
  then show "fst p \<noteq> n" using not_open_racat [OF assms(1)] by metis
qed

lemma frame_mbss_inits:
  "\<forall>p \<in> set fds. fst p \<noteq> n \<Longrightarrow> settled n v w \<Longrightarrow> ends_in (settled n v) (mbss_inits old new fds w)"
proof (induction fds arbitrary: w)
  case (Cons fd fds)
  have "ends_in (settled n v) (mbss_init old new fd w)"
    unfolding mbss_init_def using Cons.prems by (intro ends_in_rbind) simp
  then show ?case using Cons by (auto intro: ends_in_bind)
qed simp

lemma frame_mbss_remove: "\<forall>m \<in> set ns. m \<noteq> n \<Longrightarrow> settled n v w \<Longrightarrow> settled n v (fold (mbss_remove k) ns w)"
  by (induction ns arbitrary: w) (simp_all add: mbss_remove_def Let_def)

lemma frame_revise:
  assumes "\<not> open_setting n" and "settled n v w"
  shows "ends_in (settled n v) (revise_mbss_value old new w)"
proof -
  have "fst ` set mbss_defaults \<subseteq> set mbss_names" by (simp add: mbss_defaults_def mbss_names_def)
  then have d: "\<forall>p \<in> set mbss_defaults. fst p \<noteq> n" using not_open_mbss [OF assms(1)] by blast
  have o: "settled n v (bufsets (concat (map (mbss_own [(''WPAPSK'', ''12345678'')]) js)) w') = settled n v w'"
    "settled n v (bufsets (concat (map (mbss_own [(''SSID'', []), (''WPAPSK'', [])]) js)) w') = settled n v w'" for js w'
    by (rule frame_mbss_own [OF assms(1)], simp add: open_prefixes_def)+
  have r: "settled n v (fold (mbss_remove new) mbss_names w)"
    using not_open_mbss [OF assms(1)] assms(2) by (intro frame_mbss_remove) auto
  show ?thesis
    unfolding revise_mbss_value_def
    using o r assms(2) ends_in_bind [OF frame_mbss_inits [OF d assms(2)]] by simp
qed

lemma frame_guest_switch:
  assumes "\<not> open_setting n" and "settled n v w" and "guest_switch env b w = Inr (old, new, w')"
  shows "settled n v w'"
proof -
  have r: "settled n v w'" if "revise_mbss_value i k w1 = Inr w'" "settled n v w1" for i k w1
    using that frame_revise [OF assms(1), of v w1] by (simp add: ends_in_def)
  show ?thesis
    using assms(2,3) not_open [OF assms(1)]
    by (auto simp: guest_switch_def Let_def rbind_eq_Inr settled_bufsets split: if_splits elim!: r)
qed

lemma frame_guest_password:
  assumes "\<not> open_setting n" and "settled n v w"
  shows "ends_in (settled n v) (guest_password_switch b w)"
proof -
  note ne = not_open [OF assms(1)]
  have s: "ends_in (settled n v) (STFs 1 ''AuthMode'' x w')" if "settled n v w'" for x w'
    unfolding STFs_def using that ne by (intro ends_in_rbind) simp
  have "ends_in (settled n v) (ConfWPAGeneral 1 w)"
    unfolding ConfWPAGeneral_def using assms(2) ne by (intro frame_STFs) simp_all
  moreover have "ends_in (settled n v) (STFs_all 1 [(''AuthMode'', ''OPEN''), (''EncrypType'', ''NONE'')] w)"
    using assms(2) ne by (intro frame_STFs) simp_all
  ultimately show ?thesis
    unfolding guest_password_switch_def using s ne assms(2) by (auto intro!: ends_in_bind ends_in_ended)
qed

lemma frame_guest_passwordD:
  "guest_password_switch b w = Inr w' \<Longrightarrow> \<not> open_setting n \<Longrightarrow> settled n v w \<Longrightarrow> settled n v w'"
  using frame_guest_password [of n v w b] by (simp add: ends_in_def)

lemma frame_guest [frame]:
  "\<not> open_setting n \<Longrightarrow> settled n v w \<Longrightarrow> ends_in (settled n v) (websHertAppPro_SetGuestManage env src w)"
  unfolding websHertAppPro_SetGuestManage_def
  by (rule ends_in_req)
    (auto simp: Let_def split: req_var.split intro!: ends_in_rbind dest: frame_guest_switch frame_guest_passwordD)

lemma frame_guest_state [frame]:
  "\<not> open_setting n \<Longrightarrow> settled n v w \<Longrightarrow> ends_in (settled n v) (websHertAppPro_GetGuestManage env src w)"
  unfolding websHertAppPro_GetGuestManage_def
  by (rule ends_in_req) (auto simp: Let_def not_open)

lemma frame_toadd [frame]: "settled n v w \<Longrightarrow> ends_in (settled n v) (websHertAppPro_GeToAddDevList env src w)"
  unfolding websHertAppPro_GeToAddDevList_def
  by (rule ends_in_req) (auto simp: Let_def intro!: ends_in_rbind)

lemma frame_terminal_state [frame]:
  "\<not> open_setting n \<Longrightarrow> settled n v w \<Longrightarrow> ends_in (settled n v) (websHertAppPro_GetTerminalAccessStatus env src w)"
  unfolding websHertAppPro_GetTerminalAccessStatus_def Let_def
  by (rule ends_in_req)
    (auto simp: Let_def not_open intro!: ends_in_rbind ends_in_ended split: req_var.split option.split prod.split)

lemma frame_qos: "apply_qos m g w = Inr w' \<Longrightarrow> \<not> open_setting n \<Longrightarrow> settled n v w \<Longrightarrow> settled n v w'"
  by (auto simp: apply_qos_def rbind_eq_Inr not_open split: option.splits if_splits)

lemma frame_terminal [frame]:
  "\<not> open_setting n \<Longrightarrow> settled n v w \<Longrightarrow> ends_in (settled n v) (websHertAppPro_SetTerminalAccessStatus env src w)"
  unfolding websHertAppPro_SetTerminalAccessStatus_def
  by (rule ends_in_req)
    (auto simp: Let_def not_open intro!: ends_in_rbind split: req_var.split option.split prod.split,
      erule frame_qos, simp_all add: not_open)

lemma frame_allow: "settled n v w \<Longrightarrow> allow_dev m w = Inr (j, w') \<Longrightarrow> settled n v w'"
  by (auto simp: allow_dev_def Let_def rbind_eq_Inr split: if_splits option.splits)

lemma frame_refuse: "settled n v w \<Longrightarrow> refuse_dev m w = Inr w' \<Longrightarrow> settled n v w'"
  by (auto simp: refuse_dev_def Let_def split: if_splits option.splits)

lemma frame_allow_loop: "settled n v w \<Longrightarrow> ends_in (settled n v) (allow_loop i k ds w)"
proof (induction i k ds w rule: allow_loop.induct)
  case (1 i k ds w)
  show ?case
    by (subst allow_loop.simps)
      (use 1 in \<open>auto simp: Let_def dest: frame_allow frame_refuse split: sum.split\<close>)
qed

lemma frame_add_dev [frame]: "settled n v w \<Longrightarrow> ends_in (settled n v) (websHertAppPro_SetAllowAddDev env src w)"
  unfolding websHertAppPro_SetAllowAddDev_def
  by (rule ends_in_req)
    (auto simp: Let_def intro!: ends_in_bind [OF frame_allow_loop] split: req_var.split option.split)

lemma frame_strength_state [frame]: "settled n v w \<Longrightarrow> ends_in (settled n v) (websHertAppPro_WifiStrengthREQ env src w)"
  unfolding websHertAppPro_WifiStrengthREQ_def by (rule ends_in_req) auto

lemma frame_strength [frame]:
  "\<not> open_setting n \<Longrightarrow> settled n v w \<Longrightarrow> ends_in (settled n v) (websHertAppPro_SetWifiStrengthREQ env src w)"
  unfolding websHertAppPro_SetWifiStrengthREQ_def
  by (rule ends_in_req) (auto simp: Let_def not_open split: req_var.split option.split)

lemma frame_channel_state [frame]: "settled n v w \<Longrightarrow> ends_in (settled n v) (websHertAppPro_GetWifiChannelREQ env src w)"
  unfolding websHertAppPro_GetWifiChannelREQ_def
  by (rule ends_in_req) (auto simp: Let_def intro!: ends_in_ended)

lemma frame_channel [frame]: "settled n v w \<Longrightarrow> ends_in (settled n v) (websHertAppPro_SetWifiChannelREQ env src w)"
  unfolding websHertAppPro_SetWifiChannelREQ_def by (rule ends_in_req) (auto simp: Let_def split: req_var.split)

lemma frame_wifi_closed [frame]:
  "\<not> open_setting n \<Longrightarrow> settled n v w \<Longrightarrow> ends_in (settled n v) (websHertAppPro_SetWifiClosedREQ env src w)"
  unfolding websHertAppPro_SetWifiClosedREQ_def
  by (rule ends_in_req) (auto simp: Let_def not_open split: option.split)

lemma frame_unknown [frame]: "settled n v w \<Longrightarrow> ends_in (settled n v) (websHertAppPro_UnknowMSGTypeREQ env src w)"
  unfolding websHertAppPro_UnknowMSGTypeREQ_def by (rule ends_in_req) (auto simp: Let_def)

lemma frame_upload: "settled n v w \<Longrightarrow> ends_in (settled n v) (websHertAppPro_UploadImg env url w)"
  unfolding websHertAppPro_UploadImg_def put_picture_def
  by (rule ends_in_rbind) (auto simp: Let_def rbind_def)

lemma frame_download: "settled n v w \<Longrightarrow> ends_in (settled n v) (websHertAppPro_DownloadImg env url w)"
  unfolding websHertAppPro_DownloadImg_def by (rule ends_in_rbind) (auto simp: Let_def split: option.split)

section \<open>The configuration of the network\<close>

text \<open>The digest of a request for the network is the one for the password.\<close>

definition right_digest :: "web_env \<Rightarrow> string \<Rightarrow> setnet_body \<Rightarrow> bool" where
  "right_digest env pwd b =
     (let d = Base64AdminPwd env (sn_random b) pwd in take (length d) (sn_adminPassword b) = d)"

lemma frame_network:
  assumes "settled n v w"
    and "\<And>g r b. websHertAppPro_ParseMsgReq (we_mem env) 483 src (w_glob w) = Inr (0, g, r, SetNet b) \<Longrightarrow>
      \<not> right_digest env (w_cache w ''Password'') b"
  shows "ends_in (settled n v) (websHertAppPro_SetNetWorkConfig env src w)"
proof (cases "websHertAppPro_ParseMsgReq (we_mem env) 483 src (w_glob w)")
  case (Inl f)
  then show ?thesis by (simp add: websHertAppPro_SetNetWorkConfig_def with_req_def rbind_def)
next
  case (Inr p)
  obtain ret g r x where p: "p = (ret, g, r, x)" by (cases p)
  show ?thesis
  proof (cases "ret = 0 \<and> (\<exists>b. x = SetNet b)")
    case True
    then obtain b where b: "ret = 0" "x = SetNet b" by blast
    then have "\<not> right_digest env (w_cache w ''Password'') b" using assms(2) Inr p by simp
    then show ?thesis
      using Inr p b assms(1) unfolding right_digest_def websHertAppPro_SetNetWorkConfig_def with_req_def
      by (simp add: Let_def ended_def)
  next
    case False
    then show ?thesis
      using Inr p assms(1) by (cases x) (simp_all add: websHertAppPro_SetNetWorkConfig_def with_req_def Let_def)
  qed
qed

lemma frame_handler:
  assumes "(t, h) \<in> set web_handlers" and "\<not> open_setting n"
  shows "t = ''MSG_SET_NETWORK_REQ'' \<and> h = websHertAppPro_SetNetWorkConfig \<or>
    (\<forall>env src w. settled n v w \<longrightarrow> ends_in (settled n v) (h env src w))"
  using assms(1) unfolding web_handlers_def
  by (simp only: list.set insert_iff prod.inject empty_iff simp_thms) (elim disjE conjE; simp add: frame assms(2))

text \<open>
  A request proves the password when it is for the network and has the digest of the password in the
  cache; whether it is asked in the state it meets.
\<close>

definition proves_password :: "web_env \<Rightarrow> string \<Rightarrow> web_world \<Rightarrow> bool" where
  "proves_password env src w = (case websHertAppPro_Parse_Msg_Type src of
       Inr (Some t) \<Rightarrow> (case websHertAppPro_ParseMsgReq (we_mem env) 483 src ((w_glob w)\<lparr>currMsgType := t\<rparr>) of
           Inr (ret, g, r, SetNet b) \<Rightarrow> ret = 0 \<and> right_digest env (w_cache w ''Password'') b
         | _ \<Rightarrow> False)
     | _ \<Rightarrow> False)"

lemma proves_password_cong:
  assumes "w_glob w = w_glob w'" and "w_cache w = w_cache w'"
  shows "proves_password env src w = proves_password env src w'"
  unfolding proves_password_def assms ..

lemma frame_process:
  assumes "settled n v w" and "\<not> open_setting n" and "\<not> proves_password env src w"
  shows "ends_in (settled n v) (websHertAppProcess env src w)"
  unfolding websHertAppProcess_def
proof (rule ends_in_rbind, goal_cases)
  case (1 t)
  show ?case
  proof (cases t)
    case None
    then show ?thesis using assms(1) by simp
  next
    case (Some t)
    let ?w = "w\<lparr>w_glob := (w_glob w)\<lparr>currMsgType := t\<rparr>\<rparr>"
    show ?thesis
    proof (cases "web_dispatch web_handlers t")
      case None
      then show ?thesis using Some assms(1) frame_unknown by simp
    next
      case d: (Some p)
      obtain m h where p: "p = (m, h)" by (cases p)
      have "ends_in (settled n v) (h env src ?w)"
        using frame_handler [OF web_dispatch_in [OF d [unfolded p]] assms(2), of v]
      proof (elim disjE conjE)
        assume "h = websHertAppPro_SetNetWorkConfig"
        moreover have "\<not> right_digest env (w_cache ?w ''Password'') b"
          if "websHertAppPro_ParseMsgReq (we_mem env) 483 src (w_glob ?w) = Inr (0, g, r, SetNet b)" for g r b
          using assms(3) 1 Some that by (simp add: proves_password_def)
        ultimately show ?thesis using frame_network [of n v ?w env src] assms(1) by simp
      next
        assume "\<forall>env src w. settled n v w \<longrightarrow> ends_in (settled n v) (h env src w)"
        then show ?thesis using assms(1) by simp
      qed
      then show ?thesis using Some d p by simp
    qed
  qed
qed

section \<open>Sessions\<close>

inductive session :: "web_world \<Rightarrow> web_world \<Rightarrow> bool" for w0 :: web_world where
  start: "session w0 w0"
| request: "session w0 w \<Longrightarrow> \<not> proves_password env query w \<Longrightarrow> websHertAppHandler env url query w = Inr w' \<Longrightarrow>
    session w0 w'"

lemma frame_request:
  assumes "settled n v w" and "\<not> open_setting n" and "\<not> proves_password env query w"
    and "websHertAppHandler env url query w = Inr w'"
  shows "settled n v w'"
proof -
  let ?w = "w\<lparr>w_out := [], w_answered := False\<rparr>"
  have "w_glob ?w = w_glob w" "w_cache ?w = w_cache w" by simp_all
  then have "\<not> proves_password env query ?w" using assms(3) proves_password_cong by blast
  moreover have "settled n v ?w" using assms(1) by simp
  ultimately have "ends_in (settled n v) (if has_text UPLOAD_IMG_TAG url then websHertAppPro_UploadImg env url ?w
      else if has_text DOWNLOAD_IMG_TAG url then websHertAppPro_DownloadImg env url ?w
      else websHertAppProcess env query ?w)"
    using frame_upload frame_download frame_process [OF _ assms(2)] by simp
  then show ?thesis
    using assms(4) by (auto simp: websHertAppHandler_def Let_def rbind_eq_Inr ends_in_def)
qed

end
