(* ===== verification/WebNetwork.thy ===== *)
theory WebNetwork
  imports WebGuard
begin

text \<open>
  The request for the configuration of the network from its text to the settings: what it does with
  the right digest of the password, and with a wrong one.
\<close>

section \<open>Base64 in a request\<close>

lemma code_char_codes: "i < 64 \<Longrightarrow> code_char i \<in> set codes"
proof -
  assume "i < 64"
  then have "unat i < length codes" by (simp add: word_less_nat_alt length_codes)
  then show ?thesis unfolding code_char_def by (rule nth_mem)
qed

lemma base64_groups_chars: "c \<in> set (base64_groups p) \<Longrightarrow> c \<in> set codes \<or> c = CHR ''=''"
proof (induction p rule: base64_groups.induct)
  case (1 x y z r)
  then show ?case
    using sextets_lt [THEN code_char_codes] by (simp only: base64_groups_sextets list.set insert_iff) metis
next
  case (2 x y)
  then show ?case
    using sextets_lt [THEN code_char_codes] by (simp only: base64_groups_sextets list.set insert_iff empty_iff) metis
next
  case (3 x)
  then show ?case
    using sextets_lt [THEN code_char_codes] by (simp only: base64_groups_sextets list.set insert_iff empty_iff) metis
qed simp

lemma base64_plain: "plain_text (base64_groups p)"
proof -
  have "list_all (\<lambda>c. c \<noteq> CHR 0x22 \<and> c \<noteq> CHR '','' \<and> c \<noteq> CHR ''}'') codes" by code_simp
  then show ?thesis by (auto simp: plain_text_def list_all_iff dest!: base64_groups_chars)
qed

lemma digest_length:
  assumes "length (we_md5 env (rnd @ hex_text (we_md5 env pwd))) = 16"
  shows "length (Base64AdminPwd env rnd pwd) = 44"
proof -
  have "length (hex_text bs) = 2 * length bs" for bs by (induction bs) (simp_all add: hex_text_def hex2_def)
  then show ?thesis using assms by (simp add: Base64AdminPwd_def length_base64_groups)
qed

section \<open>The request\<close>

definition network_fields :: "string \<Rightarrow> string \<Rightarrow> string \<Rightarrow> string \<Rightarrow> jfield list" where
  "network_fields rnd d name key = [FStr ''random'' rnd, FStr ''adminPassword'' d, FNum ''netType'' 0,
     FStr ''wifiName'' name, FStr ''wifiPassword'' key]"

text \<open>A request for an address from the provider (DHCP), and the wireless network's name and key.\<close>

definition network_request :: "string \<Rightarrow> string \<Rightarrow> string \<Rightarrow> string \<Rightarrow> string \<Rightarrow> string" where
  "network_request seq rnd d name key = app_request seq ''MSG_SET_NETWORK_REQ'' (network_fields rnd d name key)"

lemma no_marker:
  assumes "CHR ''}'' \<notin> set u"
  shows "strstr (u @ ''}'') ''}={'' = None"
proof (rule ccontr)
  assume "strstr (u @ ''}'') ''}={'' \<noteq> None"
  then obtain a b where "u @ ''}'' = a @ ''}={'' @ b" using strstr_SomeD by (metis not_None_eq)
  then have "u = a @ butlast (''}={'' @ b)" by (metis butlast_append butlast_snoc append_is_Nil_conv list.distinct(1))
  then show False using assms by simp
qed

text \<open>The items of a request some of whose values have the character =.\<close>

lemma app_request_items':
  assumes "seq_ok seq" and "type_ok t" and "\<forall>f \<in> set fs. readable f \<and> CHR ''}'' \<notin> set (field_item f)"
  shows "web_items (app_request seq t fs) = map field_pair (request_head seq t @ fs)"
    and "strstr (app_request seq t fs) ''}={'' = None"
proof -
  have h: "CHR ''}'' \<notin> set seq" "CHR ''}'' \<notin> set t"
    using seq_chars [OF assms(1), of "CHR ''}''"] type_chars [OF assms(2), of "CHR ''}''"] by (auto simp: is_digit_def)
  have "\<forall>f \<in> set (request_head seq t). readable f" using head_ok [OF assms(1,2)] by (simp add: field_ok_def)
  moreover have "\<forall>f \<in> set (request_head seq t). CHR ''}'' \<notin> set (field_item f)"
    using h by (simp add: request_head_def show_one num_item_def str_item_def)
  ultimately have f: "\<forall>f \<in> set (request_head seq t @ fs). readable f \<and> CHR ''}'' \<notin> set (field_item f)"
    using assms(3) by auto
  have n: "request_head seq t @ fs \<noteq> []" by (simp add: request_head_def)
  have "web_items (''{'' @ fields_text (request_head seq t @ fs) @ ''}'') = map field_pair (request_head seq t @ fs) @ web_items []"
    using web_items_fields [OF n, of "''{''" "''}''"] f by (simp add: ends_value_def)
  then show "web_items (app_request seq t fs) = map field_pair (request_head seq t @ fs)"
    by (simp add: app_request_def web_items_None)
  have "CHR ''}'' \<notin> set (CHR ''{'' # fields_text (request_head seq t @ fs))"
    using f by (auto dest!: fields_text_chars)
  from no_marker [OF this] show "strstr (app_request seq t fs) ''}={'' = None" by (simp add: app_request_def)
qed

text \<open>A value that the reader gets back, of at most n characters.\<close>

definition value_ok :: "nat \<Rightarrow> string \<Rightarrow> bool" where
  "value_ok n v = (plain_text v \<and> length v \<le> n)"

definition network_body :: "string \<Rightarrow> string \<Rightarrow> string \<Rightarrow> string \<Rightarrow> setnet_body" where
  "network_body rnd d name key = \<lparr>sn_random = rnd, sn_adminPassword = d, netType = 0, netAccount = [], netPassword = [],
     wifiName = name, wifiPassword = key, ipv4Address = [], subnetMask = [], gateway = [], dnsServer = [], dnsServerBackup = []\<rparr>"

lemma parse_network:
  assumes "seq_ok seq" and "value_ok 63 rnd" and "value_ok 60 d" and "value_ok 31 name" and "value_ok 31 key"
    and "currMsgType g = ''MSG_SET_NETWORK_REQ''"
  shows "websHertAppPro_ParseMsgReq mem 483 (network_request seq rnd d name key) g =
    Inr (0, g, \<lparr>req_version = 1, req_msgSeq = seq\<rparr>, SetNet (network_body rnd d name key))"
proof -
  have t: "type_ok ''MSG_SET_NETWORK_REQ''" by code_simp
  have n: "show_int 0 = ''0''" "atoi ''0'' = 0" by (code_simp, code_simp)
  have f: "\<forall>f \<in> set (network_fields rnd d name key). readable f \<and> CHR ''}'' \<notin> set (field_item f)"
    using assms(2-5) by (simp add: network_fields_def value_ok_def n num_item_def str_item_def plain_text_def)
  note i = app_request_items' [OF assms(1) t f, folded network_request_def]
  have "req_init ''MSG_SET_NETWORK_REQ'' = SetNet (network_body [] [] [] [])"
    unfolding network_body_def by code_simp
  then show ?thesis
    using i parse_request [OF assms(6) t] assms(1-5)
    by (simp add: head_read n network_fields_def var_item_def setnet_item_def in_body_def seq_ok_def value_ok_def network_body_def)
qed

section \<open>The settings of the wireless network\<close>

text \<open>A setting of at most eight values of at most 255 characters.\<close>

definition semi_ok :: "string \<Rightarrow> bool" where
  "semi_ok s = (length (split_semi s) \<le> 8 \<and> list_all (\<lambda>f. length f \<le> 255) (split_semi s))"

lemma length_concat_le: "list_all (\<lambda>x. length x \<le> m) xs \<Longrightarrow> length (concat xs) \<le> m * length xs"
  by (induction xs) auto

lemma split_semi_nonempty: "split_semi s \<noteq> []"
  by (cases s) (simp_all split: list.split)

lemma set_first_value:
  assumes "semi_ok old" and "length v \<le> 255"
  shows "\<exists>s. setNthValue 0 old v = Inr s"
proof -
  let ?fs = "split_semi old" let ?k = "length ?fs - 1"
  let ?buf = "(?fs @ replicate (8 - length ?fs) [])[0 := v]"
  obtain f fs where fs: "?fs = f # fs" using split_semi_nonempty by (meson neq_Nil_conv)
  have b: "?buf = v # fs @ replicate (8 - length ?fs) []" by (simp add: fs)
  have l: "length fs \<le> 7" "list_all (\<lambda>f. length f \<le> 255) fs" using assms(1) by (simp_all add: semi_ok_def fs)
  have "list_all (\<lambda>x. length x \<le> 256) (map (\<lambda>f. CHR '';'' # f) fs)" using l(2) by (simp add: list_all_iff)
  then have "length (concat (map (\<lambda>f. CHR '';'' # f) fs)) \<le> 256 * 7" using length_concat_le l(1) by fastforce
  then have r: "length (concat (v # map (\<lambda>f. CHR '';'' # f) fs)) < 2048" using assms(2) by simp
  have "list_ex (\<lambda>f. 256 \<le> length f) (v # ?fs) = False" "\<not> 8 < length ?fs"
    using assms by (auto simp: semi_ok_def list_all_iff list_ex_iff)
  moreover have "take (max ?k 0) (tl ?buf) = fs" "hd ?buf = v" unfolding b by (simp_all add: fs)
  ultimately show ?thesis using r unfolding setNthValue_def Let_def by simp
qed

text \<open>Settings of the first wireless network: the others stay.\<close>

lemma STFs_all_ok:
  assumes "\<forall>(n, v) \<in> set xs. semi_ok (w_cache w n) \<and> length v \<le> 255" and "distinct (map fst xs)"
  shows "\<exists>w'. STFs_all 0 xs w = Inr w' \<and> (\<forall>n. n \<notin> fst ` set xs \<longrightarrow> w_cache w' n = w_cache w n)"
  using assms
proof (induction xs arbitrary: w)
  case Nil
  then show ?case by simp
next
  case (Cons x xs)
  obtain n v where x: "x = (n, v)" by (cases x)
  obtain s where s: "setNthValue 0 (w_cache w n) v = Inr s" using set_first_value Cons.prems(1) x by fastforce
  have c: "w_cache (bufset n s w) m = w_cache w m" if "m \<noteq> n" for m using that by (simp add: bufset_def)
  have d: "n \<notin> fst ` set xs" "distinct (map fst xs)" using Cons.prems(2) x by simp_all
  have "semi_ok (w_cache (bufset n s w) m) \<and> length u \<le> 255" if p: "(m, u) \<in> set xs" for m u
  proof -
    have "m \<noteq> n" using p d(1) by force
    then show ?thesis using p Cons.prems(1) c by auto
  qed
  then have "\<forall>(m, u) \<in> set xs. semi_ok (w_cache (bufset n s w) m) \<and> length u \<le> 255" by blast
  from Cons.IH [OF this d(2)] obtain w' where w': "STFs_all 0 xs (bufset n s w) = Inr w'"
    "\<forall>m. m \<notin> fst ` set xs \<longrightarrow> w_cache w' m = w_cache (bufset n s w) m"
    by blast
  have "STFs_all 0 ((n, v) # xs) w = Inr w'" using s w'(1) by (simp add: STFs_def)
  moreover have "\<forall>m. m \<notin> fst ` set ((n, v) # xs) \<longrightarrow> w_cache w' m = w_cache w m" using w'(2) c by simp
  ultimately show ?case unfolding x by blast
qed

section \<open>Right and wrong digests\<close>

definition wifi_key_settings :: "(string \<times> string) list" where
  "wifi_key_settings = [(''EncrypType'', ''AES''), (''DefaultKeyID'', ''2''), (''RekeyInterval'', ''1''),
     (''RekeyMethod'', ''TIME''), (''IEEE8021X'', ''0''), (''AuthMode'', ''WPAPSKWPA2PSK'')]"

lemma set_network:
  assumes "value_ok 31 name" and "value_ok 31 key" and "name \<noteq> []" and "key \<noteq> []"
    and "\<forall>n \<in> fst ` set wifi_key_settings. semi_ok (w_cache w n)"
  shows "\<exists>w'. hertUtil_setNetConfig4App env (network_body rnd d name key) w = Inr (0, w') \<and>
    w_cache w' ''wanConnectionMode'' = ''DHCP'' \<and> w_cache w' ''SSID1'' = name \<and> w_cache w' ''WPAPSK1'' = key"
proof -
  let ?b = "network_body rnd d name key"
  let ?w1 = "snd (wan_config env ?b w)"
  let ?w2 = "bufsets [(''SSID1'', name), (''BssidNum'', show_int (atoi (w_cache ?w1 ''BssidNum'')))] ?w1"
  have b: "netType ?b = 0" "wifiName ?b = name" "wifiPassword ?b = key" "setnet_ended ?b"
    using assms(1,2) by (simp_all add: network_body_def setnet_ended_def value_ok_def)
  have c: "fst (wan_config env ?b w) = 0" "w_cache ?w1 ''wanConnectionMode'' = ''DHCP''"
    "n \<in> fst ` set wifi_key_settings \<Longrightarrow> w_cache ?w2 n = w_cache w n" for n
    by (auto simp: wan_config_def b Let_def bufset_def wifi_key_settings_def)
  have "\<forall>(n, v) \<in> set wifi_key_settings. semi_ok (w_cache ?w2 n) \<and> length v \<le> 255"
  proof
    fix p assume p: "p \<in> set wifi_key_settings"
    obtain n v where n: "p = (n, v)" by (cases p)
    have "n \<in> fst ` set wifi_key_settings" using p n by force
    moreover have "length v \<le> 255" using p n by (auto simp: wifi_key_settings_def)
    moreover from calculation(1) have "semi_ok (w_cache w n)" using assms(5) by (rule bspec [rotated])
    ultimately show "case p of (n, v) \<Rightarrow> semi_ok (w_cache ?w2 n) \<and> length v \<le> 255" using n c(3) by simp
  qed
  moreover have "distinct (map fst wifi_key_settings)" by (simp add: wifi_key_settings_def)
  ultimately obtain w' where w': "STFs_all 0 wifi_key_settings ?w2 = Inr w'"
    "\<forall>n. n \<notin> fst ` set wifi_key_settings \<longrightarrow> w_cache w' n = w_cache ?w2 n"
    using STFs_all_ok by blast
  have "w_cache w' ''wanConnectionMode'' = w_cache ?w2 ''wanConnectionMode''" "w_cache w' ''SSID1'' = w_cache ?w2 ''SSID1''"
    using w'(2) by (simp_all add: wifi_key_settings_def)
  then have k: "w_cache w' ''wanConnectionMode'' = ''DHCP''" "w_cache w' ''SSID1'' = name"
    using c(2) by (simp_all add: bufset_def)
  obtain e x where p: "wan_config env ?b w = (e, x)" by (cases "wan_config env ?b w")
  then show ?thesis
    using b c(1) w'(1) k assms(3,4)
    by (simp add: hertUtil_setNetConfig4App_def wifi_key_settings_def bufset_def)
qed

lemma network_entry: "(''MSG_SET_NETWORK_REQ'', websHertAppPro_SetNetWorkConfig) \<in> set web_handlers"
  by (simp add: web_handlers_def)

text \<open>The answer of success.\<close>

definition network_done :: "string \<Rightarrow> string" where
  "network_done seq = web_text \<lparr>req_version = 1, req_msgSeq = seq\<rparr> ''MSG_SET_NETWORK_RSP'' RspNone 0"

lemma network_refused:
  assumes "seq_ok seq" and "value_ok 63 rnd" and "value_ok 60 d" and "value_ok 31 name" and "value_ok 31 key"
    and "rnd \<noteq> []" and "d \<noteq> []" and "length (w_cache w ''Password'') < 130"
    and "\<not> right_digest env (w_cache w ''Password'') (network_body rnd d name key)"
    and "currMsgType (w_glob w) = ''MSG_SET_NETWORK_REQ''"
  shows "websHertAppPro_SetNetWorkConfig env (network_request seq rnd d name key) w = Inr (w\<lparr>w_out := network_done seq\<rparr>)"
  using assms(2,6-9) parse_network [OF assms(1-5,10)]
  by (simp add: websHertAppPro_SetNetWorkConfig_def with_req_def right_digest_def network_body_def value_ok_def ended_def Let_def
      answer_def short_answer network_done_def)

lemma network_accepted:
  assumes "seq_ok seq" and "value_ok 63 rnd" and "value_ok 60 d" and "value_ok 31 name" and "value_ok 31 key"
    and "rnd \<noteq> []" and "d \<noteq> []" and "length (w_cache w ''Password'') < 130"
    and "right_digest env (w_cache w ''Password'') (network_body rnd d name key)"
    and "currMsgType (w_glob w) = ''MSG_SET_NETWORK_REQ''"
    and "name \<noteq> []" and "key \<noteq> []" and "\<forall>n \<in> fst ` set wifi_key_settings. semi_ok (w_cache w n)"
  shows "\<exists>w'. websHertAppPro_SetNetWorkConfig env (network_request seq rnd d name key) w = Inr w' \<and> w_answered w' \<and>
    w_out w' = network_done seq \<and> w_flash w' ''wanConnectionMode'' = ''DHCP'' \<and> w_flash w' ''SSID1'' = name \<and>
    w_flash w' ''WPAPSK1'' = key"
proof -
  obtain w1 where w1: "hertUtil_setNetConfig4App env (network_body rnd d name key) w = Inr (0, w1)"
    "w_cache w1 ''wanConnectionMode'' = ''DHCP''" "w_cache w1 ''SSID1'' = name" "w_cache w1 ''WPAPSK1'' = key"
    using set_network [OF assms(4,5,11,12,13)] by blast
  have b: "sn_random (network_body rnd d name key) = rnd" "sn_adminPassword (network_body rnd d name key) = d"
    by (simp_all add: network_body_def)
  show ?thesis
    using assms(2,6-8) assms(9) [unfolded right_digest_def b] parse_network [OF assms(1-5,10)] w1
    by (simp add: websHertAppPro_SetNetWorkConfig_def with_req_def b value_ok_def ended_def Let_def
        answer_now_def short_answer network_done_def commit_def bufset_def act_def)
qed

lemma handled_network:
  assumes "seq_ok seq" and "api_url url"
  shows "websHertAppHandler env url (network_request seq rnd d name key) w =
    rbind (websHertAppPro_SetNetWorkConfig env (network_request seq rnd d name key) (started ''MSG_SET_NETWORK_REQ'' w))
      (\<lambda>w. Inr (if w_answered w then w else act (Send (w_out w)) w))"
  unfolding network_request_def using request_handled(1) [OF network_entry assms] .

text \<open>
  A request for DHCP and a wireless network of a name and a key.  With the digest of the password the
  settings are in flash behind it; with any other one nothing is changed; the answer is the same, that of
  success, so that the application cannot tell that its password was wrong.
\<close>

theorem network_answer_hides_password:
  assumes "seq_ok seq" and "api_url url" and "value_ok 63 rnd" and "value_ok 31 name" and "value_ok 31 key"
    and "rnd \<noteq> []" and "name \<noteq> []" and "key \<noteq> []" and "length (w_cache w ''Password'') < 130"
    and "\<forall>n \<in> fst ` set wifi_key_settings. semi_ok (w_cache w n)" and "\<forall>s. length (we_md5 env s) = 16"
    and "d = Base64AdminPwd env rnd (w_cache w ''Password'')" and "value_ok 60 d'" and "d' \<noteq> []" and "take 44 d' \<noteq> d"
  shows "\<exists>w1 w2. websHertAppHandler env url (network_request seq rnd d name key) w = Inr w1 \<and>
    w_flash w1 ''wanConnectionMode'' = ''DHCP'' \<and> w_flash w1 ''SSID1'' = name \<and> w_flash w1 ''WPAPSK1'' = key \<and>
    websHertAppHandler env url (network_request seq rnd d' name key) w = Inr w2 \<and>
    w_cache w2 = w_cache w \<and> w_flash w2 = w_flash w \<and> w_out w1 = network_done seq \<and> w_out w2 = network_done seq"
proof -
  let ?w = "started ''MSG_SET_NETWORK_REQ'' w"
  have l: "length d = 44" using digest_length assms(11,12) by simp
  have d: "value_ok 60 d" "d \<noteq> []" using l base64_plain assms(12) by (auto simp: value_ok_def Base64AdminPwd_def)
  have r: "right_digest env (w_cache ?w ''Password'') (network_body rnd d name key)"
    using assms(12) by (simp add: right_digest_def network_body_def)
  have n: "\<not> right_digest env (w_cache ?w ''Password'') (network_body rnd d' name key)"
    using assms(12,15) l by (simp add: right_digest_def network_body_def Let_def)
  obtain w1 where "websHertAppHandler env url (network_request seq rnd d name key) w = Inr w1"
    "w_flash w1 ''wanConnectionMode'' = ''DHCP''" "w_flash w1 ''SSID1'' = name" "w_flash w1 ''WPAPSK1'' = key"
    "w_out w1 = network_done seq"
    using network_accepted [OF assms(1,3) d(1) assms(4,5,6) d(2) _ r] assms(7-10) handled_network [OF assms(1,2)] by auto
  moreover obtain w2 where "websHertAppHandler env url (network_request seq rnd d' name key) w = Inr w2"
    "w_cache w2 = w_cache w" "w_flash w2 = w_flash w" "w_out w2 = network_done seq"
    using network_refused [OF assms(1,3,13,4,5,6,14) _ n] assms(9) handled_network [OF assms(1,2)]
    by (simp add: started_def act_def)
  ultimately show ?thesis by blast
qed

section \<open>A device to try the theorems on\<close>

text \<open>A digest for trying out: the codes of the first characters, filled up to 16.\<close>

definition sample_md5 :: "string \<Rightarrow> byte list" where
  "sample_md5 s = take 16 (map (\<lambda>c. of_nat (of_char c)) s @ replicate 16 0)"

definition network_env :: web_env where
  "network_env = sample_env\<lparr>we_md5 := sample_md5\<rparr>"

definition sample_digest :: string where
  "sample_digest = Base64AdminPwd network_env ''4711'' ''secret''"

lemma neq_length: "length x \<noteq> length y \<Longrightarrow> x \<noteq> y"
  by blast

lemma sample_values:
  "seq_ok ''8''" "value_ok 63 ''4711''" "value_ok 31 ''home''" "value_ok 31 ''longsecret''" "value_ok 60 ''AAAA''"
  "semi_ok []" "length (w_cache (sample_world ''secret'' []) ''Password'') < 130"
  by (code_simp, code_simp, code_simp, code_simp, code_simp, code_simp, simp add: sample_world_def Let_def)

lemma sample_cache: "n \<noteq> ''Password'' \<Longrightarrow> n \<noteq> ''InternetRules'' \<Longrightarrow> w_cache (sample_world pwd rules) n = []"
  "w_cache (sample_world pwd rules) ''Password'' = pwd"
  by (simp_all add: sample_world_def Let_def)

lemma network_answer_hides_password_witness:
  "\<exists>w1 w2. websHertAppHandler network_env sample_url (network_request ''8'' ''4711'' sample_digest ''home'' ''longsecret'')
      (sample_world ''secret'' []) = Inr w1 \<and> w_flash w1 ''SSID1'' = ''home'' \<and>
    websHertAppHandler network_env sample_url (network_request ''8'' ''4711'' ''AAAA'' ''home'' ''longsecret'')
      (sample_world ''secret'' []) = Inr w2 \<and> w_flash w2 = w_flash (sample_world ''secret'' []) \<and>
    w_out w1 = w_out w2"
proof -
  let ?w = "sample_world ''secret'' []"
  have p: "w_cache ?w ''Password'' = ''secret''" "\<forall>n \<in> fst ` set wifi_key_settings. semi_ok (w_cache ?w n)"
    using sample_values(6) sample_cache by (auto simp: wifi_key_settings_def)
  have m: "\<forall>s. length (we_md5 network_env s) = 16" by (auto simp: network_env_def sample_md5_def)
  have "length sample_digest = 44" using digest_length m by (simp add: sample_digest_def)
  then have "length (take 44 ''AAAA'') \<noteq> length sample_digest" by simp
  then have "take 44 ''AAAA'' \<noteq> sample_digest" by (rule neq_length)
  then show ?thesis
    using network_answer_hides_password [OF sample_values(1) sample_url_ok sample_values(2,3,4) _ _ _ _ p(2) m _ sample_values(5),
        where d = sample_digest] sample_values(7)
    by (auto simp: sample_digest_def p(1))
qed

text \<open>
  C2: no row of requests without proof of the password changes a setting that is not open: the connection
  to the internet, the addresses and the password itself stay as they are, in the cache and in flash.
\<close>

theorem settings_need_password:
  assumes "session w w'" and "settled n v w" and "\<not> open_setting n"
  shows "settled n v w'"
  using assms(1)
proof (induction rule: session.induct)
  case start
  then show ?case by (rule assms(2))
next
  case (request w env query url w')
  then show ?case using frame_request assms(3) by blast
qed

text \<open>A session with a wrong digest: the connection and the password stay.\<close>

lemma settings_need_password_witness:
  "\<exists>w'. session (sample_world ''secret'' []) w' \<and> w_flash w' ''wanConnectionMode'' = [] \<and> w_flash w' ''Password'' = ''secret''"
proof -
  let ?w = "sample_world ''secret'' []" and ?q = "network_request ''8'' ''4711'' ''AAAA'' ''home'' ''longsecret''"
  let ?v = "started ''MSG_SET_NETWORK_REQ'' ?w"
  have "length (Base64AdminPwd network_env ''4711'' ''secret'') = 44"
    by (rule digest_length) (auto simp: network_env_def sample_md5_def)
  then have "length (take (length (Base64AdminPwd network_env ''4711'' ''secret'')) ''AAAA'') \<noteq>
      length (Base64AdminPwd network_env ''4711'' ''secret'')"
    by simp
  then have d: "take (length (Base64AdminPwd network_env ''4711'' ''secret'')) ''AAAA'' \<noteq>
      Base64AdminPwd network_env ''4711'' ''secret''"
    by (rule neq_length)
  have n: "\<not> right_digest network_env ''secret'' (network_body ''4711'' ''AAAA'' ''home'' ''longsecret'')"
    using d by (simp add: right_digest_def network_body_def Let_def)
  have "websHertAppPro_SetNetWorkConfig network_env ?q ?v = Inr (?v\<lparr>w_out := network_done ''8''\<rparr>)"
    using n sample_values(7) by (intro network_refused) (simp_all add: sample_values(1-5) sample_cache)
  then obtain w' where w': "websHertAppHandler network_env sample_url ?q ?w = Inr w'"
    using handled_network [OF sample_values(1) sample_url_ok] by auto
  have t: "websHertAppPro_Parse_Msg_Type ?q = Inr (Some ''MSG_SET_NETWORK_REQ'')"
    unfolding network_request_def app_request_def
    using Parse_Msg_Type_request [OF sample_values(1), of "''MSG_SET_NETWORK_REQ''" _ "''}''"] web_dispatch_exact(2) [OF network_entry] by blast
  have "\<not> proves_password network_env ?q ?w"
    using n parse_network [OF sample_values(1,2,5,3,4), of "(w_glob ?w)\<lparr>currMsgType := ''MSG_SET_NETWORK_REQ''\<rparr>"]
    by (simp add: proves_password_def t sample_cache(2))
  then have s: "session ?w w'" using session.intros w' by blast
  have o: "\<not> open_setting ''wanConnectionMode''" "\<not> open_setting ''Password''" by (code_simp, code_simp)
  have "settled ''wanConnectionMode'' [] ?w" "settled ''Password'' ''secret'' ?w" by (simp_all add: settled_def sample_world_def Let_def)
  then have "settled ''wanConnectionMode'' [] w'" "settled ''Password'' ''secret'' w'"
    using settings_need_password [OF s] o by blast+
  then show ?thesis using s by (auto simp: settled_def)
qed

end
