(* ===== verification/WebFiles.thy ===== *)
theory WebFiles
  imports WebRules
begin

text \<open>
  The pictures and the upgrade, from the request to what the device does: names of pictures on their
  way through Base64 and the shell, the pieces of the list, and the wait for a firmware.
\<close>

section \<open>Names in the shell\<close>

lemma dq_word_plain: "\<not> dq_special c \<Longrightarrow> dq_word (c # s) = map_option ((#) c) (dq_word s)"
  by (cases s) (auto simp: dq_special_def)

lemma dq_word_escaped: "dq_special c \<Longrightarrow> dq_word (CHR 0x5C # c # s) = map_option ((#) c) (dq_word s)"
  by simp

text \<open>Characters that the upload hands to the shell as they are.\<close>

definition quotable :: "char \<Rightarrow> bool" where
  "quotable c = (c \<noteq> CHR ''$'' \<and> c \<noteq> CHR 0x22 \<and> c \<noteq> CHR 0x5C)"

lemma escape_quoted: "list_all quotable s \<Longrightarrow> dq_word (escape_backquote s) = Some s"
proof (induction s)
  case Nil
  then show ?case by (simp add: escape_backquote_def)
next
  case (Cons c s)
  show ?case
  proof (cases "c = CHR 0x60")
    case True
    then have "escape_backquote (c # s) = CHR 0x5C # c # escape_backquote s" by (simp add: escape_backquote_def)
    then show ?thesis using Cons True dq_word_escaped [of c] by (simp add: dq_special_def)
  next
    case False
    then have "escape_backquote (c # s) = c # escape_backquote s" "\<not> dq_special c"
      using Cons.prems by (simp_all add: escape_backquote_def dq_special_def quotable_def)
    then show ?thesis using Cons dq_word_plain [of c] by simp
  qed
qed

text \<open>A backslash in front of the backquote undoes the escape.\<close>

lemma escape_append: "escape_backquote (s @ t) = escape_backquote s @ escape_backquote t"
  by (simp add: escape_backquote_def)

lemma dq_word_append: "list_all quotable s \<Longrightarrow> dq_word (escape_backquote s @ t) = map_option ((@) s) (dq_word t)"
proof (induction s)
  case Nil
  then show ?case by (simp add: escape_backquote_def option.map_ident)
next
  case (Cons c s)
  show ?case
  proof (cases "c = CHR 0x60")
    case True
    then have "escape_backquote (c # s) @ t = CHR 0x5C # c # escape_backquote s @ t" by (simp add: escape_backquote_def)
    then show ?thesis using Cons True dq_word_escaped [of c "escape_backquote s @ t"]
      by (simp add: dq_special_def option.map_comp comp_def)
  next
    case False
    then have "escape_backquote (c # s) @ t = c # escape_backquote s @ t" "\<not> dq_special c"
      using Cons.prems by (simp_all add: escape_backquote_def dq_special_def quotable_def)
    then show ?thesis using Cons dq_word_plain [of c "escape_backquote s @ t"] by (simp add: option.map_comp comp_def)
  qed
qed

lemma escape_undone: "list_all quotable s \<Longrightarrow> dq_word (escape_backquote (s @ CHR 0x5C # CHR 0x60 # t)) = None"
proof -
  assume s: "list_all quotable s"
  have "escape_backquote (CHR 0x5C # CHR 0x60 # t) = CHR 0x5C # CHR 0x5C # CHR 0x60 # escape_backquote t"
    by (simp add: escape_backquote_def)
  moreover have "dq_word (CHR 0x60 # u) = None" for u by (cases u) (simp_all add: dq_special_def)
  ultimately have "dq_word (escape_backquote (CHR 0x5C # CHR 0x60 # t)) = None" by (simp add: dq_special_def)
  then show ?thesis using dq_word_append [OF s] by (simp add: escape_append)
qed

section \<open>Upload\<close>

lemma after_tag_url: "tag \<noteq> [] \<Longrightarrow> after_tag tag (tag @ t) = t"
proof -
  assume "tag \<noteq> []"
  then have "strstr (tag @ t) tag = Some (tag @ t)" by (cases tag) (simp_all add: take_Cons')
  then show ?thesis by (simp add: after_tag_def)
qed

text \<open>The name that a URL carries.\<close>

lemma url_name:
  assumes "websEncode64 m name = Inr t" and "length name < 130" and "CHR 0x00 \<notin> set name" and "tag \<noteq> []"
  shows "websDecode64 130 (after_tag tag (tag @ t)) = name"
proof -
  have t: "t = base64_groups (bytes_of name)" using assms(1) by (simp add: websEncode64_def Let_def split: if_splits)
  show ?thesis unfolding after_tag_url [OF assms(4)] t by (rule web_decoded) (rule assms(2), rule assms(3))
qed

lemma put_picture_quoted:
  assumes "list_all quotable name" and "2 * length path + length (escape_backquote name) + 38 < 128"
  shows "put_picture False path name w = Inr (act (Cmd (''rm '' @ upload_path path @ '' -rf''))
    (act (Cmd (''cp '' @ upload_path path @ CHR '' '' # path @ ''/picture/'' @ CHR 0x22 # escape_backquote name @ [CHR 0x22])) w))"
  using assms escape_quoted [OF assms(1)] by (simp add: put_picture_def Let_def upload_path_def)

text \<open>
  C17: the upload of a picture under a name without the three characters that the escape leaves out runs
  cp with a word that the shell reads back as just that name, in the directory of the pictures; nothing
  keeps the name from leading out of it.  A name with a backslash in front of a backquote is no such
  word: the escape is undone.
\<close>

theorem upload_stores_under_name:
  assumes "websEncode64 m name = Inr t" and "list_all quotable name" and "CHR 0x00 \<notin> set name"
    and "hertUtil_GetUSBPartitionMaxFreeSize (we_disks env) 32 = Inr (free, path)"
    and "length path < 24" and "2 * length path + length (escape_backquote name) + 38 < 128"
    and "we_picture_dir env" and "we_upload env" and "\<not> hertUtil_IsInFile (we_hertchstest env) ''DEBUG''"
  shows "\<exists>w' word. websHertAppPro_UploadImg env (UPLOAD_IMG_TAG @ t) w = Inr w' \<and> dq_word word = Some name \<and>
      w_acts w' = w_acts w @
        [Cmd (''cp '' @ upload_path path @ CHR '' '' # path @ ''/picture/'' @ CHR 0x22 # word @ [CHR 0x22]),
         Cmd (''rm '' @ upload_path path @ '' -rf''), Send ''{\"version\":1,\"msgSeq\":\"9\",\"errorCode\":0}''] \<and>
      dq_word (escape_backquote (name @ CHR 0x5C # CHR 0x60 # s)) = None"
proof -
  have "length name \<le> length (escape_backquote name)" by (induction name) (simp_all add: escape_backquote_def)
  then have n: "websDecode64 130 (after_tag UPLOAD_IMG_TAG (UPLOAD_IMG_TAG @ t)) = name"
    using assms(6) by (intro url_name [OF assms(1) _ assms(3)]) (simp_all add: UPLOAD_IMG_TAG_def)
  have l: "\<not> (32 \<le> length (path @ ''/picture'') \<or> 130 \<le> length (upload_path path))" using assms(5) by (simp add: upload_path_def)
  show ?thesis
    using l assms(7-9) put_picture_quoted [OF assms(2,6)] escape_quoted [OF assms(2)] escape_undone [OF assms(2)]
    unfolding websHertAppPro_UploadImg_def assms(4) rbind_Inr prod.case n by (simp add: Let_def act_def)
qed

section \<open>Download\<close>

lemma concat_chunks: "0 < n \<Longrightarrow> concat (chunks n xs) = xs"
proof (induction n xs rule: chunks.induct)
  case (1 n xs)
  then show ?case by (subst chunks.simps) (cases "xs = []"; simp)
qed

lemma chunks_length: "b \<in> set (chunks n xs) \<Longrightarrow> b \<noteq> [] \<and> length b \<le> n"
proof (induction n xs rule: chunks.induct)
  case (1 n xs)
  then show ?case by (subst (asm) (2) chunks.simps) (auto split: if_splits)
qed

text \<open>
  The download of a name sends the bytes of the file that the name leads to from the directory of
  the pictures, all of them and in order, in blocks of the size of the buffer.  The name is free: with
  ".." it is any file of the device of up to 6 MB, without a password.
\<close>

theorem download_serves_file:
  assumes "websEncode64 m name = Inr t" and "CHR 0x00 \<notin> set name" and "\<not> has_text UPLOAD_IMG_TAG (DOWNLOAD_IMG_TAG @ t)"
    and "hretUtil_GetUSBPartitionName (we_disks env) 32 = Inr path" and "length (path @ ''/picture/'' @ name) < 130"
    and "we_image env (path @ ''/picture/'' @ name) = Some img" and "length img \<le> MAX_IMG_SIZE"
  shows "\<exists>w' blocks. websHertAppHandler env (DOWNLOAD_IMG_TAG @ t) query w = Inr w' \<and>
    w_acts w' = w_acts w @ map Send blocks \<and> concat blocks = img \<and> (\<forall>b \<in> set blocks. length b \<le> WEBS_BUFSIZE)"
proof -
  have n: "websDecode64 130 (after_tag DOWNLOAD_IMG_TAG (DOWNLOAD_IMG_TAG @ t)) = name"
    using assms(5) by (intro url_name [OF assms(1) _ assms(2)]) (simp_all add: DOWNLOAD_IMG_TAG_def)
  have h: "has_text DOWNLOAD_IMG_TAG (DOWNLOAD_IMG_TAG @ t)" by (simp add: has_text_def DOWNLOAD_IMG_TAG_def)
  have b: "0 < WEBS_BUFSIZE" by (simp add: WEBS_BUFSIZE_def)
  let ?w = "w\<lparr>w_out := [], w_answered := False\<rparr>"
  have "websHertAppPro_DownloadImg env (DOWNLOAD_IMG_TAG @ t) ?w =
      Inr (?w\<lparr>w_acts := w_acts ?w @ map Send (chunks WEBS_BUFSIZE img), w_answered := True\<rparr>)"
    using assms(4-7) by (simp add: websHertAppPro_DownloadImg_def n Let_def)
  then have "websHertAppHandler env (DOWNLOAD_IMG_TAG @ t) query w =
      Inr (?w\<lparr>w_acts := w_acts ?w @ map Send (chunks WEBS_BUFSIZE img), w_answered := True\<rparr>)"
    using assms(3) h by (simp add: websHertAppHandler_def Let_def)
  then show ?thesis using concat_chunks [OF b] chunks_length by fastforce
qed

section \<open>Upgrade\<close>

text \<open>The file with the result says that the download failed or succeeded.\<close>

definition fm_result :: "string option \<Rightarrow> dword option" where
  "fm_result f = (if hertUtil_IsInFile f ''faileddownfm'' then Some HERT_ERR_UPGRADE_DOWN
     else if hertUtil_IsInFile f ''successdownfm'' then Some HERT_ERR_UPGRADE_PROCESS else None)"

lemma fm_wait_step: "fm_wait f n = (case fm_result (f n) of Some e \<Rightarrow> Some (e, n) | None \<Rightarrow> fm_wait f (n + 1))"
  by (subst fm_wait.simps) (simp add: fm_result_def)

lemma fm_wait_SomeD:
  assumes "fm_wait f n = Some p"
  shows "n \<le> snd p \<and> fm_result (f (snd p)) = Some (fst p)"
proof (rule fm_wait.raw_induct [OF _ assms, where P = "\<lambda>f n p. n \<le> snd p \<and> fm_result (f (snd p)) = Some (fst p)"], goal_cases)
  case (1 g f n p)
  show ?case
  proof (cases "fm_result (f n)")
    case None
    then have "g f (n + 1) = Some p" using 1(2) by (simp add: fm_result_def split: if_splits)
    then show ?thesis using 1(1) by fastforce
  next
    case (Some e)
    then have "p = (e, n)" using 1(2) by (auto simp: fm_result_def split: if_splits)
    then show ?thesis using Some by simp
  qed
qed

lemma fm_wait_first: "fm_result (f k) = Some e \<Longrightarrow> n \<le> k \<Longrightarrow> (\<forall>j. n \<le> j \<and> j < k \<longrightarrow> fm_result (f j) = None) \<Longrightarrow> fm_wait f n = Some (e, k)"
proof (induction "k - n" arbitrary: n)
  case 0
  then show ?case by (subst fm_wait_step) simp
next
  case (Suc d)
  then have "fm_wait f (n + 1) = Some (e, k)" by simp
  moreover have "fm_result (f n) = None" using Suc by simp
  ultimately show ?case by (subst fm_wait_step) simp
qed

definition upgrade_request :: "string \<Rightarrow> string \<Rightarrow> string" where
  "upgrade_request seq v = app_request seq ''MSG_ROUTER_UPDATE_REQ'' [FStr ''routerVersion'' v]"

lemma parse_upgrade:
  assumes "seq_ok seq" and "field_ok (FStr ''routerVersion'' v)" and "currMsgType g = ''MSG_ROUTER_UPDATE_REQ''"
  shows "\<exists>x. websHertAppPro_ParseMsgReq mem 64 (upgrade_request seq v) g = Inr (0, g, \<lparr>req_version = 1, req_msgSeq = seq\<rparr>, x)"
proof -
  have t: "type_ok ''MSG_ROUTER_UPDATE_REQ''" by code_simp
  have f: "\<forall>f \<in> set [FStr ''routerVersion'' v]. field_ok f" using assms(2) by simp
  note i = app_request_items [OF assms(1) t f, folded upgrade_request_def]
  have "req_init ''MSG_ROUTER_UPDATE_REQ'' = Upgrade []" by code_simp
  then show ?thesis
    using i parse_request [OF assms(3) t] assms(1)
    by (simp add: head_read var_item_def in_body_def seq_ok_def)
qed

text \<open>
  C19: a request for an upgrade when a firmware is offered.  It comes to an end exactly when the program
  that downloads the firmware writes a result, at any time; until then the server does nothing else.  The
  first result decides the answer, and whether an upgrade is pending.
\<close>

theorem upgrade_ends_with_result:
  assumes "seq_ok seq" and "api_url url" and "field_ok (FStr ''routerVersion'' v)" and "w_upgradeState w \<noteq> 1"
    and "hertUtil_getHerouteUpImg (Some (printed ''HE_ROUTE_UPIMAG'' w)) \<noteq> 1"
    and "we_upgradeinfo env = Some b" and "b \<noteq> 0"
  shows "(websHertAppHandler env url (upgrade_request seq v) w = Inl Blocked) = (\<forall>k. fm_result (we_fmdown env k) = None) \<and>
    (\<forall>k e. fm_result (we_fmdown env k) = Some e \<and> (\<forall>j < k. fm_result (we_fmdown env j) = None) \<longrightarrow>
      (\<exists>w'. websHertAppHandler env url (upgrade_request seq v) w = Inr w' \<and>
        w_upgradeState w' = (if e = HERT_ERR_UPGRADE_PROCESS then 1 else w_upgradeState w) \<and>
        w_out w' = web_text \<lparr>req_version = 1, req_msgSeq = seq\<rparr> ''MSG_ROUTER_UPDATE_RSP'' RspNone e))"
proof -
  let ?w = "started ''MSG_ROUTER_UPDATE_REQ'' w" and ?h = "websHertAppHandler env url (upgrade_request seq v) w"
  have m: "(''MSG_ROUTER_UPDATE_REQ'', websHertAppPro_RouteUpgrade) \<in> set web_handlers" by (simp add: web_handlers_def)
  obtain x where p: "websHertAppPro_ParseMsgReq (we_mem env) 64 (upgrade_request seq v) (w_glob ?w) =
      Inr (0, w_glob ?w, \<lparr>req_version = 1, req_msgSeq = seq\<rparr>, x)"
    using parse_upgrade [OF assms(1,3)] by fastforce
  have s: "w_upgradeState ?w = w_upgradeState w" "printed n ?w = printed n w" for n by (simp_all add: started_def printed_def)
  have h: "?h = (case fm_wait (we_fmdown env) 0 of None \<Rightarrow> Inl Blocked
      | Some (e, k) \<Rightarrow> rbind (websHertAppPro_RouteUpgrade env (upgrade_request seq v) ?w)
          (\<lambda>w. Inr (if w_answered w then w else act (Send (w_out w)) w)))"
    unfolding upgrade_request_def request_handled(1) [OF m assms(1,2)]
    using assms(4-7) p s
    by (simp add: websHertAppPro_RouteUpgrade_def with_req_def upgrade_request_def hertUtil_getIsNeedUpgrade_def Let_def rbind_def
        split: option.split)
  have r: "\<exists>w'. ?h = Inr w' \<and> w_upgradeState w' = (if e = HERT_ERR_UPGRADE_PROCESS then 1 else w_upgradeState w) \<and>
      w_out w' = web_text \<lparr>req_version = 1, req_msgSeq = seq\<rparr> ''MSG_ROUTER_UPDATE_RSP'' RspNone e"
    if "fm_wait (we_fmdown env) 0 = Some (e, k)" for e k
    using that assms(4-7) p s unfolding h
    by (simp add: websHertAppPro_RouteUpgrade_def with_req_def hertUtil_getIsNeedUpgrade_def Let_def answer_def act_def
        started_def short_answer)
  show ?thesis
  proof (cases "fm_wait (we_fmdown env) 0")
    case None
    then have "fm_result (we_fmdown env k) = None" for k
    proof (induction k rule: less_induct)
      case (less k)
      then show ?case using fm_wait_first [of "we_fmdown env" k _ 0] by fastforce
    qed
    then show ?thesis using h None by simp
  next
    case (Some q)
    then obtain e k where q: "fm_wait (we_fmdown env) 0 = Some (e, k)" by (cases q) simp
    have u: "e' = e" if "fm_result (we_fmdown env k') = Some e' \<and> (\<forall>j < k'. fm_result (we_fmdown env j) = None)" for e' k'
      using fm_wait_first [of "we_fmdown env" k' e' 0] q that by simp
    show ?thesis using r [OF q] u fm_wait_SomeD [OF q] by fastforce
  qed
qed

section \<open>The list of pictures\<close>

lemma concat_pieces:
  "concat (map (\<lambda>(b, ps). steps_text (objects_steps b (map f ps))) (pieces first xs)) = steps_text (objects_steps first (map f xs))"
  by (induction first xs rule: pieces.induct) simp_all

lemma pieces_short: "(b, ps) \<in> set (pieces first xs) \<Longrightarrow> length ps \<le> 3 \<and> ps \<noteq> []"
  by (induction first xs rule: pieces.induct) auto

lemma pieces_later: "(b, ps) \<in> set (pieces False xs) \<Longrightarrow> \<not> b"
proof -
  have "(b, ps) \<in> set (pieces first xs) \<Longrightarrow> \<not> first \<Longrightarrow> \<not> b" for first
    by (induction first xs rule: pieces.induct) auto
  then show "(b, ps) \<in> set (pieces False xs) \<Longrightarrow> \<not> b" by blast
qed

lemma pic_object_length: "length (steps_text (object_steps (pic_object p))) \<le> 1024"
  using web_item_length(1) [of "''picUrl''" "fst p"] web_item_length(1) [of "''smallPicUrl''" "snd p"]
  by (simp add: pic_object_def)

lemma pic_objects_length:
  "length (steps_text (objects_steps first (map pic_object ps))) \<le> 1026 * length ps"
proof (induction ps arbitrary: first)
  case (Cons p ps)
  have "length (steps_text (objects_steps False (map pic_object ps))) \<le> 1026 * length ps" by (rule Cons.IH)
  then show ?case using pic_object_length [of p] by (cases first) simp_all
qed simp

text \<open>The head of the answer, and the pictures of a piece: each piece fits the buffer.\<close>

definition pics_head :: "req_body \<Rightarrow> string" where
  "pics_head r = CHR ''{'' # tl (steps_text (head_steps r 0 ''MSG_GET_IMG_LIST_RSP'' @ list_head ''imgList''))"

lemma build_first_piece:
  assumes "length ps \<le> 3"
  shows "build_pics r 0 True ps = Some (pics_head r @ steps_text (objects_steps True (map pic_object ps)))"
proof -
  let ?i = "web_num ''version'' (sint (req_version r))" and ?t = "''MSG_GET_IMG_LIST_RSP''"
  let ?o = "objects_steps True (map pic_object ps)"
  obtain xs where xs: "head_steps r 0 ?t @ list_head ''imgList'' = AddItem ?i # xs"
    "no_format xs" "length (steps_text xs) \<le> 1600"
    using web_item_length(1) [of "''msgSeq''" "req_msgSeq r"] web_item_length(2) [of "''errorCode''" "0"]
      web_item_length(1) [of "''msgType''" ?t]
    by (simp add: head_steps_def list_head_def)
  have o: "length (steps_text ?o) \<le> 1026 * 3" using pic_objects_length [of True ps] assms by linarith
  have "json_steps JSON_BUFFER_SIZE (AddItem ?i # xs @ ?o) [] = Inr (CHR ''{'' # ?i @ steps_text (xs @ ?o))"
    using xs(2,3) o web_item_length(2) [of "''version''" "sint (req_version r)"] no_format_objects
    by (intro json_steps_open) (simp_all add: JSON_BUFFER_SIZE_def)
  moreover have "pics_head r = CHR ''{'' # ?i @ steps_text xs" unfolding pics_head_def xs by simp
  moreover have "pics_steps r 0 True ps = AddItem ?i # xs @ ?o" unfolding pics_steps_def using xs(1) by simp
  ultimately show ?thesis by (simp add: build_pics_def)
qed

lemma build_next_piece:
  assumes "length ps \<le> 3" and "ps \<noteq> []"
  shows "build_pics r 0 False ps = Some (steps_text (objects_steps False (map pic_object ps)))"
proof -
  obtain p qs where p: "ps = p # qs" using assms(2) by (cases ps) auto
  obtain xs where xs: "objects_steps False (map pic_object ps) = AddStr '',{'' # xs" by (simp add: p)
  have n: "no_format xs" using no_format_objects [of False "map pic_object ps"] unfolding xs by simp
  have l: "length (steps_text xs) \<le> 1026 * 3" using pic_objects_length [of False ps] assms(1) unfolding xs by simp
  have "json_step JSON_BUFFER_SIZE (AddStr '',{'') [] = Inr '',{''"
    by (simp add: ADD_STR_TO_JSON_def JSON_BUFFER_SIZE_def)
  moreover have "json_steps JSON_BUFFER_SIZE xs '',{'' = Inr ('',{'' @ steps_text xs)"
    using n l by (intro json_steps_fit) (simp_all add: JSON_BUFFER_SIZE_def)
  ultimately show ?thesis by (simp add: build_pics_def pics_steps_def xs)
qed

text \<open>What the pieces are put together.\<close>

lemma pieces_text:
  "xs \<noteq> [] \<Longrightarrow> concat (map (\<lambda>(b, ps). case build_pics r 0 b ps of None \<Rightarrow> [] | Some J \<Rightarrow> J) (pieces True xs)) =
    pics_head r @ steps_text (objects_steps True (map pic_object xs))"
proof -
  let ?g = "\<lambda>(b, ps). case build_pics r 0 b ps of None \<Rightarrow> [] | Some J \<Rightarrow> J"
  let ?f = "\<lambda>(b, ps). steps_text (objects_steps b (map pic_object ps))"
  have later: "map ?g (pieces False ys) = map ?f (pieces False ys)" for ys
  proof (rule map_cong [OF refl])
    fix q assume q: "q \<in> set (pieces False ys)"
    obtain b ps where "q = (b, ps)" by (cases q)
    then show "?g q = ?f q" using q pieces_later [of b ps ys] pieces_short [of b ps False ys] build_next_piece by simp
  qed
  assume "xs \<noteq> []"
  then obtain ps ys where p: "pieces True xs = (True, ps) # pieces False ys" "length ps \<le> 3"
    by (cases "(True, xs)" rule: pieces.cases) (auto intro: that [of _ "[]"])
  have "concat (map ?g (pieces True xs)) = ?g (True, ps) @ concat (map ?g (pieces False ys))" by (simp add: p(1))
  also have "\<dots> = pics_head r @ concat (map ?f (pieces True xs))"
    unfolding later by (simp add: p(1) build_first_piece [OF p(2)])
  finally have "concat (map ?g (pieces True xs)) = pics_head r @ concat (map ?f (pieces True xs))" .
  then show ?thesis unfolding concat_pieces [of pic_object True xs] .
qed

text \<open>
  C18: the list of the pictures is sent in pieces of up to three pictures; put together they are one JSON
  text, with all pictures of the directory in order and their number, as if it had been written at once.
\<close>

theorem picture_list_is_whole:
  assumes "websHertAppPro_ParseMsgReq (we_mem env) 64 src (w_glob w) = Inr (0, g, r, x)"
    and "hertUtil_isStorageExist (we_scsi env)" and "hretUtil_GetUSBPartitionName (we_disks env) 128 = Inr path"
    and "we_pictures env = Some s" and "we_lan_ip env = Some lan" and "we_mem env"
    and "fgets_lines 130 s \<noteq> []" and "\<forall>l \<in> set (fgets_lines 130 s). length l < 64"
  shows "\<exists>w' acts parts. websHertAppPro_GeUpDownloadList env src w = Inr w' \<and> w_answered w' \<and>
    w_acts w' = w_acts w @ acts @ map Send parts \<and> (\<forall>t. Send t \<notin> set acts) \<and>
    concat parts = pics_head r @ steps_text (objects_steps True (map (pic_object \<circ> picUrl_of lan) (fgets_lines 130 s))) @
      '']'' @ snprintf_into 64 ('',\"imgCount\":'' @ show_int (int (length (fgets_lines 130 s)))) @ ''}''"
proof -
  let ?ls = "fgets_lines 130 s"
  let ?parts = "map (\<lambda>(b, ps). case build_pics r 0 b ps of None \<Rightarrow> [] | Some J \<Rightarrow> J) (pieces True (map (picUrl_of lan) ?ls)) @
    ['']'' @ snprintf_into 64 ('',\"imgCount\":'' @ show_int (int (length ?ls))) @ ''}'']"
  let ?acts = "[Cmd (snprintf_into 64 (''ls '' @ snprintf_into 32 (path @ ''/picture/'') @ '' |cat >> /var/count_UsbImg'')),
    Call ''unlink /var/count_UsbImg'']"
  have "map (picUrl_of lan) ?ls \<noteq> []" using assms(7) by simp
  then have c: "concat ?parts = pics_head r @ steps_text (objects_steps True (map (pic_object \<circ> picUrl_of lan) ?ls)) @
      '']'' @ snprintf_into 64 ('',\"imgCount\":'' @ show_int (int (length ?ls))) @ ''}''"
    using pieces_text [of "map (picUrl_of lan) ?ls" r] by simp
  have "\<not> list_ex (\<lambda>l. 64 \<le> length l) ?ls" using assms(8) by (auto simp: list_ex_iff)
  then have "\<exists>w'. websHertAppPro_GeUpDownloadList env src w = Inr w' \<and> w_answered w' \<and> w_acts w' = w_acts w @ ?acts @ map Send ?parts"
    using assms(2-7) assms(1) [unfolded eqTrueI [OF assms(6)]]
    by (simp add: websHertAppPro_GeUpDownloadList_def with_req_def Let_def act_def)
  moreover have "\<forall>t. Send t \<notin> set ?acts" by simp
  ultimately show ?thesis using c by blast
qed

section \<open>A device to try the theorems on\<close>

definition sample_disks :: disk_env where
  "sample_disks = \<lparr>mounts = Some ''/dev/sda1 /media/sda1 vfat rw'', statfs = (\<lambda>p. Some (4096, 25600, 51200)),
     can_write = (\<lambda>p. True), can_list = (\<lambda>p. True)\<rparr>"

lemma sample_disks_env: "we_disks sample_env = sample_disks"
  by (simp add: sample_env_def sample_disks_def)

lemma sample_partition:
  "hertUtil_GetUSBPartitionMaxFreeSize sample_disks 32 = Inr (100, ''/media/sda1'')"
  "hretUtil_GetUSBPartitionName sample_disks 32 = Inr ''/media/sda1''"
  "hretUtil_GetUSBPartitionName sample_disks 128 = Inr ''/media/sda1''"
proof -
  have m: "mounted ''/dev/sda1 /media/sda1 vfat rw'' = [''/media/sda1'']" by code_simp
  show "hertUtil_GetUSBPartitionMaxFreeSize sample_disks 32 = Inr (100, ''/media/sda1'')"
    "hretUtil_GetUSBPartitionName sample_disks 32 = Inr ''/media/sda1''"
    "hretUtil_GetUSBPartitionName sample_disks 128 = Inr ''/media/sda1''"
    by (simp_all add: hertUtil_GetUSBPartitionMaxFreeSize_def hretUtil_GetUSBPartitionName_def sample_disks_def
        hertUtil_GetUSBPartitionPath_def hretUtil_GetUSBPartitionSize_def hertUtil_IsEnableWritePath_def write_or_list_def
        megabytes_def m)
qed

lemma sample_name_code: "websEncode64 256 ''../../../etc/passwd'' = Inr ''Li4vLi4vLi4vZXRjL3Bhc3N3ZA==''"
proof -
  have "base64_groups (bytes_of ''../../../etc/passwd'') = ''Li4vLi4vLi4vZXRjL3Bhc3N3ZA==''" by code_simp
  then show ?thesis by (simp add: websEncode64_def)
qed

lemma sample_names: "list_all quotable ''../../../etc/passwd''" "CHR 0x00 \<notin> set ''../../../etc/passwd''"
  "length (escape_backquote ''../../../etc/passwd'') = 19"
  by (code_simp, code_simp, code_simp)

text \<open>An upload that replaces the file of the users, and a download of it.\<close>

lemma upload_stores_under_name_witness:
  "\<exists>w' word. websHertAppPro_UploadImg sample_env (UPLOAD_IMG_TAG @ ''Li4vLi4vLi4vZXRjL3Bhc3N3ZA=='') (sample_world [] []) = Inr w' \<and>
    dq_word word = Some ''../../../etc/passwd'' \<and>
    hd (w_acts w') = Cmd (''cp /media/sda1/picture/uploading_file /media/sda1/picture/'' @ CHR 0x22 # word @ [CHR 0x22])"
proof -
  have e: "we_picture_dir sample_env" "we_upload sample_env" "\<not> hertUtil_IsInFile (we_hertchstest sample_env) ''DEBUG''"
    by (simp_all add: sample_env_def hertUtil_IsInFile_def)
  have a: "w_acts (sample_world [] []) = []" by (simp add: sample_world_def Let_def)
  have l: "length ''/media/sda1'' < 24" "2 * length ''/media/sda1'' + length (escape_backquote ''../../../etc/passwd'') + 38 < 128"
    unfolding sample_names(3) by simp_all
  obtain w' word where "websHertAppPro_UploadImg sample_env (UPLOAD_IMG_TAG @ ''Li4vLi4vLi4vZXRjL3Bhc3N3ZA=='') (sample_world [] []) = Inr w'"
    "dq_word word = Some ''../../../etc/passwd''"
    "hd (w_acts w') = Cmd (''cp '' @ upload_path ''/media/sda1'' @ CHR '' '' # ''/media/sda1'' @ ''/picture/'' @ CHR 0x22 # word @ [CHR 0x22])"
    using upload_stores_under_name [OF sample_name_code sample_names(1,2) sample_partition(1) [folded sample_disks_env] l e,
        of "sample_world [] []" "[]"] unfolding a append_Nil by (metis list.sel(1) append_Cons)
  moreover have "''cp '' @ upload_path ''/media/sda1'' @ CHR '' '' # ''/media/sda1'' @ ''/picture/'' @ u =
      ''cp /media/sda1/picture/uploading_file /media/sda1/picture/'' @ u" for u
    by (simp add: upload_path_def)
  ultimately show ?thesis by metis
qed

lemma download_serves_file_witness:
  "\<exists>w'. websHertAppHandler (sample_env\<lparr>we_image := (\<lambda>f. if f = ''/media/sda1/picture/../../../etc/passwd'' then Some ''root:x:0:0'' else None)\<rparr>)
      (DOWNLOAD_IMG_TAG @ ''Li4vLi4vLi4vZXRjL3Bhc3N3ZA=='') [] (sample_world [] []) = Inr w' \<and>
    concat (map (\<lambda>a. case a of Send b \<Rightarrow> b | _ \<Rightarrow> []) (w_acts w')) = ''root:x:0:0''"
proof -
  let ?e = "sample_env\<lparr>we_image := (\<lambda>f. if f = ''/media/sda1/picture/../../../etc/passwd'' then Some ''root:x:0:0'' else None)\<rparr>"
  have u: "\<not> has_text UPLOAD_IMG_TAG (DOWNLOAD_IMG_TAG @ ''Li4vLi4vLi4vZXRjL3Bhc3N3ZA=='')" by code_simp
  have d: "hretUtil_GetUSBPartitionName (we_disks ?e) 32 = Inr ''/media/sda1''" using sample_partition(2) sample_disks_env by simp
  have i: "we_image ?e (''/media/sda1'' @ ''/picture/'' @ ''../../../etc/passwd'') = Some ''root:x:0:0''" by simp
  obtain w' blocks where "websHertAppHandler ?e (DOWNLOAD_IMG_TAG @ ''Li4vLi4vLi4vZXRjL3Bhc3N3ZA=='') [] (sample_world [] []) = Inr w'"
    "w_acts w' = w_acts (sample_world [] []) @ map Send blocks" "concat blocks = ''root:x:0:0''"
    using download_serves_file [OF sample_name_code sample_names(2) u d _ i, of "[]" "sample_world [] []"]
    by (auto simp: MAX_IMG_SIZE_def)
  moreover have "w_acts (sample_world [] []) = []" by (simp add: sample_world_def Let_def)
  ultimately show ?thesis by (simp add: comp_def)
qed

text \<open>A firmware that is there after three seconds.\<close>

definition upgrade_env :: web_env where
  "upgrade_env = sample_env\<lparr>we_upgradeinfo := Some 1, we_fmdown := (\<lambda>n. if n = 3 then Some ''successdownfm'' else None)\<rparr>"

lemma upgrade_ends_with_result_witness:
  "\<exists>w'. websHertAppHandler upgrade_env sample_url (upgrade_request ''8'' ''1.0'') (sample_world [] []) = Inr w' \<and> w_upgradeState w' = 1"
proof -
  let ?w = "sample_world [] []"
  have "field_ok (FStr ''routerVersion'' ''1.0'')" by code_simp
  moreover have "hertUtil_getHerouteUpImg (Some (printed ''HE_ROUTE_UPIMAG'' ?w)) \<noteq> 1"
  proof -
    have "printed ''HE_ROUTE_UPIMAG'' ?w = [CHR 0x0A]" by (simp add: printed_def sample_world_def Let_def)
    moreover have "hertUtil_getHerouteUpImg (Some [CHR 0x0A]) \<noteq> 1" by code_simp
    ultimately show ?thesis by simp
  qed
  moreover have "w_upgradeState ?w \<noteq> 1" "we_upgradeinfo upgrade_env = Some 1" "(1 :: byte) \<noteq> 0"
    by (simp_all add: sample_world_def upgrade_env_def Let_def)
  moreover have "fm_result (Some ''successdownfm'') = Some HERT_ERR_UPGRADE_PROCESS" "fm_result None = None" by (code_simp, code_simp)
  then have "fm_result (we_fmdown upgrade_env 3) = Some HERT_ERR_UPGRADE_PROCESS"
    "\<forall>j < 3. fm_result (we_fmdown upgrade_env j) = None"
    by (simp_all add: upgrade_env_def)
  ultimately show ?thesis
    using upgrade_ends_with_result [OF sample_macs(4) sample_url_ok, of "''1.0''" ?w upgrade_env 1] by fastforce
qed

text \<open>Two pictures.\<close>

definition picture_env :: web_env where
  "picture_env = sample_env\<lparr>we_pictures := Some (''a.jpg'' @ CHR 0x0A # ''b.jpg'' @ [CHR 0x0A])\<rparr>"

definition picture_world :: web_world where
  "picture_world = (sample_world [] [])\<lparr>w_glob := (w_glob (sample_world [] []))\<lparr>currMsgType := ''MSG_GET_IMG_LIST_REQ''\<rparr>\<rparr>"

lemma picture_list_is_whole_witness:
  "\<exists>w'. websHertAppPro_GeUpDownloadList picture_env ''{}'' picture_world = Inr w' \<and>
    concat (map (\<lambda>a. case a of Send b \<Rightarrow> b | _ \<Rightarrow> []) (w_acts w')) =
    ''{\"version\":0,\"msgSeq\":\"\",\"errorCode\":0,\"msgType\":\"MSG_GET_IMG_LIST_RSP\",\"imgList\":[{\"picUrl\":\"http://192.168.8.1:80/herouter/AppRequest/DownloadIMG/a.jpg\",\"smallPicUrl\":\"empty\"},{\"picUrl\":\"http://192.168.8.1:80/herouter/AppRequest/DownloadIMG/b.jpg\",\"smallPicUrl\":\"empty\"}],\"imgCount\":2}''"
proof -
  let ?r = "\<lparr>req_version = 0, req_msgSeq = []\<rparr>"
  have g: "currMsgType (w_glob picture_world) = ''MSG_GET_IMG_LIST_REQ''" "w_acts picture_world = []"
    by (simp_all add: picture_world_def sample_world_def Let_def)
  have "req_init ''MSG_GET_IMG_LIST_REQ'' = NoVar" "type_ok ''MSG_GET_IMG_LIST_REQ''" "web_items ''{}'' = []" "strstr ''{}'' ''}={'' = None"
    by (code_simp, code_simp, simp add: web_items_None, simp)
  then have p: "websHertAppPro_ParseMsgReq (we_mem picture_env) 64 ''{}'' (w_glob picture_world) = Inr (0, w_glob picture_world, ?r, NoVar)"
    using parse_request [OF g(1)] by simp
  have l: "fgets_lines 130 (''a.jpg'' @ CHR 0x0A # ''b.jpg'' @ [CHR 0x0A]) = [''a.jpg'' @ [CHR 0x0A], ''b.jpg'' @ [CHR 0x0A]]" by code_simp
  have e: "hertUtil_isStorageExist (we_scsi picture_env)" "we_disks picture_env = sample_disks" "we_lan_ip picture_env = Some ''192.168.8.1''"
    "we_mem picture_env" "we_pictures picture_env = Some (''a.jpg'' @ CHR 0x0A # ''b.jpg'' @ [CHR 0x0A])"
  proof -
    show "hertUtil_isStorageExist (we_scsi picture_env)"
    proof -
      have "hertUtil_isStorageExist (Some ''Host: scsi0'')" by code_simp
      then show ?thesis by (simp add: picture_env_def sample_env_def)
    qed
  qed (simp_all add: picture_env_def sample_env_def sample_disks_def)
  have h: "pics_head ?r = ''{\"version\":0,\"msgSeq\":\"\",\"errorCode\":0,\"msgType\":\"MSG_GET_IMG_LIST_RSP\",\"imgList\":[''"
    by code_simp
  have o: "steps_text (objects_steps True (map (pic_object \<circ> picUrl_of ''192.168.8.1'') [''a.jpg'' @ [CHR 0x0A], ''b.jpg'' @ [CHR 0x0A]])) =
      ''{\"picUrl\":\"http://192.168.8.1:80/herouter/AppRequest/DownloadIMG/a.jpg\",\"smallPicUrl\":\"empty\"},{\"picUrl\":\"http://192.168.8.1:80/herouter/AppRequest/DownloadIMG/b.jpg\",\"smallPicUrl\":\"empty\"}''"
    by code_simp
  have n: "snprintf_into 64 ('',\"imgCount\":'' @ show_int (int (length [''a.jpg'' @ [CHR 0x0A], ''b.jpg'' @ [CHR 0x0A]]))) = '',\"imgCount\":2''"
    by code_simp
  obtain w' as parts where w: "websHertAppPro_GeUpDownloadList picture_env ''{}'' picture_world = Inr w'"
    "w_acts w' = as @ map Send parts" "\<forall>t. Send t \<notin> set as"
    "concat parts = pics_head ?r @ steps_text (objects_steps True (map (pic_object \<circ> picUrl_of ''192.168.8.1'')
      [''a.jpg'' @ [CHR 0x0A], ''b.jpg'' @ [CHR 0x0A]])) @ '']'' @
      snprintf_into 64 ('',\"imgCount\":'' @ show_int (int (length [''a.jpg'' @ [CHR 0x0A], ''b.jpg'' @ [CHR 0x0A]]))) @ ''}''"
    using picture_list_is_whole [OF p e(1) sample_partition(3) [folded e(2)] e(5,3,4)] unfolding l g(2) by auto
  have "concat (map (\<lambda>a. case a of Send b \<Rightarrow> b | _ \<Rightarrow> []) as) = []" using w(3) by (auto split: web_act.split)
  moreover have "concat (map (\<lambda>a. case a of Send b \<Rightarrow> b | _ \<Rightarrow> []) (map Send parts)) = concat parts" by (simp add: comp_def)
  ultimately show ?thesis using w(1,2) unfolding w(4) h o n by simp
qed

end
