(* ===== verification/WebThread.thy ===== *)
theory WebThread
  imports WebDevice WebGuest AccessRules
begin

text \<open>
  The status thread of the web server (goahead/src/goahead.c, Update_Router_Status_Thread, with
  herUtil_checkWps of heroute_util.c): every three seconds it looks after the watchdog, takes over what
  the watchdog found out about the internet, upgrades a firmware that is there, and ends WPS and the
  guests' time.  T77 and RTDEV_SUPPORT are not defined.
\<close>

section \<open>State\<close>

text \<open>The counters of the thread, which are static or local variables, and what a pass reads.\<close>

record thread_state =
  iMonitorCount :: int
  nLastState :: int
  nCloseWpsCount :: int
  th_nWanTimes :: int
  th_nWanCount :: int
  inerRuleLpcount :: int

record thread_env =
  te_hertmtcnt :: "string option"
  te_hertmtrst :: "string option"
  te_portStatus :: string
  te_wan_ip :: "string option"
  te_pppoe_status :: "string option"
  te_webspingsts :: "string option"
  te_upgraderesult :: "nat \<Rightarrow> string option"
  te_uptime :: int
  te_iptables :: "string option"
  te_now :: int

definition thread_start :: "string option \<Rightarrow> thread_state" where
  "thread_start wan = \<lparr>iMonitorCount = 0, nLastState = - 1, nCloseWpsCount = 0,
     th_nWanTimes = c_div (hertUtil_getWanDectTime wan) 3, th_nWanCount = 0, inerRuleLpcount = 1\<rparr>"

definition cmds :: "string list \<Rightarrow> web_world \<Rightarrow> web_world" where
  "cmds = acts_on \<circ> map Cmd"

section \<open>The watchdog\<close>

text \<open>A text of 512 bytes without an end: a search that does not succeed in it runs on.\<close>

definition find_buf :: "nat \<Rightarrow> string \<Rightarrow> string \<Rightarrow> fault + string option" where
  "find_buf len s p = (case strstr s p of
       Some t \<Rightarrow> Inr (Some (drop (length p) t))
     | None \<Rightarrow> if 512 \<le> len then Inl ReadOverrun else Inr None)"

fun find_times :: "nat \<Rightarrow> nat \<Rightarrow> string \<Rightarrow> string \<Rightarrow> fault + bool" where
  "find_times len 0 s p = Inr True"
| "find_times len (Suc k) s p = rbind (find_buf len s p) (\<lambda>r. case r of None \<Rightarrow> Inr False | Some t \<Rightarrow> find_times len k t p)"

definition restart_monitor :: "string list" where
  "restart_monitor = [''killall hertMonitor'', ''killall hertMonitor'', ''hertMonitor&'']"

text \<open>
  Every thirtieth pass counts the watchdog's threads: more than three are one watchdog too many.  The
  other passes look for the watchdog's own request to be started again.
\<close>

definition DoGetMonitorCheck :: "thread_env \<Rightarrow> thread_state \<times> web_world \<Rightarrow> fault + thread_state \<times> web_world" where
  "DoGetMonitorCheck e tw =
     (let (t, w) = tw; n = iMonitorCount t + 1;
          requested = (\<lambda>t w. case te_hertmtrst e of
              None \<Rightarrow> Inr (t, w)
            | Some s \<Rightarrow> rbind (find_buf (length s) (take 512 s) ''restart'') (\<lambda>r.
                Inr (case r of None \<Rightarrow> (t, w) | Some _ \<Rightarrow> (t\<lparr>iMonitorCount := 0\<rparr>, cmds restart_monitor w))))
      in if 30 \<le> n then
           (let t = t\<lparr>iMonitorCount := 0\<rparr>; w = cmds [''ps | grep hertMonitor > /var/hertmtcnt''] w in
            (case te_hertmtcnt e of
               None \<Rightarrow> Inr (t, w)
             | Some s \<Rightarrow> rbind (find_times (length s) 3 (take 512 s) ''S    hertMonitor'') (\<lambda>three.
                 if \<not> three then Inr (t, w)
                 else rbind (find_times (length s) 4 (take 512 s) ''S    hertMonitor'') (\<lambda>four.
                   if four then Inr (t, cmds restart_monitor w) else requested t w))))
         else requested (t\<lparr>iMonitorCount := n\<rparr>) w)"

section \<open>The state of the network\<close>

definition pass_fail :: "bool \<Rightarrow> string" where
  "pass_fail b = (if b then ''pass'' else ''fail'')"

definition hertUtil_upEthrtPortStatus :: "string \<Rightarrow> network_status \<Rightarrow> network_status" where
  "hertUtil_upEthrtPortStatus ports n =
     (let up = (\<lambda>i. pass_fail (i < length ports \<and> ports ! i = CHR ''u'')) in
      if ports = [] then n else n\<lparr>wanPortStatus := up 0, lan1PortStatus := up 1, lan2PortStatus := up 2\<rparr>)"

text \<open>None: the interface has no address.\<close>

definition upWanIp :: "string option \<Rightarrow> network_status \<Rightarrow> network_status" where
  "upWanIp addr n = n\<lparr>WanIpStatus := pass_fail (\<not> says ''fail'' (wanPortStatus n) \<and> (case addr of
     None \<Rightarrow> False | Some a \<Rightarrow> a \<noteq> ''0.0.0.0'' \<and> a \<noteq> ''255.255.255.255'' \<and> a \<noteq> []))\<rparr>"

text \<open>A line in the file of the dial-up: the whole of the state is cleared from its last member on.\<close>

definition upPPPStatus :: "string option \<Rightarrow> web_world \<Rightarrow> fault + web_world" where
  "upPPPStatus f w = (case f of
       None \<Rightarrow> Inr w
     | Some s \<Rightarrow> if s \<noteq> [] then Inl WriteOverflow else Inr (act (Call ''unlink /var/pppoe_status'') w))"

definition IsNoNeedPing :: "thread_env \<Rightarrow> web_world \<Rightarrow> bool \<times> web_world" where
  "IsNoNeedPing e w =
     (if wanPortStatus (w_net w) = ''fail'' \<or> WanIpStatus (w_net w) = ''fail'' then (True, cmds [''echo NO_PING > /var/needping''] w)
      else (\<not> hertUtil_IsInFile (te_webspingsts e) ''pass'', cmds [''echo NEED_PING > /var/needping''] w))"

definition Update_Router_LED :: "int \<Rightarrow> thread_state \<times> web_world \<Rightarrow> thread_state \<times> web_world" where
  "Update_Router_LED n tw =
     (let (t, w) = tw; led = (\<lambda>v. [''reg s 0xb0000600'', ''reg w 24 ff8079'', ''reg s 0xb0000600'', ''reg w 20 '' @ v]) in
      (t\<lparr>nLastState := n\<rparr>,
       if n = nLastState t then w
       else if n = 1 then cmds (led ''387f87'') w
       else if n = 2 then cmds (led ''347f87'' @ (if atoi (w_cache w ''timeSetMode'') = 1 then [''ntp.sh''] else [])) w
       else if n = 3 then cmds (led ''3c7f87'') w
       else w))"

definition update_status :: "thread_env \<Rightarrow> thread_state \<times> web_world \<Rightarrow> fault + thread_state \<times> web_world" where
  "update_status e tw =
     (let (t, w) = tw;
          w = w\<lparr>w_net := upWanIp (te_wan_ip e) (hertUtil_upEthrtPortStatus (te_portStatus e) (w_net w))\<rparr>
      in rbind (upPPPStatus (te_pppoe_status e) w) (\<lambda>w.
           let (no, w) = IsNoNeedPing e w;
               w = cmds [if no then ''echo failed > /var/wannetpingsts'' else ''echo pass > /var/wannetpingsts'']
                 (w\<lparr>w_net := (w_net w)\<lparr>pingStatus := pass_fail (\<not> no)\<rparr>\<rparr>);
               (t, w) = Update_Router_LED (if no then 1 else 2) (t, w)
           in Inr (t\<lparr>th_nWanCount := 0\<rparr>, w)))"

section \<open>Upgrade, WPS\<close>

text \<open>The wait for the upgrade: the program writes its result, which may be never.\<close>

partial_function (option) upgrade_wait :: "(nat \<Rightarrow> string option) \<Rightarrow> nat \<Rightarrow> bool option" where
  "upgrade_wait f n =
     (if hertUtil_IsInFile (f n) ''success'' then Some True
      else if hertUtil_IsInFile (f n) ''failed'' then Some False
      else upgrade_wait f (n + 1))"

definition DoUpgrade :: "thread_env \<Rightarrow> web_world \<Rightarrow> fault + web_world" where
  "DoUpgrade e w =
     (if w_upgradeState w \<noteq> 1 then Inr w
      else (let w = cmds [''/etc_ro/web/cgi-bin/upload.cgi > /var/upgraderet''] w in
        (case upgrade_wait (te_upgraderesult e) 0 of
           None \<Rightarrow> Inl Blocked
         | Some done \<Rightarrow> Inr ((if done then cmds [''nvram_set HE_ROUTE_UPIMAG 1'', ''echo sleep 3'', ''sleep 3'', ''echo reboot'', ''reboot'']
               (w\<lparr>w_flash := (w_flash w)(''HE_ROUTE_UPIMAG'' := ''1'')\<rparr>) else w)\<lparr>w_upgradeState := 0\<rparr>))))"

definition herUtil_checkWps :: "thread_state \<times> web_world \<Rightarrow> thread_state \<times> web_world" where
  "herUtil_checkWps tw =
     (let (t, w) = tw in
      if w_wpsState w \<noteq> 2 then (t, w)
      else if nCloseWpsCount t + 1 = 20 then
        (t\<lparr>nCloseWpsCount := 0\<rparr>, cmds [''iwpriv ra0 set WscConfMode=0 1>/dev/null 2>&1'',
           ''route delete 239.255.255.250 1>/dev/null 2>&1''] (w\<lparr>w_wpsState := 0\<rparr>))
      else (t\<lparr>nCloseWpsCount := nCloseWpsCount t + 1\<rparr>, w))"

section \<open>A pass\<close>

definition inter_rules :: "thread_env \<Rightarrow> thread_state \<times> web_world \<Rightarrow> fault + thread_state \<times> web_world" where
  "inter_rules e tw =
     (let (t, w) = tw in
      if inerRuleLpcount t + 1 < 2 then Inr (t\<lparr>inerRuleLpcount := inerRuleLpcount t + 1\<rparr>, w)
      else rbind (herUtil_updateInterRules (printed ''InternetRules'' w) (te_iptables e) (te_now e) (w_table w)) (\<lambda>(cs, arr).
        Inr (t\<lparr>inerRuleLpcount := 0\<rparr>, cmds cs (w\<lparr>w_table := arr\<rparr>))))"

definition status_round :: "thread_env \<Rightarrow> thread_state \<times> web_world \<Rightarrow> fault + thread_state \<times> web_world" where
  "status_round e tw =
     (let (t, w) = tw; t = t\<lparr>th_nWanCount := th_nWanCount t + 1\<rparr> in
      if th_nWanTimes t \<le> th_nWanCount t then update_status e (t, w) else Inr (t, w))"

definition status_pass :: "thread_env \<Rightarrow> thread_state \<times> web_world \<Rightarrow> fault + thread_state \<times> web_world" where
  "status_pass e tw =
     rbind (DoGetMonitorCheck e tw) (\<lambda>tw.
     rbind (status_round e tw) (\<lambda>(t, w).
     rbind (DoUpgrade e w) (\<lambda>w.
       let (t, w) = herUtil_checkWps (t, w) in
       rbind (herUtil_isCloseGuestSsid (te_uptime e) w) (\<lambda>w. inter_rules e (t, w)))))"

end
