(* ===== verification/WebThreadProps.thy ===== *)
theory WebThreadProps
  imports WebThread MonitorProps WebRules
begin

text \<open>
  What the status thread does over its passes: the end of the guests' time and of WPS, the watchdog's
  requests, and, together with the watchdog, when the router says that it reaches the internet.
\<close>

section \<open>What the parts of a pass leave alone\<close>

lemma cmds_simps [simp]:
  "w_cache (cmds cs w) = w_cache w" "w_flash (cmds cs w) = w_flash w" "w_net (cmds cs w) = w_net w"
  "w_wpsState (cmds cs w) = w_wpsState w" "w_acts (cmds cs w) = w_acts w @ map Cmd cs"
  "w_upgradeState (cmds cs w) = w_upgradeState w" "w_table (cmds cs w) = w_table w"
  by (simp_all add: cmds_def acts_on_def)

lemma act_simps [simp]:
  "w_cache (act a w) = w_cache w" "w_flash (act a w) = w_flash w" "w_net (act a w) = w_net w"
  "w_wpsState (act a w) = w_wpsState w" "w_acts (act a w) = w_acts w @ [a]"
  "w_upgradeState (act a w) = w_upgradeState w" "w_table (act a w) = w_table w"
  by (simp_all add: act_def)

text \<open>The settings and the states of a world stay; actions may be added.\<close>

definition same_device :: "web_world \<Rightarrow> web_world \<Rightarrow> bool" where
  "same_device w w' = (w_cache w' = w_cache w \<and> w_wpsState w' = w_wpsState w \<and> w_upgradeState w' = w_upgradeState w \<and>
     w_table w' = w_table w \<and> (\<exists>as. w_acts w' = w_acts w @ as))"

lemma same_device_refl [simp]: "same_device w w"
  by (simp add: same_device_def)

lemma same_device_trans: "same_device u v \<Longrightarrow> same_device v w \<Longrightarrow> same_device u w"
  by (auto simp: same_device_def)

lemma same_device_cmds [simp]: "same_device w (cmds cs w)"
  by (simp add: same_device_def)

lemma monitor_check_keeps:
  assumes "DoGetMonitorCheck e (t, w) = Inr (t', w')"
  shows "same_device w w' \<and> w_net w' = w_net w \<and> nCloseWpsCount t' = nCloseWpsCount t"
  using assms by (auto simp: DoGetMonitorCheck_def Let_def rbind_eq_Inr same_device_def split: if_splits option.splits)

lemma ppp_keeps: "upPPPStatus f w = Inr w' \<Longrightarrow> same_device w w'"
  by (auto simp: upPPPStatus_def same_device_def split: option.splits if_splits)

lemma no_ping_keeps:
  assumes "IsNoNeedPing e w = (no, w')"
  shows "same_device w w' \<and> (\<not> no \<longrightarrow> hertUtil_IsInFile (te_webspingsts e) ''pass'')"
  using assms
  by (cases "wanPortStatus (w_net w) = ''fail'' \<or> WanIpStatus (w_net w) = ''fail''") (auto simp: IsNoNeedPing_def)

lemma led_keeps:
  assumes "Update_Router_LED n (t, w) = (t', w')"
  shows "t' = t\<lparr>nLastState := n\<rparr> \<and> same_device w w' \<and> w_net w' = w_net w"
  using assms by (auto simp: Update_Router_LED_def Let_def split: if_splits)

lemma not_pass_fail: "\<not> says ''pass'' ''fail''"
  by code_simp

lemma update_status_keeps:
  assumes "update_status e (t, w) = Inr (t', w')"
  shows "same_device w w' \<and> nCloseWpsCount t' = nCloseWpsCount t \<and> iMonitorCount t' = iMonitorCount t \<and>
    (says ''pass'' (pingStatus (w_net w')) \<longrightarrow> hertUtil_IsInFile (te_webspingsts e) ''pass'')"
proof -
  define w1 where "w1 = w\<lparr>w_net := upWanIp (te_wan_ip e) (hertUtil_upEthrtPortStatus (te_portStatus e) (w_net w))\<rparr>"
  obtain w2 where w2: "upPPPStatus (te_pppoe_status e) w1 = Inr w2"
    using assms by (auto simp: update_status_def Let_def rbind_eq_Inr w1_def)
  obtain no w3 where w3: "IsNoNeedPing e w2 = (no, w3)" by (cases "IsNoNeedPing e w2")
  define w4 where "w4 = cmds [if no then ''echo failed > /var/wannetpingsts'' else ''echo pass > /var/wannetpingsts'']
    (w3\<lparr>w_net := (w_net w3)\<lparr>pingStatus := pass_fail (\<not> no)\<rparr>\<rparr>)"
  obtain t5 w5 where w5: "Update_Router_LED (if no then 1 else 2) (t, w4) = (t5, w5)"
    by (cases "Update_Router_LED (if no then 1 else 2) (t, w4)")
  have end_state: "t' = t5\<lparr>th_nWanCount := 0\<rparr>" "w' = w5"
    using assms w2 w3 w5 by (simp_all add: update_status_def Let_def w1_def w4_def)
  have "same_device w w1" "same_device w3 w4" "pingStatus (w_net w4) = pass_fail (\<not> no)"
    by (simp_all add: w1_def w4_def same_device_def)
  then show ?thesis
    using ppp_keeps [OF w2] no_ping_keeps [OF w3] led_keeps [OF w5] end_state not_pass_fail
    by (auto simp: pass_fail_def same_device_def split: if_splits)
qed

lemma status_round_keeps:
  assumes "status_round e (t, w) = Inr (t', w')"
  shows "same_device w w' \<and> nCloseWpsCount t' = nCloseWpsCount t \<and> iMonitorCount t' = iMonitorCount t \<and>
    (says ''pass'' (pingStatus (w_net w')) \<longrightarrow> says ''pass'' (pingStatus (w_net w)) \<or> hertUtil_IsInFile (te_webspingsts e) ''pass'')"
  using assms update_status_keeps [of e "t\<lparr>th_nWanCount := th_nWanCount t + 1\<rparr>" w t' w']
  by (auto simp: status_round_def Let_def split: if_splits)

lemma upgrade_keeps:
  assumes "DoUpgrade e w = Inr w'"
  shows "w_cache w' = w_cache w \<and> w_wpsState w' = w_wpsState w \<and> w_net w' = w_net w \<and> (\<exists>as. w_acts w' = w_acts w @ as)"
  using assms by (auto simp: DoUpgrade_def Let_def split: if_splits option.splits)

lemma inter_rules_keeps:
  assumes "inter_rules e (t, w) = Inr (t', w')"
  shows "w_cache w' = w_cache w \<and> w_flash w' = w_flash w \<and> w_wpsState w' = w_wpsState w \<and> w_net w' = w_net w \<and>
    w_upgradeState w' = w_upgradeState w \<and>
    nCloseWpsCount t' = nCloseWpsCount t \<and> iMonitorCount t' = iMonitorCount t \<and> (\<exists>as. w_acts w' = w_acts w @ as)"
  using assms by (auto simp: inter_rules_def Let_def rbind_eq_Inr split: if_splits)

text \<open>Operations on settings: they change the cache, flash and the list of actions only.\<close>

definition only_settings :: "web_world \<Rightarrow> web_world \<Rightarrow> bool" where
  "only_settings w w' = (w_net w' = w_net w \<and> w_wpsState w' = w_wpsState w \<and>
     w_upgradeState w' = w_upgradeState w \<and> w_table w' = w_table w \<and> (\<exists>as. w_acts w' = w_acts w @ as))"

lemma only_settings_refl [simp]: "only_settings w w"
  by (simp add: only_settings_def)

lemma only_settings_trans: "only_settings u v \<Longrightarrow> only_settings v w \<Longrightarrow> only_settings u w"
  by (auto simp: only_settings_def)

lemma only_settings_bufset [simp]: "only_settings w (bufset n v w)"
  by (simp add: only_settings_def bufset_def)

lemma only_settings_bufsets [simp]: "only_settings w (bufsets xs w)"
proof (induction xs arbitrary: w)
  case (Cons x xs)
  then show ?case by (cases x) (auto intro: only_settings_trans [OF only_settings_bufset])
qed simp

lemma only_settings_inits: "mbss_inits k l fds w = Inr w' \<Longrightarrow> only_settings w w'"
proof (induction fds arbitrary: w)
  case (Cons fd fds)
  then obtain w1 where "mbss_init k l fd w = Inr w1" "only_settings w1 w'" by (auto simp: rbind_eq_Inr)
  moreover from this(1) have "only_settings w w1" by (auto simp: mbss_init_def rbind_eq_Inr)
  ultimately show ?case by (blast intro: only_settings_trans)
qed simp

lemma only_settings_remove: "only_settings w (fold (mbss_remove k) ns w)"
proof (induction ns arbitrary: w)
  case (Cons n ns)
  have "only_settings w (mbss_remove k n w)" by (simp add: mbss_remove_def Let_def)
  then show ?case using Cons by (simp, blast intro: only_settings_trans)
qed simp

lemma only_settings_revise: "revise_mbss_value k l w = Inr w' \<Longrightarrow> only_settings w w'"
  by (auto simp: revise_mbss_value_def rbind_eq_Inr split: if_splits
      intro: only_settings_trans [OF only_settings_inits only_settings_bufsets]
        only_settings_trans [OF only_settings_remove only_settings_bufsets])

text \<open>The guests' network when its time is over, and the two ways through the clock.\<close>

definition guests_gone :: "int \<Rightarrow> web_world \<Rightarrow> web_world" where
  "guests_gone cur w = (if 2 \<le> atoi (w_cache w ''BssidNum'') then bufsets [(''SSID2'', []), (''BssidNum'', ''1'')] else id)
     (w\<lparr>w_remainTime := word_of_int (atoi (w_cache w ''GuestOpenTime'') * 60 -
       c_div (int32 (cur - atoi (w_cache w ''GuestStartTime''))) 60)\<rparr>)"

definition time_over :: "int \<Rightarrow> web_world \<Rightarrow> bool" where
  "time_over cur w = (atoi (w_cache w ''GuestOpenTime'') \<notin> {- 1, 0} \<and> atoi (w_cache w ''GuestStartTime'') \<le> cur \<and>
     atoi (w_cache w ''GuestOpenTime'') \<le> c_div (int32 (cur - atoi (w_cache w ''GuestStartTime''))) 3600)"

lemma clock_over:
  assumes "time_over cur w"
  shows "herUtil_isCloseGuestSsid cur w =
    rbind (revise_mbss_value (atoi (w_cache w ''BssidNum'')) (atoi (w_cache (guests_gone cur w) ''BssidNum'')) (guests_gone cur w))
      (\<lambda>w. Inr (act (Call ''initInternet'') (commit (bufsets [(''GuestOpenTime'', ''0''), (''GuestStartTime'', ''0'')] w))))"
  using assms by (simp add: herUtil_isCloseGuestSsid_def Let_def guests_gone_def time_over_def)

lemma clock_goes:
  assumes "\<not> time_over cur w"
  shows "\<exists>w'. herUtil_isCloseGuestSsid cur w = Inr w' \<and> only_settings w w' \<and>
    (atoi (w_cache w ''GuestStartTime'') \<le> cur \<longrightarrow> w_cache w' = w_cache w \<and> w_flash w' = w_flash w)"
proof -
  have r: "only_settings w (w\<lparr>w_remainTime := x\<rparr>)" for w x by (simp add: only_settings_def)
  show ?thesis using assms by (auto simp: herUtil_isCloseGuestSsid_def Let_def time_over_def r)
qed

lemma only_settings_clock:
  assumes ok: "herUtil_isCloseGuestSsid cur w = Inr w'"
  shows "only_settings w w'"
proof (cases "time_over cur w")
  case False
  show ?thesis using clock_goes [OF False] ok by auto
next
  case True
  have c: "only_settings w (act (Call ''initInternet'') (commit w))" for w
    by (simp add: only_settings_def commit_def)
  let ?w = "guests_gone cur w"
  obtain v where v: "revise_mbss_value (atoi (w_cache w ''BssidNum'')) (atoi (w_cache ?w ''BssidNum'')) ?w = Inr v"
    and w': "w' = act (Call ''initInternet'') (commit (bufsets [(''GuestOpenTime'', ''0''), (''GuestStartTime'', ''0'')] v))"
    using ok [unfolded clock_over [OF True] rbind_eq_Inr] by blast
  have "only_settings w (w\<lparr>w_remainTime := x\<rparr>)" for x by (simp add: only_settings_def)
  then have "only_settings w ?w"
    unfolding guests_gone_def by (auto intro: only_settings_trans [OF _ only_settings_bufsets] simp del: bufsets.simps)
  moreover have "only_settings ?w v" by (rule only_settings_revise [OF v])
  moreover have "only_settings v w'" unfolding w' by (rule only_settings_trans [OF only_settings_bufsets c])
  ultimately show ?thesis by (blast intro: only_settings_trans)
qed

section \<open>Passes that return\<close>

text \<open>What a pass reads is shorter than its arrays, and no line of the dial-up waits.\<close>

definition harmless :: "thread_env \<Rightarrow> bool" where
  "harmless e = (pred_option (\<lambda>s. length s < 512) (te_hertmtcnt e) \<and> pred_option (\<lambda>s. length s < 512) (te_hertmtrst e) \<and>
     pred_option (\<lambda>s. s = []) (te_pppoe_status e))"

text \<open>No firmware waits, and the table of the rules is filled.\<close>

definition calm :: "web_world \<Rightarrow> bool" where
  "calm w = (w_upgradeState w \<noteq> 1 \<and> hd (w_table w) \<noteq> [])"

lemma find_times_ends: "len < 512 \<Longrightarrow> \<exists>b. find_times len k s p = Inr b"
  by (induction k arbitrary: s) (auto simp: find_buf_def split: option.splits)

definition asks_restart :: "thread_env \<Rightarrow> bool" where
  "asks_restart e = (\<exists>s. te_hertmtrst e = Some s \<and> has_text ''restart'' (take 512 s))"

lemma monitor_check_ends:
  assumes "harmless e"
  shows "\<exists>t' w'. DoGetMonitorCheck e (t, w) = Inr (t', w') \<and>
    (asks_restart e \<longrightarrow> iMonitorCount t' = 0 \<and> (iMonitorCount t + 1 < 30 \<longrightarrow> w' = cmds restart_monitor w))"
proof -
  define requested where "requested = (\<lambda>(t :: thread_state) (w :: web_world). case te_hertmtrst e of
              None \<Rightarrow> Inr (t, w)
            | Some s \<Rightarrow> rbind (find_buf (length s) (take 512 s) ''restart'') (\<lambda>r.
                Inr (case r of None \<Rightarrow> (t, w) | Some _ \<Rightarrow> (t\<lparr>iMonitorCount := 0\<rparr>, cmds restart_monitor w))))"
  have r: "\<exists>u v. requested t w = Inr (u, v) \<and> (iMonitorCount t = 0 \<longrightarrow> iMonitorCount u = 0) \<and>
      (asks_restart e \<longrightarrow> iMonitorCount u = 0 \<and> v = cmds restart_monitor w)" for t w
    using assms
    by (auto simp: requested_def find_buf_def harmless_def asks_restart_def has_text_def split: option.splits)
  show ?thesis
  proof (cases "30 \<le> iMonitorCount t + 1")
    case False
    then show ?thesis
      using r [of "t\<lparr>iMonitorCount := iMonitorCount t + 1\<rparr>" w]
      by (auto simp: DoGetMonitorCheck_def Let_def simp flip: requested_def)
  next
    case True
    let ?t = "t\<lparr>iMonitorCount := 0\<rparr>" and ?w = "cmds [''ps | grep hertMonitor > /var/hertmtcnt''] w"
    show ?thesis
    proof (cases "te_hertmtcnt e")
      case None
      then show ?thesis using True by (simp add: DoGetMonitorCheck_def Let_def)
    next
      case (Some s)
      then have "length s < 512" using assms by (simp add: harmless_def)
      then obtain b c where "find_times (length s) 3 (take 512 s) ''S    hertMonitor'' = Inr b"
        "find_times (length s) 4 (take 512 s) ''S    hertMonitor'' = Inr c"
        using find_times_ends by metis
      then show ?thesis
        using True Some r [of ?t ?w] by (auto simp: DoGetMonitorCheck_def Let_def simp flip: requested_def)
    qed
  qed
qed

lemma status_round_ends:
  assumes "harmless e"
  shows "\<exists>t' w'. status_round e (t, w) = Inr (t', w')"
proof -
  have "\<exists>v. upPPPStatus (te_pppoe_status e) u = Inr v" for u
    using assms by (auto simp: upPPPStatus_def harmless_def split: option.splits)
  then have "\<exists>t' w'. update_status e (u, v) = Inr (t', w')" for u v
  proof -
    obtain v1 where v1: "upPPPStatus (te_pppoe_status e) (v\<lparr>w_net := upWanIp (te_wan_ip e)
        (hertUtil_upEthrtPortStatus (te_portStatus e) (w_net v))\<rparr>) = Inr v1"
      using \<open>\<And>u. \<exists>v. upPPPStatus (te_pppoe_status e) u = Inr v\<close> by blast
    show ?thesis by (simp add: update_status_def Let_def v1 split: prod.split)
  qed
  then show ?thesis by (auto simp: status_round_def Let_def)
qed

lemma inter_rules_ends: "calm w \<Longrightarrow> \<exists>t' w'. inter_rules e (t, w) = Inr (t', w') \<and> w_table w' = w_table w"
  by (auto simp: inter_rules_def Let_def herUtil_updateInterRules_def calm_def)

section \<open>The guests' time\<close>

lemma bufsets_stays:
  "\<forall>(m, v) \<in> set xs. m = n \<longrightarrow> v = c \<Longrightarrow> w_cache w n = c \<Longrightarrow> w_cache (bufsets xs w) n = c"
proof (induction xs arbitrary: w)
  case (Cons x xs)
  then show ?case by (cases x) (auto simp: bufset_def)
qed simp

lemma bufsets_dirty: "w_dirty w \<Longrightarrow> w_dirty (bufsets xs w)"
proof (induction xs arbitrary: w)
  case (Cons x xs)
  then show ?case by (cases x) (auto simp: bufset_def)
qed simp

lemma removed_stays:
  "n \<notin> set ns \<Longrightarrow> w_cache (fold (mbss_remove k) ns w) n = w_cache w n"
proof (induction ns arbitrary: w)
  case (Cons m ns)
  then show ?case by (simp add: mbss_remove_def bufset_def Let_def)
qed simp

lemma hd_racat: "s \<noteq> [] \<Longrightarrow> hd (racat s i) = hd s"
  by (cases s) (auto simp: racat_def snprintf_into_def)

text \<open>The values of networks that go: all empty, but for the access policy.\<close>

lemma own_names:
  assumes "(m, v) \<in> set (mbss_own [(''SSID'', []), (''WPAPSK'', [])] i)"
  shows "hd m \<in> {CHR ''S'', CHR ''W'', CHR ''K'', CHR ''A''} \<and> (hd m \<noteq> CHR ''A'' \<longrightarrow> v = [])"
  using assms by (auto simp: mbss_own_def hd_racat)

lemma revise_fewer_values:
  assumes "k < l" and "revise_mbss_value l k w = Inr w'"
  shows "w_cache w ''SSID2'' = [] \<Longrightarrow> w_cache w' ''SSID2'' = []" "w_cache w' ''BssidNum'' = w_cache w ''BssidNum''"
proof -
  let ?xs = "concat (map (mbss_own [(''SSID'', []), (''WPAPSK'', [])]) [k + 1..l])"
  let ?w = "fold (mbss_remove k) mbss_names w"
  have w': "w' = bufsets ?xs ?w" using assms by (simp add: revise_mbss_value_def)
  have n: "hd m \<in> {CHR ''S'', CHR ''W'', CHR ''K'', CHR ''A''} \<and> (hd m \<noteq> CHR ''A'' \<longrightarrow> v = [])" if "(m, v) \<in> set ?xs" for m v
    using that by (auto simp: set_concat dest!: own_names)
  have s: "\<forall>(m, v) \<in> set ?xs. m = ''SSID2'' \<longrightarrow> v = []" "\<forall>(m, v) \<in> set ?xs. m = ''BssidNum'' \<longrightarrow> v = w_cache w ''BssidNum''"
    by (clarify, drule n, simp)+
  have r: "w_cache ?w ''SSID2'' = w_cache w ''SSID2''" "w_cache ?w ''BssidNum'' = w_cache w ''BssidNum''"
    by (rule removed_stays, simp add: mbss_names_def)+
  show "w_cache w' ''BssidNum'' = w_cache w ''BssidNum''"
    unfolding w' by (rule bufsets_stays) (use s r in auto)
  show "w_cache w' ''SSID2'' = []" if "w_cache w ''SSID2'' = []"
    unfolding w' by (rule bufsets_stays) (use s r that in auto)
qed

text \<open>
  The guests' network lasts as many hours as were asked for: from then on the next pass of the clock
  returns with the network's name and time removed and one network left, in flash, and before it no setting changes.
\<close>

theorem guests_time_ends:
  assumes "atoi (w_cache w ''GuestOpenTime'') = hours" and "0 < hours"
    and "atoi (w_cache w ''GuestStartTime'') = begun" and "begun \<le> cur" and "cur - begun < 2 ^ 31"
    and "2 \<le> atoi (w_cache w ''BssidNum'')"
  shows "\<exists>w'. herUtil_isCloseGuestSsid cur w = Inr w' \<and>
    (if hours * 3600 \<le> cur - begun
     then w_flash w' ''SSID2'' = [] \<and> w_flash w' ''BssidNum'' = ''1'' \<and> w_flash w' ''GuestOpenTime'' = ''0'' \<and> w_cache w' = w_flash w'
     else w_cache w' = w_cache w \<and> w_flash w' = w_flash w)"
proof -
  have i: "int32 (cur - begun) = cur - begun"
    using assms(4,5) by (intro int32_id) simp_all
  have over: "hours \<le> c_div (cur - begun) 3600 \<longleftrightarrow> hours * 3600 \<le> cur - begun"
    using assms(4) by (auto simp: c_div_def sgn_if)
  have t: "time_over cur w \<longleftrightarrow> hours * 3600 \<le> cur - begun"
    using assms over by (simp add: time_over_def i)
  have one: "atoi ''1'' = 1" by code_simp
  show ?thesis
  proof (cases "time_over cur w")
    case False
    then show ?thesis using clock_goes [OF False] t assms by auto
  next
    case True
    let ?old = "atoi (w_cache w ''BssidNum'')" and ?w = "guests_gone cur w"
    have w2: "w_cache ?w ''BssidNum'' = ''1''" "w_cache ?w ''SSID2'' = []" "w_dirty ?w"
      using assms(6) by (simp_all add: guests_gone_def bufset_def)
    obtain w3 where w3: "revise_mbss_value ?old 1 ?w = Inr w3"
      using assms(6) by (auto simp: revise_mbss_value_def)
    define w4 where "w4 = bufsets [(''GuestOpenTime'', ''0''), (''GuestStartTime'', ''0'')] w3"
    have "herUtil_isCloseGuestSsid cur w = Inr (act (Call ''initInternet'') (commit w4))"
      unfolding clock_over [OF True] w2(1) one w3 w4_def by simp
    moreover have "w_dirty w4" "w_cache w4 ''SSID2'' = []" "w_cache w4 ''BssidNum'' = ''1''" "w_cache w4 ''GuestOpenTime'' = ''0''"
      using revise_fewer_values [OF _ w3] w2 assms(6) by (simp_all add: w4_def bufset_def)
    ultimately show ?thesis using True t by (simp add: commit_def act_def)
  qed
qed

definition guest_world :: web_world where
  "guest_world = (sample_world [] [])\<lparr>w_cache := (\<lambda>_. [])(''GuestOpenTime'' := ''2'', ''GuestStartTime'' := ''100'',
     ''BssidNum'' := ''2'', ''SSID2'' := ''home_GUEST'')\<rparr>"

lemma guest_world_values:
  "atoi (w_cache guest_world ''GuestOpenTime'') = 2" "atoi (w_cache guest_world ''GuestStartTime'') = 100"
  "atoi (w_cache guest_world ''BssidNum'') = 2"
  by (code_simp, code_simp, code_simp)

theorem guests_time_ends_witness:
  "(\<exists>w'. herUtil_isCloseGuestSsid 7300 guest_world = Inr w' \<and> w_flash w' ''SSID2'' = []) \<and>
    (\<exists>w'. herUtil_isCloseGuestSsid 7299 guest_world = Inr w' \<and> w_cache w' = w_cache guest_world)"
  using guests_time_ends [of guest_world 2 100 7300] guests_time_ends [of guest_world 2 100 7299]
  by (auto simp: guest_world_values)

section \<open>Passes\<close>

lemma clock_ends: "\<exists>w'. herUtil_isCloseGuestSsid cur w = Inr w'"
proof (cases "time_over cur w")
  case True
  have "\<exists>w'. revise_mbss_value l k w = Inr w'" if "k \<le> l" for k l w
    using that by (auto simp: revise_mbss_value_def)
  moreover have "atoi (w_cache (guests_gone cur w) ''BssidNum'') \<le> atoi (w_cache w ''BssidNum'')"
  proof -
    have "atoi ''1'' = 1" by code_simp
    then show ?thesis by (simp add: guests_gone_def bufset_def)
  qed
  ultimately obtain v where "revise_mbss_value (atoi (w_cache w ''BssidNum'')) (atoi (w_cache (guests_gone cur w) ''BssidNum''))
      (guests_gone cur w) = Inr v"
    by blast
  then show ?thesis unfolding clock_over [OF True] by simp
qed (use clock_goes in blast)

lemma pass_parts:
  assumes "status_pass e (t, w) = Inr (t', w')"
  obtains t1 w1 t2 w2 w3 t4 w4 w5 where "DoGetMonitorCheck e (t, w) = Inr (t1, w1)" "status_round e (t1, w1) = Inr (t2, w2)"
    "DoUpgrade e w2 = Inr w3" "herUtil_checkWps (t2, w3) = (t4, w4)" "herUtil_isCloseGuestSsid (te_uptime e) w4 = Inr w5"
    "inter_rules e (t4, w5) = Inr (t', w')"
proof -
  obtain t1 w1 where 1: "DoGetMonitorCheck e (t, w) = Inr (t1, w1)" using assms by (auto simp: status_pass_def rbind_eq_Inr)
  obtain t2 w2 where 2: "status_round e (t1, w1) = Inr (t2, w2)" using assms 1 by (auto simp: status_pass_def rbind_eq_Inr)
  obtain w3 where 3: "DoUpgrade e w2 = Inr w3" using assms 1 2 by (auto simp: status_pass_def rbind_eq_Inr)
  obtain t4 w4 where 4: "herUtil_checkWps (t2, w3) = (t4, w4)" by (cases "herUtil_checkWps (t2, w3)")
  obtain w5 where "herUtil_isCloseGuestSsid (te_uptime e) w4 = Inr w5" "inter_rules e (t4, w5) = Inr (t', w')"
    using assms 1 2 3 4 by (auto simp: status_pass_def rbind_eq_Inr)
  then show thesis using that 1 2 3 4 by blast
qed

lemma wps_step:
  assumes "herUtil_checkWps (t, w) = (t', w')"
  shows "w_cache w' = w_cache w \<and> w_net w' = w_net w \<and> w_table w' = w_table w \<and> w_upgradeState w' = w_upgradeState w \<and>
    iMonitorCount t' = iMonitorCount t \<and> (\<exists>as. w_acts w' = w_acts w @ as)"
  using assms by (auto simp: herUtil_checkWps_def split: if_splits)

definition wps_off :: web_act where
  "wps_off = Cmd ''route delete 239.255.255.250 1>/dev/null 2>&1''"

lemma wps_counts:
  assumes "herUtil_checkWps (t, w) = (t', w')"
  shows "w_wpsState w' = (if w_wpsState w = 2 \<and> nCloseWpsCount t = 19 then 0 else w_wpsState w)"
    "nCloseWpsCount t' = (if w_wpsState w \<noteq> 2 then nCloseWpsCount t else if nCloseWpsCount t = 19 then 0 else nCloseWpsCount t + 1)"
    "w_wpsState w = 2 \<Longrightarrow> nCloseWpsCount t = 19 \<Longrightarrow> wps_off \<in> set (w_acts w')"
  using assms by (auto simp: herUtil_checkWps_def wps_off_def split: if_splits)

lemma pass_wps:
  assumes "status_pass e (t, w) = Inr (t', w')"
  shows "w_wpsState w' = (if w_wpsState w = 2 \<and> nCloseWpsCount t = 19 then 0 else w_wpsState w)"
    "nCloseWpsCount t' = (if w_wpsState w \<noteq> 2 then nCloseWpsCount t else if nCloseWpsCount t = 19 then 0 else nCloseWpsCount t + 1)"
    "w_wpsState w = 2 \<Longrightarrow> nCloseWpsCount t = 19 \<Longrightarrow> wps_off \<in> set (w_acts w')"
    "\<exists>as. w_acts w' = w_acts w @ as"
proof -
  obtain t1 w1 t2 w2 w3 t4 w4 w5 where p: "DoGetMonitorCheck e (t, w) = Inr (t1, w1)" "status_round e (t1, w1) = Inr (t2, w2)"
    "DoUpgrade e w2 = Inr w3" "herUtil_checkWps (t2, w3) = (t4, w4)" "herUtil_isCloseGuestSsid (te_uptime e) w4 = Inr w5"
    "inter_rules e (t4, w5) = Inr (t', w')"
    using pass_parts [OF assms] .
  note k = monitor_check_keeps [OF p(1)] status_round_keeps [OF p(2)] upgrade_keeps [OF p(3)] wps_step [OF p(4)]
    only_settings_clock [OF p(5)] inter_rules_keeps [OF p(6)]
  have b: "w_wpsState w3 = w_wpsState w" "nCloseWpsCount t2 = nCloseWpsCount t" "w_wpsState w' = w_wpsState w4"
    "nCloseWpsCount t' = nCloseWpsCount t4"
    using k by (auto simp: same_device_def only_settings_def)
  have a: "\<exists>as. w_acts w3 = w_acts w @ as" "\<exists>as. w_acts w4 = w_acts w3 @ as" "\<exists>as. w_acts w' = w_acts w4 @ as"
    using k by (auto simp: same_device_def only_settings_def)
  then show "\<exists>as. w_acts w' = w_acts w @ as" by auto
  show "w_wpsState w = 2 \<Longrightarrow> nCloseWpsCount t = 19 \<Longrightarrow> wps_off \<in> set (w_acts w')"
    using wps_counts(3) [OF p(4)] a b by auto
  show "w_wpsState w' = (if w_wpsState w = 2 \<and> nCloseWpsCount t = 19 then 0 else w_wpsState w)"
    "nCloseWpsCount t' = (if w_wpsState w \<noteq> 2 then nCloseWpsCount t else if nCloseWpsCount t = 19 then 0 else nCloseWpsCount t + 1)"
    using wps_counts(1,2) [OF p(4)] b by simp_all
qed

text \<open>A pass that reads what fits returns, and leaves the device calm.\<close>

lemma pass_ends:
  assumes "harmless e" and "calm w"
  shows "\<exists>t' w'. status_pass e (t, w) = Inr (t', w') \<and> calm w'"
proof -
  obtain t1 w1 where 1: "DoGetMonitorCheck e (t, w) = Inr (t1, w1)" using monitor_check_ends [OF assms(1)] by blast
  obtain t2 w2 where 2: "status_round e (t1, w1) = Inr (t2, w2)" using status_round_ends [OF assms(1)] by blast
  have c2: "calm w2"
    using monitor_check_keeps [OF 1] status_round_keeps [OF 2] assms(2) by (simp add: calm_def same_device_def)
  then have 3: "DoUpgrade e w2 = Inr w2" by (simp add: DoUpgrade_def calm_def)
  obtain t4 w4 where 4: "herUtil_checkWps (t2, w2) = (t4, w4)" by (cases "herUtil_checkWps (t2, w2)")
  obtain w5 where 5: "herUtil_isCloseGuestSsid (te_uptime e) w4 = Inr w5" using clock_ends by blast
  have c5: "calm w5"
    using c2 wps_step [OF 4] only_settings_clock [OF 5] by (simp add: calm_def only_settings_def)
  obtain t' w' where 6: "inter_rules e (t4, w5) = Inr (t', w')" "w_table w' = w_table w5"
    using inter_rules_ends [OF c5] by blast
  have "calm w'" using c5 inter_rules_keeps [OF 6(1)] 6(2) by (simp add: calm_def)
  then show ?thesis using 1 2 3 4 5 6 by (simp add: status_pass_def)
qed

lemma passes_wps:
  assumes "\<forall>e \<in> set es. harmless e" and "calm w"
    and "if k < 20 then w_wpsState w = 2 \<and> nCloseWpsCount t = int k else w_wpsState w = 0 \<and> wps_off \<in> set (w_acts w)"
  shows "\<exists>t' w'. run_all status_pass es (t, w) = Inr (t', w') \<and>
    (if k + length es < 20 then w_wpsState w' = 2 else w_wpsState w' = 0 \<and> wps_off \<in> set (w_acts w'))"
  using assms
proof (induction es arbitrary: t w k)
  case Nil
  then show ?case by (auto split: if_splits)
next
  case (Cons e es)
  obtain u v where p: "status_pass e (t, w) = Inr (u, v)" "calm v"
    using pass_ends [of e w t] Cons.prems by auto
  have "if k + 1 < 20 then w_wpsState v = 2 \<and> nCloseWpsCount u = int (k + 1) else w_wpsState v = 0 \<and> wps_off \<in> set (w_acts v)"
    using pass_wps [OF p(1)] Cons.prems(3) by (auto split: if_splits)
  then show ?case using Cons.IH [of v "k + 1" u] Cons.prems(1) p by auto
qed


definition quiet_env :: thread_env where
  "quiet_env = \<lparr>te_hertmtcnt = None, te_hertmtrst = None, te_portStatus = ''up'', te_wan_ip = Some ''10.0.0.9'',
     te_pppoe_status = None, te_webspingsts = Some ''pass'', te_upgraderesult = (\<lambda>_. None), te_uptime = 100,
     te_iptables = None, te_now = 0\<rparr>"

definition wps_world :: web_world where
  "wps_world = (sample_world [] [])\<lparr>w_wpsState := 2, w_upgradeState := 0, w_table := replicate 32 ''none''\<rparr>"

lemma quiet_harmless: "harmless quiet_env"
  by (simp add: harmless_def quiet_env_def)

lemma wps_world_calm: "calm wps_world"
  by (simp add: calm_def wps_world_def)


section \<open>The watchdog's request\<close>

lemma pass_monitor:
  assumes "status_pass e (t, w) = Inr (t', w')" and "harmless e" and "asks_restart e"
  shows "iMonitorCount t' = 0" "iMonitorCount t < 29 \<Longrightarrow> \<exists>as. w_acts w' = w_acts w @ map Cmd restart_monitor @ as"
proof -
  obtain t1 w1 t2 w2 w3 t4 w4 w5 where p: "DoGetMonitorCheck e (t, w) = Inr (t1, w1)" "status_round e (t1, w1) = Inr (t2, w2)"
    "DoUpgrade e w2 = Inr w3" "herUtil_checkWps (t2, w3) = (t4, w4)" "herUtil_isCloseGuestSsid (te_uptime e) w4 = Inr w5"
    "inter_rules e (t4, w5) = Inr (t', w')"
    using pass_parts [OF assms(1)] .
  note k = status_round_keeps [OF p(2)] upgrade_keeps [OF p(3)] wps_step [OF p(4)]
    only_settings_clock [OF p(5)] inter_rules_keeps [OF p(6)]
  have m: "iMonitorCount t1 = 0" "iMonitorCount t < 29 \<longrightarrow> w1 = cmds restart_monitor w"
    using monitor_check_ends [OF assms(2), of t w] p(1) assms(3) by auto
  show "iMonitorCount t' = 0" using k m(1) by auto
  have "\<exists>as. w_acts w' = w_acts w1 @ as" using k by (auto simp: same_device_def only_settings_def)
  then show "iMonitorCount t < 29 \<Longrightarrow> \<exists>as. w_acts w' = w_acts w @ map Cmd restart_monitor @ as"
    using m(2) by auto
qed

text \<open>
  C21: a watchdog that asks to be started again, because its main loop stands still, is killed and
  started again within two passes of the status thread, even when the first of them is one of the passes
  that count the threads and look no further.
\<close>

theorem watchdog_restarted:
  assumes "harmless e1" and "harmless e2" and "asks_restart e1" and "asks_restart e2" and "calm w"
  shows "\<exists>t' w' as bs. run_all status_pass [e1, e2] (t, w) = Inr (t', w') \<and> w_acts w' = w_acts w @ as @ map Cmd restart_monitor @ bs"
proof -
  obtain u v where 1: "status_pass e1 (t, w) = Inr (u, v)" "calm v" using pass_ends assms(1,5) by blast
  obtain t' w' where 2: "status_pass e2 (u, v) = Inr (t', w')" using pass_ends [OF assms(2) 1(2)] by blast
  have "iMonitorCount u = 0" using pass_monitor(1) [OF 1(1) assms(1,3)] .
  then obtain bs where "w_acts w' = w_acts v @ map Cmd restart_monitor @ bs"
    using pass_monitor(2) [OF 2 assms(2,4)] by auto
  moreover obtain as where "w_acts v = w_acts w @ as" using pass_wps(4) [OF 1(1)] by blast
  ultimately show ?thesis using 1 2 by auto
qed

definition asking_env :: thread_env where
  "asking_env = quiet_env\<lparr>te_hertmtrst := Some ''restart'', te_hertmtcnt := Some ''S    hertMonitor''\<rparr>"

theorem watchdog_restarted_witness:
  "\<exists>t' w'. run_all status_pass [asking_env, asking_env] ((thread_start None)\<lparr>iMonitorCount := 29\<rparr>, wps_world) = Inr (t', w') \<and>
    Cmd ''hertMonitor&'' \<in> set (w_acts w')"
proof -
  have h: "harmless asking_env" "asks_restart asking_env"
    by (simp_all add: harmless_def asking_env_def quiet_env_def asks_restart_def has_text_def) (code_simp)?
  show ?thesis
    using watchdog_restarted [OF h(1,1,2,2) wps_world_calm, of "(thread_start None)\<lparr>iMonitorCount := 29\<rparr>"]
    by (auto simp: restart_monitor_def)
qed

section \<open>The internet, as the router reports it\<close>

text \<open>
  The watchdog and the web server share two files: the server asks for probes in /var/needping, the
  watchdog answers in /var/webspingsts.  The system is both programs with the two files; \<open>n_reached\<close>
  remembers whether a pass of the watchdog has reached the internet when it was asked to probe.
\<close>

record net_system =
  n_needping :: "string option"
  n_webspingsts :: "string option"
  n_ping :: ping_state
  n_thread :: "thread_state \<times> web_world"
  n_reached :: bool

definition needping_after :: "web_act list \<Rightarrow> string option \<Rightarrow> string option" where
  "needping_after = fold (\<lambda>a f.
     if a = Cmd ''echo NO_PING > /var/needping'' then Some (''NO_PING'' @ [CHR 0x0A])
     else if a = Cmd ''echo NEED_PING > /var/needping'' then Some (''NEED_PING'' @ [CHR 0x0A])
     else f)"

definition webspingsts_after :: "mon_act list \<Rightarrow> string option \<Rightarrow> string option" where
  "webspingsts_after = fold (\<lambda>a f.
     if a = Run ''echo pass > /var/webspingsts'' then Some (''pass'' @ [CHR 0x0A])
     else if a = Run ''echo failed > /var/webspingsts'' then Some (''failed'' @ [CHR 0x0A])
     else f)"

definition net_start :: "ping_env \<Rightarrow> string option \<Rightarrow> string option \<Rightarrow> DHCPITEM list \<Rightarrow> int \<Rightarrow> web_world \<Rightarrow> net_system" where
  "net_start e wan lan ls cur w = \<lparr>n_needping = None, n_webspingsts = None, n_ping = ping_start e wan lan ls,
     n_thread = (thread_start wan, initHerouter cur w), n_reached = False\<rparr>"

definition monitor_step :: "ping_env \<Rightarrow> net_system \<Rightarrow> fault + net_system" where
  "monitor_step e s =
     (let e = e\<lparr>f_needping := n_needping s\<rparr> in
      rbind (ping_pass e (n_ping s)) (\<lambda>p.
        Inr (s\<lparr>n_ping := p, n_webspingsts := webspingsts_after (drop (length (ping_acts (n_ping s))) (ping_acts p)) (n_webspingsts s),
          n_reached := (n_reached s \<or> need_ping e \<and> check_tcp_IsReachInternet e = 1)\<rparr>)))"

definition server_step :: "thread_env \<Rightarrow> net_system \<Rightarrow> fault + net_system" where
  "server_step e s =
     rbind (status_pass (e\<lparr>te_webspingsts := n_webspingsts s\<rparr>) (n_thread s)) (\<lambda>tw.
       Inr (s\<lparr>n_thread := tw,
         n_needping := needping_after (drop (length (w_acts (snd (n_thread s)))) (w_acts (snd tw))) (n_needping s)\<rparr>))"

inductive net_run :: "net_system \<Rightarrow> net_system \<Rightarrow> bool" for s0 :: net_system where
  net_begins: "net_run s0 s0"
| monitor_passes: "net_run s0 s \<Longrightarrow> monitor_step e s = Inr s' \<Longrightarrow> net_run s0 s'"
| server_passes: "net_run s0 s \<Longrightarrow> server_step e s = Inr s' \<Longrightarrow> net_run s0 s'"

lemma pass_ping:
  assumes "status_pass e (t, w) = Inr (t', w')" and "says ''pass'' (pingStatus (w_net w'))"
  shows "says ''pass'' (pingStatus (w_net w)) \<or> hertUtil_IsInFile (te_webspingsts e) ''pass''"
proof -
  obtain t1 w1 t2 w2 w3 t4 w4 w5 where p: "DoGetMonitorCheck e (t, w) = Inr (t1, w1)" "status_round e (t1, w1) = Inr (t2, w2)"
    "DoUpgrade e w2 = Inr w3" "herUtil_checkWps (t2, w3) = (t4, w4)" "herUtil_isCloseGuestSsid (te_uptime e) w4 = Inr w5"
    "inter_rules e (t4, w5) = Inr (t', w')"
    using pass_parts [OF assms(1)] .
  show ?thesis
    using assms(2) monitor_check_keeps [OF p(1)] status_round_keeps [OF p(2)] upgrade_keeps [OF p(3)] wps_step [OF p(4)]
      only_settings_clock [OF p(5)] inter_rules_keeps [OF p(6)]
    by (auto simp: only_settings_def)
qed

lemma file_has:
  "\<not> hertUtil_IsInFile None p" "\<not> hertUtil_IsInFile (Some (''NO_PING'' @ [CHR 0x0A])) ''NEED_PING''"
  "\<not> hertUtil_IsInFile (Some (''failed'' @ [CHR 0x0A])) ''pass''"
proof -
  show "\<not> hertUtil_IsInFile None p" by (simp add: hertUtil_IsInFile_def)
  show "\<not> hertUtil_IsInFile (Some (''NO_PING'' @ [CHR 0x0A])) ''NEED_PING''"
    "\<not> hertUtil_IsInFile (Some (''failed'' @ [CHR 0x0A])) ''pass''"
    by (code_simp, code_simp)
qed

lemma needping_asked:
  "hertUtil_IsInFile (needping_after as f) ''NEED_PING'' \<Longrightarrow>
    hertUtil_IsInFile f ''NEED_PING'' \<or> Cmd ''echo NEED_PING > /var/needping'' \<in> set as"
proof (induction as arbitrary: f)
  case (Cons a as)
  have other: "needping_after (a # as) f = needping_after as f" if "a \<noteq> Cmd ''echo NO_PING > /var/needping''" "a \<noteq> Cmd ''echo NEED_PING > /var/needping''"
    using that by (simp add: needping_after_def)
  consider "a = Cmd ''echo NO_PING > /var/needping''" | "a = Cmd ''echo NEED_PING > /var/needping''" | "needping_after (a # as) f = needping_after as f"
    using other by blast
  then show ?case
  proof cases
    case 1
    then have "needping_after (a # as) f = needping_after as (Some (''NO_PING'' @ [CHR 0x0A]))" by (simp add: needping_after_def)
    then show ?thesis using Cons file_has(2) by auto
  qed (use Cons in auto)
qed (simp add: needping_after_def)

lemma webspingsts_passed:
  "hertUtil_IsInFile (webspingsts_after as f) ''pass'' \<Longrightarrow>
    hertUtil_IsInFile f ''pass'' \<or> Run ''echo pass > /var/webspingsts'' \<in> set as"
proof (induction as arbitrary: f)
  case (Cons a as)
  have other: "webspingsts_after (a # as) f = webspingsts_after as f" if "a \<noteq> Run ''echo failed > /var/webspingsts''" "a \<noteq> Run ''echo pass > /var/webspingsts''"
    using that by (simp add: webspingsts_after_def)
  consider "a = Run ''echo failed > /var/webspingsts''" | "a = Run ''echo pass > /var/webspingsts''" | "webspingsts_after (a # as) f = webspingsts_after as f"
    using other by blast
  then show ?case
  proof cases
    case 1
    then have "webspingsts_after (a # as) f = webspingsts_after as (Some (''failed'' @ [CHR 0x0A]))" by (simp add: webspingsts_after_def)
    then show ?thesis using Cons file_has(3) by auto
  qed (use Cons in auto)
qed (simp add: webspingsts_after_def)

lemma act_count_member: "a \<in> set as \<Longrightarrow> 0 < act_count a as"
  by (induction as) auto

text \<open>What holds in every state of the system: reports have their cause.\<close>

definition net_inv :: "net_system \<Rightarrow> bool" where
  "net_inv s =
     ((hertUtil_IsInFile (n_needping s) ''NEED_PING'' \<or> n_reached s \<longrightarrow>
        Cmd ''echo NEED_PING > /var/needping'' \<in> set (w_acts (snd (n_thread s)))) \<and>
      (hertUtil_IsInFile (n_webspingsts s) ''pass'' \<or> says ''pass'' (pingStatus (w_net (snd (n_thread s)))) \<longrightarrow> n_reached s))"

lemma monitor_step_inv:
  assumes "net_inv s" and "monitor_step e s = Inr s'"
  shows "net_inv s'"
proof -
  let ?e = "e\<lparr>f_needping := n_needping s\<rparr>"
  obtain p where p: "ping_pass ?e (n_ping s) = Inr p"
    and s': "s' = s\<lparr>n_ping := p, n_webspingsts := webspingsts_after (drop (length (ping_acts (n_ping s))) (ping_acts p)) (n_webspingsts s),
      n_reached := (n_reached s \<or> need_ping ?e \<and> check_tcp_IsReachInternet ?e = 1)\<rparr>"
    using assms(2) by (auto simp: monitor_step_def Let_def rbind_eq_Inr)
  obtain as where as: "ping_acts p = ping_acts (n_ping s) @ as" using probed_pass [OF p] by blast
  have "need_ping ?e \<and> check_tcp_IsReachInternet ?e = 1" if "Run ''echo pass > /var/webspingsts'' \<in> set as"
    using probed_pass [OF p] act_count_member [OF that] by (simp add: pass_acts_def as)
  then have "hertUtil_IsInFile (n_webspingsts s') ''pass'' \<Longrightarrow> hertUtil_IsInFile (n_webspingsts s) ''pass'' \<or> n_reached s'"
    using webspingsts_passed [of as "n_webspingsts s"] by (auto simp: s' as)
  moreover have "n_reached s' \<Longrightarrow> n_reached s \<or> hertUtil_IsInFile (n_needping s) ''NEED_PING''"
    by (auto simp: s' need_ping_def)
  moreover have "n_reached s \<Longrightarrow> n_reached s'" "n_needping s' = n_needping s" "n_thread s' = n_thread s" by (simp_all add: s')
  ultimately show ?thesis using assms(1) unfolding net_inv_def by metis
qed

lemma server_step_inv:
  assumes "net_inv s" and "server_step e s = Inr s'"
  shows "net_inv s'"
proof -
  let ?e = "e\<lparr>te_webspingsts := n_webspingsts s\<rparr>"
  obtain t w where tw: "n_thread s = (t, w)" by (cases "n_thread s")
  obtain t' w' where p: "status_pass ?e (t, w) = Inr (t', w')"
    and s': "s' = s\<lparr>n_thread := (t', w'), n_needping := needping_after (drop (length (w_acts w)) (w_acts w')) (n_needping s)\<rparr>"
    using assms(2) by (auto simp: server_step_def rbind_eq_Inr tw)
  obtain as where as: "w_acts w' = w_acts w @ as" using pass_wps(4) [OF p] by blast
  have "says ''pass'' (pingStatus (w_net w')) \<Longrightarrow> says ''pass'' (pingStatus (w_net w)) \<or> hertUtil_IsInFile (n_webspingsts s) ''pass''"
    using pass_ping [OF p] by simp
  moreover have "hertUtil_IsInFile (n_needping s') ''NEED_PING'' \<Longrightarrow>
      hertUtil_IsInFile (n_needping s) ''NEED_PING'' \<or> Cmd ''echo NEED_PING > /var/needping'' \<in> set as"
    using needping_asked [of as "n_needping s"] by (simp add: s' as)
  ultimately show ?thesis using assms(1) unfolding net_inv_def by (auto simp: s' as tw)
qed

text \<open>
  C3: the router says that it reaches the internet only after it was so: from the start of both
  programs, in whatever order their passes follow each other, the state "pass" of the web server means
  that the server has asked for probes and that a pass of the watchdog, asked to probe, has made its connection.
\<close>

theorem internet_reported_after_probe:
  assumes "net_run (net_start e wan lan ls cur w) s" and "says ''pass'' (pingStatus (w_net (snd (n_thread s))))"
  shows "n_reached s \<and> Cmd ''echo NEED_PING > /var/needping'' \<in> set (w_acts (snd (n_thread s)))"
proof -
  have "\<not> says ''pass'' []" by code_simp
  then have "net_inv (net_start e wan lan ls cur w)"
    by (simp add: net_inv_def net_start_def initHerouter_def Let_def file_has bufset_def)
  with assms(1) have "net_inv s"
    by (induction rule: net_run.induct) (auto intro: monitor_step_inv server_step_inv)
  then show ?thesis using assms(2) by (simp add: net_inv_def)
qed

definition net_sample :: net_system where
  "net_sample = net_start connected_env None None [] 100 wps_world"

lemma net_sample_runs:
  "case rbind (server_step quiet_env net_sample) (\<lambda>s. rbind (monitor_step connected_env s) (server_step quiet_env)) of
     Inl _ \<Rightarrow> False | Inr s \<Rightarrow> says ''pass'' (pingStatus (w_net (snd (n_thread s))))"
  by code_simp

text \<open>The server asks, the watchdog probes, the server reports.\<close>

theorem internet_reported_after_probe_witness:
  "\<exists>s. net_run net_sample s \<and> says ''pass'' (pingStatus (w_net (snd (n_thread s)))) \<and> n_reached s"
proof -
  obtain s1 s2 s3 where s: "server_step quiet_env net_sample = Inr s1" "monitor_step connected_env s1 = Inr s2"
    "server_step quiet_env s2 = Inr s3" "says ''pass'' (pingStatus (w_net (snd (n_thread s3))))"
    using net_sample_runs by (auto split: sum.splits simp: rbind_def)
  then have "net_run net_sample s3" by (meson net_run.intros)
  then show ?thesis
    using internet_reported_after_probe [of connected_env None None "[]" 100 wps_world s3] s(4)
    by (auto simp: net_sample_def)
qed

end
