(* ===== verification/DeviceFiles.thy ===== *)
theory DeviceFiles
  imports Transport
begin

text \<open>
  Small readers and writers of hert_com.c and hert_util.c: the directory of the pictures, the disk in /proc/mounts,
  the uptime, the factory address, the key from the platform, the wait for the web server, the level of the log.
  What a file holds is an argument, None for a file that cannot be opened.
\<close>

section \<open>Directories and disks\<close>

text \<open>\<open>opened\<close>: the test file can be opened after the commands.\<close>

definition hertUtil_createDirIfNoExist :: "bool \<Rightarrow> string \<Rightarrow> fault + int \<times> string list" where
  "hertUtil_createDirIfNoExist opened pszDir =
     (let mkdir = ''mkdir '' @ pszDir; szFileName = pszDir @ ''/test.txt''; echo = ''echo test > '' @ szFileName in
      if 128 \<le> length mkdir \<or> 128 \<le> length szFileName \<or> 128 \<le> length echo then Inl WriteOverflow
      else Inr (if opened then 0 else - 1, [mkdir, echo]))"

text \<open>
  The last line of /proc/mounts with a disk: eleven characters, or twelve when the last is no blank.  Without
  such a line the path is empty.
\<close>

definition hertUtil_GetUSBPath :: "string option \<Rightarrow> string" where
  "hertUtil_GetUSBPath f = (case f of
       None \<Rightarrow> ''/media/sda1''
     | Some s \<Rightarrow>
         let found = List.map_filter (\<lambda>l. strstr l ''/media/sd'') (fgets_lines 256 s);
             buftmp = (if found = [] then [] else take 12 (last found))
         in if length buftmp = 12 \<and> last buftmp = CHR '' '' then butlast buftmp else buftmp)"

text \<open>st_size is signed, 0 when stat fails.\<close>

definition hertUtil_getFileSize :: "int option \<Rightarrow> int" where
  "hertUtil_getFileSize st = (case st of None \<Rightarrow> 0 | Some n \<Rightarrow> n)"

section \<open>Address and time\<close>

text \<open>Six bytes from 0x2E on in the factory partition; the caller's buffer keeps the rest.\<close>

definition hertUtil_readMac :: "byte list option \<Rightarrow> int \<times> byte list" where
  "hertUtil_readMac fd = (case fd of
       None \<Rightarrow> (- 1, [])
     | Some flash \<Rightarrow> (let bs = take 6 (drop 46 flash) in (int (length bs), bs)))"

definition hertUtil_getSeconds :: "dword option \<Rightarrow> dword" where
  "hertUtil_getSeconds tv = (case tv of None \<Rightarrow> - 1 | Some s \<Rightarrow> s)"

definition getUptime :: "string option \<Rightarrow> int" where
  "getUptime f = (case f of
       None \<Rightarrow> - 1
     | Some s \<Rightarrow> if s = [] then - 1
         else (case strstr (fst (fgets 1024 s)) ''.'' of
             None \<Rightarrow> - 1
           | Some t \<Rightarrow> atoi (takeWhile (\<lambda>c. c \<noteq> CHR ''.'') (fst (fgets 1024 s)))))"

text \<open>The address of the WAN interface, empty when ioctl fails.\<close>

definition hertUtil_getWanIP :: "(string \<Rightarrow> dword option) \<Rightarrow> string \<Rightarrow> string" where
  "hertUtil_getWanIP ioctl cm = (case ioctl (hertUtil_getWanInterface cm) of None \<Rightarrow> [] | Some a \<Rightarrow> dotted a)"

section \<open>The key from the platform\<close>

definition hertUtil_SetAESPwdFromOnenet :: "string \<Rightarrow> fault + string" where
  "hertUtil_SetAESPwdFromOnenet szAes =
     (let cmd = ''echo '' @ szAes @ '' > /var/aesonenet.txt'' in if 128 \<le> length cmd then Inl WriteOverflow else Inr cmd)"

definition hertUtil_GetAESPwdFromOnenet :: "string option \<Rightarrow> string option" where
  "hertUtil_GetAESPwdFromOnenet f = (case f of None \<Rightarrow> None | Some s \<Rightarrow> Some (remove_crln (fst (fgets 64 s))))"

definition key_chars :: string where
  "key_chars = ''ABCDEFGHIJKLMNOPQRSTUVWXYZabcdefghijklmnopqrstuvwxyz0123456789+/=''"

text \<open>A key as the platform sends it, in Base64: the shell takes such a word as it is.\<close>

definition key_word :: "string \<Rightarrow> bool" where
  "key_word k = (k \<noteq> [] \<and> list_all (\<lambda>c. c \<in> set key_chars) k)"

text \<open>What the command for such a key leaves in the file.\<close>

definition echoed_key :: "string \<Rightarrow> string" where
  "echoed_key cmd = takeWhile (\<lambda>c. c \<noteq> CHR '' '') (drop 5 cmd) @ [CHR 0x0A]"

section \<open>The log and the notes between programs\<close>

record log_state =
  g_logLevel :: loglevel
  g_logTitle :: string

definition loglevel_number :: "loglevel \<Rightarrow> nat" where
  "loglevel_number l = (case l of VPCOM_LOG_ERROR \<Rightarrow> 4 | VPCOM_LOG_INFO \<Rightarrow> 7 | VPCOM_LOG_DEBUG \<Rightarrow> 8)"

definition g_loglevelTxt :: "string list" where
  "g_loglevelTxt = [''LOGOFF'', ''EMERG'', ''CRIT'', ''ALERT'', ''ERROR'', ''WARNING'', ''NOTICE'', ''INFO'', ''DEBUG'']"

definition vpcom_SetLogLevel :: "loglevel \<Rightarrow> log_state \<Rightarrow> log_state" where
  "vpcom_SetLogLevel level l = l\<lparr>g_logLevel := level, g_logTitle := g_loglevelTxt ! loglevel_number level\<rparr>"

definition hertUtil_setLoglevel :: "string option \<Rightarrow> log_state \<Rightarrow> log_state" where
  "hertUtil_setLoglevel f l = vpcom_SetLogLevel (hertUtil_getLoglevel f) l"

text \<open>The head of a line: level, time, file and line, cut at 1023 characters.\<close>

definition two_digits :: "nat \<Rightarrow> string" where
  "two_digits n = (if n < 10 then CHR ''0'' # show_nat n else show_nat n)"

definition log_head :: "nat \<Rightarrow> nat \<times> nat \<times> nat \<Rightarrow> string \<Rightarrow> int \<Rightarrow> string" where
  "log_head level hms szFile nLine = (let (h, m, s) = hms in
     take 1023 (''[HERT_LOG '' @ two_digits h @ '':'' @ two_digits m @ '':'' @ two_digits s @ ''] '' @
       (if level \<le> 8 then g_loglevelTxt ! level else ''UNKNOW'') @ '' - '' @ szFile @ '', '' @ show_int nLine @ '': ''))"

text \<open>The three log functions: what they print, if the level lets them.\<close>

definition vpcom_Printf :: "nat \<Rightarrow> nat \<times> nat \<times> nat \<Rightarrow> string \<Rightarrow> int \<Rightarrow> string \<Rightarrow> string list" where
  "vpcom_Printf level hms szFile nLine txt = [log_head level hms szFile nLine, txt, [CHR 0x0A]]"

definition vpcom_log :: "log_state \<Rightarrow> nat \<times> nat \<times> nat \<Rightarrow> string \<Rightarrow> int \<Rightarrow> string \<Rightarrow> string list" where
  "vpcom_log l hms szFile nLine txt = (if 8 \<le> loglevel_number (g_logLevel l) then vpcom_Printf 8 hms szFile nLine txt else [])"

definition vpcom_logInfo :: "log_state \<Rightarrow> nat \<times> nat \<times> nat \<Rightarrow> string \<Rightarrow> int \<Rightarrow> string \<Rightarrow> string list" where
  "vpcom_logInfo l hms szFile nLine txt = (if 6 \<le> loglevel_number (g_logLevel l) then vpcom_Printf 7 hms szFile nLine txt else [])"

definition vpcom_logErr :: "log_state \<Rightarrow> nat \<times> nat \<times> nat \<Rightarrow> string \<Rightarrow> int \<Rightarrow> string \<Rightarrow> string list" where
  "vpcom_logErr l hms szFile nLine txt = (if 4 \<le> loglevel_number (g_logLevel l) then vpcom_Printf 4 hms szFile nLine txt else [])"

definition vpComGetMsgTypeText :: "byte \<Rightarrow> string" where
  "vpComGetMsgTypeText type = (if type = CONN_REQ then ''CONN_REQ'' else if type = CONN_RESP then ''CONN_RESP''
     else if type = PUSH_DATA then ''PUSH_DATA'' else if type = PING_REQ then ''PING_REQ''
     else if type = PING_RESP then ''PING_RESP'' else ''Unknow message type'')"

text \<open>A dump of a text in 1024 characters.\<close>

definition herUtil_dumpHexString :: "byte list \<Rightarrow> fault + string" where
  "herUtil_dumpHexString bs = (let t = concat (map (\<lambda>b. show_hex (unat b) @ '' '') (takeWhile (\<lambda>b. b \<noteq> 0) bs)) in
     if 1024 \<le> length t then Inl WriteOverflow else Inr t)"

definition hertUtil_PostSem :: "string list \<Rightarrow> string list" where
  "hertUtil_PostSem acts = acts @ [''echo g_sem_finish_read > /var/finishread'']"

text \<open>One look each second; \<open>f k\<close> is what the file holds at look \<open>k\<close>.  The second result: the looks that slept.\<close>

fun wait_looks :: "(nat \<Rightarrow> string option) \<Rightarrow> nat \<Rightarrow> nat \<Rightarrow> int \<times> nat" where
  "wait_looks f i 0 = (- 1, i)"
| "wait_looks f i (Suc n) = (if hertUtil_IsInFile (f i) ''g_sem_want_read'' then (0, i) else wait_looks f (i + 1) n)"

definition hertUtil_WaitSem :: "(nat \<Rightarrow> string option) \<Rightarrow> int \<Rightarrow> int \<times> nat" where
  "hertUtil_WaitSem f nSecond = wait_looks f 0 (nat nSecond)"

section \<open>What they make of their files\<close>

lemma key_word_chars:
  assumes "key_word k" and "c \<in> set k"
  shows "\<not> is_space c"
proof -
  have "list_all (\<lambda>c. \<not> is_space c) key_chars" by code_simp
  moreover have "c \<in> set key_chars"
    using assms unfolding key_word_def list_all_iff by blast
  ultimately show ?thesis unfolding list_all_iff by blast
qed

text \<open>The key the platform sends is the key the web server reads, up to 61 characters.\<close>

theorem platform_key_roundtrip:
  assumes "key_word k" and "length k \<le> 61"
  shows "\<exists>cmd. hertUtil_SetAESPwdFromOnenet k = Inr cmd \<and> hertUtil_GetAESPwdFromOnenet (Some (echoed_key cmd)) = Some k"
proof -
  have "\<forall>c \<in> set k. \<not> is_space c" using key_word_chars [OF assms(1)] by blast
  moreover have "is_space (CHR 0x0A)" "is_space (CHR '' '')" by (simp_all add: is_space_def)
  ultimately have n: "CHR 0x0A \<notin> set k" "CHR '' '' \<notin> set k" by auto
  have t: "takeWhile (\<lambda>c. c \<noteq> CHR '' '') (k @ CHR '' '' # rest) = k" for rest
    using n(2) by (induction k) auto
  have "fst (fgets 64 (k @ [CHR 0x0A])) = k @ [CHR 0x0A]"
    using fgets_line [of k 64 "[]"] n(1) assms(2) by simp
  then show ?thesis
    using t remove_crln_line(1) [of k] key_word_chars [OF assms(1)] assms(2)
    by (simp add: hertUtil_SetAESPwdFromOnenet_def hertUtil_GetAESPwdFromOnenet_def echoed_key_def)
qed

theorem platform_key_roundtrip_witness:
  "\<exists>cmd. hertUtil_SetAESPwdFromOnenet ''QUJD'' = Inr cmd \<and> hertUtil_GetAESPwdFromOnenet (Some (echoed_key cmd)) = Some ''QUJD''"
  by (rule platform_key_roundtrip) (simp_all add: key_word_def key_chars_def)

text \<open>The wait ends with the first look that finds the note, or when the seconds are over.\<close>

lemma wait_looks_result:
  "case wait_looks f i n of (r, k) \<Rightarrow> i \<le> k \<and> k \<le> i + n \<and> (\<forall>j. i \<le> j \<and> j < k \<longrightarrow> \<not> hertUtil_IsInFile (f j) ''g_sem_want_read'') \<and>
    (if r = 0 then k < i + n \<and> hertUtil_IsInFile (f k) ''g_sem_want_read'' else r = - 1 \<and> k = i + n)"
proof (induction n arbitrary: i)
  case (Suc n)
  show ?case
  proof (cases "hertUtil_IsInFile (f i) ''g_sem_want_read''")
    case False
    then have "\<not> hertUtil_IsInFile (f j) ''g_sem_want_read''" if "i \<le> j" "\<not> i + 1 \<le> j" for j
      using that by (simp add: le_less_Suc_eq not_less_eq_eq)
    then show ?thesis using Suc.IH [of "i + 1"] False by (auto split: prod.splits if_splits)
  next
    case True
    then show ?thesis by auto
  qed
qed auto

end
