(* ===== verification/DevicePage.thy ===== *)
theory DevicePage
  imports WebThread WebRules DeviceList
begin

text \<open>
  The devices on the pages of the web server (goahead/src/heroute_util.c, hertUtil_GetDeviceList_DoInit and
  GetItem; goahead/src/internet.c, getCliList and getDhcpList): the wireless clients with the addresses their
  leases give them, and the wired ones.  A row is what the page says of a device; the HTML around it is left out.
\<close>

section \<open>The list and its addresses\<close>

record device_page =
  dp_devs :: "HERT_COM_SUBDEV_BODY list option"
  dp_number :: nat
  g_MacIpArray :: "(byte list \<times> dword) list"

definition MAX_MACIP_MAP_NUMBER :: nat where "MAX_MACIP_MAP_NUMBER = 32"

text \<open>The result of hertUtil_GetDeviceList is not looked at.  The leases are read without regard to the size of the array.\<close>

definition hertUtil_GetDeviceList_DoInit :: "bool \<Rightarrow> (nat \<Rightarrow> bool) \<Rightarrow> byte list list option \<Rightarrow> DHCPITEM list option \<Rightarrow>
    DEVINFO list option \<Rightarrow> device_page \<times> dev_tables \<Rightarrow> fault + int \<times> device_page \<times> dev_tables" where
  "hertUtil_GetDeviceList_DoInit nIsOnlyGetNum malloc tab leases opt60 s =
     rbind (hertUtil_GetDeviceList malloc tab leases opt60 (snd s)) (\<lambda>((ret, ds), st).
       let g = (fst s)\<lparr>dp_devs := Some ds, dp_number := length ds\<rparr> in
       if nIsOnlyGetNum then Inr (int (length ds), g, st)
       else (case leases of
           None \<Rightarrow> Inr (int (length ds), g\<lparr>g_MacIpArray := []\<rparr>, st)
         | Some ls \<Rightarrow>
             if MAX_MACIP_MAP_NUMBER < length ls then Inl WriteOverflow
             else Inr (int (length ds), g\<lparr>g_MacIpArray := map (\<lambda>l. (dh_mac l, dh_ip l)) ls\<rparr>, st)))"

text \<open>The number of devices stays.\<close>

definition hertUtil_GetDeviceList_DoUnInit :: "device_page \<Rightarrow> device_page" where
  "hertUtil_GetDeviceList_DoUnInit g = g\<lparr>dp_devs := None\<rparr>"

text \<open>Address, name and, where a lease is found, IP address; without one the text of the caller stays.\<close>

definition hertUtil_GetDeviceList_GetItem ::
  "(dword \<Rightarrow> string) \<Rightarrow> int \<Rightarrow> string \<Rightarrow> device_page \<Rightarrow> fault + (string \<times> string \<times> string) option" where
  "hertUtil_GetDeviceList_GetItem ntoa nIndex szIpAddr g =
     (if int (dp_number g) \<le> nIndex \<or> nIndex < 0 then Inr None
      else (case dp_devs g of
          None \<Rightarrow> Inl NullDeref
        | Some ds \<Rightarrow> (let d = ds ! nat nIndex in
            Inr (Some (mac d, devName d, (case find (\<lambda>(m, adr). strcasecmp_eq (DeviceList.mac_text m) (mac d)) (g_MacIpArray g) of
                None \<Rightarrow> szIpAddr
              | Some (m, adr) \<Rightarrow> ntoa adr))))))"

text \<open>
  At the start of the server the wireless driver is told the name of the network that is not to be shown: the
  second one, copied into 256 characters.  \<open>has_sock\<close> and \<open>ioctl\<close> say whether the calls succeed.
\<close>

definition hertUtil_SetHideSSidForFilter :: "bool \<Rightarrow> bool \<Rightarrow> string \<Rightarrow> fault + int \<times> string option" where
  "hertUtil_SetHideSSidForFilter has_sock ioctl ssid2 =
     (if 256 \<le> length ssid2 then Inl WriteOverflow
      else if \<not> has_sock then Inr (1, None)
      else if \<not> ioctl then Inr (1, None)
      else Inr (0, Some ssid2))"

section \<open>The pages\<close>

record page_row =
  row_mac :: string
  row_kind :: nat
  row_ip :: string
  row_name :: string

text \<open>The picture of a device: 1 Mac, 2 wireless, 3 iPhone, 4 Android, 5 PC, 6 iPad.\<close>

definition device_kind :: "dev_tables \<Rightarrow> string \<Rightarrow> string \<Rightarrow> nat" where
  "device_kind st szMac szDevName =
     (if szDevName = [] then 2
      else if has_text ''android'' szDevName then 4
      else if has_text ''iPhone'' szDevName then 3
      else if has_text ''Mac'' szDevName then 1
      else if has_text ''PC'' szDevName \<or> has_text ''WINDOWS'' szDevName then 5
      else if has_text ''iPad'' szDevName then 6
      else if \<not> hertUtil_IsWirelessClientMac szMac st then 5
      else 2)"

text \<open>"%-16s".\<close>

definition pad16 :: "string \<Rightarrow> string" where
  "pad16 s = s @ replicate (16 - length s) CHR '' ''"

text \<open>The rows of the devices \<open>i\<close>, \<open>i + 1\<close> and so on.\<close>

fun cli_rows :: "(dword \<Rightarrow> string) \<Rightarrow> device_page \<times> dev_tables \<Rightarrow> nat list \<Rightarrow> fault + page_row list" where
  "cli_rows ntoa s [] = Inr []"
| "cli_rows ntoa s (i # is) = rbind (hertUtil_GetDeviceList_GetItem ntoa (int i) [] (fst s)) (\<lambda>item.
     rbind (cli_rows ntoa s is) (\<lambda>rows. Inr (case item of
         None \<Rightarrow> rows
       | Some (m, name, adr) \<Rightarrow> \<lparr>row_mac = m, row_kind = device_kind (snd s) m name, row_ip = adr,
           row_name = (if name = [] then [] else pad16 name)\<rparr> # rows)))"

text \<open>Both pages begin with a setting that is stored.\<close>

definition temp_policy :: "web_world \<Rightarrow> web_world" where
  "temp_policy w = commit (bufsets [(''AccessControlList_temp'', ''default''), (''AccessPolicy_temp'', ''default'')] w)"

definition getCliList :: "(dword \<Rightarrow> string) \<Rightarrow> (nat \<Rightarrow> bool) \<Rightarrow> byte list list option \<Rightarrow> DHCPITEM list option \<Rightarrow> DEVINFO list option \<Rightarrow>
    (device_page \<times> dev_tables) \<times> web_world \<Rightarrow> fault + page_row list \<times> (device_page \<times> dev_tables) \<times> web_world" where
  "getCliList ntoa malloc tab leases opt60 s =
     rbind (hertUtil_GetDeviceList_DoInit False malloc tab leases opt60 (fst s)) (\<lambda>(nDevNum, g, st).
       rbind (cli_rows ntoa (g, st) [0..<nat nDevNum]) (\<lambda>rows.
         Inr (rows, (hertUtil_GetDeviceList_DoUnInit g, st), temp_policy (snd s))))"

text \<open>
  The wired devices: the leases of the table that are neither of a wireless client nor of one that was
  connected before; none when no port of the home network is connected.
\<close>

definition lease_row :: "(dword \<Rightarrow> string) \<Rightarrow> DHCPITEM \<Rightarrow> page_row" where
  "lease_row ntoa l = \<lparr>row_mac = DeviceList.mac_text (dh_mac l), row_kind = 5, row_ip = ntoa (dh_ip l),
     row_name = (if host_name l = [] then [] else pad16 (host_name l))\<rparr>"

definition getDhcpList :: "(dword \<Rightarrow> string) \<Rightarrow> string option \<Rightarrow> string \<Rightarrow> byte list list option \<Rightarrow> DHCPITEM list option \<Rightarrow>
    web_world \<times> dev_tables \<Rightarrow> page_row list \<times> web_world \<times> dev_tables" where
  "getDhcpList ntoa f ports tab leases s =
     (let st = snd (hertUtil_UpdateWirelessClientInfo tab (snd s));
          (nDevNum, st) = hertUtil_UpdateIpReachInfo leases st;
          w = temp_policy (fst s); n = hertUtil_upEthrtPortStatus ports (w_net w);
          nDevNum = (if lan1PortStatus n = ''fail'' \<and> lan2PortStatus n = ''fail'' then 0 else nDevNum);
          shown = (\<lambda>l. dh_nReachable l \<noteq> 0 \<and> \<not> hertUtil_IsWirelessClientMac (DeviceList.mac_text (dh_mac l)) st \<and>
            \<not> hertUtil_IsInSaveWirelessClientMac f (map lower (DeviceList.mac_text (dh_mac l))))
      in (map (lease_row ntoa) (filter shown (List.map_filter (\<lambda>i. hertUtil_GetDhcpClientLeaseItem i st) [0..<nat nDevNum])), w\<lparr>w_net := n\<rparr>, st))"

section \<open>What the pages show\<close>

lemma cli_rows_ok:
  assumes "dp_devs g = Some ds" and "dp_number g = length ds" and "\<forall>i \<in> set is. i < length ds"
  shows "\<exists>rows. cli_rows ntoa (g, st) is = Inr rows \<and> map row_mac rows = map (\<lambda>i. mac (ds ! i)) is \<and>
    map row_ip rows = map (\<lambda>i. (case find (\<lambda>(m, adr). strcasecmp_eq (DeviceList.mac_text m) (mac (ds ! i))) (g_MacIpArray g) of
      None \<Rightarrow> [] | Some (m, adr) \<Rightarrow> ntoa adr)) is"
  using assms(3)
proof (induction "is")
  case (Cons i "is")
  then show ?case using assms(1,2) by (auto simp: hertUtil_GetDeviceList_GetItem_def Let_def)
qed simp

text \<open>The IP address a row shows: that of the first lease for the device.\<close>

definition lease_ip :: "(dword \<Rightarrow> string) \<Rightarrow> DHCPITEM list option \<Rightarrow> byte list \<Rightarrow> string" where
  "lease_ip ntoa leases a = (case leases of
       None \<Rightarrow> []
     | Some ls \<Rightarrow> (case find (\<lambda>l. strcasecmp_eq (DeviceList.mac_text (dh_mac l)) (DeviceList.mac_text a)) ls of None \<Rightarrow> [] | Some l \<Rightarrow> ntoa (dh_ip l)))"

lemma find_pairs:
  "find (\<lambda>(m, adr). P m) (map (\<lambda>l. (dh_mac l, dh_ip l)) ls) =
    map_option (\<lambda>l. (dh_mac l, dh_ip l)) (find (\<lambda>l. P (dh_mac l)) ls)"
  by (induction ls) simp_all

text \<open>
  C22: the page of the clients shows each wireless client once, in the order of the driver, with the IP address of
  its first lease, if it has one; with more than 32 leases it writes behind the array of addresses.
\<close>

theorem page_shows_clients:
  assumes "tables_ok (snd (fst s))" and "opt60_ok opt60" and "as \<noteq> []" and "\<forall>a \<in> set as. length a = 6"
    and "\<forall>n \<le> 272 * (length as + 16). malloc n"
  shows "if leases \<noteq> None \<and> 32 < length (the leases) then getCliList ntoa malloc (Some as) leases opt60 s = Inl WriteOverflow
    else \<exists>rows s'. getCliList ntoa malloc (Some as) leases opt60 s = Inr (rows, s') \<and>
      map row_mac rows = map DeviceList.mac_text as \<and> map row_ip rows = map (lease_ip ntoa leases) as"
proof -
  obtain ds st' where l: "hertUtil_GetDeviceList malloc (Some as) leases opt60 (snd (fst s)) = Inr ((0, ds), st')" "map mac ds = map DeviceList.mac_text as"
    using device_list_clients [OF assms] by blast
  have n: "length ds = length as" using arg_cong [OF l(2), of length] by simp
  have m: "mac (ds ! i) = DeviceList.mac_text (as ! i)" if "i < length as" for i
    using arg_cong [OF l(2), of "\<lambda>xs. xs ! i"] that n by simp
  define arr where "arr = (case leases of None \<Rightarrow> [] | Some ls \<Rightarrow> map (\<lambda>l. (dh_mac l, dh_ip l)) ls)"
  define g where "g = (fst (fst s))\<lparr>dp_devs := Some ds, dp_number := length ds, g_MacIpArray := arr\<rparr>"
  show ?thesis
  proof (cases "leases \<noteq> None \<and> 32 < length (the leases)")
    case True
    then show ?thesis using l(1)
      by (auto simp: getCliList_def hertUtil_GetDeviceList_DoInit_def Let_def MAX_MACIP_MAP_NUMBER_def)
  next
    case False
    then have i: "hertUtil_GetDeviceList_DoInit False malloc (Some as) leases opt60 (fst s) = Inr (int (length as), g, st')"
      using l(1) n by (auto simp: hertUtil_GetDeviceList_DoInit_def g_def arr_def Let_def MAX_MACIP_MAP_NUMBER_def split: option.splits)
    obtain rows where r: "cli_rows ntoa (g, st') [0..<length as] = Inr rows" "map row_mac rows = map (\<lambda>i. mac (ds ! i)) [0..<length as]"
      "map row_ip rows = map (\<lambda>i. (case find (\<lambda>(m, adr). strcasecmp_eq (DeviceList.mac_text m) (mac (ds ! i))) arr of
        None \<Rightarrow> [] | Some (m, adr) \<Rightarrow> ntoa adr)) [0..<length as]"
      using cli_rows_ok [of g ds "[0..<length as]" ntoa st'] n by (auto simp: g_def)
    have "(case find (\<lambda>(m, adr). strcasecmp_eq (DeviceList.mac_text m) (mac (ds ! i))) arr of None \<Rightarrow> [] | Some (m, adr) \<Rightarrow> ntoa adr) =
        lease_ip ntoa leases (as ! i)" if "i < length as" for i
      using m [OF that] by (simp add: arr_def lease_ip_def find_pairs split: option.splits)
    then have "map row_ip rows = map (\<lambda>i. lease_ip ntoa leases (as ! i)) [0..<length as]" using r(3) by simp
    also have "\<dots> = map (lease_ip ntoa leases) as" by (rule nth_equalityI) simp_all
    finally have "map row_ip rows = map (lease_ip ntoa leases) as" .
    moreover have "map row_mac rows = map DeviceList.mac_text as" using r(2) l(2) n by (metis map_nth map_map comp_apply map_eq_conv)
    ultimately show ?thesis using False r(1) by (auto simp: getCliList_def i)
  qed
qed

text \<open>A client with a lease.\<close>

definition no_page :: "(device_page \<times> dev_tables) \<times> web_world" where
  "no_page = ((\<lparr>dp_devs = None, dp_number = 0, g_MacIpArray = []\<rparr>, \<lparr>g_rtTable = [], g_DevInfArray = [], g_WebdhcpItemArray = []\<rparr>),
     sample_world [] [])"

definition page_lease :: DHCPITEM where
  "page_lease = \<lparr>dh_hostname = [], dh_mac = [0, 12, 67, 118, 32, 102, 0, 0], dh_ip = 7, dh_expires = 0, dh_nReachable = 0\<rparr>"

theorem page_shows_clients_witness:
  "(\<exists>rows s'. getCliList (\<lambda>adr. ''10.0.0.7'') (\<lambda>n. True) (Some [[0, 12, 67, 118, 32, 102]]) (Some [page_lease]) None no_page = Inr (rows, s') \<and>
      map row_ip rows = [''10.0.0.7'']) \<and>
    getCliList (\<lambda>adr. ''10.0.0.7'') (\<lambda>n. True) (Some [[0, 12, 67, 118, 32, 102]]) (Some (replicate 33 page_lease)) None no_page = Inl WriteOverflow"
proof -
  have t: "tables_ok (snd (fst no_page))" "opt60_ok None" by (simp_all add: no_page_def tables_ok_def opt60_ok_def)
  have "lease_ip (\<lambda>adr. ''10.0.0.7'') (Some [page_lease]) [0, 12, 67, 118, 32, 102] = ''10.0.0.7''"
    by (simp add: lease_ip_def page_lease_def DeviceList.mac_text_def strcasecmp_eq_def)
  then show ?thesis
    using page_shows_clients [OF t, of "[[0, 12, 67, 118, 32, 102]]" "\<lambda>n. True" "Some [page_lease]" "\<lambda>adr. ''10.0.0.7''"]
      page_shows_clients [OF t, of "[[0, 12, 67, 118, 32, 102]]" "\<lambda>n. True" "Some (replicate 33 page_lease)" "\<lambda>adr. ''10.0.0.7''"]
    by auto
qed

text \<open>The page of the wired devices and the page of the clients have no device in common.\<close>

lemma pages_disjoint:
  assumes "getDhcpList ntoa f ports (Some as) leases s = (rows, s')" and "r \<in> set rows" and "a \<in> set as"
  shows "\<not> strcasecmp_eq (DeviceList.mac_text a) (row_mac r)"
proof -
  obtain n st where u: "hertUtil_UpdateIpReachInfo leases ((snd s)\<lparr>g_rtTable := as\<rparr>) = (n, st)" by fastforce
  then have g: "g_rtTable st = as" using UpdateIpReachInfo_ok [of leases "(snd s)\<lparr>g_rtTable := as\<rparr>"] by auto
  obtain l where "r = lease_row ntoa l" "\<not> hertUtil_IsWirelessClientMac (DeviceList.mac_text (dh_mac l)) st"
    using assms(1,2) u by (auto simp: getDhcpList_def hertUtil_UpdateWirelessClientInfo_def Let_def)
  then show ?thesis using g assms(3) by (simp add: hertUtil_IsWirelessClientMac_def lease_row_def list_ex_iff)
qed

end
