(* ===== verification/ValueLists.thy ===== *)
theory ValueLists
  imports Decimal
begin

text \<open>
  Texts that are lists of values with a delimiter (goahead/src/utils.c, getNthValueSafe, deleteNthValueMulti,
  getValueCount; firewall.c, getNums), the loop over the rules of such a text, and the interface of a list of
  rules: what a kind of rule has to promise so that its text is read as the rules it was made from.
\<close>

section \<open>The functions\<close>

text \<open>The loop of getNthValueSafe; None is its result -1.\<close>

fun nth_value :: "nat \<Rightarrow> char \<Rightarrow> string \<Rightarrow> string option" where
  "nth_value 0 d s = Some (takeWhile (\<lambda>c. c \<noteq> d) s)"
| "nth_value (Suc i) d s = (case strchr d s of None \<Rightarrow> None | Some t \<Rightarrow> nth_value i d (tl t))"

definition getNthValueSafe :: "nat \<Rightarrow> string \<Rightarrow> char \<Rightarrow> nat \<Rightarrow> string option" where
  "getNthValueSafe index s d len = (if len = 0 then None else map_option (take (len - 1)) (nth_value index d s))"

definition getNums :: "string \<Rightarrow> char \<Rightarrow> nat" where
  "getNums s d = 1 + length (filter (\<lambda>c. c = d) s)"

text \<open>A delimiter in front is not counted.\<close>

definition getValueCount :: "string \<Rightarrow> nat" where
  "getValueCount s = length (filter (\<lambda>c. c = CHR '';'') (tl s)) + 1"

text \<open>
  deleteNthValueMulti works on the pieces between delimiters, each but the first with the delimiter before it:
  the piece \<open>i\<close> goes when it is the next of the indexes.  When the last index is used up the loop ends.
\<close>

fun pieces_of :: "char \<Rightarrow> string \<Rightarrow> string list" where
  "pieces_of d [] = [[]]"
| "pieces_of d (c # s) = (case pieces_of d s of
       [] \<Rightarrow> [[c]]
     | p # ps \<Rightarrow> if c = d then [] # (c # p) # ps else (c # p) # ps)"

fun delete_loop :: "int \<Rightarrow> int list \<Rightarrow> string list \<Rightarrow> string list" where
  "delete_loop i js [] = []"
| "delete_loop i [] ps = ps"
| "delete_loop i (j # js) (p # ps) =
     (if i = j then delete_loop (i + 1) js ps else p # delete_loop (i + 1) (j # js) ps)"

text \<open>When the first of several values goes, a semicolon at the start of what is left goes too.\<close>

definition deleteNthValueMulti :: "int list \<Rightarrow> string \<Rightarrow> char \<Rightarrow> string" where
  "deleteNthValueMulti index s d =
     (let ps = pieces_of d s; rest = concat (delete_loop 0 index ps)
      in if index \<noteq> [] \<and> hd index = 0 \<and> 1 < length ps \<and> rest \<noteq> [] \<and> hd rest = CHR '';'' then tl rest else rest)"

text \<open>
  \<open>while (getNthValueSafe(i++, rule, ';', rec, sizeof(rec)) != -1)\<close> with an array \<open>rec\<close> of 256 characters:
  what is done for each record.
\<close>

lemma nth_value_bound: "nth_value i d s = Some v \<Longrightarrow> i < getNums s d"
proof (induction i d s arbitrary: v rule: nth_value.induct)
  case (2 i d s)
  then obtain t where t: "strchr d s = Some t" "nth_value i d (tl t) = Some v" by (auto split: option.splits)
  then obtain u t' where "s = u @ d # t'" "t = d # t'" by (blast dest: strchr_SomeD)
  then show ?case using 2(1) [OF t] by (simp add: getNums_def)
qed (simp add: getNums_def)

function each_record :: "nat \<Rightarrow> (nat \<Rightarrow> string \<Rightarrow> 'a list) \<Rightarrow> nat \<Rightarrow> string \<Rightarrow> 'a list" where
  "each_record len step i s = (case getNthValueSafe i s CHR '';'' len of
       None \<Rightarrow> []
     | Some rec \<Rightarrow> step i rec @ each_record len step (i + 1) s)"
  by pat_completeness auto
termination
proof (relation "measure (\<lambda>(len, step, i, s). getNums s CHR '';'' - i)")
  fix step :: "nat \<Rightarrow> string \<Rightarrow> 'a list" and i s rec len
  assume "getNthValueSafe i s CHR '';'' len = Some rec"
  then have "i < getNums s CHR '';''" by (auto simp: getNthValueSafe_def dest: nth_value_bound split: if_splits)
  then show "((len, step, i + 1, s), (len, step, i, s)) \<in> measure (\<lambda>(len, step, i, s). getNums s CHR '';'' - i)" by simp
qed simp

declare each_record.simps [simp del]

definition run_records :: "(string \<Rightarrow> 'a list) \<Rightarrow> string \<Rightarrow> 'a list" where
  "run_records step s = each_record 256 (\<lambda>_. step) 0 s"

section \<open>Joined values\<close>

text \<open>The values of a list, with the delimiter between them.\<close>

fun joined :: "char \<Rightarrow> string list \<Rightarrow> string" where
  "joined d [] = []"
| "joined d [v] = v"
| "joined d (v # w # vs) = v @ d # joined d (w # vs)"

lemma joined_Cons: "joined d (v # vs) = v @ concat (map ((#) d) vs)"
  by (induction vs arbitrary: v) auto

lemma joined_append: "vs \<noteq> [] \<Longrightarrow> joined d (vs @ [v]) = joined d vs @ d # v"
  by (cases vs) (simp_all add: joined_Cons)

lemma joined_empty: "\<forall>v \<in> set vs. v \<noteq> [] \<Longrightarrow> joined d vs = [] \<longleftrightarrow> vs = []"
  by (cases vs) (simp_all add: joined_Cons)

lemma nth_value_joined:
  assumes "\<forall>v \<in> set vs. d \<notin> set v" and "vs \<noteq> []"
  shows "nth_value i d (joined d vs) = (if i < length vs then Some (vs ! i) else None)"
  using assms
proof (induction vs arbitrary: i)
  case (Cons v vs)
  show ?case
  proof (cases vs)
    case Nil
    have "strchr d v = None" and t: "takeWhile (\<lambda>c. c \<noteq> d) v = v" using Cons.prems by (auto simp: takeWhile_eq_all_conv)
    then have "nth_value (Suc k) d v = None" for k by (simp only: nth_value.simps option.case)
    then show ?thesis using Nil t by (cases i) (simp_all del: nth_value.simps(2))
  next
    case (Cons w ws)
    then have s: "strchr d (joined d (v # vs)) = Some (d # joined d vs)" using Cons.prems by simp
    have t: "takeWhile (\<lambda>c. c \<noteq> d) (v @ d # x) = v" for x
      using Cons.prems by (subst takeWhile_append2) auto
    show ?thesis
    proof (cases i)
      case 0
      then show ?thesis using \<open>vs = w # ws\<close> t by simp
    next
      case (Suc k)
      then show ?thesis using Cons.IH [of k] Cons.prems s \<open>vs = w # ws\<close> by simp
    qed
  qed
qed simp

lemma getNums_joined:
  assumes "\<forall>v \<in> set vs. d \<notin> set v" and "vs \<noteq> []"
  shows "getNums (joined d vs) d = length vs"
proof -
  have n: "filter (\<lambda>c. c = d) v = []" if "v \<in> set vs" for v using assms(1) that by (auto simp: filter_empty_conv)
  obtain v ws where "vs = v # ws" using assms(2) by (cases vs) auto
  moreover have "length (filter (\<lambda>c. c = d) (concat (map ((#) d) ws))) = length ws" if "\<forall>v \<in> set ws. filter (\<lambda>c. c = d) v = []" for ws
    using that by (induction ws) auto
  ultimately show ?thesis using n by (simp add: getNums_def joined_Cons)
qed

lemma each_record_joined:
  assumes "\<forall>v \<in> set vs. CHR '';'' \<notin> set v \<and> length v < len" and "vs \<noteq> []"
  shows "each_record len step i (joined CHR '';'' vs) = concat (map (\<lambda>k. step k (vs ! k)) [i..<length vs])"
proof (induction "length vs - i" arbitrary: i)
  case 0
  then have "getNthValueSafe i (joined CHR '';'' vs) CHR '';'' len = None"
    using nth_value_joined [of vs "CHR '';''" i] assms by (simp add: getNthValueSafe_def)
  then show ?case using 0 by (subst each_record.simps) simp
next
  case (Suc k)
  then have i: "i < length vs" by simp
  moreover have "length (vs ! i) \<le> len - 1" "len \<noteq> 0" using assms(1) nth_mem [OF i] by fastforce+
  ultimately have "getNthValueSafe i (joined CHR '';'' vs) CHR '';'' len = Some (vs ! i)"
    using nth_value_joined [of vs "CHR '';''" i] assms by (simp add: getNthValueSafe_def)
  moreover have "each_record len step (i + 1) (joined CHR '';'' vs) = concat (map (\<lambda>k. step k (vs ! k)) [i + 1..<length vs])"
    by (rule Suc(1)) (use Suc(2) in simp)
  moreover have "[i..<length vs] = i # [i + 1..<length vs]" using i by (simp add: upt_conv_Cons)
  ultimately show ?case by (subst each_record.simps) simp
qed

lemma run_records_joined:
  assumes "\<forall>v \<in> set vs. CHR '';'' \<notin> set v \<and> length v < 256" and "vs \<noteq> []"
  shows "run_records step (joined CHR '';'' vs) = concat (map step vs)"
proof -
  have "map (\<lambda>k. step (vs ! k)) [0..<length vs] = map step vs" by (rule nth_equalityI) simp_all
  then show ?thesis using each_record_joined [OF assms, of "\<lambda>_. step" 0] by (simp add: run_records_def)
qed

text \<open>The fields of a record, read in the order of the code.\<close>

definition field :: "nat \<Rightarrow> nat \<Rightarrow> string \<Rightarrow> (string \<Rightarrow> 'a list) \<Rightarrow> 'a list" where
  "field k n rec f = (case getNthValueSafe k rec CHR '','' n of None \<Rightarrow> [] | Some v \<Rightarrow> f v)"

lemma field_joined:
  assumes "\<forall>v \<in> set vs. CHR '','' \<notin> set v" and "k < length vs" and "length (vs ! k) < n"
  shows "field k n (joined CHR '','' vs) f = f (vs ! k)"
proof -
  have "vs \<noteq> []" using assms(2) by auto
  then show ?thesis using nth_value_joined [OF assms(1)] assms(2,3) by (simp add: field_def getNthValueSafe_def)
qed

lemma field_Nil: "field (Suc k) n [] f = []"
  by (simp add: field_def getNthValueSafe_def)

section \<open>Deleting\<close>

lemma pieces_plain: "d \<notin> set v \<Longrightarrow> pieces_of d (v @ s) = (v @ hd (pieces_of d s)) # tl (pieces_of d s)"
proof (induction v)
  case Nil
  have "pieces_of d s \<noteq> []" by (cases s) (auto split: list.splits)
  then show ?case by simp
qed (auto split: list.splits)

lemma pieces_joined:
  assumes "\<forall>v \<in> set vs. d \<notin> set v" and "d \<notin> set v"
  shows "pieces_of d (v @ concat (map ((#) d) vs)) = v # map ((#) d) vs"
  using assms
proof (induction vs arbitrary: v)
  case Nil
  then show ?case using pieces_plain [of d v "[]"] by simp
next
  case (Cons w ws)
  have "pieces_of d (w @ concat (map ((#) d) ws)) = w # map ((#) d) ws" using Cons by simp
  then show ?case using pieces_plain [of d v "d # w @ concat (map ((#) d) ws)"] Cons.prems by simp
qed

text \<open>The values whose places are not among the indexes, which are in order.\<close>

fun kept :: "int list \<Rightarrow> int \<Rightarrow> 'a list \<Rightarrow> 'a list" where
  "kept js i [] = []"
| "kept js i (v # vs) = (if i \<in> set js then kept js (i + 1) vs else v # kept js (i + 1) vs)"

lemma kept_none: "kept [] i vs = vs"
  by (induction vs arbitrary: i) simp_all

lemma kept_map: "kept js i (map f vs) = map f (kept js i vs)"
  by (induction vs arbitrary: i) simp_all

lemma kept_later: "j < i \<Longrightarrow> kept (j # js) i vs = kept js i vs"
  by (induction vs arbitrary: i) simp_all

text \<open>Behind the indexes that count there may be others, which are out of range.\<close>

lemma delete_loop_kept:
  assumes "sorted_wrt (<) js" and "\<forall>j \<in> set js. i \<le> j" and "\<forall>g \<in> set gs. g < i \<or> i + int (length ps) \<le> g"
  shows "delete_loop i (js @ gs) ps = kept js i ps"
  using assms
proof (induction ps arbitrary: i js)
  case Nil
  then show ?case by simp
next
  case (Cons p ps)
  show ?case
  proof (cases js)
    case Nil
    show ?thesis
    proof (cases gs)
      case Nil
      then show ?thesis using \<open>js = []\<close> by (simp add: kept_none)
    next
      case (Cons g gs')
      then have "i \<noteq> g" using Cons.prems(3) by auto
      moreover have "delete_loop (i + 1) ([] @ gs) ps = kept [] (i + 1) ps"
        by (rule Cons.IH) (use Cons.prems(3) in auto)
      ultimately show ?thesis using \<open>js = []\<close> Cons by simp
    qed
  next
    case (Cons j js')
    show ?thesis
    proof (cases "i = j")
      case True
      have "delete_loop (i + 1) (js' @ gs) ps = kept js' (i + 1) ps"
        by (rule Cons.IH) (use Cons Cons.prems True in auto)
      moreover have "kept (j # js') (i + 1) ps = kept js' (i + 1) ps"
        using True by (simp add: kept_later)
      ultimately show ?thesis using Cons True by simp
    next
      case False
      have "delete_loop (i + 1) (js @ gs) ps = kept js (i + 1) ps"
        by (rule Cons.IH) (use Cons Cons.prems False in auto)
      moreover have "i \<notin> set js" using Cons Cons.prems False by auto
      ultimately show ?thesis using Cons False by simp
    qed
  qed
qed

text \<open>Deleting values from a joined list leaves the joined list of the others.\<close>

lemma delete_joined:
  assumes "\<forall>v \<in> set vs. CHR '';'' \<notin> set v \<and> v \<noteq> []" and "vs \<noteq> []" and "js \<noteq> []"
    and "sorted_wrt (<) js" and "\<forall>j \<in> set js. 0 \<le> j" and "\<forall>g \<in> set gs. g < 0 \<or> int (length vs) \<le> g"
  shows "deleteNthValueMulti (js @ gs) (joined CHR '';'' vs) CHR '';'' = joined CHR '';'' (kept js 0 vs)"
proof -
  let ?d = "CHR '';''"
  obtain v ws where vs: "vs = v # ws" using assms(2) by (cases vs) auto
  have p: "pieces_of ?d (joined ?d vs) = v # map ((#) ?d) ws"
    using assms(1) vs by (simp add: joined_Cons pieces_joined)
  have "delete_loop 0 (js @ gs) (v # map ((#) ?d) ws) = kept js 0 (v # map ((#) ?d) ws)"
    by (rule delete_loop_kept) (use assms vs in simp_all)
  then have k: "delete_loop 0 (js @ gs) (v # map ((#) ?d) ws) =
      (if 0 \<in> set js then map ((#) ?d) (kept js 1 ws) else v # map ((#) ?d) (kept js 1 ws))"
    by (simp add: kept_map)
  have h: "hd (js @ gs) = 0 \<longleftrightarrow> 0 \<in> set js"
  proof (cases js)
    case (Cons j js')
    then show ?thesis using assms(4,5) by force
  qed (use assms(3) in simp)
  have D: "deleteNthValueMulti (js @ gs) (joined ?d vs) ?d = (let rest = concat (delete_loop 0 (js @ gs) (v # map ((#) ?d) ws))
      in if 0 \<in> set js \<and> ws \<noteq> [] \<and> rest \<noteq> [] \<and> hd rest = ?d then tl rest else rest)"
    using assms(3) h unfolding deleteNthValueMulti_def p by (simp add: Let_def)
  show ?thesis
  proof (cases "0 \<in> set js")
    case True
    then show ?thesis unfolding D k by (cases ws; cases "kept js 1 ws") (auto simp: vs joined_Cons Let_def)
  next
    case False
    then show ?thesis unfolding D k by (simp add: vs joined_Cons)
  qed
qed

lemma kept_nths: "kept js i vs = nths vs {k. i + int k \<notin> set js}"
proof (induction vs arbitrary: i)
  case (Cons v vs)
  have "{k. i + int (Suc k) \<notin> set js} = {k. (i + 1) + int k \<notin> set js}" by (simp add: algebra_simps)
  then show ?case using Cons.IH [of "i + 1"] by (simp add: nths_Cons)
qed simp

section \<open>Lists of rules\<close>

definition setting_text :: "('r \<Rightarrow> string) \<Rightarrow> 'r list \<Rightarrow> string" where
  "setting_text writes rs = joined CHR '';'' (map writes rs)"

text \<open>
  A kind of rule: its text, which has no semicolon, is not empty and fits the array for a record, and what is done
  for a record, which for the text of a rule is what the rule stands for.
\<close>

locale rule_list =
  fixes writes :: "'r \<Rightarrow> string" and does :: "'r \<Rightarrow> 'a list" and step :: "string \<Rightarrow> 'a list" and ok :: "'r \<Rightarrow> bool"
  assumes writes_plain: "ok r \<Longrightarrow> CHR '';'' \<notin> set (writes r) \<and> writes r \<noteq> [] \<and> length (writes r) < 256"
    and step_writes: "ok r \<Longrightarrow> step (writes r) = does r"
    and step_Nil: "step [] = []"
begin

lemma texts_plain: "\<forall>r \<in> set rs. ok r \<Longrightarrow> \<forall>v \<in> set (map writes rs). CHR '';'' \<notin> set v \<and> v \<noteq> [] \<and> length v < 256"
  using writes_plain by auto

lemma text_empty: "\<forall>r \<in> set rs. ok r \<Longrightarrow> setting_text writes rs = [] \<longleftrightarrow> rs = []"
  using joined_empty [of "map writes rs" "CHR '';''"] texts_plain [of rs] by (simp add: setting_text_def)

text \<open>The loop does what the rules stand for, in order.\<close>

lemma run_rules:
  assumes "\<forall>r \<in> set rs. ok r"
  shows "run_records step (setting_text writes rs) = concat (map does rs)"
proof (cases "rs = []")
  case True
  have "each_record 256 (\<lambda>_. step) 1 [] = []" by (subst each_record.simps) (simp add: getNthValueSafe_def)
  moreover have "run_records step [] = step [] @ each_record 256 (\<lambda>_. step) 1 []"
    unfolding run_records_def by (subst each_record.simps) (simp add: getNthValueSafe_def)
  ultimately show ?thesis using True step_Nil by (simp add: setting_text_def)
next
  case False
  have "run_records step (setting_text writes rs) = concat (map step (map writes rs))"
    using run_records_joined [of "map writes rs" step] texts_plain [OF assms] False by (simp add: setting_text_def)
  also have "map step (map writes rs) = map does rs" using assms step_writes by simp
  finally show ?thesis .
qed

lemma append_rule:
  assumes "\<forall>r \<in> set rs. ok r"
  shows "(if setting_text writes rs \<noteq> [] then setting_text writes rs @ '';'' @ writes r else writes r) = setting_text writes (rs @ [r])"
  using text_empty [OF assms] joined_append [of "map writes rs" "CHR '';''" "writes r"] by (simp add: setting_text_def)

text \<open>Deleting chosen rules leaves the text of the others.\<close>

lemma delete_rules:
  assumes "\<forall>r \<in> set rs. ok r" and "rs \<noteq> []" and "js \<noteq> []" and "sorted_wrt (<) js" and "\<forall>j \<in> set js. 0 \<le> j"
    and "\<forall>g \<in> set gs. g < 0 \<or> int (length rs) \<le> g"
  shows "deleteNthValueMulti (js @ gs) (setting_text writes rs) CHR '';'' = setting_text writes (nths rs {k. int k \<notin> set js})"
  using delete_joined [of "map writes rs" js gs] texts_plain [OF assms(1)] assms(2-6)
  by (simp add: setting_text_def kept_map kept_nths nths_map)

lemma count_texts: "\<forall>r \<in> set rs. ok r \<Longrightarrow> rs \<noteq> [] \<Longrightarrow> getNums (setting_text writes rs) CHR '';'' = length rs"
  using getNums_joined [of "map writes rs" "CHR '';''"] texts_plain [of rs] by (simp add: setting_text_def)

end

end
