(* ===== verification/FirewallRules.thy ===== *)
theory FirewallRules
  imports ValueLists WebThread
begin

text \<open>
  The pages of the firewall (goahead/src/firewall.c): forwarding of ports and of single ports, port triggers, the
  filter of addresses and ports.  A form adds a rule to a setting, or takes chosen rules out of it, and the
  rules of the setting become commands for iptables.  The HTML of the answers is left out;
  CONFIG_RALINKAPP_SUPERDMZ is not defined.
\<close>

section \<open>What the pages read and do\<close>

text \<open>
  The variables of the form, inet_aton, the WAN interface with its address, the port of the server, the kind of
  the board, whether there is a program for the shares of the line, and what
  fresh memory holds where the array of chosen rules is not written.
\<close>

record fw_env =
  fe_form :: "string \<Rightarrow> string option"
  fe_inet_aton :: "string \<Rightarrow> bool"
  fe_wan_ip :: "string option"
  fe_wan_name :: string
  fe_port :: int
  fe_one_port :: bool
  fe_qos_run :: bool
  fe_malloc :: bool
  fe_fresh :: "nat \<Rightarrow> int"

definition websGetVar :: "fw_env \<Rightarrow> string \<Rightarrow> string \<Rightarrow> string" where
  "websGetVar env name dflt = (case fe_form env name of None \<Rightarrow> dflt | Some v \<Rightarrow> v)"

text \<open>doSystem takes its text as a format.\<close>

definition doSystem :: "string \<Rightarrow> web_world \<Rightarrow> fault + web_world" where
  "doSystem c w = (if CHR ''%'' \<in> set c then Inl FormatDirective else Inr (act (Cmd c) w))"

fun doSystems :: "string list \<Rightarrow> web_world \<Rightarrow> fault + web_world" where
  "doSystems [] w = Inr w"
| "doSystems (c # cs) w = rbind (doSystem c w) (doSystems cs)"

definition setting :: "string \<Rightarrow> string \<Rightarrow> web_world \<Rightarrow> web_world" where
  "setting name v w = commit (bufset name v w)"

section \<open>Tests of what the user wrote\<close>

definition is_xdigit :: "char \<Rightarrow> bool" where
  "is_xdigit c = (is_digit c \<or> c \<in> set ''abcdefABCDEF'')"

definition isMacValid :: "string \<Rightarrow> bool" where
  "isMacValid s = (length s = 17 \<and>
     list_all (\<lambda>i. is_xdigit (s ! (3 * i)) \<and> is_xdigit (s ! (3 * i + 1)) \<and> s ! (3 * i + 2) = CHR '':'') [0, 1, 2, 3, 4] \<and>
     is_xdigit (s ! 15) \<and> is_xdigit (s ! 16))"

definition isIpValid :: "fw_env \<Rightarrow> string \<Rightarrow> bool" where
  "isIpValid env s = (s = ''any'' \<or> s = ''any/0'' \<or> fe_inet_aton env s)"

definition isNumOnly :: "string \<Rightarrow> bool" where
  "isNumOnly s = list_all is_digit s"

definition isAllNumAndSlash :: "string \<Rightarrow> bool" where
  "isAllNumAndSlash s = list_all (\<lambda>c. is_digit c \<or> c = CHR ''.'' \<or> c = CHR ''/'') s"

definition isOnlyOneSlash :: "string \<Rightarrow> bool" where
  "isOnlyOneSlash s = (length (filter (\<lambda>c. c = CHR ''/'') s) \<le> 1)"

text \<open>The copy of the text in 32 characters has no end when the text is longer.\<close>

definition isIpNetmaskValid :: "fw_env \<Rightarrow> string \<Rightarrow> fault + bool" where
  "isIpNetmaskValid env s =
     (if s = [] then Inr False
      else if 32 \<le> length s then Inl ReadOverrun
      else if s = ''any'' \<or> s = ''any/0'' then Inr True
      else if \<not> isAllNumAndSlash s then Inr False
      else if \<not> isOnlyOneSlash s then Inr False
      else (case strchr CHR ''/'' s of
          None \<Rightarrow> Inr (fe_inet_aton env s)
        | Some t \<Rightarrow>
            if tl t = [] \<or> \<not> isNumOnly (tl t) \<or> atoi (tl t) < 0 \<or> 32 < atoi (tl t) then Inr False
            else Inr (fe_inet_aton env (takeWhile (\<lambda>c. c \<noteq> CHR ''/'') s))))"

section \<open>Commands\<close>

definition PROTO_TCP :: int where "PROTO_TCP = 1"
definition PROTO_UDP :: int where "PROTO_UDP = 2"
definition PROTO_TCP_UDP :: int where "PROTO_TCP_UDP = 3"
definition PROTO_ICMP :: int where "PROTO_ICMP = 4"
definition PROTO_NONE :: int where "PROTO_NONE = 5"

text \<open>
  The buffer for a command has 1024 characters; with the arrays the parts come from it is never full, so
  that the lengths given to snprintf play no part.  A protocol that is not known leaves the end of
  the text where it is: what is written behind it is behind the NUL.
\<close>

definition port_range :: "int \<Rightarrow> int \<Rightarrow> string" where
  "port_range a b = (if b \<noteq> 0 then show_int a @ '':'' @ show_int b else show_int a)"

definition makePortForwardRule :: "string \<Rightarrow> string \<Rightarrow> int \<Rightarrow> int \<Rightarrow> int \<Rightarrow> string" where
  "makePortForwardRule wan_ip ip_address proto prf prt =
     ''iptables -t nat -A port_forward -j DNAT -d '' @ wan_ip @ '' '' @
     (if proto \<notin> {PROTO_TCP, PROTO_UDP, PROTO_TCP_UDP} then []
      else (if proto = PROTO_TCP then ''-p tcp '' else if proto = PROTO_UDP then ''-p udp '' else '' '') @
        ''--dport '' @ port_range prf prt @ '' --to '' @ ip_address @ '' '')"

definition makeSinglePortForwardRule :: "string \<Rightarrow> string \<Rightarrow> int \<Rightarrow> int \<Rightarrow> int \<Rightarrow> string" where
  "makeSinglePortForwardRule wan_name ip_address proto pub priv =
     ''iptables -t nat -A port_forward -j DNAT -i '' @ wan_name @ '' '' @
     (if proto \<notin> {PROTO_TCP, PROTO_UDP, PROTO_TCP_UDP} then []
      else (if proto = PROTO_TCP then ''-p tcp '' else if proto = PROTO_UDP then ''-p udp '' else '' '') @
        ''--dport '' @ show_int pub @ '' --to-destination '' @ ip_address @ '':'' @ show_int priv)"

definition makePortTriggerRule :: "int \<Rightarrow> int \<Rightarrow> int \<Rightarrow> int \<Rightarrow> string" where
  "makePortTriggerRule tproto tport iproto iport =
     ''iptables -t filter -A port_trigger '' @
     (if tproto \<noteq> PROTO_TCP \<and> tproto \<noteq> PROTO_UDP then []
      else (if tproto = PROTO_TCP then ''-p tcp '' else ''-p udp '') @ ''--dport '' @ show_int tport @
        '' -j TRIGGER --trigger-type out '' @
        (if iproto \<noteq> PROTO_TCP \<and> iproto \<noteq> PROTO_UDP then []
         else (if iproto = PROTO_TCP then ''--trigger-proto tcp '' else ''--trigger-proto udp '') @
           ''--trigger-match '' @ show_int tport @ '' --trigger-relate '' @ show_int iport))"

definition makeIPPortFilterRule :: "int \<Rightarrow> string \<Rightarrow> string \<Rightarrow> int \<Rightarrow> int \<Rightarrow> string \<Rightarrow> int \<Rightarrow> int \<Rightarrow> int \<Rightarrow> int \<Rightarrow> string" where
  "makeIPPortFilterRule spifw mac_address sip sprf sprt dip dprf dprt proto action =
     (if action = 0 then (if spifw = 0 then ''iptables -A macipport_filter ''
        else ''iptables -A macipport_filter -m state --state NEW,INVALID '')
      else if action = 1 then ''iptables -A macipport_filter '' else []) @
     (if mac_address \<noteq> [] then ''-m mac --mac-source '' @ mac_address @ '' '' else []) @
     ''-s '' @ sip @ '' -d '' @ dip @ '' '' @
     (if proto \<notin> {PROTO_TCP, PROTO_UDP, PROTO_ICMP, PROTO_NONE} then []
      else (if proto = PROTO_NONE then '' '' else if proto = PROTO_ICMP then ''-p icmp ''
          else (if proto = PROTO_TCP then ''-p tcp '' else ''-p udp '') @
            (if sprf \<noteq> 0 then ''--sport '' @ port_range sprf sprt @ '' '' else []) @
            (if dprf \<noteq> 0 then ''--dport '' @ port_range dprf dprt @ '' '' else [])) @
        (if action = 0 then ''-j DROP'' else if action = 1 then ''-j ACCEPT'' else []))"

text \<open>A rule for one protocol or for both.\<close>

definition for_protocols :: "int \<Rightarrow> (int \<Rightarrow> string) \<Rightarrow> string list" where
  "for_protocols proto f =
     (if proto = PROTO_TCP \<or> proto = PROTO_UDP then [f proto]
      else if proto = PROTO_TCP_UDP then [f PROTO_TCP, f PROTO_UDP] else [])"

section \<open>From the records to the commands\<close>

definition port_forward_step :: "fw_env \<Rightarrow> string \<Rightarrow> string \<Rightarrow> string list" where
  "port_forward_step env wan_ip rec =
     field 0 32 rec (\<lambda>ip. if \<not> isIpValid env ip then []
       else field 1 8 rec (\<lambda>prf. if atoi prf = 0 \<or> 65535 < atoi prf then []
         else field 2 8 rec (\<lambda>prt. if 65535 < atoi prt then []
           else field 3 8 rec (\<lambda>p. for_protocols (atoi p) (\<lambda>proto.
             makePortForwardRule wan_ip ip proto (atoi prf) (atoi prt))))))"

definition single_forward_step :: "fw_env \<Rightarrow> string \<Rightarrow> string list" where
  "single_forward_step env rec =
     field 0 32 rec (\<lambda>ip. if \<not> isIpValid env ip then []
       else field 1 8 rec (\<lambda>pub. if atoi pub = 0 \<or> 65535 < atoi pub then []
         else field 2 8 rec (\<lambda>priv. if atoi priv = 0 \<or> 65535 < atoi priv then []
           else field 3 8 rec (\<lambda>p. for_protocols (atoi p) (\<lambda>proto.
             makeSinglePortForwardRule (take 15 (fe_wan_name env)) ip proto (atoi pub) (atoi priv))))))"

definition port_trigger_step :: "string \<Rightarrow> string list" where
  "port_trigger_step rec =
     field 0 8 rec (\<lambda>tp. field 1 8 rec (\<lambda>tport. if atoi tport = 0 \<or> 65535 < atoi tport then []
       else field 2 8 rec (\<lambda>ip. field 3 8 rec (\<lambda>iport. if atoi iport = 0 \<or> 65535 < atoi iport then []
         else [makePortTriggerRule (atoi tp) (atoi tport) (atoi ip) (atoi iport)]))))"

definition ipport_filter_step :: "fw_env \<Rightarrow> int \<Rightarrow> string \<Rightarrow> string list" where
  "ipport_filter_step env spifw rec =
     field 0 32 rec (\<lambda>sip. if isIpNetmaskValid env sip \<noteq> Inr True then []
       else field 2 8 rec (\<lambda>sprf. if 65535 < atoi sprf then []
         else field 3 8 rec (\<lambda>sprt. if 65535 < atoi sprt then []
           else field 4 32 rec (\<lambda>dip. if isIpNetmaskValid env dip \<noteq> Inr True then []
             else field 6 8 rec (\<lambda>dprf. if 65535 < atoi dprf then []
               else field 7 8 rec (\<lambda>dprt. if 65535 < atoi dprt then []
                 else field 8 8 rec (\<lambda>p. field 9 4 rec (\<lambda>a. field 11 32 rec (\<lambda>m.
                   if m \<noteq> [] \<and> \<not> isMacValid m then []
                   else [makeIPPortFilterRule spifw m sip (atoi sprf) (atoi sprt) dip (atoi dprf) (atoi dprt) (atoi p) (atoi a)])))))))))"

section \<open>The chains\<close>

definition iptablesPortForwardFlush :: "web_world \<Rightarrow> web_world" where
  "iptablesPortForwardFlush w = act (Cmd ''iptables -t nat -F port_forward 1>/dev/null 2>&1'') w"

text \<open>The chain of the single ports is the chain of the others.\<close>

definition iptablesSinglePortForwardFlush :: "web_world \<Rightarrow> web_world" where
  "iptablesSinglePortForwardFlush w = act (Cmd ''iptables -t nat -F port_forward 1>/dev/null 2>&1'') w"

definition iptablesPortTriggerFlush :: "web_world \<Rightarrow> web_world" where
  "iptablesPortTriggerFlush w = act (Cmd ''iptables -t nat -F trigger_prerouting 1>/dev/null 2>&1'')
     (act (Cmd ''iptables -t filter -F port_trigger 1>/dev/null 2>&1'') w)"

definition iptablesIPPortFilterFlush :: "web_world \<Rightarrow> web_world" where
  "iptablesIPPortFilterFlush w = act (Cmd ''iptables -F macipport_filter 1>/dev/null 2>&1'') w"

definition iptablesDMZFlush :: "web_world \<Rightarrow> web_world" where
  "iptablesDMZFlush w = act (Cmd ''iptables -t nat -F DMZ 1>/dev/null 2>&1'') w"

definition conntrack_flush :: "web_world \<Rightarrow> web_world" where
  "conntrack_flush w = fold (\<lambda>c. act (Cmd c))
     [''cat /proc/sys/net/netfilter/nf_conntrack_udp_timeout > /var/.udpbackup'',
      ''echo 0 > /proc/sys/net/netfilter/nf_conntrack_udp_timeout'',
      ''cat /var/.udpbackup > /proc/sys/net/netfilter/nf_conntrack_udp_timeout; rm -f /var/.udpbackup'',
      ''cat /proc/sys/net/netfilter/nf_conntrack_tcp_timeout_established > /var/.tcpbackup'',
      ''echo 0 > /proc/sys/net/netfilter/nf_conntrack_tcp_timeout_established'',
      ''cat /var/.tcpbackup > /proc/sys/net/netfilter/nf_conntrack_tcp_timeout_established; rm -f /var/.tcpbackup''] w"

definition iptablesPortForwardRun :: "fw_env \<Rightarrow> web_world \<Rightarrow> fault + web_world" where
  "iptablesPortForwardRun env w =
     (if atoi (w_cache w ''PortForwardEnable'') = 0 then Inr w
      else (case fe_wan_ip env of
          None \<Rightarrow> Inr w
        | Some a \<Rightarrow> doSystems (run_records (port_forward_step env a) (w_cache w ''PortForwardRules'')) w))"

definition iptablesSinglePortForwardRun :: "fw_env \<Rightarrow> web_world \<Rightarrow> fault + web_world" where
  "iptablesSinglePortForwardRun env w =
     (if atoi (w_cache w ''SinglePortForwardEnable'') = 0 then Inr w
      else doSystems (run_records (single_forward_step env) (w_cache w ''SinglePortForwardRules'')) w)"

definition iptablesPortTriggerRun :: "web_world \<Rightarrow> fault + web_world" where
  "iptablesPortTriggerRun w =
     (if atoi (w_cache w ''PortTriggerEnable'') = 0 then Inr w
      else doSystems (run_records port_trigger_step (w_cache w ''PortTriggerRules'') @
        [''iptables -t nat -A trigger_prerouting -j TRIGGER --trigger-type dnat'']) w)"

definition iptablesIPPortFilterRun :: "fw_env \<Rightarrow> web_world \<Rightarrow> fault + web_world" where
  "iptablesIPPortFilterRun env w =
     (let spifw = atoi (w_cache w ''SPIFWEnabled''); policy = atoi (w_cache w ''DefaultFirewallPolicy'') in
      if atoi (w_cache w ''IPPortFilterEnable'') = 0 then Inr w
      else doSystems
        ((if policy = 1 \<and> spifw \<noteq> 0 then [''iptables -t filter -A macipport_filter -m state --state RELATED,ESTABLISHED -j ACCEPT''] else []) @
         run_records (ipport_filter_step env spifw) (w_cache w ''IPPortFilterRules'') @
         (if policy = 0 then [''iptables -t filter -A macipport_filter -j ACCEPT'']
          else if policy = 1 then [''iptables -t filter -A macipport_filter -j DROP''] else [])) w)"

section \<open>The host that gets everything else\<close>

text \<open>
  For the super DMZ the ports that are forwarded are left out.  Their texts are put into 1024 characters with
  strncat, whose bound is the size of the whole array each time.
\<close>

definition avoided :: "int \<Rightarrow> string \<Rightarrow> string" where
  "avoided proto ports =
     (if proto = PROTO_TCP then ''-t '' @ ports @ '' ''
      else if proto = PROTO_UDP then ''-u '' @ ports @ '' ''
      else if proto = PROTO_TCP_UDP then ''-t '' @ ports @ '' -u '' @ ports @ '' '' else [])"

definition avoid_text :: "string \<Rightarrow> fault + string" where
  "avoid_text s = (if 1024 \<le> length s then Inl WriteOverflow else Inr s)"

definition SuperDMZ_MakeSinglePortForwardAvoidStr :: "web_world \<Rightarrow> fault + string" where
  "SuperDMZ_MakeSinglePortForwardAvoidStr w =
     (if atoi (w_cache w ''SinglePortForwardEnable'') = 0 then Inr []
      else avoid_text (run_records (\<lambda>rec.
        field 1 8 rec (\<lambda>pub. if atoi pub = 0 \<or> 65535 < atoi pub then []
          else field 3 8 rec (\<lambda>p. avoided (atoi p) pub))) (w_cache w ''SinglePortForwardRules'')))"

definition SuperDMZ_MakePortForwardAvoidStr :: "web_world \<Rightarrow> fault + string" where
  "SuperDMZ_MakePortForwardAvoidStr w =
     (if atoi (w_cache w ''PortForwardEnable'') = 0 then Inr []
      else avoid_text (run_records (\<lambda>rec.
        field 3 8 rec (\<lambda>p. field 1 8 rec (\<lambda>prf. if atoi prf = 0 \<or> 65535 < atoi prf then []
          else field 2 8 rec (\<lambda>prt. if 65535 < atoi prt then []
            else avoided (atoi p) (if atoi prt \<noteq> 0 then prf @ '':'' @ prt else prf))))) (w_cache w ''PortForwardRules'')))"

definition makeDMZRule :: "fw_env \<Rightarrow> string \<Rightarrow> int \<Rightarrow> fault + string" where
  "makeDMZRule env address avoidtcpport80 =
     (let c = ''iptables -t nat -A DMZ -j DNAT -i '' @ fe_wan_name env @ '' --to '' @ address @
            ('';iptables -t nat -A DMZ -j DNAT -i '' @ fe_wan_name env @
             (if avoidtcpport80 \<noteq> 0 then '' -p tcp --dport ! '' @ show_int (fe_port env) else '' -p tcp'') @ '' --to '' @ address)
      in if 1024 \<le> length c then Inl WriteOverflow else Inr c)"

definition iptablesDMZRun :: "fw_env \<Rightarrow> web_world \<Rightarrow> fault + web_world" where
  "iptablesDMZRun env w =
     (let e = atoi (w_cache w ''DMZEnable''); t80 = atoi (w_cache w ''DMZAvoidTCPPort80'') in
      if e = 1 then rbind (makeDMZRule env (w_cache w ''DMZAddress'') t80) (\<lambda>c. doSystem c w)
      else if e = 2 then rbind (SuperDMZ_MakePortForwardAvoidStr w) (\<lambda>pf. rbind (SuperDMZ_MakeSinglePortForwardAvoidStr w) (\<lambda>sp.
        doSystem (take 1023 (''/bin/super_dmz '' @ (if t80 \<noteq> 0 then ''-t 80 '' else []) @ '' '' @ pf @ '' '' @ sp)) w))
      else Inr w)"

definition restart_dmz :: "fw_env \<Rightarrow> web_world \<Rightarrow> fault + web_world" where
  "restart_dmz env w = iptablesDMZRun env (iptablesDMZFlush w)"

section \<open>Taking rules out\<close>

text \<open>
  The chosen rules are written into an array with a place for each rule, and deleteNthValueMulti is told that all
  places are used.  None: nothing is done.
\<close>

definition delete_chosen :: "fw_env \<Rightarrow> string \<Rightarrow> string option" where
  "delete_chosen env rules =
     (let n = getNums rules CHR '';''; js = filter (\<lambda>i. fe_form env (''delRule'' @ show_nat i) \<noteq> None) [0..<n] in
      if rules = [] \<or> \<not> fe_malloc env \<or> js = [] then None
      else Some (deleteNthValueMulti (map int js @ map (fe_fresh env) [length js..<n]) rules CHR '';''))"

definition portForwardDelete :: "fw_env \<Rightarrow> web_world \<Rightarrow> fault + web_world" where
  "portForwardDelete env w = (case delete_chosen env (w_cache w ''PortForwardRules'') of
       None \<Rightarrow> Inr w
     | Some rules \<Rightarrow>
         let w = commit (setting ''PortForwardRules'' rules w) in
         if atoi (w_cache w ''PortForwardEnable'') = 0 then Inr w
         else rbind (iptablesPortForwardRun env (iptablesPortForwardFlush w)) (\<lambda>w.
           rbind (restart_dmz env w) (\<lambda>w. Inr (conntrack_flush w))))"

definition singlePortForwardDelete :: "fw_env \<Rightarrow> web_world \<Rightarrow> fault + web_world" where
  "singlePortForwardDelete env w = (case delete_chosen env (w_cache w ''SinglePortForwardRules'') of
       None \<Rightarrow> Inr w
     | Some rules \<Rightarrow>
         let w = commit (setting ''SinglePortForwardRules'' rules w) in
         rbind (if atoi (w_cache w ''SinglePortForwardEnable'') = 0 then Inr w
           else iptablesSinglePortForwardRun env (iptablesSinglePortForwardFlush w)) (\<lambda>w.
             rbind (restart_dmz env w) (\<lambda>w. Inr (conntrack_flush w))))"

definition portTriggerDelete :: "fw_env \<Rightarrow> web_world \<Rightarrow> fault + web_world" where
  "portTriggerDelete env w = (case delete_chosen env (w_cache w ''PortTriggerRules'') of
       None \<Rightarrow> Inr w
     | Some rules \<Rightarrow>
         let w = commit (setting ''PortTriggerRules'' rules w) in
         rbind (if atoi (w_cache w ''PortTriggerEnable'') = 0 then Inr w
           else iptablesPortTriggerRun (iptablesPortTriggerFlush w)) (\<lambda>w.
             rbind (restart_dmz env w) (\<lambda>w. Inr (conntrack_flush w))))"

definition ipportFilterDelete :: "fw_env \<Rightarrow> web_world \<Rightarrow> fault + web_world" where
  "ipportFilterDelete env w = (case delete_chosen env (w_cache w ''IPPortFilterRules'') of
       None \<Rightarrow> Inr w
     | Some rules \<Rightarrow>
         iptablesIPPortFilterRun env (iptablesIPPortFilterFlush (commit (setting ''IPPortFilterRules'' rules w))))"

section \<open>Adding rules\<close>

text \<open>The text of the setting with the new rule, in 8192 characters.\<close>

definition with_rule :: "string \<Rightarrow> string \<Rightarrow> string" where
  "with_rule rules rule = take 8191 (if rules \<noteq> [] then rules @ '';'' @ rule else rule)"

definition proto_number :: "string \<Rightarrow> int option" where
  "proto_number s = (if s = ''TCP'' then Some PROTO_TCP else if s = ''UDP'' then Some PROTO_UDP
     else if s = ''TCP&UDP'' then Some PROTO_TCP_UDP else None)"

definition comment_ok :: "string \<Rightarrow> bool" where
  "comment_ok s = (length s \<le> 32 \<and> CHR '';'' \<notin> set s \<and> CHR '','' \<notin> set s)"

definition portForward :: "fw_env \<Rightarrow> web_world \<Rightarrow> fault + web_world" where
  "portForward env w =
     (let v = \<lambda>n. websGetVar env n []; addr = v ''ip_address''; prf = atoi (v ''fromPort''); prt = atoi (v ''toPort'');
          prt' = (if v ''toPort'' = [] then 0 else prt)
      in if atoi (v ''portForwardEnabled'') = 0 then
           rbind (restart_dmz env (iptablesPortForwardFlush (setting ''PortForwardEnable'' ''0'' w))) (\<lambda>w. Inr (conntrack_flush w))
         else if addr = [] \<and> v ''fromPort'' = [] \<and> v ''toPort'' = [] \<and> v ''comment'' = [] then
           rbind (iptablesPortForwardRun env (iptablesPortForwardFlush (setting ''PortForwardEnable'' ''1'' w))) (\<lambda>w.
             rbind (restart_dmz env w) (\<lambda>w. Inr (conntrack_flush w)))
         else if \<not> isIpValid env addr \<or> prf = 0 \<or> 65535 < prf then Inr w
         else if v ''toPort'' \<noteq> [] \<and> (prt = 0 \<or> prt < prf \<or> 65535 < prt) then Inr w
         else (case proto_number (v ''protocol'') of
             None \<Rightarrow> Inr w
           | Some proto \<Rightarrow>
               if \<not> comment_ok (v ''comment'') then Inr w
               else (let w = setting ''PortForwardEnable'' ''1'' w;
                         rule = addr @ '','' @ show_int prf @ '','' @ show_int prt' @ '','' @ show_int proto @ '','' @ v ''comment'';
                         w = commit (setting ''PortForwardRules'' (with_rule (w_cache w ''PortForwardRules'') rule) w)
                     in rbind (iptablesPortForwardRun env (iptablesPortForwardFlush w)) (restart_dmz env))))"

definition singlePortForward :: "fw_env \<Rightarrow> web_world \<Rightarrow> fault + web_world" where
  "singlePortForward env w =
     (let v = \<lambda>n. websGetVar env n []; addr = v ''ip_address''; pub = atoi (v ''publicPort''); priv = atoi (v ''privatePort'')
      in if atoi (v ''singlePortForwardEnabled'') = 0 then
           rbind (restart_dmz env (iptablesSinglePortForwardFlush (setting ''SinglePortForwardEnable'' ''0'' w))) (\<lambda>w. Inr (conntrack_flush w))
         else if addr = [] \<and> v ''publicPort'' = [] \<and> v ''privatePort'' = [] \<and> v ''comment'' = [] then
           rbind (iptablesSinglePortForwardRun env (iptablesSinglePortForwardFlush (setting ''SinglePortForwardEnable'' ''1'' w))) (\<lambda>w.
             rbind (restart_dmz env w) (\<lambda>w. Inr (conntrack_flush w)))
         else if \<not> isIpValid env addr \<or> pub = 0 \<or> 65535 < pub \<or> priv = 0 \<or> 65535 < priv then Inr w
         else (case proto_number (v ''protocol'') of
             None \<Rightarrow> Inr w
           | Some proto \<Rightarrow>
               if \<not> comment_ok (v ''comment'') then Inr w
               else (let w = setting ''SinglePortForwardEnable'' ''1'' w;
                         rule = addr @ '','' @ show_int pub @ '','' @ show_int priv @ '','' @ show_int proto @ '','' @ v ''comment'';
                         w = commit (setting ''SinglePortForwardRules'' (with_rule (w_cache w ''SinglePortForwardRules'') rule) w)
                     in rbind (iptablesSinglePortForwardRun env (iptablesSinglePortForwardFlush w)) (restart_dmz env))))"

text \<open>Switching the triggers off or on empties the chain of the forwarded ports.\<close>

definition portTrigger :: "fw_env \<Rightarrow> web_world \<Rightarrow> fault + web_world" where
  "portTrigger env w =
     (let v = \<lambda>n. websGetVar env n []; tport = atoi (v ''triggerPortNumber''); iport = atoi (v ''incomingPortNumber'')
      in if atoi (v ''portTriggerEnabled'') = 0 then
           rbind (restart_dmz env (iptablesSinglePortForwardFlush (iptablesPortTriggerFlush (setting ''PortTriggerEnable'' ''0'' w)))) (\<lambda>w.
             Inr (conntrack_flush w))
         else if v ''triggerPortNumber'' = [] \<and> v ''incomingPortNumber'' = [] \<and> v ''triggerPortProtocol'' = [] \<and>
             v ''incomingPortProtocol'' = [] \<and> v ''comment'' = [] then
           rbind (iptablesPortTriggerRun (iptablesPortTriggerFlush (setting ''PortTriggerEnable'' ''1'' w))) (\<lambda>w.
             rbind (iptablesSinglePortForwardRun env (iptablesSinglePortForwardFlush w)) (\<lambda>w.
               rbind (restart_dmz env w) (\<lambda>w. Inr (conntrack_flush w))))
         else if tport = 0 \<or> 65535 < tport \<or> iport = 0 \<or> 65535 < iport then Inr w
         else (case (proto_number (v ''triggerPortProtocol''), proto_number (v ''incomingPortProtocol'')) of
             (Some tp, Some inp) \<Rightarrow>
               if tp = PROTO_TCP_UDP \<or> inp = PROTO_TCP_UDP \<or> \<not> comment_ok (v ''comment'') then Inr w
               else (let w = setting ''PortTriggerEnable'' ''1'' w;
                         rule = show_int tp @ '','' @ show_int tport @ '','' @ show_int inp @ '','' @ show_int iport @ '','' @ v ''comment'';
                         w = commit (setting ''PortTriggerRules'' (with_rule (w_cache w ''PortTriggerRules'') rule) w)
                     in rbind (iptablesPortTriggerRun (iptablesPortTriggerFlush w)) (restart_dmz env))
           | _ \<Rightarrow> Inr w))"

text \<open>An address of the filter: the text of the form, any/0 for an empty one; None: refused.\<close>

definition filter_address :: "fw_env \<Rightarrow> string \<Rightarrow> fault + string option" where
  "filter_address env s = (if s = [] then Inr (Some ''any/0'')
     else rbind (isIpNetmaskValid env s) (\<lambda>ok. Inr (if ok then Some s else None)))"

text \<open>A port of the filter, 0 for none and for protocols without ports.\<close>

definition filter_port :: "int \<Rightarrow> string \<Rightarrow> int option" where
  "filter_port proto s = (if s = [] \<or> proto = PROTO_NONE \<or> proto = PROTO_ICMP then Some 0
     else if atoi s = 0 \<or> 65535 < atoi s then None else Some (atoi s))"

definition filter_proto :: "string \<Rightarrow> int option" where
  "filter_proto s = (if s = ''TCP'' then Some PROTO_TCP else if s = ''UDP'' then Some PROTO_UDP
     else if s = ''None'' then Some PROTO_NONE else if s = ''ICMP'' then Some PROTO_ICMP else None)"

definition ipportFilter :: "fw_env \<Rightarrow> web_world \<Rightarrow> fault + web_world" where
  "ipportFilter env w =
     (let v = websGetVar env; m = v ''mac_address'' []; c = v ''comment'' [] in
      if m = [] \<and> v ''sip_address'' ''any'' = [] \<and> v ''dip_address'' ''any'' = [] \<and> v ''sFromPort'' ''0'' = [] \<and> v ''dFromPort'' ''0'' = []
      then Inr w
      else if m \<noteq> [] \<and> \<not> isMacValid m then Inr w
      else rbind (filter_address env (v ''sip_address'' ''any'')) (\<lambda>s. (case s of None \<Rightarrow> Inr w | Some sip \<Rightarrow>
        rbind (filter_address env (v ''dip_address'' ''any'')) (\<lambda>d. (case d of None \<Rightarrow> Inr w | Some dip \<Rightarrow>
          (case filter_proto (v ''protocol'' []) of None \<Rightarrow> Inr w | Some proto \<Rightarrow>
            (case (filter_port proto (v ''sFromPort'' ''0''), filter_port proto (v ''sToPort'' []),
                   filter_port proto (v ''dFromPort'' ''0''), filter_port proto (v ''dToPort'' [])) of
               (Some sf, Some st, Some df, Some dt) \<Rightarrow>
                 if v ''action'' [] \<noteq> ''Accept'' \<and> v ''action'' [] \<noteq> ''Drop'' then Inr w
                 else if \<not> comment_ok c then Inr w
                 else (let action = (if v ''action'' [] = ''Accept'' then 1 else 0 :: int);
                           rule = joined CHR '','' [sip, ''0'', show_int sf, show_int st, dip, ''0'', show_int df, show_int dt,
                             show_int proto, show_int action, c, m]
                       in iptablesIPPortFilterRun env (iptablesIPPortFilterFlush
                         (commit (setting ''IPPortFilterRules'' (with_rule (w_cache w ''IPPortFilterRules'') rule) w))))
             | _ \<Rightarrow> Inr w)))))))"

end
