(* ===== verification/FirewallPages.thy ===== *)
theory FirewallPages
  imports FirewallRules
begin

text \<open>
  The rest of the firewall (goahead/src/firewall.c): the chains when the server starts and ends, the filters against
  misuse and of web pages, the forms that switch them, the host of the DMZ, and the tables of rules on the pages.
  A table is the list of its rows.
\<close>

section \<open>Chains\<close>

definition runs :: "string list \<Rightarrow> web_world \<Rightarrow> web_world" where
  "runs cs w = fold (\<lambda>c. act (Cmd c)) cs w"

definition quiet :: "string \<Rightarrow> string" where
  "quiet c = c @ '' 1>/dev/null 2>&1''"

definition iptablesForwardFilterClear :: "web_world \<Rightarrow> web_world" where
  "iptablesForwardFilterClear w = runs [quiet ''iptables -F -t filter''] w"

definition iptablesPortTriggerClear :: "web_world \<Rightarrow> web_world" where
  "iptablesPortTriggerClear w = runs (map quiet
     [''iptables -t filter -D FORWARD -j port_trigger'', ''iptables -t filter -F port_trigger'']) w"

definition iptablesIPPortFilterClear :: "web_world \<Rightarrow> web_world" where
  "iptablesIPPortFilterClear w = runs (map quiet
     [''iptables -D FORWARD -j macipport_filter'', ''iptables -F macipport_filter'']) w"

definition iptablesWebContentFilterClear :: "web_world \<Rightarrow> web_world" where
  "iptablesWebContentFilterClear w = runs (map quiet
     [''iptables -D FORWARD -j web_filter '', ''iptables -F web_filter '']) w"

definition iptablesMaliciousFilterClear :: "web_world \<Rightarrow> web_world" where
  "iptablesMaliciousFilterClear w = runs (map quiet
     [''iptables -D FORWARD -j malicious_filter'', ''iptables -F malicious_filter '',
      ''iptables -D INPUT -j malicious_input_filter'', ''iptables -F malicious_input_filter '']) w"

definition iptablesMaliciousFilterFlush :: "web_world \<Rightarrow> web_world" where
  "iptablesMaliciousFilterFlush w = runs (map quiet
     [''iptables -F malicious_filter '', ''iptables -F synflood_filter '',
      ''iptables -A malicious_filter -p tcp --syn -j synflood_filter'',
      ''iptables -F malicious_input_filter '', ''iptables -F synflood_input_filter '',
      ''iptables -A malicious_input_filter -p tcp --syn -j synflood_input_filter''] @
     [''echo 0 > /proc/sys/net/ipv4/tcp_syncookies 2>&1 1>/dev/null'']) w"

definition iptablesDMZClear :: "web_world \<Rightarrow> web_world" where
  "iptablesDMZClear w = runs [quiet ''iptables -t nat -D PREROUTING -j DMZ'',
     quiet ''iptables -t nat -F DMZ'' @ ''; '' @ quiet ''iptables -t nat -X DMZ ''] w"

definition iptablesPortForwardClear :: "web_world \<Rightarrow> web_world" where
  "iptablesPortForwardClear w = runs [quiet ''iptables -t nat -D PREROUTING -j port_forward'',
     quiet ''iptables -t nat -F port_forward '' @ ''; '' @ quiet ''iptables -t nat -X port_forward ''] w"

definition iptablesNATPortTriggerClear :: "web_world \<Rightarrow> web_world" where
  "iptablesNATPortTriggerClear w = runs [quiet ''iptables -t nat -D PREROUTING -j trigger_prerouting'',
     quiet ''iptables -t nat -F trigger_prerouting '' @ ''; '' @ quiet ''iptables -t nat -X trigger_prerouting ''] w"

definition iptablesAllFilterClear :: "web_world \<Rightarrow> web_world" where
  "iptablesAllFilterClear w = runs [''iptables -P INPUT ACCEPT'', ''iptables -P OUTPUT ACCEPT'', ''iptables -P FORWARD ACCEPT'']
     (iptablesNATPortTriggerClear (iptablesPortTriggerClear (iptablesMaliciousFilterClear (iptablesWebContentFilterClear
       (iptablesIPPortFilterClear (iptablesForwardFilterClear w))))))"

definition iptablesAllNATClear :: "web_world \<Rightarrow> web_world" where
  "iptablesAllNATClear w = conntrack_flush (iptablesDMZClear (iptablesPortForwardClear w))"

section \<open>Filters against misuse\<close>

definition iptablesRemoteManagementRun :: "fw_env \<Rightarrow> web_world \<Rightarrow> web_world" where
  "iptablesRemoteManagementRun env w =
     (let spifw = atoi (w_cache w ''SPIFWEnabled''); wan = fe_wan_name env;
          c = ''iptables -A malicious_input_filter -i '' @ wan
      in if w_cache w ''OperationMode'' \<noteq> ''1'' \<or> atoi (w_cache w ''RemoteManagement'') = 1 then w
         else runs
           ((if spifw = 0 then [] else [c @ '' -m state --state RELATED,ESTABLISHED -j ACCEPT'']) @
            (if fe_one_port env then
               [if spifw = 0 then c @ '' -d 172.32.1.254 -p tcp --dport 80 -j ACCEPT''
                else c @ '' -m state -d 172.32.1.254 -p tcp --dport 80 --state NEW,INVALID -j ACCEPT''] else []) @
            [if spifw = 0 then c @ '' -p tcp --dport 80 -j DROP''
             else c @ '' -m state -p tcp --dport 80 --state NEW,INVALID -j DROP'']) w)"

definition port_scans :: "string \<Rightarrow> string list" where
  "port_scans chain = map (\<lambda>t. ''iptables -A '' @ chain @ '' -p tcp --tcp-flags '' @ t)
     [''ALL FIN,URG,PSH -j DROP'', ''ALL SYN,RST,ACK,FIN,URG -j DROP'', ''ALL NONE -j DROP'', ''SYN,RST SYN,RST -j DROP'',
      ''SYN,FIN SYN,FIN '']"

definition iptablesMaliciousFilterRun :: "fw_env \<Rightarrow> web_world \<Rightarrow> web_world" where
  "iptablesMaliciousFilterRun env w = runs
     ((if atoi (w_cache w ''WANPingFilter'') = 0 then []
       else [''iptables -A malicious_input_filter -i '' @ fe_wan_name env @ '' -p icmp -j DROP'']) @
      (if atoi (w_cache w ''BlockPortScan'') = 0 then [] else port_scans ''malicious_filter'' @ port_scans ''malicious_input_filter'') @
      (if atoi (w_cache w ''BlockSynFlood'') = 0 then []
       else [''echo 1 > /proc/sys/net/ipv4/tcp_syncookies 2>&1 1>/dev/null''])) w"

section \<open>The filter of web pages\<close>

definition content_filter :: "web_world \<Rightarrow> int" where
  "content_filter w = (if w_cache w ''websFilterJava'' = ''1'' then 1 else 0) + (if w_cache w ''websFilterActivex'' = ''1'' then 2 else 0) +
     (if w_cache w ''websFilterCookies'' = ''1'' then 4 else 0) + (if w_cache w ''websFilterProxy'' = ''1'' then 8 else 0)"

definition content_cmds :: "int \<Rightarrow> string list" where
  "content_cmds n = (if n = 0 then [] else map (\<lambda>port. ''iptables -A web_filter -p tcp -m tcp --dport '' @ port @ '' -m webstr --content '' @
     show_int n @ '' -j REJECT --reject-with tcp-reset'') [''80  '', ''3128'', ''8080''])"

text \<open>The text of a URL without http:// in front.\<close>

definition url_step :: "string \<Rightarrow> string list" where
  "url_step entry = (if entry = [] then []
     else [''iptables -A web_filter -p tcp -m tcp -m webstr --url  '' @
       (if strcasecmp_eq (take 7 entry) ''http://'' then drop 7 entry else entry) @ '' -j REJECT --reject-with tcp-reset''])"

definition host_step :: "string \<Rightarrow> string list" where
  "host_step entry = (if entry = [] then []
     else [''iptables -A web_filter -p tcp -m tcp -m webstr --host '' @ entry @ '' -j REJECT --reject-with tcp-reset''])"

definition iptablesWebsFilterRun :: "web_world \<Rightarrow> web_world" where
  "iptablesWebsFilterRun w = runs (content_cmds (content_filter w) @ run_records url_step (w_cache w ''websURLFilters'') @
     run_records host_step (w_cache w ''websHostFilters'')) w"

definition restart_webs_filter :: "web_world \<Rightarrow> web_world" where
  "restart_webs_filter w = iptablesWebsFilterRun (runs [''iptables -t filter -F web_filter''] w)"

section \<open>Everything\<close>

definition iptablesAllFilterRun :: "fw_env \<Rightarrow> web_world \<Rightarrow> fault + web_world" where
  "iptablesAllFilterRun env w = rbind (iptablesIPPortFilterRun env w) (\<lambda>w.
     iptablesPortTriggerRun (iptablesMaliciousFilterRun env (iptablesRemoteManagementRun env (iptablesWebsFilterRun w))))"

definition iptablesAllNATRun :: "fw_env \<Rightarrow> web_world \<Rightarrow> fault + web_world" where
  "iptablesAllNATRun env w = rbind (iptablesPortForwardRun env w) (\<lambda>w. rbind (iptablesSinglePortForwardRun env w) (iptablesDMZRun env))"

definition firewall_init :: "fw_env \<Rightarrow> web_world \<Rightarrow> fault + web_world" where
  "firewall_init env w =
     rbind (iptablesAllFilterRun env (runs (map quiet
       [''iptables -t filter -N web_filter'', ''iptables -t filter -N macipport_filter'', ''iptables -t filter -N malicious_filter'',
        ''iptables -t filter -N synflood_filter'', ''iptables -t filter -N malicious_input_filter'',
        ''iptables -t filter -N synflood_input_filter'', ''iptables -t filter -A FORWARD -j web_filter'',
        ''iptables -t filter -A FORWARD -j macipport_filter'', ''iptables -t filter -A FORWARD -j malicious_filter'',
        ''iptables -t filter -A malicious_filter -p tcp --syn -j synflood_filter'',
        ''iptables -t filter -A INPUT -j malicious_input_filter'',
        ''iptables -t filter -A malicious_input_filter -p tcp --syn -j synflood_input_filter'',
        ''iptables -A FORWARD -p tcp --tcp-flags SYN,RST SYN -j TCPMSS --clamp-mss-to-pmtu'',
        ''iptables -t filter -N port_trigger'', ''iptables -t filter -A FORWARD -j port_trigger'',
        ''iptables -t nat -N trigger_prerouting'', ''iptables -t nat -A PREROUTING -j trigger_prerouting''])
       (iptablesAllFilterClear w))) (\<lambda>w.
     iptablesAllNATRun env (runs
       [quiet ''iptables -t nat -N port_forward'' @ ''; '' @ quiet ''iptables -t nat -I PREROUTING 1 -j port_forward'',
        quiet ''iptables -t nat -N DMZ'' @ ''; '' @ quiet ''iptables -t nat -I PREROUTING 2 -j DMZ'',
        ''iptables -I malicious_input_filter   -p udp --dport 53 -j ACCEPT ''] (iptablesAllNATClear w)))"

definition firewall_fini :: "web_world \<Rightarrow> web_world" where
  "firewall_fini w = iptablesAllNATClear (iptablesAllFilterClear w)"

section \<open>Forms\<close>

definition BasicSettings :: "fw_env \<Rightarrow> web_world \<Rightarrow> fault + web_world" where
  "BasicSettings env w =
     (let e = atoi (websGetVar env ''portFilterEnabled'' []); p = atoi (websGetVar env ''defaultFirewallPolicy'' ''0'');
          w = (if e = 0 then setting ''IPPortFilterEnable'' ''0'' w else if e = 1 then setting ''IPPortFilterEnable'' ''1'' w else w);
          w = iptablesIPPortFilterFlush (commit (setting ''DefaultFirewallPolicy'' (if p = 1 then ''1'' else ''0'') w))
      in if atoi (w_cache w ''IPPortFilterEnable'') = 0 then Inr w else iptablesIPPortFilterRun env w)"

text \<open>The address of the second kind of DMZ is one of the hardware.\<close>

definition DMZ :: "fw_env \<Rightarrow> web_world \<Rightarrow> fault + web_world" where
  "DMZ env w =
     (let e = atoi (websGetVar env ''DMZEnabled'' []); address = websGetVar env ''DMZAddress'' [];
          avoid = websGetVar env ''DMZTCPPort80'' []
      in if e = 1 \<and> \<not> isIpValid env address \<or> e = 2 \<and> \<not> isMacValid address then Inr w
         else (let w = iptablesDMZFlush w;
                   w = (if e = 1 \<or> e = 2 then
                          (let w = setting ''DMZEnable'' (if e = 1 then ''1'' else ''2'') w;
                               w = (if address \<noteq> [] then setting ''DMZAddress'' address w else w)
                           in setting ''DMZAvoidTCPPort80'' (if avoid \<noteq> [] then avoid else ''0'') w)
                        else setting ''DMZAvoidTCPPort80'' ''0'' (setting ''DMZEnable'' ''0'' w))
               in iptablesDMZRun env (commit w)))"

definition on_off :: "string \<Rightarrow> string" where
  "on_off v = (if atoi v = 0 then ''0'' else ''1'')"

definition websSysFirewall :: "fw_env \<Rightarrow> web_world \<Rightarrow> fault + web_world" where
  "websSysFirewall env w =
     (let v = websGetVar env; rm = v ''remoteManagementEnabled'' []; wp = v ''pingFrmWANFilterEnabled'' [];
          ps = v ''blockPortScanEnabled'' []; sf = v ''blockSynFloodEnabled'' []; fw = v ''spiFWEnabled'' ''1''
      in if rm = [] \<or> wp = [] \<or> fw = [] \<or> ps = [] \<or> sf = [] then Inr w
         else rbind (iptablesIPPortFilterRun env (iptablesIPPortFilterFlush (commit
             (bufset ''BlockSynFlood'' (on_off sf) (bufset ''BlockPortScan'' (on_off ps) (bufset ''SPIFWEnabled'' (on_off fw)
               (bufset ''WANPingFilter'' (on_off wp) (bufset ''RemoteManagement'' (on_off rm) w)))))))) (\<lambda>w.
           Inr (iptablesRemoteManagementRun env (iptablesMaliciousFilterRun env (iptablesMaliciousFilterFlush w)))))"

definition webContentFilter :: "fw_env \<Rightarrow> web_world \<Rightarrow> web_world" where
  "webContentFilter env w = restart_webs_filter (commit
     (fold (\<lambda>n. bufset n (on_off (websGetVar env n []))) [''websFilterProxy'', ''websFilterJava'', ''websFilterActivex'', ''websFilterCookies''] w))"

text \<open>A text is added to a list with no test but that it has no semicolon.\<close>

definition add_filter :: "fw_env \<Rightarrow> string \<Rightarrow> string \<Rightarrow> web_world \<Rightarrow> web_world" where
  "add_filter env name rule w =
     (if CHR '';'' \<in> set rule then w
      else if w_cache w name = [] then restart_webs_filter (commit (bufset name rule w))
      else if \<not> fe_malloc env then w
      else restart_webs_filter (commit (bufset name (w_cache w name @ '';'' @ rule) w)))"

definition websURLFilter :: "fw_env \<Rightarrow> web_world \<Rightarrow> web_world" where
  "websURLFilter env w = add_filter env ''websURLFilters'' (websGetVar env ''addURLFilter'' []) w"

definition websHostFilter :: "fw_env \<Rightarrow> web_world \<Rightarrow> web_world" where
  "websHostFilter env w = add_filter env ''websHostFilters'' (websGetVar env ''addHostFilter'' []) w"

definition delete_filters :: "fw_env \<Rightarrow> string \<Rightarrow> web_world \<Rightarrow> web_world" where
  "delete_filters env name w =
     (let rules = w_cache w name; n = getNums rules CHR '';''; js = filter (\<lambda>i. fe_form env (''DR'' @ show_nat i) \<noteq> None) [0..<n] in
      if rules = [] \<or> \<not> fe_malloc env \<or> js = [] then w
      else restart_webs_filter (commit (setting name
        (deleteNthValueMulti (map int js @ map (fe_fresh env) [length js..<n]) rules CHR '';'') w)))"

definition websURLFilterDelete :: "fw_env \<Rightarrow> web_world \<Rightarrow> web_world" where
  "websURLFilterDelete env w = delete_filters env ''websURLFilters'' w"

definition websHostFilterDelete :: "fw_env \<Rightarrow> web_world \<Rightarrow> web_world" where
  "websHostFilterDelete env w = delete_filters env ''websHostFilters'' w"

section \<open>Tables of rules\<close>

text \<open>The number of the row, the number in the name of its check box, and its texts.\<close>

record fw_row =
  rw_no :: nat
  rw_box :: nat
  rw_cells :: "string list"

definition proto_cell :: "int \<Rightarrow> string" where
  "proto_cell p = (if p = PROTO_TCP then ''TCP'' else if p = PROTO_UDP then ''UDP'' else if p = PROTO_TCP_UDP then ''TCP + UDP''
     else if p = PROTO_ICMP then ''ICMP'' else if p = PROTO_NONE then ''-'' else [])"

definition range_cell :: "int \<Rightarrow> int \<Rightarrow> string" where
  "range_cell a b = (if b \<noteq> 0 then show_int a @ '' - '' @ show_int b else show_int a)"

definition comment_cell :: "string \<Rightarrow> string" where
  "comment_cell c = (if c \<noteq> [] then c else ''&nbsp; '')"

definition fw_row_of :: "nat \<Rightarrow> string list \<Rightarrow> fw_row" where
  "fw_row_of i cells = \<lparr>rw_no = i + 1, rw_box = i, rw_cells = cells\<rparr>"

definition showPortForwardRulesASP :: "fw_env \<Rightarrow> web_world \<Rightarrow> fw_row list" where
  "showPortForwardRulesASP env w = (if w_cache w ''PortForwardRules'' = [] then []
     else each_record 128 (\<lambda>i rec.
       field 0 32 rec (\<lambda>ip. if \<not> isIpValid env ip then []
         else field 1 8 rec (\<lambda>prf. if atoi prf = 0 \<or> 65535 < atoi prf then []
           else field 2 8 rec (\<lambda>prt. if 65535 < atoi prt then []
             else field 3 8 rec (\<lambda>p. if atoi p \<notin> {PROTO_TCP, PROTO_UDP, PROTO_TCP_UDP} then []
               else field 4 16 rec (\<lambda>c. [fw_row_of i
                 [ip, range_cell (atoi prf) (atoi prt), proto_cell (atoi p), comment_cell c]])))))) 0 (w_cache w ''PortForwardRules''))"

definition showSinglePortForwardRulesASP :: "fw_env \<Rightarrow> web_world \<Rightarrow> fw_row list" where
  "showSinglePortForwardRulesASP env w = (if w_cache w ''SinglePortForwardRules'' = [] then []
     else each_record 128 (\<lambda>i rec.
       field 0 32 rec (\<lambda>ip. if \<not> isIpValid env ip then []
         else field 1 8 rec (\<lambda>pub. if atoi pub = 0 \<or> 65535 < atoi pub then []
           else field 2 8 rec (\<lambda>priv. if atoi priv = 0 \<or> 65535 < atoi priv then []
             else field 3 8 rec (\<lambda>p. if atoi p \<notin> {PROTO_TCP, PROTO_UDP, PROTO_TCP_UDP} then []
               else field 4 16 rec (\<lambda>c. [fw_row_of i
                 [ip, show_int (atoi pub), show_int (atoi priv), proto_cell (atoi p), comment_cell c]])))))) 0 (w_cache w ''SinglePortForwardRules''))"

text \<open>A protocol of a trigger that is not known has no cell.\<close>

definition trigger_cell :: "int \<Rightarrow> string list" where
  "trigger_cell p = (if p = PROTO_TCP then [''TCP''] else if p = PROTO_UDP then [''UDP''] else [])"

definition showPortTriggerRulesASP :: "web_world \<Rightarrow> fw_row list" where
  "showPortTriggerRulesASP w = (if w_cache w ''PortTriggerRules'' = [] then []
     else each_record 256 (\<lambda>i rec.
       field 0 8 rec (\<lambda>tp. field 1 8 rec (\<lambda>tport. if atoi tport = 0 \<or> 65535 < atoi tport then []
         else field 2 8 rec (\<lambda>ip. field 3 8 rec (\<lambda>iport. if atoi iport = 0 \<or> 65535 < atoi iport then []
           else field 4 16 rec (\<lambda>c. [fw_row_of i (trigger_cell (atoi tp) @ [show_int (atoi tport)] @ trigger_cell (atoi ip) @
             [show_int (atoi iport), comment_cell c])])))))) 0 (w_cache w ''PortTriggerRules''))"

text \<open>
  A record of the filter: it is passed over, it is read again, because i++ is missing where the protocol is not known,
  or it gives a row.
\<close>

datatype record_read = PassOver | ReadAgain | Row "string list"

definition need :: "nat \<Rightarrow> nat \<Rightarrow> string \<Rightarrow> (string \<Rightarrow> record_read) \<Rightarrow> record_read" where
  "need k n rec f = (case getNthValueSafe k rec CHR '','' n of None \<Rightarrow> PassOver | Some v \<Rightarrow> f v)"

definition address_cell :: "string \<Rightarrow> string" where
  "address_cell s = (if s = ''any/0'' then ''-'' else s)"

definition port_cell :: "int \<Rightarrow> int \<Rightarrow> string" where
  "port_cell a b = (if b \<noteq> 0 then show_int a @ '' - '' @ show_int b else if a = 0 then ''-'' else show_int a)"

definition action_cell :: "int \<Rightarrow> string list" where
  "action_cell a = (if a = 0 then [''Drop''] else if a = 1 then [''Accept''] else [])"

definition read_filter :: "fw_env \<Rightarrow> string \<Rightarrow> record_read" where
  "read_filter env rec =
     need 0 32 rec (\<lambda>sip. if isIpNetmaskValid env sip \<noteq> Inr True then PassOver
       else need 1 32 rec (\<lambda>_. need 2 8 rec (\<lambda>sprf. if 65535 < atoi sprf then PassOver
         else need 3 8 rec (\<lambda>sprt. if 65535 < atoi sprt then PassOver
           else need 4 32 rec (\<lambda>dip. if isIpNetmaskValid env dip \<noteq> Inr True then PassOver
             else need 5 32 rec (\<lambda>_. need 8 8 rec (\<lambda>p.
               if atoi p \<notin> {PROTO_TCP, PROTO_UDP, PROTO_NONE, PROTO_ICMP} then ReadAgain
               else need 6 8 rec (\<lambda>dprf. if 65535 < atoi dprf then PassOver
                 else need 7 8 rec (\<lambda>dprt. if 65535 < atoi dprt then PassOver
                   else need 9 4 rec (\<lambda>a. need 10 16 rec (\<lambda>c. need 11 32 rec (\<lambda>m.
                     Row ([if m = [] then ''-'' else m, address_cell dip, address_cell sip, proto_cell (atoi p),
                        port_cell (atoi dprf) (atoi dprt), port_cell (atoi sprf) (atoi sprt)] @ action_cell (atoi a) @ [comment_cell c])))))))))))))"

text \<open>None: the loop does not end.  An empty record ends it.\<close>

partial_function (option) filter_rows :: "fw_env \<Rightarrow> string \<Rightarrow> nat \<Rightarrow> (fw_row list \<times> nat) option" where
  "filter_rows env rules i = (case getNthValueSafe i rules CHR '';'' 256 of
       None \<Rightarrow> Some ([], i)
     | Some rec \<Rightarrow> if rec = [] then Some ([], i) else (case read_filter env rec of
           PassOver \<Rightarrow> filter_rows env rules (i + 1)
         | ReadAgain \<Rightarrow> filter_rows env rules i
         | Row cells \<Rightarrow> Option.bind (filter_rows env rules (i + 1)) (\<lambda>(rows, n). Some (fw_row_of i cells # rows, n))))"

text \<open>The rows, and the number in the row for the policy.\<close>

definition showIPPortFilterRulesASP :: "fw_env \<Rightarrow> web_world \<Rightarrow> (fw_row list \<times> nat) option" where
  "showIPPortFilterRulesASP env w =
     (if w_cache w ''DefaultFirewallPolicy'' = [] then Some ([], 0) else filter_rows env (w_cache w ''IPPortFilterRules'') 0)"

section \<open>Numbers on the pages\<close>

definition selected :: "string \<Rightarrow> int \<Rightarrow> web_world \<Rightarrow> string" where
  "selected name type w = (if atoi (w_cache w name) = type then ''selected'' else '' '')"

definition getPortForwardEnableASP :: "int \<Rightarrow> web_world \<Rightarrow> string" where
  "getPortForwardEnableASP = selected ''PortForwardEnable''"

definition getPortTriggerEnableASP :: "int \<Rightarrow> web_world \<Rightarrow> string" where
  "getPortTriggerEnableASP = selected ''PortTriggerEnable''"

definition getSinglePortForwardEnableASP :: "int \<Rightarrow> web_world \<Rightarrow> string" where
  "getSinglePortForwardEnableASP = selected ''SinglePortForwardEnable''"

definition getIPPortFilterEnableASP :: "int \<Rightarrow> web_world \<Rightarrow> string" where
  "getIPPortFilterEnableASP = selected ''IPPortFilterEnable''"

definition getDefaultFirewallPolicyASP :: "int \<Rightarrow> web_world \<Rightarrow> string" where
  "getDefaultFirewallPolicyASP v w = (if atoi (w_cache w ''DefaultFirewallPolicy'') = v then '' selected '' else [])"

definition checkIfUnderBridgeModeASP :: "web_world \<Rightarrow> bool" where
  "checkIfUnderBridgeModeASP w = (atoi (w_cache w ''OperationMode'') = 0)"

definition getRuleNums :: "string \<Rightarrow> nat" where
  "getRuleNums rules = getNums rules CHR '';''"

definition rule_nums :: "string \<Rightarrow> web_world \<Rightarrow> string" where
  "rule_nums name w = (if w_cache w name = [] then ''0'' else show_nat (getRuleNums (w_cache w name)))"

definition getPortForwardRuleNumsASP :: "web_world \<Rightarrow> string" where
  "getPortForwardRuleNumsASP = rule_nums ''PortForwardRules''"

definition getPortTriggerRuleNumsASP :: "web_world \<Rightarrow> string" where
  "getPortTriggerRuleNumsASP = rule_nums ''PortTriggerRules''"

definition getSinglePortForwardRuleNumsASP :: "web_world \<Rightarrow> string" where
  "getSinglePortForwardRuleNumsASP = rule_nums ''SinglePortForwardRules''"

definition getIPPortRuleNumsASP :: "web_world \<Rightarrow> string" where
  "getIPPortRuleNumsASP = rule_nums ''IPPortFilterRules''"

text \<open>
  The counters of the chain in what iptables -L -v prints: at most 128; a line sscanf reads no number from keeps
  the last one, at first what the variable holds.
\<close>

definition scans_number :: "string \<Rightarrow> bool" where
  "scans_number s = (let t = dropWhile is_space s in
     t \<noteq> [] \<and> (is_digit (hd t) \<or> hd t \<in> set ''+-'' \<and> tl t \<noteq> [] \<and> is_digit (hd (tl t))))"

fun packet_counts :: "nat \<Rightarrow> bool \<Rightarrow> bool \<Rightarrow> int \<Rightarrow> string list \<Rightarrow> int list" where
  "packet_counts n skip inside old [] = []"
| "packet_counts 0 skip inside old (l # ls) = []"
| "packet_counts (Suc n) skip inside old (l # ls) =
     (if \<not> inside then packet_counts (Suc n) skip (strstr l ''Chain macipport_filter'' \<noteq> None) old ls
      else if take 1 l = [CHR 0x0A] then []
      else if take 4 l = '' pkt'' then packet_counts (Suc n) skip True old ls
      else if skip then packet_counts (Suc n) False True old ls
      else (let c = (if scans_number l then atoi l else old) in c # packet_counts n False True c ls))"

definition getRulesPacketCount :: "fw_env \<Rightarrow> int \<Rightarrow> string list option \<Rightarrow> web_world \<Rightarrow> string" where
  "getRulesPacketCount env fresh listing w =
     (case listing of
        Some ls \<Rightarrow> if fe_malloc env then joined CHR '' '' (map show_int
            (packet_counts 128 (atoi (w_cache w ''DefaultFirewallPolicy'') \<noteq> 0) False fresh ls)) else []
      | None \<Rightarrow> [])"

section \<open>Names of the layer 7 filters\<close>

text \<open>
  The first line of a file is "# name - text".  The name is what stands from the third character on in front of the dash;
  with the dash among the first two characters it is the rest of the line.
\<close>

definition getNameIntroFromPat :: "string option \<Rightarrow> fault + string option" where
  "getNameIntroFromPat file = (case file of
       None \<Rightarrow> Inr None
     | Some s \<Rightarrow>
         let buf = fst (fgets 512 s) in
         if s = [] then Inr (Some ''N/A#N/A'')
         else (case strchr CHR ''-'' buf of
             None \<Rightarrow> Inr (Some ''N/A#N/A'')
           | Some t \<Rightarrow>
               let d = length buf - length t; e = (if 0 < d \<and> buf ! (d - 1) = CHR '' '' then d - 1 else d);
                   name = (if e < 2 then drop 2 buf else drop 2 (take e buf))
               in if d = 0 then Inl ReadOverrun
                  else if CHR 0x0A \<notin> set (drop 1 t) then Inr (Some ''N/A#N/A'')
                  else (let r = name @ ''#'' @ takeWhile (\<lambda>c. c \<noteq> CHR 0x0A) (drop 2 t)
                        in if 512 \<le> length r then Inl WriteOverflow else Inr (Some r))))"

text \<open>The directory: the names of its files and what they hold.  A file that cannot be read gives no text to copy.\<close>

fun layer7_names :: "(string \<times> string option) list \<Rightarrow> string \<Rightarrow> fault + string" where
  "layer7_names [] l7name = Inr l7name"
| "layer7_names ((name, file) # dir) l7name =
     (if take 1 name = ''.'' then layer7_names dir l7name
      else (case strstr name ''.pat'' of
          None \<Rightarrow> layer7_names dir l7name
        | Some t \<Rightarrow> rbind (getNameIntroFromPat file) (\<lambda>intro. (case intro of
              None \<Rightarrow> Inl NullDeref
            | Some text \<Rightarrow>
                let l = l7name @ (if l7name = [] then [] else '';'') @ take (length name - length t) name @ ''#'' @ text
                in if 8192 \<le> length l then Inl WriteOverflow else layer7_names dir l))))"

definition LoadLayer7FilterName :: "(string \<times> string option) list option \<Rightarrow> fault + string" where
  "LoadLayer7FilterName d = (case d of None \<Rightarrow> Inr [] | Some dir \<Rightarrow> layer7_names dir [])"

definition getSuperDMZBuilt :: string where
  "getSuperDMZBuilt = ''0''"

lemma layer7_example:
  "LoadLayer7FilterName (Some [(''.'', None), (''ftp.pat'', Some (''# FTP - File Transfer'' @ [CHR 0x0A])), (''readme'', None),
     (''x.pat'', Some (''# X'' @ [CHR 0x0A]))]) = Inr ''ftp#FTP#File Transfer;x#N/A#N/A''"
  by code_simp

end
