(* ===== verification/FirewallProps.thy ===== *)
theory FirewallProps
  imports FirewallRules WebRules
begin

text \<open>
  The forwarding of ports: the rules behind the text of a setting, which the interface of rule lists turns into
  what the loops do; what adding a rule stores and runs, and what deleting rules leaves.
\<close>

section \<open>Rules of the two kinds of forwarding\<close>

record forward =
  fw_host :: string
  fw_from :: int
  fw_to :: int
  fw_proto :: int
  fw_comment :: string

definition forward_fields :: "forward \<Rightarrow> string list" where
  "forward_fields r = [fw_host r, show_int (fw_from r), show_int (fw_to r), show_int (fw_proto r), fw_comment r]"

definition forward_text :: "forward \<Rightarrow> string" where
  "forward_text r = joined CHR '','' (forward_fields r)"

text \<open>The address only has to please inet_aton and to be free of what the texts use.\<close>

definition forward_ok :: "fw_env \<Rightarrow> forward \<Rightarrow> bool" where
  "forward_ok env r = (isIpValid env (fw_host r) \<and> length (fw_host r) < 32 \<and> list_all (\<lambda>c. c \<notin> set '',;%'') (fw_host r) \<and>
     fw_from r \<noteq> 0 \<and> - 1000000 < fw_from r \<and> fw_from r \<le> 65535 \<and> - 1000000 < fw_to r \<and> fw_to r \<le> 65535 \<and>
     fw_proto r \<in> {PROTO_TCP, PROTO_UDP, PROTO_TCP_UDP} \<and> comment_ok (fw_comment r))"

definition single_ok :: "fw_env \<Rightarrow> forward \<Rightarrow> bool" where
  "single_ok env r = (forward_ok env r \<and> fw_to r \<noteq> 0)"

definition forward_cmds :: "string \<Rightarrow> forward \<Rightarrow> string list" where
  "forward_cmds a r = for_protocols (fw_proto r) (\<lambda>p. makePortForwardRule a (fw_host r) p (fw_from r) (fw_to r))"

definition single_cmds :: "fw_env \<Rightarrow> forward \<Rightarrow> string list" where
  "single_cmds env r = for_protocols (fw_proto r) (\<lambda>p.
     makeSinglePortForwardRule (take 15 (fe_wan_name env)) (fw_host r) p (fw_from r) (fw_to r))"

lemma port_text: "- 1000000 < i \<Longrightarrow> i \<le> 65535 \<Longrightarrow> length (show_int i) < 8"
  using show_int_length [of 6 i] by simp

lemma port_read: "- 1000000 < i \<Longrightarrow> i \<le> 65535 \<Longrightarrow> atoi (show_int i) = i"
  using atoi_show_int [of "[]" i] by simp

lemma show_int_apart: "\<not> is_digit c \<Longrightarrow> c \<noteq> CHR ''-'' \<Longrightarrow> c \<notin> set (show_int i)"
  using show_int_chars by blast

lemma proto_range: "forward_ok env r \<Longrightarrow> - 1000000 < fw_proto r \<and> fw_proto r \<le> 65535"
  by (auto simp: forward_ok_def PROTO_TCP_def PROTO_UDP_def PROTO_TCP_UDP_def)

lemma fields_apart: "forward_ok env r \<Longrightarrow> \<forall>v \<in> set (forward_fields r). CHR '','' \<notin> set v \<and> CHR '';'' \<notin> set v"
  by (auto simp: forward_fields_def forward_ok_def comment_ok_def list_all_iff show_int_apart is_digit_def)

lemma forward_field:
  assumes "forward_ok env r" and "k < 5" and "length (forward_fields r ! k) < n"
  shows "field k n (forward_text r) f = f (forward_fields r ! k)"
  using field_joined [of "forward_fields r" k n f] fields_apart [OF assms(1)] assms(2,3)
  by (simp add: forward_text_def) (simp add: forward_fields_def)

text \<open>A forwarding rule reads back field by field.\<close>

lemma forward_reads:
  assumes "forward_ok env r"
  shows "field 0 32 (forward_text r) f = f (fw_host r)"
    and "field 1 8 (forward_text r) f = f (show_int (fw_from r))"
    and "field 2 8 (forward_text r) f = f (show_int (fw_to r))"
    and "field 3 8 (forward_text r) f = f (show_int (fw_proto r))"
proof -
  have n: "forward_fields r ! 0 = fw_host r" "forward_fields r ! 1 = show_int (fw_from r)"
    "forward_fields r ! 2 = show_int (fw_to r)" "forward_fields r ! 3 = show_int (fw_proto r)"
    by (simp_all add: forward_fields_def numeral_2_eq_2 numeral_3_eq_3)
  have l: "length (fw_host r) < 32" "length (show_int (fw_from r)) < 8" "length (show_int (fw_to r)) < 8"
    "length (show_int (fw_proto r)) < 8"
    using assms proto_range [OF assms] by (simp_all add: forward_ok_def port_text)
  show "field 0 32 (forward_text r) f = f (fw_host r)" using forward_field [OF assms, of 0 32 f] n(1) l(1) by simp
  show "field 1 8 (forward_text r) f = f (show_int (fw_from r))" using forward_field [OF assms, of 1 8 f] unfolding n(2) using l(2) by simp
  show "field 2 8 (forward_text r) f = f (show_int (fw_to r))" using forward_field [OF assms, of 2 8 f] n(3) l(3) by simp
  show "field 3 8 (forward_text r) f = f (show_int (fw_proto r))" using forward_field [OF assms, of 3 8 f] n(4) l(4) by simp
qed

lemma forward_atoi:
  assumes "forward_ok env r"
  shows "atoi (show_int (fw_from r)) = fw_from r" and "atoi (show_int (fw_to r)) = fw_to r"
    and "atoi (show_int (fw_proto r)) = fw_proto r"
  using proto_range [OF assms] assms by (simp_all add: forward_ok_def port_read)

lemma forward_plain:
  assumes "forward_ok env r"
  shows "CHR '';'' \<notin> set (forward_text r) \<and> forward_text r \<noteq> [] \<and> length (forward_text r) < 256"
proof -
  have "length (fw_comment r) \<le> 32" and "length (fw_host r) < 32" using assms by (simp_all add: forward_ok_def comment_ok_def)
  moreover have "length (show_int (fw_from r)) < 8" "length (show_int (fw_to r)) < 8" "length (show_int (fw_proto r)) < 8"
    using assms proto_range [OF assms] by (simp_all add: forward_ok_def port_text)
  ultimately have "length (forward_text r) < 256" by (simp add: forward_text_def forward_fields_def)
  then show ?thesis using fields_apart [OF assms] by (auto simp: forward_text_def forward_fields_def)
qed

interpretation pf: rule_list forward_text "forward_cmds a" "port_forward_step env a" "forward_ok env" for env a
proof
  fix r
  assume r: "forward_ok env r"
  then show "CHR '';'' \<notin> set (forward_text r) \<and> forward_text r \<noteq> [] \<and> length (forward_text r) < 256" by (rule forward_plain)
  show "port_forward_step env a (forward_text r) = forward_cmds a r"
    using r by (simp add: port_forward_step_def forward_cmds_def forward_reads [OF r] forward_atoi [OF r] del: One_nat_def)
      (simp add: forward_ok_def)
next
  show "port_forward_step env a [] = []"
    by (auto simp: port_forward_step_def field_Nil [of 0, simplified] field_def [of 0] getNthValueSafe_def)
qed

interpretation sf: rule_list forward_text "single_cmds env" "single_forward_step env" "single_ok env" for env
proof
  fix r
  assume s: "single_ok env r"
  then have r: "forward_ok env r" by (simp add: single_ok_def)
  then show "CHR '';'' \<notin> set (forward_text r) \<and> forward_text r \<noteq> [] \<and> length (forward_text r) < 256" by (rule forward_plain)
  show "single_forward_step env (forward_text r) = single_cmds env r"
    using s by (simp add: single_forward_step_def single_cmds_def forward_reads [OF r] forward_atoi [OF r] del: One_nat_def)
      (simp add: single_ok_def forward_ok_def)
next
  show "single_forward_step env [] = []"
    by (auto simp: single_forward_step_def field_Nil [of 0, simplified] field_def [of 0] getNthValueSafe_def)
qed

section \<open>Commands\<close>

definition acts_more :: "web_act list \<Rightarrow> web_world \<Rightarrow> web_world" where
  "acts_more as w = w\<lparr>w_acts := w_acts w @ as\<rparr>"

lemma doSystems_acts: "\<forall>c \<in> set cs. CHR ''%'' \<notin> set c \<Longrightarrow> doSystems cs w = Inr (acts_more (map Cmd cs) w)"
  by (induction cs arbitrary: w) (simp_all add: doSystem_def acts_more_def act_def)

lemma for_protocols_apart:
  "(\<And>p. p \<in> {PROTO_TCP, PROTO_UDP} \<Longrightarrow> CHR ''%'' \<notin> set (f p)) \<Longrightarrow> \<forall>c \<in> set (for_protocols proto f). CHR ''%'' \<notin> set c"
  by (auto simp: for_protocols_def)

lemma forward_cmds_apart:
  assumes "forward_ok env r" and "CHR ''%'' \<notin> set a"
  shows "\<forall>c \<in> set (forward_cmds a r). CHR ''%'' \<notin> set c"
  unfolding forward_cmds_def using assms
  by (intro for_protocols_apart)
    (auto simp: makePortForwardRule_def port_range_def forward_ok_def list_all_iff show_int_apart is_digit_def)

lemma single_cmds_apart:
  assumes "single_ok env r" and "CHR ''%'' \<notin> set (fe_wan_name env)"
  shows "\<forall>c \<in> set (single_cmds env r). CHR ''%'' \<notin> set c"
  unfolding single_cmds_def using assms
  by (intro for_protocols_apart)
    (auto simp: makeSinglePortForwardRule_def single_ok_def forward_ok_def list_all_iff show_int_apart is_digit_def
      dest: in_set_takeD)

section \<open>A router with forwarded ports\<close>

text \<open>inet_aton stops at a blank.\<close>

definition firewall_env :: "(string \<times> string) list \<Rightarrow> (nat \<Rightarrow> int) \<Rightarrow> fw_env" where
  "firewall_env form fresh = \<lparr>fe_form = map_of form, fe_inet_aton = (\<lambda>s. takeWhile (\<lambda>c. c \<noteq> CHR '' '') s \<in> {''10.0.0.7'', ''10.0.0.8''}),
     fe_wan_ip = Some ''1.2.3.4'', fe_wan_name = ''ppp0'', fe_port = 80, fe_one_port = False, fe_qos_run = True, fe_malloc = True, fe_fresh = fresh\<rparr>"

definition firewall_world :: "(string \<times> string) list \<Rightarrow> web_world" where
  "firewall_world settings = (sample_world [] [])\<lparr>w_cache := (\<lambda>n. case map_of settings n of None \<Rightarrow> [] | Some v \<Rightarrow> v)\<rparr>"

definition kept_rule :: forward where
  "kept_rule = \<lparr>fw_host = ''10.0.0.8'', fw_from = 22, fw_to = 25, fw_proto = 3, fw_comment = ''shell''\<rparr>"

definition quoted_rule :: forward where
  "quoted_rule = \<lparr>fw_host = ''10.0.0.7 `reboot`'', fw_from = 80, fw_to = 0, fw_proto = 1, fw_comment = ''web''\<rparr>"

definition three_rules :: "forward list" where
  "three_rules = [kept_rule, quoted_rule, kept_rule\<lparr>fw_from := 40, fw_to := 0\<rparr>]"

section \<open>Adding a rule\<close>

text \<open>The forms that ask for a rule: the ports as they are printed, no last port for a range of one.\<close>

definition asks_forward :: "fw_env \<Rightarrow> forward \<Rightarrow> bool" where
  "asks_forward env r = (let v = \<lambda>n. websGetVar env n [] in
     atoi (v ''portForwardEnabled'') \<noteq> 0 \<and> v ''ip_address'' = fw_host r \<and> v ''fromPort'' = show_int (fw_from r) \<and>
     v ''toPort'' = (if fw_to r = 0 then [] else show_int (fw_to r)) \<and> (fw_to r = 0 \<or> fw_from r \<le> fw_to r) \<and>
     proto_number (v ''protocol'') = Some (fw_proto r) \<and> v ''comment'' = fw_comment r)"

definition asks_single :: "fw_env \<Rightarrow> forward \<Rightarrow> bool" where
  "asks_single env r = (let v = \<lambda>n. websGetVar env n [] in
     atoi (v ''singlePortForwardEnabled'') \<noteq> 0 \<and> v ''ip_address'' = fw_host r \<and> v ''publicPort'' = show_int (fw_from r) \<and>
     v ''privatePort'' = show_int (fw_to r) \<and> proto_number (v ''protocol'') = Some (fw_proto r) \<and> v ''comment'' = fw_comment r)"

lemma shown_nonempty: "show_int i \<noteq> []"
  by (simp add: show_int_def show_nat.simps)

lemma atoi_on: "atoi ''1'' \<noteq> 0"
  by code_simp

lemma rule_written: "fw_host r @ '','' @ show_int (fw_from r) @ '','' @ show_int (fw_to r) @ '','' @ show_int (fw_proto r) @ '','' @
    fw_comment r = forward_text r"
  by (simp add: forward_text_def forward_fields_def)

text \<open>The text with the new rule is the text of one rule more, as long as it fits.\<close>

lemma with_forward:
  assumes "\<forall>q \<in> set rs. forward_ok env q" and "length (setting_text forward_text (rs @ [r])) < 8192"
  shows "with_rule (setting_text forward_text rs) (forward_text r) = setting_text forward_text (rs @ [r])"
  using pf.append_rule [OF assms(1), of r] assms(2) by (simp add: with_rule_def)

lemma pf_cmds_run:
  assumes "\<forall>q \<in> set rs. forward_ok env q" and "w_cache w ''PortForwardRules'' = setting_text forward_text rs"
    and "atoi (w_cache w ''PortForwardEnable'') \<noteq> 0" and "fe_wan_ip env = Some a" and "CHR ''%'' \<notin> set a"
  shows "iptablesPortForwardRun env w = Inr (acts_more (map Cmd (concat (map (forward_cmds a) rs))) w)"
proof -
  have "\<forall>c \<in> set (concat (map (forward_cmds a) rs)). CHR ''%'' \<notin> set c" using forward_cmds_apart assms(1,5) by auto
  then show ?thesis using assms pf.run_rules [OF assms(1), of a] by (simp add: iptablesPortForwardRun_def doSystems_acts)
qed

lemma sf_cmds_run:
  assumes "\<forall>q \<in> set rs. single_ok env q" and "w_cache w ''SinglePortForwardRules'' = setting_text forward_text rs"
    and "atoi (w_cache w ''SinglePortForwardEnable'') \<noteq> 0" and "CHR ''%'' \<notin> set (fe_wan_name env)"
  shows "iptablesSinglePortForwardRun env w = Inr (acts_more (map Cmd (concat (map (single_cmds env) rs))) w)"
proof -
  have "\<forall>c \<in> set (concat (map (single_cmds env) rs)). CHR ''%'' \<notin> set c" using single_cmds_apart assms(1,4) by auto
  then show ?thesis using assms sf.run_rules [OF assms(1)] by (simp add: iptablesSinglePortForwardRun_def doSystems_acts)
qed

text \<open>A setting that is written and committed is in the cache and in the flash.\<close>

lemma setting_values [simp]:
  "w_cache (setting n v w) = (w_cache w)(n := v)" "w_flash (setting n v w) = (w_cache w)(n := v)"
  "w_acts (setting n v w) = w_acts w @ [Commit]" "w_dirty (setting n v w) = False"
  by (simp_all add: setting_def commit_def bufset_def act_def)

lemma commit_clean: "\<not> w_dirty w \<Longrightarrow> commit w = act Commit w"
  by (simp add: commit_def)

lemma act_values [simp]: "w_cache (act a w) = w_cache w" "w_flash (act a w) = w_flash w" "w_acts (act a w) = w_acts w @ [a]"
  by (simp_all add: act_def)

lemma acts_more_values [simp]: "w_cache (acts_more as w) = w_cache w" "w_flash (acts_more as w) = w_flash w"
  "w_acts (acts_more as w) = w_acts w @ as"
  by (simp_all add: acts_more_def)

lemma no_dmz: "atoi (w_cache w ''DMZEnable'') = 0 \<Longrightarrow> restart_dmz env w = Inr (iptablesDMZFlush w)"
  by (simp add: restart_dmz_def iptablesDMZRun_def iptablesDMZFlush_def)





section \<open>Taking rules out\<close>

text \<open>The places whose check box is in the form.\<close>

definition chosen :: "fw_env \<Rightarrow> nat \<Rightarrow> nat list" where
  "chosen env n = filter (\<lambda>i. fe_form env (''delRule'' @ show_nat i) \<noteq> None) [0..<n]"

lemma chosen_sorted: "sorted_wrt (<) (map int (chosen env n))"
  by (simp add: chosen_def sorted_wrt_map sorted_wrt_filter strict_sorted_iff)

lemma delete_chosen_eq: "delete_chosen env rules = (let n = getNums rules CHR '';''; js = chosen env n in
    if rules = [] \<or> \<not> fe_malloc env \<or> js = [] then None
    else Some (deleteNthValueMulti (map int js @ map (fe_fresh env) [length js..<n]) rules CHR '';''))"
  by (simp only: delete_chosen_def chosen_def Let_def)

text \<open>
  What goes: the chosen places, and more of them when memory that was not written holds the numbers of later
  places in order, until one is out of range.
\<close>

lemma delete_chosen_rules:
  assumes "\<forall>q \<in> set rs. forward_ok env q" and "fe_malloc env" and "chosen env (length rs) \<noteq> []"
    and "map (fe_fresh env) [length (chosen env (length rs))..<length rs] = js @ gs"
    and "sorted_wrt (<) (map int (chosen env (length rs)) @ js)" and "\<forall>g \<in> set gs. g < 0 \<or> int (length rs) \<le> g"
  shows "delete_chosen env (setting_text forward_text rs) =
    Some (setting_text forward_text (nths rs {k. k \<notin> set (chosen env (length rs)) \<and> int k \<notin> set js}))"
proof -
  let ?c = "chosen env (length rs)"
  have ne: "rs \<noteq> []" using assms(3) by (auto simp: chosen_def)
  then have n: "getNums (setting_text forward_text rs) CHR '';'' = length rs" using pf.count_texts [OF assms(1)] by simp
  obtain c cs where c: "?c = c # cs" using assms(3) by (cases ?c) auto
  have pos: "\<forall>j \<in> set (map int ?c @ js). 0 \<le> j" using assms(5) c by (auto simp: sorted_wrt_append dest!: bspec)
  have "deleteNthValueMulti ((map int ?c @ js) @ gs) (setting_text forward_text rs) CHR '';'' =
      setting_text forward_text (nths rs {k. int k \<notin> set (map int ?c @ js)})"
    by (rule pf.delete_rules [OF assms(1) ne _ assms(5) pos assms(6)]) (use assms(3) in simp)
  moreover have "{k. int k \<notin> set (map int ?c @ js)} = {k. k \<notin> set ?c \<and> int k \<notin> set js}" by auto
  ultimately show ?thesis
    using assms(2-4) ne pf.text_empty [OF assms(1)] n by (simp add: delete_chosen_eq Let_def)
qed

lemma port_forward_delete:
  assumes "\<forall>q \<in> set rs. forward_ok env q" and "w_cache w ''PortForwardRules'' = setting_text forward_text rs"
    and "delete_chosen env (setting_text forward_text rs) = Some (setting_text forward_text (nths rs S))"
    and "atoi (w_cache w ''PortForwardEnable'') \<noteq> 0" and "fe_wan_ip env = Some a" and "CHR ''%'' \<notin> set a"
    and "atoi (w_cache w ''DMZEnable'') = 0"
  shows "\<exists>w' v. portForwardDelete env w = Inr w' \<and>
    w_flash w' = (w_cache w)(''PortForwardRules'' := setting_text forward_text (nths rs S)) \<and> w_cache w' = w_flash w' \<and>
    w_acts w' = w_acts w @ [Commit, Commit, Cmd ''iptables -t nat -F port_forward 1>/dev/null 2>&1''] @
      map Cmd (concat (map (forward_cmds a) (nths rs S))) @ Cmd ''iptables -t nat -F DMZ 1>/dev/null 2>&1'' # v"
proof -
  have ok: "\<forall>q \<in> set (nths rs S). forward_ok env q" using assms(1) by (auto dest: notin_set_nthsI in_set_nthsD)
  define v where "v = iptablesPortForwardFlush (commit (setting ''PortForwardRules'' (setting_text forward_text (nths rs S)) w))"
  have "iptablesPortForwardRun env v = Inr (acts_more (map Cmd (concat (map (forward_cmds a) (nths rs S)))) v)"
    by (rule pf_cmds_run [OF ok _ _ assms(5,6)]) (use assms(4) in \<open>simp_all add: v_def commit_clean iptablesPortForwardFlush_def\<close>)
  then show ?thesis using assms(2,3,4,7)
    by (simp add: portForwardDelete_def Let_def v_def no_dmz commit_clean iptablesPortForwardFlush_def iptablesDMZFlush_def conntrack_flush_def)
qed

text \<open>
  Deleting forwardings leaves the others, in their order, stored and in the chain, if the memory of the array
  behind the chosen places happens to hold numbers of no rule.
\<close>

lemma port_forward_deleted:
  assumes "\<forall>q \<in> set rs. forward_ok env q" and "w_cache w ''PortForwardRules'' = setting_text forward_text rs"
    and "fe_malloc env" and "chosen env (length rs) \<noteq> []"
    and "\<forall>i \<in> {length (chosen env (length rs))..<length rs}. fe_fresh env i < 0 \<or> int (length rs) \<le> fe_fresh env i"
    and "atoi (w_cache w ''PortForwardEnable'') \<noteq> 0" and "fe_wan_ip env = Some a" and "CHR ''%'' \<notin> set a"
    and "atoi (w_cache w ''DMZEnable'') = 0"
  shows "\<exists>w' v. portForwardDelete env w = Inr w' \<and>
    w_flash w' = (w_cache w)(''PortForwardRules'' := setting_text forward_text (nths rs {k. k \<notin> set (chosen env (length rs))})) \<and>
    w_cache w' = w_flash w' \<and>
    w_acts w' = w_acts w @ [Commit, Commit, Cmd ''iptables -t nat -F port_forward 1>/dev/null 2>&1''] @
      map Cmd (concat (map (forward_cmds a) (nths rs {k. k \<notin> set (chosen env (length rs))}))) @
      Cmd ''iptables -t nat -F DMZ 1>/dev/null 2>&1'' # v"
proof (rule port_forward_delete [OF assms(1,2) _ assms(6-9)])
  show "delete_chosen env (setting_text forward_text rs) =
      Some (setting_text forward_text (nths rs {k. k \<notin> set (chosen env (length rs))}))"
    using delete_chosen_rules [OF assms(1,3,4), of "[]"] assms(5) chosen_sorted by simp
qed

text \<open>
  C26: The array for the chosen rules has a place for each rule and all its places are said to be used: when the memory
  behind the chosen ones holds the number of a later rule, that rule is deleted with them.
\<close>

theorem delete_takes_more:
  assumes "\<forall>q \<in> set rs. forward_ok env q" and "w_cache w ''PortForwardRules'' = setting_text forward_text rs"
    and "fe_malloc env" and "chosen env (length rs) = [j]" and "fe_fresh env 1 = int k" and "j < k" and "k < length rs"
    and "\<forall>i \<in> {2..<length rs}. fe_fresh env i < 0 \<or> int (length rs) \<le> fe_fresh env i"
    and "atoi (w_cache w ''PortForwardEnable'') \<noteq> 0" and "fe_wan_ip env = Some a" and "CHR ''%'' \<notin> set a"
    and "atoi (w_cache w ''DMZEnable'') = 0"
  shows "\<exists>w'. portForwardDelete env w = Inr w' \<and> w_flash w' ''PortForwardRules'' = setting_text forward_text (nths rs (- {j, k}))"
proof -
  have u: "[1..<length rs] = 1 # [2..<length rs]" using assms(6,7) by (simp add: upt_conv_Cons numeral_2_eq_2)
  have "delete_chosen env (setting_text forward_text rs) =
      Some (setting_text forward_text (nths rs {i. i \<notin> set (chosen env (length rs)) \<and> int i \<notin> set [int k]}))"
    by (rule delete_chosen_rules [OF assms(1,3), of "[int k]" "map (fe_fresh env) [2..<length rs]"])
      (use assms(4-6,8) u in simp_all)
  moreover have "{i. i \<notin> set (chosen env (length rs)) \<and> int i \<notin> set [int k]} = - {j, k}" using assms(4) by auto
  ultimately show ?thesis using port_forward_delete [OF assms(1,2) _ assms(9-12)] by fastforce
qed

theorem delete_takes_more_witness:
  "\<exists>w'. portForwardDelete (firewall_env [(''delRule0'', ''on'')] (\<lambda>i. if i = 1 then 2 else -1))
      (firewall_world [(''PortForwardEnable'', ''1''), (''PortForwardRules'', setting_text forward_text three_rules)]) = Inr w' \<and>
    w_flash w' ''PortForwardRules'' = ''10.0.0.7 `reboot`,80,0,1,web''"
proof -
  let ?e = "firewall_env [(''delRule0'', ''on'')] (\<lambda>i. if i = 1 then 2 else -1)"
  let ?w = "firewall_world [(''PortForwardEnable'', ''1''), (''PortForwardRules'', setting_text forward_text three_rules)]"
  have o: "\<forall>q \<in> set three_rules. forward_ok ?e q" by code_simp
  have t: "w_cache ?w ''PortForwardRules'' = setting_text forward_text three_rules" by (simp add: firewall_world_def)
  have m: "fe_malloc ?e" "fe_wan_ip ?e = Some ''1.2.3.4''" "fe_fresh ?e 1 = int 2" by (simp_all add: firewall_env_def)
  have g: "\<forall>i \<in> {2..<length three_rules}. fe_fresh ?e i < 0 \<or> int (length three_rules) \<le> fe_fresh ?e i" by (simp add: firewall_env_def)
  have c: "chosen ?e (length three_rules) = [0]" by code_simp
  have z: "atoi (w_cache ?w ''PortForwardEnable'') \<noteq> 0" "CHR ''%'' \<notin> set ''1.2.3.4''" "atoi (w_cache ?w ''DMZEnable'') = 0"
    by (code_simp, simp, code_simp)
  have k: "(0::nat) < 2" "2 < length three_rules" by (simp_all add: three_rules_def)
  have "setting_text forward_text (nths three_rules (- {0, 2})) = setting_text forward_text [quoted_rule]"
    by (simp add: three_rules_def nths_Cons)
  also have "\<dots> = ''10.0.0.7 `reboot`,80,0,1,web''" by code_simp
  finally show ?thesis using delete_takes_more [OF o t m(1) c m(3) k g z(1) m(2) z(2,3)] by simp
qed

end
