(* ===== verification/FirewallFilter.thy ===== *)
theory FirewallFilter
  imports FirewallProps
begin

text \<open>
  The filter of addresses and ports, and the port triggers: the rules behind their settings, and what adding a rule to
  the filter stores and runs.
\<close>

section \<open>Port triggers\<close>

record trigger =
  tg_proto :: int
  tg_port :: int
  tg_in_proto :: int
  tg_in_port :: int
  tg_comment :: string

definition trigger_fields :: "trigger \<Rightarrow> string list" where
  "trigger_fields r = [show_int (tg_proto r), show_int (tg_port r), show_int (tg_in_proto r), show_int (tg_in_port r), tg_comment r]"

definition trigger_text :: "trigger \<Rightarrow> string" where
  "trigger_text r = joined CHR '','' (trigger_fields r)"

definition small_number :: "int \<Rightarrow> bool" where
  "small_number i = (- 1000000 < i \<and> i \<le> 65535)"

definition trigger_ok :: "trigger \<Rightarrow> bool" where
  "trigger_ok r = (small_number (tg_proto r) \<and> small_number (tg_port r) \<and> tg_port r \<noteq> 0 \<and> small_number (tg_in_proto r) \<and>
     small_number (tg_in_port r) \<and> tg_in_port r \<noteq> 0 \<and> comment_ok (tg_comment r))"

definition trigger_cmds :: "trigger \<Rightarrow> string list" where
  "trigger_cmds r = [makePortTriggerRule (tg_proto r) (tg_port r) (tg_in_proto r) (tg_in_port r)]"

lemma small_number_shown [simp]:
  "small_number i \<Longrightarrow> length (show_int i) < 8" "small_number i \<Longrightarrow> atoi (show_int i) = i" "small_number i \<Longrightarrow> \<not> 65535 < i"
  by (simp_all add: small_number_def port_text port_read)

lemma shown_apart [simp]: "CHR '','' \<notin> set (show_int i)" "CHR '';'' \<notin> set (show_int i)" "CHR ''%'' \<notin> set (show_int i)"
  by (simp_all add: show_int_apart is_digit_def)

lemma comment_apart: "comment_ok s \<Longrightarrow> CHR '','' \<notin> set s \<and> CHR '';'' \<notin> set s \<and> length s \<le> 32"
  by (simp add: comment_ok_def)

text \<open>A field of a list of which the place is known.\<close>

lemma field_of_text:
  assumes "\<forall>v \<in> set vs. CHR '','' \<notin> set v" and "drop k vs = v # ws" and "length v < n"
  shows "field k n (joined CHR '','' vs) f = f v"
proof -
  have "k < length vs" using assms(2) by (metis drop_eq_Nil list.distinct(1) not_less)
  moreover have "vs ! k = v" using assms(2) \<open>k < length vs\<close> by (simp add: Cons_nth_drop_Suc [symmetric])
  ultimately show ?thesis using field_joined [OF assms(1), of k n f] assms(3) by simp
qed

lemma no_record: "field (numeral k) n [] f = []"
  using field_Nil [of "pred_numeral k"] by (simp add: numeral_eq_Suc)

interpretation pt: rule_list trigger_text trigger_cmds port_trigger_step trigger_ok
proof
  fix r
  assume ok: "trigger_ok r"
  then have f: "\<forall>v \<in> set (trigger_fields r). CHR '','' \<notin> set v \<and> CHR '';'' \<notin> set v"
    by (simp add: trigger_fields_def trigger_ok_def comment_apart)
  have "length (show_int (tg_proto r)) < 8" "length (show_int (tg_port r)) < 8" "length (show_int (tg_in_proto r)) < 8"
    "length (show_int (tg_in_port r)) < 8" "length (tg_comment r) \<le> 32"
    using ok by (simp_all add: trigger_ok_def comment_apart)
  then have "length (trigger_text r) < 256" by (simp add: trigger_text_def trigger_fields_def)
  then show "CHR '';'' \<notin> set (trigger_text r) \<and> trigger_text r \<noteq> [] \<and> length (trigger_text r) < 256"
    using f by (simp add: trigger_text_def trigger_fields_def)
  have c: "\<forall>v \<in> set (trigger_fields r). CHR '','' \<notin> set v" using f by simp
  show "port_trigger_step (trigger_text r) = trigger_cmds r"
    unfolding trigger_text_def port_trigger_step_def
    using ok by (subst field_of_text [OF c], simp add: trigger_fields_def, simp add: trigger_ok_def)+
      (simp add: trigger_cmds_def trigger_ok_def)
next
  show "port_trigger_step [] = []"
    by (auto simp: port_trigger_step_def field_Nil [of 0, simplified] field_def [of 0] getNthValueSafe_def)
qed

section \<open>The filter\<close>

record filter_rule =
  fl_src :: string
  fl_sfrom :: int
  fl_sto :: int
  fl_dst :: string
  fl_dfrom :: int
  fl_dto :: int
  fl_proto :: int
  fl_action :: int
  fl_comment :: string
  fl_mac :: string

text \<open>The second addresses are always 0.\<close>

definition filter_fields :: "filter_rule \<Rightarrow> string list" where
  "filter_fields r = [fl_src r, ''0'', show_int (fl_sfrom r), show_int (fl_sto r), fl_dst r, ''0'', show_int (fl_dfrom r),
     show_int (fl_dto r), show_int (fl_proto r), show_int (fl_action r), fl_comment r, fl_mac r]"

definition filter_text :: "filter_rule \<Rightarrow> string" where
  "filter_text r = joined CHR '','' (filter_fields r)"

definition filter_ok :: "fw_env \<Rightarrow> filter_rule \<Rightarrow> bool" where
  "filter_ok env r = (isIpNetmaskValid env (fl_src r) = Inr True \<and> isIpNetmaskValid env (fl_dst r) = Inr True \<and>
     small_number (fl_sfrom r) \<and> small_number (fl_sto r) \<and> small_number (fl_dfrom r) \<and> small_number (fl_dto r) \<and>
     fl_proto r \<in> {PROTO_TCP, PROTO_UDP, PROTO_ICMP, PROTO_NONE} \<and> (fl_action r = 0 \<or> fl_action r = 1) \<and>
     comment_ok (fl_comment r) \<and> (fl_mac r = [] \<or> isMacValid (fl_mac r)))"

definition filter_cmds :: "int \<Rightarrow> filter_rule \<Rightarrow> string list" where
  "filter_cmds s r = [makeIPPortFilterRule s (fl_mac r) (fl_src r) (fl_sfrom r) (fl_sto r) (fl_dst r) (fl_dfrom r) (fl_dto r)
     (fl_proto r) (fl_action r)]"

text \<open>What the tests let through has none of the characters of the texts.\<close>

lemma netmask_chars:
  assumes "isIpNetmaskValid env s = Inr True"
  shows "length s < 32 \<and> s \<noteq> [] \<and> (\<forall>c \<in> set s. c \<notin> set '',;%'')"
proof -
  have l: "length s < 32" "s \<noteq> []" using assms by (auto simp: isIpNetmaskValid_def split: if_splits)
  have "s = ''any'' \<or> s = ''any/0'' \<or> isAllNumAndSlash s" using assms by (auto simp: isIpNetmaskValid_def split: if_splits)
  then have "\<forall>c \<in> set s. c \<notin> set '',;%''" by (auto simp: isAllNumAndSlash_def list_all_iff is_digit_def)
  with l show ?thesis by blast
qed

lemma mac_chars:
  assumes "isMacValid s"
  shows "length s = 17 \<and> (\<forall>c \<in> set s. c \<notin> set '',;%'')"
proof -
  have l: "length s = 17" using assms by (simp add: isMacValid_def)
  have "is_xdigit (s ! i) \<or> s ! i = CHR '':''" if i: "i < 17" for i
  proof -
    have "i = 3 * (i div 3) \<or> i = 3 * (i div 3) + 1 \<or> i = 3 * (i div 3) + 2" "i div 3 \<in> {0, 1, 2, 3, 4} \<or> i = 15 \<or> i = 16"
      using i by auto
    then show ?thesis using assms unfolding isMacValid_def list_all_iff by (metis list.set(1) list.set(2))
  qed
  then have "\<forall>c \<in> set s. is_xdigit c \<or> c = CHR '':''" using l by (metis in_set_conv_nth)
  then have "\<forall>c \<in> set s. c \<notin> set '',;%''" by (auto simp: is_xdigit_def is_digit_def)
  with l show ?thesis by blast
qed

definition apart :: "string \<Rightarrow> bool" where
  "apart s = (CHR '','' \<notin> set s \<and> CHR '';'' \<notin> set s \<and> CHR ''%'' \<notin> set s)"

lemma netmask_apart: "isIpNetmaskValid env s = Inr True \<Longrightarrow> apart s"
  using netmask_chars [of env s] by (simp add: apart_def) blast

lemma mac_apart: "s = [] \<or> isMacValid s \<Longrightarrow> apart s \<and> length s < 32"
  using mac_chars [of s] by (cases "s = []") (simp_all add: apart_def, blast)

lemma filter_parts:
  assumes "filter_ok env r"
  shows "length (fl_src r) < 32" "length (fl_dst r) < 32" "length (fl_mac r) < 32" "small_number (fl_proto r)"
    "length (show_int (fl_action r)) < 4" "atoi (show_int (fl_action r)) = fl_action r" "length (fl_comment r) \<le> 32"
    "apart (fl_src r)" "apart (fl_dst r)" "apart (fl_mac r)"
proof -
  have v: "isIpNetmaskValid env (fl_src r) = Inr True" "isIpNetmaskValid env (fl_dst r) = Inr True" "fl_mac r = [] \<or> isMacValid (fl_mac r)"
      "comment_ok (fl_comment r)" "fl_action r = 0 \<or> fl_action r = 1" "fl_proto r \<in> {PROTO_TCP, PROTO_UDP, PROTO_ICMP, PROTO_NONE}"
    using assms by (simp_all only: filter_ok_def)
  show "length (fl_src r) < 32" "length (fl_dst r) < 32" using netmask_chars [OF v(1)] netmask_chars [OF v(2)] by (simp_all only:)
  show "apart (fl_src r)" "apart (fl_dst r)" using netmask_apart v(1,2) by (simp_all only:)
  show "length (fl_mac r) < 32" "apart (fl_mac r)" using mac_apart [OF v(3)] by (simp_all only:)
  show "small_number (fl_proto r)"
    using v(6) by (auto simp: small_number_def PROTO_TCP_def PROTO_UDP_def PROTO_ICMP_def PROTO_NONE_def)
  show "length (show_int (fl_action r)) < 4" "atoi (show_int (fl_action r)) = fl_action r"
    using v(5) port_read [of 0] port_read [of 1] show_int_length [of 1 "fl_action r"] by auto
  show "length (fl_comment r) \<le> 32" using comment_apart [OF v(4)] by (simp only:)
qed

lemma filter_apart:
  assumes "filter_ok env r"
  shows "\<forall>v \<in> set (filter_fields r). CHR '','' \<notin> set v \<and> CHR '';'' \<notin> set v"
proof -
  have "comment_ok (fl_comment r)" using assms by (simp only: filter_ok_def)
  then show ?thesis using filter_parts(8-10) [OF assms] comment_apart by (simp add: filter_fields_def apart_def)
qed

lemma filter_cmd_apart:
  assumes "filter_ok env r"
  shows "\<forall>c \<in> set (filter_cmds s r). CHR ''%'' \<notin> set c"
  using filter_parts(8-10) [OF assms] by (simp add: filter_cmds_def makeIPPortFilterRule_def port_range_def apart_def)

interpretation ff: rule_list filter_text "filter_cmds s" "ipport_filter_step env s" "filter_ok env" for env s
proof
  fix r
  assume ok: "filter_ok env r"
  note p = filter_parts [OF ok]
  have n: "length (show_int (fl_sfrom r)) < 8" "length (show_int (fl_sto r)) < 8" "length (show_int (fl_dfrom r)) < 8"
    "length (show_int (fl_dto r)) < 8" "length (show_int (fl_proto r)) < 8"
    using ok p(4) by (simp_all add: filter_ok_def)
  have "length (filter_text r) < 256" using p(1-3,5,7) n by (simp add: filter_text_def filter_fields_def)
  then show "CHR '';'' \<notin> set (filter_text r) \<and> filter_text r \<noteq> [] \<and> length (filter_text r) < 256"
    using filter_apart [OF ok] by (simp add: filter_text_def filter_fields_def)
  have c: "\<forall>v \<in> set (filter_fields r). CHR '','' \<notin> set v" using filter_apart [OF ok] by blast
  show "ipport_filter_step env s (filter_text r) = filter_cmds s r"
    unfolding filter_text_def ipport_filter_step_def
    using ok by (subst field_of_text [OF c], simp add: filter_fields_def, use n p in simp)+
      (auto simp add: filter_cmds_def filter_ok_def p(4,6))
next
  show "ipport_filter_step env s [] = []"
    by (simp add: ipport_filter_step_def field_def getNthValueSafe_def isIpNetmaskValid_def)
qed

section \<open>Adding a rule to the filter\<close>

text \<open>The forms that ask for a rule.\<close>

definition asks_filter :: "fw_env \<Rightarrow> filter_rule \<Rightarrow> bool" where
  "asks_filter env r = (let v = websGetVar env; port = filter_port (fl_proto r) in
     v ''mac_address'' [] = fl_mac r \<and> v ''sip_address'' ''any'' = fl_src r \<and> v ''dip_address'' ''any'' = fl_dst r \<and>
     filter_proto (v ''protocol'' []) = Some (fl_proto r) \<and>
     port (v ''sFromPort'' ''0'') = Some (fl_sfrom r) \<and> port (v ''sToPort'' []) = Some (fl_sto r) \<and>
     port (v ''dFromPort'' ''0'') = Some (fl_dfrom r) \<and> port (v ''dToPort'' []) = Some (fl_dto r) \<and>
     v ''action'' [] = (if fl_action r = 1 then ''Accept'' else ''Drop'') \<and> v ''comment'' [] = fl_comment r)"

text \<open>What stands before and behind the rules in the chain.\<close>

definition filter_before :: "int \<Rightarrow> int \<Rightarrow> string list" where
  "filter_before policy s =
     (if policy = 1 \<and> s \<noteq> 0 then [''iptables -t filter -A macipport_filter -m state --state RELATED,ESTABLISHED -j ACCEPT''] else [])"

definition filter_behind :: "int \<Rightarrow> string list" where
  "filter_behind policy =
     (if policy = 0 then [''iptables -t filter -A macipport_filter -j ACCEPT'']
      else if policy = 1 then [''iptables -t filter -A macipport_filter -j DROP''] else [])"

lemma filter_asked:
  assumes "asks_filter env r" and "filter_ok env r"
  shows "ipportFilter env w = iptablesIPPortFilterRun env (iptablesIPPortFilterFlush
    (commit (setting ''IPPortFilterRules'' (with_rule (w_cache w ''IPPortFilterRules'') (filter_text r)) w)))"
proof -
  have v: "isIpNetmaskValid env (fl_src r) = Inr True" "isIpNetmaskValid env (fl_dst r) = Inr True" "fl_mac r = [] \<or> isMacValid (fl_mac r)"
      "comment_ok (fl_comment r)" "fl_action r = 0 \<or> fl_action r = 1"
    using assms(2) by (simp_all only: filter_ok_def)
  have n: "fl_src r \<noteq> []" "fl_dst r \<noteq> []" using netmask_chars [OF v(1)] netmask_chars [OF v(2)] by (simp_all only:) simp_all
  have a: "filter_address env (fl_src r) = Inr (Some (fl_src r))" "filter_address env (fl_dst r) = Inr (Some (fl_dst r))"
    using v(1,2) n by (simp_all add: filter_address_def)
  have q: "websGetVar env ''mac_address'' [] = fl_mac r" "websGetVar env ''sip_address'' ''any'' = fl_src r"
    "websGetVar env ''dip_address'' ''any'' = fl_dst r" "filter_proto (websGetVar env ''protocol'' []) = Some (fl_proto r)"
    "filter_port (fl_proto r) (websGetVar env ''sFromPort'' ''0'') = Some (fl_sfrom r)"
    "filter_port (fl_proto r) (websGetVar env ''sToPort'' []) = Some (fl_sto r)"
    "filter_port (fl_proto r) (websGetVar env ''dFromPort'' ''0'') = Some (fl_dfrom r)"
    "filter_port (fl_proto r) (websGetVar env ''dToPort'' []) = Some (fl_dto r)"
    "websGetVar env ''action'' [] = (if fl_action r = 1 then ''Accept'' else ''Drop'')" "websGetVar env ''comment'' [] = fl_comment r"
    using assms(1) by (simp_all only: asks_filter_def Let_def)
  show ?thesis
    unfolding ipportFilter_def Let_def q(1-4) a rbind_Inr option.case q(5-8) prod.case q(9,10)
    using v(3-5) n by (auto simp add: filter_text_def filter_fields_def)
qed

text \<open>
  A rule for the filter that is asked for is stored behind the others, and with the filter switched on its chain is
  emptied and filled with the commands of all rules in order, between what the policy puts before and behind.
\<close>

theorem filter_added:
  assumes "asks_filter env r" and "\<forall>q \<in> set (r # rs). filter_ok env q"
    and "w_cache w ''IPPortFilterRules'' = setting_text filter_text rs" and "length (setting_text filter_text (rs @ [r])) < 8192"
    and "atoi (w_cache w ''IPPortFilterEnable'') \<noteq> 0"
    and "s = atoi (w_cache w ''SPIFWEnabled'')" and "policy = atoi (w_cache w ''DefaultFirewallPolicy'')"
  shows "\<exists>w'. ipportFilter env w = Inr w' \<and>
    w_flash w' = (w_cache w)(''IPPortFilterRules'' := setting_text filter_text (rs @ [r])) \<and>
    w_acts w' = w_acts w @ [Commit, Commit, Cmd ''iptables -F macipport_filter 1>/dev/null 2>&1''] @
      map Cmd (filter_before policy s @ concat (map (filter_cmds s) (rs @ [r])) @ filter_behind policy)"
proof -
  have ok: "filter_ok env r" "\<forall>q \<in> set rs. filter_ok env q" "\<forall>q \<in> set (rs @ [r]). filter_ok env q" using assms(2) by auto
  have t: "with_rule (w_cache w ''IPPortFilterRules'') (filter_text r) = setting_text filter_text (rs @ [r])"
    using ff.append_rule [OF ok(2), of r] assms(3,4) by (simp add: with_rule_def)
  define v where "v = iptablesIPPortFilterFlush (commit (setting ''IPPortFilterRules'' (setting_text filter_text (rs @ [r])) w))"
  have c: "\<forall>c \<in> set (filter_before policy s @ concat (map (filter_cmds s) (rs @ [r])) @ filter_behind policy). CHR ''%'' \<notin> set c"
    using ok(3) filter_cmd_apart by (auto simp: filter_before_def filter_behind_def)
  have "ipportFilter env w = iptablesIPPortFilterRun env v" using filter_asked [OF assms(1) ok(1)] t by (simp add: v_def)
  also have "\<dots> = doSystems (filter_before policy s @ concat (map (filter_cmds s) (rs @ [r])) @ filter_behind policy) v"
    using ff.run_rules [OF ok(3), of s] assms(5-7)
    by (simp add: iptablesIPPortFilterRun_def Let_def v_def commit_clean iptablesIPPortFilterFlush_def filter_before_def filter_behind_def)
  finally show ?thesis using doSystems_acts [OF c] by (simp add: v_def commit_clean iptablesIPPortFilterFlush_def)
qed

definition blocked_rule :: filter_rule where
  "blocked_rule = \<lparr>fl_src = ''10.0.0.7/24'', fl_sfrom = 0, fl_sto = 0, fl_dst = ''any'', fl_dfrom = 80, fl_dto = 0, fl_proto = 1,
     fl_action = 0, fl_comment = ''web'', fl_mac = ''00:0c:43:76:20:66''\<rparr>"

theorem filter_added_witness:
  "\<exists>w'. ipportFilter (firewall_env [(''mac_address'', ''00:0c:43:76:20:66''), (''sip_address'', ''10.0.0.7/24''), (''sFromPort'', []),
        (''dFromPort'', ''80''), (''protocol'', ''TCP''), (''action'', ''Drop''), (''comment'', ''web'')] (\<lambda>_. 0))
      (firewall_world [(''IPPortFilterEnable'', ''1''), (''DefaultFirewallPolicy'', ''1'')]) = Inr w' \<and>
    w_flash w' ''IPPortFilterRules'' = ''10.0.0.7/24,0,0,0,any,0,80,0,1,0,web,00:0c:43:76:20:66'' \<and>
    w_acts w' = [Commit, Commit, Cmd ''iptables -F macipport_filter 1>/dev/null 2>&1'',
      Cmd ''iptables -A macipport_filter -m mac --mac-source 00:0c:43:76:20:66 -s 10.0.0.7/24 -d any -p tcp --dport 80 -j DROP'',
      Cmd ''iptables -t filter -A macipport_filter -j DROP'']"
proof -
  let ?e = "firewall_env [(''mac_address'', ''00:0c:43:76:20:66''), (''sip_address'', ''10.0.0.7/24''), (''sFromPort'', []),
        (''dFromPort'', ''80''), (''protocol'', ''TCP''), (''action'', ''Drop''), (''comment'', ''web'')] (\<lambda>_. 0)"
  let ?w = "firewall_world [(''IPPortFilterEnable'', ''1''), (''DefaultFirewallPolicy'', ''1'')]"
  have f: "asks_filter ?e blocked_rule" by code_simp
  have o: "\<forall>q \<in> set (blocked_rule # []). filter_ok ?e q" by code_simp
  have t: "w_cache ?w ''IPPortFilterRules'' = setting_text filter_text []" by code_simp
  have n: "setting_text filter_text ([] @ [blocked_rule]) = ''10.0.0.7/24,0,0,0,any,0,80,0,1,0,web,00:0c:43:76:20:66''" by code_simp
  have l: "length (setting_text filter_text ([] @ [blocked_rule])) < 8192" unfolding n by simp
  have e: "atoi (w_cache ?w ''IPPortFilterEnable'') \<noteq> 0" by code_simp
  have p: "0 = atoi (w_cache ?w ''SPIFWEnabled'')" "1 = atoi (w_cache ?w ''DefaultFirewallPolicy'')" by (code_simp, code_simp)
  have c: "filter_before 1 0 @ concat (map (filter_cmds 0) ([] @ [blocked_rule])) @ filter_behind 1 =
      [''iptables -A macipport_filter -m mac --mac-source 00:0c:43:76:20:66 -s 10.0.0.7/24 -d any -p tcp --dport 80 -j DROP'',
       ''iptables -t filter -A macipport_filter -j DROP'']"
    by code_simp
  have v: "w_acts ?w = []" by code_simp
  show ?thesis using filter_added [OF f o t l e p] unfolding c n v by fastforce
qed

end
