(* ===== verification/FirewallPageProps.thy ===== *)
theory FirewallPageProps
  imports FirewallPages FirewallFilter
begin

text \<open>
  The firewall from the start of the server to the pages: what the chains hold then, the tables of the rules against
  the rules, deleting by the check boxes of a table, the table that is never finished, and the filter of URLs.
\<close>

section \<open>Starting\<close>

lemma runs_acts: "runs cs w = acts_more (map Cmd cs) w"
  by (induction cs arbitrary: w) (simp_all add: runs_def acts_more_def act_def)

lemma runs_values [simp]: "w_cache (runs cs w) = w_cache w" "w_flash (runs cs w) = w_flash w"
  "w_acts (runs cs w) = w_acts w @ map Cmd cs"
  by (simp_all add: runs_acts)

lemma conntrack_values [simp]: "w_cache (conntrack_flush w) = w_cache w"
  by (simp add: conntrack_flush_def)

lemma cleared_values [simp]: "w_cache (iptablesAllFilterClear w) = w_cache w" "w_cache (iptablesAllNATClear w) = w_cache w"
  by (simp_all add: iptablesAllFilterClear_def iptablesAllNATClear_def iptablesNATPortTriggerClear_def iptablesPortTriggerClear_def
    iptablesMaliciousFilterClear_def iptablesWebContentFilterClear_def iptablesIPPortFilterClear_def iptablesForwardFilterClear_def
    iptablesDMZClear_def iptablesPortForwardClear_def)

lemma misuse_values [simp]: "w_cache (iptablesMaliciousFilterRun env w) = w_cache w" "w_cache (iptablesRemoteManagementRun env w) = w_cache w"
  "w_cache (iptablesWebsFilterRun w) = w_cache w"
  by (simp_all add: iptablesMaliciousFilterRun_def iptablesRemoteManagementRun_def iptablesWebsFilterRun_def Let_def)

text \<open>The filters start whatever their settings hold, as long as they hold rules.\<close>

lemma filter_runs:
  assumes "\<forall>q \<in> set fs. filter_ok env q" and "w_cache w ''IPPortFilterRules'' = setting_text filter_text fs"
  shows "\<exists>cs. iptablesIPPortFilterRun env w = Inr (acts_more (map Cmd cs) w)"
proof (cases "atoi (w_cache w ''IPPortFilterEnable'') = 0")
  case True
  then show ?thesis by (auto simp: iptablesIPPortFilterRun_def acts_more_def intro!: exI [of _ "[]"])
next
  case False
  define s where "s = atoi (w_cache w ''SPIFWEnabled'')"
  define p where "p = atoi (w_cache w ''DefaultFirewallPolicy'')"
  have c: "\<forall>c \<in> set (filter_before p s @ concat (map (filter_cmds s) fs) @ filter_behind p). CHR ''%'' \<notin> set c"
    using assms(1) filter_cmd_apart by (auto simp: filter_before_def filter_behind_def)
  have "iptablesIPPortFilterRun env w = doSystems (filter_before p s @ concat (map (filter_cmds s) fs) @ filter_behind p) w"
    using ff.run_rules [OF assms(1), of s] False assms(2)
    by (simp add: iptablesIPPortFilterRun_def Let_def s_def p_def filter_before_def filter_behind_def)
  then show ?thesis unfolding doSystems_acts [OF c] by (rule exI)
qed

lemma trigger_runs:
  assumes "\<forall>q \<in> set ts. trigger_ok q" and "w_cache w ''PortTriggerRules'' = setting_text trigger_text ts"
  shows "\<exists>cs. iptablesPortTriggerRun w = Inr (acts_more (map Cmd cs) w)"
proof (cases "atoi (w_cache w ''PortTriggerEnable'') = 0")
  case True
  then show ?thesis by (auto simp: iptablesPortTriggerRun_def acts_more_def intro!: exI [of _ "[]"])
next
  case False
  have c: "\<forall>c \<in> set (concat (map trigger_cmds ts) @ [''iptables -t nat -A trigger_prerouting -j TRIGGER --trigger-type dnat'']). CHR ''%'' \<notin> set c"
    by (auto simp: trigger_cmds_def makePortTriggerRule_def)
  have "iptablesPortTriggerRun w = doSystems (concat (map trigger_cmds ts) @ [''iptables -t nat -A trigger_prerouting -j TRIGGER --trigger-type dnat'']) w"
    using pt.run_rules [OF assms(1)] False assms(2) by (simp add: iptablesPortTriggerRun_def)
  then show ?thesis unfolding doSystems_acts [OF c] by (rule exI)
qed

text \<open>When the server starts, the chain of the forwarded ports gets the ranges and the single ports.\<close>

lemma boot_fills_both:
  assumes "\<forall>q \<in> set fs. filter_ok env q" and "w_cache w ''IPPortFilterRules'' = setting_text filter_text fs"
    and "\<forall>q \<in> set ts. trigger_ok q" and "w_cache w ''PortTriggerRules'' = setting_text trigger_text ts"
    and "\<forall>q \<in> set rs. forward_ok env q" and "w_cache w ''PortForwardRules'' = setting_text forward_text rs"
    and "\<forall>q \<in> set ss. single_ok env q" and "w_cache w ''SinglePortForwardRules'' = setting_text forward_text ss"
    and "atoi (w_cache w ''PortForwardEnable'') \<noteq> 0" and "atoi (w_cache w ''SinglePortForwardEnable'') \<noteq> 0"
    and "fe_wan_ip env = Some a" and "CHR ''%'' \<notin> set a" and "CHR ''%'' \<notin> set (fe_wan_name env)"
    and "atoi (w_cache w ''DMZEnable'') = 0"
  shows "\<exists>w' before. firewall_init env w = Inr w' \<and>
    w_acts w' = before @ map Cmd (concat (map (forward_cmds a) rs) @ concat (map (single_cmds env) ss))"
proof -
  obtain v where v: "firewall_init env w = rbind (iptablesAllFilterRun env v) (\<lambda>w. iptablesAllNATRun env (runs
       [quiet ''iptables -t nat -N port_forward'' @ ''; '' @ quiet ''iptables -t nat -I PREROUTING 1 -j port_forward'',
        quiet ''iptables -t nat -N DMZ'' @ ''; '' @ quiet ''iptables -t nat -I PREROUTING 2 -j DMZ'',
        ''iptables -I malicious_input_filter   -p udp --dport 53 -j ACCEPT ''] (iptablesAllNATClear w)))" "w_cache v = w_cache w"
    by (rule that, rule firewall_init_def) simp
  obtain cs where c: "iptablesIPPortFilterRun env v = Inr (acts_more (map Cmd cs) v)"
    using filter_runs [OF assms(1), of v] assms(2) v(2) by auto
  define u where "u = iptablesMaliciousFilterRun env (iptablesRemoteManagementRun env (iptablesWebsFilterRun (acts_more (map Cmd cs) v)))"
  have u: "w_cache u = w_cache w" by (simp add: u_def v(2))
  obtain ds where d: "iptablesPortTriggerRun u = Inr (acts_more (map Cmd ds) u)"
    using trigger_runs [OF assms(3), of u] assms(4) u by auto
  define x where "x = runs [quiet ''iptables -t nat -N port_forward'' @ ''; '' @ quiet ''iptables -t nat -I PREROUTING 1 -j port_forward'',
        quiet ''iptables -t nat -N DMZ'' @ ''; '' @ quiet ''iptables -t nat -I PREROUTING 2 -j DMZ'',
        ''iptables -I malicious_input_filter   -p udp --dport 53 -j ACCEPT ''] (iptablesAllNATClear (acts_more (map Cmd ds) u))"
  have x: "w_cache x = w_cache w" by (simp add: x_def u)
  have "firewall_init env w = iptablesAllNATRun env x"
    unfolding v(1) iptablesAllFilterRun_def c rbind_Inr u_def [symmetric] d x_def ..
  moreover have "iptablesPortForwardRun env x = Inr (acts_more (map Cmd (concat (map (forward_cmds a) rs))) x)"
    by (rule pf_cmds_run [OF assms(5) _ _ assms(11,12)]) (use assms(6,9) x in simp_all)
  moreover have "iptablesSinglePortForwardRun env (acts_more (map Cmd (concat (map (forward_cmds a) rs))) x) =
      Inr (acts_more (map Cmd (concat (map (single_cmds env) ss))) (acts_more (map Cmd (concat (map (forward_cmds a) rs))) x))"
    by (rule sf_cmds_run [OF assms(7) _ _ assms(13)]) (use assms(8,10) x in simp_all)
  ultimately have "firewall_init env w =
      Inr (acts_more (map Cmd (concat (map (single_cmds env) ss))) (acts_more (map Cmd (concat (map (forward_cmds a) rs))) x))"
    using assms(14) x by (simp add: iptablesAllNATRun_def iptablesDMZRun_def)
  then show ?thesis by (intro exI [of _ "acts_more (map Cmd (concat (map (single_cmds env) ss))) (acts_more (map Cmd (concat (map (forward_cmds a) rs))) x)"]
        exI [of _ "w_acts x"]) simp
qed

section \<open>The table of the forwarded ports\<close>

lemma field_cut:
  assumes "\<forall>v \<in> set vs. CHR '','' \<notin> set v" and "k < length vs" and "n \<noteq> 0"
  shows "field k n (joined CHR '','' vs) f = f (take (n - 1) (vs ! k))"
proof -
  have "vs \<noteq> []" using assms(2) by auto
  then show ?thesis using nth_value_joined [OF assms(1)] assms(2,3) by (simp add: field_def getNthValueSafe_def)
qed

definition forward_row :: "nat \<Rightarrow> forward \<Rightarrow> fw_row" where
  "forward_row k r = fw_row_of k [fw_host r, range_cell (fw_from r) (fw_to r), proto_cell (fw_proto r), comment_cell (take 15 (fw_comment r))]"

lemma forward_short:
  assumes "forward_ok env r"
  shows "length (forward_text r) < 128"
proof -
  have "length (fw_comment r) \<le> 32" and "length (fw_host r) < 32" using assms by (simp_all add: forward_ok_def comment_ok_def)
  moreover have "length (show_int (fw_from r)) < 8" "length (show_int (fw_to r)) < 8" "length (show_int (fw_proto r)) < 8"
    using assms proto_range [OF assms] by (simp_all add: forward_ok_def port_text)
  ultimately show ?thesis by (simp add: forward_text_def forward_fields_def)
qed

text \<open>A row for each rule, in order, with its number and the number of its check box.\<close>

lemma page_lists:
  assumes "\<forall>q \<in> set rs. forward_ok env q" and "w_cache w ''PortForwardRules'' = setting_text forward_text rs"
  shows "showPortForwardRulesASP env w = map (\<lambda>k. forward_row k (rs ! k)) [0..<length rs]"
proof (cases "rs = []")
  case True
  then show ?thesis using assms(2) by (simp add: showPortForwardRulesASP_def setting_text_def)
next
  case False
  define step where "step = (\<lambda>i rec.
       field 0 32 rec (\<lambda>ip. if \<not> isIpValid env ip then []
         else field 1 8 rec (\<lambda>prf. if atoi prf = 0 \<or> 65535 < atoi prf then []
           else field 2 8 rec (\<lambda>prt. if 65535 < atoi prt then []
             else field 3 8 rec (\<lambda>p. if atoi p \<notin> {PROTO_TCP, PROTO_UDP, PROTO_TCP_UDP} then []
               else field 4 16 rec (\<lambda>c. [fw_row_of i
                 [ip, range_cell (atoi prf) (atoi prt), proto_cell (atoi p), comment_cell c]]))))))"
  have one: "step k (forward_text r) = [forward_row k r]" if r: "forward_ok env r" for k r
  proof -
    have "\<forall>v \<in> set (forward_fields r). CHR '','' \<notin> set v" using fields_apart [OF r] by blast
    then have c: "field 4 16 (forward_text r) f = f (take 15 (fw_comment r))" for f :: "string \<Rightarrow> fw_row list"
      using field_cut [of "forward_fields r" 4 16 f] by (simp add: forward_text_def) (simp add: forward_fields_def)
    show ?thesis using r
      by (simp add: step_def forward_row_def forward_reads [OF r] forward_atoi [OF r] c del: One_nat_def) (simp add: forward_ok_def)
  qed
  have "each_record 128 step 0 (setting_text forward_text rs) =
      concat (map (\<lambda>k. step k (map forward_text rs ! k)) [0..<length (map forward_text rs)])"
    unfolding setting_text_def
    by (rule each_record_joined) (use assms(1) False forward_short pf.texts_plain in fastforce)+
  also have "\<dots> = concat (map (\<lambda>k. [forward_row k (rs ! k)]) [0..<length rs])"
    using assms(1) one by (intro arg_cong [of _ _ concat]) (simp add: list_all_iff)
  finally show ?thesis
    using assms(2) pf.text_empty [OF assms(1)] False by (simp add: showPortForwardRulesASP_def step_def)
qed

lemma page_cells:
  assumes "\<forall>q \<in> set rs. forward_ok env q" and "w_cache w ''PortForwardRules'' = setting_text forward_text rs"
  shows "map rw_cells (showPortForwardRulesASP env w) = map (\<lambda>r. rw_cells (forward_row 0 r)) rs"
  unfolding page_lists [OF assms] by (rule nth_equalityI) (simp_all add: forward_row_def fw_row_of_def)

text \<open>
  C25: What the page shows after forwardings are deleted is what it showed less the rows with a check: the number in the
  name of a check box is the place of the rule.  The memory behind the chosen numbers must hold numbers of no rule.
\<close>

theorem unchecked_rows_stay:
  assumes "\<forall>q \<in> set rs. forward_ok env q" and "w_cache w ''PortForwardRules'' = setting_text forward_text rs"
    and "fe_malloc env" and "chosen env (length rs) \<noteq> []"
    and "\<forall>i \<in> {length (chosen env (length rs))..<length rs}. fe_fresh env i < 0 \<or> int (length rs) \<le> fe_fresh env i"
    and "atoi (w_cache w ''PortForwardEnable'') \<noteq> 0" and "fe_wan_ip env = Some a" and "CHR ''%'' \<notin> set a"
    and "atoi (w_cache w ''DMZEnable'') = 0"
  shows "\<exists>w' v. portForwardDelete env w = Inr w' \<and>
    map rw_cells (showPortForwardRulesASP env w') =
      nths (map rw_cells (showPortForwardRulesASP env w)) {k. fe_form env (''delRule'' @ show_nat k) = None} \<and>
    w_acts w' = w_acts w @ [Commit, Commit, Cmd ''iptables -t nat -F port_forward 1>/dev/null 2>&1''] @
      map Cmd (concat (map (forward_cmds a) (nths rs {k. fe_form env (''delRule'' @ show_nat k) = None}))) @
      Cmd ''iptables -t nat -F DMZ 1>/dev/null 2>&1'' # v"
proof -
  let ?S = "{k. k \<notin> set (chosen env (length rs))}" and ?T = "{k. fe_form env (''delRule'' @ show_nat k) = None}"
  have n: "nths xs ?S = nths xs ?T" if "length xs = length rs" for xs :: "'x list"
    unfolding nths_def using that by (intro arg_cong [of _ _ "map fst"] filter_cong) (auto simp: chosen_def set_zip)
  obtain w' v where w: "portForwardDelete env w = Inr w'"
    "w_flash w' = (w_cache w)(''PortForwardRules'' := setting_text forward_text (nths rs ?S))" "w_cache w' = w_flash w'"
    "w_acts w' = w_acts w @ [Commit, Commit, Cmd ''iptables -t nat -F port_forward 1>/dev/null 2>&1''] @
      map Cmd (concat (map (forward_cmds a) (nths rs ?S))) @ Cmd ''iptables -t nat -F DMZ 1>/dev/null 2>&1'' # v"
    using port_forward_deleted [OF assms] by blast
  have "\<forall>q \<in> set (nths rs ?S). forward_ok env q" using assms(1) by (auto dest: in_set_nthsD)
  moreover have "w_cache w' ''PortForwardRules'' = setting_text forward_text (nths rs ?S)" using w(2,3) by simp
  ultimately have "map rw_cells (showPortForwardRulesASP env w') = map (\<lambda>r. rw_cells (forward_row 0 r)) (nths rs ?S)" by (rule page_cells)
  then have "map rw_cells (showPortForwardRulesASP env w') = nths (map rw_cells (showPortForwardRulesASP env w)) ?T"
    unfolding page_cells [OF assms(1,2)] by (simp add: n nths_map)
  then show ?thesis using w(1,4) n [of rs] by auto
qed

theorem unchecked_rows_stay_witness:
  "\<exists>w'. portForwardDelete (firewall_env [(''delRule1'', ''on'')] (\<lambda>_. -1))
      (firewall_world [(''PortForwardEnable'', ''1''), (''PortForwardRules'', setting_text forward_text three_rules)]) = Inr w' \<and>
    map rw_cells (showPortForwardRulesASP (firewall_env [(''delRule1'', ''on'')] (\<lambda>_. -1)) w') =
      [[''10.0.0.8'', ''22 - 25'', ''TCP + UDP'', ''shell''], [''10.0.0.8'', ''40'', ''TCP + UDP'', ''shell'']]"
proof -
  let ?e = "firewall_env [(''delRule1'', ''on'')] (\<lambda>_. -1)"
  let ?w = "firewall_world [(''PortForwardEnable'', ''1''), (''PortForwardRules'', setting_text forward_text three_rules)]"
  have o: "\<forall>q \<in> set three_rules. forward_ok ?e q" by code_simp
  have t: "w_cache ?w ''PortForwardRules'' = setting_text forward_text three_rules" by (simp add: firewall_world_def)
  have m: "fe_malloc ?e" "\<And>i. fe_fresh ?e i = -1" "fe_wan_ip ?e = Some ''1.2.3.4''" by (simp_all add: firewall_env_def)
  have c: "chosen ?e (length three_rules) \<noteq> []" by code_simp
  have z: "atoi (w_cache ?w ''PortForwardEnable'') \<noteq> 0" "CHR ''%'' \<notin> set ''1.2.3.4''" "atoi (w_cache ?w ''DMZEnable'') = 0"
    by (code_simp, simp, code_simp)
  have f: "\<forall>i \<in> {length (chosen ?e (length three_rules))..<length three_rules}. fe_fresh ?e i < 0 \<or> int (length three_rules) \<le> fe_fresh ?e i"
    by (simp add: m(2))
  have b: "fe_form ?e (''delRule'' @ show_nat 0) = None" "fe_form ?e (''delRule'' @ show_nat 1) \<noteq> None"
    "fe_form ?e (''delRule'' @ show_nat 2) = None"
    by (code_simp, code_simp, code_simp)
  have p: "map rw_cells (showPortForwardRulesASP ?e ?w) = [[''10.0.0.8'', ''22 - 25'', ''TCP + UDP'', ''shell''],
      [''10.0.0.7 `reboot`'', ''80'', ''TCP'', ''web''], [''10.0.0.8'', ''40'', ''TCP + UDP'', ''shell'']]"
    unfolding page_cells [OF o t] by code_simp
  have "nths (map rw_cells (showPortForwardRulesASP ?e ?w)) {k. fe_form ?e (''delRule'' @ show_nat k) = None} =
      [[''10.0.0.8'', ''22 - 25'', ''TCP + UDP'', ''shell''], [''10.0.0.8'', ''40'', ''TCP + UDP'', ''shell'']]"
    unfolding p nths_Cons using b by (simp add: numeral_2_eq_2)
  then show ?thesis using unchecked_rows_stay [OF o t m(1) c f z(1) m(3) z(2,3)] by fastforce
qed

section \<open>The table of the filter\<close>

text \<open>Rules of the filter with any protocol.\<close>

definition filter_shape :: "fw_env \<Rightarrow> filter_rule \<Rightarrow> bool" where
  "filter_shape env r = (filter_ok env (r\<lparr>fl_proto := PROTO_TCP\<rparr>) \<and> small_number (fl_proto r))"

definition known_proto :: "filter_rule \<Rightarrow> bool" where
  "known_proto r = (fl_proto r \<in> {PROTO_TCP, PROTO_UDP, PROTO_NONE, PROTO_ICMP})"

lemma need_text:
  assumes "\<forall>v \<in> set vs. CHR '','' \<notin> set v" and "drop k vs = v # ws" and "n \<noteq> 0"
  shows "need k n (joined CHR '','' vs) f = f (take (n - 1) v)"
proof -
  have "k < length vs" using assms(2) by (metis drop_eq_Nil list.distinct(1) not_less)
  moreover have "vs ! k = v" using assms(2) \<open>k < length vs\<close> by (simp add: Cons_nth_drop_Suc [symmetric])
  moreover have "vs \<noteq> []" using \<open>k < length vs\<close> by auto
  ultimately show ?thesis using nth_value_joined [OF assms(1)] assms(3) by (simp add: need_def getNthValueSafe_def)
qed

text \<open>A record is read again exactly when its protocol is not known; else it gives a row.\<close>

lemma filter_read:
  assumes "filter_shape env r"
  shows "if known_proto r then \<exists>cells. read_filter env (filter_text r) = Row cells else read_filter env (filter_text r) = ReadAgain"
proof -
  let ?r = "r\<lparr>fl_proto := PROTO_TCP\<rparr>"
  have ok: "filter_ok env ?r" and s: "small_number (fl_proto r)" using assms by (simp_all add: filter_shape_def)
  have p: "length (fl_src r) < 32" "length (fl_dst r) < 32" "length (fl_mac r) < 32" "length (show_int (fl_action r)) < 4"
    using filter_parts(1-3,5) [OF ok] by simp_all
  have n: "length (show_int (fl_sfrom r)) < 8" "length (show_int (fl_sto r)) < 8" "length (show_int (fl_dfrom r)) < 8"
    "length (show_int (fl_dto r)) < 8" "length (show_int (fl_proto r)) < 8"
    using ok s by (simp_all add: filter_ok_def)
  have c: "\<forall>v \<in> set (filter_fields r). CHR '','' \<notin> set v"
    using filter_apart [OF ok] by (simp add: filter_fields_def)
  let ?t = "filter_text r"
  have f0: "need 0 32 ?t f = f (fl_src r)" and f4: "need 4 32 ?t f = f (fl_dst r)" and f11: "need 11 32 ?t f = f (fl_mac r)"
    and f9: "need 9 4 ?t f = f (show_int (fl_action r))" and f10: "need 10 16 ?t f = f (take 15 (fl_comment r))" for f
    unfolding filter_text_def using p by (subst need_text [OF c], simp add: filter_fields_def, simp, simp)+
  have g1: "need 1 32 ?t f = f ''0''" and g5: "need 5 32 ?t f = f ''0''" for f
    unfolding filter_text_def by (subst need_text [OF c], simp add: filter_fields_def, simp, simp)+
  have h2: "need 2 8 ?t f = f (show_int (fl_sfrom r))" and h3: "need 3 8 ?t f = f (show_int (fl_sto r))"
    and h6: "need 6 8 ?t f = f (show_int (fl_dfrom r))" and h7: "need 7 8 ?t f = f (show_int (fl_dto r))"
    and h8: "need 8 8 ?t f = f (show_int (fl_proto r))" for f
    unfolding filter_text_def using n by (subst need_text [OF c], simp add: filter_fields_def, simp, simp)+
  have v: "isIpNetmaskValid env (fl_src r) = Inr True" "isIpNetmaskValid env (fl_dst r) = Inr True"
    "small_number (fl_sfrom r)" "small_number (fl_sto r)" "small_number (fl_dfrom r)" "small_number (fl_dto r)"
    using ok by (simp_all add: filter_ok_def)
  have u: "atoi (show_int (fl_sfrom r)) = fl_sfrom r" "atoi (show_int (fl_sto r)) = fl_sto r" "atoi (show_int (fl_dfrom r)) = fl_dfrom r"
    "atoi (show_int (fl_dto r)) = fl_dto r" "atoi (show_int (fl_proto r)) = fl_proto r"
    "(65535 < fl_sfrom r) = False" "(65535 < fl_sto r) = False" "(65535 < fl_dfrom r) = False" "(65535 < fl_dto r) = False"
    using v(3-6) s by simp_all
  have "read_filter env ?t = (if fl_proto r \<notin> {PROTO_TCP, PROTO_UDP, PROTO_NONE, PROTO_ICMP} then ReadAgain else
      Row ([if fl_mac r = [] then ''-'' else fl_mac r, address_cell (fl_dst r), address_cell (fl_src r), proto_cell (fl_proto r),
        port_cell (fl_dfrom r) (fl_dto r), port_cell (fl_sfrom r) (fl_sto r)] @ action_cell (atoi (show_int (fl_action r))) @
        [comment_cell (take 15 (fl_comment r))]))"
    by (simp only: read_filter_def f0 f4 f11 f9 f10 g1 g5 h2 h3 h6 h7 h8 u v(1,2) if_False simp_thms)
  then show ?thesis unfolding known_proto_def by (metis (no_types))
qed

lemma shape_plain:
  assumes "filter_shape env r"
  shows "CHR '';'' \<notin> set (filter_text r) \<and> filter_text r \<noteq> [] \<and> length (filter_text r) < 256"
proof -
  let ?r = "r\<lparr>fl_proto := PROTO_TCP\<rparr>"
  have ok: "filter_ok env ?r" and s: "small_number (fl_proto r)" using assms by (simp_all add: filter_shape_def)
  have p: "length (fl_src r) < 32" "length (fl_dst r) < 32" "length (fl_mac r) < 32" "length (show_int (fl_action r)) < 4"
    "length (fl_comment r) \<le> 32"
    using filter_parts(1-3,5,7) [OF ok] by simp_all
  have n: "length (show_int (fl_sfrom r)) < 8" "length (show_int (fl_sto r)) < 8" "length (show_int (fl_dfrom r)) < 8"
    "length (show_int (fl_dto r)) < 8" "length (show_int (fl_proto r)) < 8"
    using ok s by (simp_all add: filter_ok_def)
  have "length (filter_text r) < 256" using p n by (simp add: filter_text_def filter_fields_def)
  then show ?thesis using filter_apart [OF ok] by (simp add: filter_text_def filter_fields_def)
qed

text \<open>A record that is read again is read for ever.\<close>

lemma read_again_hangs:
  assumes "getNthValueSafe i rules CHR '';'' 256 = Some rec" and "rec \<noteq> []" and "read_filter env rec = ReadAgain"
  shows "filter_rows env rules i = None"
proof (rule ccontr)
  assume "filter_rows env rules i \<noteq> None"
  then obtain y where "filter_rows env rules i = Some y" by auto
  then have "\<not> (env = env \<and> rules = rules \<and> i = i)"
  proof (rule filter_rows.raw_induct [where P = "\<lambda>e r j y. \<not> (e = env \<and> r = rules \<and> j = i)", rotated])
    fix f e r j y
    assume IH: "\<And>e r j y. f e r j = Some y \<Longrightarrow> \<not> (e = env \<and> r = rules \<and> j = i)"
      and y: "(case getNthValueSafe j r CHR '';'' 256 of None \<Rightarrow> Some ([], j)
     | Some rec \<Rightarrow> if rec = [] then Some ([], j) else (case read_filter e rec of
           PassOver \<Rightarrow> f e r (j + 1)
         | ReadAgain \<Rightarrow> f e r j
         | Row cells \<Rightarrow> Option.bind (f e r (j + 1)) (\<lambda>(rows, n). Some (fw_row_of j cells # rows, n)))) = Some y"
    show "\<not> (e = env \<and> r = rules \<and> j = i)"
    proof
      assume e: "e = env \<and> r = rules \<and> j = i"
      then have "f e r j = Some y" using y assms by simp
      then show False using IH e by blast
    qed
  qed
  then show False by simp
qed

lemma filter_rows_end:
  assumes "\<forall>r \<in> set rs. filter_shape env r" and "rs \<noteq> []"
  shows "filter_rows env (setting_text filter_text rs) i \<noteq> None \<longleftrightarrow> (\<forall>r \<in> set (drop i rs). known_proto r)"
proof -
  have plain: "\<forall>v \<in> set (map filter_text rs). CHR '';'' \<notin> set v" using assms(1) shape_plain by fastforce
  show ?thesis
  proof (induction "length rs - i" arbitrary: i)
    case 0
    have "getNthValueSafe i (setting_text filter_text rs) CHR '';'' 256 = None"
      using nth_value_joined [OF plain, of i] assms(2) 0 by (simp add: getNthValueSafe_def setting_text_def)
    then show ?case using 0 by (subst filter_rows.simps) simp
  next
    case (Suc k)
    then have i: "i < length rs" by simp
    then have shape: "filter_shape env (rs ! i)" using assms(1) by simp
    have "length (filter_text (rs ! i)) \<le> 255" using shape_plain [OF shape] by simp
    then have rec: "getNthValueSafe i (setting_text filter_text rs) CHR '';'' 256 = Some (filter_text (rs ! i))"
      using nth_value_joined [OF plain, of i] assms(2) i by (simp add: getNthValueSafe_def setting_text_def)
    have IH: "filter_rows env (setting_text filter_text rs) (i + 1) \<noteq> None \<longleftrightarrow> (\<forall>r \<in> set (drop (i + 1) rs). known_proto r)"
      by (rule Suc(1)) (use Suc(2) in simp)
    have d: "drop i rs = rs ! i # drop (i + 1) rs" using i by (simp add: Cons_nth_drop_Suc)
    show ?case
    proof (cases "known_proto (rs ! i)")
      case True
      then obtain cells where "read_filter env (filter_text (rs ! i)) = Row cells" using filter_read [OF shape] by auto
      then have "filter_rows env (setting_text filter_text rs) i =
          Option.bind (filter_rows env (setting_text filter_text rs) (i + 1)) (\<lambda>(rows, n). Some (fw_row_of i cells # rows, n))"
        using rec shape_plain [OF shape] by (subst filter_rows.simps) simp
      then have "filter_rows env (setting_text filter_text rs) i \<noteq> None \<longleftrightarrow> filter_rows env (setting_text filter_text rs) (i + 1) \<noteq> None"
        by (cases "filter_rows env (setting_text filter_text rs) (i + 1)") auto
      then show ?thesis using IH True d by simp
    next
      case False
      then have "filter_rows env (setting_text filter_text rs) i = None"
        using filter_read [OF shape] shape_plain [OF shape] by (intro read_again_hangs [OF rec]) auto
      then show ?thesis using False d by simp
    qed
  qed
qed

text \<open>
  C27: The page with the table of the filter is finished exactly when the protocol of every rule is one of the four it
  knows: at another the loop reads the same record for ever, and with it stands the server.
\<close>

theorem filter_page_ends:
  assumes "\<forall>r \<in> set rs. filter_shape env r" and "w_cache w ''IPPortFilterRules'' = setting_text filter_text rs"
    and "w_cache w ''DefaultFirewallPolicy'' \<noteq> []"
  shows "(\<exists>rows. showIPPortFilterRulesASP env w = Some rows) \<longleftrightarrow> (\<forall>r \<in> set rs. known_proto r)"
proof (cases "rs = []")
  case True
  then have "filter_rows env [] 0 = Some ([], 0)" by (subst filter_rows.simps) (simp add: getNthValueSafe_def)
  then show ?thesis using True assms(2,3) by (simp add: showIPPortFilterRulesASP_def setting_text_def)
next
  case False
  then show ?thesis using filter_rows_end [OF assms(1) False, of 0] assms(2,3) by (simp add: showIPPortFilterRulesASP_def)
qed

theorem filter_page_ends_witness:
  "(\<exists>rows. showIPPortFilterRulesASP (firewall_env [] (\<lambda>_. 0)) (firewall_world [(''DefaultFirewallPolicy'', ''0''),
      (''IPPortFilterRules'', ''10.0.0.7/24,0,0,0,any,0,80,0,1,0,web,00:0c:43:76:20:66'')]) = Some rows) \<and>
    showIPPortFilterRulesASP (firewall_env [] (\<lambda>_. 0)) (firewall_world [(''DefaultFirewallPolicy'', ''0''),
      (''IPPortFilterRules'', ''10.0.0.7/24,0,0,0,any,0,80,0,3,0,web,00:0c:43:76:20:66'')]) = None"
proof -
  let ?e = "firewall_env [] (\<lambda>_. 0)"
  let ?w = "\<lambda>t. firewall_world [(''DefaultFirewallPolicy'', ''0''), (''IPPortFilterRules'', t)]"
  have t: "''10.0.0.7/24,0,0,0,any,0,80,0,1,0,web,00:0c:43:76:20:66'' = setting_text filter_text [blocked_rule]"
    "''10.0.0.7/24,0,0,0,any,0,80,0,3,0,web,00:0c:43:76:20:66'' = setting_text filter_text [blocked_rule\<lparr>fl_proto := 3\<rparr>]"
    by (code_simp, code_simp)
  have s: "\<forall>r \<in> set [blocked_rule]. filter_shape ?e r" "\<forall>r \<in> set [blocked_rule\<lparr>fl_proto := 3\<rparr>]. filter_shape ?e r"
    by (code_simp, code_simp)
  have w: "w_cache (?w v) ''IPPortFilterRules'' = v" "w_cache (?w v) ''DefaultFirewallPolicy'' \<noteq> []" for v
    by (simp_all add: firewall_world_def)
  have k: "\<forall>r \<in> set [blocked_rule]. known_proto r" "\<not> (\<forall>r \<in> set [blocked_rule\<lparr>fl_proto := 3\<rparr>]. known_proto r)"
    by (code_simp, code_simp)
  show ?thesis unfolding t using filter_page_ends [OF s(1) w] filter_page_ends [OF s(2) w] k
    by (metis not_Some_eq)
qed

section \<open>The filter of URLs\<close>

definition url_text_ok :: "string \<Rightarrow> bool" where
  "url_text_ok s = (CHR '';'' \<notin> set s \<and> s \<noteq> [] \<and> length s < 256)"

interpretation uf: rule_list "\<lambda>s. s" url_step url_step url_text_ok
  by unfold_locales (simp_all add: url_text_ok_def url_step_def)

interpretation hf: rule_list "\<lambda>s. s" host_step host_step url_text_ok
  by unfold_locales (simp_all add: url_text_ok_def host_step_def)

lemma restart_webs_acts: "w_acts (restart_webs_filter w) = w_acts w @ map Cmd (''iptables -t filter -F web_filter'' #
    content_cmds (content_filter w) @ run_records url_step (w_cache w ''websURLFilters'') @ run_records host_step (w_cache w ''websHostFilters''))"
  by (simp add: restart_webs_filter_def iptablesWebsFilterRun_def content_filter_def)



end
