(* ===== verification/QosPages.thy ===== *)
theory QosPages
  imports FirewallProps
begin

text \<open>
  The pages for the shares of the line (goahead/src/qos.c): their rules stand in the settings the rules of the
  application are put into.  CONFIG_USER_3G is not defined; the HTML of the answers is left out.
\<close>

section \<open>Restart\<close>

definition QoSRestart :: "fw_env \<Rightarrow> web_world \<Rightarrow> web_world" where
  "QoSRestart env w = (if fe_qos_run env then act (Cmd ''/bin/qos_run'') w else w)"

text \<open>With a connection that is dialled pppd starts the program.\<close>

definition QoSInit :: "fw_env \<Rightarrow> web_world \<Rightarrow> web_world" where
  "QoSInit env w = (if w_cache w ''wanConnectionMode'' \<in> {''PPPOE'', ''L2TP'', ''PPTP''} then w else QoSRestart env w)"

section \<open>Rules\<close>

text \<open>The name of the application that is stored; None: refused.\<close>

definition stored_layer7 :: "(string \<Rightarrow> string) \<Rightarrow> string option" where
  "stored_layer7 v =
     (if v ''protocol'' = [] then
        (if v ''mac_address'' = [] \<and> v ''sip_address'' = [] \<and> v ''dip_address'' = [] \<and> v ''dscp'' = [] \<and> v ''pktlenfrom'' = []
         then None else Some [])
      else if v ''protocol'' = ''TCP'' \<or> v ''protocol'' = ''UDP'' then
        (if v ''dFromPort'' = [] \<and> v ''sFromPort'' = [] then None else Some [])
      else if v ''protocol'' = ''Application'' then (if v ''layer7'' = [] then None else Some (v ''layer7''))
      else if v ''protocol'' = ''ICMP'' then Some [] else None)"

definition port_ok :: "string \<Rightarrow> bool" where
  "port_ok s = (s = [] \<or> atoi s \<noteq> 0 \<and> atoi s \<le> 65535)"

definition stored_remark :: "(string \<Rightarrow> string) \<Rightarrow> string" where
  "stored_remark v =
     (let af = atoi (v ''af_index''); dp = atoi (v ''dp_index'') in
      if v ''remark_dscp'' \<noteq> ''Auto'' then v ''remark_dscp''
      else if af = 5 \<and> dp = 1 then ''EF'' else if af = 6 \<and> dp = 1 then ''BE''
      else take 7 (''AF'' @ show_int af @ show_int dp))"

definition address_valid :: "fw_env \<Rightarrow> string \<Rightarrow> fault + bool" where
  "address_valid env s = (if s = [] then Inr True else isIpNetmaskValid env s)"

definition rule_fields :: "(string \<Rightarrow> string) \<Rightarrow> string \<Rightarrow> string list" where
  "rule_fields v layer7 = map v [''comment'', ''af_index'', ''dp_index'', ''mac_address'', ''protocol'', ''dip_address'', ''sip_address'',
     ''pktlenfrom'', ''pktlento'', ''dFromPort'', ''dToPort'', ''sFromPort'', ''sToPort''] @ [layer7, v ''dscp'', [], stored_remark v]"

definition qosClassifier :: "fw_env \<Rightarrow> web_world \<Rightarrow> fault + web_world" where
  "qosClassifier env w =
     (let v = (\<lambda>n. websGetVar env n []); name = (if v ''dir'' = ''Download'' then ''QoSDLRules'' else ''QoSULRules'') in
      if v ''dir'' = [] \<or> v ''af_index'' = [] \<or> v ''dp_index'' = [] \<or> \<not> comment_ok (v ''comment'') then Inr w
      else if (v ''pktlenfrom'' = []) \<noteq> (v ''pktlento'' = []) then Inr w
      else (case stored_layer7 v of
          None \<Rightarrow> Inr w
        | Some l7 \<Rightarrow>
            if v ''mac_address'' \<noteq> [] \<and> \<not> isMacValid (v ''mac_address'') then Inr w
            else rbind (address_valid env (v ''sip_address'')) (\<lambda>s. if \<not> s then Inr w
              else rbind (address_valid env (v ''dip_address'')) (\<lambda>d. if \<not> d then Inr w
                else if \<not> list_all (\<lambda>n. port_ok (v n)) [''sFromPort'', ''sToPort'', ''dFromPort'', ''dToPort''] then Inr w
                else Inr (QoSRestart env (commit (bufset name
                  (with_rule (w_cache w name) (joined CHR '','' (rule_fields v l7))) w)))))))"

text \<open>Here deleteNthValueMulti is told how many places were chosen.\<close>

definition QoSDeleteRules :: "fw_env \<Rightarrow> string \<Rightarrow> web_world \<Rightarrow> web_world" where
  "QoSDeleteRules env which_rule w =
     (let rules = w_cache w which_rule; n = getNums rules CHR '';'';
          js = filter (\<lambda>i. fe_form env (''del_qos_'' @ show_nat i) \<noteq> None) [0..<n]
      in if rules = [] \<or> \<not> fe_malloc env \<or> js = [] then w
         else QoSRestart env (commit (setting which_rule (deleteNthValueMulti (map int js) rules CHR '';'') w)))"

definition QoSDeleteULRules :: "fw_env \<Rightarrow> web_world \<Rightarrow> web_world" where
  "QoSDeleteULRules env w = QoSDeleteRules env ''QoSULRules'' w"

definition QoSDeleteDLRules :: "fw_env \<Rightarrow> web_world \<Rightarrow> web_world" where
  "QoSDeleteDLRules env w = QoSDeleteRules env ''QoSDLRules'' w"

section \<open>Settings\<close>

definition QOS_PROFILE :: "(string \<times> string) list" where
  "QOS_PROFILE =
     [(''QoSModel'', ''1''),
      (''QoSAF5ULName'', ''High(Upload)''), (''QoSAF5ULRate'', ''30''), (''QoSAF5ULCeil'', ''100''),
      (''QoSAF2ULName'', ''Middle(Upload)''), (''QoSAF2ULRate'', ''20''), (''QoSAF2ULCeil'', ''100''),
      (''QoSAF6ULName'', ''Default(Upload)''), (''QoSAF6ULRate'', ''5''), (''QoSAF6ULCeil'', ''100''),
      (''QoSAF1ULName'', ''Low(Upload)''), (''QoSAF1ULRate'', ''10''), (''QoSAF1ULCeil'', ''100''),
      (''QoSAF5DLName'', ''High(Download)''), (''QoSAF5DLRate'', ''30''), (''QoSAF5DLCeil'', ''100''),
      (''QoSAF2DLName'', ''Middle(Download)''), (''QoSAF2DLRate'', ''20''), (''QoSAF2DLCeil'', ''100''),
      (''QoSAF6DLName'', ''Default(Download)''), (''QoSAF6DLRate'', ''5''), (''QoSAF6DLCeil'', ''100''),
      (''QoSAF1DLName'', ''Low(Download)''), (''QoSAF1DLRate'', ''10''), (''QoSAF1DLCeil'', ''100''),
      (''QoSULRules'', joined CHR '';''
        [''ICMP_HIGH,5,1,,ICMP,,,,,,,,,,,,EF'', ''Small_Packet_HIGH,5,1,,,,,0,128,,,,,,,,EF'',
         ''VoIP_H323_HIGH,5,1,,Application,,,,,,,,,h323,,,EF'', ''VoIP_SIP_HIGH,5,1,,Application,,,,,,,,,sip,,,EF'',
         ''VoIP_Skype1_HIGH,5,1,,Application,,,,,,,,,skypeout,,,EF'', ''VoIP_Skype2_HIGH,5,1,,Application,,,,,,,,,skypetoskype,,,EF'',
         ''RTP_HIGH,5,1,,Application,,,,,,,,,rtp,,,EF'', ''SSH_HIGH,5,1,,Application,,,,,,,,,ssh,,,EF'',
         ''MSN_Messenger_MIDDLE,2,1,,Application,,,,,,,,,msnmessenger,,,AF21'', ''Yahoo_MIDDLE,2,1,,Application,,,,,,,,,yahoo,,,AF21'',
         ''PoP3_LOW,1,1,,Application,,,,,,,,,msnmessenger,,,AF11'', ''SMTP_LOW,1,1,,Application,,,,,,,,,smtp,,,AF11'',
         ''P2P_eMule_LOW,1,1,,Application,,,,,,,,,edonkey,,,AF11'', ''P2P_BT_LOW,1,1,,Application,,,,,,,,,bittorrent,,,AF11''])]"

definition bufset_all :: "(string \<times> string) list \<Rightarrow> web_world \<Rightarrow> web_world" where
  "bufset_all xs w = fold (\<lambda>(n, v). bufset n v) xs w"

definition QoSLoadDefaultProfile :: "fw_env \<Rightarrow> web_world \<Rightarrow> web_world" where
  "QoSLoadDefaultProfile env w = QoSRestart env (commit (bufset_all QOS_PROFILE w))"

text \<open>
  The texts of five ports and eight networks, joined in 512 characters.  They are written on the page as formats.
\<close>

definition port_names :: "string list" where
  "port_names = map (\<lambda>i. ''port'' @ show_nat i) [0..<5] @ map (\<lambda>i. ''ssid'' @ show_nat i) [1..<9]"

definition port_rules :: "fw_env \<Rightarrow> string" where
  "port_rules env = concat (map (\<lambda>n. websGetVar env (n @ ''_group'') [] @ '','' @ websGetVar env (n @ ''_remarker'') [] @ '','') port_names)"

definition QoSPortSetup :: "fw_env \<Rightarrow> web_world \<Rightarrow> fault + web_world" where
  "QoSPortSetup env w =
     (let t = port_rules env in
      if 512 \<le> length t then Inl WriteOverflow
      else if CHR ''%'' \<in> set t then Inl FormatDirective
      else Inr (QoSRestart env (commit (bufset ''QoSPortBasedRules'' t w))))"

text \<open>A bandwidth in 16 characters, in k unless the text says otherwise.\<close>

definition with_postfix :: "string \<Rightarrow> fault + string" where
  "with_postfix s = (if 16 \<le> length s then Inl ReadOverrun
     else if list_ex (\<lambda>c. c \<in> set ''kKmM'') s then Inr s
     else if length s = 15 then Inl WriteOverflow else Inr (s @ ''k''))"

definition queue_settings :: "(string \<times> string) list" where
  "queue_settings = concat (map (\<lambda>(dir, d). concat (map (\<lambda>(kind, k). map (\<lambda>(q, i). (q @ ''_'' @ dir @ ''_queue_'' @ kind, ''QoSAF'' @ i @ d @ k))
     [(''highest'', ''5''), (''high'', ''2''), (''default'', ''6''), (''low'', ''1'')])
     [(''rate'', ''Rate''), (''ceil'', ''Ceil'')])) [(''upload'', ''UL''), (''download'', ''DL'')])"

definition QoSSetup :: "fw_env \<Rightarrow> web_world \<Rightarrow> fault + web_world" where
  "QoSSetup env w =
     (let v = (\<lambda>n. websGetVar env n []); e = v ''QoSSelect''; active = e \<in> {''1'', ''2'', ''3'', ''4''};
          finish = (\<lambda>w. Inr (QoSRestart env (commit w)))
      in if e = [] \<or> active \<and> (v ''UploadBandwidth'' = [] \<or> v ''DownloadBandwidth'' = []) then Inr w
         else if \<not> active then finish (bufset ''QoSEnable'' e w)
         else rbind (with_postfix (v ''UploadBandwidth_Custom'')) (\<lambda>up. rbind (with_postfix (v ''DownloadBandwidth_Custom'')) (\<lambda>down.
           finish (bufset_all ([(''QoSEnable'', e), (''QoSUploadBandwidth_custom'', up), (''QoSDownloadBandwidth_custom'', down),
             (''QoSUploadBandwidth'', v ''UploadBandwidth''), (''QoSDownloadBandwidth'', v ''DownloadBandwidth''),
             (''QoSReserveBandwidth'', v ''ReserveBandwidth''), (''QoSModeType'', v ''ModeType''), (''QoSModel'', v ''Model'')] @
             filter (\<lambda>(n, t). t \<noteq> []) (map (\<lambda>(f, n). (n, v f)) queue_settings)) w))))"

section \<open>What the pages do to the rules\<close>

text \<open>Deleting takes out the chosen rules and no other, whatever fresh memory holds.\<close>

lemma qos_rules_deleted:
  assumes "\<forall>v \<in> set vs. CHR '';'' \<notin> set v \<and> v \<noteq> []" and "w_cache w name = joined CHR '';'' vs" and "fe_malloc env"
    and "k < length vs" and "fe_form env (''del_qos_'' @ show_nat k) \<noteq> None"
  shows "w_flash (QoSDeleteRules env name w) name =
    joined CHR '';'' (nths vs {k. fe_form env (''del_qos_'' @ show_nat k) = None})"
proof -
  define js where "js = filter (\<lambda>i. fe_form env (''del_qos_'' @ show_nat i) \<noteq> None) [0..<length vs]"
  have v: "vs \<noteq> []" and j: "js \<noteq> []" using assms(4,5) by (auto simp: js_def filter_empty_conv)
  have r: "w_cache w name \<noteq> []" using assms(1,2) v joined_empty [of vs "CHR '';''"] by simp
  have n: "getNums (w_cache w name) CHR '';'' = length vs" using getNums_joined [of vs "CHR '';''"] assms(1,2) v by simp
  have "sorted_wrt (<) (map int js)" by (simp add: js_def sorted_wrt_map sorted_wrt_filter strict_sorted_iff)
  then have "deleteNthValueMulti (map int js @ []) (joined CHR '';'' vs) CHR '';'' = joined CHR '';'' (kept (map int js) 0 vs)"
    by (intro delete_joined) (use assms(1) v j in auto)
  moreover have "kept (map int js) 0 vs = nths vs {k. fe_form env (''del_qos_'' @ show_nat k) = None}"
    unfolding kept_nths nths_def by (intro arg_cong [of _ _ "map fst"] filter_cong) (auto simp: js_def set_zip)
  ultimately have d: "deleteNthValueMulti (map int js) (w_cache w name) CHR '';'' =
      joined CHR '';'' (nths vs {k. fe_form env (''del_qos_'' @ show_nat k) = None})"
    using assms(2) by simp
  have "QoSDeleteRules env name w = QoSRestart env (commit (setting name (deleteNthValueMulti (map int js) (w_cache w name) CHR '';'') w))"
    unfolding QoSDeleteRules_def Let_def n js_def [symmetric] using r j assms(3) by simp
  then show ?thesis unfolding d by (simp add: QoSRestart_def commit_clean)
qed

text \<open>Only the comment is tested for semicolons: each semicolon in another field makes one rule more.\<close>

lemma semicolons_make_rules:
  assumes "rules \<noteq> []" and "length (rules @ '';'' @ rule) < 8192"
  shows "getNums (with_rule rules rule) CHR '';'' = getNums rules CHR '';'' + 1 + length (filter (\<lambda>c. c = CHR '';'') rule)"
  using assms by (simp add: with_rule_def getNums_def)

text \<open>The rules of the profile are read as fourteen rules.\<close>

lemma profile_rules: "getNums (the (map_of QOS_PROFILE ''QoSULRules'')) CHR '';'' = 14"
  by code_simp

end
