(* ===== verification/WebUtil.thy ===== *)
theory WebUtil
  imports WebThread DeviceFiles
begin

text \<open>
  The rest of goahead/src/heroute_util.c: the log of the web server, and functions its handlers no longer call.
  The coders with AES only call OpenSSL: they are the field \<open>we_wrap\<close> of web_env (theory WebApi).
\<close>

section \<open>The log\<close>

record web_log =
  wl_level :: nat
  wl_title :: string
  wl_dest :: int

definition vpcom_LogInit :: "int \<Rightarrow> web_log \<Rightarrow> web_log" where
  "vpcom_LogInit dest l = l\<lparr>wl_dest := dest\<rparr>"

text \<open>
  The file with the setting, None when it cannot be opened.  NOTICE is 6, DEBUG 8; everything else is ERROR, 4.
\<close>

definition web_getLoglevel :: "string option \<Rightarrow> nat" where
  "web_getLoglevel f = (case f of
       None \<Rightarrow> 4
     | Some s \<Rightarrow> (let t = remove_crln (fst (fgets 64 s)) in if t = ''NOTICE'' then 6 else if t = ''DEBUG'' then 8 else 4))"

definition web_SetLogLevel :: "nat \<Rightarrow> web_log \<Rightarrow> web_log" where
  "web_SetLogLevel level l = l\<lparr>wl_level := level, wl_title := (if level \<le> 8 then g_loglevelTxt ! level else ''UNKOW'')\<rparr>"

text \<open>Each pass of the status thread reads the setting again.\<close>

definition web_setLoglevel :: "string option \<Rightarrow> web_log \<Rightarrow> web_log" where
  "web_setLoglevel f l = web_SetLogLevel (web_getLoglevel f) l"

definition web_log_head :: "nat \<Rightarrow> nat \<times> nat \<times> nat \<Rightarrow> string \<Rightarrow> int \<Rightarrow> string" where
  "web_log_head level hms szFile nLine = (let (h, m, s) = hms in
     take 1023 (''[HERT_HTTP_LOG '' @ two_digits h @ '':'' @ two_digits m @ '':'' @ two_digits s @ ''] '' @
       (if level \<le> 8 then g_loglevelTxt ! level else ''UNKNOW'') @ '' - '' @ szFile @ '', '' @ show_int nLine @ '': ''))"

definition web_Printf :: "nat \<Rightarrow> nat \<times> nat \<times> nat \<Rightarrow> string \<Rightarrow> int \<Rightarrow> string \<Rightarrow> string list" where
  "web_Printf level hms szFile nLine txt = [web_log_head level hms szFile nLine, txt, [CHR 0x0A]]"

definition web_vpcom_log :: "web_log \<Rightarrow> nat \<times> nat \<times> nat \<Rightarrow> string \<Rightarrow> int \<Rightarrow> string \<Rightarrow> string list" where
  "web_vpcom_log l hms szFile nLine txt = (if 8 \<le> wl_level l then web_Printf 8 hms szFile nLine txt else [])"

definition web_vpcom_logInfo :: "web_log \<Rightarrow> nat \<times> nat \<times> nat \<Rightarrow> string \<Rightarrow> int \<Rightarrow> string \<Rightarrow> string list" where
  "web_vpcom_logInfo l hms szFile nLine txt = (if 6 \<le> wl_level l then web_Printf 7 hms szFile nLine txt else [])"

definition web_vpcom_logErr :: "web_log \<Rightarrow> nat \<times> nat \<times> nat \<Rightarrow> string \<Rightarrow> int \<Rightarrow> string \<Rightarrow> string list" where
  "web_vpcom_logErr l hms szFile nLine txt = (if 4 \<le> wl_level l then web_Printf 4 hms szFile nLine txt else [])"

text \<open>With the setting as the file gives it, errors are always printed, and all else only for NOTICE and DEBUG.\<close>

lemma web_errors_printed: "web_vpcom_logErr (web_setLoglevel f l) hms szFile nLine txt \<noteq> []"
  by (simp add: web_vpcom_logErr_def web_setLoglevel_def web_SetLogLevel_def web_getLoglevel_def web_Printf_def Let_def split: option.splits)

lemma web_info_printed: "web_vpcom_logInfo (web_setLoglevel f l) hms szFile nLine txt \<noteq> [] \<longleftrightarrow>
    (\<exists>s. f = Some s \<and> remove_crln (fst (fgets 64 s)) \<in> {''NOTICE'', ''DEBUG''})"
  by (simp add: web_vpcom_logInfo_def web_setLoglevel_def web_SetLogLevel_def web_getLoglevel_def web_Printf_def Let_def split: option.splits)

section \<open>The socket of the status thread\<close>

text \<open>The descriptor stays in its variable when it is closed.\<close>

definition hertUtil_UnInitStatusThread :: "int \<Rightarrow> int set \<Rightarrow> int set" where
  "hertUtil_UnInitStatusThread fd fds = (if 0 \<le> fd then HERT_SOCKET_Close fd fds else fds)"

text \<open>The states of the ports; None: ioctl fails, and the server ends.\<close>

definition hertUtil_reg_read :: "string option \<Rightarrow> string option" where
  "hertUtil_reg_read ports = ports"

section \<open>The filter of addresses\<close>

text \<open>The command lines have 255 characters.  A rule is taken out three times.\<close>

definition ebtables_line :: "string \<Rightarrow> string" where
  "ebtables_line c = take 255 (''ebtables '' @ c @ '' 1>/dev/null 2>/dev/null'')"

definition filter_rules :: "string \<Rightarrow> string \<Rightarrow> string \<Rightarrow> string \<Rightarrow> string list" where
  "filter_rules d a lan m = map ebtables_line
     [d @ '' INPUT -p 0x0800 --ip-dst ! '' @ lan @ '' -s '' @ m @ '' -j DROP'',
      a @ '' INPUT -p 0x0800 --ip-proto 17 --ip-sport 67 -s '' @ m @ '' -j ACCEPT'',
      a @ '' INPUT -p 0x0800 --ip-proto 17 --ip-dport 67 -s '' @ m @ '' -j ACCEPT'']"

definition hertUtil_DelNetFiltMac :: "string option \<Rightarrow> string \<Rightarrow> web_world \<Rightarrow> web_world" where
  "hertUtil_DelNetFiltMac lan m w = (case lan of
       None \<Rightarrow> w
     | Some adr \<Rightarrow> fold (\<lambda>c. act (Cmd c)) (concat (map (replicate 3) (filter_rules ''-D'' ''-D'' adr m))) w)"

definition hertUtil_AddNetFiltMac :: "string option \<Rightarrow> string \<Rightarrow> web_world \<Rightarrow> web_world" where
  "hertUtil_AddNetFiltMac lan m w = (case lan of
       None \<Rightarrow> w
     | Some adr \<Rightarrow> fold (\<lambda>c. act (Cmd c)) (filter_rules ''-A'' ''-I'' adr m) w)"

section \<open>A rule in the setting\<close>

text \<open>
  The first place of the address in InternetRules, read as a rule.  With two periods a text that is missing in the second
  leaves what malloc gave.  None: -1.
\<close>

definition hertUtil_getAccessRulesInNvram :: "bool \<Rightarrow> string \<Rightarrow> string \<Rightarrow> string \<Rightarrow> terminal_body option" where
  "hertUtil_getAccessRulesInNvram mem fresh tarMAC rules = (case strstr rules tarMAC of
       None \<Rightarrow> None
     | Some p \<Rightarrow> (case fst (hertParse_internetRules p none_vars) of
           None \<Rightarrow> None
         | Some v \<Rightarrow>
             if \<not> mem then None
             else (let cut = (\<lambda>t. takeWhile (\<lambda>c. c \<noteq> CHR '','') t); rest = (\<lambda>t. tl (dropWhile (\<lambda>c. c \<noteq> CHR '','') t));
                       or_fresh = (\<lambda>t. if t = [] then fresh else t);
                       times = (if CHR '','' \<in> set (v_start v) \<and> CHR '','' \<in> set (v_end v)
                         then [\<lparr>startTime = cut (v_start v), endTime = cut (v_end v)\<rparr>,
                               \<lparr>startTime = or_fresh (rest (v_start v)), endTime = or_fresh (rest (v_end v))\<rparr>]
                         else [\<lparr>startTime = v_start v, endTime = v_end v\<rparr>])
                   in Some \<lparr>devMac = v_mac v, accessControl = word_of_int (v_acc v), netLimit = word_of_int (v_lim v), netTime = times\<rparr>)))"

lemma access_rule_example:
  "hertUtil_getAccessRulesInNvram True [] ''00:0c:43:76:20:66''
     ''00:0c:43:76:20:65-1-08:00-09:00-0,00:0c:43:76:20:66-1-08:00-12:00&13:00-17:30-2,'' =
   Some \<lparr>devMac = ''00:0c:43:76:20:66'', accessControl = 1, netLimit = 2,
     netTime = [\<lparr>startTime = ''08:00'', endTime = ''12:00''\<rparr>, \<lparr>startTime = ''13:00'', endTime = ''17:30''\<rparr>]\<rparr>"
  by code_simp

end
