(* ===== verification/Spec2Isabelle.thy ===== *)
theory Spec2Isabelle
  imports Decimal JsonParse JsonBuild WireLength Base64 MsgBuild MsgParse MsgList Nvram
    DownloadQueue AppState AppPush AppRun AppProps AppDaily AppAnswers AppThread
    DeviceText DeviceDisk DeviceList Monitor MonitorProps Transport TransportProps Ping PingProps AccessRules AccessProps QosRules
    WebJson WebBase64 WebParse WebBuild WebApi WebDevice WebGuest WebPictures WebServer WebItems WebRequests
    WebRules WebGuard WebNetwork WebFiles WebThread WebThreadProps DeviceFiles DevicePage FirewallPageProps QosPages WebUtil
begin

text \<open>
  HeRouter: the client that connects a home router to its operator's platform
  (src/user/busybox/herouteapp) and the configuration store under it (src/lib/libnvram).

  The program.  herouteapp keeps one TCP connection to the platform.  It registers with CONN_REQ,
  waits for CONN_RESP, asks for its settings, reports what it can do, and from then on sends
  heartbeats and answers requests that come as PUSH_DATA messages: disk space, status, downloads,
  the wireless switch.  A second thread downloads the files the platform asked for, from a list kept
  in a file.  Device names, domain names and flows of the clients of the router come from a capture
  process through a message queue.  Every setting is read from and written to flash by libnvram.
  A second program, hertMonitor, watches over the first and the other programs of the router and
  probes the internet for the pages of the web server.  The web server itself (goahead) answers the
  requests of the local application: JSON objects for status, settings, rules, pictures and upgrades,
  some of which carry a digest of the password.  It keeps rules that say when a client of the router
  may use the internet, puts them into the firewall, and has a thread of its own that looks after the
  watchdog, the state of the network, WPS and the guests' network.

  Messages are a type byte, a length of 1 to 4 bytes in groups of seven bits, an option (the length
  of an address in two bytes and the address), and a JSON object that is written by macros and read
  by a hand-written item parser.

  Theories, and the code they model.
    Prelude        faults (undefined behaviour as a value), return codes, C strings and arrays
    Decimal        printf of integers and atoi, atol
    JsonBuild      the FORMAT_JSON_ITEM and ADD macros of hert_msg.c (lines 59 to 109)
    JsonParse      ParseJsonString of hert_msg.c
    WireLength     SetMsgLengthItem, Parse_Msg_Data, GetHighLowFromString, GetLengthFromTwoBytes
    MsgBuild       Build_Msg functions with a fixed layout, hert_msg.h's structs as records
    MsgParse       Parse_Msg functions
    MsgList        Build_Msg functions with a list (status, flows, domains, missions), hert_des.c
    Base64         the Base64 coders of hert_com.c
    Nvram          nvram_env.c: the blocks in flash, their caches, get, set, commit, clear
    DownloadQueue  the list of downloads in hert_util.c (lines 923 to 1064)
    AppState       state of hert_app.c (HERT_WORKDATA and its static variables are the record
                   hert_world), what it reads from the device (the record hert_env), the messages
                   the client sends
    AppPush        Msg_Process_PushData and its handlers
    AppRun         Msg_Process_Internel, Msg_Process_Entry, HERT_APP_Init, main and the download
                   thread as steps; hert_reach are the states the program can reach
    AppProps       the invariant of the reachable states, registration
    AppDaily       the download thread, the daily report, the download tool
    AppAnswers     from the bytes of a request to the bytes of its answer
    AppThread      the list of downloads as an abstract list, many passes of the download thread
    DeviceText     the readers of settings, process lists, name servers, rates, versions and dates in
                   hert_util.c and hert_com.c: functions from the text a command or file gives
    DeviceDisk     the disk partitions (hert_com.c, lines 357 to 574 and 672 to 713)
    DeviceList     the tables of clients and the device list (hert_com.c, lines 1130 to 1473 and 1658
                   to 1770)
    DeviceFiles    the small readers and writers of hert_com.c and hert_util.c: directories, uptime, flash, the
                   key from the platform, the notes between the programs, the log
    Monitor        hertMonitor.c and the probes of hert_tcp.c: a pass of the main loop (main_pass) and
                   of the second thread (ping_pass) as functions of what they read
    MonitorProps   what the watchdog does over many passes
    Transport      hert_tcp.c: the connection of the client and its attempts, the session of the watchdog and
                   its probes, with the open descriptors; the dump of messages
    TransportProps when the client connects, that the probe on a session is the probe of Monitor, what
                   interrupted probes leave open
    Ping           hert_ping_new.c: requests, their checksum, the packets that come back, the wait
    PingProps      what a request is, when a host counts as reached, the leases of the wired clients
    AccessRules    goahead/src/heroute_util.c (lines 1359 to 2097): the rules for the clients' access to
                   the internet, in the setting InternetRules, in a table of the web server and in
                   the firewall
    AccessProps    the rules as a list of records, and that the firewall follows it
    QosRules       heroute_util.c (lines 2101 to 2269): the rules for the clients' share of the line
    WebJson        the item parser of the web server (heroute_util.c, lines 434 to 604)
    WebBase64      goahead/src/base64.c
    WebParse       websHertAppPro_ParseMsgReq and websHertAppPro_Parse_Msg_Type of herouter.c
    WebBuild       websHertAppPro_BuildMsgRsp, hertUtil_BuildErrMsgRsp
    WebApi         the state of the web server (record web_world: globals, cache and flash of the
                   settings, the table of rules, what was done) and what it reads (record web_env); the
                   handlers for status, number, disk, password, network, rules, devices, strength, channel
    WebDevice      the handlers for abilities, upgrade, faults, WPS, closing the wireless network
    WebGuest       the guests' network: its handlers, its clock, the settings with a value for each network
    WebPictures    the handlers for the pictures, the upload and the download
    WebServer      the dispatch of the 22 types, websHertAppProcess and websHertAppHandler
    WebItems       what the item parser makes of well formed objects
    WebRequests    from the text of a request to its handler and the values it gets
    WebRules       a rule that is set and asked for
    WebGuard       sessions of requests: which settings they leave alone
    WebNetwork     the request for the network settings; the theorem on sessions
    WebFiles       the pictures and the upgrade from the request to what the device does
    WebThread      goahead.c, Update_Router_Status_Thread: a pass of the status thread (status_pass)
    WebThreadProps many passes of it, alone and together with the watchdog
    DevicePage     the devices on the pages: heroute_util.c (lines 1068 to 1163), getCliList and getDhcpList of
                   internet.c
    ValueLists     texts that are lists of values: getNthValueSafe, deleteNthValueMulti, getValueCount of
                   goahead/src/utils.c, getNums of firewall.c; the interface of a kind of rule (locale
                   rule_list), interpreted for forwardings, single ports, triggers, the filter and URLs
    FirewallRules  firewall.c: the tests of what the user wrote, the commands for the rules, the forms that add
                   rules and take them out
    FirewallPages  firewall.c: the start of the chains, the other forms, the tables of the pages (as rows)
    FirewallProps  adding and deleting forwardings and single ports
    FirewallFilter the filter of addresses and ports, the triggers
    QosPages       goahead/src/qos.c: the pages for the shares of the line, and what they do to the rules
    WebUtil        the rest of heroute_util.c: the log, the filter of addresses, the reader of a rule
    FirewallPageProps  the start, the table against the rules, the table that never ends, the filter of URLs

  Correspondence.  A function of C is a definition of the same name.  Its result is Inl of a fault
  where the code has undefined behaviour (a write past an array, a read past an object, a bad free,
  a NULL pointer, a format directive or shell text that comes from outside), and otherwise the return
  code and the new state.  CHAR is a signed byte and DWORD 32 bits; both are words, and sums
  wrap.  Arrays of characters are strings with the bound of the array written where they are filled.
  malloc is a parameter: mem n says whether n bytes can be had.  Each call of send, each command
  line given to system and each signal is recorded in the state, in order.

  What the lemmas show.  For each message: the bytes a builder makes, that they fit, what the parser
  makes of them.  For lists, the store and the downloads: that what is put in comes out, with
  the interface of each stated as a locale and interpreted on the code's definitions.  For the client:
  an invariant of every reachable state, that it is registered by a connection answer only and
  sends nothing but connection requests before, that requests are answered with their own number,
  that each queued download is reported.  For the readers: what they make of well formed texts, and the
  ranges of their results for all texts.  For the watchdog: how often it acts in n passes, and that
  it reports the internet only after a probe.  For the ping tool: that a receiver finds its checksums
  right, that a host counts as reached when a reply with the tool's identifier comes in time, and what that
  means for the leases of the wired clients.  For the rules of the web server: that setting one
  is the operation on the list of records that the text stands for, and that the firewall follows.  For
  the local application: that a request reaches its handler with the values its text has, that without
  proof of the password no row of requests changes a setting outside a list that is written out
  (open_setting), what uploads, downloads and lists of pictures are.  For the status thread: when it
  ends the guests' time and WPS, that it starts the watchdog again, and, as one system with the watchdog
  and the two files between them, that the state "pass" comes from a probe.  And where the code goes wrong: the length coder above 16383
  bytes, messages that overrun their buffer, the daily report's free, the endless download, text
  that reaches the shell.

  For the connections: that the client connects with the first attempt that can succeed, and not otherwise,
  and how many sockets n probes leave open.  For the firewall: which commands the shell gets when a rule is added or
  deleted, that the table on a page is the list of the rules and its check boxes their places, when that table is
  never finished, and what of the other rules is lost.

  Bounds.  Recursions are on lists or have a measure: a message of the input takes at least one byte,
  a download is tried four times.  Loops that may not end (the attempts to connect, waiting for the list of
  downloads, the download tool, waiting for an upgrade) are partial functions whose value None is not returning.

  Assumptions.  The states of the client (hert_reach) begin behind the set-up of its connection, which
  theory Transport models on its own: the code waits until it succeeds.  A pass of the main loop and a pass
  of the download thread run one after the other, not interleaved.  Log output is left out, except for
  one loop that reads memory for it.  CONFIG_DUAL_IMAGE, CONFIG_USER_3G and, in the client,
  RT2860_MBSS_SUPPORT are not defined.  The texts in the records of the DHCP server end with NUL inside
  their arrays, its host names excepted.  What memory holds behind a string copied with memcpy is a parameter.
  In the web server the settings are a cache and a flash, functions from names to values, between
  which nvram_commit and nvram_get copy (the store itself is theory Nvram).  MD5, what commands print,
  what files hold, and whether there is room behind a text in the cache or memory to allocate are fields of
  web_env.  A request and a pass of the status thread run one after the other.  The HTTP headers of
  answers, tests of arguments against NULL and the debug switches are left out.  The byte of the
  wireless strength is the low byte of a little endian word.  T77, RTDEV_SUPPORT and
  CONFIG_RALINKAPP_SUPERDMZ are not defined; whether RT2860_MBSS_SUPPORT and MINIUPNPD_SUPPORT are, is a
  field of web_env.  In the firewall inet_aton, the form and what memory from malloc holds are fields of
  fw_env, and a command is recorded with the text it has, whatever the shell makes of it.

  Not modelled.  The log lines that the modelled functions write.  In the ping tool what it prints, and the
  branches for options that are never set.  In the watchdog the notes in /var/monitor.log, the removal of
  temporary files and the waiting.  Of heroute_util.c the AES coders, which only call a library.  Of
  firewall.c and qos.c the HTML and the table of the forms.  The GoAhead web server under the handlers (its
  sockets and HTTP) is a third-party program; its other pages are the board vendor's.  The Ralink SDK tools,
  drivers, kernel and the bundled packages.
\<close>

end
